(* ===== verification/GoStrings.thy ===== *)
theory GoStrings
  imports Main "HOL-Library.Char_ord" "HOL-Library.List_Lexorder" "HOL-Library.Sublist"
begin

text \<open>
  The part of Go's \<open>strings\<close>, \<open>strconv\<close> and \<open>net\<close> packages the modelled code calls, on byte
  strings (\<open>string\<close>, a list of 8-bit characters, compared bytewise as Go compares strings).
  Case mapping and white space are the ASCII ones: on text with bytes above 127 Go maps
  Unicode runes, which this library leaves alone.
\<close>

section \<open>Characters\<close>

definition is_space :: "char \<Rightarrow> bool" where
  "is_space c \<longleftrightarrow> c = CHR '' '' \<or> (9 \<le> (of_char c :: nat) \<and> (of_char c :: nat) \<le> 13)"

definition is_upper :: "char \<Rightarrow> bool" where
  "is_upper c \<longleftrightarrow> 65 \<le> (of_char c :: nat) \<and> (of_char c :: nat) \<le> 90"

definition is_lower :: "char \<Rightarrow> bool" where
  "is_lower c \<longleftrightarrow> 97 \<le> (of_char c :: nat) \<and> (of_char c :: nat) \<le> 122"

definition is_digit :: "char \<Rightarrow> bool" where
  "is_digit c \<longleftrightarrow> 48 \<le> (of_char c :: nat) \<and> (of_char c :: nat) \<le> 57"

definition lower_char :: "char \<Rightarrow> char" where
  "lower_char c = (if is_upper c then char_of (of_char c + 32 :: nat) else c)"

definition upper_char :: "char \<Rightarrow> char" where
  "upper_char c = (if is_lower c then char_of (of_char c - 32 :: nat) else c)"

lemma lower_char_not_upper: "\<not> is_upper (lower_char c)"
proof (cases "is_upper c")
  case True
  then have "(of_char c :: nat) + 32 < 256" by (simp add: is_upper_def)
  then have "(of_char (lower_char c) :: nat) = of_char c + 32"
    using True by (simp add: lower_char_def of_char_of)
  with True show ?thesis by (simp add: is_upper_def)
next
  case False
  then show ?thesis by (simp add: lower_char_def)
qed

lemma lower_char_idem [simp]: "lower_char (lower_char c) = lower_char c"
  using lower_char_not_upper [of c] by (simp add: lower_char_def)

lemma of_char_lower_upper:
  "is_upper c \<Longrightarrow> (of_char (lower_char c) :: nat) = of_char c + 32"
  by (simp add: lower_char_def is_upper_def of_char_of)

lemma is_space_lower [simp]: "is_space (lower_char c) = is_space c"
proof (cases "is_upper c")
  case True
  then have h: "(of_char (lower_char c) :: nat) = of_char c + 32" "65 \<le> (of_char c :: nat)"
    by (simp_all add: of_char_lower_upper is_upper_def)
  have "lower_char c \<noteq> CHR '' ''" "c \<noteq> CHR '' ''"
    using h by auto
  with h show ?thesis by (simp add: is_space_def)
next
  case False
  then show ?thesis by (simp add: lower_char_def)
qed

section \<open>Strings\<close>

definition to_lower :: "string \<Rightarrow> string" where
  "to_lower = map lower_char"

definition to_upper :: "string \<Rightarrow> string" where
  "to_upper = map upper_char"

definition equal_fold :: "string \<Rightarrow> string \<Rightarrow> bool" where
  "equal_fold a b \<longleftrightarrow> to_lower a = to_lower b"

definition trim_left :: "string \<Rightarrow> string" where
  "trim_left = dropWhile is_space"

definition trim_right :: "string \<Rightarrow> string" where
  "trim_right s = rev (dropWhile is_space (rev s))"

definition trim_space :: "string \<Rightarrow> string" where
  "trim_space s = trim_right (trim_left s)"

definition trim_right_chars :: "char list \<Rightarrow> string \<Rightarrow> string" where
  "trim_right_chars cs s = rev (dropWhile (\<lambda>c. c \<in> set cs) (rev s))"

definition trim_left_chars :: "char list \<Rightarrow> string \<Rightarrow> string" where
  "trim_left_chars cs s = dropWhile (\<lambda>c. c \<in> set cs) s"

definition has_prefix :: "string \<Rightarrow> string \<Rightarrow> bool" where
  "has_prefix s p \<longleftrightarrow> prefix p s"

definition has_suffix :: "string \<Rightarrow> string \<Rightarrow> bool" where
  "has_suffix s p \<longleftrightarrow> suffix p s"

definition trim_prefix :: "string \<Rightarrow> string \<Rightarrow> string" where
  "trim_prefix s p = (if has_prefix s p then drop (length p) s else s)"

definition trim_suffix :: "string \<Rightarrow> string \<Rightarrow> string" where
  "trim_suffix s p = (if has_suffix s p then take (length s - length p) s else s)"

fun index_byte :: "string \<Rightarrow> char \<Rightarrow> nat option" where
  "index_byte [] c = None"
| "index_byte (x # xs) c = (if x = c then Some 0 else map_option Suc (index_byte xs c))"

definition last_index_byte :: "string \<Rightarrow> char \<Rightarrow> nat option" where
  "last_index_byte s c = map_option (\<lambda>i. length s - Suc i) (index_byte (rev s) c)"

fun index_str :: "string \<Rightarrow> string \<Rightarrow> nat option" where
  "index_str [] p = (if p = [] then Some 0 else None)"
| "index_str (x # xs) p =
     (if prefix p (x # xs) then Some 0 else map_option Suc (index_str xs p))"

definition contains_byte :: "string \<Rightarrow> char \<Rightarrow> bool" where
  "contains_byte s c \<longleftrightarrow> c \<in> set s"

definition contains_str :: "string \<Rightarrow> string \<Rightarrow> bool" where
  "contains_str s p \<longleftrightarrow> index_str s p \<noteq> None"

text \<open>\<open>strings.Split\<close> on a one-byte separator: always at least one part.\<close>

fun split_on :: "char \<Rightarrow> string \<Rightarrow> string list" where
  "split_on c [] = [[]]"
| "split_on c (x # xs) =
     (if x = c then [] # split_on c xs
      else (case split_on c xs of [] \<Rightarrow> [[x]] | y # ys \<Rightarrow> (x # y) # ys))"

text \<open>\<open>strings.SplitN (s, c, 2)\<close>: one part, or the parts around the first \<open>c\<close>.\<close>

definition split2 :: "char \<Rightarrow> string \<Rightarrow> string \<times> string option" where
  "split2 c s = (case index_byte s c of
      None \<Rightarrow> (s, None)
    | Some i \<Rightarrow> (take i s, Some (drop (Suc i) s)))"

fun join_with :: "string \<Rightarrow> string list \<Rightarrow> string" where
  "join_with sep [] = []"
| "join_with sep [x] = x"
| "join_with sep (x # y # ys) = x @ sep @ join_with sep (y # ys)"

lemma to_lower_simps [simp]:
  "to_lower [] = []" "to_lower (c # s) = lower_char c # to_lower s"
  "to_lower (s @ t) = to_lower s @ to_lower t" "length (to_lower s) = length s"
  "to_lower (to_lower s) = to_lower s"
  by (simp_all add: to_lower_def)

lemma trim_left_idem [simp]: "trim_left (trim_left s) = trim_left s"
  by (simp add: trim_left_def dropWhile_idem)

lemma trim_right_idem [simp]: "trim_right (trim_right s) = trim_right s"
  by (simp add: trim_right_def dropWhile_idem)

lemma trim_right_prefix: "\<exists>t. s = trim_right s @ t \<and> (\<forall>c \<in> set t. is_space c)"
proof -
  have "rev s = takeWhile is_space (rev s) @ dropWhile is_space (rev s)" by simp
  then have "s = rev (dropWhile is_space (rev s)) @ rev (takeWhile is_space (rev s))"
    by (metis rev_append rev_rev_ident)
  then show ?thesis
    unfolding trim_right_def by (metis set_rev set_takeWhileD)
qed

lemma trim_left_fix: "trim_left s = s \<longleftrightarrow> (s = [] \<or> \<not> is_space (hd s))"
proof (cases s)
  case (Cons c t)
  show ?thesis
  proof (cases "is_space c")
    case True
    have "length (dropWhile is_space t) \<le> length t" by (rule length_dropWhile_le)
    then have "dropWhile is_space t \<noteq> c # t" by (metis impossible_Cons)
    with True Cons show ?thesis by (simp add: trim_left_def)
  next
    case False
    with Cons show ?thesis by (simp add: trim_left_def)
  qed
qed (simp add: trim_left_def)

lemma trim_right_fix: "trim_right s = s \<longleftrightarrow> (s = [] \<or> \<not> is_space (last s))"
  using trim_left_fix [of "rev s"]
  by (auto simp: trim_right_def trim_left_def hd_rev rev_swap)

lemma trim_space_fix:
  "trim_space s = s \<longleftrightarrow> (s = [] \<or> \<not> is_space (hd s) \<and> \<not> is_space (last s))"
proof
  assume eq: "trim_space s = s"
  have l1: "length (trim_left s) \<le> length s" by (simp add: trim_left_def length_dropWhile_le)
  have l2: "length (trim_right (trim_left s)) \<le> length (trim_left s)"
    by (metis trim_right_prefix le_add1 length_append)
  from eq l1 l2 have "length (trim_left s) = length s" by (simp add: trim_space_def)
  then have "trim_left s = s"
    by (simp add: trim_left_def)
      (metis append_eq_conv_conj length_append self_append_conv2 takeWhile_dropWhile_id
        add_cancel_left_left length_0_conv)
  moreover from this eq have "trim_right s = s" by (simp add: trim_space_def)
  ultimately show "s = [] \<or> \<not> is_space (hd s) \<and> \<not> is_space (last s)"
    using trim_left_fix trim_right_fix by blast
next
  assume "s = [] \<or> \<not> is_space (hd s) \<and> \<not> is_space (last s)"
  then show "trim_space s = s"
    by (metis trim_left_fix trim_right_fix trim_space_def)
qed

lemma trim_space_idem [simp]: "trim_space (trim_space s) = trim_space s"
proof -
  obtain t where t: "trim_left s = trim_right (trim_left s) @ t"
    using trim_right_prefix by blast
  have "trim_left s = [] \<or> \<not> is_space (hd (trim_left s))"
    using trim_left_fix [of "trim_left s"] by simp
  with t have "trim_left (trim_right (trim_left s)) = trim_right (trim_left s)"
    by (metis append_is_Nil_conv hd_append2 trim_left_fix)
  then show ?thesis by (simp add: trim_space_def)
qed

lemma trim_space_lower [simp]: "trim_space (to_lower s) = to_lower s \<longleftrightarrow> trim_space s = s"
  by (cases "s = []") (simp_all add: trim_space_fix to_lower_def hd_map last_map)

section \<open>Searching and splitting\<close>

lemma index_byte_None [simp]: "index_byte s c = None \<longleftrightarrow> c \<notin> set s"
  by (induction s) auto

lemma index_byte_Some:
  "index_byte s c = Some i \<Longrightarrow> s = take i s @ c # drop (Suc i) s \<and> c \<notin> set (take i s)"
  by (induction s arbitrary: i) (auto split: if_splits)

lemma index_byte_less: "index_byte s c = Some i \<Longrightarrow> i < length s"
  by (induction s arbitrary: i) (auto split: if_splits)

lemma index_byte_drop: "index_byte s c = Some i \<Longrightarrow> drop i s = c # drop (Suc i) s"
  by (induction s arbitrary: i) (auto split: if_splits)

lemma index_byte_append [simp]: "c \<notin> set s \<Longrightarrow> index_byte (s @ c # t) c = Some (length s)"
  by (induction s) auto

lemma last_index_byte_None [simp]: "last_index_byte s c = None \<longleftrightarrow> c \<notin> set s"
  by (simp add: last_index_byte_def)

lemma last_index_byte_append [simp]:
  "c \<notin> set t \<Longrightarrow> last_index_byte (s @ c # t) c = Some (length s)"
  by (simp add: last_index_byte_def)

lemma last_index_byte_Some:
  assumes "last_index_byte s c = Some i"
  shows "s = take i s @ c # drop (Suc i) s \<and> c \<notin> set (drop (Suc i) s)"
proof -
  from assms have "c \<in> set s" by (metis last_index_byte_None option.distinct(1))
  then obtain a b where s: "s = a @ c # b" "c \<notin> set b"
    by (metis split_list_last)
  with assms have "i = length a" by simp
  with s show ?thesis by simp
qed

lemma index_str_None: "index_str s p = None \<longleftrightarrow> \<not> sublist p s"
  by (induction s) (auto simp: sublist_Cons_right)

lemma index_str_Some:
  "index_str s p = Some i \<Longrightarrow> s = take i s @ p @ drop (i + length p) s \<and> i + length p \<le> length s"
proof (induction s arbitrary: i)
  case Nil
  then show ?case by (simp split: if_splits)
next
  case (Cons x s)
  show ?case
  proof (cases "prefix p (x # s)")
    case True
    with Cons.prems have "i = 0" by simp
    moreover from True obtain b where "x # s = p @ b" by (auto elim: prefixE)
    ultimately show ?thesis
      by (metis add_0 append_Nil append_eq_conv_conj le_add1 length_append take_0)
  next
    case False
    with Cons.prems obtain j where "index_str s p = Some j" "i = Suc j" by auto
    with Cons.IH [of j] show ?thesis by simp
  qed
qed

lemma contains_str_iff: "contains_str s p \<longleftrightarrow> sublist p s"
  using index_str_None [of s p] by (auto simp: contains_str_def)

lemma split_on_nonempty [simp]: "split_on c s \<noteq> []"
  by (cases s) (auto split: list.splits)

lemma join_split_on: "join_with [c] (split_on c s) = s"
proof (induction s)
  case (Cons x s)
  obtain y ys where e: "split_on c s = y # ys"
    using split_on_nonempty [of c s] by (meson neq_Nil_conv)
  with Cons show ?case by (cases ys) auto
qed simp

lemma split_on_append: "c \<notin> set a \<Longrightarrow> split_on c (a @ c # b) = a # split_on c b"
  by (induction a) auto

lemma split_on_none: "c \<notin> set a \<Longrightarrow> split_on c a = [a]"
  by (induction a) auto

lemma split_on_no_sep: "p \<in> set (split_on c s) \<Longrightarrow> c \<notin> set p"
proof (induction s arbitrary: p)
  case (Cons x s)
  obtain y ys where e: "split_on c s = y # ys"
    using split_on_nonempty [of c s] by (meson neq_Nil_conv)
  with Cons show ?case by (auto split: if_splits)
qed simp

text \<open>Two joins with a separator agree only if their parts do, when all but the last part are
  free of the separator.\<close>

lemma append_sep_inj:
  "c \<notin> set a \<Longrightarrow> c \<notin> set b \<Longrightarrow> a @ c # s = b @ c # t \<Longrightarrow> a = b \<and> s = t"
proof (induction a arbitrary: b)
  case Nil
  then show ?case by (cases b) auto
next
  case (Cons x a)
  then show ?case by (cases b) auto
qed

section \<open>Numbers\<close>

definition digit_char :: "nat \<Rightarrow> char" where
  "digit_char d = char_of (48 + d)"

definition digit_val :: "char \<Rightarrow> nat" where
  "digit_val c = of_char c - 48"

fun nat_digits :: "nat \<Rightarrow> string" where
  "nat_digits n = (if n < 10 then [digit_char n] else nat_digits (n div 10) @ [digit_char (n mod 10)])"

declare nat_digits.simps [simp del]

definition itoa :: "int \<Rightarrow> string" where
  "itoa i = (if i < 0 then CHR ''-'' # nat_digits (nat (- i)) else nat_digits (nat i))"

definition digits_val :: "string \<Rightarrow> nat" where
  "digits_val = foldl (\<lambda>n c. 10 * n + digit_val c) 0"

text \<open>The range of Go's \<open>int\<close> on a 64-bit platform, and wrapping into it.\<close>

definition int64_range :: "int \<Rightarrow> bool" where
  "int64_range i \<longleftrightarrow> - (2 ^ 63) \<le> i \<and> i < 2 ^ 63"

definition wrap64 :: "int \<Rightarrow> int" where
  "wrap64 i = (i + 2 ^ 63) mod 2 ^ 64 - 2 ^ 63"

text \<open>\<open>strconv.Atoi\<close>: an optional sign, at least one digit, nothing else, in range.\<close>

definition atoi :: "string \<Rightarrow> int option" where
  "atoi s =
     (let (neg, ds) = (case s of
           c # t \<Rightarrow> if c = CHR ''-'' then (True, t) else if c = CHR ''+'' then (False, t) else (False, s)
         | [] \<Rightarrow> (False, []));
          v = (if neg then - int (digits_val ds) else int (digits_val ds))
      in if ds \<noteq> [] \<and> list_all is_digit ds \<and> int64_range v then Some v else None)"

lemma wrap64_id: "int64_range i \<Longrightarrow> wrap64 i = i"
  by (simp add: wrap64_def int64_range_def)

lemma wrap64_range: "int64_range (wrap64 i)"
proof -
  have "0 \<le> (i + 2 ^ 63) mod 2 ^ 64" "(i + 2 ^ 63) mod 2 ^ 64 < 2 ^ 64"
    by (simp, rule pos_mod_bound, simp)
  then show ?thesis by (simp add: wrap64_def int64_range_def)
qed

lemma digit_char_props:
  assumes "d < 10"
  shows "is_digit (digit_char d)" "digit_val (digit_char d) = d"
proof -
  have "(of_char (char_of (48 + d :: nat)) :: nat) = 48 + d"
    using assms by (simp add: of_char_of)
  with assms show "is_digit (digit_char d)" "digit_val (digit_char d) = d"
    by (simp_all add: digit_char_def is_digit_def digit_val_def)
qed

lemma nat_digits_ne [simp]: "nat_digits n \<noteq> []"
  by (subst nat_digits.simps) simp

lemma nat_digits_digits: "list_all is_digit (nat_digits n)"
proof (induction n rule: nat_digits.induct)
  case (1 n)
  then show ?case
    by (cases "n < 10") (simp_all add: nat_digits.simps [of n] digit_char_props)
qed

lemma digits_val_nat_digits: "digits_val (nat_digits n) = n"
proof (induction n rule: nat_digits.induct)
  case (1 n)
  show ?case
  proof (cases "n < 10")
    case True
    then show ?thesis by (simp add: nat_digits.simps [of n] digits_val_def digit_char_props)
  next
    case False
    then have "digits_val (nat_digits n) = 10 * digits_val (nat_digits (n div 10)) + n mod 10"
      by (simp add: nat_digits.simps [of n] digits_val_def digit_char_props)
    with 1 False show ?thesis by simp
  qed
qed

lemma is_digit_sign: "is_digit c \<Longrightarrow> c \<noteq> CHR ''-'' \<and> c \<noteq> CHR ''+''"
  by (auto simp: is_digit_def)

theorem atoi_itoa: "int64_range i \<Longrightarrow> atoi (itoa i) = Some i"
proof -
  assume r: "int64_range i"
  obtain c t where e: "nat_digits (nat i) = c # t"
    by (meson nat_digits_ne neq_Nil_conv)
  have c: "c \<noteq> CHR ''-'' \<and> c \<noteq> CHR ''+''"
    using nat_digits_digits [of "nat i"] is_digit_sign e by simp
  show ?thesis
  proof (cases "i < 0")
    case True
    with r show ?thesis
      by (simp add: atoi_def itoa_def nat_digits_digits digits_val_nat_digits Let_def)
  next
    case False
    have "list_all is_digit (c # t)" "digits_val (c # t) = nat i"
      using nat_digits_digits [of "nat i"] digits_val_nat_digits [of "nat i"] e by simp_all
    with False r c e show ?thesis
      by (simp add: atoi_def itoa_def Let_def)
  qed
qed

lemma nat_digits_inj: "nat_digits a = nat_digits b \<Longrightarrow> a = b"
  by (metis digits_val_nat_digits)

lemma itoa_inj: "itoa a = itoa b \<Longrightarrow> a = b"
proof -
  assume e: "itoa a = itoa b"
  have ne: "nat_digits n \<noteq> CHR ''-'' # t" for n t
    using nat_digits_digits [of n] is_digit_sign by force
  then show ?thesis using e ne [symmetric]
    by (auto simp: itoa_def dest!: nat_digits_inj split: if_splits)
qed

lemma itoa_chars: "c \<in> set (itoa i) \<Longrightarrow> is_digit c \<or> c = CHR ''-''"
  using nat_digits_digits by (auto simp: itoa_def list_all_iff split: if_splits)

section \<open>Host and port\<close>

text \<open>\<open>net.SplitHostPort\<close>; \<open>None\<close> stands for its error.\<close>

definition split_host_port :: "string \<Rightarrow> (string \<times> string) option" where
  "split_host_port hp =
     (case last_index_byte hp (CHR '':'') of
        None \<Rightarrow> None
      | Some i \<Rightarrow>
          if hd hp = CHR ''['' then
            (case index_byte hp (CHR '']'') of
               None \<Rightarrow> None
             | Some e \<Rightarrow>
                 if Suc e = i \<and> \<not> contains_byte (drop 1 hp) (CHR ''['')
                    \<and> \<not> contains_byte (drop (Suc e) hp) (CHR '']'')
                 then Some (take (e - 1) (drop 1 hp), drop (Suc i) hp)
                 else None)
          else if contains_byte (take i hp) (CHR '':'') then None
          else if contains_byte hp (CHR ''['') \<or> contains_byte hp (CHR '']'') then None
          else Some (take i hp, drop (Suc i) hp))"

end
