(* ===== verification/Prelude.thy ===== *)
theory Prelude
  imports GoStrings "HOL-Library.Multiset"
begin

text \<open>
  What the components share: the collections of hints their proofs draw on, association lists
  as Go maps, the stable sort of \<open>sort.SliceStable\<close> and \<open>sort.Slice\<close> with the interface a
  comparator has to meet, and the interface of a bounded log that drops its oldest entry.
\<close>

named_theorems ops \<open>definitions of operations, for unfolding one step\<close>
named_theorems frames \<open>what an operation leaves unchanged\<close>
named_theorems inv_intros \<open>an operation keeps the invariant of its component\<close>

section \<open>Association lists\<close>

text \<open>A Go map that the code ranges over is an association list with distinct keys; \<open>aput\<close> and
  \<open>adel\<close> are assignment and \<open>delete\<close>.\<close>

fun aput :: "'k \<Rightarrow> 'v \<Rightarrow> ('k \<times> 'v) list \<Rightarrow> ('k \<times> 'v) list" where
  "aput k v [] = [(k, v)]"
| "aput k v ((k', v') # m) = (if k = k' then (k, v) # m else (k', v') # aput k v m)"

definition adel :: "'k \<Rightarrow> ('k \<times> 'v) list \<Rightarrow> ('k \<times> 'v) list" where
  "adel k m = filter (\<lambda>(k', _). k' \<noteq> k) m"

lemma map_of_aput [simp]: "map_of (aput k v m) = (map_of m)(k \<mapsto> v)"
  by (induction k v m rule: aput.induct) (auto simp: fun_upd_twist)

lemma keys_aput [simp]: "fst ` set (aput k v m) = insert k (fst ` set m)"
  by (induction k v m rule: aput.induct) auto

lemma distinct_aput: "distinct (map fst m) \<Longrightarrow> distinct (map fst (aput k v m))"
proof (induction k v m rule: aput.induct)
  case (2 k v k' v' m)
  have "set (map fst (aput k v m)) = insert k (fst ` set m)" by simp
  with 2 show ?case by auto
qed simp

lemma map_of_adel [simp]: "map_of (adel k m) = (map_of m)(k := None)"
  by (induction m) (auto simp: adel_def fun_eq_iff)

lemma distinct_adel: "distinct (map fst m) \<Longrightarrow> distinct (map fst (adel k m))"
  by (induction m) (auto simp: adel_def)

lemma keys_adel [simp]: "fst ` set (adel k m) = fst ` set m - {k}"
  by (auto simp: adel_def)

section \<open>Stable sorting by a comparator\<close>

fun insert_by :: "('a \<Rightarrow> 'a \<Rightarrow> bool) \<Rightarrow> 'a \<Rightarrow> 'a list \<Rightarrow> 'a list" where
  "insert_by lt x [] = [x]"
| "insert_by lt x (y # ys) = (if lt y x then y # insert_by lt x ys else x # y # ys)"

definition stable_sort :: "('a \<Rightarrow> 'a \<Rightarrow> bool) \<Rightarrow> 'a list \<Rightarrow> 'a list" where
  "stable_sort lt xs = foldr (insert_by lt) xs []"

lemma mset_insert_by [simp]: "mset (insert_by lt x ys) = add_mset x (mset ys)"
  by (induction ys) auto

lemma mset_stable_sort [simp]: "mset (stable_sort lt xs) = mset xs"
  by (induction xs) (auto simp: stable_sort_def)

lemma set_stable_sort [simp]: "set (stable_sort lt xs) = set xs"
  by (metis mset_stable_sort set_mset_mset)

lemma length_stable_sort [simp]: "length (stable_sort lt xs) = length xs"
  by (metis mset_stable_sort size_mset)

lemma stable_sort_Nil [simp]: "stable_sort lt [] = []"
  by (simp add: stable_sort_def)

lemma stable_sort_Cons: "stable_sort lt (x # xs) = insert_by lt x (stable_sort lt xs)"
  by (simp add: stable_sort_def)

text \<open>What a sort needs of its comparator: a strict weak order.\<close>

locale comparator =
  fixes lt :: "'a \<Rightarrow> 'a \<Rightarrow> bool"
  assumes asym: "lt a b \<Longrightarrow> \<not> lt b a"
    and neg_trans: "lt a c \<Longrightarrow> lt a b \<or> lt b c"
begin

lemma irrefl: "\<not> lt a a"
  using asym by blast

lemma set_insert_by [simp]: "set (insert_by lt x ys) = insert x (set ys)"
  by (induction ys) auto

lemma sorted_insert_by:
  "sorted_wrt (\<lambda>a b. \<not> lt b a) ys \<Longrightarrow> sorted_wrt (\<lambda>a b. \<not> lt b a) (insert_by lt x ys)"
proof (induction ys)
  case (Cons y ys)
  then show ?case using asym neg_trans by (auto; blast)
qed simp

lemma sorted_stable_sort: "sorted_wrt (\<lambda>a b. \<not> lt b a) (stable_sort lt xs)"
  by (induction xs) (auto simp: stable_sort_Cons sorted_insert_by)

lemma insert_by_head:
  "\<forall>y \<in> set ys. \<not> lt y x \<Longrightarrow> insert_by lt x ys = x # ys"
  by (cases ys) auto

lemma stable_sort_sorted:
  "sorted_wrt (\<lambda>a b. \<not> lt b a) xs \<Longrightarrow> stable_sort lt xs = xs"
  by (induction xs) (auto simp: stable_sort_Cons insert_by_head)

lemma stable_sort_idem [simp]: "stable_sort lt (stable_sort lt xs) = stable_sort lt xs"
  by (rule stable_sort_sorted) (rule sorted_stable_sort)

text \<open>Elements the comparator does not tell apart keep their order.\<close>

definition same :: "'a \<Rightarrow> 'a \<Rightarrow> bool" where
  "same a b \<longleftrightarrow> \<not> lt a b \<and> \<not> lt b a"

lemma insert_by_stable:
  "sorted_wrt (\<lambda>a b. \<not> lt b a) ys \<Longrightarrow>
   filter (same z) (insert_by lt x ys) = filter (same z) (x # ys)"
proof (induction ys)
  case (Cons y ys)
  show ?case
  proof (cases "lt y x")
    case True
    then have "\<not> (same z x \<and> same z y)"
      using neg_trans [of y x z] by (auto simp: same_def)
    with True Cons show ?thesis by auto
  qed simp
qed simp

text \<open>The first element of the sorted list that passes a test is the first one, in the given
  order, among the least that pass it.\<close>

lemma find_insert_by:
  "sorted_wrt (\<lambda>a b. \<not> lt b a) ys \<Longrightarrow>
   find P (insert_by lt x ys) =
     (if P x then (case find P ys of Some y \<Rightarrow> if lt y x then Some y else Some x | None \<Rightarrow> Some x)
      else find P ys)"
proof (induction ys)
  case (Cons y ys)
  have "\<not> lt z x" if "\<not> lt y x" "z \<in> set ys" for z
    using that neg_trans [of z x y] Cons.prems by auto
  then have "\<not> lt y x \<Longrightarrow> find P ys = Some z \<Longrightarrow> \<not> lt z x" for z
    by (auto simp: find_Some_iff)
  with Cons show ?case by (auto split: option.splits)
qed simp

lemma find_stable_sort:
  "find P (stable_sort lt xs) = Some r \<Longrightarrow>
   \<exists>i < length xs. xs ! i = r \<and> P r
     \<and> (\<forall>j < length xs. P (xs ! j) \<longrightarrow> \<not> lt (xs ! j) r \<and> (lt r (xs ! j) \<or> i \<le> j))"
proof (induction xs arbitrary: r)
  case (Cons x xs)
  let ?f = "find P (stable_sort lt xs)"
  have f: "find P (stable_sort lt (x # xs)) =
      (if P x then (case ?f of Some y \<Rightarrow> if lt y x then Some y else Some x | None \<Rightarrow> Some x) else ?f)"
    by (simp add: stable_sort_Cons find_insert_by sorted_stable_sort)
  show ?case
  proof (cases "?f = Some r \<and> (P x \<longrightarrow> lt r x)")
    case True
    with Cons.IH [of r] obtain i where i: "i < length xs" "xs ! i = r" "P r"
      "\<And>j. j < length xs \<Longrightarrow> P (xs ! j) \<Longrightarrow> \<not> lt (xs ! j) r \<and> (lt r (xs ! j) \<or> i \<le> j)" by blast
    have "\<not> lt ((x # xs) ! j) r \<and> (lt r ((x # xs) ! j) \<or> Suc i \<le> j)"
      if "j < length (x # xs)" "P ((x # xs) ! j)" for j
      using that True asym [of r x] i(4) [of "j - 1"] by (cases j) auto
    with i show ?thesis by (intro exI [of _ "Suc i"]) auto
  next
    case False
    with Cons.prems f have x: "P x" "r = x" "\<And>y. ?f = Some y \<Longrightarrow> \<not> lt y x"
      by (auto split: option.splits if_splits)
    have "\<not> lt z x" if z: "z \<in> set xs" "P z" for z
    proof -
      obtain y where y: "?f = Some y"
        using z by (cases ?f) (auto simp: find_None_iff)
      with Cons.IH z have "\<not> lt z y" by (metis in_set_conv_nth)
      with x(3) [OF y] show ?thesis using neg_trans by blast
    qed
    then have "\<forall>j < length (x # xs). P ((x # xs) ! j) \<longrightarrow> \<not> lt ((x # xs) ! j) x"
      using irrefl by (auto simp: nth_Cons split: nat.splits)
    with x show ?thesis by (intro exI [of _ 0]) auto
  qed
qed simp

lemma stable: "filter (same z) (stable_sort lt xs) = filter (same z) xs"
  by (induction xs) (simp_all add: stable_sort_Cons insert_by_stable sorted_stable_sort)

end

text \<open>A comparator that tells any two different elements of a set apart: the sorted order is
  then unique, whatever order the elements came in (a Go map's, for one).\<close>

locale total_comparator = comparator +
  fixes D :: "'a set"
  assumes total: "a \<in> D \<Longrightarrow> b \<in> D \<Longrightarrow> a \<noteq> b \<Longrightarrow> lt a b \<or> lt b a"
begin

lemma sorted_unique:
  "mset xs = mset ys \<Longrightarrow> set xs \<subseteq> D \<Longrightarrow> sorted_wrt (\<lambda>a b. \<not> lt b a) xs \<Longrightarrow>
   sorted_wrt (\<lambda>a b. \<not> lt b a) ys \<Longrightarrow> xs = ys"
proof (induction xs arbitrary: ys)
  case (Cons x xs)
  then obtain y ys' where ys: "ys = y # ys'" by (cases ys) auto
  have "x \<in> set ys" "y \<in> set (x # xs)"
    using Cons.prems(1) ys by (metis list.set_intros(1) set_mset_mset)+
  then have "x = y"
    using Cons.prems ys total [of x y] by auto
  with Cons ys show ?case by auto
qed simp

lemma order_independent:
  "mset xs = mset ys \<Longrightarrow> set xs \<subseteq> D \<Longrightarrow> stable_sort lt xs = stable_sort lt ys"
  by (rule sorted_unique) (simp_all add: sorted_stable_sort)

end

section \<open>Strict orders, built up\<close>

definition lex_less :: "('a \<Rightarrow> 'k :: linorder) \<Rightarrow> ('a \<Rightarrow> 'a \<Rightarrow> bool) \<Rightarrow> 'a \<Rightarrow> 'a \<Rightarrow> bool" where
  "lex_less f r a b \<longleftrightarrow> f a < f b \<or> (f a = f b \<and> r a b)"

lemma comparator_lex:
  assumes "comparator r"
  shows "comparator (lex_less f r)"
proof
  fix a b c
  show "lex_less f r a b \<Longrightarrow> \<not> lex_less f r b a"
    using comparator.asym [OF assms] by (auto simp: lex_less_def)
  show "lex_less f r a c \<Longrightarrow> lex_less f r a b \<or> lex_less f r b c"
    using comparator.neg_trans [OF assms, of a c b] by (auto simp: lex_less_def)
qed

lemma comparator_key: "comparator (\<lambda>a b. f a < (f b :: 'k :: linorder))"
  by unfold_locales auto

lemma comparator_False: "comparator (\<lambda>_ _. False)"
  by unfold_locales auto

text \<open>\<open>sort.Strings\<close>.\<close>

definition sort_strings :: "string list \<Rightarrow> string list" where
  "sort_strings = sort"

lemma sort_strings_props [simp]:
  "mset (sort_strings xs) = mset xs" "set (sort_strings xs) = set xs"
  "sorted (sort_strings xs)" "length (sort_strings xs) = length xs"
  "sort_strings (sort_strings xs) = sort_strings xs"
  by (simp_all add: sort_strings_def sorted_sort_id)

section \<open>A bounded log\<close>

text \<open>
  Several components keep the last entries of a stream in a buffer of fixed capacity. The
  interface: adding an entry appends it and, when the buffer is full, drops the oldest.
\<close>

locale bounded_log =
  fixes add :: "'e \<Rightarrow> 'b \<Rightarrow> 'b"
    and entries :: "'b \<Rightarrow> 'e list"
    and capacity :: "'b \<Rightarrow> nat"
    and ok :: "'b \<Rightarrow> bool"
  assumes ok_add: "ok b \<Longrightarrow> ok (add e b)"
    and ok_bound: "ok b \<Longrightarrow> length (entries b) \<le> capacity b \<and> 0 < capacity b"
    and capacity_add: "capacity (add e b) = capacity b"
    and entries_add: "ok b \<Longrightarrow>
      entries (add e b) = drop (Suc (length (entries b)) - capacity b) (entries b @ [e])"
begin

lemma ok_adds: "ok b \<Longrightarrow> ok (fold add es b)"
  by (induction es arbitrary: b) (auto intro: ok_add)

lemma capacity_adds: "capacity (fold add es b) = capacity b"
  by (induction es arbitrary: b) (auto simp: capacity_add)

text \<open>After any number of additions the log holds exactly the newest entries that fit.\<close>

lemma entries_adds:
  "ok b \<Longrightarrow> entries (fold add es b)
     = drop (length (entries b) + length es - capacity b) (entries b @ es)"
proof (induction es arbitrary: b)
  case Nil
  then show ?case using ok_bound by simp
next
  case (Cons e es)
  have len: "length (entries (add e b)) = min (Suc (length (entries b))) (capacity b)"
    using ok_bound [OF Cons.prems] by (auto simp: entries_add [OF Cons.prems])
  have "entries (fold add (e # es) b)
      = drop (length (entries (add e b)) + length es - capacity b) (entries (add e b) @ es)"
    using Cons by (simp add: ok_add capacity_add)
  also have "\<dots> = drop (length (entries b) + length (e # es) - capacity b) (entries b @ e # es)"
  proof (cases "length (entries b) < capacity b")
    case True
    with len show ?thesis by (simp add: entries_add [OF Cons.prems])
  next
    case False
    with ok_bound [OF Cons.prems] have "length (entries b) = capacity b" by simp
    with len ok_bound [OF Cons.prems] show ?thesis
      by (cases "entries b") (simp_all add: entries_add [OF Cons.prems])
  qed
  finally show ?case .
qed

lemma adds_bounded: "ok b \<Longrightarrow> length (entries (fold add es b)) \<le> capacity b"
  using ok_bound [OF ok_adds] capacity_adds by metis

lemma newest_kept: "ok b \<Longrightarrow> entries (add e b) \<noteq> [] \<and> last (entries (add e b)) = e"
  using ok_bound [of b] by (simp add: entries_add)

lemma entries_from: "ok b \<Longrightarrow> set (entries (add e b)) \<subseteq> insert e (set (entries b))"
  using set_drop_subset by (fastforce simp: entries_add)

end

end
