(* ===== verification/Types.thy ===== *)
theory Types
  imports Prelude
begin

text \<open>
  \<open>internal/types/types.go\<close> and the part of \<open>net/http\<close> its records refer to: request
  events, decision effects and sources, decisions, and HTTP headers.
\<close>

section \<open>HTTP headers\<close>

text \<open>\<open>http.Header\<close> maps canonical names to lists of values; \<open>Get\<close>, \<open>Set\<close> and \<open>Del\<close>
  canonicalise the name they are given.\<close>

type_synonym headers = "string \<Rightarrow> string list option"

definition is_token_char :: "char \<Rightarrow> bool" where
  "is_token_char c \<longleftrightarrow> is_upper c \<or> is_lower c \<or> is_digit c
     \<or> c \<in> set ''!#$%&*+-.^_`|~'' \<or> (of_char c :: nat) = 39"

fun canon_from :: "bool \<Rightarrow> string \<Rightarrow> string" where
  "canon_from up [] = []"
| "canon_from up (c # s) =
     (let c' = (if up then upper_char c else lower_char c) in c' # canon_from (c' = CHR ''-'') s)"

definition canon_key :: "string \<Rightarrow> string" where
  "canon_key s = (if list_all is_token_char s then canon_from True s else s)"

definition header_get :: "headers \<Rightarrow> string \<Rightarrow> string" where
  "header_get h name = (case h (canon_key name) of Some (v # _) \<Rightarrow> v | _ \<Rightarrow> [])"

definition header_set :: "headers \<Rightarrow> string \<Rightarrow> string \<Rightarrow> headers" where
  "header_set h name v = h(canon_key name \<mapsto> [v])"

definition header_del :: "headers \<Rightarrow> string \<Rightarrow> headers" where
  "header_del h name = h(canon_key name := None)"

lemma header_get_set: "header_get (header_set h n v) m = (if canon_key m = canon_key n then v else header_get h m)"
  by (simp add: header_get_def header_set_def)

lemma header_get_del: "header_get (header_del h n) m = (if canon_key m = canon_key n then [] else header_get h m)"
  by (simp add: header_get_def header_del_def)

section \<open>Effects and sources\<close>

text \<open>
  \<open>Effect\<close> is a string type with eight named values. A rule file's text is converted to it
  without a check, so the model keeps a constructor for every other string.
\<close>

datatype effect =
    EffectAllow
  | EffectDeny
  | EffectAskUser
  | EffectAskLLM
  | EffectAskUserResolvedAllow
  | EffectAskUserResolvedDeny
  | EffectAskUserTimedOut
  | EffectAskUserSignaled
  | EffectOther string

fun effect_string :: "effect \<Rightarrow> string" where
  "effect_string EffectAllow = ''allow''"
| "effect_string EffectDeny = ''deny''"
| "effect_string EffectAskUser = ''ask_user''"
| "effect_string EffectAskLLM = ''ask_llm''"
| "effect_string EffectAskUserResolvedAllow = ''ask_user_resolved_allow''"
| "effect_string EffectAskUserResolvedDeny = ''ask_user_resolved_deny''"
| "effect_string EffectAskUserTimedOut = ''ask_user_timed_out''"
| "effect_string EffectAskUserSignaled = ''ask_user_signaled''"
| "effect_string (EffectOther s) = s"

definition named_effects :: "effect list" where
  "named_effects = [EffectAllow, EffectDeny, EffectAskUser, EffectAskLLM,
     EffectAskUserResolvedAllow, EffectAskUserResolvedDeny, EffectAskUserTimedOut,
     EffectAskUserSignaled]"

text \<open>The conversion \<open>types.Effect(s)\<close>.\<close>

definition effect_of_string :: "string \<Rightarrow> effect" where
  "effect_of_string s =
     (case find (\<lambda>e. effect_string e = s) named_effects of Some e \<Rightarrow> e | None \<Rightarrow> EffectOther s)"

lemma effect_string_of_string [simp]: "effect_string (effect_of_string s) = s"
  by (auto simp: effect_of_string_def split: option.splits dest: find_Some_iff [THEN iffD1])

lemma effect_of_string_simps [simp]:
  "effect_of_string ''allow'' = EffectAllow" "effect_of_string ''deny'' = EffectDeny"
  "effect_of_string ''ask_user'' = EffectAskUser" "effect_of_string ''ask_llm'' = EffectAskLLM"
  by (simp_all add: effect_of_string_def named_effects_def)

datatype decision_source =
    SourceRule
  | SourceDefault
  | SourceLLMAdvisor
  | SourceApprovalQueue
  | SourceApprovalTimeout
  | SourceAllowList
  | SourceDenyList
  | SourceTLSHandshakeFail
  | SourceMalformedTunnel
  | SourceBodyReadFail
  | SourceOpenMode
  | SourceOther string

fun source_string :: "decision_source \<Rightarrow> string" where
  "source_string SourceRule = ''rule''"
| "source_string SourceDefault = ''default''"
| "source_string SourceLLMAdvisor = ''llm_advisor''"
| "source_string SourceApprovalQueue = ''approval_queue''"
| "source_string SourceApprovalTimeout = ''approval_timeout''"
| "source_string SourceAllowList = ''allowlist''"
| "source_string SourceDenyList = ''denylist''"
| "source_string SourceTLSHandshakeFail = ''tls_handshake_fail''"
| "source_string SourceMalformedTunnel = ''malformed_tunnel''"
| "source_string SourceBodyReadFail = ''body_read_fail''"
| "source_string SourceOpenMode = ''open_mode''"
| "source_string (SourceOther s) = s"

definition AllDecisionSources :: "decision_source list" where
  "AllDecisionSources = [SourceRule, SourceDefault, SourceLLMAdvisor, SourceApprovalQueue,
     SourceApprovalTimeout, SourceAllowList, SourceDenyList, SourceTLSHandshakeFail,
     SourceMalformedTunnel, SourceOpenMode, SourceBodyReadFail]"

definition source_of_string :: "string \<Rightarrow> decision_source" where
  "source_of_string s =
     (case find (\<lambda>e. source_string e = s) AllDecisionSources of Some e \<Rightarrow> e | None \<Rightarrow> SourceOther s)"

lemma source_string_of_string [simp]: "source_string (source_of_string s) = s"
  by (auto simp: source_of_string_def split: option.splits dest: find_Some_iff [THEN iffD1])

lemma source_of_string_named [simp]:
  "s \<in> set AllDecisionSources \<Longrightarrow> source_of_string (source_string s) = s"
  by (cases s) (simp_all add: source_of_string_def AllDecisionSources_def)

definition IsHumanOrLLM :: "decision_source \<Rightarrow> bool" where
  "IsHumanOrLLM s \<longleftrightarrow>
     (case s of
        SourceLLMAdvisor \<Rightarrow> True
      | SourceApprovalQueue \<Rightarrow> True
      | SourceApprovalTimeout \<Rightarrow> True
      | SourceOpenMode \<Rightarrow> True
      | _ \<Rightarrow> False)"

section \<open>Requests and decisions\<close>

type_synonym components = "(string \<times> string) list"

record matched_pattern =
  mp_Name :: string
  mp_Components :: components

text \<open>Times are nanoseconds since the Unix epoch; the body sample is its bytes.\<close>

record request_event =
  ev_ID :: string
  ev_SessionID :: string
  ev_IdentityID :: string
  ev_Timestamp :: int
  ev_Method :: string
  ev_Scheme :: string
  ev_Host :: string
  ev_Port :: int
  ev_Path :: string
  ev_Headers :: headers
  ev_ClientAddr :: string
  ev_BodyAvailable :: bool
  ev_BodySize :: int
  ev_BodySample :: string
  ev_MatchedPattern :: "matched_pattern option"

record decision =
  d_Effect :: effect
  d_Source :: decision_source
  d_RuleID :: string
  d_AdvisorID :: string
  d_Reason :: string
  d_Scope :: string
  d_Modifiers :: "string list"
  d_Expires :: int
  d_HoldID :: string

text \<open>Go's zero value of a decision: every composite literal starts from it.\<close>

definition zero_decision :: decision where
  "zero_decision = \<lparr>d_Effect = EffectOther [], d_Source = SourceOther [], d_RuleID = [],
     d_AdvisorID = [], d_Reason = [], d_Scope = [], d_Modifiers = [], d_Expires = 0, d_HoldID = []\<rparr>"

lemma zero_decision_sel [simp]:
  "d_Effect zero_decision = EffectOther []" "d_Source zero_decision = SourceOther []"
  "d_RuleID zero_decision = []" "d_HoldID zero_decision = []" "d_Modifiers zero_decision = []"
  "d_Reason zero_decision = []" "d_AdvisorID zero_decision = []" "d_Scope zero_decision = []"
  by (simp_all add: zero_decision_def)

definition zero_request :: request_event where
  "zero_request = \<lparr>ev_ID = [], ev_SessionID = [], ev_IdentityID = [], ev_Timestamp = 0, ev_Method = [],
     ev_Scheme = [], ev_Host = [], ev_Port = 0, ev_Path = [], ev_Headers = (\<lambda>_. None), ev_ClientAddr = [],
     ev_BodyAvailable = False, ev_BodySize = 0, ev_BodySample = [], ev_MatchedPattern = None\<rparr>"

abbreviation second :: int where "second \<equiv> 1000000000"
abbreviation minute :: int where "minute \<equiv> 60 * second"

end
