(* ===== verification/HostList.thy ===== *)
theory HostList
  imports Types
begin

text \<open>
  \<open>internal/hostlist/hostlist.go\<close> and \<open>ValidatePattern\<close> of \<open>file.go\<close>: the line format of
  the allow and deny lists (\<open>parsePattern\<close>, in the stages of the function), the matcher, the
  loader of inline lists and the test \<open>Subsumes\<close> that decides which entries a
  generalization makes redundant.
\<close>

section \<open>Patterns\<close>

record pattern =
  p_Source :: string
  p_Raw :: string
  p_anyMethod :: bool
  p_method :: string
  p_anyScheme :: bool
  p_scheme :: string
  p_wildcardAllHosts :: bool
  p_wildcardPrefix :: bool
  p_hostSuffix :: string
  p_exactHost :: string
  p_anyPort :: bool
  p_port :: int
  p_anyPath :: bool
  p_pathPrefix :: string
  p_exactPath :: string
  p_matchPrefix :: bool

record host_list =
  hl_Name :: string
  hl_Patterns :: "pattern list"

datatype pattern_error =
    BadScheme string
  | EmptyHost
  | BadHostWildcard
  | BadPort string
  | BadPathWildcard

section \<open>Parsing\<close>

definition isUppercaseLetters :: "string \<Rightarrow> bool" where
  "isUppercaseLetters s \<longleftrightarrow> s \<noteq> [] \<and> list_all is_upper s"

text \<open>The optional method token: whether any method matches, the method, the rest.\<close>

definition parse_method :: "string \<Rightarrow> bool \<times> string \<times> string" where
  "parse_method s =
     (case index_byte s (CHR '' '') of
        None \<Rightarrow> (True, [], s)
      | Some sp \<Rightarrow>
          if sp = 0 then (True, [], s)
          else let head = take sp s in
            if head = ''*'' then (True, [], trim_space (drop (Suc sp) s))
            else if isUppercaseLetters head then (False, head, trim_space (drop (Suc sp) s))
            else (True, [], s))"

definition parse_scheme :: "string \<Rightarrow> pattern_error + bool \<times> string \<times> string" where
  "parse_scheme rest =
     (case index_str rest ''://'' of
        Some i \<Rightarrow>
          (let scheme = to_lower (take i rest) in
           if scheme = ''http'' \<or> scheme = ''https'' then Inr (False, scheme, drop (i + 3) rest)
           else Inl (BadScheme scheme))
      | None \<Rightarrow> Inr (True, [], rest))"

definition split_path :: "string \<Rightarrow> string \<times> string" where
  "split_path rest =
     (case index_byte rest (CHR ''/'') of Some i \<Rightarrow> (take i rest, drop i rest) | None \<Rightarrow> (rest, []))"

definition split_port :: "string \<Rightarrow> string \<times> string" where
  "split_port hostport =
     (case last_index_byte hostport (CHR '':'') of
        Some i \<Rightarrow> (take i hostport, drop (Suc i) hostport)
      | None \<Rightarrow> (hostport, []))"

text \<open>The host: matches all, matches a suffix, the suffix, the exact host.\<close>

definition parse_host :: "string \<Rightarrow> pattern_error + bool \<times> bool \<times> string \<times> string" where
  "parse_host h =
     (let host = to_lower (trim_space h) in
      if host = [] then Inl EmptyHost
      else if host = ''*'' then Inr (True, False, [], [])
      else if has_prefix host ''*.'' then
        (if contains_byte (drop 1 (drop 1 host)) (CHR ''*'') then Inl BadHostWildcard
         else Inr (False, True, drop 1 host, []))
      else if contains_byte host (CHR ''*'') then Inl BadHostWildcard
      else Inr (False, False, [], host))"

definition parse_port :: "string \<Rightarrow> pattern_error + bool \<times> int" where
  "parse_port portPart =
     (if portPart = [] \<or> portPart = ''*'' then Inr (True, 0)
      else (case atoi portPart of
          None \<Rightarrow> Inl (BadPort portPart)
        | Some port \<Rightarrow>
            if port < 1 \<or> port > 65535 then Inl (BadPort portPart) else Inr (False, port)))"

text \<open>The path: matches all, matches a prefix, the prefix, the exact path.\<close>

definition parse_path :: "string \<Rightarrow> pattern_error + bool \<times> bool \<times> string \<times> string" where
  "parse_path pathPart =
     (if pathPart = [] \<or> pathPart = ''/*'' then Inr (True, False, [], [])
      else if has_suffix pathPart ''/*'' then
        Inr (False, True, trim_suffix pathPart ''/*'' @ ''/'', [])
      else if contains_byte pathPart (CHR ''*'') then Inl BadPathWildcard
      else Inr (False, False, [], pathPart))"

definition parsePattern :: "string \<Rightarrow> pattern_error + pattern" where
  "parsePattern s =
     (let (anyM, meth, rest) = parse_method s in
      case parse_scheme rest of
        Inl e \<Rightarrow> Inl e
      | Inr (anyS, sch, rest2) \<Rightarrow>
          (let (hostport, pathPart) = split_path rest2; (host, portPart) = split_port hostport in
           case parse_host host of
             Inl e \<Rightarrow> Inl e
           | Inr (allH, wpre, hsuf, exact) \<Rightarrow>
               (case parse_port portPart of
                  Inl e \<Rightarrow> Inl e
                | Inr (anyP, port) \<Rightarrow>
                    (case parse_path pathPart of
                       Inl e \<Rightarrow> Inl e
                     | Inr (anyPa, mpre, ppre, expa) \<Rightarrow>
                         Inr \<lparr>p_Source = [], p_Raw = s,
                              p_anyMethod = anyM, p_method = meth,
                              p_anyScheme = anyS, p_scheme = sch,
                              p_wildcardAllHosts = allH, p_wildcardPrefix = wpre,
                              p_hostSuffix = hsuf, p_exactHost = exact,
                              p_anyPort = anyP, p_port = port,
                              p_anyPath = anyPa, p_pathPrefix = ppre, p_exactPath = expa,
                              p_matchPrefix = mpre\<rparr>))))"

text \<open>\<open>ValidatePattern\<close>: \<open>None\<close> is acceptance.\<close>

definition ValidatePattern :: "string \<Rightarrow> pattern_error option" where
  "ValidatePattern s =
     (let p = trim_space s in
      if p = [] then Some EmptyHost
      else (case parsePattern p of Inl e \<Rightarrow> Some e | Inr _ \<Rightarrow> None))"

section \<open>Matching\<close>

definition matchMethodPattern :: "pattern \<Rightarrow> string \<Rightarrow> bool" where
  "matchMethodPattern p method = (if p_anyMethod p then True else method = p_method p)"

definition matchSchemePattern :: "pattern \<Rightarrow> string \<Rightarrow> bool" where
  "matchSchemePattern p scheme = (if p_anyScheme p then True else scheme = p_scheme p)"

definition matchHostPattern :: "pattern \<Rightarrow> string \<Rightarrow> bool" where
  "matchHostPattern p host =
     (if p_wildcardAllHosts p then True
      else if p_wildcardPrefix p then
        has_suffix host (p_hostSuffix p) \<and> length host > length (p_hostSuffix p)
      else host = p_exactHost p)"

definition matchPathPattern :: "pattern \<Rightarrow> string \<Rightarrow> bool" where
  "matchPathPattern p path =
     (if p_anyPath p then True
      else if p_matchPrefix p then has_prefix path (p_pathPrefix p)
      else path = p_exactPath p)"

definition matchPortPattern :: "pattern \<Rightarrow> int \<Rightarrow> bool" where
  "matchPortPattern p port = (\<not> (\<not> p_anyPort p \<and> p_port p \<noteq> port))"

definition fires :: "pattern \<Rightarrow> string \<Rightarrow> string \<Rightarrow> string \<Rightarrow> int \<Rightarrow> string \<Rightarrow> bool" where
  "fires p method scheme host port path \<longleftrightarrow>
     matchMethodPattern p method \<and> matchSchemePattern p scheme \<and> matchHostPattern p host
     \<and> matchPortPattern p port \<and> matchPathPattern p path"

text \<open>\<open>(*HostList).Match\<close>; a nil list matches nothing.\<close>

definition Match :: "host_list option \<Rightarrow> string \<Rightarrow> string \<Rightarrow> string \<Rightarrow> int \<Rightarrow> string \<Rightarrow> pattern option" where
  "Match h method scheme host port path =
     (case h of
        None \<Rightarrow> None
      | Some l \<Rightarrow>
          find (\<lambda>p. fires p (to_upper (trim_space method)) (to_lower (trim_space scheme))
                       (to_lower (trim_space host)) port (if path = [] then ''/'' else path))
            (hl_Patterns l))"

section \<open>Loading an inline list\<close>

definition strip_comment :: "string \<Rightarrow> string" where
  "strip_comment line =
     (case index_str line '' #'' of Some j \<Rightarrow> trim_space (take j line) | None \<Rightarrow> line)"

definition skipped_line :: "string \<Rightarrow> bool" where
  "skipped_line line \<longleftrightarrow> line = [] \<or> has_prefix line ''#''"

fun load_from :: "string \<Rightarrow> nat \<Rightarrow> string list \<Rightarrow> (nat \<times> string \<times> pattern_error) + pattern list" where
  "load_from label i [] = Inr []"
| "load_from label i (raw # es) =
     (let line = trim_space raw in
      if skipped_line line then load_from label (Suc i) es
      else (case parsePattern (strip_comment line) of
          Inl e \<Rightarrow> Inl (i, strip_comment line, e)
        | Inr pat \<Rightarrow>
            (case load_from label (Suc i) es of
               Inl e \<Rightarrow> Inl e
             | Inr ps \<Rightarrow>
                 Inr (pat\<lparr>p_Source := label @ ''['' @ itoa (int i) @ '']''\<rparr> # ps))))"

definition LoadInline :: "string \<Rightarrow> string \<Rightarrow> string list \<Rightarrow> (nat \<times> string \<times> pattern_error) + host_list" where
  "LoadInline name label es =
     (case load_from label 0 es of
        Inl e \<Rightarrow> Inl e
      | Inr ps \<Rightarrow> Inr \<lparr>hl_Name = name, hl_Patterns = ps\<rparr>)"

section \<open>Subsumption\<close>

definition hostSubsumes :: "pattern \<Rightarrow> pattern \<Rightarrow> bool" where
  "hostSubsumes p e =
     (if p_wildcardAllHosts p then True
      else if p_wildcardPrefix p then
        (if p_wildcardAllHosts e then False
         else if p_wildcardPrefix e then has_suffix (p_hostSuffix e) (p_hostSuffix p)
         else has_suffix (p_exactHost e) (p_hostSuffix p)
              \<and> length (p_exactHost e) > length (p_hostSuffix p))
      else \<not> p_wildcardAllHosts e \<and> \<not> p_wildcardPrefix e \<and> p_exactHost e = p_exactHost p)"

definition pathSubsumes :: "pattern \<Rightarrow> pattern \<Rightarrow> bool" where
  "pathSubsumes p e =
     (if p_anyPath p then True
      else if p_matchPrefix p then
        (if p_anyPath e then False
         else if p_matchPrefix e then has_prefix (p_pathPrefix e) (p_pathPrefix p)
         else has_prefix (p_exactPath e) (p_pathPrefix p))
      else \<not> p_anyPath e \<and> \<not> p_matchPrefix e \<and> p_exactPath e = p_exactPath p)"

definition subsumes :: "pattern \<Rightarrow> pattern \<Rightarrow> bool" where
  "subsumes p e \<longleftrightarrow>
     \<not> (\<not> p_anyMethod p \<and> (p_anyMethod e \<or> p_method e \<noteq> p_method p))
     \<and> \<not> (\<not> p_anyScheme p \<and> (p_anyScheme e \<or> p_scheme e \<noteq> p_scheme p))
     \<and> hostSubsumes p e
     \<and> \<not> (\<not> p_anyPort p \<and> (p_anyPort e \<or> p_port e \<noteq> p_port p))
     \<and> pathSubsumes p e"

definition Subsumes :: "string \<Rightarrow> string \<Rightarrow> bool" where
  "Subsumes pat ent =
     (case parsePattern pat of
        Inl _ \<Rightarrow> False
      | Inr p \<Rightarrow> (case parsePattern ent of Inl _ \<Rightarrow> False | Inr e \<Rightarrow> subsumes p e))"

section \<open>What a parsed pattern looks like\<close>

text \<open>Exactly one shape on every axis, hosts in lower case without surrounding space, ports in
  range, paths from the first slash on.\<close>

definition wf_method :: "pattern \<Rightarrow> bool" where
  "wf_method p \<longleftrightarrow> (if p_anyMethod p then p_method p = [] else isUppercaseLetters (p_method p))"

definition wf_scheme :: "pattern \<Rightarrow> bool" where
  "wf_scheme p \<longleftrightarrow>
     (if p_anyScheme p then p_scheme p = [] else p_scheme p = ''http'' \<or> p_scheme p = ''https'')"

definition wf_host :: "pattern \<Rightarrow> bool" where
  "wf_host p \<longleftrightarrow>
     (if p_wildcardAllHosts p then \<not> p_wildcardPrefix p \<and> p_hostSuffix p = [] \<and> p_exactHost p = []
      else if p_wildcardPrefix p then
        p_exactHost p = [] \<and> p_hostSuffix p \<noteq> [] \<and> hd (p_hostSuffix p) = CHR ''.''
        \<and> CHR ''*'' \<notin> set (p_hostSuffix p) \<and> to_lower (p_hostSuffix p) = p_hostSuffix p
        \<and> trim_right (p_hostSuffix p) = p_hostSuffix p
      else p_hostSuffix p = [] \<and> p_exactHost p \<noteq> [] \<and> CHR ''*'' \<notin> set (p_exactHost p)
        \<and> to_lower (p_exactHost p) = p_exactHost p \<and> trim_space (p_exactHost p) = p_exactHost p)"

definition wf_port :: "pattern \<Rightarrow> bool" where
  "wf_port p \<longleftrightarrow> (if p_anyPort p then p_port p = 0 else 1 \<le> p_port p \<and> p_port p \<le> 65535)"

definition wf_path :: "pattern \<Rightarrow> bool" where
  "wf_path p \<longleftrightarrow>
     (if p_anyPath p then \<not> p_matchPrefix p \<and> p_pathPrefix p = [] \<and> p_exactPath p = []
      else if p_matchPrefix p then
        p_exactPath p = [] \<and> p_pathPrefix p \<noteq> [] \<and> hd (p_pathPrefix p) = CHR ''/''
        \<and> last (p_pathPrefix p) = CHR ''/'' \<and> 2 \<le> length (p_pathPrefix p)
      else p_pathPrefix p = [] \<and> p_exactPath p \<noteq> [] \<and> hd (p_exactPath p) = CHR ''/''
        \<and> CHR ''*'' \<notin> set (p_exactPath p))"

definition wf_pattern :: "pattern \<Rightarrow> bool" where
  "wf_pattern p \<longleftrightarrow> wf_method p \<and> wf_scheme p \<and> wf_host p \<and> wf_port p \<and> wf_path p"

lemma parse_host_wf:
  assumes "parse_host h = Inr (a, w, hs, ex)"
    and "p_wildcardAllHosts p = a" "p_wildcardPrefix p = w" "p_hostSuffix p = hs" "p_exactHost p = ex"
  shows "wf_host p"
proof -
  define host where "host = to_lower (trim_space h)"
  have norm: "to_lower host = host" "trim_space host = host"
    by (simp_all add: host_def)
  show ?thesis
  proof (cases "has_prefix host ''*.''")
    case True
    then obtain t where t: "host = CHR ''*'' # CHR ''.'' # t"
      by (auto simp: has_prefix_def elim!: prefixE)
    have "\<not> is_space (last host)" using norm(2) t by (simp add: trim_space_fix)
    then have "trim_right (CHR ''.'' # t) = CHR ''.'' # t"
      using t by (simp add: trim_right_fix split: if_splits)
    moreover have "to_lower t = t" using norm(1) t by simp
    moreover have "lower_char (CHR ''.'') = CHR ''.''" using norm(1) t by simp
    moreover have "hs = CHR ''.'' # t \<and> \<not> a \<and> w \<and> ex = [] \<and> CHR ''*'' \<notin> set t"
      using assms(1) t host_def [symmetric]
      by (auto simp: parse_host_def contains_byte_def Let_def has_prefix_def split: if_splits)
    ultimately show ?thesis by (simp add: wf_host_def assms(2-))
  next
    case False
    with assms(1) assms(2-) [symmetric] norm host_def [symmetric] show ?thesis
      by (auto simp: parse_host_def wf_host_def contains_byte_def Let_def split: if_splits)
  qed
qed

lemma parse_path_wf:
  assumes "parse_path pp = Inr (a, m, pre, ex)" and "pp = [] \<or> hd pp = CHR ''/''"
    and "p_anyPath p = a" "p_matchPrefix p = m" "p_pathPrefix p = pre" "p_exactPath p = ex"
  shows "wf_path p"
proof (cases "pp = [] \<or> pp = ''/*''")
  case True
  with assms(1) show ?thesis by (auto simp: parse_path_def wf_path_def assms(3-))
next
  case nonempty: False
  show ?thesis
  proof (cases "has_suffix pp ''/*''")
    case True
    then obtain t where t: "pp = t @ ''/*''" by (auto simp: has_suffix_def suffix_def)
    with nonempty assms(2) obtain u where "t = CHR ''/'' # u" by (cases t) auto
    with t assms(1) nonempty True show ?thesis
      by (auto simp: parse_path_def wf_path_def trim_suffix_def assms(3-))
  next
    case False
    with nonempty assms(1,2) show ?thesis
      by (auto simp: parse_path_def wf_path_def contains_byte_def assms(3-) split: if_splits)
  qed
qed

lemma split_path_hd: "split_path s = (hp, pp) \<Longrightarrow> pp = [] \<or> hd pp = CHR ''/''"
  by (auto simp: split_path_def index_byte_drop split: option.splits)

lemma parse_method_wf: "parse_method s = (p_anyMethod p, p_method p, r) \<Longrightarrow> wf_method p"
  by (auto simp: parse_method_def wf_method_def Let_def split: option.splits if_splits)

lemma parse_scheme_wf: "parse_scheme s = Inr (p_anyScheme p, p_scheme p, r) \<Longrightarrow> wf_scheme p"
  by (auto simp: parse_scheme_def wf_scheme_def Let_def split: option.splits if_splits)

lemma parse_port_wf: "parse_port s = Inr (p_anyPort p, p_port p) \<Longrightarrow> wf_port p"
  by (auto simp: parse_port_def wf_port_def split: option.splits if_splits)

text \<open>A successful parse is a success of every stage, with the stage's fields in the result.\<close>

lemma parsePattern_stages:
  "parsePattern s = Inr p \<longleftrightarrow>
     (\<exists>rest rest2 hostport pathPart host portPart.
        parse_method s = (p_anyMethod p, p_method p, rest)
      \<and> parse_scheme rest = Inr (p_anyScheme p, p_scheme p, rest2)
      \<and> split_path rest2 = (hostport, pathPart) \<and> split_port hostport = (host, portPart)
      \<and> parse_host host = Inr (p_wildcardAllHosts p, p_wildcardPrefix p, p_hostSuffix p, p_exactHost p)
      \<and> parse_port portPart = Inr (p_anyPort p, p_port p)
      \<and> parse_path pathPart = Inr (p_anyPath p, p_matchPrefix p, p_pathPrefix p, p_exactPath p)
      \<and> p_Source p = [] \<and> p_Raw p = s)"
  by (cases p) (auto simp: parsePattern_def Let_def split: sum.splits prod.splits)

lemma parsePattern_wf: "parsePattern s = Inr p \<Longrightarrow> wf_pattern p"
  unfolding wf_pattern_def parsePattern_stages
  using parse_method_wf parse_scheme_wf parse_host_wf [OF _ refl refl refl refl] parse_port_wf
    parse_path_wf [OF _ _ refl refl refl refl] split_path_hd
  by metis

section \<open>Subsumption is containment of the matched requests\<close>

abbreviation norm_method :: "string \<Rightarrow> string" where
  "norm_method m \<equiv> to_upper (trim_space m)"

abbreviation norm_host :: "string \<Rightarrow> string" where
  "norm_host h \<equiv> to_lower (trim_space h)"

abbreviation norm_path :: "string \<Rightarrow> string" where
  "norm_path x \<equiv> (if x = [] then ''/'' else x)"

lemma upper_not_space: "is_upper c \<Longrightarrow> \<not> is_space c"
  by (auto simp: is_upper_def is_space_def)

lemma upper_char_id: "is_upper c \<Longrightarrow> upper_char c = c"
  by (simp add: is_upper_def is_lower_def upper_char_def)

lemma norm_uppercase: "isUppercaseLetters m \<Longrightarrow> norm_method m = m"
proof -
  assume h: "isUppercaseLetters m"
  then have "trim_space m = m"
    by (auto simp: isUppercaseLetters_def trim_space_fix list_all_iff upper_not_space)
  moreover have "map upper_char m = m"
    using h by (auto simp: isUppercaseLetters_def list_all_iff upper_char_id intro: map_idI)
  ultimately show ?thesis by (simp add: to_upper_def)
qed

lemma trim_space_Nil [simp]: "trim_space [] = []"
  by (simp add: trim_space_fix)

lemma to_upper_Nil [simp]: "to_upper [] = []"
  by (simp add: to_upper_def)

lemma method_axis:
  assumes "wf_method p" "wf_method e"
  shows "\<not> (\<not> p_anyMethod p \<and> (p_anyMethod e \<or> p_method e \<noteq> p_method p)) \<longleftrightarrow>
    (\<forall>m. matchMethodPattern e (norm_method m) \<longrightarrow> matchMethodPattern p (norm_method m))" (is "?L = ?R")
proof
  assume ?R
  then have "matchMethodPattern e (norm_method []) \<longrightarrow> matchMethodPattern p (norm_method [])"
    "matchMethodPattern e (norm_method (p_method e)) \<longrightarrow> matchMethodPattern p (norm_method (p_method e))"
    by blast+
  with assms show ?L
    by (auto simp: matchMethodPattern_def wf_method_def norm_uppercase isUppercaseLetters_def
        split: if_splits)
qed (auto simp: matchMethodPattern_def)

lemma method_sample: "wf_method e \<Longrightarrow> \<exists>m. matchMethodPattern e (norm_method m)"
  using norm_uppercase [of "p_method e"] by (auto simp: matchMethodPattern_def wf_method_def split: if_splits)

lemma norm_http [simp]: "norm_host ''http'' = ''http''" "norm_host ''https'' = ''https''"
  by code_simp+

lemma scheme_axis:
  assumes "wf_scheme p" "wf_scheme e"
  shows "\<not> (\<not> p_anyScheme p \<and> (p_anyScheme e \<or> p_scheme e \<noteq> p_scheme p)) \<longleftrightarrow>
    (\<forall>m. matchSchemePattern e (norm_host m) \<longrightarrow> matchSchemePattern p (norm_host m))" (is "?L = ?R")
proof
  assume ?R
  then have "matchSchemePattern e (norm_host []) \<longrightarrow> matchSchemePattern p (norm_host [])"
    "matchSchemePattern e (norm_host (p_scheme e)) \<longrightarrow> matchSchemePattern p (norm_host (p_scheme e))"
    by blast+
  with assms show ?L
    by (auto simp: matchSchemePattern_def wf_scheme_def split: if_splits)
qed (auto simp: matchSchemePattern_def)

lemma scheme_sample: "wf_scheme e \<Longrightarrow> \<exists>m. matchSchemePattern e (norm_host m)"
  by (cases "p_anyScheme e")
    (auto simp: matchSchemePattern_def wf_scheme_def intro: exI [of _ "p_scheme e"])

text \<open>A host below a wildcard suffix.\<close>

lemma below_suffix_norm:
  assumes "wf_host e" "\<not> p_wildcardAllHosts e" "p_wildcardPrefix e"
    and "lower_char c = c" "\<not> is_space c"
  shows "norm_host (c # p_hostSuffix e) = c # p_hostSuffix e"
    and "matchHostPattern e (c # p_hostSuffix e)"
proof -
  have "trim_space (c # p_hostSuffix e) = c # p_hostSuffix e"
    using assms by (auto simp: wf_host_def trim_space_fix trim_right_fix)
  with assms show "norm_host (c # p_hostSuffix e) = c # p_hostSuffix e"
    by (auto simp: wf_host_def)
  show "matchHostPattern e (c # p_hostSuffix e)"
    using assms by (simp add: matchHostPattern_def has_suffix_def suffix_ConsI)
qed

lemma suffix_shorter: "suffix s (c # t) \<Longrightarrow> length s < length (c # t) \<Longrightarrow> suffix s t"
  by (auto simp: suffix_Cons)

lemma host_sound:
  "hostSubsumes p e \<Longrightarrow> matchHostPattern e h \<Longrightarrow> matchHostPattern p h"
  by (auto simp: hostSubsumes_def matchHostPattern_def has_suffix_def split: if_splits
      dest: suffix_order.order_trans suffix_length_le)

lemma host_complete:
  assumes "wf_host p" "wf_host e"
    and R: "\<And>h. matchHostPattern e (norm_host h) \<Longrightarrow> matchHostPattern p (norm_host h)"
  shows "hostSubsumes p e"
proof (cases "p_wildcardAllHosts p")
  case np: False
  show ?thesis
  proof (cases "p_wildcardAllHosts e")
    case True
    then have "matchHostPattern p []" using R [of "[]"] by (simp add: matchHostPattern_def)
    with np assms(1) show ?thesis by (simp add: matchHostPattern_def wf_host_def split: if_splits)
  next
    case ne: False
    show ?thesis
    proof (cases "p_wildcardPrefix e")
      case True
      have c: "lower_char (CHR ''a'') = CHR ''a''" "\<not> is_space (CHR ''a'')"
        "lower_char (CHR ''b'') = CHR ''b''" "\<not> is_space (CHR ''b'')" by code_simp+
      have "matchHostPattern p (CHR ''a'' # p_hostSuffix e)" "matchHostPattern p (CHR ''b'' # p_hostSuffix e)"
        using R below_suffix_norm [OF assms(2) ne True] c by metis+
      with np ne True show ?thesis
        by (auto simp: matchHostPattern_def hostSubsumes_def has_suffix_def suffix_shorter
            eq_commute [of _ "p_exactHost p"] simp del: length_Cons split: if_splits)
    next
      case False
      with ne assms(2) have "norm_host (p_exactHost e) = p_exactHost e" by (simp add: wf_host_def)
      moreover have "matchHostPattern e (p_exactHost e)" using ne False by (simp add: matchHostPattern_def)
      ultimately have "matchHostPattern p (p_exactHost e)" using R [of "p_exactHost e"] by simp
      with np ne False show ?thesis by (simp add: matchHostPattern_def hostSubsumes_def)
    qed
  qed
qed (simp add: hostSubsumes_def)

lemma host_sample: "wf_host e \<Longrightarrow> \<exists>h. matchHostPattern e (norm_host h)"
proof -
  assume wf: "wf_host e"
  have c: "lower_char (CHR ''a'') = CHR ''a''" "\<not> is_space (CHR ''a'')" by code_simp+
  show ?thesis
    using below_suffix_norm [OF wf _ _ c] wf
    by (metis matchHostPattern_def wf_host_def)
qed

lemma port_axis:
  "\<not> (\<not> p_anyPort p \<and> (p_anyPort e \<or> p_port e \<noteq> p_port p)) \<longleftrightarrow>
    (\<forall>n. matchPortPattern e n \<longrightarrow> matchPortPattern p n)" (is "?L = ?R")
proof
  assume ?R
  then have "matchPortPattern e (p_port p + 1) \<longrightarrow> matchPortPattern p (p_port p + 1)"
    "matchPortPattern e (p_port e) \<longrightarrow> matchPortPattern p (p_port e)" by blast+
  then show ?L by (auto simp: matchPortPattern_def)
qed (auto simp: matchPortPattern_def)

lemma path_sound: "pathSubsumes p e \<Longrightarrow> matchPathPattern e x \<Longrightarrow> matchPathPattern p x"
  by (auto simp: pathSubsumes_def matchPathPattern_def has_prefix_def split: if_splits
      dest: prefix_order.order_trans)

lemma path_complete:
  assumes "wf_path p" "wf_path e"
    and R: "\<And>x. matchPathPattern e (norm_path x) \<Longrightarrow> matchPathPattern p (norm_path x)"
  shows "pathSubsumes p e"
proof (cases "p_anyPath p")
  case np: False
  show ?thesis
  proof (cases "p_anyPath e")
    case True
    then have "matchPathPattern p ''x''" using R [of "''x''"] by (simp add: matchPathPattern_def)
    with np assms(1) show ?thesis
      by (auto simp: matchPathPattern_def wf_path_def has_prefix_def prefix_Cons
          eq_commute [of _ "p_exactPath p"] split: if_splits)
  next
    case ne: False
    show ?thesis
    proof (cases "p_matchPrefix e")
      case True
      have "matchPathPattern p (p_pathPrefix e)" "matchPathPattern p (p_pathPrefix e @ ''x'')"
        using R [of "p_pathPrefix e"] R [of "p_pathPrefix e @ ''x''"] True ne assms(2)
        by (auto simp: matchPathPattern_def has_prefix_def wf_path_def split: if_splits)
      with np ne True show ?thesis
        by (auto simp: matchPathPattern_def pathSubsumes_def has_prefix_def split: if_splits)
    next
      case False
      with ne assms(2) R [of "p_exactPath e"] have "matchPathPattern p (p_exactPath e)"
        by (simp add: matchPathPattern_def wf_path_def)
      with np ne False show ?thesis by (simp add: matchPathPattern_def pathSubsumes_def split: if_splits)
    qed
  qed
qed (simp add: pathSubsumes_def)

lemma path_sample: "wf_path e \<Longrightarrow> \<exists>x. matchPathPattern e (norm_path x)"
  by (metis matchPathPattern_def has_prefix_def prefix_order.order_refl wf_path_def)

lemma Match_singleton:
  "Match (Some \<lparr>hl_Name = n, hl_Patterns = [p]\<rparr>) m s h port x \<noteq> None \<longleftrightarrow>
     fires p (norm_method m) (norm_host s) (norm_host h) port (norm_path x)"
  by (simp add: Match_def)

lemma subsumes_sound:
  "subsumes p e \<Longrightarrow> fires e m s h port x \<Longrightarrow> fires p m s h port x"
  unfolding subsumes_def fires_def
  using host_sound path_sound
  by (auto simp: matchMethodPattern_def matchSchemePattern_def matchPortPattern_def split: if_splits)

lemma subsumes_complete:
  assumes wf: "wf_pattern p" "wf_pattern e"
    and R: "\<And>m s h port x. fires e (norm_method m) (norm_host s) (norm_host h) port (norm_path x) \<Longrightarrow>
              fires p (norm_method m) (norm_host s) (norm_host h) port (norm_path x)"
  shows "subsumes p e"
proof -
  obtain m s h x where smp: "matchMethodPattern e (norm_method m)" "matchSchemePattern e (norm_host s)"
    "matchHostPattern e (norm_host h)" "matchPathPattern e (norm_path x)"
    using wf method_sample scheme_sample host_sample path_sample unfolding wf_pattern_def by metis
  have pt: "matchPortPattern e (p_port e)" by (simp add: matchPortPattern_def)
  have "\<forall>m. matchMethodPattern e (norm_method m) \<longrightarrow> matchMethodPattern p (norm_method m)"
    "\<forall>s. matchSchemePattern e (norm_host s) \<longrightarrow> matchSchemePattern p (norm_host s)"
    "\<And>h. matchHostPattern e (norm_host h) \<Longrightarrow> matchHostPattern p (norm_host h)"
    "\<forall>n. matchPortPattern e n \<longrightarrow> matchPortPattern p n"
    "\<And>x. matchPathPattern e (norm_path x) \<Longrightarrow> matchPathPattern p (norm_path x)"
    using R smp pt unfolding fires_def by blast+
  then show ?thesis
    unfolding subsumes_def
    using method_axis [of p e] scheme_axis [of p e] port_axis [of p e] host_complete [of p e]
      path_complete [of p e] wf unfolding wf_pattern_def by blast
qed

text \<open>
  C7: for two entries that parse, \<open>Subsumes\<close> holds exactly when every request the second
  matches is matched by the first, over all methods, schemes, hosts, ports and paths as
  \<open>Match\<close> normalises them. The test that prunes the lists is neither too eager (no pruned
  entry matched anything more) nor too shy.
\<close>

theorem Subsumes_iff_contained:
  assumes "parsePattern pat = Inr p" and "parsePattern ent = Inr e"
  shows "Subsumes pat ent \<longleftrightarrow>
    (\<forall>m s h port x.
       Match (Some \<lparr>hl_Name = [], hl_Patterns = [e]\<rparr>) m s h port x \<noteq> None \<longrightarrow>
       Match (Some \<lparr>hl_Name = [], hl_Patterns = [p]\<rparr>) m s h port x \<noteq> None)"
proof -
  have wf: "wf_pattern p" "wf_pattern e" using assms parsePattern_wf by blast+
  have "Subsumes pat ent = subsumes p e" by (simp add: Subsumes_def assms)
  also have "\<dots> \<longleftrightarrow> (\<forall>m s h port x.
      fires e (norm_method m) (norm_host s) (norm_host h) port (norm_path x) \<longrightarrow>
      fires p (norm_method m) (norm_host s) (norm_host h) port (norm_path x))"
    by (intro iffI allI impI subsumes_complete [OF wf]) (erule (1) subsumes_sound, blast)
  finally show ?thesis by (simp only: Match_singleton)
qed

theorem Subsumes_iff_contained_witness:
  "\<exists>p e. parsePattern ''*.example.com'' = Inr p \<and> parsePattern ''GET https://api.example.com:443/v1'' = Inr e
     \<and> Subsumes ''*.example.com'' ''GET https://api.example.com:443/v1''
     \<and> (\<forall>m s h port x.
       Match (Some \<lparr>hl_Name = [], hl_Patterns = [e]\<rparr>) m s h port x \<noteq> None \<longrightarrow>
       Match (Some \<lparr>hl_Name = [], hl_Patterns = [p]\<rparr>) m s h port x \<noteq> None)"
proof -
  have "\<not> (case parsePattern ''*.example.com'' of Inl _ \<Rightarrow> True | Inr _ \<Rightarrow> False)"
    "\<not> (case parsePattern ''GET https://api.example.com:443/v1'' of Inl _ \<Rightarrow> True | Inr _ \<Rightarrow> False)"
    by code_simp+
  then obtain p e where pe: "parsePattern ''*.example.com'' = Inr p"
    "parsePattern ''GET https://api.example.com:443/v1'' = Inr e"
    by (auto split: sum.splits)
  moreover have "Subsumes ''*.example.com'' ''GET https://api.example.com:443/v1''" by code_simp
  ultimately show ?thesis using Subsumes_iff_contained [OF pe] by blast
qed

text \<open>
  Every pattern the parser returns is well formed: one shape per axis, the method in
  upper case letters, the scheme http or https, the host non-empty, in lower case, without
  surrounding space and without a wildcard outside its first label, the port between 1 and
  65535, the path or path prefix starting with a slash.
\<close>

lemma parsePattern_wellformed: "\<forall>p. parsePattern s = Inr p \<longrightarrow> wf_pattern p"
  using parsePattern_wf by blast

lemma parsePattern_wellformed_example:
  "\<exists>p. parsePattern ''POST *.example.com:8443/api/*'' = Inr p \<and> wf_pattern p"
proof -
  have "\<not> (case parsePattern ''POST *.example.com:8443/api/*'' of Inl _ \<Rightarrow> True | Inr _ \<Rightarrow> False)"
    by code_simp
  then obtain p where "parsePattern ''POST *.example.com:8443/api/*'' = Inr p" by (auto split: sum.splits)
  with parsePattern_wellformed [of "''POST *.example.com:8443/api/*''"] show ?thesis by blast
qed

section \<open>The loader\<close>

text \<open>The entries a list keeps, with their index in the configuration.\<close>

definition kept_entries :: "nat \<Rightarrow> string list \<Rightarrow> (nat \<times> string) list" where
  "kept_entries i es = map (\<lambda>(j, raw). (j, strip_comment (trim_space raw)))
     (filter (\<lambda>(_, raw). \<not> skipped_line (trim_space raw)) (enumerate i es))"

definition loaded_as :: "string \<Rightarrow> nat \<times> string \<Rightarrow> pattern \<Rightarrow> bool" where
  "loaded_as label ie pat \<longleftrightarrow>
     parsePattern (snd ie) = Inr (pat\<lparr>p_Source := []\<rparr>)
     \<and> p_Source pat = label @ ''['' @ itoa (int (fst ie)) @ '']''"

lemma kept_entries_simps [simp]:
  "kept_entries i [] = []"
  "kept_entries i (raw # es) =
     (if skipped_line (trim_space raw) then kept_entries (Suc i) es
      else (i, strip_comment (trim_space raw)) # kept_entries (Suc i) es)"
  by (simp_all add: kept_entries_def)

lemma loaded_as_parse:
  "parsePattern x = Inr q \<Longrightarrow>
   loaded_as label (i, x) pat \<longleftrightarrow> pat = q\<lparr>p_Source := label @ ''['' @ itoa (int i) @ '']''\<rparr>"
  using parsePattern_stages [of x q] by (cases q; cases pat) (auto simp: loaded_as_def)

lemma load_from_Inr:
  "load_from label i es = Inr ps \<longleftrightarrow> list_all2 (loaded_as label) (kept_entries i es) ps"
proof (induction es arbitrary: i ps)
  case (Cons raw es)
  show ?case
  proof (cases "parsePattern (strip_comment (trim_space raw))")
    case (Inl e)
    then show ?thesis
      by (auto simp: Let_def loaded_as_def list_all2_Cons1 Cons.IH)
  next
    case (Inr q)
    then show ?thesis
      by (auto simp: Let_def list_all2_Cons1 loaded_as_parse split: sum.splits simp flip: Cons.IH)
  qed
qed auto

text \<open>
  Loading an inline list succeeds exactly when every entry that is neither blank nor a
  comment parses after its inline comment is cut off; the loaded patterns are then the
  parses of those entries, in order, each labelled with its entry's index.
\<close>

lemma LoadInline_spec:
  "LoadInline name label es = Inr l \<longleftrightarrow>
     hl_Name l = name \<and> list_all2 (loaded_as label) (kept_entries 0 es) (hl_Patterns l)"
  by (cases l) (auto simp: LoadInline_def simp flip: load_from_Inr split: sum.splits)

lemma wf_pattern_Source [simp]: "wf_pattern (p\<lparr>p_Source := x\<rparr>) = wf_pattern p"
  by (simp add: wf_pattern_def wf_method_def wf_scheme_def wf_host_def wf_port_def wf_path_def
      cong: if_cong)

lemma LoadInline_wf: "LoadInline name label es = Inr l \<Longrightarrow> p \<in> set (hl_Patterns l) \<Longrightarrow> wf_pattern p"
proof -
  assume "LoadInline name label es = Inr l" and p: "p \<in> set (hl_Patterns l)"
  then have "list_all2 (loaded_as label) (kept_entries 0 es) (hl_Patterns l)"
    by (simp add: LoadInline_spec)
  with p obtain ie where "loaded_as label ie p"
    by (metis in_set_conv_nth list_all2_conv_all_nth)
  then have "wf_pattern (p\<lparr>p_Source := []\<rparr>)"
    unfolding loaded_as_def by (blast intro: parsePattern_wf)
  then show ?thesis by simp
qed

text \<open>A wildcard inside a path is taken literally, not refused, when the path ends in \<open>/*\<close>.\<close>

lemma inner_path_wildcard_accepted:
  "map_sum id p_pathPrefix (parsePattern ''example.com/a/*/b/*'') = Inr ''/a/*/b/''"
  by code_simp

section \<open>The interface of a coverage test\<close>

text \<open>What the writer of the lists relies on: an entry covered by another adds no match.\<close>

locale coverage =
  fixes covers :: "'p \<Rightarrow> 'p \<Rightarrow> bool" and hits :: "'p \<Rightarrow> 'r \<Rightarrow> bool"
  assumes covers_sound: "covers p e \<Longrightarrow> hits e r \<Longrightarrow> hits p r"
begin

lemma replaced_still_hit:
  "\<exists>e \<in> set es. hits e r \<Longrightarrow> p \<in> set out \<Longrightarrow> (\<And>e. e \<in> set es \<Longrightarrow> e \<in> set out \<or> covers p e)
   \<Longrightarrow> \<exists>e \<in> set out. hits e r"
  using covers_sound by blast

lemma new_hits_from:
  "\<exists>e \<in> set out. hits e r \<Longrightarrow> set out \<subseteq> insert p (set es) \<Longrightarrow> hits p r \<or> (\<exists>e \<in> set es. hits e r)"
  by blast

end

text \<open>A request as the lists see it, and an entry text matching it.\<close>

type_synonym list_request = "string \<times> string \<times> string \<times> int \<times> string"

definition entry_hits :: "string \<Rightarrow> list_request \<Rightarrow> bool" where
  "entry_hits ent r =
     (case r of (m, s, h, port, x) \<Rightarrow>
        (case parsePattern ent of
           Inl _ \<Rightarrow> False
         | Inr p \<Rightarrow> fires p (norm_method m) (norm_host s) (norm_host h) port (norm_path x)))"

interpretation list_cover: coverage Subsumes entry_hits
  by unfold_locales
    (auto simp: Subsumes_def entry_hits_def intro: subsumes_sound split: sum.splits)

end
