(* ===== verification/HostListSort.thy ===== *)
theory HostListSort
  imports HostList "HOL-Library.Product_Lexorder"
begin

text \<open>
  \<open>internal/hostlist/sort.go\<close>: the wildcard-aware order of the flat list files (\<open>Smart\<close>) and
  the edits that keep it (\<open>AppendUnique\<close>, \<open>RemoveMatching\<close>).
\<close>

section \<open>The sort key\<close>

record sort_key =
  sk_hostLabels :: "string list"
  sk_hostFlags :: "bool list"
  sk_port :: int
  sk_pathStr :: string

definition keyFor :: "string \<Rightarrow> sort_key" where
  "keyFor line =
     (let pat = strip_comment line;
          (hostport, pathStr) = split_path pat;
          (host, port) = (case last_index_byte hostport (CHR '':'') of
              None \<Rightarrow> (hostport, 0)
            | Some i \<Rightarrow>
                (let ps = drop (Suc i) hostport in
                 (take i hostport,
                  if ps = [] \<or> ps = ''*'' then 0
                  else (case atoi ps of Some n \<Rightarrow> n | None \<Rightarrow> 0))));
          parts = rev (split_on (CHR ''.'') (to_lower (trim_space host)))
      in \<lparr>sk_hostLabels = parts, sk_hostFlags = map (\<lambda>l. l = ''*'') parts,
          sk_port = port, sk_pathStr = pathStr\<rparr>)"

text \<open>The loop of \<open>less\<close> over the labels both keys have; \<open>None\<close> when it falls through.\<close>

fun less_labels :: "(string \<times> bool) list \<Rightarrow> (string \<times> bool) list \<Rightarrow> bool option" where
  "less_labels ((ai, af) # as) ((bi, bf) # bs) =
     (if af \<and> \<not> bf then Some False
      else if \<not> af \<and> bf then Some True
      else if ai \<noteq> bi then Some (ai < bi)
      else less_labels as bs)"
| "less_labels _ _ = None"

definition key_less :: "sort_key \<Rightarrow> sort_key \<Rightarrow> string \<Rightarrow> string \<Rightarrow> bool" where
  "key_less a b rawA rawB =
     (case less_labels (zip (sk_hostLabels a) (sk_hostFlags a)) (zip (sk_hostLabels b) (sk_hostFlags b)) of
        Some r \<Rightarrow> r
      | None \<Rightarrow>
          if length (sk_hostLabels a) \<noteq> length (sk_hostLabels b) then
            length (sk_hostLabels a) < length (sk_hostLabels b)
          else if sk_port a \<noteq> sk_port b then sk_port a < sk_port b
          else if sk_pathStr a \<noteq> sk_pathStr b then sk_pathStr a < sk_pathStr b
          else rawA < rawB)"

definition line_less :: "string \<Rightarrow> string \<Rightarrow> bool" where
  "line_less x y = key_less (keyFor (trim_space x)) (keyFor (trim_space y)) x y"

section \<open>Sorting and editing lines\<close>

definition is_comment :: "string \<Rightarrow> bool" where
  "is_comment ln \<longleftrightarrow> has_prefix (trim_space ln) ''#''"

definition is_entry :: "string \<Rightarrow> bool" where
  "is_entry ln \<longleftrightarrow> trim_space ln \<noteq> [] \<and> \<not> is_comment ln"

definition Smart :: "string list \<Rightarrow> string list" where
  "Smart lines =
     (let leading = takeWhile is_comment lines;
          rest = dropWhile is_comment lines;
          entries = stable_sort line_less (filter is_entry rest)
      in leading
         @ (if leading \<noteq> [] \<and> entries \<noteq> [] \<and> trim_space (last leading) \<noteq> [] then [[]] else [])
         @ entries)"

definition normalizePattern :: "string \<Rightarrow> string" where
  "normalizePattern line =
     (let t = trim_space line in
      if t = [] \<or> has_prefix t ''#'' then []
      else to_lower (strip_comment t))"

definition AppendUnique :: "string list \<Rightarrow> string \<Rightarrow> string list \<times> bool" where
  "AppendUnique lines pat =
     (let p = trim_space pat in
      if p = [] then (lines, False)
      else if \<exists>ln \<in> set lines. normalizePattern ln = to_lower p then (lines, False)
      else (Smart (lines @ [p]), True))"

definition RemoveMatching :: "string list \<Rightarrow> string \<Rightarrow> string list \<times> bool" where
  "RemoveMatching lines pat =
     (let p = to_lower (trim_space pat) in
      if p = [] then (lines, False)
      else (filter (\<lambda>ln. normalizePattern ln \<noteq> p) lines,
            \<exists>ln \<in> set lines. normalizePattern ln = p))"

section \<open>The comparator is a linear order on lines\<close>

definition rank :: "string \<Rightarrow> (bool \<times> string) list \<times> int \<times> string \<times> string" where
  "rank x =
     (let k = keyFor (trim_space x) in
      (map (\<lambda>l. (l = ''*'', l)) (sk_hostLabels k), sk_port k, sk_pathStr k, x))"

lemma less_pair: "(a, b) < (c, d) \<longleftrightarrow> a < c \<or> a = c \<and> b < d"
  for a c :: "'x :: linorder" and b d :: "'y :: linorder"
  by (auto simp: le_less)

lemma less_labels_rank:
  "(case less_labels (zip as (map (\<lambda>l. l = w) as)) (zip bs (map (\<lambda>l. l = w) bs)) of
      Some r \<Rightarrow> r
    | None \<Rightarrow> if length as \<noteq> length bs then length as < length bs else q)
   \<longleftrightarrow> (map (\<lambda>l. (l = w, l)) as < map (\<lambda>l. (l = w, l)) bs \<or> as = bs \<and> q)"
proof (induction as arbitrary: bs)
  case Nil
  then show ?case by (cases bs) simp_all
next
  case (Cons a as)
  show ?case
  proof (cases bs)
    case Nil
    then show ?thesis by simp
  next
    case (Cons b bs')
    show ?thesis
    proof (cases "a = b")
      case True
      with \<open>bs = b # bs'\<close> Cons.IH [of bs'] show ?thesis
        by (cases "length as = length bs'") (simp_all cong: option.case_cong)
    next
      case False
      then show ?thesis using \<open>bs = b # bs'\<close>
        by (cases "a = w"; cases "b = w") (simp_all add: less_pair del: less_prod_simp)
    qed
  qed
qed

lemma line_less_rank: "line_less x y \<longleftrightarrow> rank x < rank y"
proof -
  have flags: "sk_hostFlags (keyFor l) = map (\<lambda>l. l = ''*'') (sk_hostLabels (keyFor l))" for l
    by (simp add: keyFor_def Let_def split: prod.splits)
  have eq: "map (\<lambda>l. (l = ''*'', l)) as = map (\<lambda>l. (l = ''*'', l)) bs \<longleftrightarrow> as = bs" for as bs :: "string list"
    by (auto simp: list_eq_iff_nth_eq)
  show ?thesis
    unfolding line_less_def key_less_def flags less_labels_rank rank_def Let_def less_pair eq
    by auto
qed

interpretation line_order: total_comparator line_less UNIV
  by unfold_locales (auto simp: line_less_rank rank_def Let_def)

section \<open>What sorting keeps\<close>

lemma entry_not_comment: "is_entry ln \<Longrightarrow> \<not> is_comment ln"
  by (simp add: is_entry_def)

lemma blank_not_comment [simp]: "\<not> is_comment []" "\<not> is_entry []"
  by (simp_all add: is_comment_def is_entry_def has_prefix_def)

lemma Smart_split:
  "\<exists>sep. Smart lines = takeWhile is_comment lines @ sep @ stable_sort line_less (filter is_entry lines)
     \<and> (sep = [] \<or> sep = [[]])"
proof -
  have "filter is_entry (takeWhile is_comment lines) = []"
    by (auto simp: filter_empty_conv is_entry_def dest: set_takeWhileD)
  then have "filter is_entry lines = filter is_entry (dropWhile is_comment lines)"
    by (metis append_self_conv2 filter_append takeWhile_dropWhile_id)
  then show ?thesis by (simp add: Smart_def Let_def)
qed

lemma Smart_parts:
  "takeWhile is_comment (Smart lines) = takeWhile is_comment lines"
  "filter is_entry (Smart lines) = stable_sort line_less (filter is_entry lines)"
proof -
  obtain sep where s: "Smart lines = takeWhile is_comment lines @ sep
      @ stable_sort line_less (filter is_entry lines)" "sep = [] \<or> sep = [[]]"
    using Smart_split by blast
  let ?E = "stable_sort line_less (filter is_entry lines)"
  have E: "\<forall>x \<in> set ?E. is_entry x" by simp
  have "takeWhile is_comment (sep @ ?E) = []"
    using s(2) E by (cases ?E) (auto simp: is_entry_def)
  then show "takeWhile is_comment (Smart lines) = takeWhile is_comment lines"
    by (simp add: s(1) takeWhile_append)
  have "filter is_entry (takeWhile is_comment lines) = []"
    by (auto simp: filter_empty_conv is_entry_def dest: set_takeWhileD)
  moreover have "filter is_entry ?E = ?E" using E by (simp add: filter_id_conv)
  ultimately show "filter is_entry (Smart lines) = ?E"
    using s by auto
qed

text \<open>
  \<open>Smart\<close> keeps the leading comment lines in place, keeps every entry line with its
  multiplicity, sorts the entries by the order of \<open>less\<close> and adds at most one blank line.
\<close>

lemma Smart_sorts:
  "\<exists>sep es. Smart lines = takeWhile is_comment lines @ sep @ es
     \<and> (sep = [] \<or> sep = [[]])
     \<and> mset es = mset (filter is_entry lines)
     \<and> sorted_wrt (\<lambda>a b. \<not> line_less b a) es"
proof -
  obtain sep where s: "Smart lines = takeWhile is_comment lines @ sep
      @ stable_sort line_less (filter is_entry lines)" "sep = [] \<or> sep = [[]]"
    using Smart_split by blast
  show ?thesis
    by (rule exI [of _ sep], rule exI [of _ "stable_sort line_less (filter is_entry lines)"])
      (simp add: s line_order.sorted_stable_sort)
qed

lemma Smart_by_parts:
  "takeWhile is_comment a = takeWhile is_comment b \<Longrightarrow>
   mset (filter is_entry a) = mset (filter is_entry b) \<Longrightarrow> Smart a = Smart b"
proof -
  assume t: "takeWhile is_comment a = takeWhile is_comment b"
    and m: "mset (filter is_entry a) = mset (filter is_entry b)"
  have d: "filter is_entry (dropWhile is_comment x) = filter is_entry x" for x
    by (induction x) (auto simp: is_entry_def)
  have "stable_sort line_less (filter is_entry a) = stable_sort line_less (filter is_entry b)"
    using m line_order.order_independent by blast
  then show ?thesis by (simp add: Smart_def Let_def t d)
qed

text \<open>
  The sorted file is canonical. Sorting twice changes nothing, and two files with the
  same leading comments and the same entries, in whatever order, sort to the same lines: an
  edit and its undo leave no trace in the order.
\<close>

lemma Smart_canonical:
  "Smart (Smart lines) = Smart lines
   \<and> (\<forall>other. takeWhile is_comment other = takeWhile is_comment lines
        \<and> mset (filter is_entry other) = mset (filter is_entry lines) \<longrightarrow> Smart other = Smart lines)"
  by (metis Smart_by_parts Smart_parts mset_stable_sort)

lemma Smart_canonical_example:
  "Smart [''# top'', ''*.b.com'', ''a.b.com''] = Smart [''# top'', ''a.b.com'', ''*.b.com'']"
proof -
  have "takeWhile is_comment [''# top'', ''*.b.com'', ''a.b.com'']
      = takeWhile is_comment [''# top'', ''a.b.com'', ''*.b.com'']" by code_simp
  moreover have "filter is_entry [''# top'', ''*.b.com'', ''a.b.com''] = [''*.b.com'', ''a.b.com'']"
    "filter is_entry [''# top'', ''a.b.com'', ''*.b.com''] = [''a.b.com'', ''*.b.com'']" by code_simp+
  ultimately show ?thesis
    using Smart_canonical [of "[''# top'', ''a.b.com'', ''*.b.com'']"]
    by (metis mset_filter add_mset_commute mset.simps)
qed

text \<open>A comment after a blank line in the leading block is dropped.\<close>

lemma Smart_drops_second_comment_block:
  "Smart [''# a'', [], ''# b'', ''x.com''] = [''# a'', [], ''x.com'']"
  by code_simp

section \<open>Adding and removing an entry\<close>

definition plain_entry :: "string \<Rightarrow> bool" where
  "plain_entry pat \<longleftrightarrow> trim_space pat \<noteq> [] \<and> \<not> has_prefix (trim_space pat) ''#''
     \<and> index_str (trim_space pat) '' #'' = None"

lemma plain_entry_facts:
  assumes "plain_entry pat"
  shows "is_entry (trim_space pat)" "normalizePattern (trim_space pat) = to_lower (trim_space pat)"
  using assms
  by (simp_all add: plain_entry_def is_entry_def is_comment_def normalizePattern_def strip_comment_def)

lemma normalize_entry: "normalizePattern ln \<noteq> [] \<Longrightarrow> is_entry ln"
  by (auto simp: normalizePattern_def is_entry_def is_comment_def Let_def split: if_splits)

lemma AppendUnique_has:
  assumes "plain_entry pat"
  shows "\<exists>ln \<in> set (fst (AppendUnique lines pat)). normalizePattern ln = to_lower (trim_space pat)"
proof (cases "\<exists>ln \<in> set lines. normalizePattern ln = to_lower (trim_space pat)")
  case True
  moreover have "trim_space pat \<noteq> []" using assms by (simp add: plain_entry_def)
  ultimately show ?thesis by (simp add: AppendUnique_def Let_def)
next
  case False
  have "trim_space pat \<in> set (filter is_entry (Smart (lines @ [trim_space pat])))"
    using plain_entry_facts [OF assms] by (simp add: Smart_parts del: set_filter)
  with False assms plain_entry_facts [OF assms] show ?thesis
    by (auto simp: AppendUnique_def Let_def plain_entry_def)
qed

text \<open>
  Adding and removing an entry. After \<open>AppendUnique\<close> the entry is there and a second
  addition changes nothing; \<open>RemoveMatching\<close> then leaves no line that matches it, and the
  other entry lines of the file are the ones it had before, with their multiplicities.
\<close>

lemma append_then_remove:
  fixes lines :: "string list" and pat :: string
  assumes "plain_entry pat"
  defines "added \<equiv> fst (AppendUnique lines pat)"
    and "key \<equiv> to_lower (trim_space pat)"
  shows "AppendUnique added pat = (added, False)
    \<and> snd (RemoveMatching added pat)
    \<and> (\<forall>ln \<in> set (fst (RemoveMatching added pat)). normalizePattern ln \<noteq> key)
    \<and> mset (filter is_entry (fst (RemoveMatching added pat)))
        = mset (filter (\<lambda>ln. is_entry ln \<and> normalizePattern ln \<noteq> key) lines)"
proof -
  have has: "\<exists>ln \<in> set added. normalizePattern ln = key"
    using AppendUnique_has [OF assms(1)] by (simp add: added_def key_def)
  have ne: "trim_space pat \<noteq> []" "key \<noteq> []"
    using assms(1) by (simp_all add: plain_entry_def key_def to_lower_def)
  let ?P = "\<lambda>ln. normalizePattern ln \<noteq> key"
  have "mset (filter is_entry added) = mset (filter is_entry lines)
      \<or> mset (filter is_entry added) = add_mset (trim_space pat) (mset (filter is_entry lines))"
    using ne plain_entry_facts(1) [OF assms(1)]
    by (auto simp: added_def AppendUnique_def Let_def Smart_parts simp flip: mset_filter)
  moreover have "\<not> ?P (trim_space pat)" using plain_entry_facts(2) [OF assms(1)] by (simp add: key_def)
  ultimately have "filter_mset ?P (mset (filter is_entry added)) = filter_mset ?P (mset (filter is_entry lines))"
    by auto
  then have m: "mset (filter is_entry (filter ?P added)) = mset (filter (\<lambda>ln. is_entry ln \<and> ?P ln) lines)"
    by (simp add: filter_filter_mset conj_commute)
  from has ne show ?thesis
    using m by (simp add: AppendUnique_def RemoveMatching_def Let_def key_def)
qed

lemma append_then_remove_example:
  "plain_entry ''New.example.com''
   \<and> snd (RemoveMatching (fst (AppendUnique [''b.com''] ''New.example.com'')) ''New.example.com'')"
proof -
  have h: "plain_entry ''New.example.com''" by code_simp
  show ?thesis using h append_then_remove [OF h, of "[''b.com'']"] by blast
qed

end
