(* ===== verification/TimeWindow.thy ===== *)
theory TimeWindow
  imports Types
begin

text \<open>
  \<open>internal/policy/timewindow.go\<close>: the hour-of-day and weekday clause of a rule. The time zone
  database behind \<open>time.LoadLocation\<close> is a parameter \<open>zones\<close>: a zone name it knows gives the
  offset from UTC, in seconds, at an instant.
\<close>

record time_window =
  tw_Hours :: string
  tw_Weekdays :: "string list"
  tw_TZ :: string

type_synonym zone_db = "string \<Rightarrow> (int \<Rightarrow> int) option"

section \<open>Civil time\<close>

definition local_time :: "zone_db \<Rightarrow> string \<Rightarrow> int \<Rightarrow> int" where
  "local_time zones tz t =
     (if tz = [] then t
      else (case zones tz of Some off \<Rightarrow> t + off t * second | None \<Rightarrow> t))"

text \<open>Days are counted from Sunday, as \<open>time.Weekday\<close> does; the epoch was a Thursday.\<close>

definition weekday_of :: "int \<Rightarrow> nat" where
  "weekday_of lt = nat ((lt div (1440 * minute) + 4) mod 7)"

definition minute_of_day :: "int \<Rightarrow> int" where
  "minute_of_day lt = (let h = (lt div (60 * minute)) mod 24; m = (lt div minute) mod 60 in h * 60 + m)"

definition weekday_names :: "string list" where
  "weekday_names = [''Sunday'', ''Monday'', ''Tuesday'', ''Wednesday'', ''Thursday'', ''Friday'', ''Saturday'']"

section \<open>Parsing a range\<close>

text \<open>\<open>fmt.Sscanf (s, "%d", &v)\<close>: leading blanks other than a newline, a sign, digits; what
  follows the digits is left unread and is no error.\<close>

definition sscanf_d :: "string \<Rightarrow> int option" where
  "sscanf_d s =
     (let s1 = dropWhile (\<lambda>c. is_space c \<and> c \<noteq> CHR 0x0A) s in
      case s1 of
        [] \<Rightarrow> None
      | c # t \<Rightarrow>
          if c = CHR ''-'' \<or> c = CHR ''+'' then
            (if takeWhile is_digit t = [] then None else atoi (c # takeWhile is_digit t))
          else if takeWhile is_digit s1 = [] then None
          else atoi (takeWhile is_digit s1))"

definition parseHHMM :: "string \<Rightarrow> int option" where
  "parseHHMM s =
     (case split2 (CHR '':'') s of
        (_, None) \<Rightarrow> None
      | (p0, Some p1) \<Rightarrow>
          (case sscanf_d p0 of
             None \<Rightarrow> None
           | Some h \<Rightarrow>
               (case sscanf_d p1 of
                  None \<Rightarrow> None
                | Some m \<Rightarrow>
                    if h < 0 \<or> h > 24 \<or> m < 0 \<or> m > 59 then None else Some (h * 60 + m))))"

definition parseHourRange :: "string \<Rightarrow> (int \<times> int) option" where
  "parseHourRange s =
     (case split2 (CHR ''-'') s of
        (_, None) \<Rightarrow> None
      | (p0, Some p1) \<Rightarrow>
          (case parseHHMM (trim_space p0) of
             None \<Rightarrow> None
           | Some start \<Rightarrow>
               (case parseHHMM (trim_space p1) of None \<Rightarrow> None | Some end \<Rightarrow> Some (start, end))))"

definition weekdayMatch :: "nat \<Rightarrow> string list \<Rightarrow> bool" where
  "weekdayMatch d list \<longleftrightarrow>
     list = []
     \<or> (\<exists>w \<in> set list. let w' = to_lower (trim_space w); name = weekday_names ! d in
          w' = ''all'' \<or> w' = to_lower (take 3 name) \<or> w' = to_lower name)"

definition inWindow :: "zone_db \<Rightarrow> time_window \<Rightarrow> int \<Rightarrow> bool" where
  "inWindow zones w t =
     (let lt = local_time zones (tw_TZ w) t in
      if \<not> weekdayMatch (weekday_of lt) (tw_Weekdays w) then False
      else if tw_Hours w = [] then True
      else (case parseHourRange (tw_Hours w) of
          None \<Rightarrow> False
        | Some (startMin, endMin) \<Rightarrow>
            let cur = minute_of_day lt in
            if startMin \<le> endMin then cur \<ge> startMin \<and> cur < endMin
            else cur \<ge> startMin \<or> cur < endMin))"

section \<open>Ranges as an operator writes them\<close>

text \<open>Two digits, and the text of a range between two minutes of the day.\<close>

definition two_digits :: "nat \<Rightarrow> string" where
  "two_digits n = [digit_char (n div 10), digit_char (n mod 10)]"

definition clock_text :: "nat \<Rightarrow> string" where
  "clock_text n = two_digits (n div 60) @ '':'' @ two_digits (n mod 60)"

definition range_text :: "nat \<Rightarrow> nat \<Rightarrow> string" where
  "range_text a b = clock_text a @ ''-'' @ clock_text b"

lemma digit_not_special: "is_digit c \<Longrightarrow> c \<noteq> CHR ''-'' \<and> c \<noteq> CHR ''+'' \<and> c \<noteq> CHR '':'' \<and> \<not> is_space c"
  by (auto simp: is_digit_def is_space_def)

lemma two_digits_props:
  assumes "n < 100"
  obtains a b where "two_digits n = [a, b]" "is_digit a" "is_digit b"
    "10 * digit_val a + digit_val b = n"
proof
  show "two_digits n = [digit_char (n div 10), digit_char (n mod 10)]" by (simp add: two_digits_def)
qed (use assms in \<open>simp_all add: digit_char_props\<close>)

lemma sscanf_two_digits:
  assumes "n < 100"
  shows "sscanf_d (two_digits n) = Some (int n)"
proof -
  obtain a b where h: "two_digits n = [a, b]" "is_digit a" "is_digit b" "10 * digit_val a + digit_val b = n"
    using assms by (rule two_digits_props)
  then have "int64_range (int n)" "digits_val [a, b] = n"
    using assms by (simp_all add: int64_range_def digits_val_def)
  with h show ?thesis by (simp add: sscanf_d_def digit_not_special atoi_def)
qed

lemma parse_clock_text: "n \<le> 1440 \<Longrightarrow> parseHHMM (clock_text n) = Some (int n)"
proof -
  assume n: "n \<le> 1440"
  then have d: "n div 60 < 100" "n mod 60 < 100" by simp_all
  have "split2 (CHR '':'') (clock_text n) = (two_digits (n div 60), Some (two_digits (n mod 60)))"
    using d(1) by (rule two_digits_props) (simp add: clock_text_def split2_def digit_not_special)
  moreover have "n div 60 \<le> 24" "n mod 60 \<le> 59" using n by simp_all
  moreover have "int (n div 60) * 60 + int (n mod 60) = int n"
    by (metis div_mult_mod_eq of_nat_add of_nat_mult of_nat_numeral)
  ultimately show ?thesis
    using d by (simp add: parseHHMM_def sscanf_two_digits)
qed

lemma clock_text_shape:
  assumes "n \<le> 1440"
  obtains a b c d where "clock_text n = [a, b, CHR '':'', c, d]" "is_digit a" "is_digit b" "is_digit c" "is_digit d"
proof -
  have "n div 60 < 100" "n mod 60 < 100" using assms by simp_all
  then show ?thesis using that by (elim two_digits_props) (auto simp: clock_text_def)
qed

lemma trim_clock_text: "n \<le> 1440 \<Longrightarrow> trim_space (clock_text n) = clock_text n"
  by (erule clock_text_shape) (simp add: trim_space_def trim_left_def trim_right_def digit_not_special)

lemma parse_range_text:
  assumes "a \<le> 1440" "b \<le> 1440"
  shows "parseHourRange (range_text a b) = Some (int a, int b)"
proof -
  have "split2 (CHR ''-'') (range_text a b) = (clock_text a, Some (clock_text b))"
    using assms(1) by (rule clock_text_shape) (simp add: range_text_def split2_def digit_not_special)
  with assms show ?thesis
    by (simp add: parseHourRange_def trim_clock_text parse_clock_text)
qed

lemma range_text_ne [simp]: "range_text a b \<noteq> []"
  by (simp add: range_text_def)

lemma minute_of_day_range: "0 \<le> minute_of_day t \<and> minute_of_day t < 1440"
proof -
  have "0 \<le> (t div (60 * minute)) mod 24" "(t div (60 * minute)) mod 24 \<le> 23"
    "0 \<le> (t div minute) mod 60" "(t div minute) mod 60 \<le> 59" by simp_all
  then show ?thesis unfolding minute_of_day_def Let_def by linarith
qed

text \<open>
  Wrap-around windows. For two different times of day a and b, the windows a-b and b-a with
  the same weekdays and zone split every day between them: on a listed weekday exactly one of
  them is open, whichever of the two wraps around midnight, and on any other day neither is.
\<close>

lemma window_complement:
  assumes "a < 1440" "b < 1440" "a \<noteq> b"
  shows "inWindow zones \<lparr>tw_Hours = range_text a b, tw_Weekdays = wd, tw_TZ = tz\<rparr> t
    \<longleftrightarrow> weekdayMatch (weekday_of (local_time zones tz t)) wd
        \<and> \<not> inWindow zones \<lparr>tw_Hours = range_text b a, tw_Weekdays = wd, tw_TZ = tz\<rparr> t"
  using assms by (auto simp: inWindow_def Let_def parse_range_text)

lemma window_complement_example:
  "inWindow (\<lambda>_. None) \<lparr>tw_Hours = range_text 1320 240, tw_Weekdays = [], tw_TZ = []\<rparr> 0
   \<longleftrightarrow> \<not> inWindow (\<lambda>_. None) \<lparr>tw_Hours = range_text 240 1320, tw_Weekdays = [], tw_TZ = []\<rparr> 0"
  using window_complement [of 1320 240 "\<lambda>_. None" "[]" "[]" 0] by (simp add: weekdayMatch_def)

text \<open>The spelling a configuration uses; a window that starts and ends at the same minute is
  empty, not the whole day.\<close>

lemma range_text_example: "range_text 1320 240 = ''22:00-04:00''"
  by code_simp

lemma empty_window:
  "a \<le> 1440 \<Longrightarrow> \<not> inWindow zones \<lparr>tw_Hours = range_text a a, tw_Weekdays = wd, tw_TZ = tz\<rparr> t"
  by (simp add: inWindow_def Let_def parse_range_text)

end
