(* ===== verification/PolicyHistory.thy ===== *)
theory PolicyHistory
  imports Types
begin

text \<open>
  \<open>internal/policy/history.go\<close>: the sliding window of recent decisions that the
  \<open>prior_decision\<close> clause and the console's reversal marker read.
\<close>

record history_entry =
  he_When :: int
  he_IdentityID :: string
  he_Host :: string
  he_Effect :: string
  he_RuleID :: string

record history =
  hs_buf :: "history_entry list"
  hs_cap :: int

record prior_decision =
  pd_Effect :: string
  pd_SameIdentity :: bool
  pd_SameHost :: bool
  pd_WithinSeconds :: int

definition NewHistory :: "int \<Rightarrow> history" where
  "NewHistory capacity = \<lparr>hs_buf = [], hs_cap = (if capacity \<le> 0 then 1024 else capacity)\<rparr>"

definition history_entry_of :: "request_event \<Rightarrow> decision \<Rightarrow> int \<Rightarrow> history_entry" where
  "history_entry_of req d when' =
     \<lparr>he_When = when', he_IdentityID = ev_IdentityID req, he_Host = ev_Host req,
      he_Effect = effect_string (d_Effect d), he_RuleID = d_RuleID d\<rparr>"

text \<open>The append under the lock: when the buffer is full its first entry is shifted out.\<close>

definition push_entry :: "history_entry \<Rightarrow> history \<Rightarrow> history" where
  "push_entry e h =
     (let buf = (if int (length (hs_buf h)) \<ge> hs_cap h
                 then take (nat (hs_cap h - 1)) (drop 1 (hs_buf h)) else hs_buf h)
      in h\<lparr>hs_buf := buf @ [e]\<rparr>)"

definition Record :: "request_event \<Rightarrow> decision \<Rightarrow> int \<Rightarrow> history \<Rightarrow> history" where
  "Record req d when' h =
     (if d_Source d = SourceLLMAdvisor then h else push_entry (history_entry_of req d when') h)"

definition trimAskUserResolvedPrefix :: "string \<Rightarrow> string" where
  "trimAskUserResolvedPrefix eff = trim_prefix eff ''ask_user_resolved_''"

text \<open>The scan from the newest entry to the oldest; a nil history is \<open>None\<close>.\<close>

fun scan_opposite :: "string \<Rightarrow> string \<Rightarrow> history_entry list \<Rightarrow> bool" where
  "scan_opposite host want [] = False"
| "scan_opposite host want (e # es) =
     (if he_Host e \<noteq> host then scan_opposite host want es
      else let got = trimAskUserResolvedPrefix (he_Effect e) in
        if got \<noteq> [] \<and> got \<noteq> want then True else scan_opposite host want es)"

definition HasOppositeEffect :: "history option \<Rightarrow> string \<Rightarrow> string \<Rightarrow> bool" where
  "HasOppositeEffect h host currentEffect =
     (case h of
        None \<Rightarrow> False
      | Some hs \<Rightarrow>
          if host = [] \<or> currentEffect = [] then False
          else scan_opposite host (trimAskUserResolvedPrefix currentEffect) (rev (hs_buf hs)))"

definition entry_matches :: "request_event \<Rightarrow> prior_decision \<Rightarrow> history_entry \<Rightarrow> bool" where
  "entry_matches req m e \<longleftrightarrow>
     \<not> (pd_Effect m \<noteq> [] \<and> he_Effect e \<noteq> pd_Effect m)
     \<and> \<not> (pd_SameIdentity m \<and> he_IdentityID e \<noteq> ev_IdentityID req)
     \<and> \<not> (pd_SameHost m \<and> he_Host e \<noteq> ev_Host req)"

fun scan_prior :: "request_event \<Rightarrow> prior_decision \<Rightarrow> int \<Rightarrow> history_entry list \<Rightarrow> bool" where
  "scan_prior req m cutoff [] = False"
| "scan_prior req m cutoff (e # es) =
     (if he_When e < cutoff then False
      else if entry_matches req m e then True
      else scan_prior req m cutoff es)"

text \<open>The duration is an \<open>int64\<close> of nanoseconds and wraps.\<close>

definition prior_cutoff :: "prior_decision \<Rightarrow> int \<Rightarrow> int" where
  "prior_cutoff m now = now + wrap64 (wrap64 (- pd_WithinSeconds m) * second)"

definition history_match :: "history option \<Rightarrow> request_event \<Rightarrow> prior_decision option \<Rightarrow> int \<Rightarrow> bool" where
  "history_match h req m now =
     (case (h, m) of
        (Some hs, Some pd) \<Rightarrow> scan_prior req pd (prior_cutoff pd now) (rev (hs_buf hs))
      | _ \<Rightarrow> False)"

section \<open>The window is a bounded log\<close>

definition history_ok :: "history \<Rightarrow> bool" where
  "history_ok h \<longleftrightarrow> 0 < hs_cap h \<and> int (length (hs_buf h)) \<le> hs_cap h"

definition history_capacity :: "history \<Rightarrow> nat" where
  "history_capacity h = nat (hs_cap h)"

lemma NewHistory_ok [simp]: "history_ok (NewHistory n)"
  by (simp add: NewHistory_def history_ok_def)

interpretation history_log: bounded_log push_entry hs_buf history_capacity history_ok
  by unfold_locales
    (auto simp: push_entry_def history_ok_def history_capacity_def Let_def nat_diff_distrib
      Suc_diff_le nat_le_iff dest!: arg_cong [of _ _ nat])

definition record_all :: "(request_event \<times> decision \<times> int) list \<Rightarrow> history \<Rightarrow> history" where
  "record_all rs h = fold (\<lambda>(req, d, w). Record req d w) rs h"

definition recorded :: "(request_event \<times> decision \<times> int) list \<Rightarrow> history_entry list" where
  "recorded rs = map (\<lambda>(req, d, w). history_entry_of req d w)
     (filter (\<lambda>(req, d, w). d_Source d \<noteq> SourceLLMAdvisor) rs)"

lemma record_all_push: "record_all rs h = fold push_entry (recorded rs) h"
  by (induction rs arbitrary: h) (auto simp: record_all_def recorded_def Record_def)

text \<open>
  What the history holds. However many decisions are recorded, the buffer holds exactly
  the newest ones that fit the capacity, in the order they were made, and none of them came
  from the LLM advisor: those are left out as if they had never been recorded.
\<close>

lemma history_contents:
  "hs_buf (record_all rs (NewHistory n))
   = drop (length (recorded rs) - nat (if n \<le> 0 then 1024 else n)) (recorded rs)"
  using history_log.entries_adds [of "NewHistory n" "recorded rs"]
  by (simp add: record_all_push) (simp add: NewHistory_def history_capacity_def)

section \<open>The scans\<close>

lemma scan_opposite_iff:
  "scan_opposite host want es \<longleftrightarrow>
   (\<exists>e \<in> set es. he_Host e = host \<and> trimAskUserResolvedPrefix (he_Effect e) \<notin> {[], want})"
  by (induction es) (auto simp: Let_def)

lemma scan_prior_iff:
  "sorted_wrt (\<lambda>a b. he_When b \<le> he_When a) es \<Longrightarrow>
   scan_prior req m cutoff es \<longleftrightarrow> (\<exists>e \<in> set es. cutoff \<le> he_When e \<and> entry_matches req m e)"
proof (induction es)
  case (Cons e es)
  then show ?case
    by (cases "he_When e < cutoff") (auto dest: order_le_less_trans)
qed simp

text \<open>
  The \<open>prior_decision\<close> clause. When the recorded times never decrease and the window's
  length in nanoseconds fits 64 bits, stopping at the first entry older than the cutoff loses
  nothing: the clause holds exactly when some entry at most that many seconds old meets
  every criterion the clause sets.
\<close>

lemma history_match_iff:
  assumes "sorted_wrt (\<lambda>a b. he_When a \<le> he_When b) (hs_buf h)"
    and "\<bar>pd_WithinSeconds m\<bar> \<le> 9223372036"
  shows "history_match (Some h) req (Some m) now \<longleftrightarrow>
    (\<exists>e \<in> set (hs_buf h). now - pd_WithinSeconds m * second \<le> he_When e
       \<and> (pd_Effect m \<noteq> [] \<longrightarrow> he_Effect e = pd_Effect m)
       \<and> (pd_SameIdentity m \<longrightarrow> he_IdentityID e = ev_IdentityID req)
       \<and> (pd_SameHost m \<longrightarrow> he_Host e = ev_Host req))"
proof -
  have "- 9223372036 \<le> pd_WithinSeconds m" "pd_WithinSeconds m \<le> 9223372036"
    using assms(2) by linarith+
  then have "int64_range (- pd_WithinSeconds m)" "int64_range (- pd_WithinSeconds m * second)"
    by (auto simp: int64_range_def)
  then have "prior_cutoff m now = now - pd_WithinSeconds m * second"
    by (simp add: prior_cutoff_def wrap64_id)
  moreover have "sorted_wrt (\<lambda>a b. he_When b \<le> he_When a) (rev (hs_buf h))"
    using assms(1) by (simp add: sorted_wrt_rev)
  ultimately show ?thesis
    by (auto simp: history_match_def scan_prior_iff entry_matches_def)
qed

lemma history_match_iff_example:
  "history_match (Some (push_entry \<lparr>he_When = 5, he_IdentityID = ''ci'', he_Host = ''a.com'',
       he_Effect = ''deny'', he_RuleID = []\<rparr> (NewHistory 4))) (zero_request\<lparr>ev_IdentityID := ''ci''\<rparr>)
     (Some \<lparr>pd_Effect = ''deny'', pd_SameIdentity = True, pd_SameHost = False, pd_WithinSeconds = 60\<rparr>) 9"
  by (subst history_match_iff) (simp_all add: push_entry_def NewHistory_def)

end
