(* ===== verification/Policy.thy ===== *)
theory Policy
  imports TimeWindow PolicyHistory
begin

text \<open>
  \<open>internal/policy/rule.go\<close> and \<open>engine.go\<close>: the deterministic rule engine. The regular
  expression compiler is a parameter \<open>rx\<close> (\<open>None\<close> is a compile error), the YAML decoder and
  the file system are parameters of \<open>Reload\<close>, and the validator of URL patterns is the
  function the engine stores.
\<close>

section \<open>Rules\<close>

type_synonym regexps = "string \<Rightarrow> (string \<Rightarrow> bool) option"

record match_clause =
  m_Host :: "string list"
  m_Port :: "int list"
  m_Method :: "string list"
  m_Path :: string
  m_PathPrefix :: string
  m_PathRegex :: string
  m_HeaderMatch :: "(string \<times> string) list"
  m_Identity :: string
  m_ContentType :: string
  m_BodyPattern :: string
  m_Time :: "time_window option"
  m_PriorDecision :: "prior_decision option"
  m_Pattern :: string
  m_Components :: components

record rule =
  r_ID :: string
  r_Description :: string
  r_Priority :: int
  r_Match :: match_clause
  r_Effect :: string
  r_Modifiers :: "string list"
  r_Expires :: string

record eval_context =
  cx_now :: int
  cx_history :: "history option"

definition host_pattern_hits :: "string \<Rightarrow> string \<Rightarrow> bool" where
  "host_pattern_hits host pat =
     (let p = to_lower (trim_space pat) in
      if p = host then True
      else if has_prefix p ''*.'' then
        (let suffix = drop 1 p in has_suffix host suffix \<and> length host > length suffix)
      else False)"

definition matchHost :: "string list \<Rightarrow> string \<Rightarrow> bool" where
  "matchHost patterns host0 =
     (let host1 = to_lower (trim_space host0);
          host = (case split_host_port host1 of Some (h, _) \<Rightarrow> h | None \<Rightarrow> host1)
      in list_ex (host_pattern_hits host) patterns)"

definition containsInt :: "int list \<Rightarrow> int \<Rightarrow> bool" where
  "containsInt haystack needle = list_ex (\<lambda>v. v = needle) haystack"

definition containsStringFold :: "string list \<Rightarrow> string \<Rightarrow> bool" where
  "containsStringFold haystack needle = list_ex (\<lambda>v. equal_fold v needle) haystack"

definition headerMatches :: "regexps \<Rightarrow> headers \<Rightarrow> string \<Rightarrow> string \<Rightarrow> bool" where
  "headerMatches rx h name pat =
     (let val = header_get h name in
      if val = [] then False
      else (case rx pat of None \<Rightarrow> False | Some re \<Rightarrow> re val))"

definition component_hits :: "components \<Rightarrow> string \<times> string \<Rightarrow> bool" where
  "component_hits got = (\<lambda>(k, want).
     if want = [] \<or> want = ''*'' then True
     else (case map_of got k of None \<Rightarrow> False | Some g \<Rightarrow> equal_fold g want))"

definition pattern_clause :: "match_clause \<Rightarrow> request_event \<Rightarrow> bool" where
  "pattern_clause m req =
     (if m_Pattern m = [] then True
      else (case ev_MatchedPattern req of
          None \<Rightarrow> False
        | Some mp \<Rightarrow>
            if mp_Name mp \<noteq> m_Pattern m then False
            else list_all (component_hits (mp_Components mp)) (m_Components m)))"

definition body_clause :: "regexps \<Rightarrow> match_clause \<Rightarrow> request_event \<Rightarrow> bool" where
  "body_clause rx m req =
     (if m_BodyPattern m = [] then True
      else if ev_BodySample req = [] then False
      else (case rx (m_BodyPattern m) of None \<Rightarrow> False | Some re \<Rightarrow> re (ev_BodySample req)))"

text \<open>\<open>(*Rule).matches\<close>: the clauses in the order of the function, each an early return.\<close>

definition rule_matches :: "regexps \<Rightarrow> zone_db \<Rightarrow> match_clause \<Rightarrow> request_event \<Rightarrow> eval_context \<Rightarrow> bool" where
  "rule_matches rx zones m req cx =
     (if m_Host m \<noteq> [] \<and> \<not> matchHost (m_Host m) (ev_Host req) then False
      else if m_Port m \<noteq> [] \<and> \<not> containsInt (m_Port m) (ev_Port req) then False
      else if m_Method m \<noteq> [] \<and> \<not> containsStringFold (m_Method m) (ev_Method req) then False
      else if m_Path m \<noteq> [] \<and> ev_Path req \<noteq> m_Path m then False
      else if m_PathPrefix m \<noteq> [] \<and> \<not> has_prefix (ev_Path req) (m_PathPrefix m) then False
      else if m_PathRegex m \<noteq> []
              \<and> (case rx (m_PathRegex m) of None \<Rightarrow> True | Some re \<Rightarrow> \<not> re (ev_Path req)) then False
      else if m_Identity m \<noteq> [] \<and> m_Identity m \<noteq> ev_IdentityID req then False
      else if \<not> list_all (\<lambda>(h, pat). headerMatches rx (ev_Headers req) h pat) (m_HeaderMatch m) then False
      else if m_ContentType m \<noteq> []
              \<and> \<not> equal_fold (m_ContentType m) (header_get (ev_Headers req) ''Content-Type'') then False
      else if (case m_Time m of None \<Rightarrow> False | Some w \<Rightarrow> \<not> inWindow zones w (cx_now cx)) then False
      else if (case m_PriorDecision m of
                 None \<Rightarrow> False
               | Some pd \<Rightarrow> cx_history cx = None
                   \<or> \<not> history_match (cx_history cx) req (Some pd) (cx_now cx)) then False
      else if \<not> body_clause rx m req then False
      else pattern_clause m req)"

definition ruleMatchesIgnoringBody ::
    "regexps \<Rightarrow> zone_db \<Rightarrow> match_clause \<Rightarrow> request_event \<Rightarrow> eval_context \<Rightarrow> bool" where
  "ruleMatchesIgnoringBody rx zones m req cx = rule_matches rx zones (m\<lparr>m_BodyPattern := []\<rparr>) req cx"

section \<open>The engine\<close>

record engine =
  en_mode :: string
  en_include :: "string list"
  en_rules :: "rule list"
  en_version :: string
  en_knownModifiers :: "string list option"
  en_patterns :: "(string \<Rightarrow> string list \<Rightarrow> bool) option"
  en_history :: "history option"

definition KnownModifiers :: "string list" where
  "KnownModifiers = [''redact_authorization_header'', ''redact_cookie'']"

definition SetMode :: "string \<Rightarrow> engine \<Rightarrow> engine" where
  "SetMode mode e = e\<lparr>en_mode := mode\<rparr>"

subsection \<open>Loading rules\<close>

datatype load_error =
    CannotRead string
  | BadYAML string
  | MultipleDocuments string
  | MissingID string nat
  | MissingEffect string nat
  | InvalidEffect string nat string
  | UnknownModifier string string string
  | ComponentsWithoutPattern string string
  | BadPattern string string

text \<open>What the decoder returns for each document after the first, until it reports the end of
  the file.\<close>

datatype extra_document = DocError | DocNull | DocContent

record loader =
  ld_read :: "string \<Rightarrow> string option"
  ld_decode :: "string \<Rightarrow> rule list option"
  ld_extra :: "string \<Rightarrow> extra_document list"
  ld_sha256 :: "string \<Rightarrow> string"

fun check_extra :: "string \<Rightarrow> extra_document list \<Rightarrow> load_error option" where
  "check_extra path [] = None"
| "check_extra path (d # ds) =
     (case d of
        DocError \<Rightarrow> Some (BadYAML path)
      | DocContent \<Rightarrow> Some (MultipleDocuments path)
      | DocNull \<Rightarrow> check_extra path ds)"

definition valid_effects :: "string list" where
  "valid_effects = [''allow'', ''deny'', ''ask_user'', ''ask_llm'']"

definition check_rule :: "engine \<Rightarrow> string \<Rightarrow> nat \<Rightarrow> rule \<Rightarrow> load_error option" where
  "check_rule e path i r =
     (let m = r_Match r in
      if r_ID r = [] then Some (MissingID path i)
      else if r_Effect r = [] then Some (MissingEffect path i)
      else if r_Effect r \<notin> set valid_effects then Some (InvalidEffect path i (r_Effect r))
      else (case find (\<lambda>md. case en_knownModifiers e of None \<Rightarrow> False | Some ks \<Rightarrow> md \<notin> set ks)
                   (r_Modifiers r) of
          Some md \<Rightarrow> Some (UnknownModifier path (r_ID r) md)
        | None \<Rightarrow>
            if m_Pattern m = [] \<and> m_Components m \<noteq> [] then Some (ComponentsWithoutPattern path (r_ID r))
            else (case en_patterns e of
                None \<Rightarrow> None
              | Some validate \<Rightarrow>
                  if m_Pattern m \<noteq> [] \<and> \<not> validate (m_Pattern m) (map fst (m_Components m))
                  then Some (BadPattern path (r_ID r)) else None)))"

definition default_priority :: "rule \<Rightarrow> rule" where
  "default_priority r = (if r_Priority r = 0 then r\<lparr>r_Priority := 100\<rparr> else r)"

fun load_rules :: "engine \<Rightarrow> string \<Rightarrow> nat \<Rightarrow> rule list \<Rightarrow> load_error + rule list" where
  "load_rules e path i [] = Inr []"
| "load_rules e path i (r # rs) =
     (case check_rule e path i r of
        Some err \<Rightarrow> Inl err
      | None \<Rightarrow>
          (case load_rules e path (Suc i) rs of
             Inl err \<Rightarrow> Inl err
           | Inr out \<Rightarrow> Inr (default_priority r # out)))"

text \<open>The outer loop over the include files: the rules so far and the bytes hashed so far.\<close>

fun load_files :: "engine \<Rightarrow> loader \<Rightarrow> string list \<Rightarrow> load_error + rule list \<times> string" where
  "load_files e ld [] = Inr ([], [])"
| "load_files e ld (path # paths) =
     (case ld_read ld path of
        None \<Rightarrow> Inl (CannotRead path)
      | Some data \<Rightarrow>
          (case ld_decode ld data of
             None \<Rightarrow> Inl (BadYAML path)
           | Some fileRules \<Rightarrow>
               (case check_extra path (ld_extra ld data) of
                  Some err \<Rightarrow> Inl err
                | None \<Rightarrow>
                    (case load_rules e path 0 fileRules of
                       Inl err \<Rightarrow> Inl err
                     | Inr rs \<Rightarrow>
                         (case load_files e ld paths of
                            Inl err \<Rightarrow> Inl err
                          | Inr (rs', bytes) \<Rightarrow> Inr (rs @ rs', data @ bytes))))))"

definition priority_before :: "rule \<Rightarrow> rule \<Rightarrow> bool" where
  "priority_before a b \<longleftrightarrow> r_Priority a > r_Priority b"

definition Reload :: "loader \<Rightarrow> engine \<Rightarrow> engine \<times> load_error option" where
  "Reload ld e =
     (case load_files e ld (en_include e) of
        Inl err \<Rightarrow> (e, Some err)
      | Inr (rs, bytes) \<Rightarrow>
          (e\<lparr>en_rules := stable_sort priority_before rs,
             en_version := take 16 (ld_sha256 ld bytes)\<rparr>, None))"

definition SetPatternValidator ::
    "loader \<Rightarrow> (string \<Rightarrow> string list \<Rightarrow> bool) \<Rightarrow> engine \<Rightarrow> engine \<times> load_error option" where
  "SetPatternValidator ld v e = Reload ld (e\<lparr>en_patterns := Some v\<rparr>)"

definition NewEngine :: "loader \<Rightarrow> string \<Rightarrow> string list \<Rightarrow> string list \<Rightarrow> load_error + engine" where
  "NewEngine ld mode includePaths known =
     (case Reload ld \<lparr>en_mode = mode, en_include = includePaths, en_rules = [], en_version = [],
         en_knownModifiers = Some known, en_patterns = None, en_history = Some (NewHistory 2048)\<rparr> of
        (e, None) \<Rightarrow> Inr e
      | (_, Some err) \<Rightarrow> Inl err)"

subsection \<open>Deciding\<close>

definition body_unavailable :: "rule \<Rightarrow> decision" where
  "body_unavailable r = zero_decision\<lparr>d_Effect := EffectDeny, d_Source := SourceRule, d_RuleID := r_ID r,
     d_Reason := ''rule '' @ r_ID r
       @ '' required body inspection but body sample was unavailable; failing closed''\<rparr>"

definition rule_decision :: "rule \<Rightarrow> decision" where
  "rule_decision r = zero_decision\<lparr>d_Effect := effect_of_string (r_Effect r), d_Source := SourceRule,
     d_RuleID := r_ID r,
     d_Reason := (if r_Description r = [] then ''rule '' @ r_ID r @ '' matched'' else r_Description r),
     d_Modifiers := r_Modifiers r\<rparr>"

text \<open>One turn of the loop of \<open>Decide\<close>: the decision the rule makes, if it makes one.\<close>

definition try_rule :: "regexps \<Rightarrow> zone_db \<Rightarrow> request_event \<Rightarrow> eval_context \<Rightarrow> rule \<Rightarrow> decision option" where
  "try_rule rx zones req cx r =
     (if m_BodyPattern (r_Match r) \<noteq> [] \<and> ev_BodySample req = []
         \<and> ruleMatchesIgnoringBody rx zones (r_Match r) req cx
      then Some (body_unavailable r)
      else if rule_matches rx zones (r_Match r) req cx then Some (rule_decision r)
      else None)"

fun first_decision :: "regexps \<Rightarrow> zone_db \<Rightarrow> request_event \<Rightarrow> eval_context \<Rightarrow> rule list \<Rightarrow> decision option" where
  "first_decision rx zones req cx [] = None"
| "first_decision rx zones req cx (r # rs) =
     (case try_rule rx zones req cx r of
        Some d \<Rightarrow> Some d
      | None \<Rightarrow> first_decision rx zones req cx rs)"

definition default_decision :: "string \<Rightarrow> decision" where
  "default_decision mode =
     (if mode = ''default-allow'' then
        zero_decision\<lparr>d_Effect := EffectAllow, d_Source := SourceDefault,
          d_Reason := ''no rule matched; default-allow mode''\<rparr>
      else if mode = ''default-ask'' then
        zero_decision\<lparr>d_Effect := EffectAskUser, d_Source := SourceDefault,
          d_Reason := ''no rule matched; default-ask mode''\<rparr>
      else
        zero_decision\<lparr>d_Effect := EffectDeny, d_Source := SourceDefault,
          d_Reason := ''no rule matched; default-deny mode''\<rparr>)"

definition Decide :: "regexps \<Rightarrow> zone_db \<Rightarrow> int \<Rightarrow> engine \<Rightarrow> request_event \<Rightarrow> decision" where
  "Decide rx zones now e req =
     (case first_decision rx zones req \<lparr>cx_now = now, cx_history = en_history e\<rparr> (en_rules e) of
        Some d \<Rightarrow> d
      | None \<Rightarrow> default_decision (en_mode e))"


section \<open>Without the body sample\<close>

text \<open>The request as it reaches the engine when the dispatcher could not capture a sample, for
  instance because the body is over the cap.\<close>

definition drop_sample :: "request_event \<Rightarrow> request_event" where
  "drop_sample req = req\<lparr>ev_BodySample := []\<rparr>"

lemma drop_sample_sel [simp]:
  "ev_BodySample (drop_sample req) = []" "ev_Host (drop_sample req) = ev_Host req"
  "ev_Port (drop_sample req) = ev_Port req" "ev_Method (drop_sample req) = ev_Method req"
  "ev_Path (drop_sample req) = ev_Path req" "ev_IdentityID (drop_sample req) = ev_IdentityID req"
  "ev_Headers (drop_sample req) = ev_Headers req"
  "ev_MatchedPattern (drop_sample req) = ev_MatchedPattern req"
  by (simp_all add: drop_sample_def)

lemma history_match_drop_sample [simp]:
  "history_match h (drop_sample req) m now = history_match h req m now"
proof -
  have "scan_prior (drop_sample req) pd c es = scan_prior req pd c es" for pd c es
    by (induction es) (simp_all add: entry_matches_def)
  then show ?thesis by (simp add: history_match_def split: option.split)
qed

text \<open>A rule's clauses other than \<open>body_pattern\<close>, and \<open>body_pattern\<close>.\<close>

lemma if_False_else: "(if P then False else Q) \<longleftrightarrow> \<not> P \<and> Q"
  by simp

lemmas clause_list = rule_matches_def if_False_else

lemma other_clauses:
  "m_Host (m\<lparr>m_BodyPattern := v\<rparr>) = m_Host m"
  "m_Port (m\<lparr>m_BodyPattern := v\<rparr>) = m_Port m"
  "m_Method (m\<lparr>m_BodyPattern := v\<rparr>) = m_Method m"
  "m_Path (m\<lparr>m_BodyPattern := v\<rparr>) = m_Path m"
  "m_PathPrefix (m\<lparr>m_BodyPattern := v\<rparr>) = m_PathPrefix m"
  "m_PathRegex (m\<lparr>m_BodyPattern := v\<rparr>) = m_PathRegex m"
  "m_HeaderMatch (m\<lparr>m_BodyPattern := v\<rparr>) = m_HeaderMatch m"
  "m_Identity (m\<lparr>m_BodyPattern := v\<rparr>) = m_Identity m"
  "m_ContentType (m\<lparr>m_BodyPattern := v\<rparr>) = m_ContentType m"
  "m_Time (m\<lparr>m_BodyPattern := v\<rparr>) = m_Time m"
  "m_PriorDecision (m\<lparr>m_BodyPattern := v\<rparr>) = m_PriorDecision m"
  "m_Pattern (m\<lparr>m_BodyPattern := v\<rparr>) = m_Pattern m"
  "m_Components (m\<lparr>m_BodyPattern := v\<rparr>) = m_Components m"
  by simp_all

lemma body_clause_empty [simp]: "body_clause rx (m\<lparr>m_BodyPattern := []\<rparr>) req"
  by (simp add: body_clause_def)

lemma pattern_clause_body [simp]: "pattern_clause (m\<lparr>m_BodyPattern := v\<rparr>) req = pattern_clause m req"
  unfolding pattern_clause_def other_clauses ..

lemma rule_matches_split:
  "rule_matches rx zones m req cx \<longleftrightarrow> ruleMatchesIgnoringBody rx zones m req cx \<and> body_clause rx m req"
  unfolding ruleMatchesIgnoringBody_def clause_list other_clauses pattern_clause_body
  by (simp only: body_clause_empty conj_ac simp_thms)

lemma pattern_clause_drop_sample [simp]: "pattern_clause m (drop_sample req) = pattern_clause m req"
  by (simp add: pattern_clause_def)

lemma ignoring_body_drop_sample [simp]:
  "ruleMatchesIgnoringBody rx zones m (drop_sample req) cx = ruleMatchesIgnoringBody rx zones m req cx"
  unfolding ruleMatchesIgnoringBody_def clause_list
  by (simp only: drop_sample_sel history_match_drop_sample pattern_clause_drop_sample body_clause_empty)

lemma try_rule_drop_sample:
  "try_rule rx zones (drop_sample req) cx r = try_rule rx zones req cx r
   \<or> try_rule rx zones (drop_sample req) cx r = Some (body_unavailable r) \<and> m_BodyPattern (r_Match r) \<noteq> []"
  by (auto simp: try_rule_def rule_matches_split body_clause_def)

lemma first_decision_drop_sample:
  "first_decision rx zones (drop_sample req) cx rs = first_decision rx zones req cx rs
   \<or> (\<exists>r \<in> set rs. first_decision rx zones (drop_sample req) cx rs = Some (body_unavailable r)
        \<and> m_BodyPattern (r_Match r) \<noteq> [])"
proof (induction rs)
  case (Cons r rs)
  then show ?case
    using try_rule_drop_sample [of rx zones req cx r] by (auto split: option.splits)
qed simp

text \<open>
  C8: body inspection fails closed. Whatever the rules, the mode and the history, withholding
  the body sample of a request (by padding the body past the cap, for instance) either leaves
  the decision as it is or turns it into a deny that names the rule whose \<open>body_pattern\<close>
  could not be evaluated. It never gains the request anything.
\<close>

theorem body_fail_closed:
  "Decide rx zones now e (drop_sample req) = Decide rx zones now e req
   \<or> (\<exists>r \<in> set (en_rules e). Decide rx zones now e (drop_sample req) = body_unavailable r
        \<and> d_Effect (body_unavailable r) = EffectDeny \<and> m_BodyPattern (r_Match r) \<noteq> [])"
  using first_decision_drop_sample [of rx zones req "\<lparr>cx_now = now, cx_history = en_history e\<rparr>" "en_rules e"]
  by (auto simp: Decide_def body_unavailable_def)

section \<open>Which rule decides\<close>

interpretation priority_order: comparator priority_before
  by unfold_locales (auto simp: priority_before_def)

lemma first_decision_find:
  "first_decision rx zones req cx rs =
     map_option (\<lambda>r. the (try_rule rx zones req cx r)) (find (\<lambda>r. try_rule rx zones req cx r \<noteq> None) rs)"
  by (induction rs) (auto split: option.splits)

text \<open>
  C31: rule order. After a reload, the rule that decides a request has the highest priority of
  all the rules, over all files, that would decide it, and is the first declared among those of
  that priority; when no rule would decide it, the mode's default decides.
\<close>

theorem Decide_highest_priority:
  fixes rx :: regexps and zones :: zone_db and now :: int and req :: request_event
  assumes "load_files e ld (en_include e) = Inr (rs, bytes)"
  defines "try \<equiv> \<lambda>r. try_rule rx zones req \<lparr>cx_now = now, cx_history = en_history e\<rparr> r"
    and "d \<equiv> Decide rx zones now (fst (Reload ld e)) req"
  shows "(\<exists>i < length rs. try (rs ! i) = Some d
      \<and> (\<forall>j < length rs. try (rs ! j) \<noteq> None \<longrightarrow>
           r_Priority (rs ! j) < r_Priority (rs ! i)
           \<or> r_Priority (rs ! j) = r_Priority (rs ! i) \<and> i \<le> j))
    \<or> (\<forall>r \<in> set rs. try r = None) \<and> d = default_decision (en_mode e)"
proof -
  have e': "en_rules (fst (Reload ld e)) = stable_sort priority_before rs"
    "en_history (fst (Reload ld e)) = en_history e" "en_mode (fst (Reload ld e)) = en_mode e"
    using assms(1) by (simp_all add: Reload_def)
  let ?P = "\<lambda>r. try r \<noteq> None"
  have d: "d = (case find ?P (stable_sort priority_before rs) of
      Some r \<Rightarrow> the (try r) | None \<Rightarrow> default_decision (en_mode e))"
    unfolding d_def Decide_def e' first_decision_find try_def by (simp split: option.split)
  show ?thesis
  proof (cases "find ?P (stable_sort priority_before rs)")
    case None
    then have "\<forall>r \<in> set rs. try r = None" by (auto simp: find_None_iff)
    moreover have "d = default_decision (en_mode e)" using d None by simp
    ultimately show ?thesis by blast
  next
    case (Some r)
    obtain i where i: "i < length rs" "rs ! i = r" "?P r"
      "\<And>j. j < length rs \<Longrightarrow> ?P (rs ! j) \<Longrightarrow>
         \<not> priority_before (rs ! j) r \<and> (priority_before r (rs ! j) \<or> i \<le> j)"
      using priority_order.find_stable_sort [OF Some] by blast
    have "try (rs ! i) = Some d" using d Some i by auto
    moreover have "r_Priority (rs ! j) < r_Priority (rs ! i)
        \<or> r_Priority (rs ! j) = r_Priority (rs ! i) \<and> i \<le> j" if "j < length rs" "try (rs ! j) \<noteq> None" for j
      using i(4) [OF that] i(2) by (auto simp: priority_before_def not_less order_le_less)
    ultimately show ?thesis using i(1) by blast
  qed
qed

definition sample_rule :: "string \<Rightarrow> int \<Rightarrow> string \<Rightarrow> rule" where
  "sample_rule rid pri eff = \<lparr>r_ID = rid, r_Description = [], r_Priority = pri,
     r_Match = \<lparr>m_Host = [], m_Port = [], m_Method = [], m_Path = [], m_PathPrefix = [], m_PathRegex = [],
       m_HeaderMatch = [], m_Identity = [], m_ContentType = [], m_BodyPattern = [], m_Time = None,
       m_PriorDecision = None, m_Pattern = [], m_Components = []\<rparr>,
     r_Effect = eff, r_Modifiers = [], r_Expires = []\<rparr>"

definition sample_loader :: "rule list \<Rightarrow> loader" where
  "sample_loader rs = \<lparr>ld_read = \<lambda>_. Some [], ld_decode = \<lambda>_. Some rs, ld_extra = \<lambda>_. [], ld_sha256 = \<lambda>s. s\<rparr>"

definition sample_engine :: engine where
  "sample_engine = \<lparr>en_mode = ''default-deny'', en_include = [''rules.yaml''], en_rules = [], en_version = [],
     en_knownModifiers = Some KnownModifiers, en_patterns = None, en_history = None\<rparr>"

lemmas sample_defs = sample_rule_def sample_loader_def sample_engine_def

definition sample_rules :: "rule list" where
  "sample_rules = [sample_rule ''low'' 100 ''allow'', sample_rule ''high'' 200 ''deny'']"

lemma sample_load:
  "load_files sample_engine (sample_loader sample_rules) (en_include sample_engine) = Inr (sample_rules, [])"
  by (simp add: sample_rules_def sample_defs check_rule_def valid_effects_def default_priority_def)

theorem Decide_highest_priority_witness:
  "\<exists>i < length sample_rules. try_rule (\<lambda>_. None) (\<lambda>_. None) zero_request
       \<lparr>cx_now = 0, cx_history = en_history sample_engine\<rparr> (sample_rules ! i)
     = Some (Decide (\<lambda>_. None) (\<lambda>_. None) 0
         (fst (Reload (sample_loader sample_rules) sample_engine)) zero_request)"
proof -
  have "try_rule (\<lambda>_. None) (\<lambda>_. None) zero_request \<lparr>cx_now = 0, cx_history = en_history sample_engine\<rparr>
      (sample_rule ''low'' 100 ''allow'') \<noteq> None"
    by (simp add: try_rule_def sample_rule_def rule_matches_def body_clause_def pattern_clause_def)
  moreover have "sample_rule ''low'' 100 ''allow'' \<in> set sample_rules" by (simp add: sample_rules_def)
  ultimately show ?thesis
    using Decide_highest_priority [OF sample_load, of "\<lambda>_. None" "\<lambda>_. None" zero_request 0]
    by (elim disjE) (blast, metis)
qed

section \<open>Reloading\<close>

text \<open>What every active rule satisfies.\<close>

definition rule_ok :: "engine \<Rightarrow> rule \<Rightarrow> bool" where
  "rule_ok e r \<longleftrightarrow> r_ID r \<noteq> [] \<and> r_Effect r \<in> set valid_effects \<and> r_Priority r \<noteq> 0
     \<and> (\<forall>ks. en_knownModifiers e = Some ks \<longrightarrow> set (r_Modifiers r) \<subseteq> set ks)
     \<and> (m_Pattern (r_Match r) = [] \<longrightarrow> m_Components (r_Match r) = [])
     \<and> (\<forall>v. en_patterns e = Some v \<and> m_Pattern (r_Match r) \<noteq> [] \<longrightarrow>
          v (m_Pattern (r_Match r)) (map fst (m_Components (r_Match r))))"

definition rules_ok :: "engine \<Rightarrow> bool" where
  "rules_ok e \<longleftrightarrow> (\<forall>r \<in> set (en_rules e). rule_ok e r)
     \<and> sorted_wrt (\<lambda>a b. r_Priority b \<le> r_Priority a) (en_rules e)"

lemma check_rule_ok: "check_rule e path i r = None \<Longrightarrow> rule_ok e (default_priority r)"
  by (auto simp: check_rule_def rule_ok_def default_priority_def Let_def find_None_iff
      split: if_splits option.splits)

lemma load_rules_ok:
  "load_rules e path i rs = Inr out \<Longrightarrow> out = map default_priority rs \<and> (\<forall>r \<in> set out. rule_ok e r)"
  by (induction rs arbitrary: i out) (auto simp: check_rule_ok split: option.splits sum.splits)

lemma load_files_ok:
  "load_files e ld paths = Inr (rs, bytes) \<Longrightarrow>
   rs = concat (map (\<lambda>p. map default_priority (the (ld_decode ld (the (ld_read ld p))))) paths)
   \<and> (\<forall>r \<in> set rs. rule_ok e r)"
  by (induction paths arbitrary: rs bytes)
    (auto dest!: load_rules_ok split: option.splits sum.splits prod.splits)

lemma Reload_cases:
  fixes ld :: loader and e :: engine
  shows "case Reload ld e of
     (e', Some err) \<Rightarrow> e' = e
   | (e', None) \<Rightarrow> rules_ok e' \<and> en_mode e' = en_mode e \<and> en_history e' = en_history e
       \<and> mset (en_rules e') = mset (concat (map (\<lambda>p. map default_priority
           (the (ld_decode ld (the (ld_read ld p))))) (en_include e)))"
proof (cases "load_files e ld (en_include e)")
  case (Inl err)
  then show ?thesis by (simp add: Reload_def)
next
  case (Inr res)
  then obtain rs bytes where r: "load_files e ld (en_include e) = Inr (rs, bytes)" by (cases res) auto
  have same: "rule_ok (e\<lparr>en_rules := x, en_version := y\<rparr>) r = rule_ok e r" for x y r
    by (simp add: rule_ok_def)
  have "sorted_wrt (\<lambda>a b. r_Priority b \<le> r_Priority a) (stable_sort priority_before rs)"
    using priority_order.sorted_stable_sort [of rs]
    by (simp add: priority_before_def not_less)
  with load_files_ok [OF r] r show ?thesis
    by (simp add: Reload_def rules_ok_def same)
qed

text \<open>
  C32: reloading is all or nothing. An error in any file leaves the engine exactly as it was.
  On success the active rules are those of all the files, with the default priority filled in,
  reordered; each has an id, one of the four effects, known modifiers and a validated pattern
  clause; they are in order of decreasing priority; and mode and history are untouched.
\<close>

theorem Reload_contract:
  "case Reload ld e of
     (e', Some err) \<Rightarrow> e' = e
   | (e', None) \<Rightarrow> rules_ok e' \<and> en_mode e' = en_mode e \<and> en_history e' = en_history e
       \<and> mset (en_rules e') = mset (concat (map (\<lambda>p. map default_priority
           (the (ld_decode ld (the (ld_read ld p))))) (en_include e)))"
  by (rule Reload_cases)

lemma deciding_rule:
  assumes "first_decision rx zones req cx rs = Some d"
  obtains r where "r \<in> set rs" "d = body_unavailable r \<or> d = rule_decision r"
proof -
  obtain r where "r \<in> set rs" "try_rule rx zones req cx r = Some d"
    using assms by (induction rs) (auto split: option.splits)
  then show ?thesis using that by (auto simp: try_rule_def split: if_splits)
qed

lemma active_effects:
  assumes "rules_ok e"
  shows "d_Effect (Decide rx zones now e req) \<in> {EffectAllow, EffectDeny, EffectAskUser, EffectAskLLM}"
proof (cases "first_decision rx zones req \<lparr>cx_now = now, cx_history = en_history e\<rparr> (en_rules e)")
  case None
  then show ?thesis by (simp add: Decide_def default_decision_def)
next
  case (Some d)
  then obtain r where r: "r \<in> set (en_rules e)" "d = body_unavailable r \<or> d = rule_decision r"
    by (rule deciding_rule)
  then have "effect_of_string (r_Effect r) \<in> {EffectAllow, EffectDeny, EffectAskUser, EffectAskLLM}"
    using assms by (auto simp: rules_ok_def rule_ok_def valid_effects_def)
  with Some r show ?thesis by (auto simp: Decide_def body_unavailable_def rule_decision_def)
qed

lemma default_sel:
  "d_Source (default_decision m) = SourceDefault" "d_Effect (default_decision m) \<noteq> EffectAskLLM"
  "d_Effect (default_decision m) = EffectAllow \<longleftrightarrow> m = ''default-allow''"
  by (auto simp: default_decision_def)

lemma decide_source:
  "d_Source (Decide rx zones now e req) = SourceRule
   \<or> Decide rx zones now e req = default_decision (en_mode e)"
proof (cases "first_decision rx zones req \<lparr>cx_now = now, cx_history = en_history e\<rparr> (en_rules e)")
  case (Some d)
  then obtain r where "d = body_unavailable r \<or> d = rule_decision r" by (rule deciding_rule)
  with Some show ?thesis by (auto simp: Decide_def body_unavailable_def rule_decision_def)
qed (simp add: Decide_def)

text \<open>
  The effects a caller has to handle. An engine whose rules passed a reload answers every
  request with allow, deny, \<open>ask_user\<close> or \<open>ask_llm\<close>; only a rule can answer \<open>ask_llm\<close>, and
  without a deciding rule an unknown mode denies.
\<close>

lemma Decide_effects:
  assumes "rules_ok e"
  shows "d_Effect (Decide rx zones now e req) \<in> {EffectAllow, EffectDeny, EffectAskUser, EffectAskLLM}
    \<and> d_Source (Decide rx zones now e req) \<in> {SourceRule, SourceDefault}
    \<and> (d_Source (Decide rx zones now e req) = SourceDefault \<longrightarrow>
         (d_Effect (Decide rx zones now e req) = EffectAllow \<longleftrightarrow> en_mode e = ''default-allow'')
         \<and> d_Effect (Decide rx zones now e req) \<noteq> EffectAskLLM)"
  using decide_source [of rx zones now e req]
proof
  assume "d_Source (Decide rx zones now e req) = SourceRule"
  with active_effects [OF assms, of rx zones now req] show ?thesis by simp
next
  assume d: "Decide rx zones now e req = default_decision (en_mode e)"
  show ?thesis using active_effects [OF assms, of rx zones now req] default_sel unfolding d by simp
qed

lemma Decide_effects_example:
  "d_Effect (Decide (\<lambda>_. None) (\<lambda>_. None) 0
     (sample_engine\<lparr>en_rules := [sample_rule ''r'' 100 ''ask_llm'']\<rparr>) zero_request)
   \<in> {EffectAllow, EffectDeny, EffectAskUser, EffectAskLLM}"
proof -
  have "rules_ok (sample_engine\<lparr>en_rules := [sample_rule ''r'' 100 ''ask_llm'']\<rparr>)"
    by (simp add: rules_ok_def rule_ok_def sample_defs valid_effects_def)
  from Decide_effects [OF this] show ?thesis by blast
qed

section \<open>The interface of a pattern validator\<close>

text \<open>\<open>PatternValidator\<close>: what the engine relies on is that a validator accepts exactly the
  known pattern names with components the pattern declares.\<close>

locale pattern_validator =
  fixes validate :: "string \<Rightarrow> string list \<Rightarrow> bool"
    and declared :: "string \<Rightarrow> string set option"
  assumes validate_iff: "validate name ks \<longleftrightarrow> (\<exists>cs. declared name = Some cs \<and> set ks \<subseteq> cs)"
begin

lemma active_rules_declared:
  assumes "SetPatternValidator ld validate e = (e', None)" "r \<in> set (en_rules e')"
    "m_Pattern (r_Match r) \<noteq> []"
  shows "\<exists>cs. declared (m_Pattern (r_Match r)) = Some cs \<and> fst ` set (m_Components (r_Match r)) \<subseteq> cs"
proof -
  have p: "en_patterns e' = Some validate"
    using assms(1) by (auto simp: SetPatternValidator_def Reload_def split: sum.splits prod.splits)
  have "rules_ok e'"
    using Reload_cases [where ld = ld and e = "e\<lparr>en_patterns := Some validate\<rparr>"] assms(1)
    by (simp add: SetPatternValidator_def)
  with assms(2,3) p have "validate (m_Pattern (r_Match r)) (map fst (m_Components (r_Match r)))"
    by (simp add: rules_ok_def rule_ok_def)
  then show ?thesis by (simp add: validate_iff)
qed

end

end
