(* ===== verification/URLPattern.thy ===== *)
theory URLPattern
  imports Policy
begin

text \<open>
  \<open>internal/pattern\<close>: recognition of URL families with a predictable structure. The interface
  \<open>Pattern\<close> is a record of a name, the declared components and the matcher; the registry keeps
  the registration order. A matcher may panic, which \<open>safeMatch\<close> turns into a non-match.
\<close>

section \<open>Patterns and the registry\<close>

datatype match_outcome = Panicked | Unmatched | Matched components

record url_pattern =
  up_Name :: string
  up_Components :: "string list"
  up_Match :: "string \<Rightarrow> int \<Rightarrow> string \<Rightarrow> string \<Rightarrow> match_outcome"

record registry =
  rg_byName :: "string \<Rightarrow> url_pattern option"
  rg_ordered :: "url_pattern list"

datatype register_error = EmptyName | Duplicate string

definition NewRegistry :: registry where
  "NewRegistry = \<lparr>rg_byName = (\<lambda>_. None), rg_ordered = []\<rparr>"

definition Register :: "url_pattern \<Rightarrow> registry \<Rightarrow> registry \<times> register_error option" where
  "Register p r =
     (let name = up_Name p in
      if name = [] then (r, Some EmptyName)
      else if rg_byName r name \<noteq> None then (r, Some (Duplicate name))
      else (r\<lparr>rg_byName := (rg_byName r)(name \<mapsto> p), rg_ordered := rg_ordered r @ [p]\<rparr>, None))"

definition safeMatch :: "url_pattern \<Rightarrow> string \<Rightarrow> int \<Rightarrow> string \<Rightarrow> string \<Rightarrow> components option" where
  "safeMatch p host port scheme path =
     (case up_Match p host port scheme path of
        Panicked \<Rightarrow> None
      | Unmatched \<Rightarrow> None
      | Matched cs \<Rightarrow> Some cs)"

fun recognize_in :: "url_pattern list \<Rightarrow> string \<Rightarrow> int \<Rightarrow> string \<Rightarrow> string \<Rightarrow> matched_pattern option" where
  "recognize_in [] host port scheme path = None"
| "recognize_in (p # ps) host port scheme path =
     (case safeMatch p host port scheme path of
        None \<Rightarrow> recognize_in ps host port scheme path
      | Some cs \<Rightarrow> Some \<lparr>mp_Name = up_Name p, mp_Components = cs\<rparr>)"

definition Recognize :: "registry \<Rightarrow> string \<Rightarrow> int \<Rightarrow> string \<Rightarrow> string \<Rightarrow> matched_pattern option" where
  "Recognize r host port scheme path = recognize_in (rg_ordered r) host port scheme path"

definition ValidateRuleMatch :: "registry \<Rightarrow> string \<Rightarrow> string list \<Rightarrow> bool" where
  "ValidateRuleMatch r name ks =
     (case rg_byName r name of
        None \<Rightarrow> False
      | Some p \<Rightarrow> list_all (\<lambda>k. k \<in> set (up_Components p)) ks)"

section \<open>Azure Resource Manager\<close>

definition splitPath :: "string \<Rightarrow> string list" where
  "splitPath p =
     (if p = [] then []
      else let p1 = (if hd p = CHR ''/'' then tl p else p) in
        if p1 = [] then []
        else let p2 = trim_suffix p1 ''/'' in
          if p2 = [] then [] else split_on (CHR ''/'') p2)"

record arm_components =
  ac_subscription :: string
  ac_resource_group :: string
  ac_provider :: string
  ac_resource_type :: string
  ac_resource_name :: string

definition no_components :: arm_components where
  "no_components = \<lparr>ac_subscription = [], ac_resource_group = [], ac_provider = [],
     ac_resource_type = [], ac_resource_name = []\<rparr>"

definition arm_names :: "string list" where
  "arm_names = [''subscription'', ''resource_group'', ''provider'', ''resource_type'', ''resource_name'']"

definition arm_map :: "arm_components \<Rightarrow> components" where
  "arm_map c = zip arm_names
     [ac_subscription c, ac_resource_group c, ac_provider c, ac_resource_type c, ac_resource_name c]"

text \<open>The segments after a \<open>providers\<close> keyword, as far as they go.\<close>

definition arm_provider :: "string list \<Rightarrow> arm_components \<Rightarrow> arm_components" where
  "arm_provider segs c =
     (let c1 = (if 0 < length segs then c\<lparr>ac_provider := segs ! 0\<rparr> else c);
          c2 = (if 1 < length segs then c1\<lparr>ac_resource_type := segs ! 1\<rparr> else c1)
      in if 2 < length segs then c2\<lparr>ac_resource_name := segs ! 2\<rparr> else c2)"

text \<open>The loop over the segments after the subscription.\<close>

fun arm_walk :: "string list \<Rightarrow> arm_components \<Rightarrow> arm_components" where
  "arm_walk [] c = c"
| "arm_walk (kw # segs) c =
     (if to_lower kw = ''resourcegroups'' then
        (case segs of
           [] \<Rightarrow> arm_walk [] c
         | rg # segs' \<Rightarrow> arm_walk segs' (c\<lparr>ac_resource_group := rg\<rparr>))
      else if to_lower kw = ''providers'' then arm_provider segs c
      else c)"

definition arm_match :: "string \<Rightarrow> int \<Rightarrow> string \<Rightarrow> string \<Rightarrow> match_outcome" where
  "arm_match host port scheme path0 =
     (if \<not> equal_fold host ''management.azure.com'' then Unmatched
      else let path = takeWhile (\<lambda>c. c \<notin> set ''?#'') path0 in
        if path = [] \<or> path = ''/'' then Unmatched
        else (case splitPath path of
            [] \<Rightarrow> Unmatched
          | s0 # segs \<Rightarrow>
              if to_lower s0 = ''subscriptions'' then
                (case segs of
                   [] \<Rightarrow> Unmatched
                 | sub # segs' \<Rightarrow> Matched (arm_map (arm_walk segs' (no_components\<lparr>ac_subscription := sub\<rparr>))))
              else if to_lower s0 = ''providers'' then Matched (arm_map (arm_provider segs no_components))
              else Unmatched))"

definition AzureARM :: url_pattern where
  "AzureARM = \<lparr>up_Name = ''azure_arm'', up_Components = arm_names, up_Match = arm_match\<rparr>"

section \<open>Azure Key Vault\<close>

definition keyvaultHostSuffix :: string where
  "keyvaultHostSuffix = ''.vault.azure.net''"

definition keyvault_match :: "string \<Rightarrow> int \<Rightarrow> string \<Rightarrow> string \<Rightarrow> match_outcome" where
  "keyvault_match host port scheme path =
     (let h = to_lower host in
      if \<not> has_suffix h keyvaultHostSuffix then Unmatched
      else let vault = trim_suffix h keyvaultHostSuffix in
        if vault = [] \<or> contains_str vault ''.'' then Unmatched
        else Matched [(''vault'', vault)])"

definition AzureKeyVault :: url_pattern where
  "AzureKeyVault = \<lparr>up_Name = ''azure_keyvault'', up_Components = [''vault''], up_Match = keyvault_match\<rparr>"

definition BuiltIns :: "url_pattern list" where
  "BuiltIns = [AzureARM, AzureKeyVault]"

definition builtin_registry :: registry where
  "builtin_registry = fold (\<lambda>p r. fst (Register p r)) BuiltIns NewRegistry"

section \<open>Recognition\<close>

lemma builtin_registry_ordered: "rg_ordered builtin_registry = BuiltIns"
  by (simp add: builtin_registry_def BuiltIns_def Register_def NewRegistry_def AzureARM_def AzureKeyVault_def Let_def)

lemma builtin_registry_byName:
  "rg_byName builtin_registry = [''azure_arm'' \<mapsto> AzureARM, ''azure_keyvault'' \<mapsto> AzureKeyVault]"
  by (simp add: builtin_registry_def BuiltIns_def Register_def NewRegistry_def AzureARM_def AzureKeyVault_def Let_def)

lemma arm_map_names [simp]: "map fst (arm_map c) = arm_names"
  by (simp add: arm_map_def arm_names_def)

lemma arm_match_components: "arm_match h p s u = Matched cs \<Longrightarrow> map fst cs = arm_names"
  by (auto simp: arm_match_def Let_def split: if_splits list.splits)

lemma keyvault_match_components: "keyvault_match h p s u = Matched cs \<Longrightarrow> map fst cs = [''vault'']"
  by (auto simp: keyvault_match_def Let_def split: if_splits)

lemma arm_not_vault:
  assumes "equal_fold host ''management.azure.com''"
  shows "\<not> has_suffix (to_lower host) keyvaultHostSuffix"
proof -
  have h: "to_lower host = ''management.azure.com''"
    using assms by (simp add: equal_fold_def) code_simp
  show ?thesis unfolding h by code_simp
qed

text \<open>
  The contract of the built-in patterns. A built-in that recognizes a request returns
  exactly its declared components, each once; no request is recognized by two of them and none
  makes one panic, so recognition does not depend on the order of registration.
\<close>

lemma builtins_contract:
  "(\<forall>p \<in> set BuiltIns. up_Match p host port scheme path \<noteq> Panicked
      \<and> (\<forall>cs. up_Match p host port scheme path = Matched cs \<longrightarrow> map fst cs = up_Components p \<and> distinct (map fst cs)))
   \<and> (\<forall>p \<in> set BuiltIns. \<forall>p' \<in> set BuiltIns. safeMatch p host port scheme path \<noteq> None
        \<and> safeMatch p' host port scheme path \<noteq> None \<longrightarrow> up_Name p = up_Name p')
   \<and> recognize_in (rev BuiltIns) host port scheme path = Recognize builtin_registry host port scheme path"
proof -
  have panic: "arm_match host port scheme path \<noteq> Panicked" "keyvault_match host port scheme path \<noteq> Panicked"
    by (auto simp: arm_match_def keyvault_match_def Let_def split: list.splits)
  have excl: "arm_match host port scheme path = Unmatched \<or> keyvault_match host port scheme path = Unmatched"
    using arm_not_vault [of host] by (auto simp: arm_match_def keyvault_match_def Let_def)
  have dist: "distinct arm_names" by (simp add: arm_names_def)
  have sm: "safeMatch AzureARM host port scheme path = None \<or> safeMatch AzureKeyVault host port scheme path = None"
    using excl by (auto simp: safeMatch_def AzureARM_def AzureKeyVault_def)
  have c: "\<forall>p \<in> set BuiltIns. up_Match p host port scheme path \<noteq> Panicked
      \<and> (\<forall>cs. up_Match p host port scheme path = Matched cs \<longrightarrow> map fst cs = up_Components p \<and> distinct (map fst cs))"
    using panic dist
    by (auto simp: BuiltIns_def AzureARM_def AzureKeyVault_def arm_match_components keyvault_match_components)
  have r: "recognize_in (rev BuiltIns) host port scheme path = Recognize builtin_registry host port scheme path"
    using sm by (auto simp: Recognize_def builtin_registry_ordered BuiltIns_def split: option.splits)
  from c r sm show ?thesis by (auto simp: BuiltIns_def)
qed

lemma builtins_contract_example:
  "recognize_in (rev BuiltIns) ''my.vault.azure.net'' 443 ''https'' ''/''
   = Recognize builtin_registry ''my.vault.azure.net'' 443 ''https'' ''/''"
  using builtins_contract [of "''my.vault.azure.net''" 443 "''https''" "''/''"] by blast


section \<open>The registry as a validator\<close>

definition declared_components :: "registry \<Rightarrow> string \<Rightarrow> string set option" where
  "declared_components r name = map_option (\<lambda>p. set (up_Components p)) (rg_byName r name)"

lemma ValidateRuleMatch_iff:
  "ValidateRuleMatch r name ks \<longleftrightarrow> (\<exists>cs. declared_components r name = Some cs \<and> set ks \<subseteq> cs)"
  by (auto simp: ValidateRuleMatch_def declared_components_def list_all_iff split: option.split)

interpretation builtin_validator:
  pattern_validator "ValidateRuleMatch builtin_registry" "declared_components builtin_registry"
  by unfold_locales (rule ValidateRuleMatch_iff)

lemma builtin_sel [simp]:
  "up_Name AzureARM = ''azure_arm''" "up_Components AzureARM = arm_names" "up_Match AzureARM = arm_match"
  "up_Name AzureKeyVault = ''azure_keyvault''" "up_Components AzureKeyVault = [''vault'']"
  "up_Match AzureKeyVault = keyvault_match"
  by (simp_all add: AzureARM_def AzureKeyVault_def)

lemma recognized_components:
  assumes "Recognize builtin_registry host port scheme path = Some mp"
  shows "declared_components builtin_registry (mp_Name mp) = Some (fst ` set (mp_Components mp))"
proof -
  from assms consider
      cs where "arm_match host port scheme path = Matched cs" "mp = \<lparr>mp_Name = ''azure_arm'', mp_Components = cs\<rparr>"
    | cs where "keyvault_match host port scheme path = Matched cs"
        "mp = \<lparr>mp_Name = ''azure_keyvault'', mp_Components = cs\<rparr>"
    by (auto simp: Recognize_def builtin_registry_ordered BuiltIns_def safeMatch_def
        split: option.splits match_outcome.splits)
  then show ?thesis
  proof cases
    case 1
    from arm_match_components [OF 1(1)] have "fst ` set cs = set arm_names" by (metis list.set_map)
    with 1 show ?thesis by (simp add: declared_components_def builtin_registry_byName)
  next
    case 2
    from keyvault_match_components [OF 2(1)] have "fst ` set cs = set [''vault'']" by (metis list.set_map)
    with 2 show ?thesis by (simp add: declared_components_def builtin_registry_byName)
  qed
qed

text \<open>
  Rules and recognition agree on the components. Once the engine has accepted its rules
  with the built-in registry as validator, a rule's component constraint can only fail on a
  request its pattern recognized because the value differs: every component it names is there.
\<close>

lemma rule_components_present:
  assumes "SetPatternValidator ld (ValidateRuleMatch builtin_registry) e = (e', None)"
    and "r \<in> set (en_rules e')" "(k, want) \<in> set (m_Components (r_Match r))"
    and "Recognize builtin_registry host port scheme path = Some mp" "mp_Name mp = m_Pattern (r_Match r)"
  shows "\<exists>got. map_of (mp_Components mp) k = Some got
    \<and> component_hits (mp_Components mp) (k, want) = (want = [] \<or> want = ''*'' \<or> equal_fold got want)"
proof -
  have "m_Pattern (r_Match r) \<noteq> []"
    using assms(4,5) by (auto simp: Recognize_def builtin_registry_ordered BuiltIns_def
        split: option.splits)
  from builtin_validator.active_rules_declared [OF assms(1,2) this]
  have "fst ` set (m_Components (r_Match r)) \<subseteq> fst ` set (mp_Components mp)"
    using recognized_components [OF assms(4)] assms(5) by auto
  with assms(3) have "k \<in> fst ` set (mp_Components mp)" by (metis fst_conv imageI subsetD)
  then obtain got where "map_of (mp_Components mp) k = Some got"
    by (metis map_of_eq_None_iff not_None_eq)
  then show ?thesis by (simp add: component_hits_def)
qed

definition arm_rule :: rule where
  "arm_rule = (sample_rule ''arm'' 100 ''allow'')\<lparr>r_Match := (r_Match (sample_rule ''arm'' 100 ''allow''))
     \<lparr>m_Pattern := ''azure_arm'', m_Components := [(''subscription'', ''s1'')]\<rparr>\<rparr>"

lemma rule_components_present_example:
  "\<exists>mp got. Recognize builtin_registry ''management.azure.com'' 443 ''https'' ''/subscriptions/s1'' = Some mp
     \<and> map_of (mp_Components mp) ''subscription'' = Some got"
proof -
  have rec: "Recognize builtin_registry ''management.azure.com'' 443 ''https'' ''/subscriptions/s1''
      = Some \<lparr>mp_Name = ''azure_arm'', mp_Components = arm_map (no_components\<lparr>ac_subscription := ''s1''\<rparr>)\<rparr>"
    unfolding Recognize_def builtin_registry_ordered BuiltIns_def AzureARM_def
    by code_simp
  let ?e = "sample_engine\<lparr>en_rules := [arm_rule], en_version := [], en_patterns := Some (ValidateRuleMatch builtin_registry)\<rparr>"
  have "SetPatternValidator (sample_loader [arm_rule]) (ValidateRuleMatch builtin_registry) sample_engine = (?e, None)"
    by (simp add: SetPatternValidator_def Reload_def sample_defs arm_rule_def check_rule_def valid_effects_def
        default_priority_def ValidateRuleMatch_def builtin_registry_byName AzureARM_def arm_names_def
        stable_sort_def)
  from rule_components_present [OF this _ _ rec, of arm_rule "''subscription''" "''s1''"]
  show ?thesis by (intro exI [of _ "\<lparr>mp_Name = ''azure_arm'', mp_Components = arm_map (no_components\<lparr>ac_subscription := ''s1''\<rparr>)\<rparr>"])
    (auto simp: rec arm_rule_def)
qed

section \<open>The canonical shape of a resource\<close>

definition segment :: "string \<Rightarrow> bool" where
  "segment s \<longleftrightarrow> s \<noteq> [] \<and> set s \<inter> set ''/?#'' = {}"

definition arm_url :: "string list \<Rightarrow> string" where
  "arm_url segs = concat (map (\<lambda>s. ''/'' @ s) segs)"

lemma split_on_one: "c \<notin> set s \<Longrightarrow> split_on c s = [s]"
  by (induction s) auto

lemma split_on_segments:
  "segs \<noteq> [] \<Longrightarrow> \<forall>s \<in> set segs. CHR ''/'' \<notin> set s \<Longrightarrow> split_on (CHR ''/'') (tl (arm_url segs)) = segs"
proof (induction segs rule: list_nonempty_induct)
  case (single s)
  then show ?case by (simp add: arm_url_def split_on_one)
next
  case (cons s segs)
  then obtain t where t: "arm_url segs = CHR ''/'' # t" by (cases segs) (auto simp: arm_url_def)
  have "split_on (CHR ''/'') (u @ CHR ''/'' # t) = u # split_on (CHR ''/'') t" if "CHR ''/'' \<notin> set u" for u t
    using that by (induction u) auto
  with cons t show ?case by (simp add: arm_url_def)
qed

lemma split_arm_url:
  assumes "segs \<noteq> []" "\<forall>s \<in> set segs. segment s" and q: "query = [] \<or> hd query \<in> set ''?#''"
  shows "splitPath (takeWhile (\<lambda>c. c \<notin> set ''?#'') (arm_url segs @ query)) = segs
    \<and> length (takeWhile (\<lambda>c. c \<notin> set ''?#'') (arm_url segs @ query)) > 1"
proof -
  have nq: "c \<notin> set ''?#''" if "c \<in> set (arm_url segs)" for c
    using assms(1,2) that by (auto simp: arm_url_def segment_def)
  have tw: "takeWhile (\<lambda>c. c \<notin> set ''?#'') (arm_url segs @ query) = arm_url segs"
    using q nq by (cases query) (simp_all add: takeWhile_append2)
  obtain s segs' where e: "segs = s # segs'" using assms(1) by (cases segs) auto
  then have s: "s \<noteq> []" "segment s" using assms(2) by (auto simp: segment_def)
  have u: "arm_url segs = CHR ''/'' # tl (arm_url segs)" "tl (arm_url segs) \<noteq> []"
    using s by (simp_all add: e arm_url_def)
  have lst: "last (tl (arm_url segs)) \<noteq> CHR ''/''"
  proof -
    obtain l where l: "last segs = l" "l \<in> set segs" using assms(1) by simp
    then have "l \<noteq> []" "CHR ''/'' \<notin> set l" using assms(2) by (auto simp: segment_def)
    moreover have "arm_url segs = arm_url (butlast segs) @ CHR ''/'' # l"
      using assms(1) l(1) by (metis append_butlast_last_id arm_url_def concat.simps concat_append list.simps(8,9)
          map_append append_Nil2 append_Cons append_Nil)
    ultimately show ?thesis
      by (cases "arm_url (butlast segs)") (auto simp: last_append dest: last_in_set)
  qed
  have "trim_suffix (tl (arm_url segs)) ''/'' = tl (arm_url segs)"
    using lst u(2) by (auto simp: trim_suffix_def has_suffix_def suffix_def)
  moreover have "split_on (CHR ''/'') (tl (arm_url segs)) = segs"
    using split_on_segments assms by (simp add: segment_def)
  moreover have "arm_url segs \<noteq> []" "hd (arm_url segs) = CHR ''/''" using u(1) by (metis list.simps(3), metis list.sel(1))
  ultimately have "splitPath (arm_url segs) = segs" using u(2) by (simp add: splitPath_def Let_def)
  moreover have "length (arm_url segs) > 1" using u by (metis One_nat_def Suc_less_eq length_Cons length_greater_0_conv)
  ultimately show ?thesis unfolding tw by simp
qed

text \<open>
  Extraction from a canonical resource URL. For any segments free of slashes, query and
  fragment marks, whatever the case of the host and of the two keywords, whatever follows the
  resource name and whatever the query, the matcher returns precisely the segments as the
  components.
\<close>

lemma arm_match_resource:
  assumes "to_lower host = ''management.azure.com''" "to_lower k1 = ''subscriptions''"
    and "to_lower k2 = ''resourcegroups''" "to_lower k3 = ''providers''"
    and "\<forall>s \<in> set ([k1, sub, k2, rg, k3, prov, ty, name] @ rest). segment s"
    and "query = [] \<or> hd query \<in> set ''?#''"
  shows "arm_match host port scheme (arm_url ([k1, sub, k2, rg, k3, prov, ty, name] @ rest) @ query)
    = Matched [(''subscription'', sub), (''resource_group'', rg), (''provider'', prov),
        (''resource_type'', ty), (''resource_name'', name)]"
proof -
  let ?segs = "[k1, sub, k2, rg, k3, prov, ty, name] @ rest"
  define path where "path = takeWhile (\<lambda>c. c \<notin> set ''?#'') (arm_url ?segs @ query)"
  have p: "splitPath path = ?segs" "length path > 1"
    unfolding path_def using split_arm_url [OF _ assms(5,6)] by simp_all
  have h: "equal_fold host ''management.azure.com''"
    unfolding equal_fold_def assms(1) by code_simp
  have ne: "path \<noteq> []" "path \<noteq> ''/''" using p(2) by auto
  have kw: "''providers'' \<noteq> ''resourcegroups''" by simp
  have "arm_match host port scheme (arm_url ?segs @ query)
      = Matched (arm_map (arm_walk (drop 2 ?segs) (no_components\<lparr>ac_subscription := sub\<rparr>)))"
    unfolding arm_match_def Let_def path_def [symmetric]
    using h ne p(1) assms(2) by simp
  also have "\<dots> = Matched [(''subscription'', sub), (''resource_group'', rg), (''provider'', prov),
        (''resource_type'', ty), (''resource_name'', name)]"
    using assms(3,4) kw by (simp add: arm_provider_def Let_def arm_map_def arm_names_def no_components_def)
  finally show ?thesis .
qed

lemma arm_match_resource_example:
  "arm_match ''Management.azure.com'' 443 ''https''
     ''/subscriptions/s1/resourceGroups/g/providers/Microsoft.Compute/virtualMachines/vm1/start?api-version=1''
   = Matched [(''subscription'', ''s1''), (''resource_group'', ''g''), (''provider'', ''Microsoft.Compute''),
       (''resource_type'', ''virtualMachines''), (''resource_name'', ''vm1'')]"
proof -
  let ?segs = "[''subscriptions'', ''s1'', ''resourceGroups'', ''g'', ''providers'', ''Microsoft.Compute'',
    ''virtualMachines'', ''vm1''] @ [''start'']"
  have k: "to_lower ''Management.azure.com'' = ''management.azure.com''" "to_lower ''subscriptions'' = ''subscriptions''"
    "to_lower ''resourceGroups'' = ''resourcegroups''" "to_lower ''providers'' = ''providers''" by code_simp+
  have s: "\<forall>s \<in> set ?segs. segment s" by (simp add: segment_def)
  have q: "''?api-version=1'' = [] \<or> hd ''?api-version=1'' \<in> set ''?#''" by simp
  from arm_match_resource [OF k s q] show ?thesis by (simp add: arm_url_def)
qed

end
