(* ===== verification/Approvals.thy ===== *)
theory Approvals
  imports Types
begin

text \<open>
  \<open>internal/approvals/queue.go\<close>: the queue of held requests. Holds and channels are mutable
  objects that several goroutines share, so the model keeps them in stores and passes their
  addresses: a hold is an index into \<open>q_holds\<close>, a channel of capacity one an index into
  \<open>q_chans\<close>. The indexes \<open>q_items\<close> and \<open>q_byKey\<close> refer to holds by address. Log calls are
  left out; the calls of the persistence hook are recorded in \<open>q_persisted\<close>, newest last, with
  the hold they are for.
\<close>

section \<open>State\<close>

record hold =
  h_ID :: string
  h_Request :: request_event
  h_Decision :: decision
  h_CreatedAt :: int
  h_waiters :: "nat list"
  h_dedupKey :: string
  h_resolved :: bool

record queue =
  q_maxPending :: int
  q_timeout :: int
  q_onTimeout :: string
  q_items :: "(string \<times> nat) list"
  q_byKey :: "string \<Rightarrow> nat option"
  q_holds :: "hold list"
  q_chans :: "decision option list"
  q_persistCb :: bool
  q_persisted :: "(nat \<times> effect \<times> string) list"

record snapshot =
  sn_ID :: string
  sn_CreatedAt :: int
  sn_IdentityID :: string
  sn_Method :: string
  sn_Scheme :: string
  sn_Host :: string
  sn_Port :: int
  sn_Path :: string
  sn_Reason :: string
  sn_RuleID :: string

section \<open>Operations\<close>

definition dedupKey :: "request_event \<Rightarrow> string" where
  "dedupKey req = join_with [CHR 0x00]
     [ev_IdentityID req, ev_Method req, ev_Scheme req, ev_Host req, itoa (ev_Port req), ev_Path req]"

definition NewQueue :: "int \<Rightarrow> int \<Rightarrow> string \<Rightarrow> queue" where
  "NewQueue maxPending timeout onTimeout =
     \<lparr>q_maxPending = (if maxPending \<le> 0 then 100 else maxPending), q_timeout = timeout,
      q_onTimeout = (if onTimeout = [] then ''deny'' else onTimeout),
      q_items = [], q_byKey = (\<lambda>_. None), q_holds = [], q_chans = [],
      q_persistCb = False, q_persisted = []\<rparr>"

definition SetDecisionPersist :: "queue \<Rightarrow> queue" where
  "SetDecisionPersist q = q\<lparr>q_persistCb := True\<rparr>"

definition Reconfigure :: "int \<Rightarrow> int \<Rightarrow> string \<Rightarrow> queue \<Rightarrow> queue" where
  "Reconfigure maxPending timeout onTimeout q =
     (let q1 = (if maxPending > 0 then q\<lparr>q_maxPending := maxPending\<rparr> else q);
          q2 = (if timeout > 0 then q1\<lparr>q_timeout := timeout\<rparr> else q1)
      in if onTimeout = ''allow'' \<or> onTimeout = ''deny'' then q2\<lparr>q_onTimeout := onTimeout\<rparr> else q2)"

text \<open>The non-blocking send on a channel of capacity one, and the loop over the waiters.\<close>

definition send :: "decision \<Rightarrow> nat \<Rightarrow> queue \<Rightarrow> queue" where
  "send d c q = (if q_chans q ! c = None then q\<lparr>q_chans := (q_chans q)[c := Some d]\<rparr> else q)"

definition broadcast :: "nat \<Rightarrow> decision \<Rightarrow> queue \<Rightarrow> queue" where
  "broadcast a d q = fold (send d) (h_waiters (q_holds q ! a)) q"

definition claim :: "string \<Rightarrow> queue \<Rightarrow> queue \<times> nat option" where
  "claim hid q =
     (case map_of (q_items q) hid of
        None \<Rightarrow> (q, None)
      | Some a \<Rightarrow>
          let h = q_holds q ! a in
          if h_resolved h then (q, None)
          else (q\<lparr>q_holds := (q_holds q)[a := h\<lparr>h_resolved := True\<rparr>],
                  q_items := adel hid (q_items q),
                  q_byKey := (q_byKey q)(h_dedupKey h := None)\<rparr>, Some a))"

text \<open>\<open>Enqueue\<close>; \<open>newid\<close> is \<open>"hold-" + uuid.NewString()\<close> and \<open>now\<close> the clock. The result is
  the hold's id, the waiter's channel and whether it coalesced; \<open>None\<close> is \<open>ErrFull\<close>.\<close>

definition Enqueue ::
    "string \<Rightarrow> int \<Rightarrow> request_event \<Rightarrow> decision \<Rightarrow> queue \<Rightarrow> queue \<times> (string \<times> nat \<times> bool) option" where
  "Enqueue newid now req base q =
     (let key = dedupKey req; w = length (q_chans q) in
      case (case q_byKey q key of
              None \<Rightarrow> None
            | Some a \<Rightarrow> if h_resolved (q_holds q ! a) then None else Some a) of
        Some a \<Rightarrow>
          let h = q_holds q ! a in
          (q\<lparr>q_chans := q_chans q @ [None],
             q_holds := (q_holds q)[a := h\<lparr>h_waiters := h_waiters h @ [w]\<rparr>]\<rparr>,
           Some (h_ID h, w, True))
      | None \<Rightarrow>
          if int (length (q_items q)) \<ge> q_maxPending q then (q, None)
          else
            (let a = length (q_holds q);
                 h = \<lparr>h_ID = newid, h_Request = req, h_Decision = base, h_CreatedAt = now,
                      h_waiters = [w], h_dedupKey = key, h_resolved = False\<rparr>
             in (q\<lparr>q_chans := q_chans q @ [None], q_holds := q_holds q @ [h],
                   q_items := aput newid a (q_items q), q_byKey := (q_byKey q)(key \<mapsto> a)\<rparr>,
                 Some (newid, w, False))))"

text \<open>\<open>cancelWaiter\<close>: the hold, whether it was evicted, how many waiters remain.\<close>

definition cancelWaiter :: "string \<Rightarrow> nat \<Rightarrow> queue \<Rightarrow> queue \<times> (nat \<times> bool \<times> nat) option" where
  "cancelWaiter hid c q =
     (case map_of (q_items q) hid of
        None \<Rightarrow> (q, None)
      | Some a \<Rightarrow>
          let h = q_holds q ! a in
          if h_resolved h then (q, None)
          else let ws = remove1 c (h_waiters h) in
            if ws = [] then
              (q\<lparr>q_holds := (q_holds q)[a := h\<lparr>h_waiters := [], h_resolved := True\<rparr>],
                 q_items := adel hid (q_items q),
                 q_byKey := (q_byKey q)(h_dedupKey h := None)\<rparr>, Some (a, True, 0))
            else
              (q\<lparr>q_holds := (q_holds q)[a := h\<lparr>h_waiters := ws\<rparr>]\<rparr>, Some (a, False, length ws)))"

text \<open>The decisions the resolvers deliver.\<close>

definition approve_decision :: "hold \<Rightarrow> string \<Rightarrow> decision" where
  "approve_decision h scope = zero_decision\<lparr>d_Effect := EffectAskUserResolvedAllow,
     d_Source := SourceApprovalQueue, d_RuleID := d_RuleID (h_Decision h), d_Reason := ''operator approved'',
     d_Scope := (if scope = [] then ''once'' else scope), d_Modifiers := d_Modifiers (h_Decision h)\<rparr>"

definition deny_decision :: "hold \<Rightarrow> string \<Rightarrow> decision" where
  "deny_decision h reason = zero_decision\<lparr>d_Effect := EffectAskUserResolvedDeny,
     d_Source := SourceApprovalQueue, d_RuleID := d_RuleID (h_Decision h),
     d_Reason := (if reason = [] then ''operator denied'' else reason)\<rparr>"

definition advisor_decision :: "hold \<Rightarrow> decision \<Rightarrow> decision" where
  "advisor_decision h d = (if d_RuleID d = [] then d\<lparr>d_RuleID := d_RuleID (h_Decision h)\<rparr> else d)"

text \<open>The reason names the timeout through \<open>Duration.String\<close>, a parameter.\<close>

definition timeout_decision :: "(int \<Rightarrow> string) \<Rightarrow> queue \<Rightarrow> decision" where
  "timeout_decision duration q = zero_decision\<lparr>
     d_Effect := (if q_onTimeout q = ''allow'' then EffectAskUserResolvedAllow else EffectAskUserTimedOut),
     d_Source := SourceApprovalTimeout,
     d_Reason := ''approval timeout after '' @ duration (q_timeout q)\<rparr>"

definition disconnect_decision :: decision where
  "disconnect_decision = zero_decision\<lparr>d_Effect := EffectAskUserResolvedDeny,
     d_Source := SourceApprovalQueue, d_Reason := ''client disconnected before approval''\<rparr>"

definition shutdown_decision :: decision where
  "shutdown_decision = zero_decision\<lparr>d_Effect := EffectAskUserResolvedDeny,
     d_Source := SourceApprovalTimeout, d_Reason := ''trollbridge shutdown; approvals denied''\<rparr>"

definition persist :: "nat \<Rightarrow> (effect \<times> string) option \<Rightarrow> queue \<Rightarrow> queue" where
  "persist a p q =
     (case p of
        None \<Rightarrow> q
      | Some (eff, source) \<Rightarrow>
          if q_persistCb q then q\<lparr>q_persisted := q_persisted q @ [(a, eff, source)]\<rparr> else q)"

text \<open>The three resolvers share one shape: claim, broadcast, persist.\<close>

definition resolve ::
    "string \<Rightarrow> (hold \<Rightarrow> decision) \<Rightarrow> (effect \<times> string) option \<Rightarrow> queue \<Rightarrow> queue \<times> bool" where
  "resolve hid dec p q =
     (case claim hid q of
        (q1, None) \<Rightarrow> (q1, False)
      | (q1, Some a) \<Rightarrow> (persist a p (broadcast a (dec (q_holds q1 ! a)) q1), True))"

definition Approve :: "string \<Rightarrow> string \<Rightarrow> string \<Rightarrow> queue \<Rightarrow> queue \<times> bool" where
  "Approve hid scope source q =
     resolve hid (\<lambda>h. approve_decision h scope) (Some (EffectAllow, source)) q"

definition Deny :: "string \<Rightarrow> string \<Rightarrow> string \<Rightarrow> queue \<Rightarrow> queue \<times> bool" where
  "Deny hid reason source q =
     resolve hid (\<lambda>h. deny_decision h reason) (Some (EffectDeny, source)) q"

definition ResolveByAdvisor :: "string \<Rightarrow> decision \<Rightarrow> queue \<Rightarrow> queue \<times> bool" where
  "ResolveByAdvisor hid d q = resolve hid (\<lambda>h. advisor_decision h d) None q"

definition snapshot_of :: "hold \<Rightarrow> snapshot" where
  "snapshot_of h =
     \<lparr>sn_ID = h_ID h, sn_CreatedAt = h_CreatedAt h, sn_IdentityID = ev_IdentityID (h_Request h),
      sn_Method = ev_Method (h_Request h), sn_Scheme = ev_Scheme (h_Request h),
      sn_Host = ev_Host (h_Request h), sn_Port = ev_Port (h_Request h), sn_Path = ev_Path (h_Request h),
      sn_Reason = d_Reason (h_Decision h), sn_RuleID = d_RuleID (h_Decision h)\<rparr>"

definition snapshot_before :: "snapshot \<Rightarrow> snapshot \<Rightarrow> bool" where
  "snapshot_before a b \<longleftrightarrow>
     (if sn_CreatedAt a \<noteq> sn_CreatedAt b then sn_CreatedAt a < sn_CreatedAt b else sn_ID a < sn_ID b)"

definition Pending :: "queue \<Rightarrow> snapshot list" where
  "Pending q = stable_sort snapshot_before (map (\<lambda>(_, a). snapshot_of (q_holds q ! a)) (q_items q))"

definition mark_resolved :: "nat \<Rightarrow> queue \<Rightarrow> queue" where
  "mark_resolved a q = q\<lparr>q_holds := (q_holds q)[a := (q_holds q ! a)\<lparr>h_resolved := True\<rparr>]\<rparr>"

definition shutdown_hold :: "string \<times> nat \<Rightarrow> queue \<Rightarrow> queue" where
  "shutdown_hold = (\<lambda>(_, a) q.
     if h_resolved (q_holds q ! a) then q
     else broadcast a shutdown_decision (mark_resolved a q))"

definition Shutdown :: "queue \<Rightarrow> queue" where
  "Shutdown q = (fold shutdown_hold (q_items q) q)\<lparr>q_items := [], q_byKey := (\<lambda>_. None)\<rparr>"

section \<open>The coalescing key\<close>

definition same_target :: "request_event \<Rightarrow> request_event \<Rightarrow> bool" where
  "same_target a b \<longleftrightarrow> ev_IdentityID a = ev_IdentityID b \<and> ev_Method a = ev_Method b
     \<and> ev_Scheme a = ev_Scheme b \<and> ev_Host a = ev_Host b \<and> ev_Port a = ev_Port b \<and> ev_Path a = ev_Path b"

definition nul_free :: "request_event \<Rightarrow> bool" where
  "nul_free r \<longleftrightarrow> CHR 0x00 \<notin> set (ev_IdentityID r) \<union> set (ev_Method r) \<union> set (ev_Scheme r) \<union> set (ev_Host r)"

lemma itoa_nul_free: "CHR 0x00 \<notin> set (itoa i)"
  using itoa_chars [of "CHR 0x00" i] by (auto simp: is_digit_def)

lemma dedupKey_unfold:
  "dedupKey r = ev_IdentityID r @ CHR 0x00 # ev_Method r @ CHR 0x00 # ev_Scheme r @ CHR 0x00 #
     ev_Host r @ CHR 0x00 # itoa (ev_Port r) @ CHR 0x00 # ev_Path r"
  by (simp add: dedupKey_def)

lemma dedupKey_inj:
  assumes "nul_free a" "nul_free b"
  shows "dedupKey a = dedupKey b \<longleftrightarrow> same_target a b"
proof
  assume e: "dedupKey a = dedupKey b"
  note split = append_sep_inj [of "CHR 0x00"]
  from e have e1: "ev_IdentityID a = ev_IdentityID b
      \<and> ev_Method a @ CHR 0x00 # ev_Scheme a @ CHR 0x00 # ev_Host a @ CHR 0x00 # itoa (ev_Port a) @ CHR 0x00 # ev_Path a
      = ev_Method b @ CHR 0x00 # ev_Scheme b @ CHR 0x00 # ev_Host b @ CHR 0x00 # itoa (ev_Port b) @ CHR 0x00 # ev_Path b"
    unfolding dedupKey_unfold using assms by (intro split) (auto simp: nul_free_def)
  from conjunct2 [OF e1] have e2: "ev_Method a = ev_Method b
      \<and> ev_Scheme a @ CHR 0x00 # ev_Host a @ CHR 0x00 # itoa (ev_Port a) @ CHR 0x00 # ev_Path a
      = ev_Scheme b @ CHR 0x00 # ev_Host b @ CHR 0x00 # itoa (ev_Port b) @ CHR 0x00 # ev_Path b"
    using assms by (intro split) (auto simp: nul_free_def)
  from conjunct2 [OF e2] have e3: "ev_Scheme a = ev_Scheme b
      \<and> ev_Host a @ CHR 0x00 # itoa (ev_Port a) @ CHR 0x00 # ev_Path a
      = ev_Host b @ CHR 0x00 # itoa (ev_Port b) @ CHR 0x00 # ev_Path b"
    using assms by (intro split) (auto simp: nul_free_def)
  from conjunct2 [OF e3] have e4: "ev_Host a = ev_Host b
      \<and> itoa (ev_Port a) @ CHR 0x00 # ev_Path a = itoa (ev_Port b) @ CHR 0x00 # ev_Path b"
    using assms by (intro split) (auto simp: nul_free_def)
  from conjunct2 [OF e4] have e5: "itoa (ev_Port a) = itoa (ev_Port b) \<and> ev_Path a = ev_Path b"
    by (intro split) (auto simp: itoa_nul_free)
  show "same_target a b"
    using e1 e2 e3 e4 e5 by (simp add: same_target_def itoa_inj)
qed (simp add: dedupKey_def same_target_def)

section \<open>The order of the pending list\<close>

lemma snapshot_before_lex:
  "snapshot_before = lex_less sn_CreatedAt (\<lambda>a b. sn_ID a < sn_ID b)"
  by (auto simp: snapshot_before_def lex_less_def fun_eq_iff)

interpretation pending_order: comparator snapshot_before
  unfolding snapshot_before_lex by (intro comparator_lex comparator_key)

lemma snapshot_total: "inj_on sn_ID D \<Longrightarrow> total_comparator snapshot_before D"
proof unfold_locales
  fix a b
  assume "inj_on sn_ID D" "a \<in> D" "b \<in> D" "a \<noteq> b"
  then have "sn_ID a \<noteq> sn_ID b" by (auto dest: inj_onD)
  then show "snapshot_before a b \<or> snapshot_before b a"
    using neq_iff [of "sn_ID a" "sn_ID b"] by (auto simp: snapshot_before_def)
qed

text \<open>The ids in the queue are those of its holds, each once.\<close>

definition items_ok :: "queue \<Rightarrow> bool" where
  "items_ok q \<longleftrightarrow> distinct (map fst (q_items q)) \<and> (\<forall>(hid, a) \<in> set (q_items q). h_ID (q_holds q ! a) = hid)"

text \<open>
  The pending list. It lists every held request, oldest first, and depends only on which
  requests are held: whatever order Go's map iteration yields them in, the list is the same, so
  the operator's selection by position stays on the same hold.
\<close>

lemma Pending_order:
  assumes "items_ok q" "mset items = mset (q_items q)"
  shows "Pending (q\<lparr>q_items := items\<rparr>) = Pending q
    \<and> mset (Pending q) = mset (map (\<lambda>(_, a). snapshot_of (q_holds q ! a)) (q_items q))
    \<and> sorted_wrt (\<lambda>a b. sn_CreatedAt a \<le> sn_CreatedAt b) (Pending q)"
proof -
  let ?f = "\<lambda>(_ :: string, a). snapshot_of (q_holds q ! a)"
  have id: "sn_ID (?f x) = fst x" if "x \<in> set (q_items q)" for x
    using that assms(1) by (auto simp: items_ok_def snapshot_of_def)
  have "inj_on fst (set (q_items q))"
    using assms(1) by (simp add: items_ok_def distinct_map)
  then have inj: "inj_on sn_ID (set (map ?f items))"
    using id assms(2) [THEN mset_eq_setD] by (auto simp: inj_on_def simp del: split_paired_All)
  have "stable_sort snapshot_before (map ?f items) = stable_sort snapshot_before (map ?f (q_items q))"
    by (rule total_comparator.order_independent [OF snapshot_total [OF inj]])
      (simp_all only: mset_map assms(2) inj subset_refl)
  moreover have "sorted_wrt (\<lambda>a b. sn_CreatedAt a \<le> sn_CreatedAt b) (stable_sort snapshot_before xs)" for xs
    by (rule sorted_wrt_mono_rel [OF _ pending_order.sorted_stable_sort])
      (auto simp: snapshot_before_def split: if_splits)
  ultimately show ?thesis by (simp add: Pending_def)
qed

definition one_hold :: queue where
  "one_hold = fst (Enqueue ''hold-1'' 5 (zero_request\<lparr>ev_Host := ''a.com''\<rparr>) zero_decision (NewQueue 0 minute []))"

lemma Pending_order_example: "length (Pending one_hold) = 1"
proof -
  have q: "items_ok one_hold" "length (q_items one_hold) = 1"
    by (simp_all add: one_hold_def Enqueue_def NewQueue_def items_ok_def Let_def)
  have "mset (Pending one_hold) = mset (map (\<lambda>(_, a). snapshot_of (q_holds one_hold ! a)) (q_items one_hold))"
    using Pending_order [OF q(1) refl] by blast
  from arg_cong [OF this, of size] q(2) show ?thesis by (simp only: size_mset length_map)
qed

end
