(* ===== verification/ApprovalsProtocol.thy ===== *)
theory ApprovalsProtocol
  imports Approvals
begin

text \<open>
  The approval queue under concurrency. Every goroutine that touches it runs \<open>Enqueue\<close>,
  \<open>Wait\<close> or a resolver; only the sections under \<open>q.mu\<close> and the single channel operations are
  atomic. A resolver that has won its claim is a \<open>delivery\<close> in flight, with the sends it still
  has to make; a \<open>waiter\<close> is a call of \<open>Wait\<close>, which waits in its \<open>select\<close>, has lost a race
  and blocks in \<open>\<leftarrow>ch\<close> (\<open>Draining\<close>), or has returned. The steps interleave freely.
\<close>

section \<open>The system\<close>

datatype wait_state = Waiting | Draining | Returned decision

text \<open>\<open>w_hold\<close> and \<open>sy_outcome\<close> (the decision a hold was claimed with) are for the statements
  only: no step's guard reads them.\<close>

record waiter =
  w_id :: string
  w_ch :: nat
  w_hold :: nat
  w_state :: wait_state

record delivery =
  dl_hold :: nat
  dl_rest :: "nat list"
  dl_decision :: decision
  dl_persist :: "(effect \<times> string) option"

record system =
  sy_q :: queue
  sy_deliveries :: "delivery list"
  sy_waiters :: "waiter list"
  sy_outcome :: "nat \<Rightarrow> decision option"

datatype resolver =
    ByApprove string string
  | ByDeny string string
  | ByAdvisor decision
  | ByTimeout decision
  | ByShutdown

fun resolver_decision :: "resolver \<Rightarrow> hold \<Rightarrow> decision" where
  "resolver_decision (ByApprove scope source) h = approve_decision h scope"
| "resolver_decision (ByDeny reason source) h = deny_decision h reason"
| "resolver_decision (ByAdvisor d) h = advisor_decision h d"
| "resolver_decision (ByTimeout d) h = d"
| "resolver_decision ByShutdown h = shutdown_decision"

fun resolver_persist :: "resolver \<Rightarrow> (effect \<times> string) option" where
  "resolver_persist (ByApprove scope source) = Some (EffectAllow, source)"
| "resolver_persist (ByDeny reason source) = Some (EffectDeny, source)"
| "resolver_persist _ = None"

definition begin_delivery :: "resolver \<Rightarrow> nat \<Rightarrow> queue \<Rightarrow> system \<Rightarrow> system" where
  "begin_delivery r a q' s =
     (let h = q_holds (sy_q s) ! a; d = resolver_decision r h in
      s\<lparr>sy_q := q',
        sy_deliveries := sy_deliveries s @
          [\<lparr>dl_hold = a, dl_rest = h_waiters h, dl_decision = d, dl_persist = resolver_persist r\<rparr>],
        sy_outcome := (sy_outcome s)(a \<mapsto> d)\<rparr>)"

definition set_state :: "nat \<Rightarrow> wait_state \<Rightarrow> system \<Rightarrow> system" where
  "set_state i st s = s\<lparr>sy_waiters := (sy_waiters s)[i := (sy_waiters s ! i)\<lparr>w_state := st\<rparr>]\<rparr>"

definition waiting :: "nat \<Rightarrow> wait_state \<Rightarrow> system \<Rightarrow> bool" where
  "waiting i st s \<longleftrightarrow> i < length (sy_waiters s) \<and> w_state (sy_waiters s ! i) = st"

inductive sys_step :: "system \<Rightarrow> system \<Rightarrow> bool" where
  enqueue: "\<lbrakk>Enqueue newid now req base (sy_q s) = (q', Some (hid, c, co));
      newid \<notin> h_ID ` set (q_holds (sy_q s)); map_of (q_items q') hid = Some a\<rbrakk> \<Longrightarrow>
    sys_step s (s\<lparr>sy_q := q', sy_waiters := sy_waiters s @
      [\<lparr>w_id = hid, w_ch = c, w_hold = a, w_state = Waiting\<rparr>]\<rparr>)"
| resolver_claims: "claim hid (sy_q s) = (q', Some a) \<Longrightarrow> sys_step s (begin_delivery r a q' s)"
| sends: "\<lbrakk>sy_deliveries s = ds1 @ dl # ds2; dl_rest dl = c # cs\<rbrakk> \<Longrightarrow>
    sys_step s (s\<lparr>sy_q := send (dl_decision dl) c (sy_q s),
      sy_deliveries := ds1 @ dl\<lparr>dl_rest := cs\<rparr> # ds2\<rparr>)"
| finishes: "\<lbrakk>sy_deliveries s = ds1 @ dl # ds2; dl_rest dl = []\<rbrakk> \<Longrightarrow>
    sys_step s (s\<lparr>sy_q := persist (dl_hold dl) (dl_persist dl) (sy_q s), sy_deliveries := ds1 @ ds2\<rparr>)"
| timer_wins: "\<lbrakk>waiting i Waiting s; claim (w_id (sy_waiters s ! i)) (sy_q s) = (q', Some a);
      d = timeout_decision duration (sy_q s)\<rbrakk> \<Longrightarrow>
    sys_step s (set_state i (Returned d) (begin_delivery (ByTimeout d) a q' s))"
| timer_loses: "\<lbrakk>waiting i Waiting s; claim (w_id (sy_waiters s ! i)) (sy_q s) = (q', None)\<rbrakk> \<Longrightarrow>
    sys_step s (set_state i Draining (s\<lparr>sy_q := q'\<rparr>))"
| client_leaves: "\<lbrakk>waiting i Waiting s;
      cancelWaiter (w_id (sy_waiters s ! i)) (w_ch (sy_waiters s ! i)) (sy_q s) = (q', Some x)\<rbrakk> \<Longrightarrow>
    sys_step s (set_state i (Returned disconnect_decision) (s\<lparr>sy_q := q'\<rparr>))"
| client_loses: "\<lbrakk>waiting i Waiting s;
      cancelWaiter (w_id (sy_waiters s ! i)) (w_ch (sy_waiters s ! i)) (sy_q s) = (q', None)\<rbrakk> \<Longrightarrow>
    sys_step s (set_state i Draining (s\<lparr>sy_q := q'\<rparr>))"
| receives: "\<lbrakk>waiting i st s; st = Waiting \<or> st = Draining;
      q_chans (sy_q s) ! w_ch (sy_waiters s ! i) = Some d\<rbrakk> \<Longrightarrow>
    sys_step s (set_state i (Returned d) (s\<lparr>sy_q :=
      (sy_q s)\<lparr>q_chans := (q_chans (sy_q s))[w_ch (sy_waiters s ! i) := None]\<rparr>\<rparr>))"
| reconfigures: "sys_step s (s\<lparr>sy_q := Reconfigure maxPending timeout onTimeout (sy_q s)\<rparr>)"
| shuts_down: "sys_step s (s\<lparr>sy_q := Shutdown (sy_q s),
      sy_outcome := (\<lambda>a. if a \<in> snd ` set (q_items (sy_q s)) then Some shutdown_decision else sy_outcome s a)\<rparr>)"

definition initial :: "system \<Rightarrow> bool" where
  "initial s \<longleftrightarrow> (\<exists>m t ot cb. sy_q s = (NewQueue m t ot)\<lparr>q_persistCb := cb\<rparr>)
     \<and> sy_deliveries s = [] \<and> sy_waiters s = [] \<and> sy_outcome s = (\<lambda>_. None)"

inductive reachable :: "system \<Rightarrow> bool" where
  start: "initial s \<Longrightarrow> reachable s"
| next_step: "\<lbrakk>reachable s; sys_step s t\<rbrakk> \<Longrightarrow> reachable t"

section \<open>The invariant\<close>

abbreviation "holds s \<equiv> q_holds (sy_q s)"
abbreviation "chans s \<equiv> q_chans (sy_q s)"

text \<open>The two indexes hold exactly the unresolved holds.\<close>

definition live :: "queue \<Rightarrow> nat \<Rightarrow> bool" where
  "live q a \<longleftrightarrow> a < length (q_holds q) \<and> \<not> h_resolved (q_holds q ! a)"

definition inv_queue :: "queue \<Rightarrow> bool" where
  "inv_queue q \<longleftrightarrow> distinct (map fst (q_items q))
     \<and> (\<forall>hid a. (hid, a) \<in> set (q_items q) \<longleftrightarrow> live q a \<and> h_ID (q_holds q ! a) = hid)
     \<and> (\<forall>k a. q_byKey q k = Some a \<longleftrightarrow> live q a \<and> h_dedupKey (q_holds q ! a) = k)
     \<and> distinct (map h_ID (q_holds q))"

definition inv_chan :: "system \<Rightarrow> bool" where
  "inv_chan s \<longleftrightarrow> length (sy_waiters s) = length (chans s)
     \<and> (\<forall>c < length (chans s). let w = sy_waiters s ! c in
          w_ch w = c \<and> w_hold w < length (holds s) \<and> w_id w = h_ID (holds s ! w_hold w))"

definition inv_hold :: "system \<Rightarrow> bool" where
  "inv_hold s \<longleftrightarrow> (\<forall>a < length (holds s). distinct (h_waiters (holds s ! a))
     \<and> (\<forall>c \<in> set (h_waiters (holds s ! a)). c < length (chans s) \<and> w_hold (sy_waiters s ! c) = a
          \<and> (live (sy_q s) a \<longrightarrow> chans s ! c = None))
     \<and> (live (sy_q s) a \<longrightarrow> sy_outcome s a = None))"

text \<open>What the hook may record: an approval or a denial that the queue's operator made.\<close>

definition operator_verdict :: "effect \<Rightarrow> decision \<Rightarrow> bool" where
  "operator_verdict eff d \<longleftrightarrow> d_Source d = SourceApprovalQueue
     \<and> (eff = EffectAllow \<and> d_Effect d = EffectAskUserResolvedAllow
        \<or> eff = EffectDeny \<and> d_Effect d = EffectAskUserResolvedDeny)"

definition inv_delivery :: "system \<Rightarrow> bool" where
  "inv_delivery s \<longleftrightarrow> distinct (map dl_hold (sy_deliveries s))
     \<and> (\<forall>dl \<in> set (sy_deliveries s). dl_hold dl < length (holds s) \<and> \<not> live (sy_q s) (dl_hold dl)
          \<and> sy_outcome s (dl_hold dl) = Some (dl_decision dl) \<and> distinct (dl_rest dl)
          \<and> (\<forall>c \<in> set (dl_rest dl). c < length (chans s) \<and> w_hold (sy_waiters s ! c) = dl_hold dl
               \<and> chans s ! c = None)
          \<and> (\<forall>eff src. dl_persist dl = Some (eff, src) \<longrightarrow> operator_verdict eff (dl_decision dl))
          \<and> dl_hold dl \<notin> fst ` set (q_persisted (sy_q s)))"

definition served :: "system \<Rightarrow> nat \<Rightarrow> bool" where
  "served s c \<longleftrightarrow> chans s ! c \<noteq> None \<or> (\<exists>dl \<in> set (sy_deliveries s). c \<in> set (dl_rest dl))"

definition inv_wait :: "system \<Rightarrow> bool" where
  "inv_wait s \<longleftrightarrow> (\<forall>c < length (chans s). let w = sy_waiters s ! c in
     (\<forall>d. chans s ! c = Some d \<longrightarrow> sy_outcome s (w_hold w) = Some d)
     \<and> (w_state w = Waiting \<longrightarrow> served s c
          \<or> live (sy_q s) (w_hold w) \<and> c \<in> set (h_waiters (holds s ! w_hold w)))
     \<and> (w_state w = Draining \<longrightarrow> served s c)
     \<and> (\<forall>d. w_state w = Returned d \<longrightarrow> d = disconnect_decision \<or> sy_outcome s (w_hold w) = Some d))"

definition inv_persist :: "system \<Rightarrow> bool" where
  "inv_persist s \<longleftrightarrow> distinct (map fst (q_persisted (sy_q s)))
     \<and> (\<forall>(a, eff, src) \<in> set (q_persisted (sy_q s)). a < length (holds s) \<and> \<not> live (sy_q s) a
          \<and> (\<exists>d. sy_outcome s a = Some d \<and> operator_verdict eff d))
     \<and> (\<forall>a. sy_outcome s a \<noteq> None \<longrightarrow> a < length (holds s))"

definition inv :: "system \<Rightarrow> bool" where
  "inv s \<longleftrightarrow> inv_queue (sy_q s) \<and> inv_chan s \<and> inv_hold s \<and> inv_delivery s \<and> inv_wait s \<and> inv_persist s"

lemmas inv_defs = inv_def inv_queue_def inv_chan_def inv_hold_def inv_delivery_def inv_wait_def
  inv_persist_def Let_def

lemma inv_initial: "initial s \<Longrightarrow> inv s"
  by (auto simp: initial_def inv_defs NewQueue_def live_def)

section \<open>What the atomic sections do\<close>

lemma claim_Some:
  assumes "inv_queue q" "claim hid q = (q', Some a)"
  shows "live q a" "h_ID (q_holds q ! a) = hid"
    "q' = q\<lparr>q_holds := (q_holds q)[a := (q_holds q ! a)\<lparr>h_resolved := True\<rparr>],
         q_items := adel hid (q_items q), q_byKey := (q_byKey q)(h_dedupKey (q_holds q ! a) := None)\<rparr>"
proof -
  have "(hid, a) \<in> set (q_items q)"
    using assms(2) by (auto simp: claim_def Let_def dest: map_of_SomeD split: option.splits if_splits)
  with assms(1) show "live q a" "h_ID (q_holds q ! a) = hid"
    unfolding inv_queue_def by blast+
  show "q' = q\<lparr>q_holds := (q_holds q)[a := (q_holds q ! a)\<lparr>h_resolved := True\<rparr>],
         q_items := adel hid (q_items q), q_byKey := (q_byKey q)(h_dedupKey (q_holds q ! a) := None)\<rparr>"
    using assms(2) by (auto simp: claim_def Let_def split: option.splits if_splits)
qed

lemma claim_None:
  "claim hid q = (q', None) \<Longrightarrow> q' = q"
  by (auto simp: claim_def Let_def split: option.splits if_splits)

lemma live_lookup:
  assumes "inv_queue q" "live q a"
  shows "map_of (q_items q) (h_ID (q_holds q ! a)) = Some a"
  using assms by (auto simp: inv_queue_def)

lemma same_id:
  assumes "inv_queue q" "a < length (q_holds q)" "b < length (q_holds q)"
    "h_ID (q_holds q ! a) = h_ID (q_holds q ! b)"
  shows "a = b"
  using assms by (auto simp: inv_queue_def distinct_map inj_on_def distinct_conv_nth)

lemma same_key:
  assumes "inv_queue q" "live q a" "live q b" "h_dedupKey (q_holds q ! a) = h_dedupKey (q_holds q ! b)"
  shows "a = b"
proof -
  have "q_byKey q (h_dedupKey (q_holds q ! a)) = Some a" "q_byKey q (h_dedupKey (q_holds q ! a)) = Some b"
    using assms by (simp_all add: inv_queue_def)
  then show ?thesis by simp
qed

text \<open>Resolving one hold, by a claim or by the departure of its last waiter.\<close>

lemma inv_queue_resolve:
  assumes "inv_queue q" "live q a" "hid = h_ID (q_holds q ! a)" "h_resolved h'"
    "h_ID h' = h_ID (q_holds q ! a)"
  shows "inv_queue (q\<lparr>q_holds := (q_holds q)[a := h'], q_items := adel hid (q_items q),
       q_byKey := (q_byKey q)(h_dedupKey (q_holds q ! a) := None)\<rparr>)"
proof -
  let ?q = "q\<lparr>q_holds := (q_holds q)[a := h'], q_items := adel hid (q_items q),
       q_byKey := (q_byKey q)(h_dedupKey (q_holds q ! a) := None)\<rparr>"
  have lv: "live ?q b \<longleftrightarrow> live q b \<and> b \<noteq> a" for b
    using assms(2,4) by (auto simp: live_def nth_list_update)
  have ids: "map h_ID ((q_holds q)[a := h']) = map h_ID (q_holds q)"
    using assms(2,5) by (simp add: map_update live_def list_update_same_conv)
  have eq: "b = a" if "live q b" "h_ID (q_holds q ! b) = hid" for b
    using same_id [OF assms(1)] that assms(2,3) by (auto simp: live_def)
  have "(k, b) \<in> set (adel hid (q_items q)) \<longleftrightarrow> live ?q b \<and> h_ID (q_holds ?q ! b) = k" for k b
    using assms(1,3) eq lv [of b]
    by (auto simp: inv_queue_def adel_def nth_list_update)
  moreover have "((q_byKey q)(h_dedupKey (q_holds q ! a) := None)) k = Some b
      \<longleftrightarrow> live ?q b \<and> h_dedupKey (q_holds ?q ! b) = k" for k b
    using assms(1,2) lv [of b] same_key [OF assms(1,2), of b] by (auto simp: inv_queue_def nth_list_update)
  ultimately show ?thesis
    using assms(1) ids by (simp add: inv_queue_def distinct_adel)
qed


section \<open>Every step keeps the invariant\<close>

lemma live_resolve:
  "live q a \<Longrightarrow> h_resolved h' \<Longrightarrow>
   live (q\<lparr>q_holds := (q_holds q)[a := h'], q_items := x, q_byKey := y\<rparr>) b \<longleftrightarrow> live q b \<and> b \<noteq> a"
  by (auto simp: live_def nth_list_update)

lemma inv_begin_delivery:
  assumes "inv s" "claim hid (sy_q s) = (q', Some a)"
    and "\<And>eff src. resolver_persist r = Some (eff, src) \<Longrightarrow>
      operator_verdict eff (resolver_decision r (holds s ! a))"
  shows "inv (begin_delivery r a q' s)"
proof -
  let ?t = "begin_delivery r a q' s"
  have iq: "inv_queue (sy_q s)" using assms(1) by (simp add: inv_def)
  note c = claim_Some [OF iq assms(2)]
  have lv: "live (sy_q ?t) b \<longleftrightarrow> live (sy_q s) b \<and> b \<noteq> a" for b
    using live_resolve [OF c(1)] by (simp add: begin_delivery_def Let_def c(3))
  have a: "a < length (holds s)" using c(1) by (simp add: live_def)
  have h: "holds ?t = (holds s)[a := (holds s ! a)\<lparr>h_resolved := True\<rparr>]" "chans ?t = chans s"
    "sy_waiters ?t = sy_waiters s" "sy_outcome ?t = (sy_outcome s)(a \<mapsto> resolver_decision r (holds s ! a))"
    "q_persisted (sy_q ?t) = q_persisted (sy_q s)"
    "sy_deliveries ?t = sy_deliveries s @ [\<lparr>dl_hold = a, dl_rest = h_waiters (holds s ! a),
       dl_decision = resolver_decision r (holds s ! a), dl_persist = resolver_persist r\<rparr>]"
    by (simp_all add: begin_delivery_def Let_def c(3))
  have sel: "h_ID (holds ?t ! b) = h_ID (holds s ! b)" "h_waiters (holds ?t ! b) = h_waiters (holds s ! b)" for b
    using a by (auto simp: h(1) nth_list_update)
  have "inv_queue (sy_q ?t)"
    using inv_queue_resolve [OF iq c(1) c(2) [symmetric], of "(holds s ! a)\<lparr>h_resolved := True\<rparr>"]
    by (simp add: begin_delivery_def Let_def c(3))
  moreover have "inv_chan ?t"
    using assms(1) by (simp add: inv_def inv_chan_def Let_def h(2,3) sel) (simp add: h(1))
  moreover have "inv_hold ?t"
    using assms(1) by (auto simp: inv_def inv_hold_def h(2-4) sel lv) (auto simp: h(1))
  moreover have "inv_persist ?t"
    using assms(1) c(1) a by (auto simp: inv_def inv_persist_def h(4,5) lv) (auto simp: h(1))
  moreover have "inv_delivery ?t"
    using assms(1,3) c(1) a
    by (auto simp: inv_def inv_delivery_def inv_hold_def inv_persist_def h(2-6) lv) (auto simp: h(1))
  moreover have "sy_outcome s a = None"
    using assms(1) c(1) a by (simp add: inv_def inv_hold_def)
  then have "inv_wait ?t"
    using assms(1)
    by (auto simp: inv_def inv_wait_def Let_def served_def h(2-6) sel lv)
  ultimately show ?thesis by (simp add: inv_def)
qed


lemma set_state_sel [simp]:
  "sy_q (set_state i st s) = sy_q s" "sy_deliveries (set_state i st s) = sy_deliveries s"
  "sy_outcome (set_state i st s) = sy_outcome s" "served (set_state i st s) c = served s c"
  "sy_waiters (set_state i st s) = (sy_waiters s)[i := (sy_waiters s ! i)\<lparr>w_state := st\<rparr>]"
  by (simp_all add: set_state_def served_def)

lemma set_state_q: "set_state i st (s\<lparr>sy_q := q'\<rparr>) = (set_state i st s)\<lparr>sy_q := q'\<rparr>"
  by (simp add: set_state_def)

lemma waiter_update:
  "ws[i := x] ! c = (if i = c \<and> i < length ws then x else ws ! c)"
proof (cases "i < length ws")
  case True
  then show ?thesis by (cases "i = c") simp_all
qed (simp add: list_update_beyond)

lemma waiter_fields [simp]:
  "w_ch ((ws[i := (ws ! i)\<lparr>w_state := st\<rparr>]) ! c) = w_ch (ws ! c)"
  "w_hold ((ws[i := (ws ! i)\<lparr>w_state := st\<rparr>]) ! c) = w_hold (ws ! c)"
  "w_id ((ws[i := (ws ! i)\<lparr>w_state := st\<rparr>]) ! c) = w_id (ws ! c)"
  unfolding waiter_update by simp_all

text \<open>The condition on one waiter.\<close>

definition wait_ok :: "system \<Rightarrow> nat \<Rightarrow> bool" where
  "wait_ok s c \<longleftrightarrow> (let w = sy_waiters s ! c in
     (\<forall>d. chans s ! c = Some d \<longrightarrow> sy_outcome s (w_hold w) = Some d)
     \<and> (w_state w = Waiting \<longrightarrow> served s c
          \<or> live (sy_q s) (w_hold w) \<and> c \<in> set (h_waiters (holds s ! w_hold w)))
     \<and> (w_state w = Draining \<longrightarrow> served s c)
     \<and> (\<forall>d. w_state w = Returned d \<longrightarrow> d = disconnect_decision \<or> sy_outcome s (w_hold w) = Some d))"

lemma inv_wait_iff: "inv_wait s \<longleftrightarrow> (\<forall>c < length (chans s). wait_ok s c)"
  by (simp add: inv_wait_def wait_ok_def)

text \<open>A step that leaves the holds and the hook's record alone.\<close>

lemma inv_same_holds:
  assumes "inv s" "inv_queue (sy_q t)" "inv_chan t" "inv_delivery t" "inv_wait t"
    and "holds t = holds s" "sy_outcome t = sy_outcome s" "sy_waiters t = sy_waiters s"
    and "q_persisted (sy_q t) = q_persisted (sy_q s)" "length (chans t) = length (chans s)"
    and "\<And>a c. live (sy_q s) a \<Longrightarrow> c \<in> set (h_waiters (holds s ! a)) \<Longrightarrow> chans t ! c = None"
  shows "inv t"
proof -
  have lv: "live (sy_q t) b = live (sy_q s) b" for b using assms(6) by (simp add: live_def)
  have "inv_hold t"
    using assms(1) assms(11) unfolding inv_def inv_hold_def assms(6-8,10) lv by blast
  moreover have "inv_persist t"
    using assms(1) unfolding inv_def inv_persist_def assms(6-9) lv by blast
  ultimately show ?thesis using assms(2-5) by (simp add: inv_def)
qed

lemma inv_set_state:
  assumes "inv s" "i < length (sy_waiters s)" "st \<noteq> Waiting"
    and "st = Draining \<Longrightarrow> served s i"
    and "\<And>d. st = Returned d \<Longrightarrow> d = disconnect_decision \<or> sy_outcome s (w_hold (sy_waiters s ! i)) = Some d"
  shows "inv (set_state i st s)"
proof -
  have "wait_ok (set_state i st s) c" if "wait_ok s c" for c
    using that assms(2-5) by (cases "i = c") (simp_all add: wait_ok_def Let_def)
  then have "inv_wait (set_state i st s)"
    using assms(1) by (simp add: inv_def inv_wait_iff)
  with assms(1) show ?thesis
    by (simp add: inv_def inv_chan_def inv_hold_def inv_delivery_def inv_persist_def Let_def)
qed

lemma inv_clear:
  assumes "inv s" "c < length (chans s)" "w_state (sy_waiters s ! c) = Returned d"
  shows "inv (s\<lparr>sy_q := (sy_q s)\<lparr>q_chans := (chans s)[c := None]\<rparr>\<rparr>)"
proof -
  define t where "t = s\<lparr>sy_q := (sy_q s)\<lparr>q_chans := (chans s)[c := None]\<rparr>\<rparr>"
  have h: "holds t = holds s" "sy_outcome t = sy_outcome s" "sy_waiters t = sy_waiters s"
    "sy_deliveries t = sy_deliveries s" "q_persisted (sy_q t) = q_persisted (sy_q s)"
    "length (chans t) = length (chans s)" "q_items (sy_q t) = q_items (sy_q s)" "q_byKey (sy_q t) = q_byKey (sy_q s)"
    by (simp_all add: t_def)
  have lv: "live (sy_q t) b = live (sy_q s) b" for b by (simp add: live_def h)
  have n: "chans t ! b = (if b = c then None else chans s ! b)" for b
    using assms(2) by (simp add: t_def nth_list_update)
  have sv: "served t b = served s b" if "b \<noteq> c" for b
    using that by (simp add: served_def n h)
  have "inv_queue (sy_q t)" using assms(1) by (simp add: inv_def inv_queue_def lv h)
  moreover have "inv_chan t" using assms(1) by (simp add: inv_def inv_chan_def h)
  moreover have "inv_delivery t" using assms(1) by (simp add: inv_def inv_delivery_def lv n h)
  moreover have "wait_ok t b" if "wait_ok s b" for b
    using that assms(3) by (cases "b = c") (simp_all add: wait_ok_def Let_def n lv sv h)
  then have "inv_wait t" using assms(1) by (simp add: inv_def inv_wait_iff h)
  ultimately have "inv t"
    using assms(1) by (intro inv_same_holds [OF assms(1)]) (auto simp: h n inv_def inv_hold_def live_def)
  then show ?thesis by (simp add: t_def)
qed

lemma inv_cancel:
  assumes "inv s" "c < length (chans s)" "w_state (sy_waiters s ! c) = Returned d"
    and "cancelWaiter hid c (sy_q s) = (q', Some x)"
  shows "inv (s\<lparr>sy_q := q'\<rparr>)"
proof -
  have iq: "inv_queue (sy_q s)" using assms(1) by (simp add: inv_def)
  obtain a where a: "(hid, a) \<in> set (q_items (sy_q s))"
    and q': "q' = (let h = holds s ! a; ws = remove1 c (h_waiters h) in
       if ws = [] then (sy_q s)\<lparr>q_holds := (holds s)[a := h\<lparr>h_waiters := [], h_resolved := True\<rparr>],
             q_items := adel hid (q_items (sy_q s)), q_byKey := (q_byKey (sy_q s))(h_dedupKey h := None)\<rparr>
       else (sy_q s)\<lparr>q_holds := (holds s)[a := h\<lparr>h_waiters := ws\<rparr>]\<rparr>)"
    using assms(4) by (auto simp: cancelWaiter_def Let_def dest: map_of_SomeD split: option.splits if_splits)
  then have lva: "live (sy_q s) a" "h_ID (holds s ! a) = hid" "a < length (holds s)"
    using iq by (auto simp: inv_queue_def live_def)
  define t where "t = s\<lparr>sy_q := q'\<rparr>"
  let ?ws = "remove1 c (h_waiters (holds s ! a))"
  have h: "chans t = chans s" "q_persisted (sy_q t) = q_persisted (sy_q s)" "length (holds t) = length (holds s)"
    "sy_q t = q'" "sy_waiters t = sy_waiters s" "sy_outcome t = sy_outcome s" "sy_deliveries t = sy_deliveries s"
    by (simp_all add: t_def q' Let_def)
  have sel: "h_ID (holds t ! b) = h_ID (holds s ! b)" "h_dedupKey (holds t ! b) = h_dedupKey (holds s ! b)"
    "h_waiters (holds t ! b) = (if b = a then ?ws else h_waiters (holds s ! b))" for b
    using lva(3) by (auto simp: t_def q' Let_def nth_list_update)
  have lv: "live q' b \<longleftrightarrow> live (sy_q s) b \<and> (b = a \<longrightarrow> ?ws \<noteq> [])" for b
    using lva by (auto simp: q' Let_def live_def nth_list_update)
  have dist: "distinct (h_waiters (holds s ! a))"
    using assms(1) lva(3) by (simp add: inv_def inv_hold_def)
  have "inv_queue q'"
  proof (cases "?ws = []")
    case True
    then show ?thesis
      using inv_queue_resolve [OF iq lva(1) lva(2) [symmetric],
          of "(holds s ! a)\<lparr>h_waiters := [], h_resolved := True\<rparr>"] by (simp add: q' Let_def)
  next
    case False
    then have same: "q_items q' = q_items (sy_q s)" "q_byKey q' = q_byKey (sy_q s)"
      "map h_ID (q_holds q') = map h_ID (holds s)"
      using lva(3) by (simp_all add: q' Let_def map_update list_update_same_conv)
    show ?thesis
      using iq False sel(1,2) [unfolded h] lv unfolding inv_queue_def same by simp
  qed
  moreover have "inv_chan t"
    using assms(1) h sel by (simp add: inv_def inv_chan_def Let_def)
  moreover have "inv_hold t"
    unfolding inv_hold_def
  proof (intro allI impI)
    fix b assume "b < length (holds t)"
    then have b: "b < length (holds s)" by (simp only: h(3))
    with assms(1) have o: "distinct (h_waiters (holds s ! b))
      \<and> (\<forall>c \<in> set (h_waiters (holds s ! b)). c < length (chans s) \<and> w_hold (sy_waiters s ! c) = b
          \<and> (live (sy_q s) b \<longrightarrow> chans s ! c = None))
      \<and> (live (sy_q s) b \<longrightarrow> sy_outcome s b = None)" by (simp add: inv_def inv_hold_def)
    have "set ?ws \<subseteq> set (h_waiters (holds s ! a))" by (rule set_remove1_subset)
    with o dist show "distinct (h_waiters (holds t ! b)) \<and> (\<forall>c\<in>set (h_waiters (holds t ! b)).
        c < length (chans t) \<and> w_hold (sy_waiters t ! c) = b \<and> (live (sy_q t) b \<longrightarrow> chans t ! c = None))
        \<and> (live (sy_q t) b \<longrightarrow> sy_outcome t b = None)"
      unfolding sel(3) lv [folded h(4)] h(1,5,6) by (cases "b = a") auto
  qed
  moreover have "inv_delivery t"
    using assms(1) h(3) by (simp add: inv_def inv_delivery_def h(1,2,5-7) lv [folded h(4)])
  moreover have "inv_persist t"
    using assms(1) h(3) by (auto simp: inv_def inv_persist_def h(1,2,5-7) lv [folded h(4)])
  moreover have "wait_ok t b" if "wait_ok s b" for b
  proof -
    have "b \<noteq> c \<Longrightarrow> b \<in> set (h_waiters (holds s ! a)) \<Longrightarrow> b \<in> set ?ws \<and> ?ws \<noteq> []"
      by (metis in_set_remove1 list.set(1) empty_iff)
    moreover have "served t b = served s b" by (simp add: served_def h(1,7))
    ultimately show ?thesis using that assms(3)
      by (cases "b = c"; cases "w_hold (sy_waiters s ! b) = a")
        (auto simp: wait_ok_def Let_def h(1,5,6) sel(3) lv [folded h(4)])
  qed
  then have "inv_wait t" using assms(1) by (simp add: inv_def inv_wait_iff h(1))
  ultimately have "inv t" by (simp add: inv_def h(4))
  then show ?thesis by (simp add: t_def)
qed


lemma live_key:
  assumes "inv_queue q"
  shows "(case q_byKey q k of None \<Rightarrow> None | Some a \<Rightarrow> if h_resolved (q_holds q ! a) then None else Some a)
    = q_byKey q k"
proof -
  have "q_byKey q k = Some a \<Longrightarrow> \<not> h_resolved (q_holds q ! a)" for a
    using assms unfolding inv_queue_def live_def by blast
  then show ?thesis by (simp split: option.split)
qed

text \<open>A retry that coalesces adds a channel and a waiter to a live hold.\<close>

lemma inv_enqueue_same:
  assumes "inv s" "live (sy_q s) a"
    and t: "t = s\<lparr>sy_q := (sy_q s)\<lparr>q_chans := chans s @ [None],
         q_holds := (holds s)[a := (holds s ! a)\<lparr>h_waiters := h_waiters (holds s ! a) @ [length (chans s)]\<rparr>]\<rparr>,
       sy_waiters := sy_waiters s @
         [\<lparr>w_id = h_ID (holds s ! a), w_ch = length (chans s), w_hold = a, w_state = Waiting\<rparr>]\<rparr>"
  shows "inv t"
proof -
  have iq: "inv_queue (sy_q s)" and ic: "inv_chan s" and ih: "inv_hold s" and idl: "inv_delivery s"
    and iw: "inv_wait s" and ip: "inv_persist s" using assms(1) by (simp_all add: inv_def)
  let ?n = "length (chans s)"
  have a: "a < length (holds s)" using assms(2) by (simp add: live_def)
  have wl: "length (sy_waiters s) = ?n" using ic by (simp add: inv_chan_def)
  have h: "sy_outcome t = sy_outcome s" "sy_deliveries t = sy_deliveries s"
    "q_persisted (sy_q t) = q_persisted (sy_q s)" "q_items (sy_q t) = q_items (sy_q s)"
    "q_byKey (sy_q t) = q_byKey (sy_q s)" "length (holds t) = length (holds s)" "length (chans t) = Suc ?n"
    "length (sy_waiters t) = Suc ?n" by (simp_all add: t wl)
  have new: "sy_waiters t ! ?n = \<lparr>w_id = h_ID (holds s ! a), w_ch = ?n, w_hold = a, w_state = Waiting\<rparr>"
    "chans t ! ?n = None" using wl by (simp_all add: t nth_append)
  have old: "sy_waiters t ! c = sy_waiters s ! c" "chans t ! c = chans s ! c" if "c < ?n" for c
    using that wl by (simp_all add: t nth_append)
  have hold: "h_ID (holds t ! b) = h_ID (holds s ! b)" "h_dedupKey (holds t ! b) = h_dedupKey (holds s ! b)"
    "h_resolved (holds t ! b) = h_resolved (holds s ! b)"
    "h_waiters (holds t ! b) = h_waiters (holds s ! b) @ (if b = a then [?n] else [])" for b
    using a by (auto simp: t waiter_update)
  have lv: "live (sy_q t) b = live (sy_q s) b" for b by (simp add: live_def h hold)
  have ws: "set (h_waiters (holds s ! b)) \<subseteq> {..<?n}" if "b < length (holds s)" for b
    using ih that by (auto simp: inv_hold_def)
  have "map h_ID (holds t) = map h_ID (holds s)" by (rule nth_equalityI) (simp_all add: h hold)
  then have "inv_queue (sy_q t)" using iq by (simp add: inv_queue_def h hold lv)
  moreover have "inv_chan t"
    using ic a by (auto simp: inv_chan_def Let_def h hold less_Suc_eq new old)
  moreover have "inv_hold t"
    unfolding inv_hold_def
  proof (intro allI impI)
    fix b assume "b < length (holds t)"
    then have b: "b < length (holds s)" by (simp add: h)
    have "c < Suc ?n \<and> w_hold (sy_waiters t ! c) = b \<and> (live (sy_q s) b \<longrightarrow> chans t ! c = None)"
      if c: "c \<in> set (h_waiters (holds t ! b))" for c
    proof (cases "c = ?n")
      case True
      with c ws [OF b] have "b = a" by (auto simp: hold split: if_splits)
      with True show ?thesis by (simp add: new)
    next
      case False
      with c have "c \<in> set (h_waiters (holds s ! b))" by (auto simp: hold split: if_splits)
      with ih b ws [OF b] show ?thesis by (auto simp: inv_hold_def old less_SucI)
    qed
    with ih b ws [OF b] show "distinct (h_waiters (holds t ! b)) \<and>
        (\<forall>c\<in>set (h_waiters (holds t ! b)). c < length (chans t) \<and> w_hold (sy_waiters t ! c) = b
           \<and> (live (sy_q t) b \<longrightarrow> chans t ! c = None)) \<and> (live (sy_q t) b \<longrightarrow> sy_outcome t b = None)"
      by (auto simp: inv_hold_def h lv hold(4))
  qed
  moreover have "inv_delivery t"
    using idl by (auto simp: inv_delivery_def h lv old less_SucI)
  moreover have "inv_persist t" using ip by (simp add: inv_persist_def h lv)
  moreover have "wait_ok t c" if "c < Suc ?n" for c
  proof (cases "c = ?n")
    case True
    then show ?thesis using assms(2) by (simp add: wait_ok_def Let_def new hold lv)
  next
    case False
    with that have c: "c < ?n" by simp
    then have "served t c = served s c" by (simp add: served_def old h)
    with c iw show ?thesis by (auto simp: inv_wait_iff wait_ok_def Let_def old h lv hold(4))
  qed
  then have "inv_wait t" by (simp add: inv_wait_iff h)
  ultimately show ?thesis by (simp add: inv_def)
qed

text \<open>A request with no live hold mints one.\<close>

lemma inv_enqueue_new:
  assumes "inv s" "q_byKey (sy_q s) (dedupKey req) = None" "newid \<notin> h_ID ` set (holds s)"
    and nh: "nh = \<lparr>h_ID = newid, h_Request = req, h_Decision = base, h_CreatedAt = now,
         h_waiters = [length (chans s)], h_dedupKey = dedupKey req, h_resolved = False\<rparr>"
    and t: "t = s\<lparr>sy_q := (sy_q s)\<lparr>q_chans := chans s @ [None], q_holds := holds s @ [nh],
         q_items := aput newid (length (holds s)) (q_items (sy_q s)),
         q_byKey := (q_byKey (sy_q s))(dedupKey req \<mapsto> length (holds s))\<rparr>,
       sy_waiters := sy_waiters s @
         [\<lparr>w_id = newid, w_ch = length (chans s), w_hold = length (holds s), w_state = Waiting\<rparr>]\<rparr>"
  shows "inv t"
proof -
  have iq: "inv_queue (sy_q s)" and ic: "inv_chan s" and ih: "inv_hold s" and idl: "inv_delivery s"
    and iw: "inv_wait s" and ip: "inv_persist s" using assms(1) by (simp_all add: inv_def)
  let ?n = "length (chans s)" and ?m = "length (holds s)"
  have wl: "length (sy_waiters s) = ?n" using ic by (simp add: inv_chan_def)
  have h: "sy_outcome t = sy_outcome s" "sy_deliveries t = sy_deliveries s"
    "q_persisted (sy_q t) = q_persisted (sy_q s)" "q_items (sy_q t) = aput newid ?m (q_items (sy_q s))"
    "q_byKey (sy_q t) = (q_byKey (sy_q s))(dedupKey req \<mapsto> ?m)" "length (holds t) = Suc ?m"
    "length (chans t) = Suc ?n" "length (sy_waiters t) = Suc ?n" by (simp_all add: t wl)
  have new: "sy_waiters t ! ?n = \<lparr>w_id = newid, w_ch = ?n, w_hold = ?m, w_state = Waiting\<rparr>"
    "chans t ! ?n = None" "holds t ! ?m = nh" using wl by (simp_all add: t nth_append)
  have old: "sy_waiters t ! c = sy_waiters s ! c" "chans t ! c = chans s ! c" if "c < ?n" for c
    using that wl by (simp_all add: t nth_append)
  have hold: "holds t ! b = holds s ! b" if "b < ?m" for b using that by (simp add: t nth_append)
  have lv: "live (sy_q t) b \<longleftrightarrow> live (sy_q s) b \<or> b = ?m" for b
    by (auto simp: live_def h hold less_Suc_eq new nh)
  have lm: "live (sy_q s) b \<Longrightarrow> b < ?m" for b by (simp add: live_def)
  have ids: "h_ID ` set (holds s) \<subseteq> - {newid}" using assms(3) by auto
  have "inv_queue (sy_q t)"
  proof -
    have k: "h_dedupKey (holds s ! b) \<noteq> dedupKey req" if "live (sy_q s) b" for b
      using iq assms(2) that by (metis inv_queue_def option.distinct(1))
    have "fst ` set (q_items (sy_q s)) \<subseteq> h_ID ` set (holds s)"
      using iq lm by (force simp: inv_queue_def)
    then have fresh: "newid \<notin> fst ` set (q_items (sy_q s))" using assms(3) by blast
    have app: "newid \<notin> fst ` set m \<Longrightarrow> aput newid v m = m @ [(newid, v)]" for v m
      by (induction m) auto
    have "(hid, b) \<in> set (q_items (sy_q t)) \<longleftrightarrow> live (sy_q t) b \<and> h_ID (holds t ! b) = hid" for hid b
      using iq lm by (auto simp: h app [OF fresh] lv inv_queue_def hold new nh)
    moreover have "q_byKey (sy_q t) k = Some b \<longleftrightarrow> live (sy_q t) b \<and> h_dedupKey (holds t ! b) = k" for k b
    proof (cases "b = ?m")
      case True
      then show ?thesis using iq lm [of b] by (auto simp: h lv new nh inv_queue_def)
    next
      case False
      then show ?thesis using iq lm [of b] \<open>live (sy_q s) b \<Longrightarrow> h_dedupKey (holds s ! b) \<noteq> dedupKey req\<close>
        by (auto simp: h lv inv_queue_def hold k)
    qed
    moreover have "distinct (map h_ID (holds t))"
      using iq assms(3) by (simp add: t inv_queue_def nh)
    moreover have "distinct (map fst (q_items (sy_q t)))"
      using iq by (simp add: h inv_queue_def distinct_aput)
    ultimately show ?thesis by (simp add: inv_queue_def)
  qed
  moreover have "inv_chan t"
    using ic by (auto simp: inv_chan_def Let_def h less_Suc_eq new old hold nh)
  moreover have "inv_hold t"
    unfolding inv_hold_def
  proof (intro allI impI)
    fix b assume "b < length (holds t)"
    then consider "b < ?m" | "b = ?m" by (auto simp: h less_Suc_eq)
    then show "distinct (h_waiters (holds t ! b)) \<and>
        (\<forall>c\<in>set (h_waiters (holds t ! b)). c < length (chans t) \<and> w_hold (sy_waiters t ! c) = b
           \<and> (live (sy_q t) b \<longrightarrow> chans t ! c = None)) \<and> (live (sy_q t) b \<longrightarrow> sy_outcome t b = None)"
    proof cases
      case 1
      with ih show ?thesis by (auto simp: inv_hold_def h hold old lv less_SucI)
    next
      case 2
      then show ?thesis using ip by (auto simp: h new nh inv_persist_def)
    qed
  qed
  moreover have "inv_delivery t"
    using idl by (auto simp: inv_delivery_def h lv old less_SucI)
  moreover have "inv_persist t" using ip by (auto simp: inv_persist_def h lv less_SucI)
  moreover have "wait_ok t c" if "c < Suc ?n" for c
  proof (cases "c = ?n")
    case True
    then show ?thesis by (simp add: wait_ok_def Let_def new nh lv)
  next
    case False
    with that have c: "c < ?n" by simp
    then have "served t c = served s c" by (simp add: served_def old h)
    with c iw ic show ?thesis by (auto simp: inv_wait_iff wait_ok_def inv_chan_def Let_def old h lv hold)
  qed
  then have "inv_wait t" by (simp add: inv_wait_iff h)
  ultimately show ?thesis by (simp add: inv_def)
qed


text \<open>A delivery's next send, and its end.\<close>

lemma inv_send:
  assumes "inv s" "sy_deliveries s = ds1 @ dl # ds2" "dl_rest dl = c # cs"
    and t: "t = s\<lparr>sy_q := send (dl_decision dl) c (sy_q s), sy_deliveries := ds1 @ dl\<lparr>dl_rest := cs\<rparr> # ds2\<rparr>"
  shows "inv t"
proof -
  have idl: "inv_delivery s" and iw: "inv_wait s" using assms(1) by (simp_all add: inv_def)
  have dl: "dl \<in> set (sy_deliveries s)" by (simp add: assms(2))
  with idl assms(3) have c: "c < length (chans s)" "chans s ! c = None" "w_hold (sy_waiters s ! c) = dl_hold dl"
    "c \<notin> set cs" "sy_outcome s (dl_hold dl) = Some (dl_decision dl)" "\<not> live (sy_q s) (dl_hold dl)"
    by (auto simp: inv_delivery_def)
  have h: "holds t = holds s" "sy_outcome t = sy_outcome s" "sy_waiters t = sy_waiters s"
    "q_persisted (sy_q t) = q_persisted (sy_q s)" "length (chans t) = length (chans s)"
    "q_items (sy_q t) = q_items (sy_q s)" "q_byKey (sy_q t) = q_byKey (sy_q s)"
    "sy_deliveries t = ds1 @ dl\<lparr>dl_rest := cs\<rparr> # ds2"
    by (simp_all add: t send_def)
  have n: "chans t ! b = (if b = c then Some (dl_decision dl) else chans s ! b)" for b
    using c by (simp add: t send_def waiter_update)
  have lv: "live (sy_q t) b = live (sy_q s) b" for b by (simp add: live_def h)
  have only: "c \<notin> set (dl_rest x)" if "x \<in> set ds1 \<union> set ds2" for x
  proof
    assume cx: "c \<in> set (dl_rest x)"
    have "x \<in> set (sy_deliveries s)" using that by (auto simp: assms(2))
    with idl cx c(3) have "dl_hold x = dl_hold dl" by (auto simp: inv_delivery_def)
    moreover have "distinct (map dl_hold (ds1 @ dl # ds2))" using idl assms(2) by (simp add: inv_delivery_def)
    ultimately show False using that by (auto simp: image_iff)
  qed
  have "inv_queue (sy_q t)" using assms(1) by (simp add: inv_def inv_queue_def lv h)
  moreover have "inv_chan t" using assms(1) by (simp add: inv_def inv_chan_def h)
  moreover have "inv_delivery t"
    using idl assms(2,3) only c(4)
    unfolding inv_delivery_def h lv n by (auto simp: ball_Un)
  moreover have "wait_ok t b" if "wait_ok s b" for b
  proof (cases "b = c")
    case True
    then show ?thesis using that c by (simp add: wait_ok_def Let_def served_def n h lv)
  next
    case False
    then have "served t b = served s b"
      using assms(2,3) by (auto simp: served_def n h)
    with False that show ?thesis by (simp add: wait_ok_def Let_def n h lv)
  qed
  then have "inv_wait t" using iw by (simp add: inv_wait_iff h)
  moreover have "chans t ! b = None" if "live (sy_q s) a" "b \<in> set (h_waiters (holds s ! a))" for a b
  proof -
    have "a < length (holds s)" using that(1) by (simp add: live_def)
    with assms(1) that have "w_hold (sy_waiters s ! b) = a" "chans s ! b = None"
      by (auto simp: inv_def inv_hold_def)
    with c that show ?thesis by (auto simp: n)
  qed
  ultimately show ?thesis by (intro inv_same_holds [OF assms(1)]) (simp_all add: h)
qed

lemma inv_finish:
  assumes "inv s" "sy_deliveries s = ds1 @ dl # ds2" "dl_rest dl = []"
    and t: "t = s\<lparr>sy_q := persist (dl_hold dl) (dl_persist dl) (sy_q s), sy_deliveries := ds1 @ ds2\<rparr>"
  shows "inv t"
proof -
  have idl: "inv_delivery s" and ip: "inv_persist s" using assms(1) by (simp_all add: inv_def)
  have h: "holds t = holds s" "chans t = chans s" "sy_outcome t = sy_outcome s" "sy_waiters t = sy_waiters s"
    "q_items (sy_q t) = q_items (sy_q s)" "q_byKey (sy_q t) = q_byKey (sy_q s)" "sy_deliveries t = ds1 @ ds2"
    by (simp_all add: t persist_def split: option.splits prod.splits)
  have p: "q_persisted (sy_q t) = q_persisted (sy_q s)
      \<or> (\<exists>eff src. dl_persist dl = Some (eff, src)
           \<and> q_persisted (sy_q t) = q_persisted (sy_q s) @ [(dl_hold dl, eff, src)])"
    by (simp add: t persist_def split: option.splits prod.splits)
  have lv: "live (sy_q t) b = live (sy_q s) b" for b by (simp add: live_def h)
  have sv: "served t c = served s c" for c using assms(2,3) by (auto simp: served_def h)
  have d: "dl_hold dl < length (holds s)" "\<not> live (sy_q s) (dl_hold dl)"
    "sy_outcome s (dl_hold dl) = Some (dl_decision dl)" "dl_hold dl \<notin> fst ` set (q_persisted (sy_q s))"
    "\<And>eff src. dl_persist dl = Some (eff, src) \<Longrightarrow> operator_verdict eff (dl_decision dl)"
    "dl_hold dl \<notin> dl_hold ` (set ds1 \<union> set ds2)" "distinct (map dl_hold (ds1 @ ds2))"
    using idl assms(2) by (auto simp: inv_delivery_def)
  have "inv_queue (sy_q t)" "inv_chan t" "inv_hold t"
    using assms(1) by (simp_all add: inv_def inv_queue_def inv_chan_def inv_hold_def lv h)
  moreover have "inv_wait t"
    using assms(1) by (simp add: inv_def inv_wait_def lv h sv)
  moreover have "inv_persist t"
    using ip p d by (auto simp: inv_persist_def h lv)
  moreover have "inv_delivery t"
  proof -
    have "fst ` set (q_persisted (sy_q t)) \<subseteq> insert (dl_hold dl) (fst ` set (q_persisted (sy_q s)))"
      using p by auto
    moreover have "dl_hold x \<notin> fst ` set (q_persisted (sy_q s))" if "x \<in> set (sy_deliveries s)" for x
      using idl that by (simp add: inv_delivery_def)
    moreover have "dl_hold x \<noteq> dl_hold dl \<and> x \<in> set (sy_deliveries s)" if "x \<in> set (ds1 @ ds2)" for x
    proof -
      have "x \<in> set ds1 \<union> set ds2" using that by simp
      then have "dl_hold x \<in> dl_hold ` (set ds1 \<union> set ds2)" by (rule imageI)
      with d(6) that assms(2) show ?thesis by (metis set_append UnCI Un_iff list.set_intros(2))
    qed
    ultimately have "dl_hold x \<notin> fst ` set (q_persisted (sy_q t))" if "x \<in> set (ds1 @ ds2)" for x
      using that by blast
    moreover have "set (ds1 @ ds2) \<subseteq> set (sy_deliveries s)" using assms(2) by auto
    ultimately show ?thesis
      using idl d(7) unfolding inv_delivery_def h lv by blast
  qed
  ultimately show ?thesis by (simp add: inv_def)
qed

lemma inv_enqueue:
  assumes "inv s" "Enqueue newid now req base (sy_q s) = (q', Some (hid, c, co))"
    "newid \<notin> h_ID ` set (holds s)" "map_of (q_items q') hid = Some a"
  shows "inv (s\<lparr>sy_q := q', sy_waiters := sy_waiters s @
      [\<lparr>w_id = hid, w_ch = c, w_hold = a, w_state = Waiting\<rparr>]\<rparr>)"
proof -
  have iq: "inv_queue (sy_q s)" using assms(1) by (simp add: inv_def)
  note E = assms(2) [unfolded Enqueue_def Let_def live_key [OF iq]]
  show ?thesis
  proof (cases "q_byKey (sy_q s) (dedupKey req)")
    case None
    note new = inv_enqueue_new [OF assms(1) None assms(3) refl refl, where base = base and now = now]
    from E None assms(4) new show ?thesis by (auto split: if_splits)
  next
    case (Some b)
    then have lv: "live (sy_q s) b" using iq by (simp add: inv_queue_def)
    from inv_enqueue_same [OF assms(1) lv refl] live_lookup [OF iq lv] E Some assms(4) show ?thesis
      by auto
  qed
qed


lemma inv_sends:
  assumes "inv s" "sy_deliveries s = ds1 @ dl # ds2"
  shows "inv (s\<lparr>sy_q := fold (send (dl_decision dl)) (dl_rest dl) (sy_q s),
      sy_deliveries := ds1 @ dl\<lparr>dl_rest := []\<rparr> # ds2\<rparr>)"
  using assms
proof (induction "dl_rest dl" arbitrary: s dl)
  case Nil
  then have "dl\<lparr>dl_rest := []\<rparr> = dl" by (cases dl) simp
  with Nil have "s\<lparr>sy_deliveries := ds1 @ dl\<lparr>dl_rest := []\<rparr> # ds2\<rparr> = s" by (cases s) simp
  moreover have "fold (send (dl_decision dl)) (dl_rest dl) (sy_q s) = sy_q s" by (simp flip: Nil.hyps)
  moreover have "s\<lparr>sy_q := sy_q s, sy_deliveries := ds\<rparr> = s\<lparr>sy_deliveries := ds\<rparr>" for ds by simp
  ultimately show ?case using Nil.prems(1) by (simp only:)
next
  case (Cons c cs)
  let ?t = "s\<lparr>sy_q := send (dl_decision dl) c (sy_q s), sy_deliveries := ds1 @ dl\<lparr>dl_rest := cs\<rparr> # ds2\<rparr>"
  have "inv ?t" by (rule inv_send [OF Cons.prems Cons.hyps(2) [symmetric] refl])
  from Cons.hyps(1) [of "dl\<lparr>dl_rest := cs\<rparr>" ?t, simplified, OF this] show ?case
    by (simp flip: Cons.hyps(2))
qed

lemma send_frame:
  "send d c (q\<lparr>q_items := i, q_byKey := k\<rparr>) = (send d c q)\<lparr>q_items := i, q_byKey := k\<rparr>"
  by (simp add: send_def)

lemma send_keeps [simp]:
  "q_holds (send d c q) = q_holds q" "q_items (send d c q) = q_items q" "q_byKey (send d c q) = q_byKey q"
  by (simp_all add: send_def)

lemma sends_keep [simp]:
  "q_holds (fold (send d) cs q) = q_holds q" "q_items (fold (send d) cs q) = q_items q"
  "q_byKey (fold (send d) cs q) = q_byKey q"
  by (induction cs arbitrary: q) simp_all

lemma sends_frame:
  "fold (send d) cs (q\<lparr>q_items := i, q_byKey := k\<rparr>) = (fold (send d) cs q)\<lparr>q_items := i, q_byKey := k\<rparr>"
  by (induction cs arbitrary: q) (simp_all add: send_frame)

lemma mark_frame:
  "mark_resolved a (q\<lparr>q_items := i, q_byKey := k\<rparr>) = (mark_resolved a q)\<lparr>q_items := i, q_byKey := k\<rparr>"
  by (simp add: mark_resolved_def)

lemma broadcast_frame:
  "broadcast a d (q\<lparr>q_items := i, q_byKey := k\<rparr>) = (broadcast a d q)\<lparr>q_items := i, q_byKey := k\<rparr>"
  by (simp add: broadcast_def sends_frame)

lemma shutdown_hold_frame:
  "shutdown_hold x (q\<lparr>q_items := i, q_byKey := k\<rparr>) = (shutdown_hold x q)\<lparr>q_items := i, q_byKey := k\<rparr>"
  by (cases x) (simp add: shutdown_hold_def broadcast_frame mark_frame)

lemma shutdown_holds_frame:
  "fold shutdown_hold xs (q\<lparr>q_items := i, q_byKey := k\<rparr>) = (fold shutdown_hold xs q)\<lparr>q_items := i, q_byKey := k\<rparr>"
  by (induction xs arbitrary: q) (simp_all add: shutdown_hold_frame)

text \<open>\<open>Shutdown\<close> resolves its holds as so many claims, each followed by its sends.\<close>

lemma inv_shutdown:
  assumes "inv s"
  shows "inv (s\<lparr>sy_q := Shutdown (sy_q s), sy_outcome :=
    (\<lambda>a. if a \<in> snd ` set (q_items (sy_q s)) then Some shutdown_decision else sy_outcome s a)\<rparr>)"
  using assms
proof (induction "q_items (sy_q s)" arbitrary: s)
  case Nil
  have "inv_queue (sy_q s)" using Nil by (simp add: inv_def)
  with Nil(1) [symmetric] have "q_byKey (sy_q s) = (\<lambda>_. None)"
    by (auto simp: inv_queue_def fun_eq_iff) (metis not_None_eq)
  with Nil have "Shutdown (sy_q s) = sy_q s" by (simp add: Shutdown_def flip: Nil(1))
  with Nil show ?case by (simp flip: Nil(1))
next
  case (Cons x rest)
  obtain hid a where x: "x = (hid, a)" by (cases x)
  let ?q = "sy_q s"
  have iq: "inv_queue ?q" using Cons.prems by (simp add: inv_def)
  have m: "map_of (q_items ?q) hid = Some a" by (simp flip: Cons.hyps(2) add: x)
  then have "(hid, a) \<in> set (q_items ?q)" by (rule map_of_SomeD)
  with iq have lv: "live ?q a" by (simp add: inv_queue_def)
  obtain q' where cl: "claim hid ?q = (q', Some a)"
    using m lv by (auto simp: claim_def Let_def live_def)
  note c = claim_Some [OF iq cl]
  have del: "adel hid (q_items ?q) = rest"
  proof -
    have "hid \<notin> fst ` set rest" using iq by (simp add: inv_queue_def x flip: Cons.hyps(2))
    then have "\<forall>y \<in> set rest. fst y \<noteq> hid" by (metis imageI)
    then show ?thesis
      by (simp add: adel_def x filter_id_conv case_prod_beta flip: Cons.hyps(2))
  qed
  let ?d = "shutdown_decision"
  define s1 where "s1 = begin_delivery ByShutdown a q' s"
  define dl where "dl = \<lparr>dl_hold = a, dl_rest = h_waiters (holds s ! a), dl_decision = ?d, dl_persist = None\<rparr>"
  have i1: "inv s1" unfolding s1_def by (rule inv_begin_delivery [OF Cons.prems cl]) simp
  have d1: "sy_deliveries s1 = sy_deliveries s @ dl # []"
    by (simp add: s1_def dl_def begin_delivery_def Let_def)
  define s2 where "s2 = s1\<lparr>sy_q := fold (send ?d) (dl_rest dl) (sy_q s1),
      sy_deliveries := sy_deliveries s @ dl\<lparr>dl_rest := []\<rparr> # []\<rparr>"
  have i2: "inv s2" using inv_sends [OF i1 d1] by (simp add: s2_def dl_def)
  define s3 where "s3 = s2\<lparr>sy_q := persist (dl_hold dl) None (sy_q s2), sy_deliveries := sy_deliveries s\<rparr>"
  have "inv s3"
    using inv_finish [OF i2, of "sy_deliveries s" "dl\<lparr>dl_rest := []\<rparr>" "[]"] by (simp add: s2_def s3_def dl_def)
  moreover have q3: "sy_q s3 = (shutdown_hold (hid, a) ?q)\<lparr>q_items := rest,
      q_byKey := (q_byKey ?q)(h_dedupKey (holds s ! a) := None)\<rparr>"
  proof -
    have "\<not> h_resolved (holds s ! a)" using lv by (simp add: live_def)
    moreover have "h_waiters ((holds s)[a := (holds s ! a)\<lparr>h_resolved := True\<rparr>] ! a) = h_waiters (holds s ! a)"
      using lv by (simp add: live_def)
    ultimately show ?thesis
      by (simp add: s3_def s2_def s1_def persist_def begin_delivery_def Let_def dl_def c(3) del
          shutdown_hold_def broadcast_def mark_resolved_def flip: sends_frame)
  qed
  have rest3: "rest = q_items (sy_q s3)" by (simp add: q3)
  have sh: "Shutdown (sy_q s3) = Shutdown ?q"
    unfolding Shutdown_def q3 shutdown_holds_frame by (simp add: x flip: Cons.hyps(2))
  have t: "s3\<lparr>sy_q := Shutdown (sy_q s3), sy_outcome :=
        (\<lambda>b. if b \<in> snd ` set rest then Some ?d else sy_outcome s3 b)\<rparr>
      = s\<lparr>sy_q := Shutdown ?q, sy_outcome :=
        (\<lambda>b. if b \<in> snd ` set (x # rest) then Some ?d else sy_outcome s b)\<rparr>"
    unfolding sh by (auto simp: s3_def s2_def s1_def begin_delivery_def Let_def x fun_eq_iff)
  from Cons.hyps(1) [OF rest3 \<open>inv s3\<close>] t show ?case
    by (simp flip: rest3 Cons.hyps(2))
qed

lemma claimed_own:
  assumes "inv s" "i < length (sy_waiters s)" "claim (w_id (sy_waiters s ! i)) (sy_q s) = (q', Some a)"
  shows "w_hold (sy_waiters s ! i) = a"
proof -
  have iq: "inv_queue (sy_q s)" and ic: "inv_chan s" using assms(1) by (simp_all add: inv_def)
  from claim_Some [OF iq assms(3)] have "a < length (holds s)" "h_ID (holds s ! a) = w_id (sy_waiters s ! i)"
    by (simp_all add: live_def)
  moreover have "w_hold (sy_waiters s ! i) < length (holds s)"
    "w_id (sy_waiters s ! i) = h_ID (holds s ! w_hold (sy_waiters s ! i))"
    using ic assms(2) by (simp_all add: inv_chan_def Let_def)
  ultimately show ?thesis using same_id [OF iq] by metis
qed

text \<open>A waiter that finds its hold claimed has its decision, or it is on the way.\<close>

lemma lost_race:
  assumes "inv s" "i < length (sy_waiters s)" "w_state (sy_waiters s ! i) = Waiting"
    and "claim (w_id (sy_waiters s ! i)) (sy_q s) = (q', None)
      \<or> cancelWaiter (w_id (sy_waiters s ! i)) c (sy_q s) = (q', None)"
  shows "served s i"
proof (rule ccontr)
  assume ns: "\<not> served s i"
  have iq: "inv_queue (sy_q s)" and ic: "inv_chan s" and iw: "inv_wait s" using assms(1) by (simp_all add: inv_def)
  have i: "i < length (chans s)" using ic assms(2) by (simp add: inv_chan_def)
  then have "wait_ok s i" using iw by (simp add: inv_wait_iff)
  with ns assms(3) have lv: "live (sy_q s) (w_hold (sy_waiters s ! i))"
    by (simp add: wait_ok_def Let_def)
  moreover have "w_id (sy_waiters s ! i) = h_ID (holds s ! w_hold (sy_waiters s ! i))"
    using ic i by (simp add: inv_chan_def Let_def)
  ultimately have "map_of (q_items (sy_q s)) (w_id (sy_waiters s ! i)) = Some (w_hold (sy_waiters s ! i))"
    using live_lookup [OF iq] by simp
  with lv assms(4) show False
    by (auto simp: claim_def cancelWaiter_def Let_def live_def split: if_splits)
qed

lemma inv_step:
  assumes "inv s" "sys_step s t"
  shows "inv t"
  using assms(2,1)
proof (cases rule: sys_step.cases)
  case (enqueue newid now req base q' hid c co a)
  with assms(1) show ?thesis by (auto intro: inv_enqueue)
next
  case (resolver_claims hid q' a r)
  then show ?thesis
    by (auto intro!: inv_begin_delivery [OF assms(1)]
        simp: operator_verdict_def approve_decision_def deny_decision_def elim: resolver_persist.elims)
next
  case (sends ds1 dl ds2 c cs)
  then show ?thesis using inv_send [OF assms(1)] by blast
next
  case (finishes ds1 dl ds2)
  then show ?thesis using inv_finish [OF assms(1)] by blast
next
  case (timer_wins i q' a d duration)
  let ?t = "begin_delivery (ByTimeout d) a q' s"
  have "inv ?t" by (rule inv_begin_delivery [OF assms(1) timer_wins(3)]) simp
  moreover have "sy_outcome ?t (w_hold (sy_waiters ?t ! i)) = Some d"
    using claimed_own [OF assms(1) _ timer_wins(3)] timer_wins(2)
    by (simp add: begin_delivery_def Let_def waiting_def)
  moreover have "i < length (sy_waiters ?t)"
    using timer_wins(2) by (simp add: begin_delivery_def Let_def waiting_def)
  ultimately show ?thesis unfolding timer_wins(1) by (intro inv_set_state) auto
next
  case (timer_loses i q')
  then have "q' = sy_q s" by (simp add: claim_None)
  moreover have "served s i"
    using lost_race [OF assms(1), where c = 0] timer_loses by (auto simp: waiting_def)
  ultimately show ?thesis using timer_loses by (auto simp: waiting_def intro!: inv_set_state [OF assms(1)])
next
  case (client_leaves i q' x)
  let ?s = "set_state i (Returned disconnect_decision) s"
  have i: "i < length (sy_waiters s)" using client_leaves(2) by (simp add: waiting_def)
  then have "inv ?s" by (intro inv_set_state [OF assms(1)]) simp_all
  moreover have "i < length (chans ?s)" "w_ch (sy_waiters s ! i) = i"
    using assms(1) i by (simp_all add: inv_def inv_chan_def Let_def)
  ultimately have "inv (?s\<lparr>sy_q := q'\<rparr>)"
    using inv_cancel [of ?s i disconnect_decision] client_leaves(3) i by simp
  then show ?thesis by (simp only: client_leaves(1) set_state_q)
next
  case (client_loses i q')
  then have "q' = sy_q s"
    by (auto simp: cancelWaiter_def Let_def split: option.splits if_splits)
  moreover have "served s i"
    using lost_race [OF assms(1), where c = "w_ch (sy_waiters s ! i)"] client_loses by (auto simp: waiting_def)
  ultimately show ?thesis using client_loses
    by (auto simp: waiting_def intro!: inv_set_state [OF assms(1)])
next
  case (receives i st d)
  let ?s = "set_state i (Returned d) s"
  have i: "i < length (sy_waiters s)" using receives(2) by (simp add: waiting_def)
  then have c: "i < length (chans s)" "w_ch (sy_waiters s ! i) = i"
    using assms(1) by (simp_all add: inv_def inv_chan_def Let_def)
  have "wait_ok s i" using assms(1) c(1) by (simp add: inv_def inv_wait_iff)
  with receives(4) c(2) have "sy_outcome s (w_hold (sy_waiters s ! i)) = Some d"
    by (simp add: wait_ok_def Let_def)
  with i have inv: "inv ?s" by (intro inv_set_state [OF assms(1)]) simp_all
  have st: "w_state (sy_waiters ?s ! i) = Returned d" "i < length (chans ?s)" using i c(1) by simp_all
  have t: "t = ?s\<lparr>sy_q := (sy_q s)\<lparr>q_chans := (chans s)[i := None]\<rparr>\<rparr>"
    unfolding receives(1) c(2) by (rule set_state_q)
  show ?thesis unfolding t using inv_clear [OF inv st(2,1)] by (simp only: set_state_sel(1))
next
  case (reconfigures m tm ot)
  let ?q = "Reconfigure m tm ot (sy_q s)"
  have f: "q_holds ?q = holds s" "q_chans ?q = chans s" "q_items ?q = q_items (sy_q s)"
    "q_byKey ?q = q_byKey (sy_q s)" "q_persisted ?q = q_persisted (sy_q s)"
    by (simp_all add: Reconfigure_def Let_def)
  have lv: "live ?q = live (sy_q s)" by (simp add: live_def fun_eq_iff f)
  have iq: "inv_queue ?q" using assms(1) by (simp add: inv_def inv_queue_def f lv)
  have "inv_wait t" using assms(1) by (simp add: reconfigures inv_def inv_wait_def served_def f lv)
  with assms(1) iq show ?thesis
    by (simp add: reconfigures inv_def inv_chan_def inv_hold_def inv_delivery_def inv_persist_def f lv)
next
  case shuts_down
  then show ?thesis using inv_shutdown [OF assms(1)] by simp
qed


lemma reachable_inv: "reachable s \<Longrightarrow> inv s"
  by (induction rule: reachable.induct) (auto intro: inv_initial inv_step)

section \<open>Runs\<close>

text \<open>Delivering without interruption is the loop of \<open>broadcast\<close>.\<close>

lemma sends_run:
  assumes "sy_deliveries s = ds1 @ dl # ds2"
  shows "sys_step\<^sup>*\<^sup>* s (s\<lparr>sy_q := fold (send (dl_decision dl)) (dl_rest dl) (sy_q s),
      sy_deliveries := ds1 @ dl\<lparr>dl_rest := []\<rparr> # ds2\<rparr>)"
  using assms
proof (induction "dl_rest dl" arbitrary: s dl)
  case Nil
  then have "dl\<lparr>dl_rest := []\<rparr> = dl" by (cases dl) simp
  with Nil have "s\<lparr>sy_deliveries := ds1 @ dl\<lparr>dl_rest := []\<rparr> # ds2\<rparr> = s" by (cases s) simp
  moreover have "fold (send (dl_decision dl)) (dl_rest dl) (sy_q s) = sy_q s" by (simp flip: Nil.hyps)
  moreover have "s\<lparr>sy_q := sy_q s, sy_deliveries := ds\<rparr> = s\<lparr>sy_deliveries := ds\<rparr>" for ds by simp
  ultimately show ?case by (simp only: rtranclp.rtrancl_refl)
next
  case (Cons c cs)
  let ?t = "s\<lparr>sy_q := send (dl_decision dl) c (sy_q s), sy_deliveries := ds1 @ dl\<lparr>dl_rest := cs\<rparr> # ds2\<rparr>"
  have "sys_step s ?t" by (rule sys_step.sends [OF Cons.prems Cons.hyps(2) [symmetric]])
  moreover from Cons.hyps(1) [of "dl\<lparr>dl_rest := cs\<rparr>" ?t, simplified]
  have "sys_step\<^sup>*\<^sup>* ?t (s\<lparr>sy_q := fold (send (dl_decision dl)) (dl_rest dl) (sy_q s),
      sy_deliveries := ds1 @ dl\<lparr>dl_rest := []\<rparr> # ds2\<rparr>)"
    by (simp flip: Cons.hyps(2))
  ultimately show ?case by (rule converse_rtranclp_into_rtranclp)
qed

lemma send_once: "q_chans (send d c q) ! b = (if b = c \<and> c < length (q_chans q) \<and> q_chans q ! c = None then Some d else q_chans q ! b)"
  by (auto simp: send_def waiter_update)

lemma sends_deliver:
  "\<forall>c \<in> set cs. c < length (q_chans q) \<Longrightarrow> b \<in> set cs \<Longrightarrow> q_chans (fold (send d) cs q) ! b \<noteq> None"
proof -
  have keep: "q_chans q ! b \<noteq> None \<Longrightarrow> q_chans (fold (send d) cs q) ! b \<noteq> None" for cs q
    by (induction cs arbitrary: q) (simp_all add: send_once)
  have len: "length (q_chans (send d c q)) = length (q_chans q)" for c q by (simp add: send_def)
  show "\<forall>c \<in> set cs. c < length (q_chans q) \<Longrightarrow> b \<in> set cs \<Longrightarrow> ?thesis"
  proof (induction cs arbitrary: q)
    case (Cons c cs)
    show ?case
    proof (cases "b = c")
      case True
      with Cons.prems have "q_chans (send d c q) ! b \<noteq> None" by (simp add: send_once)
      from keep [OF this] show ?thesis by simp
    next
      case False
      with Cons show ?thesis by (simp add: len)
    qed
  qed simp
qed

definition returned :: "system \<Rightarrow> nat \<Rightarrow> bool" where
  "returned s i \<longleftrightarrow> i < length (sy_waiters s) \<and> (\<exists>d. w_state (sy_waiters s ! i) = Returned d)"

lemma receive_run:
  assumes "inv s" "i < length (sy_waiters s)" "w_state (sy_waiters s ! i) = Draining" "chans s ! i \<noteq> None"
  shows "\<exists>t. sys_step s t \<and> returned t i"
proof -
  obtain d where d: "chans s ! i = Some d" using assms(4) by blast
  have "w_ch (sy_waiters s ! i) = i" using assms(1,2) by (simp add: inv_def inv_chan_def Let_def)
  with sys_step.receives [of i Draining s d] assms(2,3) d show ?thesis
    by (intro exI conjI) (auto simp: waiting_def returned_def)
qed

lemma draining_returns:
  assumes "inv s" "i < length (sy_waiters s)" "w_state (sy_waiters s ! i) = Draining"
  shows "\<exists>t. sys_step\<^sup>*\<^sup>* s t \<and> returned t i"
proof -
  have i: "i < length (chans s)" using assms(1,2) by (simp add: inv_def inv_chan_def)
  then have "wait_ok s i" using assms(1) by (simp add: inv_def inv_wait_iff)
  with assms(3) have sv: "served s i" by (simp add: wait_ok_def Let_def)
  show ?thesis
  proof (cases "chans s ! i = None")
    case False
    with receive_run [OF assms] show ?thesis by blast
  next
    case True
    with sv obtain dl where dl: "dl \<in> set (sy_deliveries s)" "i \<in> set (dl_rest dl)"
      by (auto simp: served_def)
    then obtain ds1 ds2 where ds: "sy_deliveries s = ds1 @ dl # ds2" by (meson split_list)
    define t where "t = s\<lparr>sy_q := fold (send (dl_decision dl)) (dl_rest dl) (sy_q s),
      sy_deliveries := ds1 @ dl\<lparr>dl_rest := []\<rparr> # ds2\<rparr>"
    have "\<forall>c \<in> set (dl_rest dl). c < length (chans s)"
      using assms(1) dl(1) by (simp add: inv_def inv_delivery_def)
    then have "chans t ! i \<noteq> None" using sends_deliver dl(2) by (simp add: t_def)
    moreover have "inv t" unfolding t_def by (rule inv_sends [OF assms(1) ds])
    moreover have "sy_waiters t = sy_waiters s" by (simp add: t_def)
    moreover have "sys_step\<^sup>*\<^sup>* s t" unfolding t_def by (rule sends_run [OF ds])
    ultimately show ?thesis
      using receive_run [of t i] assms(2,3) by (metis rtranclp.rtrancl_into_rtrancl)
  qed
qed

text \<open>
  C27: no call of \<open>Wait\<close> is stuck. From every reachable state, whatever the interleaving that
  led to it, every waiter that has not returned can still return: a waiter whose timer or
  disconnection lost the race to a resolver, and that blocks on its channel, finds its decision
  there or a delivery in flight that will put it there.
\<close>

theorem every_wait_can_return:
  assumes "reachable s" "i < length (sy_waiters s)"
  shows "\<exists>t. sys_step\<^sup>*\<^sup>* s t \<and> returned t i"
proof (cases "w_state (sy_waiters s ! i)")
  case (Returned d)
  then show ?thesis using assms(2) by (auto simp: returned_def)
next
  case Draining
  then show ?thesis using draining_returns [OF reachable_inv [OF assms(1)] assms(2)] by blast
next
  case Waiting
  note inv = reachable_inv [OF assms(1)]
  have w: "waiting i Waiting s" using assms(2) Waiting by (simp add: waiting_def)
  obtain q' r where cl: "claim (w_id (sy_waiters s ! i)) (sy_q s) = (q', r)" by (cases "claim (w_id (sy_waiters s ! i)) (sy_q s)")
  show ?thesis
  proof (cases r)
    case (Some a)
    with sys_step.timer_wins [OF w, of q' a _ "\<lambda>_. []"] cl assms(2) show ?thesis
      by (intro exI conjI r_into_rtranclp) (auto simp: returned_def begin_delivery_def Let_def)
  next
    case None
    let ?t = "set_state i Draining (s\<lparr>sy_q := q'\<rparr>)"
    have st: "sys_step s ?t" using sys_step.timer_loses [OF w] cl None by blast
    have "\<exists>u. sys_step\<^sup>*\<^sup>* ?t u \<and> returned u i"
      by (rule draining_returns [OF inv_step [OF inv st]]) (use assms(2) in simp_all)
    with st show ?thesis by (meson converse_rtranclp_into_rtranclp)
  qed
qed




section \<open>A concrete run\<close>

text \<open>Two identical requests coalesce, the daemon shuts down, both waiters collect the denial.\<close>

definition demo_request :: request_event where
  "demo_request = zero_request\<lparr>ev_Host := ''a.com''\<rparr>"

definition demo_start :: system where
  "demo_start = \<lparr>sy_q = (NewQueue 0 minute [])\<lparr>q_persistCb := True\<rparr>, sy_deliveries = [], sy_waiters = [],
     sy_outcome = (\<lambda>_. None)\<rparr>"

definition demo_waiter :: "nat \<Rightarrow> waiter" where
  "demo_waiter c = \<lparr>w_id = ''hold-1'', w_ch = c, w_hold = 0, w_state = Waiting\<rparr>"

definition demo_one :: system where
  "demo_one = demo_start\<lparr>sy_q := fst (Enqueue ''hold-1'' 5 demo_request zero_decision (sy_q demo_start)),
     sy_waiters := [demo_waiter 0]\<rparr>"

definition demo_two :: system where
  "demo_two = demo_one\<lparr>sy_q := fst (Enqueue ''hold-2'' 6 demo_request zero_decision (sy_q demo_one)),
     sy_waiters := [demo_waiter 0, demo_waiter 1]\<rparr>"

definition demo_down :: system where
  "demo_down = demo_two\<lparr>sy_q := Shutdown (sy_q demo_two), sy_outcome :=
     (\<lambda>a. if a \<in> snd ` set (q_items (sy_q demo_two)) then Some shutdown_decision else sy_outcome demo_two a)\<rparr>"

definition demo_receive :: "nat \<Rightarrow> system \<Rightarrow> system" where
  "demo_receive i s = set_state i (Returned shutdown_decision)
     (s\<lparr>sy_q := (sy_q s)\<lparr>q_chans := (chans s)[i := None]\<rparr>\<rparr>)"

lemmas demo_defs = demo_one_def demo_two_def demo_start_def demo_down_def demo_waiter_def
  Enqueue_def NewQueue_def Let_def

lemma demo_start_reachable: "reachable demo_start"
  by (rule reachable.start) (auto simp: initial_def demo_start_def intro!: exI)

lemma demo_one_reachable: "reachable demo_one"
proof -
  have e: "Enqueue ''hold-1'' 5 demo_request zero_decision (sy_q demo_start)
      = (sy_q demo_one, Some (''hold-1'', 0, False))" "map_of (q_items (sy_q demo_one)) ''hold-1'' = Some 0"
    "''hold-1'' \<notin> h_ID ` set (holds demo_start)"
    by (simp_all add: demo_defs)
  have "demo_one = demo_start\<lparr>sy_q := sy_q demo_one, sy_waiters := sy_waiters demo_start @ [demo_waiter 0]\<rparr>"
    by (simp add: demo_one_def) (simp add: demo_start_def)
  with sys_step.enqueue [OF e(1,3,2)] demo_start_reachable show ?thesis
    by (metis demo_waiter_def reachable.next_step)
qed

lemma demo_two_reachable: "reachable demo_two"
proof -
  have e: "Enqueue ''hold-2'' 6 demo_request zero_decision (sy_q demo_one)
      = (sy_q demo_two, Some (''hold-1'', 1, True))" "map_of (q_items (sy_q demo_two)) ''hold-1'' = Some 0"
    "''hold-2'' \<notin> h_ID ` set (holds demo_one)"
    by (simp_all add: demo_defs)
  have "demo_two = demo_one\<lparr>sy_q := sy_q demo_two, sy_waiters := sy_waiters demo_one @ [demo_waiter 1]\<rparr>"
    by (simp add: demo_two_def) (simp add: demo_one_def)
  with sys_step.enqueue [OF e(1,3,2)] demo_one_reachable show ?thesis
    by (metis demo_waiter_def reachable.next_step)
qed

lemma demo_down_chans: "chans demo_down = [Some shutdown_decision, Some shutdown_decision]"
  by (simp add: demo_defs Shutdown_def shutdown_hold_def broadcast_def mark_resolved_def send_def)

lemma demo_down_waiters: "sy_waiters demo_down = [demo_waiter 0, demo_waiter 1]"
  by (simp add: demo_down_def demo_two_def)

definition demo_end :: system where "demo_end = demo_receive 1 (demo_receive 0 demo_down)"

lemma demo_end_reachable: "reachable demo_end"
proof -
  have "sys_step demo_two demo_down" unfolding demo_down_def by (rule sys_step.shuts_down)
  moreover have "sys_step demo_down (demo_receive 0 demo_down)"
    using sys_step.receives [of 0 Waiting demo_down shutdown_decision]
    by (simp add: waiting_def demo_down_waiters demo_down_chans demo_waiter_def demo_receive_def)
  moreover have "sys_step (demo_receive 0 demo_down) demo_end"
    using sys_step.receives [of 1 Waiting "demo_receive 0 demo_down" shutdown_decision]
    by (simp add: waiting_def demo_down_waiters demo_down_chans demo_waiter_def demo_receive_def demo_end_def)
  ultimately show ?thesis using demo_two_reachable by (blast intro: reachable.next_step)
qed

lemma demo_end_waiters:
  "sy_waiters demo_end = map (\<lambda>c. (demo_waiter c)\<lparr>w_state := Returned shutdown_decision\<rparr>) [0, 1]"
  by (simp add: demo_end_def demo_receive_def demo_down_waiters)

theorem every_wait_can_return_witness: "\<exists>t. sys_step\<^sup>*\<^sup>* demo_two t \<and> returned t 1"
  by (rule every_wait_can_return [OF demo_two_reachable]) (simp add: demo_two_def)




section \<open>The functions of the queue are runs of the system\<close>

lemma resolve_run:
  assumes "resolve hid (resolver_decision r) (resolver_persist r) (sy_q s) = (q', ok)"
  shows "\<exists>out. sys_step\<^sup>*\<^sup>* s (s\<lparr>sy_q := q', sy_outcome := out\<rparr>)"
proof (cases "claim hid (sy_q s)")
  case (Pair q1 res)
  show ?thesis
  proof (cases res)
    case None
    with Pair assms have "q' = sy_q s" by (simp add: resolve_def claim_None)
    then have "s\<lparr>sy_q := q', sy_outcome := sy_outcome s\<rparr> = s" by simp
    then show ?thesis by (metis rtranclp.rtrancl_refl)
  next
    case (Some a)
    have keep: "q_holds q1 ! a = (holds s ! a)\<lparr>h_resolved := True\<rparr> \<or> q_holds q1 ! a = holds s ! a"
      "resolver_decision r (h\<lparr>h_resolved := True\<rparr>) = resolver_decision r h" for h
      using Pair Some by (auto simp: claim_def Let_def waiter_update split: option.splits if_splits)
        (cases r; simp add: approve_decision_def deny_decision_def advisor_decision_def)
    define dl where "dl = \<lparr>dl_hold = a, dl_rest = h_waiters (holds s ! a),
      dl_decision = resolver_decision r (holds s ! a), dl_persist = resolver_persist r\<rparr>"
    define s1 where "s1 = begin_delivery r a q1 s"
    have run1: "sys_step s s1" unfolding s1_def using sys_step.resolver_claims Pair Some by simp
    have d1: "sy_deliveries s1 = sy_deliveries s @ dl # []"
      by (simp add: s1_def dl_def begin_delivery_def Let_def)
    define s2 where "s2 = s1\<lparr>sy_q := fold (send (dl_decision dl)) (dl_rest dl) (sy_q s1),
        sy_deliveries := sy_deliveries s @ dl\<lparr>dl_rest := []\<rparr> # []\<rparr>"
    have run2: "sys_step\<^sup>*\<^sup>* s1 s2" unfolding s2_def by (rule sends_run [OF d1])
    define s3 where "s3 = s2\<lparr>sy_q := persist a (resolver_persist r) (sy_q s2), sy_deliveries := sy_deliveries s @ []\<rparr>"
    have run3: "sys_step s2 s3"
      unfolding s3_def using sys_step.finishes [of s2 "sy_deliveries s" "dl\<lparr>dl_rest := []\<rparr>" "[]"]
      by (simp add: s2_def dl_def)
    have "q' = persist a (resolver_persist r) (sy_q s2)"
      using assms Pair Some keep
      by (auto simp: resolve_def broadcast_def s2_def s1_def begin_delivery_def Let_def dl_def)
    then have "s3 = s\<lparr>sy_q := q', sy_outcome := sy_outcome s3\<rparr>"
      by (simp add: s3_def s2_def s1_def begin_delivery_def Let_def)
    moreover have "sys_step\<^sup>*\<^sup>* s s3"
      by (rule rtranclp.rtrancl_into_rtrancl [OF converse_rtranclp_into_rtranclp [OF run1 run2] run3])
    ultimately have "sys_step\<^sup>*\<^sup>* s (s\<lparr>sy_q := q', sy_outcome := sy_outcome s3\<rparr>)" by (simp only:)
    then show ?thesis by (intro exI [of _ "sy_outcome s3"])
  qed
qed



section \<open>Coalescing\<close>

definition keys_list :: "hold list \<Rightarrow> bool" where
  "keys_list hs \<longleftrightarrow> (\<forall>h \<in> set hs. h_dedupKey h = dedupKey (h_Request h))"

abbreviation "keys_ok q \<equiv> keys_list (q_holds q)"

lemma keys_update [intro!]:
  assumes "keys_list hs" "h_dedupKey h' = h_dedupKey (hs ! a)" "h_Request h' = h_Request (hs ! a)"
  shows "keys_list (hs[a := h'])"
proof (cases "a < length hs")
  case True
  then have "h_dedupKey (hs ! a) = dedupKey (h_Request (hs ! a))" using assms(1) by (simp add: keys_list_def)
  with assms show ?thesis
    by (auto simp: keys_list_def dest!: set_update_subset_insert [THEN subsetD])
qed (simp add: assms(1) list_update_beyond)

lemma keys_claim: "keys_ok q \<Longrightarrow> claim hid q = (q', r) \<Longrightarrow> keys_ok q'"
  by (auto simp: claim_def Let_def split: option.splits if_splits)

lemma keys_cancel: "keys_ok q \<Longrightarrow> cancelWaiter hid c q = (q', r) \<Longrightarrow> keys_ok q'"
  by (auto simp: cancelWaiter_def Let_def split: option.splits if_splits)

lemma keys_enqueue: "keys_ok q \<Longrightarrow> Enqueue i now req base q = (q', r) \<Longrightarrow> keys_ok q'"
  by (auto simp: Enqueue_def Let_def split: option.splits if_splits) (auto simp: keys_list_def)

lemma keys_shutdown: "keys_ok q \<Longrightarrow> keys_ok (Shutdown q)"
proof -
  have "keys_ok q \<Longrightarrow> keys_ok (shutdown_hold x q)" for x q
    by (cases x) (auto simp: shutdown_hold_def broadcast_def mark_resolved_def)
  then have "keys_ok q \<Longrightarrow> keys_ok (fold shutdown_hold xs q)" for xs q
    by (induction xs arbitrary: q) auto
  then show "keys_ok q \<Longrightarrow> keys_ok (Shutdown q)" by (simp add: Shutdown_def)
qed

lemma keys_step:
  assumes "sys_step s t" "keys_ok (sy_q s)"
  shows "keys_ok (sy_q t)"
  using assms
proof (cases rule: sys_step.cases)
  case (finishes ds1 dl ds2)
  with assms(2) show ?thesis by (simp add: persist_def split: option.split prod.split)
next
  case (reconfigures m tm ot)
  with assms(2) show ?thesis by (simp add: Reconfigure_def Let_def)
qed (auto simp: begin_delivery_def Let_def set_state_def keys_shutdown
      intro: keys_claim keys_cancel keys_enqueue)

lemma reachable_keys: "reachable s \<Longrightarrow> keys_ok (sy_q s)"
proof (induction rule: reachable.induct)
  case (start s)
  then show ?case by (auto simp: initial_def NewQueue_def keys_list_def)
qed (rule keys_step)

text \<open>
  C33: coalescing. With NUL-free identity, method, scheme and host (the path may hold anything),
  \<open>Enqueue\<close> coalesces exactly when a request for the same target is still held, and then onto
  that hold, also when the queue is full; otherwise it mints a hold and stays within the
  capacity, or reports a full queue and changes nothing.
\<close>

theorem Enqueue_outcome:
  assumes "reachable s" "nul_free req" "\<forall>h \<in> set (holds s). nul_free (h_Request h)"
  shows "case Enqueue newid now req base (sy_q s) of
      (q', Some (hid, c, True)) \<Rightarrow> \<exists>a. live (sy_q s) a \<and> same_target (h_Request (holds s ! a)) req
        \<and> h_ID (holds s ! a) = hid \<and> c \<in> set (h_waiters (q_holds q' ! a)) \<and> q_items q' = q_items (sy_q s)
    | (q', Some (hid, c, False)) \<Rightarrow> hid = newid
        \<and> (\<forall>a. live (sy_q s) a \<longrightarrow> \<not> same_target (h_Request (holds s ! a)) req)
        \<and> int (length (q_items q')) \<le> q_maxPending (sy_q s)
    | (q', None) \<Rightarrow> q' = sy_q s
        \<and> (\<forall>a. live (sy_q s) a \<longrightarrow> \<not> same_target (h_Request (holds s ! a)) req)
        \<and> q_maxPending (sy_q s) \<le> int (length (q_items (sy_q s)))"
proof -
  have iq: "inv_queue (sy_q s)" using reachable_inv [OF assms(1)] by (simp add: inv_def)
  have key: "h_dedupKey (holds s ! a) = dedupKey req \<longleftrightarrow> same_target (h_Request (holds s ! a)) req"
    if "live (sy_q s) a" for a
    using reachable_keys [OF assms(1)] assms(2,3) dedupKey_inj that by (simp add: keys_list_def live_def)
  have len: "length (aput k v m) \<le> Suc (length m)" for k v and m :: "(string \<times> nat) list"
    by (induction m) auto
  show ?thesis
  proof (cases "q_byKey (sy_q s) (dedupKey req)")
    case None
    then have "\<forall>a. live (sy_q s) a \<longrightarrow> \<not> same_target (h_Request (holds s ! a)) req"
      using iq key by (metis inv_queue_def option.distinct(1))
    with None len [of newid "length (holds s)" "q_items (sy_q s)"] show ?thesis
      by (simp add: Enqueue_def Let_def)
  next
    case (Some a)
    then have "live (sy_q s) a" "h_dedupKey (holds s ! a) = dedupKey req"
      using iq by (simp_all add: inv_queue_def)
    with Some key show ?thesis
      by (auto simp: Enqueue_def Let_def live_def)
  qed
qed

theorem Enqueue_outcome_witness:
  "\<exists>a. live (sy_q demo_one) a \<and> same_target (h_Request (holds demo_one ! a)) demo_request"
proof -
  have h: "nul_free demo_request" "\<forall>h \<in> set (holds demo_one). nul_free (h_Request h)"
    by (simp_all add: demo_defs nul_free_def demo_request_def zero_request_def)
  have e: "Enqueue ''hold-2'' 6 demo_request zero_decision (sy_q demo_one)
      = (sy_q demo_two, Some (''hold-1'', 1, True))"
    by (simp add: demo_defs)
  from Enqueue_outcome [OF demo_one_reachable h, of "''hold-2''" 6 zero_decision]
  show ?thesis unfolding e by auto
qed

end
