(* ===== verification/ReloadStatus.thy ===== *)
theory ReloadStatus
  imports Prelude
begin

text \<open>
  \<open>internal/reloadstatus/reloadstatus.go\<close>: the outcome of the last reload of each source, for the
  console's badge. The clock is an argument; an error is its text.
\<close>

record status =
  rs_LastError :: string
  rs_LastAt :: int
  rs_LastSource :: string
  rs_FailingSources :: "string list"

definition zero_status :: status where
  "zero_status = \<lparr>rs_LastError = [], rs_LastAt = 0, rs_LastSource = [], rs_FailingSources = []\<rparr>"

record reload_tracker =
  rt_sources :: "(string \<times> status) list"
  rt_mostRecent :: status

definition zero_tracker :: reload_tracker where
  "zero_tracker = \<lparr>rt_sources = [], rt_mostRecent = zero_status\<rparr>"

definition RecordReload :: "int \<Rightarrow> string \<Rightarrow> string option \<Rightarrow> reload_tracker \<Rightarrow> reload_tracker" where
  "RecordReload now source err t =
     (let s = zero_status\<lparr>rs_LastAt := now, rs_LastSource := source\<rparr>;
          s = (case err of Some e \<Rightarrow> s\<lparr>rs_LastError := e\<rparr> | None \<Rightarrow> s)
      in t\<lparr>rt_sources := aput source s (rt_sources t), rt_mostRecent := s\<rparr>)"

definition FailingSources :: "reload_tracker \<Rightarrow> string list" where
  "FailingSources t = sort_strings (map fst (filter (\<lambda>(_, s). rs_LastError s \<noteq> []) (rt_sources t)))"

definition GetStatus :: "reload_tracker \<Rightarrow> status" where
  "GetStatus t =
     (let failing = map fst (filter (\<lambda>(_, s). rs_LastError s \<noteq> []) (rt_sources t))
      in if 0 < length failing then (rt_mostRecent t)\<lparr>rs_FailingSources := sort_strings failing\<rparr>
         else rt_mostRecent t)"

definition Sources :: "reload_tracker \<Rightarrow> (string \<times> status) list" where
  "Sources t = (if rt_sources t = [] then [] else rt_sources t)"

type_synonym attempt = "int \<times> string \<times> string option"

definition attempts_run :: "attempt list \<Rightarrow> reload_tracker" where
  "attempts_run as = fold (\<lambda>(now, src, err). RecordReload now src err) as zero_tracker"

text \<open>The last attempt at a source.\<close>

definition last_attempt :: "attempt list \<Rightarrow> string \<Rightarrow> attempt option" where
  "last_attempt as src = find (\<lambda>(_, src', _). src' = src) (rev as)"

lemma attempts_run_snoc: "attempts_run (as @ [(now, src, err)]) = RecordReload now src err (attempts_run as)"
  by (simp add: attempts_run_def)

lemma attempts_run_Nil: "attempts_run [] = zero_tracker"
  by (simp add: attempts_run_def)

lemma last_attempt_snoc:
  "last_attempt (as @ [(now, src', err)]) src = (if src' = src then Some (now, src', err) else last_attempt as src)"
  by (simp add: last_attempt_def)

lemma sources_distinct: "distinct (map fst (rt_sources (attempts_run as)))"
  by (induction as rule: rev_induct)
    (auto simp: attempts_run_Nil attempts_run_snoc zero_tracker_def RecordReload_def Let_def distinct_aput)

definition error_text :: "string option \<Rightarrow> string" where
  "error_text err = (case err of Some e \<Rightarrow> e | None \<Rightarrow> [])"

lemma sources_last:
  "map_option rs_LastError (map_of (rt_sources (attempts_run as)) src)
   = map_option (\<lambda>(_, _, err). error_text err) (last_attempt as src)"
proof (induction as rule: rev_induct)
  case Nil
  then show ?case by (simp add: attempts_run_Nil zero_tracker_def last_attempt_def)
next
  case (snoc a as)
  then show ?case
    by (cases a) (simp add: attempts_run_snoc last_attempt_snoc RecordReload_def zero_status_def
      error_text_def Let_def split: option.split)
qed

lemma map_of_fst_filter:
  "distinct (map fst m) \<Longrightarrow>
   set (map fst (filter (\<lambda>(_, s). P s) m)) = {k. \<exists>s. map_of m k = Some s \<and> P s}"
  by (force simp: dest: map_of_SomeD)

lemma most_recent_plain: "rs_FailingSources (rt_mostRecent (attempts_run as)) = []"
proof (induction as rule: rev_induct)
  case (snoc a as)
  then show ?case
    by (cases a) (simp add: attempts_run_snoc RecordReload_def zero_status_def Let_def split: option.split)
qed (simp add: attempts_run_Nil zero_tracker_def zero_status_def)

text \<open>
  The reload badge. After any sequence of reload attempts the failing sources are exactly
  those whose own last attempt failed with a message, in alphabetical order and each once,
  whatever happened to the other sources; and the status handed out lists the same.
\<close>

lemma failing_sources_exact:
  "set (FailingSources (attempts_run as))
     = {src. \<exists>now e. last_attempt as src = Some (now, src, Some e) \<and> e \<noteq> []}
   \<and> sorted (FailingSources (attempts_run as)) \<and> distinct (FailingSources (attempts_run as))
   \<and> rs_FailingSources (GetStatus (attempts_run as)) = FailingSources (attempts_run as)"
proof -
  let ?t = "attempts_run as"
  have "(\<exists>s. map_of (rt_sources ?t) src = Some s \<and> rs_LastError s \<noteq> []) \<longleftrightarrow>
      (\<exists>now e. last_attempt as src = Some (now, src, Some e) \<and> e \<noteq> [])" for src
  proof -
    have "src' = src" if "last_attempt as src = Some (now, src', err)" for now src' err
      using that by (induction as rule: rev_induct) (auto simp: last_attempt_def split: if_splits)
    with sources_last [of as src] show ?thesis
      by (cases "map_of (rt_sources ?t) src"; cases "last_attempt as src")
        (auto simp: error_text_def split: option.splits)
  qed
  then have "set (FailingSources ?t) = {src. \<exists>now e. last_attempt as src = Some (now, src, Some e) \<and> e \<noteq> []}"
    using map_of_fst_filter [OF sources_distinct [of as]] by (simp add: FailingSources_def)
  moreover have "distinct (FailingSources ?t)"
    using distinct_map_filter [OF sources_distinct] by (simp add: FailingSources_def sort_strings_def)
  moreover have "rs_FailingSources (GetStatus ?t) = FailingSources ?t"
    by (simp add: GetStatus_def FailingSources_def Let_def most_recent_plain sort_strings_def)
  ultimately show ?thesis by (simp add: FailingSources_def)
qed

end
