(* ===== verification/OpenMode.thy ===== *)
theory OpenMode
  imports Types
begin

text \<open>
  \<open>internal/server/openmode.go\<close>: the time-boxed window in which every request is allowed, with
  its escalating extensions.
\<close>

text \<open>Go's zero \<open>time.Time\<close>, the first instant of year 1, in nanoseconds.\<close>

definition zero_time :: int where
  "zero_time = - 62135596800 * second"

definition openModeIncrements :: "int list" where
  "openModeIncrements = [1 * minute, 1 * minute, 3 * minute, 5 * minute, 20 * minute, 30 * minute]"

record open_mode =
  om_until :: int
  om_pressCount :: nat

definition closed_window :: open_mode where
  "closed_window = \<lparr>om_until = zero_time, om_pressCount = 0\<rparr>"

definition extend :: "int \<Rightarrow> open_mode \<Rightarrow> open_mode" where
  "extend now om =
     (let count = (if \<not> now < om_until om then 0 else om_pressCount om);
          idx = (if count \<ge> length openModeIncrements then length openModeIncrements - 1 else count);
          base = (if now > om_until om then now else om_until om)
      in \<lparr>om_until = base + openModeIncrements ! idx, om_pressCount = Suc count\<rparr>)"

definition close_window :: "open_mode \<Rightarrow> open_mode" where
  "close_window om = closed_window"

definition window_state :: "int \<Rightarrow> open_mode \<Rightarrow> bool \<times> int" where
  "window_state now om = (now < om_until om, om_until om)"

abbreviation is_open :: "int \<Rightarrow> open_mode \<Rightarrow> bool" where
  "is_open now om \<equiv> fst (window_state now om)"

section \<open>Presses\<close>

text \<open>The amount of the n-th press of a window.\<close>

definition press_amount :: "nat \<Rightarrow> int" where
  "press_amount n = openModeIncrements ! (min n 5)"

lemma press_amount_bounds: "minute \<le> press_amount n \<and> press_amount n \<le> 30 * minute"
proof -
  have "n = 0 \<or> n = 1 \<or> n = 2 \<or> n = 3 \<or> n = 4 \<or> min n 5 = 5" by linarith
  then show ?thesis by (auto simp: press_amount_def openModeIncrements_def)
qed

lemma length_increments: "length openModeIncrements = 6"
  by (simp add: openModeIncrements_def)

lemma extend_closed: "om_until om \<le> now \<Longrightarrow> extend now om = \<lparr>om_until = now + press_amount 0, om_pressCount = 1\<rparr>"
  by (auto simp: extend_def Let_def press_amount_def length_increments)

lemma extend_open:
  "now < om_until om \<Longrightarrow> extend now om
     = \<lparr>om_until = om_until om + press_amount (om_pressCount om), om_pressCount = Suc (om_pressCount om)\<rparr>"
  by (auto simp: extend_def Let_def press_amount_def length_increments min_def)

text \<open>Presses that each come while the window is still open.\<close>

fun all_open :: "int list \<Rightarrow> open_mode \<Rightarrow> bool" where
  "all_open [] om \<longleftrightarrow> True"
| "all_open (t # ts) om \<longleftrightarrow> is_open t om \<and> all_open ts (extend t om)"

lemma presses_add:
  "all_open ts om \<Longrightarrow>
   om_until (fold extend ts om) = om_until om + sum_list (map press_amount [om_pressCount om ..< om_pressCount om + length ts])
   \<and> om_pressCount (fold extend ts om) = om_pressCount om + length ts"
proof (induction ts arbitrary: om)
  case (Cons t ts)
  then have o: "t < om_until om" by (simp add: window_state_def)
  let ?c = "om_pressCount om"
  have "[?c ..< ?c + length (t # ts)] = ?c # [Suc ?c ..< Suc ?c + length ts]"
    by (simp add: upt_conv_Cons del: upt_Suc)
  then have "sum_list (map press_amount [?c ..< ?c + length (t # ts)])
      = press_amount ?c + sum_list (map press_amount [Suc ?c ..< Suc ?c + length ts])"
    by (simp only: list.map sum_list.Cons)
  with Cons.IH [of "extend t om"] Cons.prems show ?case
    by (simp add: extend_open [OF o] del: upt_Suc)
qed simp

text \<open>
  The length of an open window. The first press after a closed or lapsed window opens it
  for a minute; presses while it is open add 1, 3, 5, 20 and then 30 minutes each to what is
  left, wherever in the window they fall; and no press, at any time and in any state, leaves
  more than thirty minutes on top of what was left before it.
\<close>

lemma open_window_length:
  assumes "\<not> is_open now om" "all_open ts (extend now om)"
  shows "om_until (fold extend (now # ts) om) = now + sum_list (map press_amount [0 ..< Suc (length ts)])
    \<and> map press_amount [0 ..< 6] = map (\<lambda>m. m * minute) [1, 1, 3, 5, 20, 30]
    \<and> om_until (extend t om') \<le> max t (om_until om') + 30 * minute
    \<and> is_open t (extend t om')"
proof -
  have c: "om_until om \<le> now" using assms(1) by (simp add: window_state_def)
  have "om_until (fold extend (now # ts) om) = now + sum_list (map press_amount [0 ..< Suc (length ts)])"
    using presses_add [OF assms(2)]
    by (simp add: extend_closed [OF c] upt_conv_Cons [of 0] del: upt_Suc)
  moreover have "map press_amount [0 ..< 6] = map (\<lambda>m. m * minute) [1, 1, 3, 5, 20, 30]"
    by (simp add: upt_rec press_amount_def openModeIncrements_def)
  moreover have "om_until (extend t om') \<le> max t (om_until om') + 30 * minute \<and> is_open t (extend t om')"
  proof (cases "t < om_until om'")
    case True
    then show ?thesis using press_amount_bounds [of "om_pressCount om'"]
      by (simp add: extend_open window_state_def)
  next
    case False
    then show ?thesis using press_amount_bounds [of 0]
      by (simp add: extend_closed window_state_def)
  qed
  ultimately show ?thesis by blast
qed

lemma open_window_length_example:
  "om_until (fold extend [0, 10 * second, 20 * second] closed_window) = 5 * minute"
proof -
  have h: "\<not> is_open 0 closed_window" "all_open [10 * second, 20 * second] (extend 0 closed_window)"
    by code_simp+
  have "sum_list (map press_amount [0 ..< Suc (length [10 * second, 20 * second])]) = 5 * minute" by code_simp
  with open_window_length [OF h] show ?thesis by simp
qed

end
