(* ===== verification/Sessions.thy ===== *)
theory Sessions
  imports Types
begin

text \<open>
  \<open>internal/identity/identity.go\<close> and \<open>internal/sessions/sessions.go\<close>: who a client is, and
  the session its connection belongs to. SHA-256 is a parameter.
\<close>

section \<open>Identities\<close>

record identity =
  id_ID :: string
  id_SourceIP :: string
  id_BearerTokenSHA256 :: string

definition stripPort :: "string \<Rightarrow> string" where
  "stripPort addr = (case split_host_port addr of Some (h, _) \<Rightarrow> h | None \<Rightarrow> addr)"

definition bearerTokenFromHeader :: "headers \<Rightarrow> string" where
  "bearerTokenFromHeader hs =
     (let v = header_get hs ''Proxy-Authorization'' in
      if v = [] then []
      else if length v > 7 \<and> equal_fold (take 7 v) ''Bearer '' then trim_space (drop 7 v)
      else [])"

definition Resolve :: "(string \<Rightarrow> string) \<Rightarrow> identity list \<Rightarrow> string \<Rightarrow> headers \<Rightarrow> string" where
  "Resolve sha256hex ids clientAddr hs =
     (let srcIP = stripPort clientAddr;
          bearer = bearerTokenFromHeader hs;
          bearerHash = (if bearer \<noteq> [] then sha256hex bearer else [])
      in case find (\<lambda>i. id_BearerTokenSHA256 i \<noteq> [] \<and> id_BearerTokenSHA256 i = bearerHash) ids of
           Some i \<Rightarrow> id_ID i
         | None \<Rightarrow>
             (case find (\<lambda>i. id_SourceIP i \<noteq> [] \<and> id_SourceIP i = srcIP) ids of
                Some i \<Rightarrow> id_ID i
              | None \<Rightarrow> ''anonymous''))"

text \<open>
  A token decides over an address. A client whose bearer token hashes to a configured
  value gets an identity configured with that hash, whatever its address; without such a token
  it gets an identity configured with its address, or is anonymous; an identity with neither
  matcher is never handed out.
\<close>

lemma Resolve_precedence:
  fixes sha256hex :: "string \<Rightarrow> string" and ids :: "identity list"
  defines "by_token i hs \<equiv> id_BearerTokenSHA256 i \<noteq> [] \<and> bearerTokenFromHeader hs \<noteq> []
      \<and> id_BearerTokenSHA256 i = sha256hex (bearerTokenFromHeader hs)"
    and "by_addr i addr \<equiv> id_SourceIP i \<noteq> [] \<and> id_SourceIP i = stripPort addr"
  shows "if \<exists>i \<in> set ids. by_token i hs
    then \<exists>i \<in> set ids. by_token i hs \<and> Resolve sha256hex ids addr hs = id_ID i
    else if \<exists>i \<in> set ids. by_addr i addr
    then \<exists>i \<in> set ids. by_addr i addr \<and> Resolve sha256hex ids addr hs = id_ID i
    else Resolve sha256hex ids addr hs = ''anonymous''"
proof -
  define bh where "bh = (if bearerTokenFromHeader hs \<noteq> [] then sha256hex (bearerTokenFromHeader hs) else [])"
  have t: "by_token i hs \<longleftrightarrow> id_BearerTokenSHA256 i \<noteq> [] \<and> id_BearerTokenSHA256 i = bh" for i
    by (auto simp: by_token_def bh_def)
  have r: "Resolve sha256hex ids addr hs = (case find (\<lambda>i. by_token i hs) ids of
      Some i \<Rightarrow> id_ID i
    | None \<Rightarrow> (case find (\<lambda>i. by_addr i addr) ids of Some i \<Rightarrow> id_ID i | None \<Rightarrow> ''anonymous''))"
    unfolding Resolve_def Let_def t by_addr_def bh_def by (rule refl)
  have f: "(\<exists>i \<in> set ids. P i) \<Longrightarrow> \<exists>i \<in> set ids. P i \<and> find P ids = Some i" for P
    by (cases "find P ids") (auto simp: find_None_iff find_Some_iff)
  have n: "\<not> (\<exists>i \<in> set ids. P i) \<Longrightarrow> find P ids = None" for P
    by (auto simp: find_None_iff)
  show ?thesis
  proof (cases "\<exists>i \<in> set ids. by_token i hs")
    case True
    from f [OF this] True show ?thesis by (auto simp: r)
  next
    case no: False
    show ?thesis
    proof (cases "\<exists>i \<in> set ids. by_addr i addr")
      case True
      from f [OF this] True no n [OF no] show ?thesis unfolding r by auto
    next
      case False
      with no n [OF no] n [OF False] show ?thesis unfolding r by auto
    qed
  qed
qed

section \<open>Sessions\<close>

record session =
  se_ID :: string
  se_IdentityID :: string
  se_ClientAddr :: string
  se_StartedAt :: int
  se_LastActivity :: int
  se_DecisionCount :: int

type_synonym tracker = "(string \<times> session) list"

text \<open>\<open>newid\<close> is \<open>"sess-" + uuid.NewString()\<close>, used only when the address is new.\<close>

definition GetOrCreate :: "string \<Rightarrow> int \<Rightarrow> string \<Rightarrow> string \<Rightarrow> tracker \<Rightarrow> tracker \<times> session" where
  "GetOrCreate newid now clientAddr identityID t =
     (case map_of t clientAddr of
        Some s \<Rightarrow>
          let s1 = s\<lparr>se_LastActivity := now, se_DecisionCount := se_DecisionCount s + 1\<rparr>;
              s2 = (if identityID \<noteq> [] \<and> identityID \<noteq> ''anonymous'' then s1\<lparr>se_IdentityID := identityID\<rparr> else s1)
          in (aput clientAddr s2 t, s2)
      | None \<Rightarrow>
          let s = \<lparr>se_ID = newid, se_IdentityID = identityID, se_ClientAddr = clientAddr,
                   se_StartedAt = now, se_LastActivity = now, se_DecisionCount = 0\<rparr>
          in (aput clientAddr s t, s))"

definition DropSession :: "string \<Rightarrow> tracker \<Rightarrow> tracker" where
  "DropSession clientAddr t = adel clientAddr t"

definition SessionSnapshot :: "tracker \<Rightarrow> session list" where
  "SessionSnapshot t = map snd t"

datatype tracker_op =
    Touch string int string string
  | DropAddr string

fun run_op :: "tracker_op \<Rightarrow> tracker \<Rightarrow> tracker" where
  "run_op (Touch newid now addr identity) t = fst (GetOrCreate newid now addr identity t)"
| "run_op (DropAddr addr) t = DropSession addr t"

lemma run_op_keeps:
  "map_of t addr = Some s \<Longrightarrow> x \<noteq> DropAddr addr \<Longrightarrow>
   \<exists>s'. map_of (run_op x t) addr = Some s' \<and> se_ID s' = se_ID s \<and> se_StartedAt s' = se_StartedAt s"
  by (cases x) (auto simp: GetOrCreate_def DropSession_def Let_def split: option.split)

text \<open>
  A session lasts as long as its connection. Once an address has a session, every later
  use of the address, in between any uses and closings of other connections, finds the session
  with the same id and start, until the address itself is dropped; after that it has none.
\<close>

lemma session_stable:
  assumes "map_of t addr = Some s" "DropAddr addr \<notin> set ops"
  shows "(\<exists>s'. map_of (fold run_op ops t) addr = Some s' \<and> se_ID s' = se_ID s \<and> se_StartedAt s' = se_StartedAt s)
    \<and> se_ID (snd (GetOrCreate newid now addr identity (fold run_op ops t))) = se_ID s
    \<and> map_of (run_op (DropAddr addr) (fold run_op ops t)) addr = None"
proof -
  have "\<exists>s'. map_of (fold run_op ops t) addr = Some s' \<and> se_ID s' = se_ID s \<and> se_StartedAt s' = se_StartedAt s"
    using assms
  proof (induction ops arbitrary: t s)
    case (Cons x ops)
    from run_op_keeps [OF Cons.prems(1), of x] Cons.prems(2)
    obtain s1 where s1: "map_of (run_op x t) addr = Some s1" "se_ID s1 = se_ID s" "se_StartedAt s1 = se_StartedAt s"
      by auto
    from Cons.IH [OF s1(1)] Cons.prems(2) s1(2,3) show ?case by simp
  qed simp
  then show ?thesis by (auto simp: GetOrCreate_def DropSession_def Let_def)
qed

lemma session_stable_example:
  "se_ID (snd (GetOrCreate ''sess-3'' 9 ''10.0.0.1:5'' ''ci''
     (fold run_op [Touch ''sess-2'' 7 ''10.0.0.2:5'' [], DropAddr ''10.0.0.2:5'']
        (fst (GetOrCreate ''sess-1'' 5 ''10.0.0.1:5'' [] []))))) = ''sess-1''"
proof -
  let ?t = "fst (GetOrCreate ''sess-1'' 5 ''10.0.0.1:5'' [] [])"
  have "map_of ?t ''10.0.0.1:5'' = Some (snd (GetOrCreate ''sess-1'' 5 ''10.0.0.1:5'' [] []))"
    "DropAddr ''10.0.0.1:5'' \<notin> set [Touch ''sess-2'' 7 ''10.0.0.2:5'' [], DropAddr ''10.0.0.2:5'']"
    "se_ID (snd (GetOrCreate ''sess-1'' 5 ''10.0.0.1:5'' [] [])) = ''sess-1''"
    by (simp_all add: GetOrCreate_def Let_def)
  with session_stable [OF this(1,2)] show ?thesis by simp
qed

end
