(* ===== verification/OpStream.thy ===== *)
theory OpStream
  imports Types
begin

text \<open>
  \<open>internal/opstream/opstream.go\<close>: the bounded view of recent operations the console shows,
  one row per request id. The map of rows holds pointers that only the ring keeps, so it is a
  function from ids to rows; \<open>now\<close> is the clock.
\<close>

record op =
  op_RequestID :: string
  op_Method :: string
  op_URL :: string
  op_Status :: string
  op_HoldID :: string
  op_StartedAt :: int
  op_UpdatedAt :: int
  op_LatencyMS :: int
  op_ResponseSizeBytes :: int

record ring =
  ri_cap :: int
  ri_items :: "string \<Rightarrow> op option"
  ri_order :: "string list"

definition DefaultCap :: int where "DefaultCap = 50"

definition NewRing :: "int \<Rightarrow> ring" where
  "NewRing c = \<lparr>ri_cap = (if c \<le> 0 then DefaultCap else c), ri_items = (\<lambda>_. None), ri_order = []\<rparr>"

definition Begin :: "int \<Rightarrow> string \<Rightarrow> string \<Rightarrow> string \<Rightarrow> ring \<Rightarrow> ring" where
  "Begin now rid meth url r =
     (case ri_items r rid of
        Some row \<Rightarrow> r\<lparr>ri_items := (ri_items r)(rid \<mapsto> row\<lparr>op_UpdatedAt := now\<rparr>)\<rparr>
      | None \<Rightarrow>
          let r1 = (if int (length (ri_order r)) \<ge> ri_cap r then
                      (let oldest = hd (ri_order r) in
                       r\<lparr>ri_order := tl (ri_order r), ri_items := (ri_items r)(oldest := None)\<rparr>)
                    else r);
              row = \<lparr>op_RequestID = rid, op_Method = meth, op_URL = url, op_Status = ''checking'', op_HoldID = [],
                     op_StartedAt = now, op_UpdatedAt = now, op_LatencyMS = 0, op_ResponseSizeBytes = 0\<rparr>
          in r1\<lparr>ri_items := (ri_items r1)(rid \<mapsto> row), ri_order := ri_order r1 @ [rid]\<rparr>)"

definition HoldPending :: "int \<Rightarrow> string \<Rightarrow> string \<Rightarrow> ring \<Rightarrow> ring" where
  "HoldPending now rid holdID r =
     (case ri_items r rid of
        None \<Rightarrow> r
      | Some row \<Rightarrow> r\<lparr>ri_items := (ri_items r)(rid \<mapsto>
          row\<lparr>op_Status := ''pending'', op_HoldID := holdID, op_UpdatedAt := now\<rparr>)\<rparr>)"

text \<open>The loop that renames the first occurrence in the order.\<close>

fun rename_first :: "string \<Rightarrow> string \<Rightarrow> string list \<Rightarrow> string list" where
  "rename_first old new [] = []"
| "rename_first old new (x # xs) = (if x = old then new # xs else x # rename_first old new xs)"

definition Rebind :: "int \<Rightarrow> string \<Rightarrow> string \<Rightarrow> string \<Rightarrow> string \<Rightarrow> ring \<Rightarrow> ring \<times> bool" where
  "Rebind now oldID newID meth url r =
     (case ri_items r oldID of
        None \<Rightarrow> (r, False)
      | Some row \<Rightarrow>
          if oldID \<noteq> newID \<and> ri_items r newID \<noteq> None then (r, False)
          else
            (let r1 = (if oldID \<noteq> newID then
                         r\<lparr>ri_items := (ri_items r)(oldID := None), ri_order := rename_first oldID newID (ri_order r)\<rparr>
                       else r);
                 row1 = (if oldID \<noteq> newID then row\<lparr>op_RequestID := newID\<rparr> else row);
                 row2 = row1\<lparr>op_Method := meth, op_URL := url, op_Status := ''checking'', op_HoldID := [],
                             op_UpdatedAt := now\<rparr>
             in (r1\<lparr>ri_items := (ri_items r1)(newID \<mapsto> row2)\<rparr>, True)))"

definition ResolveOp :: "int \<Rightarrow> string \<Rightarrow> string \<Rightarrow> int \<Rightarrow> int \<Rightarrow> ring \<Rightarrow> ring" where
  "ResolveOp now rid status latencyMS sizeBytes r =
     (case ri_items r rid of
        None \<Rightarrow> r
      | Some row \<Rightarrow>
          let row1 = row\<lparr>op_Status := status, op_HoldID := [], op_UpdatedAt := now\<rparr>;
              row2 = (if latencyMS > 0 then row1\<lparr>op_LatencyMS := latencyMS\<rparr> else row1);
              row3 = (if sizeBytes > 0 then row2\<lparr>op_ResponseSizeBytes := sizeBytes\<rparr> else row2)
          in r\<lparr>ri_items := (ri_items r)(rid \<mapsto> row3)\<rparr>)"

text \<open>
  The insertion sort: \<open>sink\<close> is the inner loop, on the sorted prefix reversed so that its head
  is the neighbour to swap with.
\<close>

fun sink :: "op \<Rightarrow> op list \<Rightarrow> op list" where
  "sink x [] = [x]"
| "sink x (y # rev_prefix) =
     (if op_UpdatedAt x > op_UpdatedAt y then y # sink x rev_prefix else x # y # rev_prefix)"

fun sort_loop :: "op list \<Rightarrow> op list \<Rightarrow> op list" where
  "sort_loop rev_prefix [] = rev rev_prefix"
| "sort_loop rev_prefix (x # xs) = sort_loop (sink x rev_prefix) xs"

definition sortByUpdatedDesc :: "op list \<Rightarrow> op list" where
  "sortByUpdatedDesc ops = sort_loop [] ops"

definition RingSnapshot :: "ring \<Rightarrow> op list" where
  "RingSnapshot r = sortByUpdatedDesc (List.map_filter (ri_items r) (ri_order r))"

section \<open>The invariant of the ring\<close>

definition ring_ok :: "ring \<Rightarrow> bool" where
  "ring_ok r \<longleftrightarrow> 0 < ri_cap r \<and> int (length (ri_order r)) \<le> ri_cap r \<and> distinct (ri_order r)
     \<and> dom (ri_items r) = set (ri_order r)
     \<and> (\<forall>rid row. ri_items r rid = Some row \<longrightarrow> op_RequestID row = rid)"

lemma ring_ok_new: "ring_ok (NewRing c)"
  by (simp add: ring_ok_def NewRing_def DefaultCap_def)

lemma ring_dom: "ring_ok r \<Longrightarrow> ri_items r rid \<noteq> None \<longleftrightarrow> rid \<in> set (ri_order r)"
  by (auto simp: ring_ok_def)

lemma ring_ok_update:
  "ring_ok r \<Longrightarrow> ri_items r rid = Some row \<Longrightarrow> op_RequestID row' = rid \<Longrightarrow>
   ring_ok (r\<lparr>ri_items := (ri_items r)(rid \<mapsto> row')\<rparr>)"
  by (auto simp: ring_ok_def)

lemma rename_first_set:
  "distinct xs \<Longrightarrow> old \<in> set xs \<Longrightarrow> new \<notin> set xs \<Longrightarrow>
   set (rename_first old new xs) = insert new (set xs - {old}) \<and> distinct (rename_first old new xs)
   \<and> length (rename_first old new xs) = length xs"
  by (induction xs) auto

lemma ring_ok_begin:
  assumes "ring_ok r"
  shows "ring_ok (Begin now rid meth url r)"
proof (cases "ri_items r rid")
  case (Some row)
  with assms have "op_RequestID row = rid" by (simp add: ring_ok_def)
  with ring_ok_update [OF assms Some] show ?thesis by (simp add: Begin_def Some)
next
  case None
  then have new: "rid \<notin> set (ri_order r)" using assms by (auto simp: ring_ok_def)
  show ?thesis
  proof (cases "int (length (ri_order r)) \<ge> ri_cap r")
    case True
    with assms obtain y ys where "ri_order r = y # ys" by (cases "ri_order r") (auto simp: ring_ok_def)
    with assms None True new show ?thesis
      by (auto simp: Begin_def Let_def ring_ok_def)
  next
    case False
    with assms None new show ?thesis by (auto simp: Begin_def Let_def ring_ok_def)
  qed
qed

lemma ring_ok_hold: "ring_ok r \<Longrightarrow> ring_ok (HoldPending now rid holdID r)"
  by (auto simp: HoldPending_def ring_ok_def split: option.split)

lemma ring_ok_resolve: "ring_ok r \<Longrightarrow> ring_ok (ResolveOp now rid st l b r)"
  by (auto simp: ResolveOp_def Let_def ring_ok_def split: option.split)

lemma ring_ok_rebind:
  assumes "ring_ok r"
  shows "ring_ok (fst (Rebind now old new meth url r))"
proof (cases "ri_items r old")
  case None
  then show ?thesis using assms by (simp add: Rebind_def)
next
  case (Some row)
  show ?thesis
  proof (cases "old \<noteq> new \<and> ri_items r new = None")
    case False
    with Some assms show ?thesis by (auto simp: Rebind_def Let_def ring_ok_def)
  next
    case True
    then have "old \<in> set (ri_order r)" "new \<notin> set (ri_order r)"
      using Some assms by (auto simp: ring_ok_def)
    from rename_first_set [OF _ this] assms
    have "set (rename_first old new (ri_order r)) = insert new (set (ri_order r) - {old})"
      "distinct (rename_first old new (ri_order r))"
      "length (rename_first old new (ri_order r)) = length (ri_order r)" by (simp_all add: ring_ok_def)
    with Some True assms show ?thesis by (auto simp: Rebind_def Let_def ring_ok_def)
  qed
qed

datatype ring_op =
    DoBegin int string string string
  | DoHold int string string
  | DoRebind int string string string string
  | DoResolve int string string int int

fun run_ring :: "ring_op \<Rightarrow> ring \<Rightarrow> ring" where
  "run_ring (DoBegin now rid meth url) r = Begin now rid meth url r"
| "run_ring (DoHold now rid holdID) r = HoldPending now rid holdID r"
| "run_ring (DoRebind now old new meth url) r = fst (Rebind now old new meth url r)"
| "run_ring (DoResolve now rid st l b) r = ResolveOp now rid st l b r"

lemma ring_ok_run: "ring_ok r \<Longrightarrow> ring_ok (fold run_ring xs r)"
proof (induction xs arbitrary: r)
  case (Cons x xs)
  have "ring_ok (run_ring x r)" using Cons.prems
    by (cases x) (simp_all add: ring_ok_begin ring_ok_hold ring_ok_rebind ring_ok_resolve)
  then show ?case using Cons.IH by simp
qed simp

section \<open>The snapshot\<close>

definition newer :: "op \<Rightarrow> op \<Rightarrow> bool" where
  "newer a b \<longleftrightarrow> op_UpdatedAt a > op_UpdatedAt b"

interpretation newest_first: comparator newer
  by unfold_locales (auto simp: newer_def)

definition desc :: "op list \<Rightarrow> bool" where
  "desc xs \<longleftrightarrow> sorted_wrt (\<lambda>a b. \<not> newer b a) xs"

lemma sink_props:
  "mset (sink x ys) = add_mset x (mset ys)"
  "desc (rev ys) \<Longrightarrow> desc (rev (sink x ys))"
  "desc (rev ys) \<Longrightarrow> filter (\<lambda>w. op_UpdatedAt w = t) (rev (sink x ys)) = filter (\<lambda>w. op_UpdatedAt w = t) (rev ys @ [x])"
proof -
  show m: "mset (sink x ys) = add_mset x (mset ys)" for ys by (induction ys) auto
  show "desc (rev ys) \<Longrightarrow> desc (rev (sink x ys))"
  proof (induction ys)
    case (Cons y ys)
    have s: "set (sink x ys) = insert x (set ys)" using m [of ys] by (metis set_mset_add_mset_insert set_mset_mset)
    from Cons show ?case by (auto simp: desc_def sorted_wrt_append newer_def s)
  qed (simp add: desc_def)
  show "desc (rev ys) \<Longrightarrow> filter (\<lambda>w. op_UpdatedAt w = t) (rev (sink x ys)) = filter (\<lambda>w. op_UpdatedAt w = t) (rev ys @ [x])"
    by (induction ys) (auto simp: desc_def sorted_wrt_append)
qed

lemma sort_loop_props:
  "desc (rev ys) \<Longrightarrow> desc (sort_loop ys xs) \<and> mset (sort_loop ys xs) = mset ys + mset xs
   \<and> filter (\<lambda>w. op_UpdatedAt w = t) (sort_loop ys xs) = filter (\<lambda>w. op_UpdatedAt w = t) (rev ys @ xs)"
proof (induction xs arbitrary: ys)
  case (Cons x xs)
  from Cons.IH [OF sink_props(2) [OF Cons.prems, where x = x]] sink_props(1) [of x ys]
    sink_props(3) [OF Cons.prems, where x = x and t = t]
  show ?case by simp
qed simp

text \<open>
  The console's rows. After any sequence of calls the ring holds at most its capacity of
  rows, each under its own id and never two with one id, and the snapshot lists exactly those
  rows, most recently updated first; rows updated at the same instant stay in order of arrival.
\<close>

lemma ring_snapshot:
  fixes ops :: "ring_op list" and c t :: int
  defines "r \<equiv> fold run_ring ops (NewRing c)"
  shows "int (length (RingSnapshot r)) \<le> ri_cap r
    \<and> distinct (map op_RequestID (RingSnapshot r))
    \<and> mset (RingSnapshot r) = mset (List.map_filter (ri_items r) (ri_order r))
    \<and> (\<forall>rid row. ri_items r rid = Some row \<longleftrightarrow> row \<in> set (RingSnapshot r) \<and> op_RequestID row = rid)
    \<and> sorted_wrt (\<lambda>a b. op_UpdatedAt b \<le> op_UpdatedAt a) (RingSnapshot r)
    \<and> filter (\<lambda>row. op_UpdatedAt row = t) (RingSnapshot r)
        = filter (\<lambda>row. op_UpdatedAt row = t) (List.map_filter (ri_items r) (ri_order r))"
proof -
  have ok: "ring_ok r" unfolding r_def by (rule ring_ok_run [OF ring_ok_new])
  let ?rows = "List.map_filter (ri_items r) (ri_order r)"
  have rows: "?rows = map (\<lambda>rid. the (ri_items r rid)) (ri_order r)"
    using ring_dom [OF ok] by (auto simp: map_filter_def filter_id_conv)
  have ids: "map op_RequestID ?rows = ri_order r"
  proof -
    have "op_RequestID (the (ri_items r x)) = x" if "x \<in> set (ri_order r)" for x
      using ring_dom [OF ok, of x] that ok by (auto simp: ring_ok_def)
    then show ?thesis unfolding rows by (simp add: map_idI)
  qed
  have s: "desc (RingSnapshot r)" "mset (RingSnapshot r) = mset ?rows"
    "filter (\<lambda>row. op_UpdatedAt row = t) (RingSnapshot r) = filter (\<lambda>row. op_UpdatedAt row = t) ?rows"
    using sort_loop_props [of "[]" ?rows t] by (simp_all add: desc_def RingSnapshot_def sortByUpdatedDesc_def)
  have "mset (map op_RequestID (RingSnapshot r)) = mset (ri_order r)"
    using s(2) ids by (metis mset_map)
  then have d: "distinct (map op_RequestID (RingSnapshot r))"
    using ok by (metis mset_eq_imp_distinct_iff ring_ok_def)
  have len: "length (RingSnapshot r) = length (ri_order r)"
    using s(2) ids by (metis length_map mset_eq_length)
  have st: "set (RingSnapshot r) = (\<lambda>rid. the (ri_items r rid)) ` set (ri_order r)"
    using s(2) rows by (metis list.set_map mset_eq_setD)
  have "ri_items r rid = Some row \<longleftrightarrow> row \<in> set (RingSnapshot r) \<and> op_RequestID row = rid" for rid row
    using ok unfolding st ring_ok_def by (force simp: dom_def)
  with d len s ok show ?thesis
    by (simp add: ring_ok_def desc_def newer_def not_less)
qed

end
