(* ===== verification/Redact.thy ===== *)
theory Redact
  imports Types
begin

text \<open>
  \<open>internal/redact/redact.go\<close>: redaction of header maps, JSON bodies and query strings before
  they reach the audit log. The JSON codec and the compiled regular expressions are parameters;
  a decoded JSON value is a tree whose objects are association lists, as the walk that rewrites
  it only reads and assigns single keys.
\<close>

datatype json =
    JNull
  | JBool bool
  | JNumber string
  | JString string
  | JArray "json list"
  | JObject "(string \<times> json) list"

record regex =
  re_Match :: "string \<Rightarrow> bool"
  re_Replace :: "string \<Rightarrow> string \<Rightarrow> string"

record redact_config =
  rc_BodyJSONPaths :: "string list"
  rc_BodyRegexes :: "regex list"
  rc_QueryRegexes :: "regex list"
  rc_HeaderModifiers :: "string list"

abbreviation redacted :: string where "redacted \<equiv> ''<redacted>''"

section \<open>Compilation\<close>

fun compile_all :: "(string \<Rightarrow> regex option) \<Rightarrow> string list \<Rightarrow> string + regex list" where
  "compile_all compile [] = Inr []"
| "compile_all compile (p # ps) =
     (case compile p of
        None \<Rightarrow> Inl p
      | Some re \<Rightarrow> (case compile_all compile ps of Inl e \<Rightarrow> Inl e | Inr res \<Rightarrow> Inr (re # res)))"

definition Compile ::
    "(string \<Rightarrow> regex option) \<Rightarrow> string list \<Rightarrow> string list \<Rightarrow> string list \<Rightarrow> string list \<Rightarrow> string + redact_config" where
  "Compile compile jsonPaths bodyPatterns queryPatterns headerMods =
     (case compile_all compile bodyPatterns of
        Inl e \<Rightarrow> Inl e
      | Inr bs \<Rightarrow>
          (case compile_all compile queryPatterns of
             Inl e \<Rightarrow> Inl e
           | Inr qs \<Rightarrow> Inr \<lparr>rc_BodyJSONPaths = jsonPaths, rc_BodyRegexes = bs, rc_QueryRegexes = qs,
                            rc_HeaderModifiers = headerMods\<rparr>))"

section \<open>Bodies\<close>

definition isJSON :: "string \<Rightarrow> bool" where
  "isJSON ct0 =
     (let ct1 = to_lower (trim_space ct0);
          ct = (case index_byte ct1 (CHR '';'') of Some i \<Rightarrow> trim_space (take i ct1) | None \<Rightarrow> ct1)
      in ct = ''application/json'' \<or> has_suffix ct ''+json'')"

fun walkAndReplace :: "json \<Rightarrow> string list \<Rightarrow> json \<times> bool" where
  "walkAndReplace v [] = (v, False)"
| "walkAndReplace (JObject m) [key] =
     (if map_of m key \<noteq> None then (JObject (aput key (JString redacted) m), True) else (JObject m, False))"
| "walkAndReplace (JObject m) (key # k2 # parts) =
     (case map_of m key of
        Some nxt \<Rightarrow> (let (nxt', ok) = walkAndReplace nxt (k2 # parts) in (JObject (aput key nxt' m), ok))
      | None \<Rightarrow> (JObject m, False))"
| "walkAndReplace v (key # parts) = (v, False)"

definition redactJSONPath :: "json \<Rightarrow> string \<Rightarrow> json \<times> bool" where
  "redactJSONPath v path =
     (let parts = split_on (CHR ''.'') (trim_prefix path ''$.'') in
      if parts = [] \<or> hd parts = [] then (v, False) else walkAndReplace v parts)"

text \<open>The three loops: JSON paths, body expressions, query expressions, each with its count.\<close>

fun redact_paths :: "string list \<Rightarrow> json \<times> nat \<Rightarrow> json \<times> nat" where
  "redact_paths [] (v, n) = (v, n)"
| "redact_paths (p # ps) (v, n) =
     (let (v', hit) = redactJSONPath v p in redact_paths ps (v', if hit then Suc n else n))"

fun redact_regexes :: "regex list \<Rightarrow> string \<times> nat \<Rightarrow> string \<times> nat" where
  "redact_regexes [] (s, n) = (s, n)"
| "redact_regexes (re # res) (s, n) =
     redact_regexes res (if re_Match re s then (re_Replace re s redacted, Suc n) else (s, n))"

definition Body ::
    "(string \<Rightarrow> json option) \<Rightarrow> (json \<Rightarrow> string option) \<Rightarrow> redact_config \<Rightarrow> string \<Rightarrow> string \<Rightarrow> string \<times> nat" where
  "Body decode encode c body contentType =
     (if body = [] then (body, 0)
      else let (out, count) =
          (if isJSON contentType \<and> rc_BodyJSONPaths c \<noteq> [] then
             (case decode body of
                None \<Rightarrow> (body, 0)
              | Some v \<Rightarrow>
                  let (v', n) = redact_paths (rc_BodyJSONPaths c) (v, 0) in
                  (case encode v' of Some s \<Rightarrow> (trim_right_chars [CHR 0x0A] s, n) | None \<Rightarrow> (body, n)))
           else (body, 0))
        in redact_regexes (rc_BodyRegexes c) (out, count))"

definition Query :: "redact_config \<Rightarrow> string \<Rightarrow> string \<times> nat" where
  "Query c rawQuery = (if rawQuery = [] then ([], 0) else redact_regexes (rc_QueryRegexes c) (rawQuery, 0))"

definition SampleForAudit :: "string \<Rightarrow> int \<Rightarrow> string \<times> bool" where
  "SampleForAudit b maxBytes =
     (if maxBytes \<le> 0 then ([], False)
      else if int (length b) \<le> maxBytes then (b, False)
      else (take (nat maxBytes) b, True))"

section \<open>Headers\<close>

definition apply_header :: "string \<Rightarrow> headers \<times> nat \<Rightarrow> headers \<times> nat" where
  "apply_header name = (\<lambda>(out, count).
     if header_get out name \<noteq> [] then (header_set out name redacted, Suc count) else (out, count))"

definition apply_modifier :: "string \<Rightarrow> headers \<times> nat \<Rightarrow> headers \<times> nat" where
  "apply_modifier m st =
     (if m = ''redact_authorization_header'' then apply_header ''Authorization'' st
      else if m = ''redact_cookie'' then apply_header ''Cookie'' st
      else st)"

definition Headers :: "redact_config \<Rightarrow> headers \<Rightarrow> string list \<Rightarrow> headers \<times> nat" where
  "Headers c h ruleModifiers =
     apply_header ''Proxy-Authorization''
       (fold apply_modifier (rc_HeaderModifiers c @ ruleModifiers) (h, 0))"

section \<open>What redaction guarantees\<close>

lemma canon_names:
  "canon_key ''Authorization'' = ''Authorization''" "canon_key ''Cookie'' = ''Cookie''"
  "canon_key ''Proxy-Authorization'' = ''Proxy-Authorization''"
  by code_simp+

definition masked :: "headers \<Rightarrow> string \<Rightarrow> bool" where
  "masked h name \<longleftrightarrow> header_get h name \<in> {[], redacted}"

lemma apply_header_masks: "masked (fst (apply_header name st)) name"
  by (cases st) (auto simp: apply_header_def masked_def header_get_set)

lemma apply_header_keeps: "masked (fst st) n \<Longrightarrow> masked (fst (apply_header name st)) n"
  by (cases st) (auto simp: apply_header_def masked_def header_get_set)

lemma apply_header_other:
  "canon_key name \<noteq> k \<Longrightarrow> fst (apply_header name st) k = fst st k"
  by (cases st) (auto simp: apply_header_def header_set_def)

lemma fold_modifiers_keeps: "masked (fst st) n \<Longrightarrow> masked (fst (fold apply_modifier ms st)) n"
  by (induction ms arbitrary: st) (auto simp: apply_modifier_def apply_header_keeps)

lemma fold_modifiers_other:
  "k \<notin> {''Authorization'', ''Cookie''} \<Longrightarrow> fst (fold apply_modifier ms st) k = fst st k"
proof (induction ms arbitrary: st)
  case (Cons m ms)
  have "fst (apply_modifier m st) k = fst st k"
    using Cons.prems apply_header_other [of "''Authorization''" k st] apply_header_other [of "''Cookie''" k st]
    by (auto simp: apply_modifier_def canon_names)
  with Cons.IH [OF Cons.prems, of "apply_modifier m st"] show ?case by simp
qed simp

lemma fold_modifiers_masks:
  "m \<in> set ms \<Longrightarrow> (\<And>st. apply_modifier m st = apply_header name st) \<Longrightarrow>
   masked (fst (fold apply_modifier ms st)) name"
proof (induction ms arbitrary: st)
  case (Cons x ms)
  show ?case
  proof (cases "x = m")
    case True
    then show ?thesis using Cons.prems(2) apply_header_masks by (simp add: fold_modifiers_keeps)
  next
    case False
    with Cons show ?thesis by simp
  qed
qed simp

text \<open>
  Credentials in headers. After redaction the value of \<open>Proxy-Authorization\<close> is empty or the
  marker, whatever the configuration; the same holds of \<open>Authorization\<close> and \<open>Cookie\<close> when the
  configuration or the rule asks for it; and no other header changes.
\<close>

lemma Headers_redacted:
  defines "out \<equiv> \<lambda>c h mods. fst (Headers c h mods)"
  shows "masked (out c h mods) ''Proxy-Authorization''
    \<and> (''redact_authorization_header'' \<in> set (rc_HeaderModifiers c @ mods) \<longrightarrow> masked (out c h mods) ''Authorization'')
    \<and> (''redact_cookie'' \<in> set (rc_HeaderModifiers c @ mods) \<longrightarrow> masked (out c h mods) ''Cookie'')
    \<and> (\<forall>k. k \<notin> {''Authorization'', ''Cookie'', ''Proxy-Authorization''} \<longrightarrow> out c h mods k = h k)"
proof -
  let ?ms = "rc_HeaderModifiers c @ mods"
  have "masked (out c h mods) ''Authorization''" if "''redact_authorization_header'' \<in> set ?ms"
    unfolding out_def Headers_def
    by (rule apply_header_keeps, rule fold_modifiers_masks [OF that]) (simp add: apply_modifier_def)
  moreover have "masked (out c h mods) ''Cookie''" if "''redact_cookie'' \<in> set ?ms"
    unfolding out_def Headers_def
    by (rule apply_header_keeps, rule fold_modifiers_masks [OF that]) (simp add: apply_modifier_def)
  moreover have "masked (out c h mods) ''Proxy-Authorization''"
    unfolding out_def Headers_def by (rule apply_header_masks)
  moreover have "out c h mods k = h k" if "k \<notin> {''Authorization'', ''Cookie'', ''Proxy-Authorization''}" for k
    using that fold_modifiers_other [of k ?ms "(h, 0)"]
    by (auto simp: out_def Headers_def apply_header_other canon_names)
  ultimately show ?thesis by blast
qed

lemma Headers_redacted_example:
  "masked (fst (Headers \<lparr>rc_BodyJSONPaths = [], rc_BodyRegexes = [], rc_QueryRegexes = [],
     rc_HeaderModifiers = [''redact_cookie'']\<rparr> [''Cookie'' \<mapsto> [''a=b'']] [])) ''Cookie''"
  using Headers_redacted [of "\<lparr>rc_BodyJSONPaths = [], rc_BodyRegexes = [], rc_QueryRegexes = [],
     rc_HeaderModifiers = [''redact_cookie'']\<rparr>" "[''Cookie'' \<mapsto> [''a=b'']]" "[]"] by simp

text \<open>Only the first value is looked at: a credential behind an empty first value stays.\<close>

lemma second_value_survives:
  "fst (Headers c [''Proxy-Authorization'' \<mapsto> [[], ''Bearer secret'']] []) ''Proxy-Authorization''
   = Some [[], ''Bearer secret'']" if "rc_HeaderModifiers c = []"
  using that by (simp add: Headers_def apply_header_def header_get_def canon_names)

text \<open>The value a path of keys leads to.\<close>

fun lookup :: "json \<Rightarrow> string list \<Rightarrow> json option" where
  "lookup v [] = Some v"
| "lookup (JObject m) (k # ks) = (case map_of m k of Some v \<Rightarrow> lookup v ks | None \<Rightarrow> None)"
| "lookup v (k # ks) = None"

lemma walk_found:
  "parts \<noteq> [] \<Longrightarrow> snd (walkAndReplace v parts) = (lookup v parts \<noteq> None)
   \<and> (lookup v parts \<noteq> None \<longrightarrow> lookup (fst (walkAndReplace v parts)) parts = Some (JString redacted))
   \<and> (lookup v parts = None \<longrightarrow> lookup (fst (walkAndReplace v parts)) parts = None)"
  by (induction v parts rule: walkAndReplace.induct) (auto split: option.splits prod.splits)

lemma walk_frame:
  "\<not> prefix parts q \<Longrightarrow> \<not> prefix q parts \<Longrightarrow> lookup (fst (walkAndReplace v parts)) q = lookup v q"
proof (induction v parts arbitrary: q rule: walkAndReplace.induct)
  case (2 m key)
  then show ?case by (cases q) auto
next
  case (3 m key k2 parts)
  obtain k ks where q: "q = k # ks" using 3(3) by (cases q) auto
  show ?case
  proof (cases "map_of m key")
    case None
    then show ?thesis by simp
  next
    case (Some nxt)
    have "lookup (fst (walkAndReplace nxt (k2 # parts))) ks = lookup nxt ks" if "k = key"
      using 3(1) [OF Some, of ks] 3(2,3) q that by simp
    then show ?thesis using Some q
      by (simp add: case_prod_beta map_of_aput Let_def split: option.split)
  qed
qed auto

text \<open>
  Redaction of one JSON path. The walk reports a hit exactly when the body has a value at
  the path; then the value there, whatever it was, is the marker; and the value at every path
  that neither leads to it nor goes through it is the one it was.
\<close>

lemma redact_path_effect:
  assumes "parts \<noteq> []"
  shows "case walkAndReplace v parts of (v', hit) \<Rightarrow>
    (hit \<longleftrightarrow> lookup v parts \<noteq> None)
    \<and> (hit \<longrightarrow> lookup v' parts = Some (JString redacted))
    \<and> (\<forall>q. \<not> prefix parts q \<and> \<not> prefix q parts \<longrightarrow> lookup v' q = lookup v q)"
  using walk_found [OF assms] walk_frame [of parts _ v] by (auto split: prod.split) (metis fst_conv snd_conv)+

lemma redact_path_effect_example:
  "snd (walkAndReplace (JObject [(''user'', JObject [(''token'', JString ''s3cret''), (''name'', JString ''ann'')])])
     [''user'', ''token''])"
  using redact_path_effect [of "[''user'', ''token'']"
      "JObject [(''user'', JObject [(''token'', JString ''s3cret''), (''name'', JString ''ann'')])]"]
  by (simp split: prod.splits)

lemma SampleForAudit_bound:
  "0 \<le> n \<Longrightarrow> int (length (fst (SampleForAudit b n))) \<le> n \<and> (\<exists>rest. b = fst (SampleForAudit b n) @ rest)"
  by (auto simp: SampleForAudit_def intro: append_take_drop_id [symmetric])

end
