(* ===== verification/AuditLog.thy ===== *)
theory AuditLog
  imports Types
begin

text \<open>
  \<open>internal/audit/audit.go\<close>: the audit logger. Callers hand entries to a buffered channel, one
  goroutine writes them out, and \<open>Close\<close> stops both. The model is a step relation whose steps are
  the atomic actions of the code: the part of a \<open>Write\<close> before its \<open>select\<close>, the \<open>select\<close> itself,
  the two writes of \<open>Close\<close>, and the turns of \<open>writeLoop\<close>. What the encoder does with an entry
  (write it, or fail and report) is left open.
\<close>

section \<open>Entries, levels, overflow modes\<close>

record entry_head =
  en_Timestamp :: string
  en_TrollbridgeVersion :: string
  en_AuditSchemaVersion :: int
  en_RequestID :: string
  en_SessionID :: string
  en_IdentityID :: string
  en_ClientAddr :: string
  en_Method :: string
  en_Scheme :: string
  en_Host :: string
  en_Port :: int
  en_Path :: string
  en_QueryRedacted :: string
  en_Decision :: string
  en_DecisionSource :: string
  en_RuleID :: string
  en_RuleSetVersion :: string
  en_LLMAdvisorID :: string
  en_LLMConfidence :: string
  en_LLMInputHash :: string
  en_Reason :: string

record entry = entry_head +
  en_RedactionApplied :: bool
  en_RedactedFieldCount :: int
  en_BodyInspectionStatus :: string
  en_RequestBodySample :: string
  en_ResponseStatus :: int
  en_ResponseSizeBytes :: int
  en_LatencyMS :: int
  en_Error :: string
  en_TLSErrorCategory :: string
  en_TLSSNI :: string
  en_TLSALPNOffered :: "string list"
  en_TLSVersionsOffered :: "string list"
  en_TLSCipherSuitesOffered :: "string list"
  en_PostSignalResolution :: bool
  en_SignalAfterSeconds :: int
  en_PatternName :: string
  en_PatternComponents :: components

definition zero_entry :: entry where
  "zero_entry = \<lparr>en_Timestamp = [], en_TrollbridgeVersion = [], en_AuditSchemaVersion = 0,
     en_RequestID = [], en_SessionID = [], en_IdentityID = [], en_ClientAddr = [], en_Method = [],
     en_Scheme = [], en_Host = [], en_Port = 0, en_Path = [], en_QueryRedacted = [],
     en_Decision = [], en_DecisionSource = [], en_RuleID = [], en_RuleSetVersion = [],
     en_LLMAdvisorID = [], en_LLMConfidence = [], en_LLMInputHash = [], en_Reason = [],
     en_RedactionApplied = False, en_RedactedFieldCount = 0, en_BodyInspectionStatus = [],
     en_RequestBodySample = [], en_ResponseStatus = 0, en_ResponseSizeBytes = 0, en_LatencyMS = 0,
     en_Error = [], en_TLSErrorCategory = [], en_TLSSNI = [], en_TLSALPNOffered = [],
     en_TLSVersionsOffered = [], en_TLSCipherSuitesOffered = [], en_PostSignalResolution = False,
     en_SignalAfterSeconds = 0, en_PatternName = [], en_PatternComponents = []\<rparr>"

datatype overflow_mode = OverflowDeny | OverflowDrop | OverflowBlock | OverflowOther string

datatype level = LevelAll | LevelDecisions | LevelNone

fun level_string :: "level \<Rightarrow> string" where
  "level_string LevelNone = ''none''"
| "level_string LevelDecisions = ''decisions''"
| "level_string LevelAll = ''all''"

definition ParseLevel :: "string \<Rightarrow> string + level" where
  "ParseLevel s =
     (if s = [] \<or> s = ''all'' then Inr LevelAll
      else if s = ''decisions'' then Inr LevelDecisions
      else if s = ''none'' then Inr LevelNone
      else Inl (''audit: unknown level '' @ s @ '' (want one of: none, decisions, all)''))"

lemma ParseLevel_level_string: "ParseLevel (level_string l) = Inr l"
  by (cases l) (simp_all add: ParseLevel_def)

section \<open>The logger\<close>

datatype write_result = WriteOk | ErrClosed | ErrBufferFull

text \<open>A call of \<open>Write\<close> that has got past the level filter waits at its \<open>select\<close>; then it returns.\<close>

datatype call = Selecting entry | Returned write_result

datatype writer = Running | Draining | Done

text \<open>
  The fields of \<open>Logger\<close>, the calls in progress, and the history: the calls whose entry went into
  the channel, to the encoder, to the drop counter and to the filter counter.
\<close>

record logger =
  lg_overflow :: overflow_mode
  lg_cap :: nat
  lg_ch :: "(nat \<times> entry) list"
  lg_closed :: bool
  lg_stopped :: bool
  lg_level :: level
  lg_droppedCounter :: nat
  lg_levelFilteredCounter :: nat
  lg_writer :: writer
  lg_calls :: "nat \<Rightarrow> call option"
  lg_accepted :: "(nat \<times> entry) list"
  lg_encoded :: "(nat \<times> entry) list"
  lg_dropped :: "nat list"
  lg_filtered :: "nat list"

definition New :: "int \<Rightarrow> overflow_mode \<Rightarrow> logger" where
  "New bufSize ov =
     (let bufSize = (if bufSize \<le> 0 then 1024 else bufSize) in
      \<lparr>lg_overflow = ov, lg_cap = nat bufSize, lg_ch = [], lg_closed = False, lg_stopped = False,
       lg_level = LevelAll, lg_droppedCounter = 0, lg_levelFilteredCounter = 0, lg_writer = Running,
       lg_calls = (\<lambda>_. None), lg_accepted = [], lg_encoded = [], lg_dropped = [], lg_filtered = []\<rparr>)"

definition SetLevel :: "level \<Rightarrow> logger \<Rightarrow> logger" where
  "SetLevel l s = s\<lparr>lg_level := l\<rparr>"

text \<open>\<open>Write\<close> up to its \<open>select\<close>: the closed flag, the level filter, the defaults.\<close>

definition level_drops :: "level \<Rightarrow> entry \<Rightarrow> bool" where
  "level_drops l e =
     (case l of
        LevelNone \<Rightarrow> True
      | LevelDecisions \<Rightarrow> \<not> IsHumanOrLLM (source_of_string (en_DecisionSource e))
      | LevelAll \<Rightarrow> False)"

definition stamp :: "string \<Rightarrow> entry \<Rightarrow> entry" where
  "stamp now e =
     (let e = (if en_Timestamp e = [] then e\<lparr>en_Timestamp := now\<rparr> else e)
      in if en_AuditSchemaVersion e = 0 then e\<lparr>en_AuditSchemaVersion := 1\<rparr> else e)"

definition ret :: "nat \<Rightarrow> write_result \<Rightarrow> logger \<Rightarrow> logger" where
  "ret i r s = s\<lparr>lg_calls := (lg_calls s)(i \<mapsto> Returned r)\<rparr>"

definition write_enter :: "nat \<Rightarrow> string \<Rightarrow> entry \<Rightarrow> logger \<Rightarrow> logger" where
  "write_enter i now e s =
     (if lg_closed s then ret i ErrClosed s
      else if level_drops (lg_level s) e then
        ret i WriteOk (s\<lparr>lg_levelFilteredCounter := Suc (lg_levelFilteredCounter s),
                         lg_filtered := i # lg_filtered s\<rparr>)
      else s\<lparr>lg_calls := (lg_calls s)(i \<mapsto> Selecting (stamp now e))\<rparr>)"

text \<open>
  The \<open>select\<close>: a case can fire when its channel is ready, \<open>default\<close> only when there is one and no
  channel is ready. In blocking mode there is no \<open>default\<close>.
\<close>

datatype branch = Send | Stop | Default

definition select_ready :: "logger \<Rightarrow> branch list" where
  "select_ready s =
     (let r = (if length (lg_ch s) < lg_cap s then [Send] else []) @ (if lg_stopped s then [Stop] else [])
      in if r = [] \<and> lg_overflow s \<noteq> OverflowBlock then [Default] else r)"

definition count_drop :: "nat \<Rightarrow> logger \<Rightarrow> logger" where
  "count_drop i s = s\<lparr>lg_droppedCounter := Suc (lg_droppedCounter s), lg_dropped := i # lg_dropped s\<rparr>"

definition write_select :: "nat \<Rightarrow> entry \<Rightarrow> branch \<Rightarrow> logger \<Rightarrow> logger" where
  "write_select i e b s =
     (case b of
        Send \<Rightarrow> ret i WriteOk (s\<lparr>lg_ch := lg_ch s @ [(i, e)], lg_accepted := lg_accepted s @ [(i, e)]\<rparr>)
      | Stop \<Rightarrow> (case lg_overflow s of
                   OverflowDrop \<Rightarrow> ret i WriteOk (count_drop i s)
                 | _ \<Rightarrow> ret i ErrClosed s)
      | Default \<Rightarrow> (case lg_overflow s of
                      OverflowDrop \<Rightarrow> ret i WriteOk (count_drop i s)
                    | _ \<Rightarrow> ret i ErrBufferFull s))"

text \<open>\<open>Close\<close> swaps the flag and then closes \<open>stopCh\<close>; it then waits for the writer to be done.\<close>

definition close_swap :: "logger \<Rightarrow> logger" where
  "close_swap s = s\<lparr>lg_closed := True\<rparr>"

definition close_stop :: "logger \<Rightarrow> logger" where
  "close_stop s = s\<lparr>lg_stopped := True\<rparr>"

definition close_summary :: "logger \<Rightarrow> (nat \<times> nat) option" where
  "close_summary s =
     (if 0 < lg_droppedCounter s \<or> 0 < lg_levelFilteredCounter s
      then Some (lg_droppedCounter s, lg_levelFilteredCounter s) else None)"

text \<open>A turn of \<open>writeLoop\<close>: receive and encode, see the stop, or find the buffer empty and leave.\<close>

definition receive :: "logger \<Rightarrow> logger" where
  "receive s = (case lg_ch s of [] \<Rightarrow> s | x # rest \<Rightarrow> s\<lparr>lg_ch := rest, lg_encoded := lg_encoded s @ [x]\<rparr>)"

inductive log_step :: "logger \<Rightarrow> logger \<Rightarrow> bool" where
  set_level: "log_step s (SetLevel l s)"
| enter: "lg_calls s i = None \<Longrightarrow> log_step s (write_enter i now e s)"
| sel: "lg_calls s i = Some (Selecting e) \<Longrightarrow> b \<in> set (select_ready s) \<Longrightarrow> log_step s (write_select i e b s)"
| swap: "\<not> lg_closed s \<Longrightarrow> log_step s (close_swap s)"
| stop: "lg_closed s \<Longrightarrow> \<not> lg_stopped s \<Longrightarrow> log_step s (close_stop s)"
| recv: "lg_writer s \<noteq> Done \<Longrightarrow> lg_ch s \<noteq> [] \<Longrightarrow> log_step s (receive s)"
| see_stop: "lg_writer s = Running \<Longrightarrow> lg_stopped s \<Longrightarrow> log_step s (s\<lparr>lg_writer := Draining\<rparr>)"
| leave: "lg_writer s = Draining \<Longrightarrow> lg_ch s = [] \<Longrightarrow> log_step s (s\<lparr>lg_writer := Done\<rparr>)"

inductive log_reachable :: "logger \<Rightarrow> bool" where
  init: "log_reachable (New n ov)"
| more: "log_reachable s \<Longrightarrow> log_step s t \<Longrightarrow> log_reachable t"

lemma reachable_steps: "log_step\<^sup>*\<^sup>* s t \<Longrightarrow> log_reachable s \<Longrightarrow> log_reachable t"
  by (induction rule: rtranclp_induct) (auto intro: more)

section \<open>Accounting\<close>

definition ids :: "logger \<Rightarrow> nat list" where
  "ids s = map fst (lg_accepted s) @ lg_dropped s @ lg_filtered s"

text \<open>Every call is recorded at most once, and it is recorded exactly when it returned without error.\<close>

definition settled :: "nat list \<Rightarrow> (nat \<Rightarrow> call option) \<Rightarrow> bool" where
  "settled is cs \<longleftrightarrow> distinct is \<and> set is = {i. cs i = Some (Returned WriteOk)}"

lemma settled_insert:
  "settled (xs @ ys) cs \<Longrightarrow> cs i \<noteq> Some (Returned WriteOk) \<Longrightarrow>
   settled (xs @ i # ys) (cs(i \<mapsto> Returned WriteOk))"
  by (fastforce simp: settled_def)

lemma settled_other:
  "settled xs cs \<Longrightarrow> cs i \<noteq> Some (Returned WriteOk) \<Longrightarrow> c \<noteq> Returned WriteOk \<Longrightarrow> settled xs (cs(i \<mapsto> c))"
  by (auto simp: settled_def)

definition log_inv :: "logger \<Rightarrow> bool" where
  "log_inv s \<longleftrightarrow>
     lg_accepted s = lg_encoded s @ lg_ch s
     \<and> length (lg_ch s) \<le> lg_cap s \<and> 0 < lg_cap s
     \<and> lg_droppedCounter s = length (lg_dropped s)
     \<and> lg_levelFilteredCounter s = length (lg_filtered s)
     \<and> settled (ids s) (lg_calls s)
     \<and> (lg_stopped s \<longrightarrow> lg_closed s)
     \<and> (lg_writer s \<noteq> Running \<longrightarrow> lg_stopped s)"

lemma log_inv_New: "log_inv (New n ov)"
  by (simp add: log_inv_def New_def ids_def settled_def Let_def)

lemmas log_ops = write_enter_def write_select_def ret_def count_drop_def close_swap_def close_stop_def
  SetLevel_def receive_def

text \<open>A call that is still on its way is in no history list, so recording it once keeps them disjoint.\<close>

lemma log_inv_call:
  "log_inv s \<Longrightarrow> lg_calls s i \<noteq> Some (Returned WriteOk) \<Longrightarrow> c \<noteq> Returned WriteOk \<Longrightarrow>
   log_inv (s\<lparr>lg_calls := (lg_calls s)(i \<mapsto> c)\<rparr>)"
  by (clarsimp simp: log_inv_def ids_def settled_other simp del: fun_upd_apply)

lemma log_inv_ret:
  "log_inv s \<Longrightarrow> lg_calls s i \<noteq> Some (Returned WriteOk) \<Longrightarrow> r \<noteq> WriteOk \<Longrightarrow> log_inv (ret i r s)"
  by (simp add: ret_def log_inv_call)

lemma log_inv_filtered:
  "log_inv s \<Longrightarrow> lg_calls s i \<noteq> Some (Returned WriteOk) \<Longrightarrow>
   log_inv (ret i WriteOk (s\<lparr>lg_levelFilteredCounter := Suc (lg_levelFilteredCounter s),
                            lg_filtered := i # lg_filtered s\<rparr>))"
  using settled_insert [of "map fst (lg_accepted s) @ lg_dropped s" "lg_filtered s" "lg_calls s" i]
  by (clarsimp simp: log_inv_def ret_def ids_def simp del: fun_upd_apply)

lemma log_inv_dropped:
  "log_inv s \<Longrightarrow> lg_calls s i \<noteq> Some (Returned WriteOk) \<Longrightarrow> log_inv (ret i WriteOk (count_drop i s))"
  using settled_insert [of "map fst (lg_accepted s)" "lg_dropped s @ lg_filtered s" "lg_calls s" i]
  by (clarsimp simp: log_inv_def ret_def ids_def count_drop_def simp del: fun_upd_apply)

lemma log_inv_sent:
  "log_inv s \<Longrightarrow> lg_calls s i \<noteq> Some (Returned WriteOk) \<Longrightarrow> length (lg_ch s) < lg_cap s \<Longrightarrow>
   log_inv (ret i WriteOk (s\<lparr>lg_ch := lg_ch s @ [(i, e)], lg_accepted := lg_accepted s @ [(i, e)]\<rparr>))"
  using settled_insert [of "map fst (lg_accepted s)" "lg_dropped s @ lg_filtered s" "lg_calls s" i]
  by (clarsimp simp: log_inv_def ret_def ids_def simp del: fun_upd_apply)

lemma Send_ready: "Send \<in> set (select_ready s) \<longleftrightarrow> length (lg_ch s) < lg_cap s"
  by (auto simp: select_ready_def Let_def)

lemma log_inv_step: "log_step s t \<Longrightarrow> log_inv s \<Longrightarrow> log_inv t"
proof (induction rule: log_step.induct)
  case (enter s i now e)
  then show ?case
    by (simp add: write_enter_def log_inv_ret log_inv_filtered log_inv_call)
next
  case (sel s i e b)
  then have "lg_calls s i \<noteq> Some (Returned WriteOk)" by simp
  with sel show ?case
    by (cases b)
      (simp_all add: write_select_def log_inv_ret log_inv_dropped log_inv_sent Send_ready
        split: overflow_mode.split)
qed (auto simp: log_inv_def ids_def SetLevel_def close_swap_def close_stop_def receive_def
      split: list.splits)

lemma log_reachable_inv: "log_reachable s \<Longrightarrow> log_inv s"
  by (induction rule: log_reachable.induct) (auto intro: log_inv_New log_inv_step)

text \<open>A run for the witnesses: a one-entry blocking logger, one entry sent, a second one waiting.\<close>

definition demo_entry :: entry where
  "demo_entry = zero_entry\<lparr>en_Timestamp := ''t'', en_AuditSchemaVersion := 1\<rparr>"

definition demo_sent :: logger where
  "demo_sent = (New 1 OverflowBlock)\<lparr>lg_ch := [(0, demo_entry)], lg_accepted := [(0, demo_entry)],
     lg_calls := [0 \<mapsto> Returned WriteOk]\<rparr>"

definition demo_full :: logger where
  "demo_full = demo_sent\<lparr>lg_calls := [0 \<mapsto> Returned WriteOk, 1 \<mapsto> Selecting demo_entry]\<rparr>"

lemma stamp_demo [simp]: "stamp now demo_entry = demo_entry"
  by (simp add: stamp_def demo_entry_def Let_def)

lemma demo_sent_reachable: "log_reachable demo_sent"
proof -
  let ?s = "write_enter 0 [] demo_entry (New 1 OverflowBlock)"
  have s: "?s = (New 1 OverflowBlock)\<lparr>lg_calls := [0 \<mapsto> Selecting demo_entry]\<rparr>"
    by (simp add: write_enter_def New_def level_drops_def)
  have "log_reachable ?s" by (rule more [OF init enter]) (simp add: New_def)
  moreover have "log_step ?s (write_select 0 demo_entry Send ?s)"
    by (rule sel) (simp_all add: s Send_ready, simp add: New_def)
  ultimately have "log_reachable (write_select 0 demo_entry Send ?s)" by (rule more)
  then show ?thesis unfolding s by (simp add: write_select_def ret_def demo_sent_def New_def)
qed

lemma demo_full_reachable: "log_reachable demo_full"
proof -
  have "log_reachable (write_enter 1 [] demo_entry demo_sent)"
    by (rule more [OF demo_sent_reachable enter]) (simp add: demo_sent_def)
  then show ?thesis
    by (simp add: write_enter_def level_drops_def demo_full_def demo_sent_def New_def)
qed

text \<open>
  C36: accounting of the audit logger. In every reachable state, whatever the interleaving of
  writers, level changes, shutdown and the writer goroutine: the entries handed to the encoder
  followed by the buffered ones are exactly the accepted ones, in the order of acceptance; the
  buffer is within its capacity; the two counters count the calls they should; and a call has
  returned without error exactly when it is recorded, once, as accepted, dropped or filtered.
\<close>

theorem audit_accounting:
  assumes "log_reachable s"
  shows "lg_accepted s = lg_encoded s @ lg_ch s
    \<and> length (lg_ch s) \<le> lg_cap s
    \<and> lg_droppedCounter s = length (lg_dropped s) \<and> lg_levelFilteredCounter s = length (lg_filtered s)
    \<and> distinct (map fst (lg_accepted s) @ lg_dropped s @ lg_filtered s)
    \<and> {i. lg_calls s i = Some (Returned WriteOk)}
         = fst ` set (lg_accepted s) \<union> set (lg_dropped s) \<union> set (lg_filtered s)"
proof -
  have inv: "log_inv s" by (rule log_reachable_inv [OF assms])
  then have "distinct (ids s) \<and> set (ids s) = {i. lg_calls s i = Some (Returned WriteOk)}"
    by (simp add: log_inv_def settled_def)
  moreover have "set (ids s) = fst ` set (lg_accepted s) \<union> set (lg_dropped s) \<union> set (lg_filtered s)"
    by (simp add: ids_def Un_assoc)
  ultimately show ?thesis using inv unfolding log_inv_def ids_def by blast
qed

theorem audit_accounting_witness:
  "lg_accepted demo_full = lg_encoded demo_full @ lg_ch demo_full \<and> length (lg_ch demo_full) \<le> lg_cap demo_full"
  using audit_accounting [OF demo_full_reachable] by simp

section \<open>Writers are not stuck\<close>

text \<open>
  Every \<open>Write\<close> can return. Whenever a call waits at its \<open>select\<close>, even in blocking mode
  with a full buffer, the code has steps after which that call has returned.
\<close>

lemma audit_write_can_return:
  assumes "log_reachable s" and "lg_calls s i = Some (Selecting e)"
  shows "\<exists>t r. log_step\<^sup>*\<^sup>* s t \<and> lg_calls t i = Some (Returned r)"
proof -
  have done_: "\<exists>t r. log_step s t \<and> lg_calls t i = Some (Returned r)"
    if "b \<in> set (select_ready s)" "lg_calls s i = Some (Selecting e)" for b s
    using log_step.sel [OF that(2,1)]
    by (intro exI [of _ "write_select i e b s"])
      (cases b; simp add: write_select_def ret_def split: overflow_mode.split)
  have inv: "log_inv s" by (rule log_reachable_inv [OF assms(1)])
  show ?thesis
  proof (cases "select_ready s")
    case (Cons b bs)
    with done_ [of b s] assms(2) show ?thesis by (auto intro: r_into_rtranclp)
  next
    case Nil
    then have full: "\<not> length (lg_ch s) < lg_cap s" and run: "\<not> lg_stopped s"
      by (auto simp: select_ready_def Let_def split: if_splits)
    with inv obtain x rest where ch: "lg_ch s = x # rest" and w: "lg_writer s = Running"
      by (cases "lg_ch s") (auto simp: log_inv_def)
    have one: "log_step s (receive s)" using ch w by (intro recv) auto
    have "Send \<in> set (select_ready (receive s))" "lg_calls (receive s) i = Some (Selecting e)"
      using inv ch assms(2) by (simp_all add: Send_ready receive_def log_inv_def)
    with done_ one show ?thesis by (meson converse_rtranclp_into_rtranclp r_into_rtranclp)
  qed
qed

lemma audit_write_can_return_example:
  "\<exists>t r. log_step\<^sup>*\<^sup>* demo_full t \<and> lg_calls t 1 = Some (Returned r)"
  by (rule audit_write_can_return [OF demo_full_reachable, of 1 demo_entry]) (simp add: demo_full_def)

section \<open>Shutdown\<close>

definition quiet :: "logger \<Rightarrow> bool" where
  "quiet s \<longleftrightarrow> (\<forall>i e. lg_calls s i \<noteq> Some (Selecting e))"

definition closing :: "(nat \<times> entry) list \<Rightarrow> logger \<Rightarrow> bool" where
  "closing acc s \<longleftrightarrow> lg_closed s \<and> quiet s \<and> lg_accepted s = acc \<and> (lg_writer s = Done \<longrightarrow> lg_ch s = [])"

lemma closing_step: "log_step s t \<Longrightarrow> closing acc s \<Longrightarrow> closing acc t"
  by (induction rule: log_step.induct)
    (auto simp: closing_def quiet_def write_enter_def ret_def SetLevel_def close_swap_def close_stop_def
      receive_def split: list.splits)

lemma closing_steps: "log_step\<^sup>*\<^sup>* s t \<Longrightarrow> closing acc s \<Longrightarrow> closing acc t"
  by (induction rule: rtranclp_induct) (auto intro: closing_step)

text \<open>
  \<open>Close\<close> flushes. If no call of \<open>Write\<close> is on its way when \<open>Close\<close> sets the flag, then once
  the writer goroutine is done, every entry accepted before has been handed to the encoder, in
  order, and nothing is left in the buffer.
\<close>

lemma audit_close_flushes:
  assumes "log_reachable s" and "\<not> lg_closed s" and "quiet s"
    and "log_step\<^sup>*\<^sup>* (close_swap s) t" and "lg_writer t = Done"
  shows "lg_encoded t = lg_accepted s \<and> lg_ch t = []"
proof -
  have "lg_writer s = Running" using log_reachable_inv [OF assms(1)] assms(2) by (auto simp: log_inv_def)
  then have "closing (lg_accepted s) (close_swap s)"
    using assms(3) by (simp add: closing_def close_swap_def quiet_def)
  then have "closing (lg_accepted s) t" by (rule closing_steps [OF assms(4)])
  moreover have "log_reachable t"
    using reachable_steps [OF assms(4)] more [OF assms(1) swap [OF assms(2)]] by blast
  ultimately show ?thesis
    using assms(5) log_reachable_inv [of t] by (simp add: closing_def log_inv_def)
qed

definition demo_closed :: logger where
  "demo_closed = demo_sent\<lparr>lg_ch := [], lg_encoded := [(0, demo_entry)], lg_closed := True,
     lg_stopped := True, lg_writer := Done\<rparr>"

lemma demo_closed_steps: "log_step\<^sup>*\<^sup>* (close_swap demo_sent) demo_closed"
proof -
  let ?a = "close_swap demo_sent" and ?b = "close_stop (close_swap demo_sent)"
  let ?c = "?b\<lparr>lg_writer := Draining\<rparr>"
  let ?d = "receive ?c"
  have "log_step ?a ?b" by (rule stop) (simp_all add: close_swap_def demo_sent_def New_def)
  moreover have "log_step ?b ?c"
    by (rule see_stop) (simp_all add: close_swap_def close_stop_def demo_sent_def New_def)
  moreover have "log_step ?c ?d"
    by (rule recv) (simp_all add: close_swap_def close_stop_def demo_sent_def)
  moreover have "log_step ?d (?d\<lparr>lg_writer := Done\<rparr>)"
    by (rule leave) (simp_all add: close_swap_def close_stop_def demo_sent_def receive_def)
  moreover have "?d\<lparr>lg_writer := Done\<rparr> = demo_closed"
    by (simp add: receive_def close_swap_def close_stop_def demo_sent_def demo_closed_def New_def)
  ultimately show ?thesis by (metis converse_rtranclp_into_rtranclp rtranclp.rtrancl_refl)
qed

lemma audit_close_flushes_example:
  "lg_encoded demo_closed = lg_accepted demo_sent \<and> lg_ch demo_closed = []"
  by (rule audit_close_flushes [OF demo_sent_reachable _ _ demo_closed_steps])
    (simp_all add: demo_sent_def demo_closed_def New_def quiet_def)

text \<open>
  A call that has passed the closed check and reaches its \<open>select\<close> after the writer has left can
  still put its entry in the buffer: it returns without error, and the entry is never written.
\<close>

definition demo_lost :: logger where
  "demo_lost = (New 1 OverflowDeny)\<lparr>lg_ch := [(0, demo_entry)], lg_accepted := [(0, demo_entry)],
     lg_calls := [0 \<mapsto> Returned WriteOk], lg_closed := True, lg_stopped := True, lg_writer := Done\<rparr>"

lemma demo_lost_reachable: "log_reachable demo_lost"
proof -
  let ?a = "write_enter 0 [] demo_entry (New 1 OverflowDeny)"
  have a: "?a = (New 1 OverflowDeny)\<lparr>lg_calls := [0 \<mapsto> Selecting demo_entry]\<rparr>"
    by (simp add: write_enter_def New_def level_drops_def)
  let ?b = "close_stop (close_swap ?a)"
  let ?c = "?b\<lparr>lg_writer := Draining\<rparr>"
  let ?d = "?c\<lparr>lg_writer := Done\<rparr>"
  have "log_reachable ?a" by (rule more [OF init enter]) (simp add: New_def)
  then have "log_reachable (close_swap ?a)"
    by (rule more [OF _ swap]) (simp add: write_enter_def New_def level_drops_def)
  then have "log_reachable ?b" by (rule more [OF _ stop]) (simp_all add: close_swap_def write_enter_def New_def level_drops_def)
  then have "log_reachable ?c"
    by (rule more [OF _ see_stop]) (simp_all add: close_swap_def close_stop_def write_enter_def New_def level_drops_def)
  then have "log_reachable ?d"
    by (rule more [OF _ leave]) (simp_all add: close_swap_def close_stop_def write_enter_def New_def level_drops_def)
  moreover have "log_step ?d (write_select 0 demo_entry Send ?d)"
    by (rule sel) (simp_all add: Send_ready close_swap_def close_stop_def write_enter_def New_def level_drops_def)
  ultimately have "log_reachable (write_select 0 demo_entry Send ?d)" by (rule more)
  then show ?thesis unfolding a
    by (simp add: write_select_def ret_def demo_lost_def close_swap_def close_stop_def New_def)
qed

lemma writer_gone: "log_step s t \<Longrightarrow> lg_writer s = Done \<Longrightarrow> lg_writer t = Done \<and> lg_encoded t = lg_encoded s"
  by (induction rule: log_step.induct)
    (auto simp: write_enter_def write_select_def count_drop_def ret_def SetLevel_def close_swap_def
      close_stop_def receive_def split: list.splits branch.split overflow_mode.split)

lemma accepted_entry_lost:
  "\<exists>s. log_reachable s \<and> lg_calls s 0 = Some (Returned WriteOk) \<and> fst ` set (lg_accepted s) = {0}
     \<and> lg_droppedCounter s = 0 \<and> (\<forall>t. log_step\<^sup>*\<^sup>* s t \<longrightarrow> lg_encoded t = [])"
proof -
  have "lg_writer t = Done \<and> lg_encoded t = []" if "log_step\<^sup>*\<^sup>* demo_lost t" for t
    using that by (induction rule: rtranclp_induct) (auto simp: demo_lost_def New_def dest: writer_gone)
  then show ?thesis
    using demo_lost_reachable by (intro exI [of _ demo_lost]) (simp add: demo_lost_def New_def)
qed

end
