(* ===== verification/Advisor.thy ===== *)
theory Advisor
  imports Types
begin

text \<open>
  \<open>internal/advisor\<close>: the service around the LLM advisor (\<open>advisor.go\<close>), its ring of recent
  outcomes (\<open>digest.go\<close>) and its counters (\<open>stats.go\<close>). The provider is a parameter: \<open>Classify\<close>
  is split where the code calls it, and the second half takes whatever the provider returned.
  SHA-256 in hexadecimal and the \<open>%q\<close> verb of \<open>fmt\<close> are the functions of \<open>advisor_env\<close>; the clock
  readings are arguments. Log calls are left out.
\<close>

record advisor_env =
  env_hash :: "string \<Rightarrow> string"
  env_quote :: "string \<Rightarrow> string"

section \<open>The wire shapes\<close>

text \<open>The two fields of \<open>Input\<close> that the service never sets (body summary and tool) are left out.\<close>

record advisor_input =
  in_Method :: string
  in_Scheme :: string
  in_Host :: string
  in_Port :: int
  in_Path :: string
  in_HeadersRedacted :: "string \<Rightarrow> string option"
  in_Identity :: string
  in_RuleSetVersion :: string
  in_AllowList :: "string list"
  in_DenyList :: "string list"
  in_Directives :: string
  in_Mode :: string

record advisor_output =
  out_Effect :: string
  out_Scope :: string
  out_Reason :: string
  out_Modifiers :: "string list"
  out_Confidence :: string
  out_AdvisorID :: string

text \<open>A provider's error: what \<open>errors.Is\<close> says of the two sentinels, and its text.\<close>

record provider_error =
  pe_wire :: bool
  pe_schema :: bool
  pe_text :: string

record advisor_config =
  ac_Enabled :: bool
  ac_ConfidenceFloor :: string
  ac_OnUnavailable :: string
  ac_CacheTTL :: int
  ac_Timeout :: int
  ac_KnownModifiers :: "string \<Rightarrow> bool"
  ac_Directives :: string
  ac_Mode :: string

record list_context =
  lc_Allow :: "string list"
  lc_Deny :: "string list"

section \<open>The digest ring\<close>

record digest =
  dg_Timestamp :: int
  dg_RequestID :: string
  dg_Method :: string
  dg_Scheme :: string
  dg_Host :: string
  dg_Port :: int
  dg_Path :: string
  dg_Effect :: string
  dg_Confidence :: string
  dg_AdvisorID :: string
  dg_Reason :: string
  dg_Outcome :: string
  dg_LLMInputHash :: string

definition DigestDefaultCap :: int where "DigestDefaultCap = 100"

record digest_ring =
  dr_cap :: int
  dr_items :: "digest list"

definition NewDigestRing :: "int \<Rightarrow> digest_ring" where
  "NewDigestRing c = \<lparr>dr_cap = (if c \<le> 0 then DigestDefaultCap else c), dr_items = []\<rparr>"

definition AddDigest :: "digest \<Rightarrow> digest_ring \<Rightarrow> digest_ring" where
  "AddDigest d r =
     (let items = (if int (length (dr_items r)) \<ge> dr_cap r
                   then take (length (dr_items r) - 1) (drop 1 (dr_items r)) else dr_items r)
      in r\<lparr>dr_items := items @ [d]\<rparr>)"

definition DigestSnapshot :: "digest_ring \<Rightarrow> digest list" where
  "DigestSnapshot r = dr_items r"

definition digest_ring_ok :: "digest_ring \<Rightarrow> bool" where
  "digest_ring_ok r \<longleftrightarrow> 0 < dr_cap r \<and> int (length (dr_items r)) \<le> dr_cap r"

interpretation digest_log: bounded_log AddDigest DigestSnapshot "\<lambda>r. nat (dr_cap r)" digest_ring_ok
  by unfold_locales
    (auto simp: AddDigest_def DigestSnapshot_def digest_ring_ok_def Let_def Suc_diff_le
      nat_le_iff dest!: arg_cong [of _ _ nat])

section \<open>Counters\<close>

record stats =
  st_Consulted :: nat
  st_Classified :: nat
  st_Fallback :: nat
  st_ErrWire :: nat
  st_ErrSchema :: nat
  st_ErrUnknown :: nat
  st_latency :: "nat list"

definition latencyBucketsMS :: "int list" where
  "latencyBucketsMS = [5, 10, 25, 50, 100, 250, 500, 1000, 2500, 5000]"

definition zero_stats :: stats where
  "zero_stats = \<lparr>st_Consulted = 0, st_Classified = 0, st_Fallback = 0, st_ErrWire = 0,
     st_ErrSchema = 0, st_ErrUnknown = 0, st_latency = replicate (length latencyBucketsMS) 0\<rparr>"

fun bucket_of :: "nat \<Rightarrow> int list \<Rightarrow> int \<Rightarrow> nat option" where
  "bucket_of i [] ms = None"
| "bucket_of i (ub # ubs) ms = (if ms \<le> ub then Some i else bucket_of (Suc i) ubs ms)"

definition recordLatency :: "int \<Rightarrow> stats \<Rightarrow> stats" where
  "recordLatency ms s =
     (let i = (case bucket_of 0 latencyBucketsMS ms of Some i \<Rightarrow> i | None \<Rightarrow> length latencyBucketsMS - 1)
      in s\<lparr>st_latency := (st_latency s)[i := Suc (st_latency s ! i)]\<rparr>)"

record latency_bucket =
  lb_LEMillis :: int
  lb_Count :: nat

record stats_snapshot =
  ss_Consulted :: nat
  ss_Classified :: nat
  ss_Fallback :: nat
  ss_ErrWire :: nat
  ss_ErrSchema :: nat
  ss_ErrUnknown :: nat
  ss_Latency :: "latency_bucket list"

definition StatsSnapshot :: "stats \<Rightarrow> stats_snapshot" where
  "StatsSnapshot s =
     \<lparr>ss_Consulted = st_Consulted s, ss_Classified = st_Classified s, ss_Fallback = st_Fallback s,
      ss_ErrWire = st_ErrWire s, ss_ErrSchema = st_ErrSchema s, ss_ErrUnknown = st_ErrUnknown s,
      ss_Latency = map (\<lambda>(ub, n). \<lparr>lb_LEMillis = ub, lb_Count = n\<rparr>) (zip latencyBucketsMS (st_latency s))\<rparr>"

section \<open>The cache\<close>

record cache_value =
  cv_decision :: decision
  cv_advisorID :: string
  cv_expiresAt :: int

type_synonym cache_map = "string \<Rightarrow> cache_value option"

definition cache_get :: "int \<Rightarrow> string \<Rightarrow> cache_map \<Rightarrow> cache_map \<times> cache_value option" where
  "cache_get now k c =
     (case c k of
        None \<Rightarrow> (c(k := None), None)
      | Some v \<Rightarrow> if cv_expiresAt v < now then (c(k := None), None) else (c, Some v))"

definition cache_put :: "int \<Rightarrow> int \<Rightarrow> string \<Rightarrow> cache_value \<Rightarrow> cache_map \<Rightarrow> cache_map" where
  "cache_put now ttl k v c = c(k \<mapsto> v\<lparr>cv_expiresAt := now + ttl\<rparr>)"

section \<open>The service\<close>

record service =
  sv_cfg :: advisor_config
  sv_has_prov :: bool
  sv_cache :: cache_map
  sv_digests :: digest_ring
  sv_stats :: stats

definition parseInjectDigestsEnv :: "string \<Rightarrow> int \<times> bool" where
  "parseInjectDigestsEnv raw =
     (let v = trim_space raw in
      if v = [] then (0, False)
      else case atoi v of
        None \<Rightarrow> (0, False)
      | Some n \<Rightarrow> if n \<le> 0 then (0, False) else (n, True))"

text \<open>\<open>%03d\<close>.\<close>

definition pad3 :: "int \<Rightarrow> string" where
  "pad3 i = (let s = itoa i in replicate (3 - length s) (CHR ''0'') @ s)"

definition synthetic_digest :: "int \<Rightarrow> int \<Rightarrow> digest" where
  "synthetic_digest base i =
     \<lparr>dg_Timestamp = base + i * second, dg_RequestID = ''synth-req-'' @ pad3 i, dg_Method = ''GET'',
      dg_Scheme = ''https'', dg_Host = ''synth-host-'' @ pad3 i @ ''.example'', dg_Port = 443,
      dg_Path = ''/'', dg_Effect = ''allow'', dg_Confidence = ''high'',
      dg_AdvisorID = ''synthetic-injection'',
      dg_Reason = ''synthetic digest injected via TROLLBRIDGE_TEST_INJECT_DIGESTS'',
      dg_Outcome = ''classified'', dg_LLMInputHash = []\<rparr>"

definition injectSyntheticDigests :: "int \<Rightarrow> int \<Rightarrow> digest_ring \<Rightarrow> digest_ring" where
  "injectSyntheticDigests now n r =
     (let base = now - n * second in fold (\<lambda>i. AddDigest (synthetic_digest base i)) [1..n] r)"

definition NewService :: "int \<Rightarrow> string \<Rightarrow> advisor_config \<Rightarrow> bool \<Rightarrow> service" where
  "NewService now injectEnv cfg has_prov =
     (let cfg = (if ac_ConfidenceFloor cfg = [] then cfg\<lparr>ac_ConfidenceFloor := ''high''\<rparr> else cfg);
          cfg = (if ac_OnUnavailable cfg = [] then cfg\<lparr>ac_OnUnavailable := ''ask_user''\<rparr> else cfg);
          cfg = (if ac_CacheTTL cfg \<le> 0 then cfg\<lparr>ac_CacheTTL := 5 * minute\<rparr> else cfg);
          cfg = (if ac_Timeout cfg \<le> 0 then cfg\<lparr>ac_Timeout := 8 * second\<rparr> else cfg);
          ring = NewDigestRing DigestDefaultCap;
          ring = (case parseInjectDigestsEnv injectEnv of
                    (n, ok) \<Rightarrow> if ok \<and> 0 < n then injectSyntheticDigests now n ring else ring)
      in \<lparr>sv_cfg = cfg, sv_has_prov = has_prov, sv_cache = (\<lambda>_. None), sv_digests = ring,
          sv_stats = zero_stats\<rparr>)"

definition recordDigest ::
    "int \<Rightarrow> request_event \<Rightarrow> string \<Rightarrow> string \<Rightarrow> string \<Rightarrow> string \<Rightarrow> string \<Rightarrow> service \<Rightarrow> service" where
  "recordDigest now req outcome eff confidence advisorID reason s =
     s\<lparr>sv_digests := AddDigest
       \<lparr>dg_Timestamp = now, dg_RequestID = ev_ID req, dg_Method = ev_Method req,
        dg_Scheme = ev_Scheme req, dg_Host = ev_Host req, dg_Port = ev_Port req,
        dg_Path = ev_Path req, dg_Effect = eff, dg_Confidence = confidence,
        dg_AdvisorID = advisorID, dg_Reason = reason, dg_Outcome = outcome,
        dg_LLMInputHash = header_get (ev_Headers req) ''X-Trollbridge-LLM-Input-Hash''\<rparr>
       (sv_digests s)\<rparr>"

definition unavailableDecision :: "advisor_config \<Rightarrow> string \<Rightarrow> decision" where
  "unavailableDecision cfg reason =
     (if ac_OnUnavailable cfg = ''allow'' then
        zero_decision\<lparr>d_Effect := EffectAllow, d_Source := SourceLLMAdvisor,
          d_Reason := reason @ ''; on_unavailable=allow''\<rparr>
      else if ac_OnUnavailable cfg = ''deny'' then
        zero_decision\<lparr>d_Effect := EffectDeny, d_Source := SourceLLMAdvisor,
          d_Reason := reason @ ''; on_unavailable=deny''\<rparr>
      else
        zero_decision\<lparr>d_Effect := EffectAskUser, d_Source := SourceLLMAdvisor,
          d_Reason := reason @ ''; on_unavailable=ask_user''\<rparr>)"

text \<open>A map lookup of a missing key gives zero.\<close>

definition conf_rank :: "string \<Rightarrow> nat" where
  "conf_rank c = (case map_of [(''low'', 0), (''medium'', 1), (''high'', 2)] c of Some n \<Rightarrow> n | None \<Rightarrow> 0)"

definition confidenceMeetsFloor :: "string \<Rightarrow> string \<Rightarrow> bool" where
  "confidenceMeetsFloor c flr \<longleftrightarrow> conf_rank flr \<le> conf_rank c"

definition validate :: "advisor_env \<Rightarrow> advisor_config \<Rightarrow> advisor_output \<Rightarrow> string + decision \<times> string" where
  "validate env cfg out =
     (let eff = trim_space (to_lower (out_Effect out));
          conf = trim_space (to_lower (out_Confidence out));
          scope = trim_space (to_lower (out_Scope out))
      in if eff \<notin> {''allow'', ''deny'', ''ask_user'', ''narrow_scope'', ''redact_and_retry'',
                   ''prefer_structured_tool''} then Inl (''unknown effect '' @ env_quote env eff)
         else if conf \<notin> {''low'', ''medium'', ''high''} then Inl (''unknown confidence '' @ env_quote env conf)
         else if \<not> confidenceMeetsFloor conf (ac_ConfidenceFloor cfg) then
           Inr (zero_decision\<lparr>d_Effect := EffectAskUser, d_Source := SourceLLMAdvisor,
                  d_Reason := ''advisor confidence '' @ conf @ '' below floor '' @ ac_ConfidenceFloor cfg
                    @ ''; falling back to ask_user''\<rparr>, out_AdvisorID out)
         else
           let mods = filter (ac_KnownModifiers cfg) (out_Modifiers out);
               effect = (if eff = ''allow'' then EffectAllow else if eff = ''deny'' then EffectDeny
                         else EffectAskUser);
               advisorID = (if out_AdvisorID out = []
                            then ''advisor-'' @ take 12 (env_hash env (out_Reason out @ conf))
                            else out_AdvisorID out)
           in Inr (zero_decision\<lparr>d_Effect := effect, d_Source := SourceLLMAdvisor,
                     d_AdvisorID := advisorID, d_Reason := out_Reason out, d_Scope := scope,
                     d_Modifiers := mods\<rparr>, advisorID))"

definition key_text :: "string \<Rightarrow> request_event \<Rightarrow> string" where
  "key_text ruleSetVersion req =
     join_with ''|'' [ruleSetVersion, ev_IdentityID req, ev_Method req, ev_Scheme req, ev_Host req,
       itoa (ev_Port req), ev_Path req]"

definition buildCacheKey :: "advisor_env \<Rightarrow> string \<Rightarrow> request_event \<Rightarrow> string" where
  "buildCacheKey env ruleSetVersion req = env_hash env (key_text ruleSetVersion req)"

definition capList :: "string list \<Rightarrow> nat \<Rightarrow> string list" where
  "capList entries n = (if length entries \<le> n then entries else take n entries)"

definition build_input ::
    "advisor_config \<Rightarrow> request_event \<Rightarrow> string \<Rightarrow> (string \<Rightarrow> string option) \<Rightarrow> list_context option \<Rightarrow> advisor_input" where
  "build_input cfg req ruleSetVersion headersRedacted lctx =
     \<lparr>in_Method = ev_Method req, in_Scheme = ev_Scheme req, in_Host = ev_Host req,
      in_Port = ev_Port req, in_Path = ev_Path req, in_HeadersRedacted = headersRedacted,
      in_Identity = ev_IdentityID req, in_RuleSetVersion = ruleSetVersion,
      in_AllowList = (case lctx of Some l \<Rightarrow> capList (lc_Allow l) 200 | None \<Rightarrow> []),
      in_DenyList = (case lctx of Some l \<Rightarrow> capList (lc_Deny l) 200 | None \<Rightarrow> []),
      in_Directives = ac_Directives cfg, in_Mode = ac_Mode cfg\<rparr>"

definition bump :: "(stats \<Rightarrow> stats) \<Rightarrow> service \<Rightarrow> service" where
  "bump f s = s\<lparr>sv_stats := f (sv_stats s)\<rparr>"

definition add_fallback :: "stats \<Rightarrow> stats" where
  "add_fallback st = st\<lparr>st_Fallback := Suc (st_Fallback st)\<rparr>"

definition add_error :: "provider_error \<Rightarrow> stats \<Rightarrow> stats" where
  "add_error e st =
     (if pe_wire e then st\<lparr>st_ErrWire := Suc (st_ErrWire st)\<rparr>
      else if pe_schema e then st\<lparr>st_ErrSchema := Suc (st_ErrSchema st)\<rparr>
      else st\<lparr>st_ErrUnknown := Suc (st_ErrUnknown st)\<rparr>)"

text \<open>\<open>Classify\<close> up to the call of the provider: either an answer, or the input to ask about.\<close>

definition classify_start ::
    "advisor_env \<Rightarrow> int \<Rightarrow> request_event \<Rightarrow> string \<Rightarrow> (string \<Rightarrow> string option) \<Rightarrow> list_context option \<Rightarrow> service
     \<Rightarrow> (decision \<times> string + advisor_input) \<times> service" where
  "classify_start env now req ruleSetVersion headersRedacted lctx s =
     (if \<not> ac_Enabled (sv_cfg s) \<or> \<not> sv_has_prov s then
        let d = unavailableDecision (sv_cfg s) ''advisor disabled''
        in (Inl (d, []), recordDigest now req ''unavailable'' (effect_string (d_Effect d)) [] [] (d_Reason d) s)
      else case cache_get now (buildCacheKey env ruleSetVersion req) (sv_cache s) of
        (c, Some v) \<Rightarrow> (Inl (cv_decision v, cv_advisorID v), s\<lparr>sv_cache := c\<rparr>)
      | (c, None) \<Rightarrow>
          (Inr (build_input (sv_cfg s) req ruleSetVersion headersRedacted lctx),
           bump (\<lambda>st. st\<lparr>st_Consulted := Suc (st_Consulted st)\<rparr>) (s\<lparr>sv_cache := c\<rparr>)))"

text \<open>The rest of it, with what the provider returned and how long it took.\<close>

definition classify_finish ::
    "advisor_env \<Rightarrow> int \<Rightarrow> int \<Rightarrow> request_event \<Rightarrow> string \<Rightarrow> provider_error + advisor_output \<Rightarrow> service
     \<Rightarrow> (decision \<times> string) \<times> service" where
  "classify_finish env now latency req ruleSetVersion result s =
     (case result of
        Inl err \<Rightarrow>
          let s = bump (\<lambda>st. add_error err (add_fallback st)) s;
              d = unavailableDecision (sv_cfg s) (''advisor unavailable: '' @ pe_text err)
          in ((d, []), recordDigest now req ''unavailable'' (effect_string (d_Effect d)) [] [] (d_Reason d) s)
      | Inr out \<Rightarrow>
          let s = bump (recordLatency latency) s in
          (case validate env (sv_cfg s) out of
             Inl verr \<Rightarrow>
               let s = bump add_fallback s;
                   reason = ''advisor validation failed: '' @ verr
               in ((zero_decision\<lparr>d_Effect := EffectAskUser, d_Source := SourceLLMAdvisor, d_Reason := reason\<rparr>, []),
                   recordDigest now req ''validation-failed'' ''ask_user'' [] [] reason s)
           | Inr (d, advisorID) \<Rightarrow>
               let s = (if d_Effect d = EffectAllow \<or> d_Effect d = EffectDeny
                        then bump (\<lambda>st. st\<lparr>st_Classified := Suc (st_Classified st)\<rparr>) s
                        else bump add_fallback s);
                   s = recordDigest now req ''classified'' (effect_string (d_Effect d))
                         (out_Confidence out) advisorID (out_Reason out) s;
                   s = s\<lparr>sv_cache := cache_put now (ac_CacheTTL (sv_cfg s)) (buildCacheKey env ruleSetVersion req)
                         \<lparr>cv_decision = d, cv_advisorID = advisorID, cv_expiresAt = 0\<rparr> (sv_cache s)\<rparr>
               in ((d, advisorID), s)))"

section \<open>What the service promises\<close>

definition says_allow :: "advisor_config \<Rightarrow> advisor_output \<Rightarrow> bool" where
  "says_allow cfg out \<longleftrightarrow>
     trim_space (to_lower (out_Effect out)) = ''allow''
     \<and> trim_space (to_lower (out_Confidence out)) \<in> {''low'', ''medium'', ''high''}
     \<and> conf_rank (ac_ConfidenceFloor cfg) \<le> conf_rank (trim_space (to_lower (out_Confidence out)))"

lemma validate_allow:
  "validate env cfg out = Inr (d, a) \<Longrightarrow> d_Effect d = EffectAllow \<longleftrightarrow> says_allow cfg out"
  by (auto simp: validate_def says_allow_def confidenceMeetsFloor_def Let_def split: if_splits)

lemma validate_effects:
  "validate env cfg out = Inr (d, a) \<Longrightarrow>
   d_Effect d \<in> {EffectAllow, EffectDeny, EffectAskUser} \<and> d_Source d = SourceLLMAdvisor"
  by (auto simp: validate_def Let_def split: if_splits)

lemma validate_modifiers:
  "validate env cfg out = Inr (d, a) \<Longrightarrow> m \<in> set (d_Modifiers d) \<Longrightarrow> ac_KnownModifiers cfg m"
  by (auto simp: validate_def Let_def split: if_splits)

lemma unavailable_allow: "d_Effect (unavailableDecision cfg r) = EffectAllow \<longleftrightarrow> ac_OnUnavailable cfg = ''allow''"
  by (simp add: unavailableDecision_def)

text \<open>
  A floor that is none of the three names ranks as the lowest, so it disables the floor. The
  configuration's own check has to keep such a value out.
\<close>

lemma unknown_floor_admits_low:
  "ac_ConfidenceFloor cfg = ''hihg'' \<Longrightarrow>
   says_allow cfg \<lparr>out_Effect = ''allow'', out_Scope = [], out_Reason = [], out_Modifiers = [],
     out_Confidence = ''low'', out_AdvisorID = []\<rparr>"
  by (simp add: says_allow_def conf_rank_def) code_simp

text \<open>Two requests share a cache key only when they agree on every part, as long as no part but
  the last contains the separator.\<close>

lemma join_bar: "join_with ''|'' (x # y # ys) = x @ CHR ''|'' # join_with ''|'' (y # ys)"
  by simp

lemma bar_not_in_itoa: "CHR ''|'' \<notin> set (itoa i)"
  using itoa_chars [of "CHR ''|''" i] by (auto simp: is_digit_def)

lemma key_text_inj:
  assumes "key_text v r = key_text v' r'"
    and "\<forall>p \<in> {v, v', ev_IdentityID r, ev_IdentityID r', ev_Method r, ev_Method r', ev_Scheme r, ev_Scheme r',
      ev_Host r, ev_Host r'}. CHR ''|'' \<notin> set p"
  shows "v = v' \<and> ev_IdentityID r = ev_IdentityID r' \<and> ev_Method r = ev_Method r' \<and> ev_Scheme r = ev_Scheme r'
    \<and> ev_Host r = ev_Host r' \<and> ev_Port r = ev_Port r' \<and> ev_Path r = ev_Path r'"
proof -
  have sep: "x = x' \<and> join_with ''|'' (y # ys) = join_with ''|'' (y' # ys')"
    if "join_with ''|'' (x # y # ys) = join_with ''|'' (x' # y' # ys')" "CHR ''|'' \<notin> set x" "CHR ''|'' \<notin> set x'"
    for x x' y y' ys ys'
    using append_sep_inj [OF that(2,3)] that(1) unfolding join_bar by blast
  note k = assms(1) [unfolded key_text_def]
  note k1 = sep [OF k] and p = assms(2)
  have 1: "v = v'" using k1 p by blast
  note k2 = sep [OF k1 [THEN conjunct2]]
  have 2: "ev_IdentityID r = ev_IdentityID r'" using k2 p by blast
  note k3 = sep [OF k2 [THEN conjunct2]]
  have 3: "ev_Method r = ev_Method r'" using k3 p by blast
  note k4 = sep [OF k3 [THEN conjunct2]]
  have 4: "ev_Scheme r = ev_Scheme r'" using k4 p by blast
  note k5 = sep [OF k4 [THEN conjunct2]]
  have 5: "ev_Host r = ev_Host r'" using k5 p by blast
  note k6 = sep [OF k5 [THEN conjunct2]]
  have "itoa (ev_Port r) = itoa (ev_Port r') \<and> join_with ''|'' [ev_Path r] = join_with ''|'' [ev_Path r']"
    using k6 p bar_not_in_itoa by blast
  then show ?thesis using 1 2 3 4 5 by (simp add: itoa_inj)
qed

section \<open>Concurrent consults\<close>

text \<open>
  Requests are served by goroutines, so between the two halves of one \<open>Classify\<close> any number of
  others may run. The system keeps the consults that wait for the provider and the answers it
  has given.
\<close>

record advisor_system =
  sy_service :: service
  sy_pending :: "(request_event \<times> string) list"
  sy_answers :: "(string \<times> advisor_output) list"

inductive adv_step :: "advisor_env \<Rightarrow> advisor_system \<Rightarrow> advisor_system \<Rightarrow> bool" for env where
  start: "classify_start env now req rsv hdrs lctx (sy_service s) = (r, sv) \<Longrightarrow>
    adv_step env s (s\<lparr>sy_service := sv,
      sy_pending := (case r of Inl _ \<Rightarrow> sy_pending s | Inr _ \<Rightarrow> (req, rsv) # sy_pending s)\<rparr>)"
| finish: "sy_pending s = ps @ (req, rsv) # qs \<Longrightarrow>
    classify_finish env now latency req rsv result (sy_service s) = (d, sv) \<Longrightarrow>
    adv_step env s (s\<lparr>sy_service := sv, sy_pending := ps @ qs,
      sy_answers := (case result of Inl _ \<Rightarrow> sy_answers s
                     | Inr out \<Rightarrow> (buildCacheKey env rsv req, out) # sy_answers s)\<rparr>)"

inductive adv_reachable :: "advisor_env \<Rightarrow> advisor_config \<Rightarrow> advisor_system \<Rightarrow> bool" for env cfg where
  init: "sy_service s = NewService now inject cfg has_prov \<Longrightarrow> sy_pending s = [] \<Longrightarrow> sy_answers s = [] \<Longrightarrow>
    adv_reachable env cfg s"
| step: "adv_reachable env cfg s \<Longrightarrow> adv_step env s t \<Longrightarrow> adv_reachable env cfg t"

text \<open>The configuration in force, defaults filled in.\<close>

definition effective :: "advisor_config \<Rightarrow> advisor_config" where
  "effective cfg = sv_cfg (NewService 0 [] cfg False)"

lemma effective_cfg: "sv_cfg (NewService now inject cfg p) = effective cfg"
  by (simp add: effective_def NewService_def Let_def)

subsection \<open>Counters\<close>

definition stats_ok :: "nat \<Rightarrow> stats \<Rightarrow> bool" where
  "stats_ok pending st \<longleftrightarrow>
     st_Consulted st = st_Classified st + st_Fallback st + pending
     \<and> st_ErrWire st + st_ErrSchema st + st_ErrUnknown st \<le> st_Fallback st
     \<and> st_Consulted st = sum_list (st_latency st) + st_ErrWire st + st_ErrSchema st + st_ErrUnknown st + pending
     \<and> length (st_latency st) = length latencyBucketsMS"

lemma stats_ok_zero: "stats_ok 0 zero_stats"
  by (simp add: stats_ok_def zero_stats_def)

lemma bucket_of_bound: "bucket_of i ubs ms = Some j \<Longrightarrow> i \<le> j \<and> j < i + length ubs"
  by (induction i ubs ms rule: bucket_of.induct) (auto split: if_splits)

lemma sum_list_incr: "i < length xs \<Longrightarrow> sum_list (xs[i := Suc (xs ! i)]) = Suc (sum_list xs)"
  by (simp add: sum_list_update elem_le_sum_list)

lemma recordLatency_sum:
  "length (st_latency st) = length latencyBucketsMS \<Longrightarrow>
   sum_list (st_latency (recordLatency ms st)) = Suc (sum_list (st_latency st))
   \<and> length (st_latency (recordLatency ms st)) = length latencyBucketsMS"
  using bucket_of_bound [of 0 latencyBucketsMS ms]
  by (auto simp: recordLatency_def Let_def sum_list_incr latencyBucketsMS_def split: option.split)

lemma recordLatency_other [simp]:
  "st_Consulted (recordLatency ms st) = st_Consulted st" "st_Classified (recordLatency ms st) = st_Classified st"
  "st_Fallback (recordLatency ms st) = st_Fallback st" "st_ErrWire (recordLatency ms st) = st_ErrWire st"
  "st_ErrSchema (recordLatency ms st) = st_ErrSchema st" "st_ErrUnknown (recordLatency ms st) = st_ErrUnknown st"
  by (simp_all add: recordLatency_def Let_def)

lemma stats_ok_error: "stats_ok (Suc n) st \<Longrightarrow> stats_ok n (add_error e (add_fallback st))"
  by (auto simp: stats_ok_def add_error_def add_fallback_def)

lemma stats_ok_answer:
  assumes "stats_ok (Suc n) st"
  shows "stats_ok n (add_fallback (recordLatency ms st))"
    "stats_ok n ((recordLatency ms st)\<lparr>st_Classified := Suc (st_Classified st)\<rparr>)"
  using assms recordLatency_sum [of st ms] by (auto simp: stats_ok_def add_fallback_def)

lemmas service_frames = recordDigest_def bump_def

lemma classify_start_stats:
  "classify_start env now req rsv h l s = (r, s') \<Longrightarrow> stats_ok n (sv_stats s) \<Longrightarrow>
   stats_ok (case r of Inl _ \<Rightarrow> n | Inr _ \<Rightarrow> Suc n) (sv_stats s')"
  by (auto simp: classify_start_def service_frames stats_ok_def Let_def split: if_splits prod.splits option.splits)

lemma classify_finish_stats:
  "classify_finish env now lat req rsv res s = (d, s') \<Longrightarrow> stats_ok (Suc n) (sv_stats s) \<Longrightarrow>
   stats_ok n (sv_stats s')"
  by (auto simp: classify_finish_def service_frames Let_def stats_ok_error stats_ok_answer
      split: sum.splits prod.splits if_splits)

lemma adv_step_stats:
  "adv_step env s t \<Longrightarrow> stats_ok (length (sy_pending s)) (sv_stats (sy_service s)) \<Longrightarrow>
   stats_ok (length (sy_pending t)) (sv_stats (sy_service t))"
proof (induction rule: adv_step.induct)
  case (start now req rsv hdrs lctx s r sv)
  with classify_start_stats [OF start(1)] show ?case by (cases r) auto
next
  case (finish s ps req rsv qs now latency result d sv)
  then show ?case using classify_finish_stats [OF finish(2), of "length (ps @ qs)"] by simp
qed

lemma reachable_stats:
  "adv_reachable env cfg s \<Longrightarrow> stats_ok (length (sy_pending s)) (sv_stats (sy_service s))"
  by (induction rule: adv_reachable.induct)
    (auto simp: NewService_def Let_def stats_ok_zero intro: adv_step_stats)

subsection \<open>Provenance of verdicts\<close>

definition cache_ok :: "advisor_env \<Rightarrow> advisor_config \<Rightarrow> (string \<times> advisor_output) list \<Rightarrow> cache_map \<Rightarrow> bool" where
  "cache_ok env cfg answers c \<longleftrightarrow>
     (\<forall>k v. c k = Some v \<longrightarrow>
       (\<exists>out. (k, out) \<in> set answers \<and> validate env cfg out = Inr (cv_decision v, cv_advisorID v)))"

lemma cache_ok_get:
  "cache_get now k c = (c', r) \<Longrightarrow> cache_ok env cfg as c \<Longrightarrow>
   cache_ok env cfg as c' \<and> (\<forall>v. r = Some v \<longrightarrow> c k = Some v)"
  by (auto simp: cache_get_def cache_ok_def split: option.splits if_splits)

lemma cache_ok_mono: "cache_ok env cfg as c \<Longrightarrow> set as \<subseteq> set bs \<Longrightarrow> cache_ok env cfg bs c"
  unfolding cache_ok_def by blast

lemma cache_ok_put:
  "cache_ok env cfg as c \<Longrightarrow> (k, out) \<in> set as \<Longrightarrow> validate env cfg out = Inr (d, a) \<Longrightarrow>
   cache_ok env cfg as (cache_put now ttl k \<lparr>cv_decision = d, cv_advisorID = a, cv_expiresAt = e\<rparr> c)"
  by (auto simp: cache_ok_def cache_put_def)

lemma classify_start_cfg:
  "classify_start env now req rsv h l s = (r, s') \<Longrightarrow>
   sv_cfg s' = sv_cfg s \<and> sv_cache s' \<in> {sv_cache s, fst (cache_get now (buildCacheKey env rsv req) (sv_cache s))}"
  by (auto simp: classify_start_def service_frames Let_def split: if_splits prod.splits option.splits)

lemma classify_finish_cfg:
  "classify_finish env now lat req rsv res s = (d, s') \<Longrightarrow>
   sv_cfg s' = sv_cfg s \<and>
   (sv_cache s' = sv_cache s \<or>
    (\<exists>out dec a. res = Inr out \<and> validate env (sv_cfg s) out = Inr (dec, a) \<and>
      sv_cache s' = cache_put now (ac_CacheTTL (sv_cfg s)) (buildCacheKey env rsv req)
         \<lparr>cv_decision = dec, cv_advisorID = a, cv_expiresAt = 0\<rparr> (sv_cache s)))"
  by (auto simp: classify_finish_def service_frames Let_def split: sum.splits prod.splits if_splits)

lemma reachable_cache:
  "adv_reachable env cfg s \<Longrightarrow>
   sv_cfg (sy_service s) = effective cfg \<and> cache_ok env (effective cfg) (sy_answers s) (sv_cache (sy_service s))"
proof (induction rule: adv_reachable.induct)
  case (init s now inject has_prov)
  moreover have "sv_cache (NewService now inject cfg has_prov) = (\<lambda>_. None)"
    by (simp add: NewService_def Let_def)
  ultimately show ?case by (simp add: effective_cfg cache_ok_def)
next
  case (step s t)
  from step(2,3) show ?case
  proof (induction rule: adv_step.induct)
    case (start now req rsv hdrs lctx s r sv)
    then have "cache_ok env (effective cfg) (sy_answers s)
        (fst (cache_get now (buildCacheKey env rsv req) (sv_cache (sy_service s))))"
      using cache_ok_get by (metis prod.collapse)
    with start classify_start_cfg [OF start(1)] show ?case by auto
  next
    case (finish s ps req rsv qs now latency result d sv)
    let ?as = "case result of Inl _ \<Rightarrow> sy_answers s | Inr out \<Rightarrow> (buildCacheKey env rsv req, out) # sy_answers s"
    have "cache_ok env (effective cfg) ?as (sv_cache (sy_service s))"
      using finish(3) by (cases result) (auto elim: cache_ok_mono)
    with finish(3) classify_finish_cfg [OF finish(2)] show ?case
      by (auto intro!: cache_ok_put)
  qed
qed

section \<open>The properties\<close>

definition demo_env :: advisor_env where
  "demo_env = \<lparr>env_hash = (\<lambda>s. s), env_quote = (\<lambda>s. CHR ''\"'' # s @ ''\"'')\<rparr>"

definition demo_cfg :: advisor_config where
  "demo_cfg = \<lparr>ac_Enabled = True, ac_ConfidenceFloor = ''medium'', ac_OnUnavailable = ''deny'', ac_CacheTTL = second,
     ac_Timeout = second, ac_KnownModifiers = (\<lambda>_. False), ac_Directives = [], ac_Mode = []\<rparr>"

definition demo_answer :: advisor_output where
  "demo_answer = \<lparr>out_Effect = '' Allow'', out_Scope = [], out_Reason = ''ok'', out_Modifiers = [],
     out_Confidence = ''HIGH'', out_AdvisorID = ''m''\<rparr>"

definition demo_s0 :: advisor_system where
  "demo_s0 = \<lparr>sy_service = NewService 0 [] demo_cfg True, sy_pending = [], sy_answers = []\<rparr>"

definition demo_s1 :: advisor_system where
  "demo_s1 = demo_s0\<lparr>
     sy_service := snd (classify_start demo_env 0 zero_request [] (\<lambda>_. None) None (sy_service demo_s0)),
     sy_pending := [(zero_request, [])]\<rparr>"

definition demo_s2 :: advisor_system where
  "demo_s2 = demo_s1\<lparr>
     sy_service := snd (classify_finish demo_env 1 7 zero_request [] (Inr demo_answer) (sy_service demo_s1)),
     sy_pending := [], sy_answers := [(buildCacheKey demo_env [] zero_request, demo_answer)]\<rparr>"

lemma demo_s1_reachable: "adv_reachable demo_env demo_cfg demo_s1"
proof -
  have "adv_reachable demo_env demo_cfg demo_s0"
    by (rule adv_reachable.init [of _ 0 "[]" _ True]) (simp_all add: demo_s0_def)
  moreover obtain i where i: "fst (classify_start demo_env 0 zero_request [] (\<lambda>_. None) None (sy_service demo_s0)) = Inr i"
    by (auto simp: classify_start_def demo_s0_def NewService_def demo_cfg_def cache_get_def Let_def)
  moreover have "adv_step demo_env demo_s0 (demo_s0\<lparr>
      sy_service := snd (classify_start demo_env 0 zero_request [] (\<lambda>_. None) None (sy_service demo_s0)),
      sy_pending := (case fst (classify_start demo_env 0 zero_request [] (\<lambda>_. None) None (sy_service demo_s0)) of
         Inl _ \<Rightarrow> sy_pending demo_s0 | Inr _ \<Rightarrow> (zero_request, []) # sy_pending demo_s0)\<rparr>)"
    by (rule adv_step.start [of _ 0 _ _ "\<lambda>_. None" None]) simp
  ultimately show ?thesis
    by (auto simp: demo_s1_def demo_s0_def intro: adv_reachable.step)
qed

lemma demo_s2_reachable: "adv_reachable demo_env demo_cfg demo_s2"
proof -
  have "adv_step demo_env demo_s1 (demo_s1\<lparr>
      sy_service := snd (classify_finish demo_env 1 7 zero_request [] (Inr demo_answer) (sy_service demo_s1)),
      sy_pending := [] @ [],
      sy_answers := (case Inr demo_answer :: provider_error + advisor_output of Inl _ \<Rightarrow> sy_answers demo_s1
        | Inr out \<Rightarrow> (buildCacheKey demo_env [] zero_request, out) # sy_answers demo_s1)\<rparr>)"
    by (rule adv_step.finish [where now = 1 and latency = 7]) (simp_all add: demo_s1_def prod_eq_iff)
  then show ?thesis
    using demo_s1_reachable by (auto simp: demo_s2_def demo_s1_def demo_s0_def intro: adv_reachable.step)
qed

text \<open>
  The advisor's counters. In every state that concurrent consults can reach, the consults
  are exactly the classified ones, the ones that fell back and the ones still waiting for the
  provider; provider errors are a part of the fallbacks; and the latency histogram, which always
  has its ten buckets, counts exactly the consults that got an answer.
\<close>

lemma advisor_counters:
  assumes "adv_reachable env cfg s"
  defines "st \<equiv> sv_stats (sy_service s)"
  shows "st_Consulted st = st_Classified st + st_Fallback st + length (sy_pending s)
    \<and> st_ErrWire st + st_ErrSchema st + st_ErrUnknown st \<le> st_Fallback st
    \<and> length (st_latency st) = length latencyBucketsMS
    \<and> sum_list (st_latency st) + (st_ErrWire st + st_ErrSchema st + st_ErrUnknown st) + length (sy_pending s)
      = st_Consulted st"
  using reachable_stats [OF assms(1)] by (auto simp: st_def stats_ok_def)

lemma advisor_counters_example:
  "st_Consulted (sv_stats (sy_service demo_s1)) =
     st_Classified (sv_stats (sy_service demo_s1)) + st_Fallback (sv_stats (sy_service demo_s1)) + 1"
  using advisor_counters [OF demo_s1_reachable] by (simp add: demo_s1_def)

lemma classify_finish_allow:
  "classify_finish env now lat req rsv res s = ((d, a), s') \<Longrightarrow> d_Effect d = EffectAllow \<Longrightarrow>
   (\<exists>e. res = Inl e) \<and> ac_OnUnavailable (sv_cfg s) = ''allow''
   \<or> (\<exists>out. res = Inr out \<and> says_allow (sv_cfg s) out)"
  by (auto simp: classify_finish_def service_frames Let_def unavailable_allow validate_allow
      split: sum.splits prod.splits if_splits)

lemma classify_start_answer:
  "classify_start env now req rsv h l s = (Inl (d, a), s') \<Longrightarrow>
   \<not> (ac_Enabled (sv_cfg s) \<and> sv_has_prov s) \<and> d = unavailableDecision (sv_cfg s) ''advisor disabled''
   \<or> (\<exists>v. sv_cache s (buildCacheKey env rsv req) = Some v \<and> now \<le> cv_expiresAt v
        \<and> d = cv_decision v \<and> a = cv_advisorID v)"
  by (auto simp: classify_start_def service_frames cache_get_def Let_def split: if_splits option.splits prod.splits)

text \<open>
  C4: the advisor never elevates. Whatever consults have run before, an answer given without
  asking allows the request only when an unavailable advisor is configured to allow, or when the
  provider itself once answered, under the same cache key, with an explicit allow whose
  confidence reaches the floor; and an answer given after asking allows it only on such an
  output, or on an error where unavailability is configured to allow.
\<close>

theorem advisor_never_elevates:
  assumes "adv_reachable env cfg s"
  shows "(\<forall>now req rsv h l d a s'. classify_start env now req rsv h l (sy_service s) = (Inl (d, a), s') \<and>
        d_Effect d = EffectAllow \<longrightarrow>
        ac_OnUnavailable (effective cfg) = ''allow''
        \<or> (\<exists>out. (buildCacheKey env rsv req, out) \<in> set (sy_answers s) \<and> says_allow (effective cfg) out))
    \<and> (\<forall>now lat req rsv res d a s'. classify_finish env now lat req rsv res (sy_service s) = ((d, a), s') \<and>
        d_Effect d = EffectAllow \<longrightarrow>
        (\<exists>e. res = Inl e) \<and> ac_OnUnavailable (effective cfg) = ''allow''
        \<or> (\<exists>out. res = Inr out \<and> says_allow (effective cfg) out))"
proof (intro conjI allI impI; elim conjE)
  note inv = reachable_cache [OF assms]
  fix now req rsv h l d a s'
  assume c: "classify_start env now req rsv h l (sy_service s) = (Inl (d, a), s')" and e: "d_Effect d = EffectAllow"
  show "ac_OnUnavailable (effective cfg) = ''allow''
      \<or> (\<exists>out. (buildCacheKey env rsv req, out) \<in> set (sy_answers s) \<and> says_allow (effective cfg) out)"
    using classify_start_answer [OF c] e inv
    by (auto simp: unavailable_allow cache_ok_def dest: validate_allow)
next
  note inv = reachable_cache [OF assms]
  fix now lat req rsv res d a s'
  assume c: "classify_finish env now lat req rsv res (sy_service s) = ((d, a), s')" and e: "d_Effect d = EffectAllow"
  show "(\<exists>e. res = Inl e) \<and> ac_OnUnavailable (effective cfg) = ''allow''
      \<or> (\<exists>out. res = Inr out \<and> says_allow (effective cfg) out)"
    using classify_finish_allow [OF c e] inv by simp
qed

lemma effective_demo: "ac_OnUnavailable (effective demo_cfg) = ''deny''"
  by (simp add: effective_def NewService_def demo_cfg_def Let_def)

lemma demo_validates:
  "\<exists>d. validate demo_env (effective demo_cfg) demo_answer = Inr (d, ''m'') \<and> d_Effect d = EffectAllow"
proof -
  have "trim_space (to_lower '' Allow'') = ''allow''" "trim_space (to_lower ''HIGH'') = ''high''"
    by code_simp+
  then show ?thesis
    by (simp add: validate_def demo_answer_def effective_def NewService_def demo_cfg_def
        confidenceMeetsFloor_def conf_rank_def Let_def)
qed

lemma demo_cached:
  "\<exists>v. sv_cache (sy_service demo_s2) (buildCacheKey demo_env [] zero_request) = Some v
     \<and> d_Effect (cv_decision v) = EffectAllow \<and> cv_expiresAt v = 1 + second"
proof -
  have "sv_cfg (sy_service demo_s1) = effective demo_cfg" using reachable_cache [OF demo_s1_reachable] by simp
  moreover have "ac_CacheTTL (effective demo_cfg) = second"
    by (simp add: effective_def NewService_def demo_cfg_def Let_def)
  ultimately show ?thesis
    using demo_validates
    by (auto simp: demo_s2_def classify_finish_def service_frames cache_put_def Let_def)
qed

lemma demo_hit:
  "\<exists>d a sv. classify_start demo_env 2 zero_request [] (\<lambda>_. None) None (sy_service demo_s2) = (Inl (d, a), sv)
     \<and> d_Effect d = EffectAllow"
proof -
  have cfg: "sv_cfg (sy_service demo_s2) = effective demo_cfg" using reachable_cache [OF demo_s2_reachable] by simp
  have "ac_Enabled (effective demo_cfg)"
    by (simp add: effective_def NewService_def demo_cfg_def Let_def)
  moreover have "sv_has_prov (sy_service demo_s2)"
    using demo_validates reachable_cache [OF demo_s1_reachable]
    by (auto simp: demo_s2_def demo_s1_def demo_s0_def classify_finish_def classify_start_def cache_get_def
        service_frames NewService_def Let_def split: sum.splits prod.splits option.splits if_splits)
  ultimately show ?thesis
    using demo_cached by (auto simp: classify_start_def cache_get_def cfg)
qed

theorem advisor_never_elevates_witness:
  "\<exists>d a sv. classify_start demo_env 2 zero_request [] (\<lambda>_. None) None (sy_service demo_s2) = (Inl (d, a), sv)
     \<and> d_Effect d = EffectAllow
     \<and> (\<exists>out. (buildCacheKey demo_env [] zero_request, out) \<in> set (sy_answers demo_s2)
          \<and> says_allow (effective demo_cfg) out)"
proof -
  from demo_hit obtain d a sv where r: "classify_start demo_env 2 zero_request [] (\<lambda>_. None) None (sy_service demo_s2) = (Inl (d, a), sv)"
    "d_Effect d = EffectAllow" by blast
  with advisor_never_elevates [OF demo_s2_reachable] effective_demo show ?thesis by fastforce
qed

end
