(* ===== verification/Refusal.thy ===== *)
theory Refusal
  imports Types
begin

text \<open>
  \<open>internal/server/refusal.go\<close> and the status mapping of \<open>server.go\<close>: the response a refused
  request gets. \<open>mime.ParseMediaType\<close> is a parameter (\<open>None\<close> is its error); the JSON body is
  rendered the way \<open>encoding/json\<close> renders a struct of two strings.
\<close>

section \<open>The wire contract\<close>

definition HeaderRequestID :: string where "HeaderRequestID = ''Trollbridge-Request-Id''"
definition HeaderReason :: string where "HeaderReason = ''Trollbridge-Reason''"
definition HeaderProxyStatus :: string where "HeaderProxyStatus = ''Proxy-Status''"
definition HeaderHoldID :: string where "HeaderHoldID = ''Trollbridge-Hold-Id''"
definition HeaderDiscovery :: string where "HeaderDiscovery = ''Trollbridge-Discovery''"

definition MagicHost :: string where "MagicHost = ''config.trollbridge.dev''"
definition DiscoveryURL :: string where "DiscoveryURL = ''http://'' @ MagicHost @ ''/discovery''"

definition StatusTrollbridgeDeclined :: int where "StatusTrollbridgeDeclined = 470"
definition StatusTrollbridgePending :: int where "StatusTrollbridgePending = 471"

definition statusFromEffect :: "effect \<Rightarrow> int" where
  "statusFromEffect e =
     (case e of
        EffectDeny \<Rightarrow> StatusTrollbridgeDeclined
      | EffectAskUserResolvedDeny \<Rightarrow> StatusTrollbridgeDeclined
      | EffectAskUserTimedOut \<Rightarrow> StatusTrollbridgeDeclined
      | EffectAskUser \<Rightarrow> StatusTrollbridgePending
      | EffectAskLLM \<Rightarrow> StatusTrollbridgePending
      | EffectAskUserSignaled \<Rightarrow> StatusTrollbridgePending
      | _ \<Rightarrow> 200)"

definition categoricalEffect :: "effect \<Rightarrow> string" where
  "categoricalEffect e =
     (case e of
        EffectAskUser \<Rightarrow> ''pending''
      | EffectAskLLM \<Rightarrow> ''pending''
      | EffectAskUserSignaled \<Rightarrow> ''pending''
      | _ \<Rightarrow> ''declined'')"

definition proxyStatusToken :: "effect \<Rightarrow> string" where
  "proxyStatusToken e =
     (case e of
        EffectAskUserTimedOut \<Rightarrow> ''proxy_internal_response''
      | EffectAskUser \<Rightarrow> ''proxy_internal_response''
      | EffectAskLLM \<Rightarrow> ''proxy_internal_response''
      | EffectAskUserSignaled \<Rightarrow> ''proxy_internal_response''
      | _ \<Rightarrow> ''http_request_denied'')"

definition plainTextBody :: "string \<Rightarrow> string \<Rightarrow> string" where
  "plainTextBody category requestID =
     ''trollbridge: request '' @ category @ '' (request_id='' @ requestID @ '')''"

abbreviation quote_char :: char where "quote_char \<equiv> CHR 0x22"
abbreviation backslash :: char where "backslash \<equiv> CHR 0x5C"

definition sf_char :: "char \<Rightarrow> string" where
  "sf_char c =
     (if c = backslash \<or> c = quote_char then [backslash, c]
      else if of_char c < (0x20 :: nat) \<or> (0x7f :: nat) \<le> of_char c then ''?''
      else [c])"

definition sfQuotedString :: "string \<Rightarrow> string" where
  "sfQuotedString s = quote_char # concat (map sf_char s) @ [quote_char]"

definition formatProxyStatus :: "string \<Rightarrow> string \<Rightarrow> string" where
  "formatProxyStatus token requestID =
     ''trollbridge; error='' @ token @ ''; request-id='' @ sfQuotedString requestID"

fun accepts_part :: "(string \<Rightarrow> string option) \<Rightarrow> string list \<Rightarrow> bool" where
  "accepts_part parse [] = False"
| "accepts_part parse (part # parts) =
     (case parse (trim_space part) of
        None \<Rightarrow> accepts_part parse parts
      | Some mt \<Rightarrow> if mt = ''application/json'' then True else accepts_part parse parts)"

definition acceptsJSON :: "(string \<Rightarrow> string option) \<Rightarrow> string \<Rightarrow> bool" where
  "acceptsJSON parse accept =
     (if accept = [] then False else accepts_part parse (split_on (CHR '','') accept))"

text \<open>Strings in JSON, HTML characters escaped; bytes above ASCII are copied.\<close>

definition hex_digit :: "nat \<Rightarrow> char" where
  "hex_digit n = ''0123456789abcdef'' ! n"

definition json_char :: "char \<Rightarrow> string" where
  "json_char c =
     (let n = (of_char c :: nat) in
      if c = quote_char \<or> c = backslash then [backslash, c]
      else if n = 8 then backslash # ''b'' else if n = 12 then backslash # ''f''
      else if n = 10 then backslash # ''n'' else if n = 13 then backslash # ''r''
      else if n = 9 then backslash # ''t''
      else if n < 0x20 \<or> c \<in> set ''<>&'' then
        backslash # ''u00'' @ [hex_digit (n div 16), hex_digit (n mod 16)]
      else [c])"

definition json_string :: "string \<Rightarrow> string" where
  "json_string s = quote_char # concat (map json_char s) @ [quote_char]"

definition refusalBody :: "string \<Rightarrow> string \<Rightarrow> string" where
  "refusalBody eff requestID =
     CHR ''{'' # json_string ''effect'' @ '':'' @ json_string eff @ '','' @
     json_string ''request_id'' @ '':'' @ json_string requestID @ ''}''"

type_synonym refusal = "(string \<times> string) list \<times> string \<times> string"

definition denyResponse :: "(string \<Rightarrow> string option) \<Rightarrow> decision \<Rightarrow> string \<Rightarrow> string \<Rightarrow> refusal" where
  "denyResponse parse d requestID accept =
     (let requestID = (if requestID = [] then ''unknown'' else requestID);
          token = proxyStatusToken (d_Effect d);
          category = categoricalEffect (d_Effect d);
          headers = [(HeaderRequestID, requestID), (HeaderReason, category),
                     (HeaderProxyStatus, formatProxyStatus token requestID), (HeaderDiscovery, DiscoveryURL)];
          headers = (if d_HoldID d \<noteq> [] then aput HeaderHoldID (d_HoldID d) headers else headers)
      in if acceptsJSON parse accept then (headers, refusalBody category requestID, ''application/json'')
         else (headers, plainTextBody category requestID, ''text/plain; charset=utf-8''))"

section \<open>The structured string of Proxy-Status\<close>

text \<open>A reader of RFC 8941 strings: the contents and what follows the closing quote.\<close>

fun sf_rest :: "string \<Rightarrow> (string \<times> string) option" where
  "sf_rest [] = None"
| "sf_rest (c # s) =
     (if c = quote_char then Some ([], s)
      else if c = backslash then
        (case s of
           [] \<Rightarrow> None
         | e # s' \<Rightarrow> if e = quote_char \<or> e = backslash then map_option (apfst (Cons e)) (sf_rest s') else None)
      else if of_char c < (0x20 :: nat) \<or> (0x7f :: nat) \<le> of_char c then None
      else map_option (apfst (Cons c)) (sf_rest s))"

definition sf_parse :: "string \<Rightarrow> (string \<times> string) option" where
  "sf_parse s = (case s of c # s' \<Rightarrow> if c = quote_char then sf_rest s' else None | [] \<Rightarrow> None)"

definition visible :: "char \<Rightarrow> char" where
  "visible c = (if of_char c < (0x20 :: nat) \<or> (0x7f :: nat) \<le> of_char c then CHR ''?'' else c)"

lemma sf_rest_char: "sf_rest (sf_char c @ s) = map_option (apfst (Cons (visible c))) (sf_rest s)"
proof -
  consider "c = backslash" | "c = quote_char" | "of_char c < (0x20 :: nat) \<or> (0x7f :: nat) \<le> of_char c"
    | "c \<noteq> backslash" "c \<noteq> quote_char" "\<not> (of_char c < (0x20 :: nat) \<or> (0x7f :: nat) \<le> of_char c)"
    by blast
  then show ?thesis by cases (auto simp: sf_char_def visible_def)
qed

lemma sf_rest_string: "sf_rest (concat (map sf_char s) @ quote_char # rest) = Some (map visible s, rest)"
  by (induction s) (simp_all add: sf_rest_char)

text \<open>
  The quoted request id round-trips. A reader of structured fields gets back from the
  quoted string exactly the characters that went in, those that may not appear in a header
  replaced by a question mark, and stops right at its end: nothing in the id can close the
  string early, add a parameter or break the header line.
\<close>

lemma sf_quoted_roundtrip: "sf_parse (sfQuotedString s @ rest) = Some (map visible s, rest)"
  by (simp add: sfQuotedString_def sf_parse_def sf_rest_string)

section \<open>What a refusal says\<close>

definition allows :: "effect \<Rightarrow> bool" where
  "allows e \<longleftrightarrow> e = EffectAllow \<or> e = EffectAskUserResolvedAllow"

definition named :: "effect \<Rightarrow> bool" where
  "named e \<longleftrightarrow> (\<forall>s. e \<noteq> EffectOther s)"

lemma status_refused:
  "named e \<Longrightarrow> \<not> allows e \<Longrightarrow>
   statusFromEffect e = (if categoricalEffect e = ''pending'' then 471 else 470)"
  by (cases e) (auto simp: named_def allows_def statusFromEffect_def categoricalEffect_def
      StatusTrollbridgeDeclined_def StatusTrollbridgePending_def)

lemma header_names_distinct:
  "distinct [HeaderRequestID, HeaderReason, HeaderProxyStatus, HeaderDiscovery, HeaderHoldID]"
  by (simp add: HeaderRequestID_def HeaderReason_def HeaderProxyStatus_def HeaderDiscovery_def HeaderHoldID_def)

text \<open>
  The refusal contract. Every refused request gets 471 when its category is pending and 470
  otherwise, with the request id, the category, the proxy status and the discovery URL, and the
  hold id exactly when there is one. The answer is a function of the category, the token and the
  hold id alone: whatever rule, reason, source, advisor or modifiers are behind the decision,
  nothing of them shows.
\<close>

lemma refusal_contract:
  assumes "named (d_Effect d)" "\<not> allows (d_Effect d)" "requestID \<noteq> []"
  shows "statusFromEffect (d_Effect d) = (if categoricalEffect (d_Effect d) = ''pending'' then 471 else 470)
    \<and> map_of (fst (denyResponse parse d requestID accept)) =
        [HeaderRequestID \<mapsto> requestID, HeaderReason \<mapsto> categoricalEffect (d_Effect d),
         HeaderProxyStatus \<mapsto> formatProxyStatus (proxyStatusToken (d_Effect d)) requestID,
         HeaderDiscovery \<mapsto> DiscoveryURL]
        ++ (if d_HoldID d = [] then Map.empty else [HeaderHoldID \<mapsto> d_HoldID d])
    \<and> (\<forall>d'. categoricalEffect (d_Effect d') = categoricalEffect (d_Effect d)
          \<and> proxyStatusToken (d_Effect d') = proxyStatusToken (d_Effect d) \<and> d_HoldID d' = d_HoldID d \<longrightarrow>
        denyResponse parse d' requestID accept = denyResponse parse d requestID accept)"
proof (intro conjI allI impI)
  show "statusFromEffect (d_Effect d) = (if categoricalEffect (d_Effect d) = ''pending'' then 471 else 470)"
    by (rule status_refused [OF assms(1,2)])
  show "map_of (fst (denyResponse parse d requestID accept)) =
        [HeaderRequestID \<mapsto> requestID, HeaderReason \<mapsto> categoricalEffect (d_Effect d),
         HeaderProxyStatus \<mapsto> formatProxyStatus (proxyStatusToken (d_Effect d)) requestID,
         HeaderDiscovery \<mapsto> DiscoveryURL]
        ++ (if d_HoldID d = [] then Map.empty else [HeaderHoldID \<mapsto> d_HoldID d])"
    using header_names_distinct assms(3)
    by (auto simp: denyResponse_def Let_def fun_eq_iff map_add_def)
qed (auto simp: denyResponse_def Let_def)

lemma refusal_contract_example:
  "statusFromEffect EffectAskUserSignaled = 471
   \<and> denyResponse (\<lambda>_. None) (zero_decision\<lparr>d_Effect := EffectDeny, d_Reason := ''secret rule''\<rparr>) ''id'' []
     = denyResponse (\<lambda>_. None) (zero_decision\<lparr>d_Effect := EffectAskUserResolvedDeny\<rparr>) ''id'' []"
proof
  let ?p = "\<lambda>_. None" and ?a = "zero_decision\<lparr>d_Effect := EffectDeny, d_Reason := ''secret rule''\<rparr>"
    and ?b = "zero_decision\<lparr>d_Effect := EffectAskUserResolvedDeny\<rparr>"
  have "named EffectAskUserSignaled" "\<not> allows EffectAskUserSignaled"
    "named EffectAskUserResolvedDeny" "\<not> allows EffectAskUserResolvedDeny"
    by (simp_all add: named_def allows_def)
  then have s: "named (d_Effect (zero_decision\<lparr>d_Effect := EffectAskUserSignaled\<rparr>))"
      "\<not> allows (d_Effect (zero_decision\<lparr>d_Effect := EffectAskUserSignaled\<rparr>))"
    and b: "named (d_Effect ?b)" "\<not> allows (d_Effect ?b)"
    by simp_all
  have "''id'' \<noteq> []" by simp
  from refusal_contract [OF s this, THEN conjunct1] show "statusFromEffect EffectAskUserSignaled = 471"
    by (simp add: categoricalEffect_def)
  have "\<forall>d'. categoricalEffect (d_Effect d') = categoricalEffect (d_Effect ?b)
      \<and> proxyStatusToken (d_Effect d') = proxyStatusToken (d_Effect ?b) \<and> d_HoldID d' = d_HoldID ?b \<longrightarrow>
      denyResponse ?p d' ''id'' [] = denyResponse ?p ?b ''id'' []"
    using refusal_contract [OF b \<open>''id'' \<noteq> []\<close>] by blast
  from this [rule_format, of ?a] show "denyResponse ?p ?a ''id'' [] = denyResponse ?p ?b ''id'' []"
    by (simp add: categoricalEffect_def proxyStatusToken_def)
qed

text \<open>An effect that is none of the named ones would be refused with the status of success.\<close>

lemma unnamed_effect_status: "statusFromEffect (EffectOther s) = 200"
  by (simp add: statusFromEffect_def)

end
