(* ===== verification/Forward.thy ===== *)
theory Forward
  imports Refusal
begin

text \<open>
  The pure helpers of \<open>internal/server/server.go\<close> around a forwarded request: the target
  address, the headers that go upstream, the headers and texts that go to the advisor, the audit
  log and the console, and the check for the self-describe host. \<open>url.Parse\<close> is the parameter
  \<open>url_host\<close>: the \<open>Host\<close> of the parsed URL, \<open>None\<close> for an error.
\<close>

section \<open>Target address\<close>

text \<open>\<open>strconv.Atoi\<close> with its error ignored: zero for a syntax error, the nearest end of the range
  for a number out of range.\<close>

definition atoi_ignoring :: "string \<Rightarrow> int" where
  "atoi_ignoring s =
     (let (neg, ds) = (case s of
           c # t \<Rightarrow> if c = CHR ''-'' then (True, t) else if c = CHR ''+'' then (False, t) else (False, s)
         | [] \<Rightarrow> (False, []));
          v = (if neg then - int (digits_val ds) else int (digits_val ds))
      in if ds = [] \<or> \<not> list_all is_digit ds then 0
         else if v < - (2 ^ 63) then - (2 ^ 63) else if v > 2 ^ 63 - 1 then 2 ^ 63 - 1 else v)"

partial_function (option) splitHostPort ::
    "(string \<Rightarrow> string option) \<Rightarrow> string \<Rightarrow> string \<Rightarrow> (string \<times> int) option" where
  "splitHostPort url_host hostport defaultPort =
     (if hostport = [] then Some ([], atoi_ignoring defaultPort)
      else case split_host_port hostport of
        None \<Rightarrow>
          (case url_host hostport of
             None \<Rightarrow> Some (hostport, atoi_ignoring defaultPort)
           | Some u \<Rightarrow>
               if u \<noteq> [] \<and> u \<noteq> hostport then splitHostPort url_host u defaultPort
               else Some (hostport, atoi_ignoring defaultPort))
      | Some (h, p) \<Rightarrow> Some (h, atoi_ignoring p))"

text \<open>
  Finding the target address terminates. The host that \<open>url.Parse\<close> reports is a part of the
  text it parsed, so it is shorter unless it is the text itself; then the recursion ends for
  every target, and an address with a host and a port is split as it stands.
\<close>

lemma splitHostPort_terminates:
  assumes "\<And>s u. url_host s = Some u \<Longrightarrow> u \<noteq> s \<Longrightarrow> length u < length s"
  shows "\<exists>host port. splitHostPort url_host hostport defaultPort = Some (host, port)
    \<and> (\<forall>h p. split_host_port hostport = Some (h, p) \<and> hostport \<noteq> [] \<longrightarrow> host = h \<and> port = atoi_ignoring p)"
proof (induction hostport rule: length_induct)
  case (1 hostport)
  show ?case
  proof (cases "hostport = [] \<or> split_host_port hostport \<noteq> None")
    case True
    then show ?thesis by (subst splitHostPort.simps) (auto split: option.split prod.split)
  next
    case False
    then have n: "hostport \<noteq> []" "split_host_port hostport = None"
      by (simp, cases "split_host_port hostport") auto
    show ?thesis
    proof (cases "\<exists>u. url_host hostport = Some u \<and> u \<noteq> [] \<and> u \<noteq> hostport")
      case True
      then obtain u where u: "url_host hostport = Some u" "u \<noteq> []" "u \<noteq> hostport" by blast
      with assms have "length u < length hostport" by blast
      with 1 obtain h p where "splitHostPort url_host u defaultPort = Some (h, p)" by blast
      with n u show ?thesis by (subst splitHostPort.simps) simp
    next
      case False
      with n show ?thesis by (subst splitHostPort.simps) (auto split: option.split)
    qed
  qed
qed

definition demo_url_host :: "string \<Rightarrow> string option" where
  "demo_url_host s = (if has_prefix s ''http://'' then Some (trim_suffix (drop 7 s) ''/'') else None)"

lemma demo_url_host_shorter: "demo_url_host s = Some u \<Longrightarrow> u \<noteq> s \<Longrightarrow> length u < length s"
  by (auto simp: demo_url_host_def trim_suffix_def has_prefix_def prefix_def split: if_splits)

lemma splitHostPort_terminates_example:
  "\<exists>host port. splitHostPort demo_url_host ''http://a.com:8080/'' ''80'' = Some (host, port)"
  using splitHostPort_terminates [OF demo_url_host_shorter] by blast

definition IsMagicHost :: "string \<Rightarrow> string \<Rightarrow> bool" where
  "IsMagicHost urlHost reqHost =
     (let host = (if urlHost = [] then reqHost else urlHost) in
      if host = [] then False
      else let host = (case last_index_byte host (CHR '':'') of Some i \<Rightarrow> take i host | None \<Rightarrow> host)
        in equal_fold host MagicHost)"

section \<open>Headers that go upstream\<close>

definition hop_names :: "string list" where
  "hop_names = [''Connection'', ''Proxy-Connection'', ''Proxy-Authorization'', ''Proxy-Authenticate'',
     ''Keep-Alive'', ''TE'', ''Trailers'', ''Transfer-Encoding'', ''Upgrade'',
     ''X-Trollbridge-LLM-Input-Hash'', ''X-Original-Query'']"

definition del_named :: "string \<Rightarrow> headers \<Rightarrow> headers" where
  "del_named name h = (let name = trim_space name in if name \<noteq> [] then header_del h name else h)"

definition stripHopByHop :: "headers \<Rightarrow> headers" where
  "stripHopByHop h =
     (let h = fold del_named (split_on (CHR '','') (header_get h ''Connection'')) h
      in fold (\<lambda>name h. header_del h name) hop_names h)"

definition outbound_headers :: "headers \<Rightarrow> headers" where
  "outbound_headers h =
     (let out = stripHopByHop h
      in header_set out ''Via'' (trim_space (header_get out ''Via'' @ '' 1.1 trollbridge'')))"

lemma fold_header_del:
  "fold (\<lambda>name h. header_del h name) names h k = (if k \<in> canon_key ` set names then None else h k)"
  by (induction names arbitrary: h) (auto simp: header_del_def)

lemma fold_del_named:
  "fold del_named names h k =
     (if k \<in> canon_key ` (trim_space ` set names - {[]}) then None else h k)"
  by (induction names arbitrary: h) (auto simp: del_named_def header_del_def Let_def)

definition connection_names :: "headers \<Rightarrow> string set" where
  "connection_names h =
     canon_key ` (trim_space ` set (split_on (CHR '','') (header_get h ''Connection'')) - {[]})"

lemma strip_spec:
  "stripHopByHop h k = (if k \<in> canon_key ` set hop_names \<union> connection_names h then None else h k)"
  by (simp add: stripHopByHop_def fold_header_del fold_del_named connection_names_def Let_def)

lemma via_name: "canon_key ''Via'' = ''Via''" "''Via'' \<notin> canon_key ` set hop_names"
  by code_simp+

lemma canon_hop_names:
  "canon_key ` set hop_names =
     {''Connection'', ''Proxy-Connection'', ''Proxy-Authorization'', ''Proxy-Authenticate'', ''Keep-Alive'', ''Te'',
      ''Trailers'', ''Transfer-Encoding'', ''Upgrade'', ''X-Trollbridge-Llm-Input-Hash'', ''X-Original-Query''}"
  by code_simp

text \<open>
  C35: what reaches the origin. None of the hop-by-hop headers, of the proxy's own credentials
  and of its internal hints is forwarded, nor any header the client named in \<open>Connection\<close>; \<open>Via\<close>
  is what the client sent, unless it asked for its removal, with this hop added; every other
  header is forwarded unchanged.
\<close>

theorem outbound_headers_clean:
  "outbound_headers h k =
     (if k = ''Via'' then
        Some [trim_space ((if ''Via'' \<in> connection_names h then [] else header_get h ''Via'') @ '' 1.1 trollbridge'')]
      else if k \<in> {''Connection'', ''Proxy-Connection'', ''Proxy-Authorization'', ''Proxy-Authenticate'', ''Keep-Alive'',
          ''Te'', ''Trailers'', ''Transfer-Encoding'', ''Upgrade'', ''X-Trollbridge-Llm-Input-Hash'',
          ''X-Original-Query''} \<or> k \<in> connection_names h then None
      else h k)"
  unfolding canon_hop_names [symmetric]
  by (simp add: outbound_headers_def header_set_def header_get_def strip_spec via_name Let_def)

text \<open>Only the first \<open>Connection\<close> header is read: a header that a second one names is forwarded.\<close>

lemma second_connection_header_ignored:
  "outbound_headers [''Connection'' \<mapsto> [''close'', ''X-Secret''], ''X-Secret'' \<mapsto> [''v'']] ''X-Secret'' = Some [''v'']"
  by code_simp

section \<open>Headers that go to the advisor and the audit log\<close>

definition advisor_headers :: "headers \<Rightarrow> string \<Rightarrow> string option" where
  "advisor_headers h k =
     (case h k of
        None \<Rightarrow> None
      | Some _ \<Rightarrow>
          let v = header_get h k in
          if to_lower k \<in> {''authorization'', ''cookie'', ''proxy-authorization''} then Some ''<redacted>''
          else Some v)"

definition audit_modifier :: "string \<Rightarrow> headers \<times> nat \<Rightarrow> headers \<times> nat" where
  "audit_modifier m = (\<lambda>(out, n).
     if m = ''redact_authorization_header'' then
       (if header_get out ''Authorization'' \<noteq> [] then (header_set out ''Authorization'' ''<redacted>'', Suc n)
        else (out, n))
     else if m = ''redact_cookie'' then
       (if header_get out ''Cookie'' \<noteq> [] then (header_set out ''Cookie'' ''<redacted>'', Suc n)
        else (out, n))
     else (out, n))"

definition redactHeadersForAudit :: "headers \<Rightarrow> string list \<Rightarrow> headers \<times> nat" where
  "redactHeadersForAudit h modifiers =
     (case fold audit_modifier modifiers (h, 0) of
        (out, n) \<Rightarrow>
          if header_get out ''Proxy-Authorization'' \<noteq> []
          then (header_set out ''Proxy-Authorization'' ''<redacted>'', Suc n) else (out, n))"

lemma advisor_headers_redacted:
  "advisor_headers h k = Some v \<Longrightarrow> to_lower k \<in> {''authorization'', ''cookie'', ''proxy-authorization''} \<Longrightarrow>
   v = ''<redacted>''"
  by (auto simp: advisor_headers_def Let_def split: option.splits)

section \<open>Texts\<close>

definition bodyMethodNeedsSample :: "string \<Rightarrow> bool" where
  "bodyMethodNeedsSample m \<longleftrightarrow> to_upper m \<in> {''POST'', ''PUT'', ''PATCH'', ''DELETE''}"

definition inspectionStatus :: "bool \<Rightarrow> bool \<Rightarrow> string" where
  "inspectionStatus hasBody truncated =
     (if \<not> hasBody then ''not_required'' else if truncated then ''truncated'' else ''inspected'')"

definition opURLForRequest :: "request_event \<Rightarrow> string" where
  "opURLForRequest req =
     (if ev_Method req = ''CONNECT'' \<or> ev_Scheme req = [] then
        (if ev_Port req = 443 then ev_Host req else ev_Host req @ '':'' @ itoa (ev_Port req))
      else
        let scheme = (if ev_Scheme req = ''https-tunneled'' \<or> ev_Scheme req = ''https-intercepted''
                      then ''https'' else ev_Scheme req)
        in if (scheme = ''http'' \<and> ev_Port req = 80) \<or> (scheme = ''https'' \<and> ev_Port req = 443)
           then scheme @ ''://'' @ ev_Host req @ ev_Path req
           else scheme @ ''://'' @ ev_Host req @ '':'' @ itoa (ev_Port req) @ ev_Path req)"

definition opStatusFromAudit :: "int \<Rightarrow> string \<Rightarrow> string" where
  "opStatusFromAudit status err =
     (if status = StatusTrollbridgeDeclined then ''denied''
      else if status = StatusTrollbridgePending then ''signaled''
      else if status > 0 then itoa status
      else if err \<noteq> [] then ''error''
      else ''running'')"

end
