(* ===== verification/TLSDiag.thy ===== *)
theory TLSDiag
  imports Refusal
begin

text \<open>
  \<open>internal/server/tls_diag.go\<close>: what a failed TLS handshake is reported as. An error is what the
  code asks of it: the answers of \<open>errors.Is\<close> and \<open>errors.As\<close>, and its text.
\<close>

record tls_error =
  te_deadline :: bool
  te_net_timeout :: "bool option"
  te_eof :: bool
  te_reset :: bool
  te_text :: string

datatype tls_category =
    TLSErrUnknown
  | TLSErrClientRejectedCA
  | TLSErrClientALPNMismatch
  | TLSErrClientCipherMismatch
  | TLSErrClientVersionUnsupported
  | TLSErrHandshakeTimeout
  | TLSErrMalformedClientHello
  | TLSErrClientClosed
  | TLSErrUpstreamCertInvalid
  | TLSErrUpstreamConnect

fun category_string :: "tls_category option \<Rightarrow> string" where
  "category_string None = []"
| "category_string (Some TLSErrUnknown) = ''unknown''"
| "category_string (Some TLSErrClientRejectedCA) = ''client_rejected_ca''"
| "category_string (Some TLSErrClientALPNMismatch) = ''client_alpn_mismatch''"
| "category_string (Some TLSErrClientCipherMismatch) = ''client_cipher_mismatch''"
| "category_string (Some TLSErrClientVersionUnsupported) = ''client_version_unsupported''"
| "category_string (Some TLSErrHandshakeTimeout) = ''handshake_timeout''"
| "category_string (Some TLSErrMalformedClientHello) = ''malformed_clienthello''"
| "category_string (Some TLSErrClientClosed) = ''client_closed''"
| "category_string (Some TLSErrUpstreamCertInvalid) = ''upstream_cert_invalid''"
| "category_string (Some TLSErrUpstreamConnect) = ''upstream_connect''"

definition isTimeoutErr :: "tls_error \<Rightarrow> bool" where
  "isTimeoutErr e = (if te_deadline e then True else (case te_net_timeout e of Some t \<Rightarrow> t | None \<Rightarrow> False))"

definition mentions :: "string \<Rightarrow> string list \<Rightarrow> bool" where
  "mentions s texts = list_ex (contains_str s) texts"

definition ClassifyClientHandshakeErrorAfter :: "tls_error option \<Rightarrow> bool \<Rightarrow> tls_category option" where
  "ClassifyClientHandshakeErrorAfter err helloReceived =
     (case err of
        None \<Rightarrow> None
      | Some e \<Rightarrow> Some
         (if isTimeoutErr e then TLSErrHandshakeTimeout
          else if te_eof e then (if helloReceived then TLSErrClientRejectedCA else TLSErrClientClosed)
          else if te_reset e then (if helloReceived then TLSErrClientRejectedCA else TLSErrClientClosed)
          else if mentions (te_text e)
              [''remote error: tls: unknown certificate authority'', ''remote error: tls: bad certificate'',
               ''remote error: tls: certificate required'', ''remote error: tls: certificate unknown'',
               ''remote error: tls: unknown ca'', ''x509: certificate signed by unknown authority'']
            then TLSErrClientRejectedCA
          else if mentions (te_text e)
              [''no application protocol'', ''remote error: tls: no application protocol'', ''ALPN'']
            then TLSErrClientALPNMismatch
          else if mentions (te_text e)
              [''no cipher suite supported'', ''remote error: tls: handshake failure'', ''no mutual cipher'']
            then TLSErrClientCipherMismatch
          else if mentions (te_text e)
              [''protocol version not supported'', ''tls: client offered only unsupported versions'',
               ''tls: server selected unsupported protocol version'']
            then TLSErrClientVersionUnsupported
          else if mentions (te_text e)
              [''first record does not look like a TLS handshake'', ''tls: unsupported SSLv2 handshake received'',
               ''tls: record overflow'', ''tls: oversized record'']
            then TLSErrMalformedClientHello
          else TLSErrUnknown))"

definition ClassifyClientHandshakeError :: "tls_error option \<Rightarrow> tls_category option" where
  "ClassifyClientHandshakeError err = ClassifyClientHandshakeErrorAfter err False"

definition ClassifyOriginTLSError :: "tls_error option \<Rightarrow> tls_category option" where
  "ClassifyOriginTLSError err =
     (case err of
        None \<Rightarrow> None
      | Some e \<Rightarrow> Some
         (if isTimeoutErr e then TLSErrHandshakeTimeout
          else if mentions (te_text e)
              [''x509: certificate signed by unknown authority'', ''x509: certificate is valid for'',
               ''x509: certificate has expired'', ''x509:'']
            then TLSErrUpstreamCertInvalid
          else if mentions (te_text e)
              [''connection refused'', ''no route to host'', ''network is unreachable'', ''no such host'',
               ''i/o timeout'']
            then TLSErrUpstreamConnect
          else if mentions (te_text e) [''remote error: tls:''] then TLSErrUpstreamCertInvalid
          else TLSErrUnknown))"

section \<open>The ClientHello\<close>

record client_hello_info =
  chi_ServerName :: string
  chi_SupportedProtos :: "string list"
  chi_SupportedVersions :: "nat list"
  chi_CipherSuites :: "nat list"

record hello_snapshot =
  hs_SNI :: string
  hs_OfferedALPN :: "string list"
  hs_OfferedVersions :: "string list"
  hs_OfferedCipherSuites :: "string list"

definition empty_hello :: hello_snapshot where
  "empty_hello = \<lparr>hs_SNI = [], hs_OfferedALPN = [], hs_OfferedVersions = [], hs_OfferedCipherSuites = []\<rparr>"

definition tlsVersionName :: "nat \<Rightarrow> string" where
  "tlsVersionName v =
     (if v = 0x0301 then ''TLS 1.0'' else if v = 0x0302 then ''TLS 1.1''
      else if v = 0x0303 then ''TLS 1.2'' else if v = 0x0304 then ''TLS 1.3''
      else ''0x'' @ [hex_digit (v div 4096 mod 16), hex_digit (v div 256 mod 16), hex_digit (v div 16 mod 16),
             hex_digit (v mod 16)])"

definition snapshotFromClientHello :: "(nat \<Rightarrow> string) \<Rightarrow> client_hello_info option \<Rightarrow> hello_snapshot" where
  "snapshotFromClientHello suite_name chi =
     (case chi of
        None \<Rightarrow> empty_hello
      | Some c \<Rightarrow>
          \<lparr>hs_SNI = chi_ServerName c, hs_OfferedALPN = chi_SupportedProtos c,
           hs_OfferedVersions = map tlsVersionName (chi_SupportedVersions c),
           hs_OfferedCipherSuites = map suite_name (chi_CipherSuites c)\<rparr>)"

text \<open>The recorder keeps the last snapshot; before the callback has fired it reports an empty one.\<close>

type_synonym hello_recorder = "hello_snapshot option"

definition record_hello :: "(nat \<Rightarrow> string) \<Rightarrow> client_hello_info option \<Rightarrow> hello_recorder \<Rightarrow> hello_recorder" where
  "record_hello suite_name chi rec = Some (snapshotFromClientHello suite_name chi)"

definition recorded_hello :: "hello_recorder \<Rightarrow> hello_snapshot" where
  "recorded_hello rec = (case rec of None \<Rightarrow> empty_hello | Some s \<Rightarrow> s)"

section \<open>Which side failed\<close>

definition client_side :: "tls_category set" where
  "client_side = {TLSErrClientRejectedCA, TLSErrClientALPNMismatch, TLSErrClientCipherMismatch,
     TLSErrClientVersionUnsupported, TLSErrMalformedClientHello, TLSErrClientClosed}"

definition upstream_side :: "tls_category set" where
  "upstream_side = {TLSErrUpstreamCertInvalid, TLSErrUpstreamConnect}"

lemma category_string_inj: "category_string a = category_string b \<longleftrightarrow> a = b"
  by (cases a; cases b; cases "the a"; cases "the b") (auto simp: )

lemma client_categories:
  "ClassifyClientHandshakeErrorAfter err got = Some c \<Longrightarrow> c \<notin> upstream_side"
  by (auto simp: ClassifyClientHandshakeErrorAfter_def upstream_side_def split: option.splits if_splits)

lemma origin_categories:
  "ClassifyOriginTLSError err = Some c \<Longrightarrow> c \<notin> client_side"
  by (auto simp: ClassifyOriginTLSError_def client_side_def split: option.splits if_splits)

end
