(* ===== verification/Server.thy ===== *)
theory Server
  imports HostList URLPattern Approvals OpenMode Sessions OpStream Redact AuditLog Advisor Forward TLSDiag
begin

text \<open>
  \<open>internal/server/server.go\<close>: the state of a running proxy and the steps that every request
  goes through, whichever way it came in: recognition of URL patterns, the allow and deny lists,
  the rule engine, the open window, the approval queue and the advisor, the audit entry. The
  handlers themselves are in the theories that build on this one. What \<open>audit.Logger.Write\<close> is
  called with is kept in \<open>sr_audit\<close>, newest last. The clock, new identifiers and the outside
  world are arguments; the library functions the code calls are the fields of \<open>server_env\<close>.
\<close>

section \<open>State\<close>

record server_env =
  ex_rx :: regexps
  ex_zones :: zone_db
  ex_sha256 :: "string \<Rightarrow> string"
  ex_url_host :: "string \<Rightarrow> string option"
  ex_media :: "string \<Rightarrow> string option"
  ex_advisor :: advisor_env
  ex_marshal :: "advisor_input \<Rightarrow> string"
  ex_decode :: "string \<Rightarrow> json option"
  ex_encode :: "json \<Rightarrow> string option"
  ex_Version :: string

record server_config =
  sc_Mode :: string
  sc_MaxPending :: int
  sc_TimeoutSeconds :: int
  sc_OnTimeout :: string
  sc_SignalAfterSeconds :: int
  sc_InterceptionEnabled :: bool
  sc_PassthroughHosts :: "string list"
  sc_ListsAllow :: "string list"
  sc_ListsDeny :: "string list"

record server =
  sr_cfg :: server_config
  sr_engine :: engine
  sr_identity :: "identity list"
  sr_queue :: queue
  sr_sessions :: tracker
  sr_ops :: ring
  sr_openMode :: open_mode
  sr_ca :: bool
  sr_redactor :: redact_config
  sr_advisor :: "service option"
  sr_allowList :: "host_list option"
  sr_denyList :: "host_list option"
  sr_patternRegistry :: "registry option"
  sr_MaxBodySampleBytes :: int
  sr_audit :: "entry list"

section \<open>Lists and configuration\<close>

definition SetHostLists :: "host_list option \<Rightarrow> host_list option \<Rightarrow> server \<Rightarrow> server" where
  "SetHostLists allow deny s = s\<lparr>sr_allowList := allow, sr_denyList := deny\<rparr>"

type_synonym list_error = "nat \<times> string \<times> pattern_error"

definition SetLists :: "string list \<Rightarrow> string list \<Rightarrow> server \<Rightarrow> server \<times> list_error option" where
  "SetLists allow deny s =
     (case LoadInline ''allow'' ''trollbridge.yaml:lists.allow'' allow of
        Inl err \<Rightarrow> (s, Some err)
      | Inr a \<Rightarrow>
          (case LoadInline ''deny'' ''trollbridge.yaml:lists.deny'' deny of
             Inl err \<Rightarrow> (s, Some err)
           | Inr d \<Rightarrow> (s\<lparr>sr_allowList := Some a, sr_denyList := Some d\<rparr>, None)))"

definition ReloadListsFromConfig :: "server_config \<Rightarrow> server \<Rightarrow> server \<times> list_error option" where
  "ReloadListsFromConfig cfg s = SetLists (sc_ListsAllow cfg) (sc_ListsDeny cfg) s"

definition ReloadConfig :: "server_config option \<Rightarrow> server \<Rightarrow> server" where
  "ReloadConfig cfg s =
     (case cfg of
        None \<Rightarrow> s
      | Some c \<Rightarrow>
          let prevMode = sc_Mode (sr_cfg s);
              s = s\<lparr>sr_cfg := c\<rparr>;
              s = (if sc_Mode c \<noteq> prevMode then s\<lparr>sr_engine := SetMode (sc_Mode c) (sr_engine s)\<rparr> else s)
          in s\<lparr>sr_queue := Reconfigure (sc_MaxPending c) (wrap64 (sc_TimeoutSeconds c * second)) (sc_OnTimeout c)
               (sr_queue s)\<rparr>)"

definition rawPatterns :: "host_list option \<Rightarrow> string list" where
  "rawPatterns h = (case h of None \<Rightarrow> [] | Some l \<Rightarrow> map p_Raw (hl_Patterns l))"

definition modifierSetForAdvisor :: "string \<Rightarrow> bool" where
  "modifierSetForAdvisor m \<longleftrightarrow> m \<in> set KnownModifiers"

definition ExtendOpenMode :: "int \<Rightarrow> server \<Rightarrow> server" where
  "ExtendOpenMode now s = s\<lparr>sr_openMode := OpenMode.extend now (sr_openMode s)\<rparr>"

definition CloseOpenMode :: "server \<Rightarrow> server" where
  "CloseOpenMode s = s\<lparr>sr_openMode := close_window (sr_openMode s)\<rparr>"

section \<open>The decision\<close>

definition recognizePattern :: "server \<Rightarrow> request_event \<Rightarrow> request_event" where
  "recognizePattern s req =
     (case sr_patternRegistry s of
        None \<Rightarrow> req
      | Some r \<Rightarrow>
          (case Recognize r (ev_Host req) (ev_Port req) (ev_Scheme req) (ev_Path req) of
             None \<Rightarrow> req
           | Some mp \<Rightarrow> req\<lparr>ev_MatchedPattern := Some mp\<rparr>))"

definition fastPathDecide :: "server \<Rightarrow> string \<Rightarrow> string \<Rightarrow> string \<Rightarrow> int \<Rightarrow> string \<Rightarrow> decision option" where
  "fastPathDecide s meth scheme host port path =
     (case Match (sr_denyList s) meth scheme host port path of
        Some pat \<Rightarrow> Some (zero_decision\<lparr>d_Effect := EffectDeny, d_Source := SourceDenyList,
          d_RuleID := p_Source pat, d_Reason := ''matched deny list: '' @ p_Raw pat\<rparr>)
      | None \<Rightarrow>
          (case Match (sr_allowList s) meth scheme host port path of
             Some pat \<Rightarrow> Some (zero_decision\<lparr>d_Effect := EffectAllow, d_Source := SourceAllowList,
               d_RuleID := p_Source pat, d_Reason := ''matched allow list: '' @ p_Raw pat\<rparr>)
           | None \<Rightarrow> None))"

definition openModeAllow :: decision where
  "openModeAllow = zero_decision\<lparr>d_Effect := EffectAllow, d_Source := SourceOpenMode,
     d_Reason := ''open mode: all traffic allowed''\<rparr>"

text \<open>The three stages every handler runs; the method, scheme and path the lists are asked about
  differ between the handlers.\<close>

definition evaluate ::
    "server_env \<Rightarrow> int \<Rightarrow> server \<Rightarrow> string \<Rightarrow> string \<Rightarrow> string \<Rightarrow> request_event \<Rightarrow> decision" where
  "evaluate env now s meth scheme path req =
     (let d = (case fastPathDecide s meth scheme (ev_Host req) (ev_Port req) path of
                 Some d \<Rightarrow> d
               | None \<Rightarrow> Decide (ex_rx env) (ex_zones env) now (sr_engine s) req)
      in if is_open now (sr_openMode s) then openModeAllow else d)"

definition is_ask :: "effect \<Rightarrow> bool" where
  "is_ask e \<longleftrightarrow> e = EffectAskUser \<or> e = EffectAskLLM"

section \<open>The console's row\<close>

definition transitionOpFromEvaluating :: "int \<Rightarrow> string \<Rightarrow> effect \<Rightarrow> server \<Rightarrow> server" where
  "transitionOpFromEvaluating now rid e s =
     (if e \<in> {EffectAllow, EffectAskUserResolvedAllow, EffectDeny, EffectAskUserResolvedDeny, EffectAskUserTimedOut}
      then s\<lparr>sr_ops := ResolveOp now rid ''running'' 0 0 (sr_ops s)\<rparr> else s)"

definition record_history :: "int \<Rightarrow> request_event \<Rightarrow> decision \<Rightarrow> server \<Rightarrow> server" where
  "record_history now req d s =
     s\<lparr>sr_engine := (sr_engine s)\<lparr>en_history := map_option (Record req d now) (en_history (sr_engine s))\<rparr>\<rparr>"

section \<open>Audit entries\<close>

definition applyPatternFields :: "request_event \<Rightarrow> entry \<Rightarrow> entry" where
  "applyPatternFields req e =
     (case ev_MatchedPattern req of
        None \<Rightarrow> e
      | Some mp \<Rightarrow>
          let e = e\<lparr>en_PatternName := mp_Name mp\<rparr>
          in if mp_Components mp \<noteq> [] then e\<lparr>en_PatternComponents := mp_Components mp\<rparr> else e)"

text \<open>The fields all four literals set alike.\<close>

definition base_entry :: "server_env \<Rightarrow> server \<Rightarrow> request_event \<Rightarrow> decision \<Rightarrow> entry" where
  "base_entry env s req d = zero_entry\<lparr>
     en_TrollbridgeVersion := ex_Version env, en_AuditSchemaVersion := 1,
     en_RequestID := ev_ID req, en_SessionID := ev_SessionID req, en_IdentityID := ev_IdentityID req,
     en_ClientAddr := ev_ClientAddr req, en_Method := ev_Method req, en_Scheme := ev_Scheme req,
     en_Host := ev_Host req, en_Port := ev_Port req, en_Path := ev_Path req,
     en_Decision := effect_string (d_Effect d), en_DecisionSource := source_string (d_Source d),
     en_RuleID := d_RuleID d, en_RuleSetVersion := en_version (sr_engine s), en_LLMConfidence := ''n/a'',
     en_Reason := d_Reason d, en_BodyInspectionStatus := ''not_required''\<rparr>"

definition milliseconds :: "int \<Rightarrow> int" where
  "milliseconds ns = (if ns < 0 then - (- ns div 1000000) else ns div 1000000)"

definition audit_entry ::
    "server_env \<Rightarrow> server \<Rightarrow> request_event \<Rightarrow> decision \<Rightarrow> string \<Rightarrow> nat \<Rightarrow> int \<Rightarrow> int \<Rightarrow> int \<Rightarrow> string \<Rightarrow> entry" where
  "audit_entry env s req d queryRedacted redactedCount status sz latency err =
     applyPatternFields req ((base_entry env s req d)\<lparr>
       en_QueryRedacted := queryRedacted, en_LLMAdvisorID := d_AdvisorID d,
       en_LLMInputHash := header_get (ev_Headers req) ''X-Trollbridge-LLM-Input-Hash'',
       en_RedactionApplied := 0 < redactedCount, en_RedactedFieldCount := int redactedCount,
       en_ResponseStatus := status, en_ResponseSizeBytes := sz, en_LatencyMS := milliseconds latency,
       en_Error := err\<rparr>)"

definition writeAudit ::
    "server_env \<Rightarrow> int \<Rightarrow> request_event \<Rightarrow> decision \<Rightarrow> string \<Rightarrow> nat \<Rightarrow> int \<Rightarrow> int \<Rightarrow> int \<Rightarrow> string \<Rightarrow> server \<Rightarrow> server" where
  "writeAudit env now req d queryRedacted redactedCount status sz latency err s =
     s\<lparr>sr_audit := sr_audit s @ [audit_entry env s req d queryRedacted redactedCount status sz latency err],
       sr_ops := ResolveOp now (ev_ID req) (opStatusFromAudit status err) (milliseconds latency) sz (sr_ops s)\<rparr>"

definition body_entry ::
    "server_env \<Rightarrow> server \<Rightarrow> request_event \<Rightarrow> decision \<Rightarrow> string \<Rightarrow> int \<Rightarrow> int \<Rightarrow> int \<Rightarrow> string \<Rightarrow> string \<Rightarrow> entry" where
  "body_entry env s req d body status sz latency err tlsCategory =
     (let queryRedacted = fst (Query (sr_redactor s) (header_get (ev_Headers req) ''X-Original-Query''));
          headerCount = snd (Headers (sr_redactor s) (ev_Headers req) (d_Modifiers d));
          (out, bodyCount) = Body (ex_decode env) (ex_encode env) (sr_redactor s) body
             (header_get (ev_Headers req) ''Content-Type'');
          (sample, truncated) = SampleForAudit out 4096
      in applyPatternFields req ((base_entry env s req d)\<lparr>
        en_QueryRedacted := queryRedacted, en_LLMAdvisorID := d_AdvisorID d,
        en_LLMInputHash := header_get (ev_Headers req) ''X-Trollbridge-LLM-Input-Hash'',
        en_RedactionApplied := 0 < headerCount + bodyCount, en_RedactedFieldCount := int (headerCount + bodyCount),
        en_BodyInspectionStatus := inspectionStatus (body \<noteq> []) truncated, en_RequestBodySample := sample,
        en_ResponseStatus := status, en_ResponseSizeBytes := sz, en_LatencyMS := milliseconds latency,
        en_Error := err, en_TLSErrorCategory := tlsCategory\<rparr>))"

definition writeAuditWithBody ::
    "server_env \<Rightarrow> int \<Rightarrow> request_event \<Rightarrow> decision \<Rightarrow> string \<Rightarrow> int \<Rightarrow> int \<Rightarrow> int \<Rightarrow> string \<Rightarrow> string \<Rightarrow> server \<Rightarrow> server" where
  "writeAuditWithBody env now req d body status sz latency err tlsCategory s =
     s\<lparr>sr_audit := sr_audit s @ [body_entry env s req d body status sz latency err tlsCategory],
       sr_ops := ResolveOp now (ev_ID req) (opStatusFromAudit status err) (milliseconds latency) sz (sr_ops s)\<rparr>"

definition writePostSignalAudit ::
    "server_env \<Rightarrow> request_event \<Rightarrow> decision \<Rightarrow> int \<Rightarrow> int \<Rightarrow> server \<Rightarrow> server" where
  "writePostSignalAudit env req d signalAfterSec latency s =
     s\<lparr>sr_audit := sr_audit s @ [applyPatternFields req ((base_entry env s req d)\<lparr>
         en_ResponseStatus := 0, en_LatencyMS := milliseconds latency, en_PostSignalResolution := True,
         en_SignalAfterSeconds := signalAfterSec\<rparr>)]\<rparr>"

definition writeAuditTLSHandshakeFail ::
    "server_env \<Rightarrow> int \<Rightarrow> request_event \<Rightarrow> decision \<Rightarrow> tls_category option \<Rightarrow> hello_snapshot \<Rightarrow> int \<Rightarrow> int \<Rightarrow> string
     \<Rightarrow> server \<Rightarrow> server" where
  "writeAuditTLSHandshakeFail env now req d category hello status latency err s =
     s\<lparr>sr_audit := sr_audit s @ [applyPatternFields req ((base_entry env s req d)\<lparr>
         en_ResponseStatus := status, en_LatencyMS := milliseconds latency, en_Error := err,
         en_TLSErrorCategory := category_string category, en_TLSSNI := hs_SNI hello,
         en_TLSALPNOffered := hs_OfferedALPN hello, en_TLSVersionsOffered := hs_OfferedVersions hello,
         en_TLSCipherSuitesOffered := hs_OfferedCipherSuites hello\<rparr>)],
       sr_ops := ResolveOp now (ev_ID req) ''tls_failed'' (milliseconds latency) 0 (sr_ops s)\<rparr>"

section \<open>Holding a request\<close>

definition buildAdvisorInputs ::
    "server \<Rightarrow> request_event \<Rightarrow> (string \<Rightarrow> string option) \<times> list_context \<times> advisor_input" where
  "buildAdvisorInputs s req =
     (let hdrs = advisor_headers (ev_Headers req);
          lc = \<lparr>lc_Allow = rawPatterns (sr_allowList s), lc_Deny = rawPatterns (sr_denyList s)\<rparr>
      in (hdrs, lc,
          \<lparr>in_Method = ev_Method req, in_Scheme = ev_Scheme req, in_Host = ev_Host req, in_Port = ev_Port req,
           in_Path = ev_Path req, in_HeadersRedacted = hdrs, in_Identity = ev_IdentityID req,
           in_RuleSetVersion = en_version (sr_engine s), in_AllowList = lc_Allow lc, in_DenyList = lc_Deny lc,
           in_Directives = [], in_Mode = []\<rparr>))"

definition CanonicalizeInput :: "server_env \<Rightarrow> advisor_input \<Rightarrow> string" where
  "CanonicalizeInput env i = env_hash (ex_advisor env) (ex_marshal env i)"

definition queue_full_decision :: decision where
  "queue_full_decision = zero_decision\<lparr>d_Effect := EffectAskUserResolvedDeny, d_Source := SourceApprovalQueue,
     d_Reason := ''approval queue full: approval queue full''\<rparr>"

text \<open>A consult the hold has started: the hold and what the advisor is shown.\<close>

type_synonym consult = "string \<times> (string \<Rightarrow> string option) \<times> list_context"

text \<open>
  \<open>holdAndWait\<close> up to the wait. Either the queue is full, or the request waits on a channel of a
  hold, with the advisor's input hash among its headers when it starts a consult.
\<close>

definition hold_begin ::
    "server_env \<Rightarrow> string \<Rightarrow> int \<Rightarrow> request_event \<Rightarrow> decision \<Rightarrow> server
     \<Rightarrow> server \<times> (decision + request_event \<times> string \<times> nat \<times> consult option)" where
  "hold_begin env newid now req base s =
     (case Enqueue newid now req base (sr_queue s) of
        (q, None) \<Rightarrow> (s\<lparr>sr_queue := q\<rparr>, Inl queue_full_decision)
      | (q, Some (hid, ch, coalesced)) \<Rightarrow>
          let s = s\<lparr>sr_queue := q, sr_ops := HoldPending now (ev_ID req) hid (sr_ops s)\<rparr>
          in if \<not> coalesced \<and> sr_advisor s \<noteq> None \<and> is_ask (d_Effect base) then
               (case buildAdvisorInputs s req of
                  (hdrs, lc, i) \<Rightarrow>
                    (s, Inr (req\<lparr>ev_Headers := header_set (ev_Headers req) ''X-Trollbridge-LLM-Input-Hash''
                               (CanonicalizeInput env i)\<rparr>, hid, ch, Some (hid, hdrs, lc))))
             else (s, Inr (req, hid, ch, None)))"

text \<open>
  How the wait ends: with the decision the queue delivers, or, when
  \<open>approvals.signal_after_seconds\<close> is set and runs out first, with the signal.
\<close>

datatype hold_end = Resolved decision | Signaled

definition signaled_decision :: "decision \<Rightarrow> string \<Rightarrow> decision" where
  "signaled_decision base hid = zero_decision\<lparr>d_Effect := EffectAskUserSignaled,
     d_Source := SourceApprovalQueue, d_RuleID := d_RuleID base, d_HoldID := hid\<rparr>"

definition hold_decision :: "server \<Rightarrow> decision \<Rightarrow> string \<Rightarrow> hold_end \<Rightarrow> decision option" where
  "hold_decision s base hid e =
     (case e of
        Resolved d \<Rightarrow> Some d
      | Signaled \<Rightarrow> if wrap64 (sc_SignalAfterSeconds (sr_cfg s) * second) \<le> 0 then None else Some (signaled_decision base hid))"

text \<open>\<open>consultAdvisorForHold\<close>, with the answer of \<open>Classify\<close>.\<close>

definition consult_resolve :: "string \<Rightarrow> decision \<Rightarrow> server \<Rightarrow> server" where
  "consult_resolve hid d s =
     (if d_Effect d = EffectAllow \<or> d_Effect d = EffectDeny
      then s\<lparr>sr_queue := fst (ResolveByAdvisor hid d (sr_queue s))\<rparr> else s)"

section \<open>What the stages do\<close>

lemma evaluate_open: "is_open now (sr_openMode s) \<Longrightarrow> evaluate env now s m sch p req = openModeAllow"
  by (simp add: evaluate_def)

lemma evaluate_deny:
  "\<not> is_open now (sr_openMode s) \<Longrightarrow> Match (sr_denyList s) m sch (ev_Host req) (ev_Port req) p = Some pat \<Longrightarrow>
   evaluate env now s m sch p req = zero_decision\<lparr>d_Effect := EffectDeny, d_Source := SourceDenyList,
     d_RuleID := p_Source pat, d_Reason := ''matched deny list: '' @ p_Raw pat\<rparr>"
  by (simp add: evaluate_def fastPathDecide_def)

text \<open>Why a request is allowed without being held.\<close>

definition allowed_outright ::
    "server_env \<Rightarrow> int \<Rightarrow> server \<Rightarrow> string \<Rightarrow> string \<Rightarrow> string \<Rightarrow> request_event \<Rightarrow> bool" where
  "allowed_outright env now s m sch p req \<longleftrightarrow>
     is_open now (sr_openMode s)
     \<or> Match (sr_denyList s) m sch (ev_Host req) (ev_Port req) p = None
       \<and> (Match (sr_allowList s) m sch (ev_Host req) (ev_Port req) p \<noteq> None
          \<or> allows (d_Effect (Decide (ex_rx env) (ex_zones env) now (sr_engine s) req)))"

lemma evaluate_allows:
  "allows (d_Effect (evaluate env now s m sch p req)) \<Longrightarrow> allowed_outright env now s m sch p req"
  by (auto simp: evaluate_def fastPathDecide_def allowed_outright_def allows_def Let_def split: option.splits if_splits)

lemma recognizePattern_sel [simp]:
  "ev_ID (recognizePattern s req) = ev_ID req" "ev_Host (recognizePattern s req) = ev_Host req"
  "ev_Port (recognizePattern s req) = ev_Port req" "ev_Path (recognizePattern s req) = ev_Path req"
  "ev_Method (recognizePattern s req) = ev_Method req" "ev_Scheme (recognizePattern s req) = ev_Scheme req"
  "ev_IdentityID (recognizePattern s req) = ev_IdentityID req"
  "ev_Headers (recognizePattern s req) = ev_Headers req"
  by (simp_all add: recognizePattern_def split: option.split)

lemma applyPatternFields_sel [simp]:
  "en_RequestID (applyPatternFields req e) = en_RequestID e" "en_Decision (applyPatternFields req e) = en_Decision e"
  "en_DecisionSource (applyPatternFields req e) = en_DecisionSource e"
  "en_ResponseStatus (applyPatternFields req e) = en_ResponseStatus e" "en_Error (applyPatternFields req e) = en_Error e"
  "en_RequestBodySample (applyPatternFields req e) = en_RequestBodySample e"
  "en_Reason (applyPatternFields req e) = en_Reason e" "en_RuleID (applyPatternFields req e) = en_RuleID e"
  by (simp_all add: applyPatternFields_def Let_def split: option.split)

text \<open>An audit entry tells of this request, this decision and this status.\<close>

definition tells :: "entry \<Rightarrow> request_event \<Rightarrow> decision \<Rightarrow> int \<Rightarrow> bool" where
  "tells e req d status \<longleftrightarrow> en_RequestID e = ev_ID req \<and> en_Decision e = effect_string (d_Effect d)
     \<and> en_DecisionSource e = source_string (d_Source d) \<and> en_RuleID e = d_RuleID d \<and> en_Reason e = d_Reason d
     \<and> en_ResponseStatus e = status"

lemma audit_entry_tells: "tells (audit_entry env s req d q n status sz lat err) req d status"
  by (simp add: tells_def audit_entry_def base_entry_def)

lemma body_entry_tells: "tells (body_entry env s req d body status sz lat err cat) req d status"
  by (simp add: tells_def body_entry_def base_entry_def Let_def split: prod.split)

lemma settle_frames [simp]:
  "sr_audit (transitionOpFromEvaluating now rid e s) = sr_audit s"
  "sr_queue (transitionOpFromEvaluating now rid e s) = sr_queue s"
  "sr_engine (transitionOpFromEvaluating now rid e s) = sr_engine s"
  "sr_cfg (transitionOpFromEvaluating now rid e s) = sr_cfg s"
  "sr_audit (record_history now req d s) = sr_audit s" "sr_queue (record_history now req d s) = sr_queue s"
  "sr_ops (record_history now req d s) = sr_ops s" "sr_cfg (record_history now req d s) = sr_cfg s"
  by (simp_all add: transitionOpFromEvaluating_def record_history_def)

lemma write_frames [simp]:
  "sr_queue (writeAudit env now req d q n st sz lat err s) = sr_queue s"
  "sr_queue (writeAuditWithBody env now req d b st sz lat err cat s) = sr_queue s"
  by (simp_all add: writeAudit_def writeAuditWithBody_def)

end
