(* ===== verification/ServerHTTP.thy ===== *)
theory ServerHTTP
  imports Server
begin

text \<open>
  The handlers of \<open>internal/server/server.go\<close> for plain HTTP requests and for \<open>CONNECT\<close>. Each is
  cut where the code waits for the approval queue: the first half ends with a decision or with a
  request on hold, the second half takes the decision and answers. Between the halves any other
  request may have changed the server, so the second half runs on whatever state it finds.
\<close>

section \<open>Requests and answers\<close>

text \<open>
  A body is a nil reader, or yields bytes and then ends or fails. Reading it to a limit, as
  \<open>io.ReadAll(io.LimitReader(r, n))\<close> does, sees the failure only if it comes within the limit.
\<close>

datatype body_stream = NoBody | Stream string "string option"

fun read_limited :: "nat \<Rightarrow> string \<Rightarrow> string option \<Rightarrow> string + string" where
  "read_limited n bytes None = Inr (take n bytes)"
| "read_limited n bytes (Some e) = (if n \<le> length bytes then Inr (take n bytes) else Inl e)"

record http_request =
  hr_Method :: string
  hr_URLHost :: string
  hr_URLPath :: string
  hr_URLAbs :: bool
  hr_Host :: string
  hr_RequestURI :: string
  hr_Header :: headers
  hr_RemoteAddr :: string
  hr_Body :: body_stream

text \<open>The identifiers a request may need: its own, its session's, its hold's.\<close>

record fresh_ids =
  fi_request :: string
  fi_session :: string
  fi_hold :: string

text \<open>
  What a client gets: the embedded setup pages, a refusal, an error of the proxy, the origin's
  answer to a request with the given headers, or a tunnel, opaque or terminated here.
\<close>

datatype response =
    SelfDescribed
  | Refused int refusal
  | Failed int string
  | Forwarded headers int
  | Tunneled
  | Intercepting
  | Dropped

section \<open>Up to the decision\<close>

definition begin_request ::
    "server_env \<Rightarrow> int \<Rightarrow> fresh_ids \<Rightarrow> string \<Rightarrow> string \<Rightarrow> int \<Rightarrow> string \<Rightarrow> string \<Rightarrow> http_request \<Rightarrow> server
     \<Rightarrow> server \<times> request_event" where
  "begin_request env now fi meth host port scheme path r s =
     (let identityID = Resolve (ex_sha256 env) (sr_identity s) (hr_RemoteAddr r) (hr_Header r);
          (t, sess) = GetOrCreate (fi_session fi) now (hr_RemoteAddr r) identityID (sr_sessions s);
          req = zero_request\<lparr>ev_ID := fi_request fi, ev_SessionID := se_ID sess, ev_IdentityID := identityID,
            ev_Timestamp := now, ev_Method := meth, ev_Scheme := scheme, ev_Host := host, ev_Port := port,
            ev_Path := path, ev_Headers := hr_Header r, ev_ClientAddr := hr_RemoteAddr r\<rparr>
      in (s\<lparr>sr_sessions := t,
            sr_ops := Begin now (ev_ID req) (ev_Method req) (opURLForRequest req) (sr_ops s)\<rparr>, req))"

text \<open>The bounded body sample: the bytes read are at most one more than the cap.\<close>

definition take_sample :: "int \<Rightarrow> string \<Rightarrow> request_event \<Rightarrow> request_event" where
  "take_sample cap pre req =
     (if cap < int (length pre) then
        req\<lparr>ev_BodyAvailable := False, ev_BodySize := int (length pre), ev_BodySample := []\<rparr>
      else req\<lparr>ev_BodyAvailable := True, ev_BodySize := int (length pre), ev_BodySample := pre\<rparr>)"

definition sample_http :: "server \<Rightarrow> http_request \<Rightarrow> request_event \<Rightarrow> string + request_event" where
  "sample_http s r req =
     (case hr_Body r of
        NoBody \<Rightarrow> Inr req
      | Stream bytes end_ \<Rightarrow>
          let cap = sr_MaxBodySampleBytes s in
          if cap > 0 \<and> bodyMethodNeedsSample (hr_Method r) then
            (case read_limited (nat (cap + 1)) bytes end_ of
               Inl e \<Rightarrow> Inl e
             | Inr pre \<Rightarrow> Inr (take_sample cap pre req))
          else Inr req)"

datatype http_state =
    Finished response
  | Deciding request_event decision
  | Holding request_event decision string nat "consult option"

definition decide_or_hold ::
    "server_env \<Rightarrow> string \<Rightarrow> int \<Rightarrow> string \<Rightarrow> string \<Rightarrow> string \<Rightarrow> request_event \<Rightarrow> server \<Rightarrow> server \<times> http_state" where
  "decide_or_hold env newhold now meth scheme path req s =
     (let req = recognizePattern s req;
          d = evaluate env now s meth scheme path req
      in if is_ask (d_Effect d) then
           (case hold_begin env newhold now req d s of
              (s', Inl d') \<Rightarrow> (s', Deciding req d')
            | (s', Inr (req', hid, ch, c)) \<Rightarrow> (s', Holding req' d hid ch c))
         else (s, Deciding req d))"

definition body_read_decision :: "string \<Rightarrow> decision" where
  "body_read_decision e = zero_decision\<lparr>d_Effect := EffectDeny, d_Source := SourceBodyReadFail,
     d_Reason := ''body read failed: '' @ e\<rparr>"

text \<open>\<open>None\<close>: \<open>splitHostPort\<close> does not return.\<close>

definition handleHTTP_start ::
    "server_env \<Rightarrow> int \<Rightarrow> fresh_ids \<Rightarrow> http_request \<Rightarrow> server \<Rightarrow> (server \<times> http_state) option" where
  "handleHTTP_start env now fi r s =
     (case splitHostPort (ex_url_host env) (hr_URLHost r) ''80'' of
        None \<Rightarrow> None
      | Some (host, port) \<Rightarrow>
          (case begin_request env now fi (hr_Method r) host port ''http'' (hr_URLPath r) r s of
             (s, req) \<Rightarrow>
               (case sample_http s r req of
                  Inl e \<Rightarrow>
                    Some (writeAudit env now req (body_read_decision e) [] 0 400 0 0 e s,
                          Finished (Failed 400 ''trollbridge: body read failed''))
                | Inr req \<Rightarrow> Some (decide_or_hold env (fi_hold fi) now (ev_Method req) ''http'' (ev_Path req) req s))))"

definition handleConnect_start ::
    "server_env \<Rightarrow> int \<Rightarrow> fresh_ids \<Rightarrow> http_request \<Rightarrow> server \<Rightarrow> (server \<times> http_state) option" where
  "handleConnect_start env now fi r s =
     (case splitHostPort (ex_url_host env) (hr_RequestURI r) ''443'' of
        None \<Rightarrow> None
      | Some (host, port) \<Rightarrow>
          (case begin_request env now fi ''CONNECT'' host port ''https-tunneled'' [] r s of
             (s, req) \<Rightarrow> Some (decide_or_hold env (fi_hold fi) now ''CONNECT'' [] ''/'' req s)))"

definition serveHTTP ::
    "server_env \<Rightarrow> int \<Rightarrow> fresh_ids \<Rightarrow> http_request \<Rightarrow> server \<Rightarrow> (server \<times> http_state) option" where
  "serveHTTP env now fi r s =
     (if hr_Method r \<noteq> ''CONNECT'' \<and> IsMagicHost (hr_URLHost r) (hr_Host r) then Some (s, Finished SelfDescribed)
      else if hr_Method r = ''CONNECT'' then handleConnect_start env now fi r s
      else handleHTTP_start env now fi r s)"

section \<open>From the decision on\<close>

definition settle :: "int \<Rightarrow> request_event \<Rightarrow> decision \<Rightarrow> server \<Rightarrow> server" where
  "settle now req d s = record_history now req d (transitionOpFromEvaluating now (ev_ID req) (d_Effect d) s)"

definition refuseHTTP ::
    "server_env \<Rightarrow> int \<Rightarrow> http_request \<Rightarrow> request_event \<Rightarrow> decision \<Rightarrow> server \<Rightarrow> server \<times> response" where
  "refuseHTTP env now r req d s =
     (let resp = denyResponse (ex_media env) d (ev_ID req) (header_get (hr_Header r) ''Accept'');
          status = statusFromEffect (d_Effect d)
      in (writeAudit env now req d [] 0 status 0 (now - ev_Timestamp req) [] s, Refused status resp))"

text \<open>
  What the network does with the outbound request: it cannot be built, the round trip fails, or
  the origin answers with a status and a body of some size.
\<close>

datatype upstream_result = OutboundError string | RoundTripError string | Answered int int

definition forwardHTTP ::
    "server_env \<Rightarrow> int \<Rightarrow> http_request \<Rightarrow> request_event \<Rightarrow> decision \<Rightarrow> upstream_result \<Rightarrow> server \<Rightarrow> server \<times> response" where
  "forwardHTTP env now r req d up s =
     (let latency = now - ev_Timestamp req;
          up = (if \<not> hr_URLAbs r then OutboundError ''relative-form request not supported'' else up)
      in case up of
           OutboundError e \<Rightarrow>
             (writeAudit env now req d [] 0 400 0 latency e s, Failed 400 ''trollbridge: bad request'')
         | RoundTripError e \<Rightarrow>
             (writeAudit env now req d [] 0 502 0 latency e s, Failed 502 (''trollbridge: upstream error: '' @ e))
         | Answered status n \<Rightarrow>
             (writeAudit env now req d [] (snd (redactHeadersForAudit (hr_Header r) (d_Modifiers d))) status n latency [] s,
              Forwarded (outbound_headers (hr_Header r)) status))"

definition handleHTTP_finish ::
    "server_env \<Rightarrow> int \<Rightarrow> http_request \<Rightarrow> request_event \<Rightarrow> decision \<Rightarrow> upstream_result \<Rightarrow> server \<Rightarrow> server \<times> response" where
  "handleHTTP_finish env now r req d up s =
     (let s = settle now req d s in
      if allows (d_Effect d) then forwardHTTP env now r req d up s else refuseHTTP env now r req d s)"

text \<open>\<open>CONNECT\<close>: the ways a tunnel can fail to come up, or the bytes it carried.\<close>

datatype tunnel_result =
    NoHijacker
  | DialError string
  | HijackError string
  | EstablishError string
  | Carried int

definition passthrough :: "string \<Rightarrow> string \<Rightarrow> bool" where
  "passthrough hl pat =
     (let pat = to_lower (trim_space pat) in
      if pat = hl then True
      else if has_prefix pat ''*.'' then
        (let suffix = drop 1 pat in has_suffix hl suffix \<and> length hl > length suffix)
      else False)"

definition shouldIntercept :: "server \<Rightarrow> string \<Rightarrow> bool" where
  "shouldIntercept s host =
     (if \<not> sr_ca s \<or> \<not> sc_InterceptionEnabled (sr_cfg s) then False
      else \<not> list_ex (passthrough (to_lower host)) (sc_PassthroughHosts (sr_cfg s)))"

definition openTunnel ::
    "server_env \<Rightarrow> int \<Rightarrow> request_event \<Rightarrow> decision \<Rightarrow> tunnel_result \<Rightarrow> server \<Rightarrow> server \<times> response" where
  "openTunnel env now req d tr s =
     (let latency = now - ev_Timestamp req in
      case tr of
        NoHijacker \<Rightarrow>
          (writeAudit env now req d [] 0 500 0 latency ''no hijacker'' s,
           Failed 500 ''trollbridge: hijacking not supported'')
      | DialError e \<Rightarrow>
          (writeAudit env now req d [] 0 502 0 latency e s, Failed 502 (''trollbridge: upstream dial failed: '' @ e))
      | HijackError e \<Rightarrow> (writeAudit env now req d [] 0 500 0 latency e s, Dropped)
      | EstablishError e \<Rightarrow> (writeAudit env now req d [] 0 0 0 latency e s, Dropped)
      | Carried n \<Rightarrow>
          if shouldIntercept s (ev_Host req)
          then (writeAudit env now req d [] 0 200 0 latency [] s, Intercepting)
          else (writeAudit env now req d [] 0 200 n latency [] s, Tunneled))"

definition handleConnect_finish ::
    "server_env \<Rightarrow> int \<Rightarrow> http_request \<Rightarrow> request_event \<Rightarrow> decision \<Rightarrow> tunnel_result \<Rightarrow> server \<Rightarrow> server \<times> response" where
  "handleConnect_finish env now r req d tr s =
     (let s = settle now req d s in
      if \<not> allows (d_Effect d) then refuseHTTP env now r req d s else openTunnel env now req d tr s)"

section \<open>A sample server\<close>

definition sample_env :: server_env where
  "sample_env = \<lparr>ex_rx = (\<lambda>_. None), ex_zones = (\<lambda>_. None), ex_sha256 = (\<lambda>s. s), ex_url_host = demo_url_host,
     ex_media = (\<lambda>_. None), ex_advisor = demo_env, ex_marshal = in_Host, ex_decode = (\<lambda>_. None),
     ex_encode = (\<lambda>_. None), ex_Version = ''1''\<rparr>"

definition sample_config :: server_config where
  "sample_config = \<lparr>sc_Mode = ''default-ask'', sc_MaxPending = 10, sc_TimeoutSeconds = 60, sc_OnTimeout = ''deny'',
     sc_SignalAfterSeconds = 5, sc_InterceptionEnabled = False, sc_PassthroughHosts = [],
     sc_ListsAllow = [], sc_ListsDeny = [''evil.com'']\<rparr>"

definition evil_pattern :: pattern where
  "evil_pattern = (case parsePattern ''evil.com'' of Inr p \<Rightarrow> p)"

definition sample_server :: server where
  "sample_server = \<lparr>sr_cfg = sample_config, sr_engine = sample_engine\<lparr>en_mode := ''default-ask''\<rparr>, sr_identity = [],
     sr_queue = NewQueue 10 (60 * second) ''deny'', sr_sessions = [], sr_ops = NewRing 0, sr_openMode = closed_window,
     sr_ca = False,
     sr_redactor = \<lparr>rc_BodyJSONPaths = [], rc_BodyRegexes = [], rc_QueryRegexes = [], rc_HeaderModifiers = []\<rparr>,
     sr_advisor = None, sr_allowList = None,
     sr_denyList = Some \<lparr>hl_Name = ''deny'', hl_Patterns = [evil_pattern]\<rparr>, sr_patternRegistry = None,
     sr_MaxBodySampleBytes = 0, sr_audit = []\<rparr>"

definition sample_request :: "string \<Rightarrow> http_request" where
  "sample_request host = \<lparr>hr_Method = ''GET'', hr_URLHost = host, hr_URLPath = ''/'', hr_URLAbs = True, hr_Host = host,
     hr_RequestURI = ''http://'' @ host @ ''/'', hr_Header = (\<lambda>_. None), hr_RemoteAddr = ''10.0.0.1:5000'', hr_Body = NoBody\<rparr>"

definition sample_ids :: fresh_ids where
  "sample_ids = \<lparr>fi_request = ''r1'', fi_session = ''sess-1'', fi_hold = ''hold-1''\<rparr>"

section \<open>Nothing is forwarded that was not allowed\<close>

text \<open>What leads from the end of the first half to the decision the second half is given.\<close>

inductive decided_by :: "server \<Rightarrow> http_state \<Rightarrow> request_event \<Rightarrow> decision \<Rightarrow> bool" where
  outright: "decided_by s (Deciding req d) req d"
| waited: "hold_decision s base hid e = Some d \<Longrightarrow> decided_by s (Holding req base hid ch c) req d"

inductive_cases decided_by_Deciding: "decided_by s (Deciding req d) req' d'"
inductive_cases decided_by_Holding: "decided_by s (Holding req base hid ch c) req' d'"
inductive_cases decided_by_Finished: "decided_by s (Finished r) req' d'"

lemma hold_begin_full: "hold_begin env nh now req base s = (s', Inl d) \<Longrightarrow> d = queue_full_decision"
  by (auto simp: hold_begin_def Let_def split: option.splits prod.splits if_splits)

lemma decide_or_hold_cases:
  assumes "decide_or_hold env nh now m sch p req s = (s', st)"
  obtains
    (decided) "\<not> is_ask (d_Effect (evaluate env now s m sch p (recognizePattern s req)))" "s' = s"
      "st = Deciding (recognizePattern s req) (evaluate env now s m sch p (recognizePattern s req))"
  | (full) "st = Deciding (recognizePattern s req) queue_full_decision"
  | (held) req' hid ch c where "is_ask (d_Effect (evaluate env now s m sch p (recognizePattern s req)))"
      "st = Holding req' (evaluate env now s m sch p (recognizePattern s req)) hid ch c"
  using assms
  by (auto simp: decide_or_hold_def Let_def dest: hold_begin_full split: if_splits prod.splits sum.splits)

lemma queue_full_refuses: "\<not> allows (d_Effect queue_full_decision)"
  by (simp add: queue_full_decision_def allows_def)

lemma forwardHTTP_response:
  "forwardHTTP env now r req d up s = (s', resp) \<Longrightarrow>
   resp = Forwarded hs status \<Longrightarrow> hr_URLAbs r \<and> hs = outbound_headers (hr_Header r)"
  by (auto simp: forwardHTTP_def Let_def split: upstream_result.splits if_splits)

lemma handleHTTP_finish_forwards:
  "handleHTTP_finish env now r req d up s = (s', Forwarded hs status) \<Longrightarrow>
   allows (d_Effect d) \<and> hs = outbound_headers (hr_Header r)"
  by (auto simp: handleHTTP_finish_def refuseHTTP_def Let_def dest: forwardHTTP_response split: if_splits)

lemma handleConnect_finish_tunnels:
  "handleConnect_finish env now r req d tr s = (s', resp) \<Longrightarrow> resp \<in> {Tunneled, Intercepting} \<Longrightarrow>
   allows (d_Effect d)"
  by (auto simp: handleConnect_finish_def refuseHTTP_def Let_def split: if_splits)

text \<open>
  C1: nothing is forwarded that was not allowed. A plain request reaches its origin, and a
  \<open>CONNECT\<close> gets a tunnel, only when one of these holds: the operator's window is open; no entry
  of the deny list matches and an entry of the allow list does, or no list entry matches and the
  rule engine allows it; or it was held, and the queue delivered a decision that allows it. Other
  requests may have run in between. A full queue or a signal after waiting never lead there.
\<close>

theorem forwarded_only_if_allowed:
  assumes "decide_or_hold env nh now m sch p req s = (s1, st)"
    and "decided_by s2 st req' d"
    and "handleHTTP_finish env now' r req' d up s2 = (s3, Forwarded hs status)
         \<or> handleConnect_finish env now' r req' d tr s2 = (s3, resp) \<and> resp \<in> {Tunneled, Intercepting}"
  shows "st = Deciding req' d \<and> allowed_outright env now s m sch p (recognizePattern s req)
    \<or> (\<exists>base hid ch c. st = Holding req' base hid ch c \<and> is_ask (d_Effect base)
         \<and> d \<noteq> signaled_decision base hid \<and> allows (d_Effect d))"
proof -
  have d: "allows (d_Effect d)"
    using assms(3) handleHTTP_finish_forwards handleConnect_finish_tunnels by blast
  from assms(1) show ?thesis
  proof (cases rule: decide_or_hold_cases)
    case decided
    with assms(2) d show ?thesis
      by (auto elim!: decided_by_Deciding dest: evaluate_allows)
  next
    case full
    with assms(2) d queue_full_refuses show ?thesis by (auto elim!: decided_by_Deciding)
  next
    case (held req'' hid ch c)
    with assms(2) d show ?thesis
      by (auto elim!: decided_by_Holding simp: hold_decision_def signaled_decision_def allows_def
          split: hold_end.splits if_splits)
  qed
qed

definition open_server :: server where
  "open_server = ExtendOpenMode 0 sample_server"

lemma open_server_open: "is_open 0 (sr_openMode open_server)"
  by (simp add: open_server_def ExtendOpenMode_def sample_server_def extend_closed closed_window_def zero_time_def
      window_state_def press_amount_def openModeIncrements_def)

lemma open_server_decides:
  "decide_or_hold env nh 0 m sch p req open_server = (open_server, Deciding (recognizePattern open_server req) openModeAllow)"
  by (simp add: decide_or_hold_def evaluate_open [OF open_server_open] is_ask_def openModeAllow_def Let_def)

theorem forwarded_only_if_allowed_witness:
  "allowed_outright sample_env 0 open_server ''GET'' ''http'' ''/'' (recognizePattern open_server zero_request)"
proof -
  let ?req = "recognizePattern open_server zero_request" and ?r = "sample_request ''a.com''"
  have "fst (snd (handleHTTP_finish sample_env 0 ?r ?req openModeAllow (Answered 200 3) open_server),
        outbound_headers (hr_Header ?r)) = Forwarded (outbound_headers (hr_Header ?r)) 200"
    by (simp add: handleHTTP_finish_def forwardHTTP_def sample_request_def openModeAllow_def allows_def Let_def)
  then obtain s3 where "handleHTTP_finish sample_env 0 ?r ?req openModeAllow (Answered 200 3) open_server
      = (s3, Forwarded (outbound_headers (hr_Header ?r)) 200)"
    by (cases "handleHTTP_finish sample_env 0 ?r ?req openModeAllow (Answered 200 3) open_server") auto
  from forwarded_only_if_allowed [OF open_server_decides outright disjI1 [OF this]] show ?thesis by auto
qed

section \<open>The deny list wins\<close>

lemma begin_request_frames:
  assumes "begin_request env now fi m host port sch p r s = (s', req)"
  shows "sr_queue s' = sr_queue s" "sr_audit s' = sr_audit s" "sr_denyList s' = sr_denyList s"
    "sr_allowList s' = sr_allowList s" "sr_openMode s' = sr_openMode s" "sr_engine s' = sr_engine s"
    "sr_MaxBodySampleBytes s' = sr_MaxBodySampleBytes s" "sr_patternRegistry s' = sr_patternRegistry s"
    "ev_ID req = fi_request fi" "ev_Host req = host" "ev_Port req = port" "ev_Path req = p" "ev_Method req = m"
  using assms by (auto simp: begin_request_def Let_def split: prod.splits)

lemma sample_http_sel:
  "sample_http s r req = Inr req' \<Longrightarrow>
   ev_Host req' = ev_Host req \<and> ev_Port req' = ev_Port req \<and> ev_Path req' = ev_Path req
   \<and> ev_Method req' = ev_Method req \<and> ev_ID req' = ev_ID req"
  by (auto simp: sample_http_def take_sample_def Let_def split: body_stream.splits if_splits sum.splits)

lemma read_limited_error: "read_limited n bytes x = Inl e \<Longrightarrow> x = Some e"
  by (cases x) (auto split: if_splits)

lemma sample_http_error: "sample_http s r req = Inl e \<Longrightarrow> \<exists>bytes. hr_Body r = Stream bytes (Some e)"
  by (auto simp: sample_http_def Let_def dest: read_limited_error
      split: body_stream.splits if_splits sum.splits)

lemma refuseHTTP_audits:
  "\<exists>s' refusal e. refuseHTTP env now r req d s = (s', Refused (statusFromEffect (d_Effect d)) refusal)
     \<and> sr_audit s' = sr_audit s @ [e] \<and> tells e req d (statusFromEffect (d_Effect d))"
  unfolding refuseHTTP_def Let_def writeAudit_def
  by (intro exI conjI, rule refl, simp, rule audit_entry_tells)

lemma handleHTTP_finish_refuses:
  assumes "\<not> allows (d_Effect d)"
  shows "\<exists>s' refusal e. handleHTTP_finish env now r req d up s = (s', Refused (statusFromEffect (d_Effect d)) refusal)
     \<and> sr_audit s' = sr_audit s @ [e] \<and> tells e req d (statusFromEffect (d_Effect d))"
  using refuseHTTP_audits [of env now r req d "settle now req d s"] assms
  by (simp add: handleHTTP_finish_def settle_def)



section \<open>Every request is audited once\<close>

fun response_status :: "response \<Rightarrow> int option" where
  "response_status (Refused st _) = Some st"
| "response_status (Failed st _) = Some st"
| "response_status (Forwarded _ st) = Some st"
| "response_status Tunneled = Some 200"
| "response_status Intercepting = Some 200"
| "response_status _ = None"

text \<open>The request's own row, if the ring still has it, and the entry that was added.\<close>

definition audited :: "request_event \<Rightarrow> decision \<Rightarrow> server \<Rightarrow> server \<Rightarrow> int \<Rightarrow> bool" where
  "audited req d s s' st \<longleftrightarrow>
     (\<exists>e. sr_audit s' = sr_audit s @ [e] \<and> tells e req d st
        \<and> map_option op_Status (ri_items (sr_ops s') (ev_ID req))
          = map_option (\<lambda>_. opStatusFromAudit st (en_Error e)) (ri_items (sr_ops s) (ev_ID req)))"

lemma ResolveOp_status:
  "map_option op_Status (ri_items (ResolveOp now rid status lat sz r) rid)
   = map_option (\<lambda>_. status) (ri_items r rid)"
  by (simp add: ResolveOp_def Let_def split: option.split)

lemma settle_row: "ri_items (sr_ops (settle now req d s)) rid = None \<longleftrightarrow> ri_items (sr_ops s) rid = None"
  by (auto simp: settle_def transitionOpFromEvaluating_def ResolveOp_def Let_def split: option.split)

lemma settle_sel [simp]: "sr_audit (settle now req d s) = sr_audit s" "sr_queue (settle now req d s) = sr_queue s"
  by (simp_all add: settle_def)

lemma map_option_const: "map_option (\<lambda>_. c) x = map_option (\<lambda>_. c) y \<longleftrightarrow> (x = None \<longleftrightarrow> y = None)"
  by (cases x; cases y) auto

lemma audited_writeAudit:
  "audited req d s (writeAudit env now req d q n st sz lat err (settle now' req d s)) st"
proof -
  let ?e = "audit_entry env (settle now' req d s) req d q n st sz lat err"
  have "en_Error ?e = err" by (simp add: audit_entry_def)
  then show ?thesis
    using audit_entry_tells settle_row
    by (auto simp: audited_def writeAudit_def ResolveOp_status map_option_const)
qed

lemma audited_forward:
  assumes "forwardHTTP env now r req d up (settle now' req d s) = (s', resp)"
  shows "\<exists>st. response_status resp = Some st \<and> audited req d s s' st"
  using assms by (auto simp: forwardHTTP_def audited_writeAudit Let_def split: upstream_result.splits if_splits)

lemma audited_refuse:
  assumes "refuseHTTP env now r req d (settle now' req d s) = (s', resp)"
  shows "\<exists>st. response_status resp = Some st \<and> audited req d s s' st"
  using assms by (auto simp: refuseHTTP_def audited_writeAudit Let_def)

lemma audited_tunnel:
  assumes "openTunnel env now req d tr (settle now' req d s) = (s', resp)"
  shows "\<exists>st. response_status resp \<in> {Some st, None} \<and> audited req d s s' st"
  using assms audited_writeAudit
  by (auto simp: openTunnel_def Let_def split: tunnel_result.splits if_splits) blast+


section \<open>Refusals say 470 or 471\<close>

text \<open>
  What \<open>Queue.Wait\<close> can deliver: a verdict of the operator, of the advisor when its answer was
  allow or deny, a timeout, a disconnect or a shutdown.
\<close>

inductive deliverable :: "decision \<Rightarrow> bool" where
  "deliverable (approve_decision h scope)"
| "deliverable (deny_decision h reason)"
| "d_Effect d = EffectAllow \<or> d_Effect d = EffectDeny \<Longrightarrow> deliverable (advisor_decision h d)"
| "deliverable (timeout_decision duration q)"
| "deliverable disconnect_decision"
| "deliverable shutdown_decision"

lemma deliverable_effect:
  "deliverable d \<Longrightarrow> d_Effect d \<in> {EffectAllow, EffectDeny, EffectAskUserResolvedAllow, EffectAskUserResolvedDeny,
     EffectAskUserTimedOut}"
  by (induction rule: deliverable.induct)
    (auto simp: approve_decision_def deny_decision_def advisor_decision_def timeout_decision_def
      disconnect_decision_def shutdown_decision_def)

inductive ends_with :: "server \<Rightarrow> http_state \<Rightarrow> request_event \<Rightarrow> decision \<Rightarrow> bool" where
  at_once: "ends_with s (Deciding req d) req d"
| delivered: "deliverable d \<Longrightarrow> ends_with s (Holding req base hid ch c) req d"
| signalled: "hold_decision s base hid Signaled = Some d \<Longrightarrow> ends_with s (Holding req base hid ch c) req d"

inductive_cases ends_with_Deciding: "ends_with s (Deciding req d) req' d'"
inductive_cases ends_with_Holding: "ends_with s (Holding req base hid ch c) req' d'"

lemma evaluate_effects:
  assumes "rules_ok (sr_engine s)"
  shows "d_Effect (evaluate env now s m sch p req) \<in> {EffectAllow, EffectDeny, EffectAskUser, EffectAskLLM}"
  using active_effects [OF assms, of "ex_rx env" "ex_zones env" now req]
  by (auto simp: evaluate_def fastPathDecide_def openModeAllow_def Let_def split: option.splits)

lemma ends_with_effect:
  assumes "rules_ok (sr_engine s)" "decide_or_hold env nh now m sch p req s = (s1, st)" "ends_with s2 st req' d"
  shows "d_Effect d \<in> {EffectAllow, EffectDeny, EffectAskUserResolvedAllow, EffectAskUserResolvedDeny,
    EffectAskUserTimedOut, EffectAskUserSignaled}"
  using assms(2)
proof (cases rule: decide_or_hold_cases)
  case decided
  with assms(3) evaluate_effects [OF assms(1), of env now m sch p "recognizePattern s req"] show ?thesis
    by (auto elim!: ends_with_Deciding simp: is_ask_def)
next
  case full
  with assms(3) show ?thesis by (auto elim!: ends_with_Deciding simp: queue_full_decision_def)
next
  case (held req'' hid ch c)
  with assms(3) show ?thesis
    by (auto elim!: ends_with_Holding dest: deliverable_effect
        simp: hold_decision_def signaled_decision_def split: if_splits)
qed

text \<open>
  A refusal is recognisable. With rules that passed a reload, a plain request that is not
  forwarded because of its decision is answered with 470, or with 471 exactly when it was
  signalled while on hold; no refusal carries a status an origin could have sent.
\<close>

lemma refusals_are_470_or_471:
  assumes "rules_ok (sr_engine s)"
    and "decide_or_hold env nh now m sch p req s = (s1, st)"
    and "ends_with s2 st req' d"
    and "handleHTTP_finish env now' r req' d up s2 = (s3, Refused status refusal)"
  shows "\<not> allows (d_Effect d) \<and> status = (if d_Effect d = EffectAskUserSignaled then 471 else 470)"
proof -
  have "\<not> allows (d_Effect d) \<and> status = statusFromEffect (d_Effect d)"
    using assms(4)
    by (auto simp: handleHTTP_finish_def forwardHTTP_def refuseHTTP_def Let_def
        split: if_splits upstream_result.splits)
  with ends_with_effect [OF assms(1-3)] show ?thesis
    by (auto simp: statusFromEffect_def StatusTrollbridgeDeclined_def StatusTrollbridgePending_def allows_def)
qed

lemma sample_event:
  "evaluate sample_env 0 sample_server ''GET'' ''http'' ''/'' (zero_request\<lparr>ev_Host := ''a.com''\<rparr>)
   = default_decision ''default-ask''"
proof -
  have "Match (sr_denyList sample_server) ''GET'' ''http'' ''a.com'' 0 ''/'' = None" by code_simp
  moreover have "Match (sr_allowList sample_server) ''GET'' ''http'' ''a.com'' 0 ''/'' = None" by code_simp
  moreover have "\<not> is_open 0 (sr_openMode sample_server)"
    by (simp add: sample_server_def window_state_def closed_window_def zero_time_def)
  moreover have "ev_Host (zero_request\<lparr>ev_Host := ''a.com''\<rparr>) = ''a.com''" "ev_Port (zero_request\<lparr>ev_Host := ''a.com''\<rparr>) = 0"
    by (simp_all add: zero_request_def)
  moreover have "Decide rx z 0 (sr_engine sample_server) r = default_decision ''default-ask''" for rx z r
    by (simp add: sample_server_def sample_engine_def Decide_def)
  ultimately show ?thesis by (simp only: evaluate_def fastPathDecide_def Let_def option.case if_False)
qed

lemma refusals_are_470_or_471_example:
  "\<exists>s1 req d. decide_or_hold sample_env ''hold-1'' 0 ''GET'' ''http'' ''/'' (zero_request\<lparr>ev_Host := ''a.com''\<rparr>) sample_server
       = (s1, Holding req d ''hold-1'' 0 None)
     \<and> (\<forall>s3 status refusal.
        handleHTTP_finish sample_env 9 (sample_request ''a.com'') req (signaled_decision d ''hold-1'') (Answered 200 0) s1
          = (s3, Refused status refusal) \<longrightarrow> status = 471)"
proof -
  let ?req = "zero_request\<lparr>ev_Host := ''a.com''\<rparr>" and ?d = "default_decision ''default-ask''"
  have rules: "rules_ok (sr_engine sample_server)"
    by (simp add: rules_ok_def sample_server_def sample_engine_def)
  have "recognizePattern sample_server ?req = ?req" by (simp add: recognizePattern_def sample_server_def)
  moreover have "is_ask (d_Effect ?d)" by (simp add: is_ask_def default_decision_def)
  moreover have "sr_queue sample_server = NewQueue 10 (60 * second) ''deny''" "sr_advisor sample_server = None"
    by (simp_all add: sample_server_def)
  ultimately obtain s1 where h: "decide_or_hold sample_env ''hold-1'' 0 ''GET'' ''http'' ''/'' ?req sample_server
      = (s1, Holding ?req ?d ''hold-1'' 0 None)" and c: "sr_cfg s1 = sr_cfg sample_server"
    by (auto simp: decide_or_hold_def sample_event hold_begin_def Enqueue_def NewQueue_def Let_def)
  have "ends_with s1 (Holding ?req ?d ''hold-1'' 0 None) ?req (signaled_decision ?d ''hold-1'')"
    by (rule ends_with.signalled)
      (simp add: hold_decision_def c sample_server_def sample_config_def wrap64_def)
  then have "status = 471" if "handleHTTP_finish sample_env 9 (sample_request ''a.com'') ?req
      (signaled_decision ?d ''hold-1'') (Answered 200 0) s1 = (s3, Refused status refusal)" for s3 status refusal
    using refusals_are_470_or_471 [OF rules h _ that] by (simp add: signaled_decision_def)
  with h show ?thesis by blast
qed

end
