(* ===== verification/ServerIntercept.thy ===== *)
theory ServerIntercept
  imports ServerHTTP
begin

text \<open>
  \<open>internal/server/intercept.go\<close>: requests inside a terminated TLS tunnel. The loop of
  \<open>interceptCONNECT\<close> is one step per message it reads; each inner request is cut at the wait for
  the approval queue, as the plain handlers are. Certificates, the TLS connections and the
  watcher that ends a wait when the client leaves are outside the model: leaving the wait early
  is one of the ways \<open>Queue.Wait\<close> ends.
\<close>

section \<open>The tunnel\<close>

record tunnel =
  tu_host :: string
  tu_port :: int
  tu_session :: string
  tu_identity :: string
  tu_connectReqID :: string
  tu_connectRebound :: bool
  tu_clientAddr :: string

definition handshake_deadline :: int where
  "handshake_deadline = 15 * second"

definition maxHeldBodyBufferBytes :: nat where
  "maxHeldBodyBufferBytes = 8 * 2 ^ 20"

text \<open>The event that stands for a message that never became a request.\<close>

definition tunnel_event :: "int \<Rightarrow> string \<Rightarrow> tunnel \<Rightarrow> request_event" where
  "tunnel_event now rid tu = zero_request\<lparr>ev_ID := rid, ev_SessionID := tu_session tu,
     ev_IdentityID := tu_identity tu, ev_Timestamp := now, ev_Method := ''?'', ev_Scheme := ''https-intercepted'',
     ev_Host := tu_host tu, ev_Port := tu_port tu, ev_ClientAddr := tu_clientAddr tu\<rparr>"

definition handshake_failed ::
    "server_env \<Rightarrow> int \<Rightarrow> string \<Rightarrow> tunnel \<Rightarrow> tls_error \<Rightarrow> bool \<Rightarrow> hello_recorder \<Rightarrow> int \<Rightarrow> server \<Rightarrow> server" where
  "handshake_failed env now rid tu err got hello latency s =
     (let category = ClassifyClientHandshakeErrorAfter (Some err) got;
          s = s\<lparr>sr_ops := Begin now rid ''TLS'' (''https://'' @ tu_host tu @ '':'' @ itoa (tu_port tu)) (sr_ops s)\<rparr>;
          d = zero_decision\<lparr>d_Effect := EffectDeny, d_Source := SourceTLSHandshakeFail,
            d_Reason := ''TLS handshake failed ('' @ category_string category @ ''): '' @ te_text err\<rparr>
      in writeAuditTLSHandshakeFail env now (tunnel_event now rid tu) d category (recorded_hello hello) 502 latency
           (te_text err) s)"

definition malformed_request :: "server_env \<Rightarrow> int \<Rightarrow> string \<Rightarrow> tunnel \<Rightarrow> string \<Rightarrow> server \<Rightarrow> server" where
  "malformed_request env now rid tu err s =
     writeAudit env now (tunnel_event now rid tu)
       (zero_decision\<lparr>d_Effect := EffectDeny, d_Source := SourceMalformedTunnel,
          d_Reason := ''malformed HTTP/1.1 request inside intercepted TLS tunnel''\<rparr>)
       [] 0 400 0 0 err s"

text \<open>The loop ends after a message that closes the connection.\<close>

definition closes_tunnel :: "headers \<Rightarrow> bool" where
  "closes_tunnel h \<longleftrightarrow> equal_fold (header_get h ''Connection'') ''close''"

section \<open>An inner request up to the decision\<close>

text \<open>What was read of the body, and whether all of it is off the tunnel.\<close>

definition sample_inner :: "server \<Rightarrow> http_request \<Rightarrow> int \<Rightarrow> string + string \<times> bool" where
  "sample_inner s r contentLength =
     (case hr_Body r of
        NoBody \<Rightarrow> Inr ([], True)
      | Stream bytes end_ \<Rightarrow>
          let cap = sr_MaxBodySampleBytes s in
          if cap > 0 then
            (case read_limited (nat (cap + 1)) bytes end_ of
               Inl e \<Rightarrow> Inl e
             | Inr pre \<Rightarrow> Inr (if cap < int (length pre) then ([], False) else (pre, True)))
          else Inr ([], contentLength = 0))"

definition inner_event ::
    "int \<Rightarrow> string \<Rightarrow> tunnel \<Rightarrow> http_request \<Rightarrow> int \<Rightarrow> string \<Rightarrow> request_event" where
  "inner_event now rid tu r cap bodyBuf =
     (let req = zero_request\<lparr>ev_ID := rid, ev_SessionID := tu_session tu, ev_IdentityID := tu_identity tu,
            ev_Timestamp := now, ev_Method := hr_Method r, ev_Scheme := ''https-intercepted'', ev_Host := tu_host tu,
            ev_Port := tu_port tu, ev_Path := hr_URLPath r, ev_Headers := hr_Header r,
            ev_ClientAddr := tu_clientAddr tu\<rparr>
      in if int (length bodyBuf) \<le> cap \<and> 0 < length bodyBuf then
           req\<lparr>ev_BodySample := bodyBuf, ev_BodyAvailable := True, ev_BodySize := int (length bodyBuf)\<rparr>
         else req)"

text \<open>The first inner request takes over the row of the \<open>CONNECT\<close>, if it is still there.\<close>

definition begin_inner :: "int \<Rightarrow> request_event \<Rightarrow> tunnel \<Rightarrow> server \<Rightarrow> server \<times> tunnel" where
  "begin_inner now req tu s =
     (let url = opURLForRequest req;
          (ops, ok) = (if \<not> tu_connectRebound tu
                       then Rebind now (tu_connectReqID tu) (ev_ID req) (ev_Method req) url (sr_ops s)
                       else (sr_ops s, False))
      in if ok then (s\<lparr>sr_ops := ops\<rparr>, tu\<lparr>tu_connectRebound := True\<rparr>)
         else (s\<lparr>sr_ops := Begin now (ev_ID req) (ev_Method req) url ops\<rparr>, tu))"

definition drainBodyForHold :: "body_stream \<Rightarrow> nat \<Rightarrow> string + bool" where
  "drainBodyForHold body limit =
     (case body of
        NoBody \<Rightarrow> Inr True
      | Stream bytes end_ \<Rightarrow>
          (case read_limited (Suc limit) bytes end_ of
             Inl e \<Rightarrow> Inl e
           | Inr pre \<Rightarrow> Inr (\<not> limit < length pre)))"

datatype inner_state = Aborted string | InFlight string bool http_state

text \<open>
  An inner request that has to wait is first drained off the tunnel; the flag says whether a
  disconnect can then be noticed during the wait. The string is the body the audit entry samples.
\<close>

definition dispatch_start ::
    "server_env \<Rightarrow> int \<Rightarrow> fresh_ids \<Rightarrow> tunnel \<Rightarrow> http_request \<Rightarrow> int \<Rightarrow> server \<Rightarrow> (server \<times> tunnel) \<times> inner_state" where
  "dispatch_start env now fi tu r contentLength s =
     (case sample_inner s r contentLength of
        Inl e \<Rightarrow> ((s, tu), Aborted e)
      | Inr (bodyBuf, buffered) \<Rightarrow>
          let req = inner_event now (fi_request fi) tu r (sr_MaxBodySampleBytes s) bodyBuf in
          (case begin_inner now req tu s of
             (s, tu) \<Rightarrow>
               let d = evaluate env now s (ev_Method req) ''https'' (ev_Path req) (recognizePattern s req);
                   drained = (if is_ask (d_Effect d) \<and> \<not> buffered
                              then drainBodyForHold (hr_Body r) maxHeldBodyBufferBytes else Inr buffered)
               in (case drained of
                     Inl e \<Rightarrow> ((s, tu), Aborted e)
                   | Inr b \<Rightarrow>
                       (case decide_or_hold env (fi_hold fi) now (ev_Method req) ''https'' (ev_Path req) req s of
                          (s, st) \<Rightarrow> ((s, tu), InFlight bodyBuf b st)))))"

section \<open>From the decision on\<close>

datatype origin_result =
    OriginDialError tls_error
  | OriginWriteError string
  | OriginReadError string
  | ClientWriteError int string
  | OriginAnswered int int

text \<open>The headers a refusal is sent with over the tunnel.\<close>

definition inner_refusal_headers :: "refusal \<Rightarrow> headers" where
  "inner_refusal_headers = (\<lambda>(hdrs, body, contentType).
     fold (\<lambda>(k, v) h. header_set h k v) hdrs
       [''Content-Type'' \<mapsto> [contentType], ''Content-Length'' \<mapsto> [itoa (int (length body))],
        ''Connection'' \<mapsto> [''close'']])"

definition forward_inner ::
    "server_env \<Rightarrow> int \<Rightarrow> http_request \<Rightarrow> request_event \<Rightarrow> decision \<Rightarrow> string \<Rightarrow> origin_result \<Rightarrow> server
     \<Rightarrow> server \<times> response" where
  "forward_inner env now r req d bodyBuf og s =
     (let latency = now - ev_Timestamp req;
          audit = (\<lambda>status sz err cat. writeAuditWithBody env now req d bodyBuf status sz latency err cat s)
      in case og of
           OriginDialError e \<Rightarrow>
             (audit 502 0 (te_text e) (category_string (ClassifyOriginTLSError (Some e))),
              Failed 502 (''trollbridge: origin TLS verification failed: '' @ te_text e))
         | OriginWriteError e \<Rightarrow> (audit 502 0 e [], Dropped)
         | OriginReadError e \<Rightarrow> (audit 502 0 e [], Dropped)
         | ClientWriteError status e \<Rightarrow> (audit status 0 e [], Dropped)
         | OriginAnswered status n \<Rightarrow> (audit status n [] [], Forwarded (outbound_headers (hr_Header r)) status))"

definition dispatch_finish ::
    "server_env \<Rightarrow> int \<Rightarrow> http_request \<Rightarrow> request_event \<Rightarrow> decision \<Rightarrow> string \<Rightarrow> origin_result \<Rightarrow> server
     \<Rightarrow> server \<times> response" where
  "dispatch_finish env now r req d bodyBuf og s =
     (let s = settle now req d s in
      if \<not> allows (d_Effect d) then
        let resp = denyResponse (ex_media env) d (ev_ID req) (header_get (hr_Header r) ''Accept'');
            status = statusFromEffect (d_Effect d)
        in (writeAuditWithBody env now req d bodyBuf status 0 (now - ev_Timestamp req) [] [] s, Refused status resp)
      else forward_inner env now r req d bodyBuf og s)"

section \<open>Inner requests obey the same rules\<close>

lemma dispatch_start_decides:
  assumes "dispatch_start env now fi tu r cl s = ((s1, tu1), InFlight bodyBuf b st)"
  obtains s0 req where "decide_or_hold env (fi_hold fi) now (hr_Method r) ''https'' (hr_URLPath r) req s0 = (s1, st)"
    "ev_ID req = fi_request fi" "ev_Host req = tu_host tu" "ev_Port req = tu_port tu"
    "sr_engine s0 = sr_engine s" "sr_openMode s0 = sr_openMode s" "sr_denyList s0 = sr_denyList s"
    "sr_allowList s0 = sr_allowList s" "sr_queue s0 = sr_queue s" "sr_audit s0 = sr_audit s"
    "sr_patternRegistry s0 = sr_patternRegistry s"
proof -
  obtain bb bf where smp: "sample_inner s r cl = Inr (bb, bf)"
    using assms by (auto simp: dispatch_start_def split: sum.splits prod.splits)
  define req where "req = inner_event now (fi_request fi) tu r (sr_MaxBodySampleBytes s) bb"
  obtain s0 tu0 where bi: "begin_inner now req tu s = (s0, tu0)" by force
  have sel: "ev_ID req = fi_request fi" "ev_Host req = tu_host tu" "ev_Port req = tu_port tu"
      "ev_Method req = hr_Method r" "ev_Path req = hr_URLPath r"
    by (simp_all add: req_def inner_event_def Let_def)
  have fr: "sr_engine s0 = sr_engine s" "sr_openMode s0 = sr_openMode s" "sr_denyList s0 = sr_denyList s"
      "sr_allowList s0 = sr_allowList s" "sr_queue s0 = sr_queue s" "sr_audit s0 = sr_audit s"
      "sr_patternRegistry s0 = sr_patternRegistry s"
    using bi by (auto simp: begin_inner_def Let_def split: prod.splits if_splits)
  have "decide_or_hold env (fi_hold fi) now (hr_Method r) ''https'' (hr_URLPath r) req s0 = (s1, st)"
    using assms smp bi sel
    by (auto simp: dispatch_start_def req_def [symmetric] Let_def split: sum.splits prod.splits)
  then show ?thesis using sel(1-3) fr by (rule that)
qed

lemma dispatch_finish_forwards:
  "dispatch_finish env now r req d bodyBuf og s = (s', Forwarded hs status) \<Longrightarrow>
   allows (d_Effect d) \<and> hs = outbound_headers (hr_Header r)"
  by (auto simp: dispatch_finish_def forward_inner_def Let_def split: if_splits origin_result.splits)

lemma audited_with_body:
  "audited req d s (writeAuditWithBody env now req d b st sz lat err cat (settle now' req d s)) st"
proof -
  let ?e = "body_entry env (settle now' req d s) req d b st sz lat err cat"
  have "en_Error ?e = err" by (simp add: body_entry_def Let_def split: prod.split)
  then show ?thesis
    using body_entry_tells settle_row
    by (auto simp: audited_def writeAuditWithBody_def ResolveOp_status map_option_const)
qed

lemma dispatch_finish_audits:
  "dispatch_finish env now r req d bodyBuf og s = (s', resp) \<Longrightarrow>
   \<exists>st. response_status resp \<in> {Some st, None} \<and> audited req d s s' st"
  unfolding dispatch_finish_def forward_inner_def Let_def
  using audited_with_body
  by (auto split: if_splits origin_result.splits) blast+


definition sample_tunnel :: tunnel where
  "sample_tunnel = \<lparr>tu_host = ''a.com'', tu_port = 443, tu_session = ''sess-1'', tu_identity = ''anonymous'',
     tu_connectReqID = ''c1'', tu_connectRebound = False, tu_clientAddr = ''10.0.0.1:5000''\<rparr>"


end
