(* ===== verification/GoNet.thy ===== *)
theory GoNet
  imports GoStrings
begin

text \<open>
  \<open>net.ParseIP\<close> of Go's standard library (its parser \<open>netip.ParseAddr\<close>): an address is the list
  of its 4 or 16 bytes. \<open>to4\<close> is the method \<open>IP.To4\<close>.
\<close>

definition v4_field :: "string \<Rightarrow> int option" where
  "v4_field s =
     (if s \<noteq> [] \<and> list_all is_digit s \<and> (length s = 1 \<or> hd s \<noteq> CHR ''0'') \<and> digits_val s \<le> 255
      then Some (int (digits_val s)) else None)"

definition parse_v4 :: "string \<Rightarrow> int list option" where
  "parse_v4 s =
     (case map v4_field (split_on (CHR ''.'') s) of
        [Some a, Some b, Some c, Some d] \<Rightarrow> Some [a, b, c, d]
      | _ \<Rightarrow> None)"

definition hex_val :: "char \<Rightarrow> int option" where
  "hex_val c =
     (let n = of_char c in
      if is_digit c then Some (n - 48)
      else if 97 \<le> n \<and> n \<le> 102 then Some (n - 87)
      else if 65 \<le> n \<and> n \<le> 70 then Some (n - 55)
      else None)"

text \<open>The leading hexadecimal digits: their value and number; \<open>None\<close> for more than four.\<close>

definition hex_run :: "string \<Rightarrow> (int \<times> nat) option" where
  "hex_run s =
     (let ds = takeWhile (\<lambda>c. hex_val c \<noteq> None) s in
      if length ds > 4 then None
      else Some (foldl (\<lambda>n c. 16 * n + the (hex_val c)) 0 ds, length ds))"

text \<open>The loop over the groups: the bytes so far, where the ellipsis stands, the rest of the
  text. Each turn reads at least one character; the fuel is the length of the text.\<close>

fun v6_groups :: "nat \<Rightarrow> int list \<Rightarrow> nat option \<Rightarrow> string \<Rightarrow> (int list \<times> nat option \<times> string) option" where
  "v6_groups 0 bs el s = None"
| "v6_groups (Suc f) bs el s =
     (if length bs \<ge> 16 then Some (bs, el, s)
      else case hex_run s of
        None \<Rightarrow> None
      | Some (v, k) \<Rightarrow>
          if k = 0 then None
          else (case drop k s of
              [] \<Rightarrow> Some (bs @ [v div 256, v mod 256], el, [])
            | c # t \<Rightarrow>
                if c = CHR ''.'' then
                  (if el = None \<and> length bs \<noteq> 12 \<or> length bs + 4 > 16 then None
                   else map_option (\<lambda>q. (bs @ q, el, [])) (parse_v4 s))
                else if c \<noteq> CHR '':'' \<or> t = [] then None
                else let bs = bs @ [v div 256, v mod 256] in
                  if hd t = CHR '':'' then
                    (if el \<noteq> None then None
                     else if tl t = [] then Some (bs, Some (length bs), [])
                     else v6_groups f bs (Some (length bs)) (tl t))
                  else v6_groups f bs el t))"

definition parse_v6 :: "string \<Rightarrow> int list option" where
  "parse_v6 s =
     (if s = ''::'' then Some (replicate 16 0)
      else case (if has_prefix s ''::'' then v6_groups (Suc (length s)) [] (Some 0) (drop 2 s)
                 else v6_groups (Suc (length s)) [] None s) of
        None \<Rightarrow> None
      | Some (bs, el, rest) \<Rightarrow>
          if rest \<noteq> [] then None
          else (case el of
              None \<Rightarrow> if length bs < 16 then None else Some bs
            | Some e \<Rightarrow> if length bs < 16 then Some (take e bs @ replicate (16 - length bs) 0 @ drop e bs)
                        else None))"

text \<open>An address with a zone is not an \<open>IP\<close>.\<close>

definition ParseIP :: "string \<Rightarrow> int list option" where
  "ParseIP s =
     (case find (\<lambda>c. c \<in> {CHR ''.'', CHR '':'', CHR ''%''}) s of
        None \<Rightarrow> None
      | Some c \<Rightarrow>
          if c = CHR ''.'' then parse_v4 s
          else if c = CHR '':'' \<and> CHR ''%'' \<notin> set s then parse_v6 s
          else None)"

definition to4 :: "int list \<Rightarrow> int list option" where
  "to4 ip =
     (if length ip = 4 then Some ip
      else if length ip = 16 \<and> take 10 ip = replicate 10 0 \<and> ip ! 10 = 255 \<and> ip ! 11 = 255
      then Some (drop 12 ip) else None)"

lemma ParseIP_samples:
  "ParseIP ''10.0.0.255'' = Some [10, 0, 0, 255]" "ParseIP ''10.0.0'' = None" "ParseIP ''01.0.0.1'' = None"
  "ParseIP ''256.0.0.1'' = None" "ParseIP ''::1'' = Some (replicate 15 0 @ [1])" "ParseIP ''fe80::1%eth0'' = None"
  "ParseIP ''::ffff:1.2.3.4'' = Some (replicate 10 0 @ [255, 255, 1, 2, 3, 4])"
  "ParseIP ''1::2::3'' = None" "ParseIP ''12345::'' = None" "ParseIP ''api.example.com'' = None"
  by code_simp+

end
