(* ===== verification/Generalize.thy ===== *)
theory Generalize
  imports GoNet HostList
begin

text \<open>
  \<open>internal/generalize/generalize.go\<close> and \<open>pattern_detect.go\<close>: the detectors that propose one
  wider entry for several entries of a list. The public suffix list is the parameter \<open>etld\<close>
  (\<open>publicsuffix.EffectiveTLDPlusOne\<close>), the pattern registry the parameter \<open>recognize\<close>. A Go map
  of groups is an association list in the order the groups appeared; a detector's candidates come
  in the map's iteration order, which the code leaves open, so its result stands for the
  candidates in any order.
\<close>

section \<open>Candidates\<close>

record pattern_candidate =
  pc_Pattern :: string
  pc_Components :: "(string \<times> string) list"
  pc_Method :: string

record candidate =
  c_Axis :: string
  c_List :: string
  c_SourceEntries :: "string list"
  c_SuggestedPattern :: string
  c_PatternMatch :: "pattern_candidate option"

definition AxisHostnameBelowTLD :: string where "AxisHostnameBelowTLD = ''hostname_below_tld''"
definition AxisURLSegment :: string where "AxisURLSegment = ''url_segment''"
definition AxisMethod :: string where "AxisMethod = ''method''"

definition NUL :: char where "NUL = char_of (0 :: nat)"

definition CanonicalKey :: "candidate \<Rightarrow> string" where
  "CanonicalKey c = join_with [NUL] (sort_strings (c_SourceEntries c))"

section \<open>Reading an entry\<close>

record parsed =
  g_raw :: string
  g_method :: string
  g_scheme :: string
  g_host :: string
  g_port :: int
  g_path :: string
  g_ok :: bool
  g_isIP :: bool

definition isAllUpperASCII :: "string \<Rightarrow> bool" where
  "isAllUpperASCII s \<longleftrightarrow> s \<noteq> [] \<and> list_all is_upper s"

text \<open>\<open>splitHostPort\<close>; \<open>None\<close> is its error.\<close>

definition split_hp :: "string \<Rightarrow> (string \<times> int) option" where
  "split_hp hp =
     (if hp = [] then None
      else if has_prefix hp ''['' then
        (case index_byte hp (CHR '']'') of
           None \<Rightarrow> None
         | Some j \<Rightarrow>
             (let host = take (j - 1) (drop 1 hp); rest = drop (Suc j) hp in
              if has_prefix rest '':'' then map_option (\<lambda>n. (host, n)) (atoi (drop 1 rest))
              else Some (host, 0)))
      else (case last_index_byte hp (CHR '':'') of
          None \<Rightarrow> Some (hp, 0)
        | Some i \<Rightarrow>
            if count_list hp (CHR '':'') > 1 then Some (hp, 0)
            else (case atoi (drop (Suc i) hp) of None \<Rightarrow> Some (hp, 0) | Some n \<Rightarrow> Some (take i hp, n))))"

definition method_prefix :: "string \<Rightarrow> string \<times> string" where
  "method_prefix raw =
     (case index_byte raw (CHR '' '') of
        None \<Rightarrow> (''*'', raw)
      | Some i \<Rightarrow>
          if i > 0 \<and> (take i raw = ''*'' \<or> isAllUpperASCII (take i raw))
          then (take i raw, trim_space (drop (Suc i) raw))
          else (''*'', raw))"

definition scheme_prefix :: "string \<Rightarrow> string \<times> string" where
  "scheme_prefix rest =
     (case index_str rest ''://'' of None \<Rightarrow> ([], rest) | Some i \<Rightarrow> (to_lower (take i rest), drop (i + 3) rest))"

definition default_port :: "string \<Rightarrow> int \<Rightarrow> int" where
  "default_port scheme port =
     (if scheme = ''https'' \<and> port = 443 \<or> scheme = ''http'' \<and> port = 80 then 0 else port)"

definition parseEntry :: "string \<Rightarrow> parsed" where
  "parseEntry raw =
     (let bad = \<lparr>g_raw = trim_space raw, g_method = [], g_scheme = [], g_host = [], g_port = 0,
                 g_path = [], g_ok = False, g_isIP = False\<rparr>
      in if trim_space raw = [] then bad
         else case method_prefix (trim_space raw) of (meth, rest) \<Rightarrow>
           if contains_byte rest (CHR ''*'') then bad\<lparr>g_method := meth\<rparr>
           else case scheme_prefix rest of (scheme, rest) \<Rightarrow>
             (case split_path rest of (hostport, path) \<Rightarrow>
                let q = bad\<lparr>g_method := meth, g_scheme := scheme, g_path := path\<rparr> in
                (case split_hp hostport of
                   None \<Rightarrow> q
                 | Some (host, port) \<Rightarrow>
                     if host = [] then q
                     else q\<lparr>g_host := to_lower host, g_port := default_port scheme port,
                            g_isIP := (case ParseIP (to_lower host) of None \<Rightarrow> False | Some ip \<Rightarrow> to4 ip \<noteq> None),
                            g_ok := True\<rparr>)))"

section \<open>Rendering\<close>

definition formatHost :: "string \<Rightarrow> int \<Rightarrow> string" where
  "formatHost host port =
     (let host = (if CHR '':'' \<in> set host then ''['' @ host @ '']'' else host)
      in if port = 0 then host else host @ '':'' @ itoa port)"

definition renderPattern :: "string \<Rightarrow> string \<Rightarrow> string \<Rightarrow> string \<Rightarrow> string" where
  "renderPattern meth scheme hostExpr pathExpr =
     meth @ '' '' @ (if scheme \<noteq> [] then scheme @ ''://'' else []) @ hostExpr @ pathExpr"

section \<open>Grouping\<close>

text \<open>\<open>by[key (x)] = append (by[key (x)], x)\<close> over a list.\<close>

definition group_by :: "('a \<Rightarrow> 'k) \<Rightarrow> 'a list \<Rightarrow> ('k \<times> 'a list) list" where
  "group_by key xs =
     fold (\<lambda>x m. aput (key x) ((case map_of m (key x) of None \<Rightarrow> [] | Some g \<Rightarrow> g) @ [x]) m) xs []"

definition rawSorted :: "parsed list \<Rightarrow> string list" where
  "rawSorted g = sort_strings (map g_raw g)"

definition uniqueMethods :: "parsed list \<Rightarrow> string set" where
  "uniqueMethods g = g_method ` set g"

text \<open>A flat candidate for a group of entries.\<close>

definition flat :: "string \<Rightarrow> string \<Rightarrow> parsed list \<Rightarrow> string \<Rightarrow> candidate" where
  "flat axis l g pat = \<lparr>c_Axis = axis, c_List = l, c_SourceEntries = rawSorted g,
     c_SuggestedPattern = pat, c_PatternMatch = None\<rparr>"

definition groupKeyMethod :: "parsed \<Rightarrow> string" where
  "groupKeyMethod p = g_scheme p @ ''|'' @ formatHost (g_host p) (g_port p) @ ''|'' @ g_path p"

definition DetectMethod :: "string list \<Rightarrow> string \<Rightarrow> candidate list" where
  "DetectMethod es l =
     concat (map (\<lambda>(_, g).
         if length g < 2 \<or> card (uniqueMethods g) < 2 then []
         else let h = hd g in
           [flat AxisMethod l g (renderPattern ''*'' (g_scheme h) (formatHost (g_host h) (g_port h)) (g_path h))])
       (group_by groupKeyMethod (filter g_ok (map parseEntry es))))"

text \<open>The path up to its last separator and the segment after it, trailing slashes dropped.\<close>

definition trim_slash :: "string \<Rightarrow> string" where
  "trim_slash p = trim_right_chars [CHR ''/''] p"

definition path_split :: "string \<Rightarrow> (string \<times> string) option" where
  "path_split p = (case last_index_byte (trim_slash p) (CHR ''/'') of
     None \<Rightarrow> None | Some i \<Rightarrow> Some (take i (trim_slash p), drop (Suc i) (trim_slash p)))"

definition path_prefix_of :: "parsed \<Rightarrow> string" where
  "path_prefix_of p = (case path_split (g_path p) of None \<Rightarrow> [] | Some (pre, _) \<Rightarrow> pre)"

definition path_segment_of :: "parsed \<Rightarrow> string" where
  "path_segment_of p = (case path_split (g_path p) of None \<Rightarrow> [] | Some (_, seg) \<Rightarrow> seg)"

definition key_host :: "parsed \<Rightarrow> string" where
  "key_host p = g_method p @ ''|'' @ g_scheme p @ ''|'' @ formatHost (g_host p) (g_port p)"

definition DetectURLSegment :: "string list \<Rightarrow> string \<Rightarrow> candidate list" where
  "DetectURLSegment es l =
     concat (map (\<lambda>(_, g).
         if length g < 2 \<or> card (path_segment_of ` set g) < 2 then []
         else let h = hd g in
           [flat AxisURLSegment l g (renderPattern (g_method h) (g_scheme h)
              (formatHost (g_host h) (g_port h)) (path_prefix_of h @ ''/*''))])
       (group_by (\<lambda>p. key_host p @ ''|'' @ path_prefix_of p)
         (filter (\<lambda>p. g_ok p \<and> g_path p \<noteq> [] \<and> path_split (g_path p) \<noteq> None) (map parseEntry es))))"

definition DetectHostPath :: "string list \<Rightarrow> string \<Rightarrow> candidate list" where
  "DetectHostPath es l =
     concat (map (\<lambda>(_, g).
         if card (path_prefix_of ` set g) < 2 \<or> card ((\<lambda>p. trim_slash (g_path p)) ` set g) < 2 then []
         else let h = hd g in
           [flat AxisURLSegment l g (renderPattern (g_method h) (g_scheme h)
              (formatHost (g_host h) (g_port h)) ''/*'')])
       (group_by key_host (filter (\<lambda>p. g_ok p \<and> g_path p \<noteq> []) (map parseEntry es))))"

type_synonym etld_db = "string \<Rightarrow> string option"

definition parentBelowPublicSuffix :: "etld_db \<Rightarrow> string \<Rightarrow> string" where
  "parentBelowPublicSuffix etld host =
     (let host = trim_right_chars [CHR ''.''] (to_lower host) in
      if host = [] then []
      else (case etld host of
          None \<Rightarrow> []
        | Some reg \<Rightarrow>
            if host = reg then []
            else (case index_byte host (CHR ''.'') of
                None \<Rightarrow> []
              | Some i \<Rightarrow> let parent = drop (Suc i) host in
                  if length parent < length reg then [] else parent)))"

definition below_suffix :: "etld_db \<Rightarrow> parsed \<Rightarrow> bool" where
  "below_suffix etld p \<longleftrightarrow> g_ok p \<and> \<not> g_isIP p \<and> parentBelowPublicSuffix etld (g_host p) \<noteq> []
     \<and> g_host p \<noteq> parentBelowPublicSuffix etld (g_host p)"

definition host_wildcard :: "etld_db \<Rightarrow> parsed \<Rightarrow> string" where
  "host_wildcard etld p = ''*.'' @ parentBelowPublicSuffix etld (g_host p)
     @ (if g_port p \<noteq> 0 then '':'' @ itoa (g_port p) else [])"

definition DetectHostnameBelowTLD :: "etld_db \<Rightarrow> string list \<Rightarrow> string \<Rightarrow> candidate list" where
  "DetectHostnameBelowTLD etld es l =
     concat (map (\<lambda>(_, g).
         if card (g_host ` set g) < 2 then []
         else let h = hd g in
           [flat AxisHostnameBelowTLD l g
              (renderPattern (g_method h) (g_scheme h) (host_wildcard etld h) (g_path h))])
       (group_by (\<lambda>p. g_method p @ ''|'' @ g_scheme p @ ''|'' @ itoa (g_port p) @ ''|'' @ g_path p @ ''|''
                       @ parentBelowPublicSuffix etld (g_host p))
         (filter (below_suffix etld) (map parseEntry es))))"

definition detect_list :: "etld_db \<Rightarrow> string list \<Rightarrow> string \<Rightarrow> candidate list" where
  "detect_list etld es l =
     DetectMethod es l @ DetectURLSegment es l @ DetectHostPath es l @ DetectHostnameBelowTLD etld es l"

definition DetectAll :: "etld_db \<Rightarrow> string list \<Rightarrow> string list \<Rightarrow> candidate list" where
  "DetectAll etld allow deny = detect_list etld allow ''allow'' @ detect_list etld deny ''deny''"

text \<open>The single-entry form behind the \<open>g\<close> key of the console.\<close>

definition GeneralizeOne :: "etld_db \<Rightarrow> string \<Rightarrow> string \<Rightarrow> candidate list" where
  "GeneralizeOne etld ent l =
     (let p = parseEntry ent; one = (\<lambda>axis pat. flat axis l [p] pat);
          host = formatHost (g_host p) (g_port p)
      in if \<not> g_ok p then []
         else (if g_path p \<noteq> [] \<and> path_split (g_path p) \<noteq> None
               then [one AxisURLSegment (renderPattern (g_method p) (g_scheme p) host (path_prefix_of p @ ''/*''))] else [])
            @ (if below_suffix etld p
               then [one AxisHostnameBelowTLD (renderPattern (g_method p) (g_scheme p) (host_wildcard etld p) (g_path p))]
               else [])
            @ (if g_method p \<noteq> ''*'' then [one AxisMethod (renderPattern ''*'' (g_scheme p) host (g_path p))] else []))"

section \<open>Groups\<close>

lemma group_by_snoc:
  "group_by key (xs @ [x]) = aput (key x) ((case map_of (group_by key xs) (key x) of None \<Rightarrow> [] | Some g \<Rightarrow> g) @ [x])
     (group_by key xs)"
  by (simp add: group_by_def)

lemma group_by_lookup:
  "distinct (map fst (group_by key xs)) \<and>
   map_of (group_by key xs) k = (let g = filter (\<lambda>x. key x = k) xs in if g = [] then None else Some g)"
proof (induction xs arbitrary: k rule: rev_induct)
  case (snoc x xs)
  then show ?case
    by (auto simp: group_by_snoc distinct_aput Let_def filter_empty_conv split: option.splits if_splits)
qed (simp add: group_by_def)

lemma group_by_member:
  assumes "(k, g) \<in> set (group_by key xs)"
  shows "g = filter (\<lambda>x. key x = k) xs" "g \<noteq> []" "hd g \<in> set g"
proof -
  have "map_of (group_by key xs) k = Some g"
    using assms group_by_lookup [of key xs k] by (blast intro: map_of_is_SomeI)
  then show "g = filter (\<lambda>x. key x = k) xs" "g \<noteq> []"
    using group_by_lookup [of key xs k] by (auto simp: Let_def split: if_splits)
  then show "hd g \<in> set g" by (metis hd_in_set)
qed

section \<open>A rendered pattern reads back\<close>

lemma split_path_append [simp]:
  "CHR ''/'' \<notin> set h \<Longrightarrow> x = [] \<or> hd x = CHR ''/'' \<Longrightarrow> split_path (h @ x) = (h, x)"
proof -
  assume h: "CHR ''/'' \<notin> set h" and x: "x = [] \<or> hd x = CHR ''/''"
  then have "index_byte h (CHR ''/'') = None" by simp
  with h x show ?thesis by (cases x) (simp_all add: split_path_def del: index_byte_None)
qed

lemma scheme_mark_in_path:
  assumes "CHR ''/'' \<notin> set h" "h \<noteq> []" "last h \<noteq> CHR '':''" "sublist ''://'' (h @ x)" "x = [] \<or> hd x = CHR ''/''"
  shows "sublist ''://'' x"
proof -
  from assms(4) consider "sublist ''://'' h" | "sublist ''://'' x"
    | a b where "''://'' = a @ b" "suffix a h" "prefix b x"
    by (auto simp: sublist_append)
  then show ?thesis
  proof cases
    case 1
    then have "set ''://'' \<subseteq> set h" by (rule set_mono_sublist)
    with assms(1) show ?thesis by simp
  next
    case (3 a b)
    show ?thesis
    proof (cases a)
      case Nil
      with 3 show ?thesis by (simp add: prefix_imp_sublist)
    next
      case (Cons c t)
      then have c: "c = CHR '':''" using 3(1) by simp
      show ?thesis
      proof (cases t)
        case Nil
        with 3(2) Cons c assms(3) show ?thesis by (auto simp: suffix_def)
      next
        case (Cons d u)
        with \<open>a = c # t\<close> 3(1) have "CHR ''/'' \<in> set a" by simp
        with 3(2) assms(1) show ?thesis by (meson set_mono_suffix subsetD)
      qed
    qed
  qed auto
qed

lemma index_str_http:
  "index_str (''http'' @ ''://'' @ y) ''://'' = Some 4" "index_str (''https'' @ ''://'' @ y) ''://'' = Some 5"
  by simp_all

definition known_method :: "string \<Rightarrow> bool" where
  "known_method m \<longleftrightarrow> m = ''*'' \<or> isUppercaseLetters m"

definition known_scheme :: "string \<Rightarrow> bool" where
  "known_scheme sch \<longleftrightarrow> sch \<in> {[], ''http'', ''https''}"

lemma known_method_no_space: "known_method m \<Longrightarrow> CHR '' '' \<notin> set m \<and> m \<noteq> []"
  by (auto simp: known_method_def isUppercaseLetters_def list_all_iff is_upper_def)

lemma parse_method_rendered:
  assumes "known_method m" "r \<noteq> []" "\<not> is_space (hd r)" "\<not> is_space (last r)"
  shows "parse_method (m @ '' '' @ r) = (m = ''*'', if m = ''*'' then [] else m, r)"
proof -
  have "trim_space r = r" using assms(2-4) by (simp add: trim_space_fix)
  with known_method_no_space [OF assms(1)] assms(1) show ?thesis
    by (auto simp: parse_method_def known_method_def Let_def)
qed

lemma parse_scheme_rendered:
  assumes "known_scheme sch" "CHR ''/'' \<notin> set h" "h \<noteq> []" "last h \<noteq> CHR '':''" "x = [] \<or> hd x = CHR ''/''"
    and "sch = [] \<Longrightarrow> \<not> sublist ''://'' x"
  shows "parse_scheme ((if sch \<noteq> [] then sch @ ''://'' else []) @ h @ x) = Inr (sch = [], sch, h @ x)"
proof (cases "sch = []")
  case True
  then have "index_str (h @ x) ''://'' = None"
    using scheme_mark_in_path assms by (metis index_str_None)
  with True show ?thesis by (simp add: parse_scheme_def)
next
  case False
  with assms(1) consider "sch = ''http''" | "sch = ''https''" by (auto simp: known_scheme_def)
  then show ?thesis
  proof cases
    case 1
    have "to_lower ''http'' = ''http''" by code_simp
    with 1 index_str_http [of "h @ x"] show ?thesis by (simp add: parse_scheme_def)
  next
    case 2
    have "to_lower ''https'' = ''https''" by code_simp
    with 2 index_str_http [of "h @ x"] show ?thesis by (simp add: parse_scheme_def)
  qed
qed

lemma parse_rendered:
  assumes m: "known_method m" and sch: "known_scheme sch"
    and h: "CHR ''/'' \<notin> set h" "h \<noteq> []" "\<not> is_space (hd h)" "\<not> is_space (last h)" "last h \<noteq> CHR '':''"
    and x: "x = [] \<or> hd x = CHR ''/'' \<and> \<not> is_space (last x)" "sch = [] \<Longrightarrow> \<not> sublist ''://'' x"
    and parts: "split_port h = (hh, pt)" "parse_host hh = Inr (ah, wh, hs, eh)" "parse_port pt = Inr (apt, prt)"
      "parse_path x = Inr (ap, mp, pp, ep)"
  shows "\<exists>q. parsePattern (renderPattern m sch h x) = Inr q
    \<and> p_anyMethod q = (m = ''*'') \<and> (m \<noteq> ''*'' \<longrightarrow> p_method q = m)
    \<and> p_anyScheme q = (sch = []) \<and> p_scheme q = sch
    \<and> p_wildcardAllHosts q = ah \<and> p_wildcardPrefix q = wh \<and> p_hostSuffix q = hs \<and> p_exactHost q = eh
    \<and> p_anyPort q = apt \<and> p_port q = prt
    \<and> p_anyPath q = ap \<and> p_matchPrefix q = mp \<and> p_pathPrefix q = pp \<and> p_exactPath q = ep"
proof -
  let ?r = "(if sch \<noteq> [] then sch @ ''://'' else []) @ h @ x"
  have hd: "\<not> is_space (hd ?r)" and ne: "?r \<noteq> []"
    using h sch by (auto simp: known_scheme_def is_space_def)
  have la: "\<not> is_space (last ?r)" using h x by (auto simp: last_append)
  have pm: "parse_method (renderPattern m sch h x) = (m = ''*'', if m = ''*'' then [] else m, ?r)"
    using parse_method_rendered [OF m ne hd la] by (simp add: renderPattern_def)
  have ps: "parse_scheme ?r = Inr (sch = [], sch, h @ x)"
    using parse_scheme_rendered [OF sch h(1,2,5)] x by blast
  have sp: "split_path (h @ x) = (h, x)" using split_path_append [OF h(1)] x(1) by blast
  show ?thesis
    using pm ps sp parts by (simp add: parsePattern_def)
qed

section \<open>The two readers of an entry agree\<close>

text \<open>
  \<open>parseEntry\<close> here and \<open>parsePattern\<close> of the lists read the same text. They agree on plain
  entries: the host is a name or an IPv4 address (no colon, no bracket), without space and
  without a dot at either end, and there is no \<open>|\<close>, which separates the parts of a group key.
\<close>

definition plain_entry :: "string \<Rightarrow> bool" where
  "plain_entry s \<longleftrightarrow>
     (let h = g_host (parseEntry s)
      in CHR ''['' \<notin> set s \<and> CHR ''|'' \<notin> set (h @ g_path (parseEntry s)) \<and> CHR '':'' \<notin> set h \<and> list_all (\<lambda>c. \<not> is_space c) h
         \<and> hd h \<noteq> CHR ''.'' \<and> last h \<noteq> CHR ''.'')"

lemma isAllUpper_same: "isAllUpperASCII s = isUppercaseLetters s"
  by (simp add: isAllUpperASCII_def isUppercaseLetters_def)

lemma method_prefix_parse:
  assumes "parse_method s = (any, m, rest)"
  shows "method_prefix s = (if any then ''*'' else m, rest)" "known_method (if any then ''*'' else m)"
  using assms
  by (auto simp: parse_method_def method_prefix_def known_method_def isAllUpper_same Let_def
      simp del: index_byte_None split: option.splits if_splits)

lemma scheme_prefix_parse:
  assumes "parse_scheme r = Inr (any, sch, r2)"
  shows "scheme_prefix r = (sch, r2)" "any = (sch = [])" "known_scheme sch" "sch = [] \<Longrightarrow> \<not> sublist ''://'' r"
  using assms
  by (auto simp: parse_scheme_def scheme_prefix_def known_scheme_def Let_def simp flip: index_str_None
      split: option.splits if_splits)

lemma split_hp_plain:
  assumes "split_hp hp = Some (host, port)" "CHR ''['' \<notin> set hp" "CHR '':'' \<notin> set host"
  shows "\<exists>pt. split_port hp = (host, pt) \<and> (pt = [] \<and> port = 0 \<or> atoi pt = Some port)"
    and "set host \<subseteq> set hp"
proof -
  have nb: "\<not> has_prefix hp ''[''" using assms(2) by (auto simp: has_prefix_def elim!: prefixE)
  have "hp \<noteq> []" using assms(1) by (auto simp: split_hp_def)
  have "split_port hp = (host, [])" if "last_index_byte hp (CHR '':'') = None"
    using that nb \<open>hp \<noteq> []\<close> assms(1) by (simp add: split_hp_def split_port_def del: last_index_byte_None)
  moreover have "split_port hp = (host, drop (Suc i) hp) \<and> atoi (drop (Suc i) hp) = Some port \<and> host = take i hp"
    if i: "last_index_byte hp (CHR '':'') = Some i" for i
  proof -
    have "CHR '':'' \<in> set hp" using i by (metis last_index_byte_None option.distinct(1))
    then have "host \<noteq> hp" using assms(3) by blast
    then show ?thesis
      using i nb \<open>hp \<noteq> []\<close> assms(1) by (auto simp: split_hp_def split_port_def split: option.splits if_splits)
  qed
  moreover have "port = 0 \<and> host = hp" if "last_index_byte hp (CHR '':'') = None"
    using that nb \<open>hp \<noteq> []\<close> assms(1) by (simp add: split_hp_def del: last_index_byte_None)
  ultimately show "\<exists>pt. split_port hp = (host, pt) \<and> (pt = [] \<and> port = 0 \<or> atoi pt = Some port)"
    "set host \<subseteq> set hp"
    by (cases "last_index_byte hp (CHR '':'')"; auto simp del: last_index_byte_None dest: in_set_takeD)+
qed

lemma method_prefix_last:
  assumes "method_prefix s = (m, rest)" "trim_space s = s" "rest \<noteq> []"
  shows "\<not> is_space (last rest)"
proof -
  have "trim_space rest = rest"
    using assms by (auto simp: method_prefix_def split: option.splits if_splits)
  with assms(3) show ?thesis by (simp add: trim_space_fix)
qed

lemma scheme_prefix_drop: "scheme_prefix r = (sch, r2) \<Longrightarrow> \<exists>n. r2 = drop n r"
  by (auto simp: scheme_prefix_def split: option.splits intro: exI [of _ 0])

lemma split_path_parts:
  assumes "split_path r = (hp, x)"
  shows "r = hp @ x" "CHR ''/'' \<notin> set hp" "x = [] \<or> hd x = CHR ''/''"
  using assms split_path_hd [OF assms] index_byte_Some [of r "CHR ''/''"]
  by (auto simp: split_path_def split: option.splits)

lemma last_drop_some: "drop n r = a @ x \<Longrightarrow> x \<noteq> [] \<Longrightarrow> last x = last r \<and> r \<noteq> []"
  by (metis append_is_Nil_conv drop_Nil last_appendR last_drop drop_eq_Nil not_le)

text \<open>What an entry that both readers accept looks like.\<close>

definition agrees :: "parsed \<Rightarrow> pattern \<Rightarrow> bool" where
  "agrees p e \<longleftrightarrow>
     p_anyMethod e = (g_method p = ''*'') \<and> (g_method p \<noteq> ''*'' \<longrightarrow> p_method e = g_method p)
   \<and> p_anyScheme e = (g_scheme p = []) \<and> p_scheme e = g_scheme p
   \<and> \<not> p_wildcardAllHosts e \<and> \<not> p_wildcardPrefix e \<and> p_exactHost e = g_host p
   \<and> (g_port p \<noteq> 0 \<longrightarrow> \<not> p_anyPort e \<and> p_port e = g_port p)
   \<and> p_anyPath e = (g_path p = []) \<and> \<not> p_matchPrefix e \<and> p_exactPath e = g_path p"

definition plain_host :: "string \<Rightarrow> bool" where
  "plain_host h \<longleftrightarrow> h \<noteq> [] \<and> to_lower h = h \<and> list_all (\<lambda>c. \<not> is_space c) h \<and> CHR ''*'' \<notin> set h
     \<and> CHR ''/'' \<notin> set h \<and> CHR '':'' \<notin> set h"

definition plain_parsed :: "parsed \<Rightarrow> bool" where
  "plain_parsed p \<longleftrightarrow> known_method (g_method p) \<and> known_scheme (g_scheme p) \<and> plain_host (g_host p)
     \<and> (g_port p = 0 \<or> 1 \<le> g_port p \<and> g_port p \<le> 65535)
     \<and> (g_path p = [] \<or> hd (g_path p) = CHR ''/'' \<and> \<not> is_space (last (g_path p))) \<and> CHR ''*'' \<notin> set (g_path p)
     \<and> (g_scheme p = [] \<longrightarrow> \<not> sublist ''://'' (g_path p))"

lemma g_raw_parseEntry [simp]: "g_raw (parseEntry s) = trim_space s"
  by (simp add: parseEntry_def Let_def split: prod.split option.split)

lemma parseEntry_trim [simp]: "parseEntry (trim_space s) = parseEntry s"
  unfolding parseEntry_def by (simp only: trim_space_idem)

text \<open>The stages of a successful reading.\<close>

lemma parseEntry_stages:
  assumes "g_ok (parseEntry s)"
  obtains m rest sch r2 hp x host port where
    "method_prefix (trim_space s) = (m, rest)" "CHR ''*'' \<notin> set rest" "scheme_prefix rest = (sch, r2)"
    "split_path r2 = (hp, x)" "split_hp hp = Some (host, port)" "host \<noteq> []"
    "g_method (parseEntry s) = m" "g_scheme (parseEntry s) = sch" "g_path (parseEntry s) = x"
    "g_host (parseEntry s) = to_lower host" "g_port (parseEntry s) = default_port sch port"
proof -
  obtain m rest where 1: "method_prefix (trim_space s) = (m, rest)" by force
  obtain sch r2 where 2: "scheme_prefix rest = (sch, r2)" by force
  obtain hp x where 3: "split_path r2 = (hp, x)" by force
  show ?thesis
    using assms that [OF 1 _ 2 3] 1 2 3
    by (auto simp: parseEntry_def Let_def contains_byte_def split: if_splits option.splits)
qed

lemma lower_char_punct: "\<not> is_upper d \<Longrightarrow> \<not> is_lower d \<Longrightarrow> lower_char c = d \<longleftrightarrow> c = d"
proof (cases "is_upper c")
  case True
  then have "is_lower (lower_char c)"
    using of_char_lower_upper [of c] by (simp add: is_upper_def is_lower_def)
  then show "\<not> is_upper d \<Longrightarrow> \<not> is_lower d \<Longrightarrow> ?thesis" using True by auto
qed (simp add: lower_char_def)

lemma in_to_lower: "\<not> is_upper d \<Longrightarrow> \<not> is_lower d \<Longrightarrow> d \<in> set (to_lower s) \<longleftrightarrow> d \<in> set s"
  by (simp add: to_lower_def image_iff eq_commute [of d] lower_char_punct)

lemma punct: "\<not> is_upper (CHR ''*'')" "\<not> is_lower (CHR ''*'')" "\<not> is_upper (CHR ''/'')" "\<not> is_lower (CHR ''/'')"
  "\<not> is_upper (CHR '':'')" "\<not> is_lower (CHR '':'')"
  by code_simp+

lemma parse_host_plain:
  assumes "parse_host h = Inr (a, w, hs, ex)" "list_all (\<lambda>c. \<not> is_space c) h" "h \<noteq> []" "CHR ''*'' \<notin> set h"
  shows "\<not> a \<and> \<not> w \<and> hs = [] \<and> ex = to_lower h" "CHR ''*'' \<notin> set (to_lower h)"
proof -
  have "trim_space h = h" using assms(2,3) by (simp add: trim_space_fix list_all_iff)
  moreover have star: "CHR ''*'' \<notin> set (to_lower h)" using assms(4) by (simp add: in_to_lower punct)
  ultimately show "\<not> a \<and> \<not> w \<and> hs = [] \<and> ex = to_lower h"
    using assms(1) by (auto simp: parse_host_def Let_def has_prefix_def split: if_splits elim!: prefixE)
  show "CHR ''*'' \<notin> set (to_lower h)" by (rule star)
qed

lemma parse_path_plain:
  "parse_path x = Inr (a, m, pp, ep) \<Longrightarrow> CHR ''*'' \<notin> set x \<Longrightarrow> a = (x = []) \<and> \<not> m \<and> ep = x"
  by (auto simp: parse_path_def has_suffix_def suffix_def split: if_splits)

lemma entry_agrees:
  assumes ok: "g_ok (parseEntry s)" and pl: "plain_entry (trim_space s)"
    and e: "parsePattern (trim_space s) = Inr e"
  shows "agrees (parseEntry s) e \<and> plain_parsed (parseEntry s)"
proof -
  let ?p = "parseEntry s"
  obtain m rest sch r2 hp x host port where st:
    "method_prefix (trim_space s) = (m, rest)" "CHR ''*'' \<notin> set rest" "scheme_prefix rest = (sch, r2)"
    "split_path r2 = (hp, x)" "split_hp hp = Some (host, port)" "host \<noteq> []"
    and g: "g_method ?p = m" "g_scheme ?p = sch" "g_path ?p = x"
    "g_host ?p = to_lower host" "g_port ?p = default_port sch port"
    by (rule parseEntry_stages [OF ok])
  obtain rest' r2' hp' x' h' pt where pe:
    "parse_method (trim_space s) = (p_anyMethod e, p_method e, rest')"
    "parse_scheme rest' = Inr (p_anyScheme e, p_scheme e, r2')"
    "split_path r2' = (hp', x')" "split_port hp' = (h', pt)"
    "parse_host h' = Inr (p_wildcardAllHosts e, p_wildcardPrefix e, p_hostSuffix e, p_exactHost e)"
    "parse_port pt = Inr (p_anyPort e, p_port e)"
    "parse_path x' = Inr (p_anyPath e, p_matchPrefix e, p_pathPrefix e, p_exactPath e)"
    using e by (auto simp: parsePattern_stages)
  note mp = method_prefix_parse [OF pe(1)]
  have r: "rest' = rest" and m: "m = (if p_anyMethod e then ''*'' else p_method e)" using mp(1) st(1) by auto
  have "\<not> isUppercaseLetters ''*''" by code_simp
  then have mm: "p_anyMethod e \<longleftrightarrow> m = ''*''"
    using m parse_method_wf [OF pe(1)] by (auto simp: wf_method_def)
  note sp = scheme_prefix_parse [OF pe(2)]
  have r2: "r2' = r2" "sch = p_scheme e" using sp(1) st(3) r by auto
  have hpx: "hp' = hp" "x' = x" using pe(3) st(4) r2 by auto
  note parts = split_path_parts [OF st(4)]
  obtain n where n: "r2 = drop n rest" using scheme_prefix_drop [OF st(3)] by blast
  have sub: "set r2 \<subseteq> set rest" using n set_drop_subset by fastforce
  have hps: "set hp \<subseteq> set r2" "set x \<subseteq> set r2" using parts(1) by auto
  have star: "CHR ''*'' \<notin> set hp" "CHR ''*'' \<notin> set x" using hps sub st(2) by auto
  have xl: "x = [] \<or> \<not> is_space (last x)"
    using last_drop_some [of n rest hp x] n parts(1) method_prefix_last [OF st(1)] by auto
  have rs: "set rest \<subseteq> set (trim_space s)"
  proof -
    have "set (trim_space y) \<subseteq> set y" for y
      by (metis trim_space_def trim_right_prefix trim_left_def set_dropWhileD set_append Un_upper1 subset_iff)
    then show ?thesis
      using st(1) by (auto simp: method_prefix_def split: option.splits if_splits dest: in_set_dropD)
  qed
  have br: "CHR ''['' \<notin> set hp" using pl rs sub hps(1) by (auto simp: plain_entry_def Let_def)
  have col: "CHR '':'' \<notin> set (to_lower host)" "list_all (\<lambda>c. \<not> is_space c) (to_lower host)"
    using pl g(4) by (auto simp: plain_entry_def Let_def)
  have col': "CHR '':'' \<notin> set host"
    using col(1) by (simp add: in_to_lower punct)
  have spc: "list_all (\<lambda>c. \<not> is_space c) host" using col(2) by (simp add: to_lower_def list_all_iff)
  obtain pt' where pt': "split_port hp = (host, pt')" "pt' = [] \<and> port = 0 \<or> atoi pt' = Some port"
    using split_hp_plain(1) [OF st(5) br col'] by blast
  have hh: "h' = host" "pt = pt'" using pt'(1) pe(4) hpx by auto
  have hs: "set host \<subseteq> set hp" by (rule split_hp_plain(2) [OF st(5) br col'])
  have hst: "CHR ''*'' \<notin> set host" using hs star by auto
  note hostp = parse_host_plain [OF pe(5) [unfolded hh(1)] spc st(6) hst]
  have slash: "CHR ''/'' \<notin> set (to_lower host)"
    using hs parts(2) by (auto simp: in_to_lower punct)
  note pathp = parse_path_plain [OF pe(7) [unfolded hpx(2)] star(2)]
  have at: "atoi [] = None" "atoi ''*'' = None" by code_simp+
  have prt: "port = 0 \<and> p_anyPort e \<or> \<not> p_anyPort e \<and> p_port e = port \<and> 1 \<le> port \<and> port \<le> 65535"
    using pe(6) pt'(2) hh(2) at by (auto simp: parse_port_def split: option.splits if_splits)
  have nosub: "\<not> sublist ''://'' x" if "sch = []"
  proof -
    have "\<not> sublist ''://'' rest" using sp(4) r2(2) r that by simp
    moreover have "sublist x rest" using n parts(1) by (metis sublist_def append_assoc append_Nil2 append_take_drop_id)
    ultimately show ?thesis by (meson sublist_order.order_trans)
  qed
  have lh: "to_lower host \<noteq> []" using st(6) by (simp add: to_lower_def)
  have prt': "g_port ?p = 0 \<or> g_port ?p = port" by (simp add: g default_port_def)
  have "agrees ?p e"
    unfolding agrees_def g using mm m sp(2) r2 hostp(1) pathp prt prt' g by auto
  moreover have "plain_parsed ?p"
    unfolding plain_parsed_def plain_host_def g
    using m mp(2) sp(3) nosub r2 hostp(2) col slash parts(3) xl star(2) prt prt' lh g(5) by auto
  ultimately show ?thesis ..
qed

section \<open>What a rendered pattern covers\<close>

lemma itoa_port:
  assumes "1 \<le> port"
  shows "itoa port \<noteq> []" "list_all is_digit (itoa port)"
  using assms nat_digits_digits by (simp_all add: itoa_def)

lemma digit_plain: "is_digit c \<Longrightarrow> \<not> is_space c \<and> c \<noteq> CHR '':'' \<and> c \<noteq> CHR ''/'' \<and> c \<noteq> CHR ''*''"
  by (auto simp: is_digit_def is_space_def)

lemma parse_port_itoa:
  assumes "1 \<le> port" "port \<le> 65535"
  shows "parse_port (itoa port) = Inr (False, port)"
proof -
  have "itoa port \<noteq> ''*''" using itoa_port(2) [OF assms(1)] by (auto simp: is_digit_def)
  then show ?thesis
    using atoi_itoa [of port] itoa_port(1) [OF assms(1)] assms by (simp add: parse_port_def int64_range_def)
qed

text \<open>A host text \<open>h\<close> with its optional port.\<close>

definition with_port :: "string \<Rightarrow> int \<Rightarrow> string" where
  "with_port h port = (if port = 0 then h else h @ '':'' @ itoa port)"

lemma with_port_parts:
  assumes h: "h \<noteq> []" "list_all (\<lambda>c. \<not> is_space c) h" "CHR ''/'' \<notin> set h" "CHR '':'' \<notin> set h"
    and port: "port = 0 \<or> 1 \<le> port \<and> port \<le> 65535"
  shows "CHR ''/'' \<notin> set (with_port h port)" "with_port h port \<noteq> []" "\<not> is_space (hd (with_port h port))"
    "\<not> is_space (last (with_port h port))" "last (with_port h port) \<noteq> CHR '':''"
    "\<exists>pt. split_port (with_port h port) = (h, pt) \<and> parse_port pt = Inr (port = 0, port)"
proof -
  have d: "list_all is_digit (itoa port)" "itoa port \<noteq> []" if "port \<noteq> 0"
    using that port itoa_port by auto
  then have dp: "\<And>c. port \<noteq> 0 \<Longrightarrow> c \<in> set (itoa port) \<Longrightarrow> \<not> is_space c \<and> c \<noteq> CHR '':'' \<and> c \<noteq> CHR ''/''"
    using digit_plain by (auto simp: list_all_iff)
  show "CHR ''/'' \<notin> set (with_port h port)" using h(3) dp by (auto simp: with_port_def)
  show "with_port h port \<noteq> []" using h(1) by (simp add: with_port_def)
  show "\<not> is_space (hd (with_port h port))" using h(1,2) by (auto simp: with_port_def list_all_iff)
  show "\<not> is_space (last (with_port h port))" "last (with_port h port) \<noteq> CHR '':''"
    using h d dp by (auto simp: with_port_def list_all_iff dest: last_in_set)
  show "\<exists>pt. split_port (with_port h port) = (h, pt) \<and> parse_port pt = Inr (port = 0, port)"
  proof (cases "port = 0")
    case True
    then have "split_port (with_port h port) = (h, [])"
      using h(4) by (simp add: with_port_def split_port_def split: option.split)
        (metis last_index_byte_None option.distinct(1))
    with True show ?thesis by (simp add: parse_port_def)
  next
    case False
    then have "CHR '':'' \<notin> set (itoa port)" using dp by blast
    then have "last_index_byte (h @ '':'' @ itoa port) (CHR '':'') = Some (length h)" by simp
    with False have "split_port (with_port h port) = (h, itoa port)"
      by (simp add: with_port_def split_port_def)
    with False port show ?thesis by (simp add: parse_port_itoa)
  qed
qed

lemma formatHost_plain: "CHR '':'' \<notin> set h \<Longrightarrow> formatHost h port = with_port h port"
  by (simp add: formatHost_def with_port_def Let_def)

text \<open>Any pattern that keeps the method or widens it, keeps the scheme and the port, and covers the
  host and the path of the entry, covers the entry.\<close>

lemma covers_entry:
  assumes ag: "agrees p e" and pl: "plain_parsed p"
    and m: "m = g_method p \<or> m = ''*''"
    and h: "h \<noteq> []" "list_all (\<lambda>c. \<not> is_space c) h" "CHR ''/'' \<notin> set h" "CHR '':'' \<notin> set h"
      "parse_host h = Inr (ah, wh, hs, eh)"
    and x: "x = [] \<or> hd x = CHR ''/'' \<and> \<not> is_space (last x)" "g_scheme p = [] \<Longrightarrow> \<not> sublist ''://'' x"
      "parse_path x = Inr (ap, mp, pp, ep)"
    and host: "\<And>q. p_wildcardAllHosts q = ah \<Longrightarrow> p_wildcardPrefix q = wh \<Longrightarrow> p_hostSuffix q = hs
        \<Longrightarrow> p_exactHost q = eh \<Longrightarrow> hostSubsumes q e"
    and path: "\<And>q. p_anyPath q = ap \<Longrightarrow> p_matchPrefix q = mp \<Longrightarrow> p_pathPrefix q = pp
        \<Longrightarrow> p_exactPath q = ep \<Longrightarrow> pathSubsumes q e"
  shows "\<exists>q. parsePattern (renderPattern m (g_scheme p) (with_port h (g_port p)) x) = Inr q \<and> subsumes q e"
proof -
  have km: "known_method m" using m pl by (auto simp: plain_parsed_def known_method_def)
  have ks: "known_scheme (g_scheme p)" and port: "g_port p = 0 \<or> 1 \<le> g_port p \<and> g_port p \<le> 65535"
    using pl by (auto simp: plain_parsed_def)
  note wp = with_port_parts [OF h(1-4) port]
  obtain pt where pt: "split_port (with_port h (g_port p)) = (h, pt)" "parse_port pt = Inr (g_port p = 0, g_port p)"
    using wp(6) by blast
  obtain q where q: "parsePattern (renderPattern m (g_scheme p) (with_port h (g_port p)) x) = Inr q"
    "p_anyMethod q = (m = ''*'')" "m \<noteq> ''*'' \<longrightarrow> p_method q = m" "p_anyScheme q = (g_scheme p = [])"
    "p_scheme q = g_scheme p" "p_wildcardAllHosts q = ah" "p_wildcardPrefix q = wh" "p_hostSuffix q = hs"
    "p_exactHost q = eh" "p_anyPort q = (g_port p = 0)" "p_port q = g_port p"
    "p_anyPath q = ap" "p_matchPrefix q = mp" "p_pathPrefix q = pp" "p_exactPath q = ep"
    using parse_rendered [OF km ks wp(1-5) x(1,2) pt(1) h(5) pt(2) x(3)] by blast
  have "subsumes q e"
    unfolding subsumes_def using host [OF q(6-9)] path [OF q(12-15)] ag m q(2-5,10,11)
    by (auto simp: agrees_def)
  with q(1) show ?thesis by blast
qed

lemma covers_exact_host:
  assumes "agrees p e" "plain_parsed p"
  shows "parse_host (g_host p) = Inr (False, False, [], g_host p)"
    "p_exactHost q = g_host p \<Longrightarrow> \<not> p_wildcardAllHosts q \<Longrightarrow> \<not> p_wildcardPrefix q \<Longrightarrow> hostSubsumes q e"
proof -
  have h: "g_host p \<noteq> []" "to_lower (g_host p) = g_host p" "list_all (\<lambda>c. \<not> is_space c) (g_host p)"
    "CHR ''*'' \<notin> set (g_host p)" using assms(2) by (auto simp: plain_parsed_def plain_host_def)
  have "trim_space (g_host p) = g_host p" using h by (simp add: trim_space_fix list_all_iff)
  with h show "parse_host (g_host p) = Inr (False, False, [], g_host p)"
    by (auto simp: parse_host_def Let_def contains_byte_def has_prefix_def elim!: prefixE)
  show "p_exactHost q = g_host p \<Longrightarrow> \<not> p_wildcardAllHosts q \<Longrightarrow> \<not> p_wildcardPrefix q \<Longrightarrow> hostSubsumes q e"
    using assms(1) by (simp add: agrees_def hostSubsumes_def)
qed

lemma covers_same_path:
  assumes "agrees p e" "plain_parsed p"
  shows "\<exists>pp. parse_path (g_path p) = Inr (g_path p = [], False, pp, g_path p)"
    "p_anyPath q = (g_path p = []) \<Longrightarrow> \<not> p_matchPrefix q \<Longrightarrow> p_exactPath q = g_path p \<Longrightarrow> pathSubsumes q e"
  using assms
  by (auto simp: agrees_def plain_parsed_def parse_path_def pathSubsumes_def has_suffix_def suffix_def
      contains_byte_def)

lemma covers_prefix_path:
  assumes "agrees p e" "plain_parsed p" "path_split (g_path p) = Some (pre, seg)"
  shows "parse_path (pre @ ''/*'') = Inr (pre = [], pre \<noteq> [], if pre = [] then [] else pre @ ''/'', [])"
    "p_anyPath q = (pre = []) \<Longrightarrow> p_matchPrefix q = (pre \<noteq> []) \<Longrightarrow> pre \<noteq> [] \<longrightarrow> p_pathPrefix q = pre @ ''/''
      \<Longrightarrow> pathSubsumes q e"
    "hd (pre @ ''/*'') = CHR ''/''" "g_scheme p = [] \<Longrightarrow> \<not> sublist ''://'' (pre @ ''/*'')"
proof -
  show "parse_path (pre @ ''/*'') = Inr (pre = [], pre \<noteq> [], if pre = [] then [] else pre @ ''/'', [])"
    by (auto simp: parse_path_def has_suffix_def trim_suffix_def suffixI)
  have "trim_slash (g_path p) = pre @ ''/'' @ seg"
    using assms(3) last_index_byte_Some [of "trim_slash (g_path p)" "CHR ''/''"]
    by (auto simp: path_split_def split: option.splits)
  moreover obtain t where "g_path p = trim_slash (g_path p) @ t"
    unfolding trim_slash_def trim_right_chars_def
    by (metis rev_append rev_rev_ident takeWhile_dropWhile_id)
  ultimately have px: "g_path p = pre @ ''/'' @ seg @ t" by simp
  then show "p_anyPath q = (pre = []) \<Longrightarrow> p_matchPrefix q = (pre \<noteq> []) \<Longrightarrow> pre \<noteq> [] \<longrightarrow> p_pathPrefix q = pre @ ''/''
      \<Longrightarrow> pathSubsumes q e"
    using assms(1) by (auto simp: agrees_def pathSubsumes_def has_prefix_def)
  show "hd (pre @ ''/*'') = CHR ''/''"
    using px assms(2) by (cases pre) (auto simp: plain_parsed_def)
  assume "g_scheme p = []"
  then have n: "\<not> sublist ''://'' (g_path p)" using assms(2) by (simp add: plain_parsed_def)
  show "\<not> sublist ''://'' (pre @ ''/*'')"
  proof
    assume "sublist ''://'' (pre @ ''/*'')"
    then obtain a b where ab: "(pre @ ''/'') @ ''*'' = a @ ''://'' @ b" by (auto simp: sublist_def)
    then obtain b' where "b = b' @ ''*''"
      by (cases b rule: rev_cases) auto
    with ab have "pre @ ''/'' = a @ ''://'' @ b'" by simp
    then have "g_path p = a @ ''://'' @ b' @ seg @ t" using px by (metis append.assoc)
    with n show False by (auto simp: sublist_def)
  qed
qed

lemma covers_wildcard_host:
  assumes "agrees p e" "plain_parsed p" "below_suffix etld p" "hd (g_host p) \<noteq> CHR ''.''" "last (g_host p) \<noteq> CHR ''.''"
  defines "parent \<equiv> parentBelowPublicSuffix etld (g_host p)"
  shows "parse_host (''*.'' @ parent) = Inr (False, True, CHR ''.'' # parent, [])"
    "p_hostSuffix q = CHR ''.'' # parent \<Longrightarrow> \<not> p_wildcardAllHosts q \<Longrightarrow> p_wildcardPrefix q \<Longrightarrow> hostSubsumes q e"
    "set parent \<subseteq> set (g_host p)"
proof -
  have h: "g_host p \<noteq> []" "to_lower (g_host p) = g_host p" "list_all (\<lambda>c. \<not> is_space c) (g_host p)"
    "CHR ''*'' \<notin> set (g_host p)" using assms(2) by (auto simp: plain_parsed_def plain_host_def)
  have "dropWhile (\<lambda>c. c = CHR ''.'') (rev (g_host p)) = rev (g_host p)"
    using assms(5) h(1) by (cases "g_host p" rule: rev_cases) auto
  then have tr: "trim_right_chars [CHR ''.''] (to_lower (g_host p)) = g_host p"
    by (simp add: trim_right_chars_def h(2))
  have ne: "parent \<noteq> []" using assms(3) by (simp add: below_suffix_def parent_def)
  obtain i where i: "index_byte (g_host p) (CHR ''.'') = Some i" "parent = drop (Suc i) (g_host p)"
    using ne h(1) unfolding parent_def parentBelowPublicSuffix_def tr Let_def
    by (auto split: option.splits if_splits)
  have hp: "g_host p = take i (g_host p) @ CHR ''.'' # parent" using index_byte_Some [OF i(1)] i(2) by simp
  have "i \<noteq> 0"
  proof
    assume "i = 0"
    then have "hd (g_host p) = CHR ''.''" using hp by (metis append_Nil list.sel(1) take_0)
    with assms(4) show False ..
  qed
  moreover have "i < length (g_host p)" using i(1) by (rule index_byte_less)
  ultimately have lead: "take i (g_host p) \<noteq> []" by auto
  show sub: "set parent \<subseteq> set (g_host p)" using i(2) by (simp add: set_drop_subset)
  have "to_lower parent = parent"
    using arg_cong [OF hp, of to_lower] hp h(2) by (metis append_eq_append_conv length_take list.inject to_lower_simps(2,3,4))
  moreover have "trim_space (''*.'' @ parent) = ''*.'' @ parent"
    using ne sub h(3) by (auto simp: trim_space_fix list_all_iff is_space_def dest: last_in_set)
  moreover have "lower_char (CHR ''*'') = CHR ''*''" "lower_char (CHR ''.'') = CHR ''.''" by code_simp+
  ultimately show "parse_host (''*.'' @ parent) = Inr (False, True, CHR ''.'' # parent, [])"
    using ne sub h(4) by (auto simp: parse_host_def Let_def contains_byte_def has_prefix_def)
  have "has_suffix (g_host p) (CHR ''.'' # parent)" "length (CHR ''.'' # parent) < length (g_host p)"
    using hp lead by (metis has_suffix_def suffixI, metis length_append length_greater_0_conv less_add_same_cancel2)
  then show "p_hostSuffix q = CHR ''.'' # parent \<Longrightarrow> \<not> p_wildcardAllHosts q \<Longrightarrow> p_wildcardPrefix q \<Longrightarrow> hostSubsumes q e"
    using assms(1) by (simp add: agrees_def hostSubsumes_def)
qed

section \<open>Every candidate covers its sources\<close>

text \<open>The four shapes of a rendered pattern, for one of its sources.\<close>

lemma shape_method:
  assumes "agrees p e" "plain_parsed p"
  shows "\<exists>q. parsePattern (renderPattern ''*'' (g_scheme p) (formatHost (g_host p) (g_port p)) (g_path p)) = Inr q
    \<and> subsumes q e"
proof -
  have h: "g_host p \<noteq> []" "list_all (\<lambda>c. \<not> is_space c) (g_host p)" "CHR ''/'' \<notin> set (g_host p)"
    "CHR '':'' \<notin> set (g_host p)" and x: "g_path p = [] \<or> hd (g_path p) = CHR ''/'' \<and> \<not> is_space (last (g_path p))"
    "g_scheme p = [] \<Longrightarrow> \<not> sublist ''://'' (g_path p)"
    using assms(2) by (auto simp: plain_parsed_def plain_host_def)
  obtain pp where "parse_path (g_path p) = Inr (g_path p = [], False, pp, g_path p)"
    using covers_same_path(1) [OF assms] by blast
  then show ?thesis
    using covers_entry [OF assms _ h covers_exact_host(1) [OF assms] x, of "''*''"]
      covers_exact_host(2) [OF assms] covers_same_path(2) [OF assms] formatHost_plain [OF h(4)] by auto
qed

lemma shape_prefix:
  assumes "agrees p e" "plain_parsed p"
    and "path_split (g_path p) = Some (pre, seg)"
  shows "\<exists>q. parsePattern (renderPattern (g_method p) (g_scheme p) (formatHost (g_host p) (g_port p)) (pre @ ''/*''))
    = Inr q \<and> subsumes q e"
proof -
  have h: "g_host p \<noteq> []" "list_all (\<lambda>c. \<not> is_space c) (g_host p)" "CHR ''/'' \<notin> set (g_host p)"
    "CHR '':'' \<notin> set (g_host p)"
    using assms(2) by (auto simp: plain_parsed_def plain_host_def)
  note px = covers_prefix_path [OF assms]
  have x: "pre @ ''/*'' = [] \<or> hd (pre @ ''/*'') = CHR ''/'' \<and> \<not> is_space (last (pre @ ''/*''))"
    using px(3) by (simp add: is_space_def)
  show ?thesis
    using covers_entry [OF assms(1,2) _ h covers_exact_host(1) [OF assms(1,2)] x px(4) px(1), of "g_method p"]
      covers_exact_host(2) [OF assms(1,2)] px(2) formatHost_plain [OF h(4)] by auto
qed

lemma shape_host_path:
  assumes "agrees p e" "plain_parsed p"
  shows "\<exists>q. parsePattern (renderPattern (g_method p) (g_scheme p) (formatHost (g_host p) (g_port p)) ''/*'')
    = Inr q \<and> subsumes q e"
proof -
  have h: "g_host p \<noteq> []" "list_all (\<lambda>c. \<not> is_space c) (g_host p)" "CHR ''/'' \<notin> set (g_host p)"
    "CHR '':'' \<notin> set (g_host p)"
    using assms(2) by (auto simp: plain_parsed_def plain_host_def)
  have x: "''/*'' = [] \<or> hd ''/*'' = CHR ''/'' \<and> \<not> is_space (last ''/*'')" "\<not> sublist ''://'' ''/*''"
    by (simp_all add: is_space_def sublist_Cons_right)
  have pp: "parse_path ''/*'' = Inr (True, False, [], [])" by (simp add: parse_path_def)
  show ?thesis
    using covers_entry [OF assms _ h covers_exact_host(1) [OF assms] x(1) x(2) pp, of "g_method p"]
      covers_exact_host(2) [OF assms] formatHost_plain [OF h(4)] by (auto simp: pathSubsumes_def)
qed

lemma shape_wildcard:
  assumes "agrees p e" "plain_parsed p" "below_suffix etld p" "hd (g_host p) \<noteq> CHR ''.''" "last (g_host p) \<noteq> CHR ''.''"
  shows "\<exists>q. parsePattern (renderPattern (g_method p) (g_scheme p) (host_wildcard etld p) (g_path p)) = Inr q
    \<and> subsumes q e"
proof -
  let ?h = "''*.'' @ parentBelowPublicSuffix etld (g_host p)"
  note w = covers_wildcard_host [OF assms]
  have h: "?h \<noteq> []" "list_all (\<lambda>c. \<not> is_space c) ?h" "CHR ''/'' \<notin> set ?h" "CHR '':'' \<notin> set ?h"
    using assms(2) w(3) by (auto simp: plain_parsed_def plain_host_def list_all_iff is_space_def)
  have x: "g_path p = [] \<or> hd (g_path p) = CHR ''/'' \<and> \<not> is_space (last (g_path p))"
    "g_scheme p = [] \<Longrightarrow> \<not> sublist ''://'' (g_path p)"
    using assms(2) by (auto simp: plain_parsed_def)
  obtain pp where "parse_path (g_path p) = Inr (g_path p = [], False, pp, g_path p)"
    using covers_same_path(1) [OF assms(1,2)] by blast
  then have "\<exists>q. parsePattern (renderPattern (g_method p) (g_scheme p) (with_port ?h (g_port p)) (g_path p)) = Inr q
    \<and> subsumes q e"
    using covers_entry [OF assms(1,2) _ h w(1) x, of "g_method p"] w(2) covers_same_path(2) [OF assms(1,2)] by auto
  then show ?thesis by (auto simp: host_wildcard_def with_port_def)
qed

definition barless :: "parsed \<Rightarrow> bool" where
  "barless p \<longleftrightarrow> CHR ''|'' \<notin> set (g_host p @ g_path p) \<and> hd (g_host p) \<noteq> CHR ''.'' \<and> last (g_host p) \<noteq> CHR ''.''"

lemma bar_free:
  assumes "plain_parsed p" "barless p"
  shows "CHR ''|'' \<notin> set (g_method p)" "CHR ''|'' \<notin> set (g_scheme p)" "CHR ''|'' \<notin> set (formatHost (g_host p) (g_port p))"
    "CHR ''|'' \<notin> set (itoa i)"
proof -
  show "CHR ''|'' \<notin> set (itoa i)" using itoa_chars [of "CHR ''|''" i] by (auto simp: is_digit_def)
  then show "CHR ''|'' \<notin> set (formatHost (g_host p) (g_port p))"
    using itoa_chars [of "CHR ''|''" "g_port p"] assms(2) by (auto simp: formatHost_def barless_def Let_def is_digit_def)
  show "CHR ''|'' \<notin> set (g_method p)" "CHR ''|'' \<notin> set (g_scheme p)"
    using assms(1)
    by (auto simp: plain_parsed_def known_method_def known_scheme_def isUppercaseLetters_def list_all_iff is_upper_def)
qed

lemma bar_split:
  "a @ ''|'' @ s = b @ ''|'' @ t \<Longrightarrow> CHR ''|'' \<notin> set a \<Longrightarrow> CHR ''|'' \<notin> set b \<Longrightarrow> a = b \<and> s = t"
  using append_sep_inj [of "CHR ''|''" a b s t] by simp

lemma group_covered:
  assumes g: "(k, g) \<in> set (group_by key (filter Q (map parseEntry es)))" and Q: "\<And>p. Q p \<Longrightarrow> g_ok p"
    and src: "\<forall>s \<in> set (rawSorted g). plain_entry s \<and> ValidatePattern s = None"
    and shape: "\<And>p e. key p = key (hd g) \<Longrightarrow> Q p \<Longrightarrow> plain_parsed p \<Longrightarrow> barless p \<Longrightarrow> Q (hd g) \<Longrightarrow> plain_parsed (hd g)
      \<Longrightarrow> barless (hd g) \<Longrightarrow> agrees p e \<Longrightarrow> \<exists>q. parsePattern pat = Inr q \<and> subsumes q e"
  shows "\<forall>s \<in> set (rawSorted g). s \<in> trim_space ` set es \<and> Subsumes pat s"
proof
  fix s assume s: "s \<in> set (rawSorted g)"
  note gm = group_by_member [OF g]
  have member: "\<exists>e. key p = k \<and> Q p \<and> g_raw p \<in> trim_space ` set es \<and> parsePattern (g_raw p) = Inr e
      \<and> plain_parsed p \<and> barless p \<and> agrees p e" if p: "p \<in> set g" for p
  proof -
    have "p \<in> set (filter (\<lambda>x. key x = k) (filter Q (map parseEntry es)))" using p gm(1) by metis
    then obtain raw where raw: "raw \<in> set es" "p = parseEntry raw" "Q p" "key p = k" by auto
    have "trim_space raw \<in> set (rawSorted g)"
      using p raw(2) by (force simp: rawSorted_def sort_strings_def)
    then have pv: "plain_entry (trim_space raw)" "ValidatePattern (trim_space raw) = None" using src by blast+
    then obtain e where e: "parsePattern (trim_space raw) = Inr e"
      by (auto simp: ValidatePattern_def Let_def split: if_splits sum.splits)
    have "agrees p e \<and> plain_parsed p" using entry_agrees [OF _ pv(1) e] Q raw(2,3) by blast
    moreover have "barless p" using pv(1) raw(2) by (simp add: plain_entry_def barless_def Let_def)
    ultimately show ?thesis using raw e by auto
  qed
  obtain p where p: "p \<in> set g" "s = g_raw p" using s by (auto simp: rawSorted_def sort_strings_def)
  obtain e where e: "key p = k" "Q p" "g_raw p \<in> trim_space ` set es" "parsePattern (g_raw p) = Inr e"
    "plain_parsed p" "barless p" "agrees p e" using member [OF p(1)] by blast
  obtain e0 where e0: "key (hd g) = k" "Q (hd g)" "plain_parsed (hd g)" "barless (hd g)"
    using member [OF gm(3)] by blast
  have "\<exists>q. parsePattern pat = Inr q \<and> subsumes q e"
    by (rule shape [OF _ e(2,5,6) e0(2-4) e(7)]) (simp add: e(1) e0(1))
  then show "s \<in> trim_space ` set es \<and> Subsumes pat s" using e(3,4) p(2) by (auto simp: Subsumes_def)
qed

definition covered_by :: "string list \<Rightarrow> candidate \<Rightarrow> bool" where
  "covered_by es c \<longleftrightarrow> 2 \<le> length (c_SourceEntries c)
     \<and> (\<forall>s \<in> set (c_SourceEntries c). s \<in> trim_space ` set es \<and> Subsumes (c_SuggestedPattern c) s)"

definition plain_sources :: "candidate \<Rightarrow> bool" where
  "plain_sources c \<longleftrightarrow> (\<forall>s \<in> set (c_SourceEntries c). plain_entry s \<and> ValidatePattern s = None)"

lemma flat_simps [simp]:
  "c_Axis (flat a l g pat) = a" "c_List (flat a l g pat) = l" "c_SourceEntries (flat a l g pat) = rawSorted g"
  "c_SuggestedPattern (flat a l g pat) = pat" "c_PatternMatch (flat a l g pat) = None"
  by (simp_all add: flat_def)

lemma length_rawSorted [simp]: "length (rawSorted g) = length g"
  by (simp add: rawSorted_def sort_strings_def)

lemma length_ge_2: "\<not> card (f ` set g) < 2 \<Longrightarrow> 2 \<le> length g"
  using card_image_le [of "set g" f] card_length [of g] by simp

lemma DetectMethod_covers:
  assumes "c \<in> set (DetectMethod es l)" "plain_sources c"
  shows "covered_by es c"
proof -
  obtain k g where g: "(k, g) \<in> set (group_by groupKeyMethod (filter g_ok (map parseEntry es)))"
    and len: "2 \<le> length g" and c: "c = flat AxisMethod l g (renderPattern ''*'' (g_scheme (hd g))
        (formatHost (g_host (hd g)) (g_port (hd g))) (g_path (hd g)))"
    using assms(1) by (auto simp: DetectMethod_def Let_def split: if_splits)
  have "\<forall>s \<in> set (rawSorted g). s \<in> trim_space ` set es \<and> Subsumes (c_SuggestedPattern c) s"
  proof (rule group_covered [OF g])
    fix p e
    assume k: "groupKeyMethod p = groupKeyMethod (hd g)" and p: "plain_parsed p" "barless p" "agrees p e"
      and h: "plain_parsed (hd g)" "barless (hd g)"
    note f = bar_free [OF p(1,2)] bar_free [OF h]
    from bar_split [OF k [unfolded groupKeyMethod_def] f(2,6)] bar_split [OF _ f(3,7)]
    have "g_scheme p = g_scheme (hd g) \<and> formatHost (g_host p) (g_port p) = formatHost (g_host (hd g)) (g_port (hd g))
      \<and> g_path p = g_path (hd g)" by blast
    then show "\<exists>q. parsePattern (c_SuggestedPattern c) = Inr q \<and> subsumes q e"
      using shape_method [OF p(3,1)] by (simp add: c)
  qed (use assms(2) c in \<open>simp_all add: plain_sources_def\<close>)
  then show ?thesis using len by (simp add: covered_by_def c)
qed

lemma key_host_parts:
  assumes "key_host p @ ''|'' @ a = key_host h @ ''|'' @ b" "plain_parsed p" "barless p" "plain_parsed h" "barless h"
  shows "g_method p = g_method h \<and> g_scheme p = g_scheme h
    \<and> formatHost (g_host p) (g_port p) = formatHost (g_host h) (g_port h) \<and> a = b"
proof -
  note f = bar_free [OF assms(2,3)] bar_free [OF assms(4,5)]
  have "g_method p @ ''|'' @ g_scheme p @ ''|'' @ formatHost (g_host p) (g_port p) @ ''|'' @ a
    = g_method h @ ''|'' @ g_scheme h @ ''|'' @ formatHost (g_host h) (g_port h) @ ''|'' @ b"
    using assms(1) by (simp only: key_host_def append_assoc)
  from bar_split [OF this f(1,5)] have 1: "g_method p = g_method h"
    and "g_scheme p @ ''|'' @ formatHost (g_host p) (g_port p) @ ''|'' @ a
      = g_scheme h @ ''|'' @ formatHost (g_host h) (g_port h) @ ''|'' @ b" by blast+
  from bar_split [OF this(2) f(2,6)] have 2: "g_scheme p = g_scheme h"
    and "formatHost (g_host p) (g_port p) @ ''|'' @ a = formatHost (g_host h) (g_port h) @ ''|'' @ b" by blast+
  from bar_split [OF this(2) f(3,7)] 1 2 show ?thesis by blast
qed

lemma DetectURLSegment_covers:
  assumes "c \<in> set (DetectURLSegment es l)" "plain_sources c"
  shows "covered_by es c"
proof -
  let ?Q = "\<lambda>p. g_ok p \<and> g_path p \<noteq> [] \<and> path_split (g_path p) \<noteq> None"
  let ?key = "\<lambda>p. key_host p @ ''|'' @ path_prefix_of p"
  obtain k g where g: "(k, g) \<in> set (group_by ?key (filter ?Q (map parseEntry es)))"
    and len: "2 \<le> length g" and c: "c = flat AxisURLSegment l g (renderPattern (g_method (hd g)) (g_scheme (hd g))
              (formatHost (g_host (hd g)) (g_port (hd g))) (path_prefix_of (hd g) @ ''/*''))"
    using assms(1) by (auto simp: DetectURLSegment_def Let_def split: if_splits)
  have "\<forall>s \<in> set (rawSorted g). s \<in> trim_space ` set es \<and> Subsumes (c_SuggestedPattern c) s"
  proof (rule group_covered [OF g])
    fix p e
    assume k: "?key p = ?key (hd g)" and Q: "?Q p" and p: "plain_parsed p" "barless p" "agrees p e"
      and h: "plain_parsed (hd g)" "barless (hd g)"
    obtain pre seg where ps: "path_split (g_path p) = Some (pre, seg)" using Q by auto
    then have pre: "path_prefix_of p = pre" by (simp add: path_prefix_of_def)
    show "\<exists>q. parsePattern (c_SuggestedPattern c) = Inr q \<and> subsumes q e"
      using shape_prefix [OF p(3,1) ps] key_host_parts [OF k p(1,2) h] by (simp add: c flip: pre)
  qed (use assms(2) c in \<open>simp_all add: plain_sources_def\<close>)
  then show ?thesis using len by (simp add: covered_by_def c)
qed

lemma DetectHostPath_covers:
  assumes "c \<in> set (DetectHostPath es l)" "plain_sources c"
  shows "covered_by es c"
proof -
  let ?Q = "\<lambda>p. g_ok p \<and> g_path p \<noteq> []"
  obtain k g where g: "(k, g) \<in> set (group_by key_host (filter ?Q (map parseEntry es)))"
    and len: "\<not> card (path_prefix_of ` set g) < 2"
    and c: "c = flat AxisURLSegment l g (renderPattern (g_method (hd g)) (g_scheme (hd g))
              (formatHost (g_host (hd g)) (g_port (hd g))) ''/*'')"
    using assms(1) by (auto simp: DetectHostPath_def Let_def split: if_splits)
  have "\<forall>s \<in> set (rawSorted g). s \<in> trim_space ` set es \<and> Subsumes (c_SuggestedPattern c) s"
  proof (rule group_covered [OF g])
    fix p e
    assume k: "key_host p = key_host (hd g)" and p: "plain_parsed p" "barless p" "agrees p e"
      and h: "plain_parsed (hd g)" "barless (hd g)"
    have "key_host p @ ''|'' @ [] = key_host (hd g) @ ''|'' @ []" using k by simp
    then show "\<exists>q. parsePattern (c_SuggestedPattern c) = Inr q \<and> subsumes q e"
      using shape_host_path [OF p(3,1)] key_host_parts [OF _ p(1,2) h] by (metis c flat_simps(4))
  qed (use assms(2) c in \<open>simp_all add: plain_sources_def\<close>)
  then show ?thesis using length_ge_2 [OF len] by (simp add: covered_by_def c)
qed

lemma parent_chars: "set (parentBelowPublicSuffix etld h) \<subseteq> set (to_lower h)"
proof -
  have "set (trim_right_chars cs x) \<subseteq> set x" for cs x
    by (auto simp: trim_right_chars_def dest: set_dropWhileD)
  then have "set (trim_right_chars [CHR ''.''] (to_lower h)) \<subseteq> set (to_lower h)" by blast
  then show ?thesis
    by (auto simp: parentBelowPublicSuffix_def Let_def split: option.split dest!: in_set_dropD)
qed

lemma DetectHostname_covers:
  assumes "c \<in> set (DetectHostnameBelowTLD etld es l)" "plain_sources c"
  shows "covered_by es c"
proof -
  let ?par = "\<lambda>p. parentBelowPublicSuffix etld (g_host p)"
  let ?key = "\<lambda>p. g_method p @ ''|'' @ g_scheme p @ ''|'' @ itoa (g_port p) @ ''|'' @ g_path p @ ''|'' @ ?par p"
  obtain k g where g: "(k, g) \<in> set (group_by ?key (filter (below_suffix etld) (map parseEntry es)))"
    and len: "\<not> card (g_host ` set g) < 2"
    and c: "c = flat AxisHostnameBelowTLD l g (renderPattern (g_method (hd g)) (g_scheme (hd g))
              (host_wildcard etld (hd g)) (g_path (hd g)))"
    using assms(1) by (auto simp: DetectHostnameBelowTLD_def Let_def split: if_splits)
  have "\<forall>s \<in> set (rawSorted g). s \<in> trim_space ` set es \<and> Subsumes (c_SuggestedPattern c) s"
  proof (rule group_covered [OF g])
    fix p e
    assume k: "?key p = ?key (hd g)" and Q: "below_suffix etld p" and p: "plain_parsed p" "barless p" "agrees p e"
      and h: "plain_parsed (hd g)" "barless (hd g)"
    note f = bar_free [OF p(1,2)] bar_free [OF h]
    from bar_split [OF k f(1,5)] have 1: "g_method p = g_method (hd g)"
      and k1: "g_scheme p @ ''|'' @ itoa (g_port p) @ ''|'' @ g_path p @ ''|'' @ ?par p
        = g_scheme (hd g) @ ''|'' @ itoa (g_port (hd g)) @ ''|'' @ g_path (hd g) @ ''|'' @ ?par (hd g)" by blast+
    from bar_split [OF k1 f(2,6)] have 2: "g_scheme p = g_scheme (hd g)"
      and k2: "itoa (g_port p) @ ''|'' @ g_path p @ ''|'' @ ?par p
        = itoa (g_port (hd g)) @ ''|'' @ g_path (hd g) @ ''|'' @ ?par (hd g)" by blast+
    from bar_split [OF k2 f(4,8)] have 3: "itoa (g_port p) = itoa (g_port (hd g))"
      and k3: "g_path p @ ''|'' @ ?par p = g_path (hd g) @ ''|'' @ ?par (hd g)" by blast+
    from bar_split [OF k3] p(2) h(2) have "g_path p = g_path (hd g)" "?par p = ?par (hd g)"
      by (simp_all add: barless_def)
    note eq = 1 2 3 this
    have "g_port p = g_port (hd g)" using 3 by (rule itoa_inj)
    then have "host_wildcard etld p = host_wildcard etld (hd g)" using eq by (simp add: host_wildcard_def)
    then show "\<exists>q. parsePattern (c_SuggestedPattern c) = Inr q \<and> subsumes q e"
      using shape_wildcard [OF p(3,1) Q] p(2) eq by (simp add: c barless_def)
  qed (use assms(2) c in \<open>simp_all add: plain_sources_def below_suffix_def\<close>)
  then show ?thesis using length_ge_2 [OF len] by (simp add: covered_by_def c)
qed

text \<open>
  C10: a generalization covers what it replaces. Every candidate of the detectors is made from at
  least two entries of one list, never of both, and each of these entries is subsumed by the
  suggested pattern: every request the entry matches is matched by the pattern. The entries are
  plain ones that load.
\<close>

theorem generalization_covers:
  assumes "c \<in> set (DetectAll etld allow deny)" and "plain_sources c"
  shows "c_List c = ''allow'' \<and> covered_by allow c \<or> c_List c = ''deny'' \<and> covered_by deny c"
proof -
  have lists: "c_List c = l" if "c \<in> set (detect_list etld es l)" for es l
    using that by (auto simp: detect_list_def DetectMethod_def DetectURLSegment_def DetectHostPath_def
        DetectHostnameBelowTLD_def Let_def split: if_splits)
  have "covered_by es c" if "c \<in> set (detect_list etld es l)" for es l
    using that assms(2) DetectMethod_covers DetectURLSegment_covers DetectHostPath_covers DetectHostname_covers
    by (auto simp: detect_list_def)
  with lists assms(1) show ?thesis by (auto simp: DetectAll_def)
qed

definition demo_etld :: etld_db where
  "demo_etld h = (if has_suffix h ''example.com'' then Some ''example.com'' else None)"

theorem generalization_covers_witness:
  "\<exists>c \<in> set (DetectAll demo_etld [''GET https://api.example.com/v1/users/1'', ''GET https://api.example.com/v1/users/2''] []).
     c_SuggestedPattern c = ''GET https://api.example.com/v1/users/*''
     \<and> Subsumes (c_SuggestedPattern c) ''GET https://api.example.com/v1/users/2''"
proof -
  let ?es = "[''GET https://api.example.com/v1/users/1'', ''GET https://api.example.com/v1/users/2'']"
  let ?c = "\<lparr>c_Axis = AxisURLSegment, c_List = ''allow'', c_SourceEntries = ?es,
     c_SuggestedPattern = ''GET https://api.example.com/v1/users/*'', c_PatternMatch = None\<rparr>"
  have c: "?c \<in> set (DetectAll demo_etld ?es [])" by code_simp
  have "plain_sources ?c" unfolding plain_sources_def by code_simp
  with generalization_covers [OF c] have "covered_by ?es ?c" by simp
  then have "Subsumes (c_SuggestedPattern ?c) ''GET https://api.example.com/v1/users/2''"
    by (simp add: covered_by_def)
  with c show ?thesis by (metis candidate.select_convs(4))
qed

end
