(* ===== verification/PatternDetect.thy ===== *)
theory PatternDetect
  imports Generalize URLPattern
begin

text \<open>
  \<open>internal/generalize/pattern_detect.go\<close>: candidates in the shape of a rule. Entries that the
  same URL pattern recognizes are grouped, and the components all of them share become the
  components of the rule. The recognizer is a parameter, as in the code; the server passes the
  recognition of its pattern registry.
\<close>

section \<open>The detector\<close>

type_synonym recognizer = "string \<Rightarrow> int \<Rightarrow> string \<Rightarrow> string \<Rightarrow> (string \<times> components) option"

definition AxisPatternPrefix :: string where "AxisPatternPrefix = ''pattern:''"

definition intersectComponents :: "components list \<Rightarrow> components" where
  "intersectComponents members =
     (case members of
        [] \<Rightarrow> []
      | m0 # ms \<Rightarrow> fold (\<lambda>m cand. filter (\<lambda>(k, v). map_of m k = Some v) cand) ms m0)"

definition varyingComponents :: "components list \<Rightarrow> components \<Rightarrow> string list" where
  "varyingComponents members constants =
     sort_strings (filter (\<lambda>k. k \<notin> fst ` set constants) (remdups (concat (map (map fst) members))))"

definition renderPatternSummary :: "string \<Rightarrow> string \<Rightarrow> components \<Rightarrow> string list \<Rightarrow> string" where
  "renderPatternSummary pat meth constants varying =
     pat @ (if meth \<noteq> [] then '' method='' @ meth else [])
     @ concat (map (\<lambda>k. let v = (case map_of constants k of None \<Rightarrow> [] | Some v \<Rightarrow> v)
         in '' '' @ k @ ''='' @ (if v = [] then [CHR 0x22, CHR 0x22] else v)) (sort_strings (map fst constants)))
     @ concat (map (\<lambda>k. '' '' @ k @ ''=*'') varying)"

definition group_key_before :: "string \<times> string \<Rightarrow> string \<times> string \<Rightarrow> bool" where
  "group_key_before a b = (if fst a \<noteq> fst b then fst a < fst b else snd a < snd b)"

text \<open>One entry of the list: its pattern, its method as a rule clause, its text and components.\<close>

definition recognized_entry :: "recognizer \<Rightarrow> string \<Rightarrow> ((string \<times> string) \<times> string \<times> components) option" where
  "recognized_entry rec raw =
     (let p = parseEntry raw in
      if \<not> g_ok p then None
      else (case rec (g_host p) (g_port p) (g_scheme p) (g_path p) of
          None \<Rightarrow> None
        | Some (name, comps) \<Rightarrow> Some ((name, if g_method p = ''*'' then [] else g_method p), g_raw p, comps)))"

definition pattern_group :: "string \<Rightarrow> (string \<times> string) \<times> ((string \<times> string) \<times> string \<times> components) list \<Rightarrow> candidate list" where
  "pattern_group l = (\<lambda>((pat, meth), members).
     if length members < 2 then []
     else let comps = map (snd \<circ> snd) members; constants = intersectComponents comps in
       [\<lparr>c_Axis = AxisPatternPrefix @ pat, c_List = l,
         c_SourceEntries = sort_strings (map (fst \<circ> snd) members),
         c_SuggestedPattern = renderPatternSummary pat meth constants (varyingComponents comps constants),
         c_PatternMatch = Some \<lparr>pc_Pattern = pat, pc_Components = constants, pc_Method = meth\<rparr>\<rparr>])"

definition detectPatternForList :: "recognizer \<Rightarrow> string list \<Rightarrow> string \<Rightarrow> candidate list" where
  "detectPatternForList rec es l =
     concat (map (pattern_group l)
       (stable_sort (\<lambda>a b. group_key_before (fst a) (fst b))
         (group_by fst (List.map_filter (recognized_entry rec) es))))"

definition DetectPattern :: "recognizer option \<Rightarrow> string list \<Rightarrow> string list \<Rightarrow> candidate list" where
  "DetectPattern rec allow deny =
     (case rec of
        None \<Rightarrow> []
      | Some rec \<Rightarrow> detectPatternForList rec allow ''allow'' @ detectPatternForList rec deny ''deny'')"

definition DetectAllWithRecognizer :: "etld_db \<Rightarrow> recognizer option \<Rightarrow> string list \<Rightarrow> string list \<Rightarrow> candidate list" where
  "DetectAllWithRecognizer etld rec allow deny =
     (let out = DetectAll etld allow deny in
      case rec of None \<Rightarrow> out | Some _ \<Rightarrow> out @ DetectPattern rec allow deny)"

section \<open>The rule matches its sources\<close>

lemma intersect_fold:
  "(k, v) \<in> set (fold (\<lambda>m cand. filter (\<lambda>(k, v). map_of m k = Some v) cand) ms c)
     \<longleftrightarrow> (k, v) \<in> set c \<and> (\<forall>m \<in> set ms. map_of m k = Some v)"
  by (induction ms arbitrary: c) auto

lemma intersectComponents_iff:
  assumes "ms \<noteq> []" "\<forall>m \<in> set ms. distinct (map fst m)"
  shows "(k, v) \<in> set (intersectComponents ms) \<longleftrightarrow> (\<forall>m \<in> set ms. map_of m k = Some v)"
  using assms by (cases ms) (auto simp: intersectComponents_def intersect_fold)

text \<open>What an accepted candidate asks of a request: the pattern and the components of its rule.\<close>

definition asks :: "pattern_candidate \<Rightarrow> match_clause \<Rightarrow> bool" where
  "asks pc m \<longleftrightarrow> m_Pattern m = pc_Pattern pc \<and> m_Components m = pc_Components pc"

lemma recognized_entry_some:
  "recognized_entry rec raw = Some (key, s, comps) \<longleftrightarrow>
     (let p = parseEntry raw in g_ok p \<and> s = trim_space raw
        \<and> rec (g_host p) (g_port p) (g_scheme p) (g_path p) = Some (fst key, comps)
        \<and> snd key = (if g_method p = ''*'' then [] else g_method p))"
  by (cases key) (auto simp: recognized_entry_def Let_def split: option.splits)

text \<open>The recognizer returns maps: one value per component.\<close>

definition map_recognizer :: "recognizer \<Rightarrow> bool" where
  "map_recognizer rec \<longleftrightarrow> (\<forall>h p s x n cs. rec h p s x = Some (n, cs) \<longrightarrow> distinct (map fst cs))"

lemma group_maps:
  assumes "map_recognizer rec" "(k, g) \<in> set (group_by fst (List.map_filter (recognized_entry rec) es))"
  shows "\<forall>m \<in> set (map (snd \<circ> snd) g). distinct (map fst m)"
proof
  fix m assume "m \<in> set (map (snd \<circ> snd) g)"
  then obtain x where x: "x \<in> set g" "m = snd (snd x)" by auto
  then have "x \<in> set (filter (\<lambda>x. fst x = k) (List.map_filter (recognized_entry rec) es))"
    using group_by_member(1) [OF assms(2)] by metis
  then obtain raw where "recognized_entry rec raw = Some (fst x, fst (snd x), m)"
    using x(2) by (auto simp: List.map_filter_def)
  then show "distinct (map fst m)"
    using assms(1) by (auto simp: recognized_entry_some Let_def map_recognizer_def)
qed

text \<open>The entry with text \<open>s\<close> of a list is recognized, with these components, as the rule says.\<close>

definition recognized_as :: "recognizer \<Rightarrow> string list \<Rightarrow> string \<times> string \<Rightarrow> string \<Rightarrow> components \<Rightarrow> bool" where
  "recognized_as rec es key s comps \<longleftrightarrow>
     (\<exists>raw \<in> set es. s = trim_space raw \<and> recognized_entry rec raw = Some (key, s, comps))"

lemma in_map_filter: "x \<in> set (List.map_filter f xs) \<longleftrightarrow> (\<exists>raw \<in> set xs. f raw = Some x)"
proof (induction xs)
  case (Cons a xs)
  then show ?case by (cases "f a") (auto simp: List.map_filter_simps)
qed (simp add: List.map_filter_simps)

lemma group_recognized:
  assumes "(k, g) \<in> set (group_by fst (List.map_filter (recognized_entry rec) es))"
  shows "(k', s, m) \<in> set g \<longleftrightarrow> k' = k \<and> recognized_as rec es k s m"
proof -
  have "(k', s, m) \<in> set g \<longleftrightarrow> (k', s, m) \<in> set (filter (\<lambda>x. fst x = k) (List.map_filter (recognized_entry rec) es))"
    using group_by_member(1) [OF assms] by simp
  also have "\<dots> \<longleftrightarrow> k' = k \<and> (\<exists>raw \<in> set es. recognized_entry rec raw = Some (k, s, m))"
    by (auto simp: in_map_filter)
  finally show ?thesis by (auto simp: recognized_as_def recognized_entry_some Let_def)
qed

lemma pattern_components_iff:
  assumes "map_recognizer rec" "(k, g) \<in> set (group_by fst (List.map_filter (recognized_entry rec) es))"
  shows "(c, v) \<in> set (intersectComponents (map (snd \<circ> snd) g)) \<longleftrightarrow>
    (\<forall>s m. recognized_as rec es k s m \<longrightarrow> map_of m c = Some v)"
proof -
  have "map (snd \<circ> snd) g \<noteq> []" using group_by_member(2) [OF assms(2)] by simp
  then have "(c, v) \<in> set (intersectComponents (map (snd \<circ> snd) g)) \<longleftrightarrow>
      (\<forall>x \<in> set g. map_of (snd (snd x)) c = Some v)"
    using intersectComponents_iff [OF _ group_maps [OF assms]] by simp
  also have "\<dots> \<longleftrightarrow> (\<forall>k' s m. (k', s, m) \<in> set g \<longrightarrow> map_of m c = Some v)" by force
  finally show ?thesis by (cases k) (simp add: group_recognized [OF assms(2)])
qed

lemma pattern_group_fields:
  assumes "c \<in> set (pattern_group l (k, g))"
  shows "c_PatternMatch c = Some \<lparr>pc_Pattern = fst k, pc_Components = intersectComponents (map (snd \<circ> snd) g), pc_Method = snd k\<rparr>"
    "c_List c = l" "2 \<le> length (c_SourceEntries c)" "set (c_SourceEntries c) = (fst \<circ> snd) ` set g"
  using assms by (cases k, simp add: pattern_group_def Let_def sort_strings_def split: if_splits)+

text \<open>
  A pattern candidate describes its sources, and describes them as closely as shared
  components can. It comes from at least two entries of one list that the same pattern recognizes
  with the same method; a component and its value are in the rule exactly when all of the list's
  entries recognized so share them; so a request recognized as any of the sources satisfies the
  pattern clause of the rule.
\<close>

lemma pattern_candidate_covers:
  assumes "map_recognizer rec" and "c \<in> set (DetectPattern (Some rec) allow deny)"
  shows "\<exists>pc. c_PatternMatch c = Some pc \<and> c_List c \<in> {''allow'', ''deny''} \<and> 2 \<le> length (c_SourceEntries c)
    \<and> (let shape = recognized_as rec (if c_List c = ''allow'' then allow else deny) (pc_Pattern pc, pc_Method pc) in
       (\<forall>s. s \<in> set (c_SourceEntries c) \<longleftrightarrow> (\<exists>comps. shape s comps))
     \<and> (\<forall>k v. (k, v) \<in> set (pc_Components pc) \<longleftrightarrow> (\<forall>s comps. shape s comps \<longrightarrow> map_of comps k = Some v))
     \<and> (\<forall>s comps m req. shape s comps \<and> asks pc m
          \<and> ev_MatchedPattern req = Some \<lparr>mp_Name = pc_Pattern pc, mp_Components = comps\<rparr> \<longrightarrow> pattern_clause m req))"
proof -
  obtain l es where l: "c \<in> set (detectPatternForList rec es l)" "(l, es) \<in> {(''allow'', allow), (''deny'', deny)}"
    using assms(2) by (auto simp: DetectPattern_def)
  then obtain k g where g: "(k, g) \<in> set (group_by fst (List.map_filter (recognized_entry rec) es))"
    and c: "c \<in> set (pattern_group l (k, g))"
    by (auto simp: detectPatternForList_def)
  define pc where "pc = \<lparr>pc_Pattern = fst k, pc_Components = intersectComponents (map (snd \<circ> snd) g), pc_Method = snd k\<rparr>"
  note f = pattern_group_fields [OF c, folded pc_def]
  have es: "(if c_List c = ''allow'' then allow else deny) = es" using l(2) f(2) by auto
  have key: "(pc_Pattern pc, pc_Method pc) = k" by (simp add: pc_def)
  have src: "s \<in> set (c_SourceEntries c) \<longleftrightarrow> (\<exists>comps. recognized_as rec es k s comps)" for s
  proof -
    have "s \<in> set (c_SourceEntries c) \<longleftrightarrow> (\<exists>k' m. (k', s, m) \<in> set g)" unfolding f(4) by force
    then show ?thesis by (cases k) (simp add: group_recognized [OF g])
  qed
  have comps: "(x, v) \<in> set (pc_Components pc) \<longleftrightarrow> (\<forall>s m. recognized_as rec es k s m \<longrightarrow> map_of m x = Some v)" for x v
    using pattern_components_iff [OF assms(1) g] by (simp add: pc_def)
  have clause: "pattern_clause m req" if "recognized_as rec es k s cs" "asks pc m"
    "ev_MatchedPattern req = Some \<lparr>mp_Name = pc_Pattern pc, mp_Components = cs\<rparr>" for s cs m req
  proof -
    have "component_hits cs (x, v)" if "(x, v) \<in> set (pc_Components pc)" for x v
      using that comps \<open>recognized_as rec es k s cs\<close> by (simp add: component_hits_def equal_fold_def)
    then have "\<forall>kv \<in> set (pc_Components pc). component_hits cs kv" by auto
    then show ?thesis using that(2,3) by (simp add: pattern_clause_def asks_def list_all_iff)
  qed
  have "c_List c \<in> {''allow'', ''deny''}" using l(2) f(2) by auto
  moreover have "\<forall>s. s \<in> set (c_SourceEntries c) \<longleftrightarrow> (\<exists>comps. recognized_as rec es k s comps)" by (intro allI src)
  moreover have "\<forall>x v. (x, v) \<in> set (pc_Components pc) \<longleftrightarrow> (\<forall>s m. recognized_as rec es k s m \<longrightarrow> map_of m x = Some v)"
    by (intro allI comps)
  moreover have "\<forall>s cs m req. recognized_as rec es k s cs \<and> asks pc m
      \<and> ev_MatchedPattern req = Some \<lparr>mp_Name = pc_Pattern pc, mp_Components = cs\<rparr> \<longrightarrow> pattern_clause m req"
    by (intro allI impI, elim conjE, rule clause)
  ultimately show ?thesis
    unfolding es Let_def using f(1,3) unfolding key [symmetric] by (intro exI conjI)
qed

definition arm_recognizer :: recognizer where
  "arm_recognizer h p s x = map_option (\<lambda>mp. (mp_Name mp, mp_Components mp)) (Recognize builtin_registry h p s x)"

lemma arm_recognizer_maps: "map_recognizer arm_recognizer"
  unfolding map_recognizer_def
proof (intro allI impI)
  fix h p s x n cs assume "arm_recognizer h p s x = Some (n, cs)"
  then have "arm_match h p s x = Matched cs \<or> keyvault_match h p s x = Matched cs"
    by (cases "arm_match h p s x"; cases "keyvault_match h p s x")
      (simp_all add: arm_recognizer_def Recognize_def builtin_registry_ordered BuiltIns_def AzureARM_def
        AzureKeyVault_def safeMatch_def)
  then have "map fst cs = arm_names \<or> map fst cs = [''vault'']"
    using arm_match_components keyvault_match_components by blast
  then show "distinct (map fst cs)" by (elim disjE) (simp_all add: arm_names_def)
qed

definition two_subscriptions :: "string list" where
  "two_subscriptions = [''GET https://management.azure.com/subscriptions/s1'', ''GET https://management.azure.com/subscriptions/s2'']"

definition subscription_rule :: pattern_candidate where
  "subscription_rule = \<lparr>pc_Pattern = ''azure_arm'',
     pc_Components = [(''resource_group'', []), (''provider'', []), (''resource_type'', []), (''resource_name'', [])],
     pc_Method = ''GET''\<rparr>"

text \<open>Two subscriptions of Azure, and the candidate made of them.\<close>

lemma two_subscriptions_candidate:
  "map c_PatternMatch (DetectPattern (Some arm_recognizer) two_subscriptions []) = [Some subscription_rule]"
  by code_simp

lemma pattern_candidate_covers_example:
  "\<exists>c \<in> set (DetectPattern (Some arm_recognizer) two_subscriptions []).
     c_PatternMatch c = Some subscription_rule \<and> 2 \<le> length (c_SourceEntries c)"
proof -
  have "Some subscription_rule \<in> c_PatternMatch ` set (DetectPattern (Some arm_recognizer) two_subscriptions [])"
    using two_subscriptions_candidate by (metis list.set_intros(1) list.set_map)
  then obtain c where "c \<in> set (DetectPattern (Some arm_recognizer) two_subscriptions [])"
    "c_PatternMatch c = Some subscription_rule" by auto
  with pattern_candidate_covers [OF arm_recognizer_maps, of c two_subscriptions "[]"] show ?thesis by blast
qed

text \<open>
  A shared empty component (the sources do not carry it) becomes a clause with an empty value,
  which the rule engine reads as a wildcard: the rule made of two plain subscription requests also
  matches a request to a virtual machine of any subscription.
\<close>

lemma empty_component_widens:
  assumes "asks subscription_rule m"
    and "ev_MatchedPattern req = Recognize builtin_registry ''management.azure.com'' 443 ''https''
      ''/subscriptions/s9/resourceGroups/prod/providers/Microsoft.Compute/virtualMachines/vm1''"
  shows "pattern_clause m req"
proof -
  have "Recognize builtin_registry ''management.azure.com'' 443 ''https''
      ''/subscriptions/s9/resourceGroups/prod/providers/Microsoft.Compute/virtualMachines/vm1''
    = Some \<lparr>mp_Name = ''azure_arm'', mp_Components = [(''subscription'', ''s9''), (''resource_group'', ''prod''),
        (''provider'', ''Microsoft.Compute''), (''resource_type'', ''virtualMachines''), (''resource_name'', ''vm1'')]\<rparr>"
    by code_simp
  with assms show ?thesis
    by (simp add: pattern_clause_def asks_def subscription_rule_def component_hits_def)
qed

end
