(* ===== verification/ConfigWrite.thy ===== *)
theory ConfigWrite
  imports PatternDetect
begin

text \<open>
  \<open>internal/configwrite\<close>: the in-place edits of \<open>trollbridge.yaml\<close> and of a rule file. The YAML
  library is a pair of parameters between the bytes of a file and the node tree the code edits
  (\<open>yaml.Node\<close>: kind, value, head comment, children; tags and styles, which only steer the
  printer, are left out). The file system is a map from paths to contents; an atomic write
  replaces a file or, when it fails, leaves it as it was: whether it fails is an argument.
\<close>

section \<open>Nodes\<close>

datatype node_kind = ScalarNode | SequenceNode | MappingNode | OtherNode

datatype node = Node (n_kind: node_kind) (n_value: string) (n_comment: string) (n_content: "node list")

definition with_content :: "node \<Rightarrow> node list \<Rightarrow> node" where
  "with_content n cs = Node (n_kind n) (n_value n) (n_comment n) cs"

definition scalar :: "string \<Rightarrow> node" where
  "scalar s = Node ScalarNode s [] []"

text \<open>The index of the value of a key among the children of a mapping.\<close>

fun find_pair :: "string \<Rightarrow> node list \<Rightarrow> nat option" where
  "find_pair key (k # v # rest) = (if n_value k = key then Some 1 else map_option (\<lambda>i. i + 2) (find_pair key rest))"
| "find_pair key _ = None"

definition coerce_kind :: "node_kind \<Rightarrow> node \<Rightarrow> node" where
  "coerce_kind kd v = (if n_kind v \<noteq> kd then Node kd [] (n_comment v) [] else v)"

text \<open>The parent with the child in place, the child's index, and whether it was created.\<close>

definition ensure_child :: "node_kind \<Rightarrow> string \<Rightarrow> string \<Rightarrow> node \<Rightarrow> node \<times> nat \<times> bool" where
  "ensure_child kd key comment p =
     (case find_pair key (n_content p) of
        Some i \<Rightarrow> (with_content p ((n_content p)[i := coerce_kind kd (n_content p ! i)]), i, False)
      | None \<Rightarrow> (with_content p (n_content p @ [Node ScalarNode key comment [], Node kd [] [] []]),
                 length (n_content p) + 1, True))"

definition findOrCreateMappingChild :: "node \<Rightarrow> string \<Rightarrow> node \<times> nat" where
  "findOrCreateMappingChild p key = (case ensure_child MappingNode key [] p of (p', i, _) \<Rightarrow> (p', i))"

definition findOrCreateSeqChild :: "node \<Rightarrow> string \<Rightarrow> node \<times> nat" where
  "findOrCreateSeqChild p key = (case ensure_child SequenceNode key [] p of (p', i, _) \<Rightarrow> (p', i))"

definition findOrCreateSeqChildWithComment :: "node \<Rightarrow> string \<Rightarrow> string \<Rightarrow> node \<times> nat \<times> bool" where
  "findOrCreateSeqChildWithComment p key comment = ensure_child SequenceNode key comment p"

definition stringsFromSeq :: "node \<Rightarrow> string list" where
  "stringsFromSeq q = map n_value (filter (\<lambda>n. n_kind n = ScalarNode) (n_content q))"

definition replaceSeqContent :: "node \<Rightarrow> string list \<Rightarrow> node" where
  "replaceSeqContent q es = with_content q (map scalar es)"

definition set_child :: "node \<Rightarrow> nat \<Rightarrow> node \<Rightarrow> node" where
  "set_child p i c = with_content p ((n_content p)[i := c])"

section \<open>Lists of entries\<close>

definition insertSorted :: "string list \<Rightarrow> string \<Rightarrow> string list" where
  "insertSorted es pat =
     (let pat = trim_space pat in
      if pat = [] then es
      else if pat \<in> set es then es
      else sort_strings (es @ [pat]))"

definition remove_entry :: "string list \<Rightarrow> string \<Rightarrow> string list" where
  "remove_entry es pat = (let pat = trim_space pat in filter (\<lambda>e. e \<noteq> pat) es)"

definition generalize_entries :: "string \<Rightarrow> string list \<Rightarrow> string list \<Rightarrow> string list" where
  "generalize_entries pat sources es =
     insertSorted (filter (\<lambda>e. \<not> (trim_space e \<in> trim_space ` set sources \<or> Subsumes pat e)) es) pat"

definition drop_sources :: "string list \<Rightarrow> string list \<Rightarrow> string list" where
  "drop_sources sources es = filter (\<lambda>e. trim_space e \<notin> trim_space ` set sources) es"

section \<open>Blank lines\<close>

definition NL :: char where "NL = char_of (10 :: nat)"

definition trim_right_blank :: "string \<Rightarrow> string" where
  "trim_right_blank = trim_right_chars [CHR '' '', char_of (9 :: nat)]"

fun capture_from :: "nat \<Rightarrow> string list \<Rightarrow> (string \<times> nat) list" where
  "capture_from run [] = []"
| "capture_from run (l # ls) =
     (if trim_space l = [] then capture_from (Suc run) ls
      else (if run > 0 then [(trim_right_blank l, run)] else []) @ capture_from 0 ls)"

definition captureBlankLines :: "string \<Rightarrow> (string \<times> nat) list" where
  "captureBlankLines src = capture_from 0 (split_on NL src)"

fun reinsert_lines :: "string list \<Rightarrow> (string \<times> nat) list \<Rightarrow> string list" where
  "reinsert_lines [] as = []"
| "reinsert_lines (l # ls) [] = l # reinsert_lines ls []"
| "reinsert_lines (l # ls) ((a, n) # as) =
     (if trim_right_blank l = a then replicate n [] @ l # reinsert_lines ls as
      else l # reinsert_lines ls ((a, n) # as))"

definition reinsertBlankLines :: "string \<Rightarrow> (string \<times> nat) list \<Rightarrow> string" where
  "reinsertBlankLines enc as = (if as = [] then enc else join_with [NL] (reinsert_lines (split_on NL enc) as))"

section \<open>Files\<close>

type_synonym files = "string \<Rightarrow> string option"

text \<open>\<open>yaml.Unmarshal\<close> into a node gives the document's children (none for an empty file);
  \<open>yaml.Encoder\<close> and \<open>yaml.Marshal\<close> print them.\<close>

record yaml_env =
  ye_parse :: "string \<Rightarrow> node list option"
  ye_encode :: "node list \<Rightarrow> string option"

datatype write_error =
    ReadError string | ParseError string | NotMapping string | EncodeError | WriteError string
  | UnknownList string | NoSourceEntries | EmptyRulesPath | EmptyRuleID | EmptyPattern | BadRuleEffect string
  | NotSequence string

definition atomicWrite :: "bool \<Rightarrow> string \<Rightarrow> string \<Rightarrow> files \<Rightarrow> files \<times> write_error option" where
  "atomicWrite ok path data fs = (if ok then (fs(path \<mapsto> data), None) else (fs, Some (WriteError path)))"

text \<open>The common start of an edit: the parsed document of a file, a mapping.\<close>

definition load_document :: "yaml_env \<Rightarrow> string \<Rightarrow> files \<Rightarrow> write_error + string \<times> node \<times> node list" where
  "load_document y path fs =
     (case fs path of
        None \<Rightarrow> Inl (ReadError path)
      | Some data \<Rightarrow>
          (case ye_parse y data of
             None \<Rightarrow> Inl (ParseError path)
           | Some [] \<Rightarrow> Inl (NotMapping path)
           | Some (doc # rest) \<Rightarrow>
               if n_kind doc \<noteq> MappingNode then Inl (NotMapping path) else Inr (data, doc, rest)))"

definition save_document ::
    "yaml_env \<Rightarrow> bool \<Rightarrow> string \<Rightarrow> string \<Rightarrow> node list \<Rightarrow> files \<Rightarrow> files \<times> write_error option \<times> bool" where
  "save_document y ok path data root fs =
     (case ye_encode y root of
        None \<Rightarrow> (fs, Some EncodeError, False)
      | Some out \<Rightarrow>
          (case atomicWrite ok path (reinsertBlankLines out (captureBlankLines data)) fs of
             (fs', e) \<Rightarrow> (fs', e, True)))"

text \<open>\<open>mutate\<close>: the new files, the error and whether the list changed.\<close>

definition edit_list :: "string \<Rightarrow> (string list \<Rightarrow> string list) \<Rightarrow> node \<Rightarrow> node option" where
  "edit_list which f doc =
     (case findOrCreateMappingChild doc ''lists'' of (doc1, i) \<Rightarrow>
        (case findOrCreateSeqChild (n_content doc1 ! i) which of (lists1, j) \<Rightarrow>
           let current = stringsFromSeq (n_content lists1 ! j); updated = f current in
           if current = updated then None
           else Some (set_child doc1 i (set_child lists1 j (replaceSeqContent (n_content lists1 ! j) updated)))))"

definition mutate ::
    "yaml_env \<Rightarrow> bool \<Rightarrow> string \<Rightarrow> string \<Rightarrow> (string list \<Rightarrow> string list) \<Rightarrow> files
     \<Rightarrow> files \<times> write_error option \<times> bool" where
  "mutate y ok path which f fs =
     (case load_document y path fs of
        Inl e \<Rightarrow> (fs, Some e, False)
      | Inr (data, doc, rest) \<Rightarrow>
          (case edit_list which f doc of
             None \<Rightarrow> (fs, None, False)
           | Some doc' \<Rightarrow> save_document y ok path data (doc' # rest) fs))"

definition AddAllow :: "yaml_env \<Rightarrow> bool \<Rightarrow> string \<Rightarrow> string \<Rightarrow> files \<Rightarrow> files \<times> write_error option \<times> bool" where
  "AddAllow y ok path pat = mutate y ok path ''allow'' (\<lambda>es. insertSorted es pat)"

definition AddDeny :: "yaml_env \<Rightarrow> bool \<Rightarrow> string \<Rightarrow> string \<Rightarrow> files \<Rightarrow> files \<times> write_error option \<times> bool" where
  "AddDeny y ok path pat = mutate y ok path ''deny'' (\<lambda>es. insertSorted es pat)"

definition RemoveAllow :: "yaml_env \<Rightarrow> bool \<Rightarrow> string \<Rightarrow> string \<Rightarrow> files \<Rightarrow> files \<times> write_error option \<times> bool" where
  "RemoveAllow y ok path pat = mutate y ok path ''allow'' (\<lambda>es. remove_entry es pat)"

definition RemoveDeny :: "yaml_env \<Rightarrow> bool \<Rightarrow> string \<Rightarrow> string \<Rightarrow> files \<Rightarrow> files \<times> write_error option \<times> bool" where
  "RemoveDeny y ok path pat = mutate y ok path ''deny'' (\<lambda>es. remove_entry es pat)"

definition Generalize ::
    "yaml_env \<Rightarrow> bool \<Rightarrow> string \<Rightarrow> string \<Rightarrow> string \<Rightarrow> string list \<Rightarrow> files \<Rightarrow> files \<times> write_error option \<times> bool" where
  "Generalize y ok path l pat sources fs =
     (if l \<noteq> ''allow'' \<and> l \<noteq> ''deny'' then (fs, Some (UnknownList l), False)
      else mutate y ok path l (generalize_entries pat sources) fs)"

text \<open>The two writes of an operator's verdict; the results are those of both steps.\<close>

definition OperatorApprove ::
    "yaml_env \<Rightarrow> bool \<Rightarrow> bool \<Rightarrow> string \<Rightarrow> string \<Rightarrow> files
     \<Rightarrow> files \<times> (write_error option \<times> bool) \<times> (write_error option \<times> bool)" where
  "OperatorApprove y ok1 ok2 path pat fs =
     (case RemoveDeny y ok1 path pat fs of (fs1, r1) \<Rightarrow>
        (case AddAllow y ok2 path pat fs1 of (fs2, r2) \<Rightarrow> (fs2, r1, r2)))"

definition OperatorDeny ::
    "yaml_env \<Rightarrow> bool \<Rightarrow> bool \<Rightarrow> string \<Rightarrow> string \<Rightarrow> files
     \<Rightarrow> files \<times> (write_error option \<times> bool) \<times> (write_error option \<times> bool)" where
  "OperatorDeny y ok1 ok2 path pat fs =
     (case RemoveAllow y ok1 path pat fs of (fs1, r1) \<Rightarrow>
        (case AddDeny y ok2 path pat fs1 of (fs2, r2) \<Rightarrow> (fs2, r1, r2)))"

section \<open>Declined suggestions\<close>

record declined =
  dc_SourceEntries :: "string list"
  dc_AxesDeclined :: "string list"
  dc_DeclinedAt :: string

text \<open>The loop stops at the first \<open>source_entries\<close> key of a row.\<close>

fun row_sources :: "node list \<Rightarrow> node option" where
  "row_sources (k # v # rest) = (if n_value k = ''source_entries'' then Some v else row_sources rest)"
| "row_sources _ = None"

definition sameCanonicalSourceEntries :: "node \<Rightarrow> string list \<Rightarrow> bool" where
  "sameCanonicalSourceEntries row canonical =
     (case row_sources (n_content row) of
        None \<Rightarrow> False
      | Some q \<Rightarrow> n_kind q = SequenceNode \<and> sort_strings (stringsFromSeq q) = canonical)"

definition buildDeclinedRow :: "declined \<Rightarrow> node" where
  "buildDeclinedRow d = Node MappingNode [] []
     ([scalar ''source_entries'', Node SequenceNode [] [] (map scalar (dc_SourceEntries d))]
      @ (if dc_AxesDeclined d \<noteq> []
         then [scalar ''axes_declined'', Node SequenceNode [] [] (map scalar (dc_AxesDeclined d))] else [])
      @ (if dc_DeclinedAt d \<noteq> [] then [scalar ''declined_at'', scalar (dc_DeclinedAt d)] else []))"

definition declined_comment :: string where
  "declined_comment =
     ''Automatically managed '' @ map char_of [226, 128, 148 :: nat] @ '' do not edit by hand.'' @ [NL]
     @ ''trollbridge appends one row per declined generalization'' @ [NL]
     @ ''suggestion so the same source-entry set is never re-offered.''"

definition add_declined_row :: "declined \<Rightarrow> node \<Rightarrow> node option" where
  "add_declined_row d doc =
     (case findOrCreateMappingChild doc ''lists'' of (doc1, i) \<Rightarrow>
        (case findOrCreateSeqChildWithComment (n_content doc1 ! i) ''declined_suggestions'' declined_comment of
           (lists1, j, created) \<Rightarrow>
             let q = n_content lists1 ! j in
             if \<not> created \<and> list_ex (\<lambda>row. n_kind row = MappingNode
                  \<and> sameCanonicalSourceEntries row (dc_SourceEntries d)) (n_content q)
             then None
             else Some (set_child doc1 i (set_child lists1 j (with_content q (n_content q @ [buildDeclinedRow d]))))))"

definition AddDeclinedSuggestion ::
    "yaml_env \<Rightarrow> bool \<Rightarrow> string \<Rightarrow> declined \<Rightarrow> files \<Rightarrow> files \<times> write_error option \<times> bool" where
  "AddDeclinedSuggestion y ok path d fs =
     (if dc_SourceEntries d = [] then (fs, Some NoSourceEntries, False)
      else let d = d\<lparr>dc_SourceEntries := sort_strings (dc_SourceEntries d)\<rparr> in
        (case load_document y path fs of
           Inl e \<Rightarrow> (fs, Some e, False)
         | Inr (data, doc, rest) \<Rightarrow>
             (case add_declined_row d doc of
                None \<Rightarrow> (fs, None, False)
              | Some doc' \<Rightarrow> save_document y ok path data (doc' # rest) fs)))"

section \<open>Pattern rules\<close>

record pattern_rule =
  pr_ID :: string
  pr_Description :: string
  pr_Priority :: int
  pr_Pattern :: string
  pr_Components :: components
  pr_Method :: string
  pr_Effect :: string

definition str_pair :: "string \<Rightarrow> string \<Rightarrow> node list" where
  "str_pair k v = (if v = [] then [] else [scalar k, scalar v])"

definition sorted_components :: "components \<Rightarrow> components" where
  "sorted_components cs = stable_sort (\<lambda>a b. fst a < fst b) cs"

definition ruleToNode :: "pattern_rule \<Rightarrow> node" where
  "ruleToNode r = Node MappingNode [] []
     (str_pair ''id'' (pr_ID r) @ str_pair ''description'' (pr_Description r)
      @ (if pr_Priority r = 0 then [] else [scalar ''priority'', scalar (itoa (pr_Priority r))])
      @ [scalar ''match'', Node MappingNode [] []
           ([scalar ''pattern'', scalar (pr_Pattern r)]
            @ (if pr_Components r \<noteq> [] then
                 [scalar ''components'', Node MappingNode [] []
                    (concat (map (\<lambda>(k, v). [scalar k, scalar v]) (sorted_components (pr_Components r))))] else [])
            @ (if pr_Method r \<noteq> [] then [scalar ''method'', scalar (pr_Method r)] else []))]
      @ str_pair ''effect'' (pr_Effect r))"

fun has_id :: "string \<Rightarrow> node list \<Rightarrow> bool" where
  "has_id rid (k # v # rest) \<longleftrightarrow> n_value k = ''id'' \<and> n_value v = rid \<or> has_id rid rest"
| "has_id rid _ \<longleftrightarrow> False"

definition append_rule :: "pattern_rule \<Rightarrow> node list \<Rightarrow> (write_error + node list option)" where
  "append_rule r root =
     (case (case root of [] \<Rightarrow> Some (Node SequenceNode [] [] [], [])
                       | d # rest \<Rightarrow> if n_kind d = SequenceNode then Some (d, rest) else None) of
        None \<Rightarrow> Inl (NotSequence [])
      | Some (q, rest) \<Rightarrow>
          if list_ex (\<lambda>item. n_kind item = MappingNode \<and> has_id (pr_ID r) (n_content item)) (n_content q) then Inr None
          else Inr (Some (with_content q (n_content q @ [ruleToNode r]) # rest)))"

definition appendPatternRule ::
    "yaml_env \<Rightarrow> bool \<Rightarrow> string \<Rightarrow> pattern_rule \<Rightarrow> files \<Rightarrow> files \<times> write_error option \<times> bool" where
  "appendPatternRule y ok path r fs =
     (case fs path of
        None \<Rightarrow> (fs, Some (ReadError path), False)
      | Some data \<Rightarrow>
          (case ye_parse y data of
             None \<Rightarrow> (fs, Some (ParseError path), False)
           | Some root \<Rightarrow>
               (case append_rule r root of
                  Inl _ \<Rightarrow> (fs, Some (NotSequence path), False)
                | Inr None \<Rightarrow> (fs, None, False)
                | Inr (Some root') \<Rightarrow>
                    (case ye_encode y root' of
                       None \<Rightarrow> (fs, Some EncodeError, False)
                     | Some out \<Rightarrow> (case atomicWrite ok path out fs of
                         (fs', Some e) \<Rightarrow> (fs', Some e, False) | (fs', None) \<Rightarrow> (fs', None, True))))))"

text \<open>The result: the files, the error, whether the rule and whether the list changed.\<close>

definition AcceptPatternSuggestion ::
    "yaml_env \<Rightarrow> bool \<Rightarrow> bool \<Rightarrow> string \<Rightarrow> string \<Rightarrow> string \<Rightarrow> pattern_rule \<Rightarrow> string list \<Rightarrow> files
     \<Rightarrow> files \<times> write_error option \<times> bool \<times> bool" where
  "AcceptPatternSuggestion y ok1 ok2 rulesPath listsPath l r sources fs =
     (if rulesPath = [] then (fs, Some EmptyRulesPath, False, False)
      else if pr_ID r = [] then (fs, Some EmptyRuleID, False, False)
      else if pr_Pattern r = [] then (fs, Some EmptyPattern, False, False)
      else if pr_Effect r \<notin> {''allow'', ''deny'', ''ask_user'', ''ask_llm''}
      then (fs, Some (BadRuleEffect (pr_Effect r)), False, False)
      else if l \<noteq> ''allow'' \<and> l \<noteq> ''deny'' then (fs, Some (UnknownList l), False, False)
      else (case appendPatternRule y ok1 rulesPath r fs of
          (fs1, Some e, _) \<Rightarrow> (fs1, Some e, False, False)
        | (fs1, None, ruleChanged) \<Rightarrow>
            if sources = [] then (fs1, None, ruleChanged, False)
            else (case mutate y ok2 listsPath l (drop_sources sources) fs1 of
                (fs2, Some e, _) \<Rightarrow> (fs2, Some e, ruleChanged, False)
              | (fs2, None, ch) \<Rightarrow> (fs2, None, ruleChanged, ch))))"

section \<open>Children of a mapping\<close>

definition get_child :: "string \<Rightarrow> node \<Rightarrow> node option" where
  "get_child key p = map_option (\<lambda>i. n_content p ! i) (find_pair key (n_content p))"

lemma with_content_simps [simp]:
  "n_content (with_content n cs) = cs" "n_kind (with_content n cs) = n_kind n"
  by (simp_all add: with_content_def)

lemma find_pair_less: "find_pair key cs = Some i \<Longrightarrow> i < length cs \<and> odd i"
  by (induction key cs arbitrary: i rule: find_pair.induct) (auto split: if_splits)

lemma find_pair_update: "odd i \<Longrightarrow> find_pair key (cs[i := x]) = find_pair key cs"
proof (induction key cs arbitrary: i rule: find_pair.induct)
  fix key k v and i :: nat and rest :: "node list"
  assume IH: "\<And>i :: nat. n_value k \<noteq> key \<Longrightarrow> odd i \<Longrightarrow> find_pair key (rest[i := x]) = find_pair key rest" and odd: "odd i"
  show "find_pair key ((k # v # rest)[i := x]) = find_pair key (k # v # rest)"
  proof (cases "i = 1")
    case False
    with odd obtain j where "i = Suc (Suc j)" "odd j"
      by (metis One_nat_def even_zero not0_implies_Suc odd_Suc_div_two even_Suc)
    with IH show ?thesis by simp
  qed simp
next
  fix key v and i :: nat
  assume "odd i"
  then show "find_pair key ([v][i := x]) = find_pair key [v]" by (cases i) auto
qed simp

lemma find_pair_value: "find_pair k cs = Some i \<Longrightarrow> find_pair key (cs[i := x]) = find_pair key cs"
  by (simp add: find_pair_less find_pair_update)

lemma find_pair_append:
  "even (length cs) \<Longrightarrow> find_pair key (cs @ [a, b]) =
     (case find_pair key cs of Some i \<Rightarrow> Some i | None \<Rightarrow> if n_value a = key then Some (length cs + 1) else None)"
  by (induction key cs rule: find_pair.induct) (auto split: option.split)

lemma find_pair_inj:
  "find_pair k cs = Some i \<Longrightarrow> find_pair k' cs = Some i \<Longrightarrow> k = k'"
  by (induction k cs arbitrary: i rule: find_pair.induct) (auto split: if_splits)

text \<open>What \<open>ensure_child\<close> leaves behind: the child in the wanted shape, every other child as it was.\<close>

lemma ensure_child_spec:
  assumes e: "ensure_child kd key comment p = (p', i, created)" and even: "even (length (n_content p))"
  shows "find_pair key (n_content p') = Some i" "i < length (n_content p')" "odd i" "even (length (n_content p'))"
    "n_content p' ! i = (case get_child key p of None \<Rightarrow> Node kd [] [] [] | Some c \<Rightarrow> coerce_kind kd c)"
    "k \<noteq> key \<Longrightarrow> get_child k p' = get_child k p" "created \<longleftrightarrow> get_child key p = None" "n_kind p' = n_kind p"
proof -
  have "find_pair key (n_content p') = Some i \<and> i < length (n_content p') \<and> odd i \<and> even (length (n_content p'))
    \<and> n_content p' ! i = (case get_child key p of None \<Rightarrow> Node kd [] [] [] | Some c \<Rightarrow> coerce_kind kd c)
    \<and> (k \<noteq> key \<longrightarrow> get_child k p' = get_child k p) \<and> created = (get_child key p = None) \<and> n_kind p' = n_kind p" for k
  proof (cases "find_pair key (n_content p)")
    case (Some j)
    then have old: "find_pair key (n_content p) = Some j"
      "p' = with_content p ((n_content p)[j := coerce_kind kd (n_content p ! j)])" "i = j" "\<not> created"
      using e by (auto simp: ensure_child_def)
    have "find_pair k (n_content p) \<noteq> Some j" if "k \<noteq> key" using find_pair_inj old(1) that by blast
    then have "get_child k p' = get_child k p" if "k \<noteq> key"
      using old that by (cases "find_pair k (n_content p)") (auto simp: get_child_def find_pair_value)
    with old find_pair_less [OF old(1)] even show ?thesis by (simp add: get_child_def find_pair_value)
  next
    case None
    then have new: "find_pair key (n_content p) = None"
      "p' = with_content p (n_content p @ [Node ScalarNode key comment [], Node kd [] [] []])"
      "i = length (n_content p) + 1" created
      using e by (auto simp: ensure_child_def)
    have "get_child k p' = get_child k p" if "k \<noteq> key"
      using new(2) that even
      by (cases "find_pair k (n_content p)") (auto simp: get_child_def find_pair_append nth_append dest: find_pair_less)
    with new even show ?thesis by (simp add: get_child_def find_pair_append nth_append)
  qed
  then show "find_pair key (n_content p') = Some i" "i < length (n_content p')" "odd i" "even (length (n_content p'))"
    "n_content p' ! i = (case get_child key p of None \<Rightarrow> Node kd [] [] [] | Some c \<Rightarrow> coerce_kind kd c)"
    "k \<noteq> key \<Longrightarrow> get_child k p' = get_child k p" "created \<longleftrightarrow> get_child key p = None" "n_kind p' = n_kind p"
    by blast+
qed

lemma set_child_spec:
  assumes "find_pair key (n_content p) = Some i"
  shows "get_child k (set_child p i c) = (if k = key then Some c else get_child k p)"
    "length (n_content (set_child p i c)) = length (n_content p)" "n_kind (set_child p i c) = n_kind p"
proof -
  have "find_pair k (n_content p) \<noteq> Some i" if "k \<noteq> key" using find_pair_inj assms that by blast
  then have "get_child k (set_child p i c) = get_child k p" if "k \<noteq> key"
    using assms that
    by (cases "find_pair k (n_content p)") (auto simp: set_child_def get_child_def find_pair_value)
  moreover have "get_child key (set_child p i c) = Some c"
    using assms find_pair_less [OF assms] by (simp add: set_child_def get_child_def find_pair_value)
  ultimately show "get_child k (set_child p i c) = (if k = key then Some c else get_child k p)" by simp
  show "length (n_content (set_child p i c)) = length (n_content p)" "n_kind (set_child p i c) = n_kind p"
    by (simp_all add: set_child_def)
qed

section \<open>The lists of a document\<close>

definition lists_node :: "node \<Rightarrow> node option" where
  "lists_node doc = (case get_child ''lists'' doc of Some l \<Rightarrow> if n_kind l = MappingNode then Some l else None | None \<Rightarrow> None)"

definition list_of :: "string \<Rightarrow> node \<Rightarrow> string list" where
  "list_of which doc =
     (case lists_node doc of
        None \<Rightarrow> []
      | Some l \<Rightarrow> (case get_child which l of
          None \<Rightarrow> []
        | Some q \<Rightarrow> if n_kind q = SequenceNode then stringsFromSeq q else []))"

text \<open>Mappings have keys and values in pairs.\<close>

definition doc_ok :: "node \<Rightarrow> bool" where
  "doc_ok doc \<longleftrightarrow> even (length (n_content doc))
     \<and> (\<forall>l. lists_node doc = Some l \<longrightarrow> even (length (n_content l)))"

lemma stringsFromSeq_replace [simp]: "stringsFromSeq (replaceSeqContent q es) = es"
  by (induction es) (auto simp: stringsFromSeq_def replaceSeqContent_def scalar_def)

lemma coerce_kind_simps [simp]:
  "n_kind (coerce_kind kd v) = kd" "n_content (coerce_kind kd v) = (if n_kind v = kd then n_content v else [])"
  by (simp_all add: coerce_kind_def)

text \<open>The part every edit shares: the \<open>lists\<close> mapping and one child of it are put in place and the
  child is replaced.\<close>

lemma nested_edit:
  assumes ok: "doc_ok doc"
    and e1: "ensure_child MappingNode ''lists'' c1 doc = (doc1, i, b1)"
    and e2: "ensure_child SequenceNode which c2 (n_content doc1 ! i) = (lists1, j, b2)"
  defines "new \<equiv> \<lambda>q. set_child doc1 i (set_child lists1 j q)"
  shows "stringsFromSeq (n_content lists1 ! j) = list_of which doc"
    "n_kind (n_content lists1 ! j) = SequenceNode"
    "n_kind q = SequenceNode \<Longrightarrow> list_of which (new q) = stringsFromSeq q"
    "other \<noteq> which \<Longrightarrow> list_of other (new q) = list_of other doc"
    "key \<noteq> ''lists'' \<Longrightarrow> get_child key (new q) = get_child key doc"
    "doc_ok (new q)" "n_kind (new q) = n_kind doc"
proof -
  have even: "even (length (n_content doc))" using ok by (simp add: doc_ok_def)
  note s1 = ensure_child_spec [OF e1 even]
  let ?l = "n_content doc1 ! i"
  have l: "?l = (case get_child ''lists'' doc of None \<Rightarrow> Node MappingNode [] [] [] | Some c \<Rightarrow> coerce_kind MappingNode c)"
    by (rule s1(5))
  have lm: "n_kind ?l = MappingNode" using l by (auto split: option.splits)
  have evl: "even (length (n_content ?l))"
    using ok l by (auto simp: doc_ok_def lists_node_def split: option.splits)
  note s2 = ensure_child_spec [OF e2 evl]
  have child: "get_child k ?l = (case lists_node doc of None \<Rightarrow> None | Some l \<Rightarrow> get_child k l)" for k
    using l by (auto simp: lists_node_def get_child_def coerce_kind_def split: option.splits)
  show "stringsFromSeq (n_content lists1 ! j) = list_of which doc" "n_kind (n_content lists1 ! j) = SequenceNode"
    using s2(5) child [of which]
    by (auto simp: list_of_def stringsFromSeq_def coerce_kind_def split: option.splits)
  have ln: "lists_node (new q) = Some (set_child lists1 j q)" for q
    using set_child_spec [OF s1(1)] set_child_spec(3) [OF s2(1)] s2(8) lm by (simp add: new_def lists_node_def)
  show "n_kind q = SequenceNode \<Longrightarrow> list_of which (new q) = stringsFromSeq q"
    using set_child_spec(1) [OF s2(1)] by (simp add: list_of_def ln)
  show "other \<noteq> which \<Longrightarrow> list_of other (new q) = list_of other doc"
    using set_child_spec(1) [OF s2(1), of other q] s2(6) [of other] child [of other]
    by (simp add: list_of_def ln split: option.splits)
  show "key \<noteq> ''lists'' \<Longrightarrow> get_child key (new q) = get_child key doc"
    using set_child_spec(1) [OF s1(1)] s1(6) by (simp add: new_def)
  show "doc_ok (new q)"
    using ln set_child_spec(2) [OF s1(1)] set_child_spec(2) [OF s2(1)] s1(4) s2(4) by (simp add: doc_ok_def new_def)
  show "n_kind (new q) = n_kind doc"
    using set_child_spec(3) [OF s1(1)] s1(8) by (simp add: new_def)
qed

text \<open>An edited document: one list changed, everything else as it was.\<close>

definition edited :: "string \<Rightarrow> string list \<Rightarrow> node \<Rightarrow> node \<Rightarrow> bool" where
  "edited which es doc doc' \<longleftrightarrow>
     list_of which doc' = es \<and> (\<forall>other. other \<noteq> which \<longrightarrow> list_of other doc' = list_of other doc)
     \<and> (\<forall>key. key \<noteq> ''lists'' \<longrightarrow> get_child key doc' = get_child key doc)
     \<and> doc_ok doc' \<and> n_kind doc' = n_kind doc"

lemma edit_list_spec:
  assumes "doc_ok doc"
  shows "case edit_list which f doc of
      None \<Rightarrow> f (list_of which doc) = list_of which doc
    | Some doc' \<Rightarrow> edited which (f (list_of which doc)) doc doc' \<and> f (list_of which doc) \<noteq> list_of which doc"
proof -
  obtain doc1 i b1 where e1: "ensure_child MappingNode ''lists'' [] doc = (doc1, i, b1)"
    by (cases "ensure_child MappingNode ''lists'' [] doc") auto
  obtain lists1 j b2 where e2: "ensure_child SequenceNode which [] (n_content doc1 ! i) = (lists1, j, b2)"
    by (cases "ensure_child SequenceNode which [] (n_content doc1 ! i)") auto
  note n = nested_edit [OF assms e1 e2]
  have k: "n_kind (replaceSeqContent (n_content lists1 ! j) es) = SequenceNode" for es
    using n(2) by (simp add: replaceSeqContent_def)
  show ?thesis
    using n(1,4-7) n(3) [OF k]
    by (auto simp: edit_list_def findOrCreateMappingChild_def findOrCreateSeqChild_def e1 e2 Let_def edited_def)
qed

section \<open>Edits of a file\<close>

text \<open>What the edits rely on in the YAML library: what is printed reads back, and blank lines do not
  matter.\<close>

definition yaml_roundtrip :: "yaml_env \<Rightarrow> bool" where
  "yaml_roundtrip y \<longleftrightarrow> (\<forall>root out data. ye_encode y root = Some out \<longrightarrow>
     ye_parse y (reinsertBlankLines out (captureBlankLines data)) = Some root)"

lemma edited_same: "doc_ok doc \<Longrightarrow> edited which (list_of which doc) doc doc"
  by (simp add: edited_def)

lemma edited_trans:
  "edited w1 e1 a b \<Longrightarrow> edited w2 e2 b c \<Longrightarrow> w1 \<noteq> w2 \<Longrightarrow>
   list_of w1 c = e1 \<and> list_of w2 c = e2 \<and> (\<forall>other. other \<notin> {w1, w2} \<longrightarrow> list_of other c = list_of other a)
   \<and> (\<forall>key. key \<noteq> ''lists'' \<longrightarrow> get_child key c = get_child key a)"
  by (simp add: edited_def)

lemma save_document_ok:
  assumes "save_document y ok path data (doc' # rest) fs = (fs', None, ch)" "yaml_roundtrip y"
    and "n_kind doc' = MappingNode"
  shows "\<exists>data'. load_document y path fs' = Inr (data', doc', rest)" "ch"
  using assms
  by (auto simp: save_document_def load_document_def atomicWrite_def yaml_roundtrip_def split: option.splits if_splits)

lemma save_document_frame:
  "save_document y ok path data root fs = (fs', err, ch) \<Longrightarrow> p \<noteq> path \<Longrightarrow> fs' p = fs p"
  "save_document y ok path data root fs = (fs', Some e, ch) \<Longrightarrow> fs' = fs"
  by (auto simp: save_document_def atomicWrite_def split: option.splits if_splits)

lemma load_document_mapping: "load_document y path fs = Inr (data, doc, rest) \<Longrightarrow> n_kind doc = MappingNode"
  by (auto simp: load_document_def split: option.splits list.splits if_splits)

lemma mutate_spec:
  assumes y: "yaml_roundtrip y" and ld: "load_document y path fs = Inr (data, doc, rest)" and ok: "doc_ok doc"
    and m: "mutate y w path which f fs = (fs', None, ch)"
  shows "\<exists>data' doc'. load_document y path fs' = Inr (data', doc', rest)
    \<and> edited which (f (list_of which doc)) doc doc' \<and> ch = (f (list_of which doc) \<noteq> list_of which doc)"
proof (cases "edit_list which f doc")
  case None
  then have "f (list_of which doc) = list_of which doc" using edit_list_spec [OF ok, where which = which and f = f] by simp
  with m ld None edited_same [OF ok, of which] show ?thesis by (simp add: mutate_def)
next
  case (Some doc')
  then have ed: "edited which (f (list_of which doc)) doc doc'" and ne: "f (list_of which doc) \<noteq> list_of which doc"
    using edit_list_spec [OF ok, where which = which and f = f] by simp_all
  have s: "save_document y w path data (doc' # rest) fs = (fs', None, ch)" using m ld Some by (simp add: mutate_def)
  have "n_kind doc' = MappingNode" using ed load_document_mapping [OF ld] by (simp add: edited_def)
  note sv = save_document_ok [OF s y this]
  show ?thesis using sv ed ne by blast
qed

lemma mutate_fails: "mutate y w path which f fs = (fs', Some e, ch) \<Longrightarrow> fs' = fs"
  by (auto simp: mutate_def split: sum.splits option.splits dest: save_document_frame(2))

lemma set_insertSorted: "trim_space pat \<noteq> [] \<Longrightarrow> set (insertSorted es pat) = insert (trim_space pat) (set es)"
  by (auto simp: insertSorted_def sort_strings_def Let_def)

text \<open>Remove from one list, then add to the other.\<close>

lemma consolidate:
  assumes y: "yaml_roundtrip y" and ld: "load_document y path fs = Inr (data, doc, rest)" and ok: "doc_ok doc"
    and pat: "trim_space pat \<noteq> []" and "opposite \<noteq> target"
    and r: "mutate y w1 path opposite (\<lambda>es. remove_entry es pat) fs = (fs1, None, c1)"
    and a: "mutate y w2 path target (\<lambda>es. insertSorted es pat) fs1 = (fs', None, c2)"
  shows "\<exists>data' doc'. load_document y path fs' = Inr (data', doc', rest)
    \<and> set (list_of target doc') = insert (trim_space pat) (set (list_of target doc))
    \<and> list_of opposite doc' = filter (\<lambda>e. e \<noteq> trim_space pat) (list_of opposite doc)
    \<and> (\<forall>other. other \<notin> {target, opposite} \<longrightarrow> list_of other doc' = list_of other doc)
    \<and> (\<forall>key. key \<noteq> ''lists'' \<longrightarrow> get_child key doc' = get_child key doc)"
proof -
  obtain d1 doc1 where 1: "load_document y path fs1 = Inr (d1, doc1, rest)"
    "edited opposite (remove_entry (list_of opposite doc) pat) doc doc1"
    using mutate_spec [OF y ld ok r] by blast
  have "doc_ok doc1" using 1(2) by (simp add: edited_def)
  then obtain d2 doc2 where 2: "load_document y path fs' = Inr (d2, doc2, rest)"
    "edited target (insertSorted (list_of target doc1) pat) doc1 doc2"
    using mutate_spec [OF y 1(1) _ a] by blast
  have "list_of target doc1 = list_of target doc" using 1(2) assms(5) by (simp add: edited_def)
  then show ?thesis
    using edited_trans [OF 1(2) 2(2) assms(5)] 2(1) set_insertSorted [OF pat]
    by (intro exI [of _ d2] exI [of _ doc2]) (auto simp: remove_entry_def Let_def)
qed

lemma OperatorApprove_steps:
  "OperatorApprove y w1 w2 path pat fs = (fs', (None, c1), (None, c2)) \<Longrightarrow>
   \<exists>fs1. mutate y w1 path ''deny'' (\<lambda>es. remove_entry es pat) fs = (fs1, None, c1)
     \<and> mutate y w2 path ''allow'' (\<lambda>es. insertSorted es pat) fs1 = (fs', None, c2)"
  "OperatorDeny y w1 w2 path pat fs = (fs', (None, c1), (None, c2)) \<Longrightarrow>
   \<exists>fs1. mutate y w1 path ''allow'' (\<lambda>es. remove_entry es pat) fs = (fs1, None, c1)
     \<and> mutate y w2 path ''deny'' (\<lambda>es. insertSorted es pat) fs1 = (fs', None, c2)"
  by (auto simp: OperatorApprove_def OperatorDeny_def RemoveDeny_def RemoveAllow_def AddAllow_def AddDeny_def
      split: prod.splits)

text \<open>
  An operator's allow decision is consolidated. When both writes succeed, reading the file
  back gives an allow list with the pattern and all its former entries, a deny list without the
  pattern and otherwise as it was, and every other list, section and document untouched.
\<close>

lemma OperatorApprove_consolidates:
  assumes "yaml_roundtrip y" and "load_document y path fs = Inr (data, doc, rest)" and "doc_ok doc"
    and "trim_space pat \<noteq> []" and "OperatorApprove y w1 w2 path pat fs = (fs', (None, c1), (None, c2))"
  shows "\<exists>data' doc'. load_document y path fs' = Inr (data', doc', rest)
    \<and> set (list_of ''allow'' doc') = insert (trim_space pat) (set (list_of ''allow'' doc))
    \<and> list_of ''deny'' doc' = filter (\<lambda>e. e \<noteq> trim_space pat) (list_of ''deny'' doc)
    \<and> (\<forall>other. other \<notin> {''allow'', ''deny''} \<longrightarrow> list_of other doc' = list_of other doc)
    \<and> (\<forall>key. key \<noteq> ''lists'' \<longrightarrow> get_child key doc' = get_child key doc)"
proof -
  obtain fs1 where "mutate y w1 path ''deny'' (\<lambda>es. remove_entry es pat) fs = (fs1, None, c1)"
    "mutate y w2 path ''allow'' (\<lambda>es. insertSorted es pat) fs1 = (fs', None, c2)"
    using OperatorApprove_steps(1) [OF assms(5)] by blast
  then show ?thesis by (rule consolidate [OF assms(1-4), rotated]) simp
qed

text \<open>A YAML library for examples: two documents can be printed, each as one character.\<close>

definition demo_yaml :: "node \<Rightarrow> node \<Rightarrow> node \<Rightarrow> yaml_env" where
  "demo_yaml d0 d1 d2 = \<lparr>
     ye_parse = (\<lambda>s. if s = [] then None else if last s = CHR ''1'' then Some [d1]
       else if last s = CHR ''2'' then Some [d2] else Some [d0]),
     ye_encode = (\<lambda>root. if root = [d1] then Some ''1'' else if root = [d2] then Some ''2'' else None)\<rparr>"

lemma join_with_last: "y \<noteq> [] \<Longrightarrow> join_with sep (xs @ [y]) \<noteq> [] \<and> last (join_with sep (xs @ [y])) = last y"
proof (induction xs)
  case (Cons x xs)
  then show ?case by (cases "xs @ [y]") auto
qed simp

lemma reinsert_single: "c \<noteq> NL \<Longrightarrow> reinsertBlankLines [c] as \<noteq> [] \<and> last (reinsertBlankLines [c] as) = c"
proof -
  assume "c \<noteq> NL"
  then have "split_on NL [c] = [[c]]" by simp
  moreover have "\<exists>xs. reinsert_lines [[c]] as = xs @ [[c]]"
    by (cases as; cases "hd as") auto
  ultimately show ?thesis
    using join_with_last [of "[c]" "[NL]"] by (auto simp: reinsertBlankLines_def)
qed

lemma demo_roundtrip: "yaml_roundtrip (demo_yaml d0 d1 d2)"
proof -
  have "CHR ''1'' \<noteq> NL" "CHR ''2'' \<noteq> NL" by code_simp+
  then show ?thesis using reinsert_single by (simp add: yaml_roundtrip_def demo_yaml_def)
qed

definition lists_doc :: "string list \<Rightarrow> string list \<Rightarrow> node" where
  "lists_doc allow deny = Node MappingNode [] []
     [scalar ''mode'', scalar ''default-ask'',
      scalar ''lists'', Node MappingNode [] []
        [scalar ''allow'', Node SequenceNode [] [] (map scalar allow),
         scalar ''deny'', Node SequenceNode [] [] (map scalar deny)]]"

lemma lists_doc_ok: "doc_ok (lists_doc allow deny)"
  by (simp add: doc_ok_def lists_node_def get_child_def lists_doc_def scalar_def)

lemma lists_doc_lists: "list_of ''allow'' (lists_doc allow deny) = allow" "list_of ''deny'' (lists_doc allow deny) = deny"
  by (simp_all add: list_of_def lists_node_def get_child_def lists_doc_def scalar_def stringsFromSeq_def comp_def)

lemma demo_load:
  "load_document (demo_yaml (lists_doc a d) d1 d2) ''f'' [''f'' \<mapsto> ''0''] = Inr (''0'', lists_doc a d, [])"
  by (simp add: load_document_def demo_yaml_def lists_doc_def)

lemma OperatorApprove_consolidates_example:
  "\<exists>fs' data' doc'. load_document (demo_yaml (lists_doc [''b.com''] [''a.com'', ''c.com''])
        (lists_doc [''b.com''] [''c.com'']) (lists_doc [''a.com'', ''b.com''] [''c.com''])) ''f'' fs' = Inr (data', doc', [])
     \<and> set (list_of ''allow'' doc') = {''a.com'', ''b.com''} \<and> list_of ''deny'' doc' = [''c.com'']"
proof -
  let ?y = "demo_yaml (lists_doc [''b.com''] [''a.com'', ''c.com''])
    (lists_doc [''b.com''] [''c.com'']) (lists_doc [''a.com'', ''b.com''] [''c.com''])"
  have "snd (OperatorApprove ?y True True ''f'' ''a.com'' [''f'' \<mapsto> ''0'']) = ((None, True), (None, True))"
    by code_simp
  then obtain fs' where r: "OperatorApprove ?y True True ''f'' ''a.com'' [''f'' \<mapsto> ''0''] = (fs', (None, True), (None, True))"
    by (cases "OperatorApprove ?y True True ''f'' ''a.com'' [''f'' \<mapsto> ''0'']") auto
  have t: "trim_space ''a.com'' = ''a.com''" by code_simp
  from OperatorApprove_consolidates [OF demo_roundtrip demo_load lists_doc_ok _ r] t show ?thesis
    by (auto simp: lists_doc_lists)
qed

section \<open>An accepted generalization\<close>

text \<open>A list read as the loader reads it.\<close>

definition list_hits :: "string list \<Rightarrow> list_request \<Rightarrow> bool" where
  "list_hits es r \<longleftrightarrow> (\<exists>e \<in> set es. \<not> skipped_line (trim_space e) \<and> entry_hits (strip_comment (trim_space e)) r)"

definition clean_entry :: "string \<Rightarrow> bool" where
  "clean_entry e \<longleftrightarrow> trim_space e = e \<and> strip_comment e = e \<and> \<not> skipped_line e"

lemma list_hits_clean: "\<forall>e \<in> set es. clean_entry e \<Longrightarrow> list_hits es r \<longleftrightarrow> (\<exists>e \<in> set es. entry_hits e r)"
  by (auto simp: list_hits_def clean_entry_def)

lemma generalize_entries_set:
  assumes "clean_entry pat"
  shows "set (generalize_entries pat sources es)
    = insert pat {e \<in> set es. trim_space e \<notin> trim_space ` set sources \<and> \<not> Subsumes pat e}"
proof -
  have "trim_space pat = pat" "pat \<noteq> []" using assms by (auto simp: clean_entry_def skipped_line_def)
  then show ?thesis by (auto simp: generalize_entries_def set_insertSorted)
qed



section \<open>Declined suggestions stay declined\<close>

definition row_set :: "node \<Rightarrow> string list option" where
  "row_set row =
     (if n_kind row \<noteq> MappingNode then None
      else case row_sources (n_content row) of
        None \<Rightarrow> None
      | Some q \<Rightarrow> if n_kind q = SequenceNode then Some (sort_strings (stringsFromSeq q)) else None)"

definition declined_sets :: "node \<Rightarrow> string list set" where
  "declined_sets doc =
     (case lists_node doc of
        None \<Rightarrow> {}
      | Some l \<Rightarrow> (case get_child ''declined_suggestions'' l of
          None \<Rightarrow> {}
        | Some q \<Rightarrow> if n_kind q = SequenceNode then {ss. Some ss \<in> row_set ` set (n_content q)} else {}))"

lemma same_row_set:
  "n_kind row = MappingNode \<and> sameCanonicalSourceEntries row ss \<longleftrightarrow> row_set row = Some ss"
  by (auto simp: row_set_def sameCanonicalSourceEntries_def split: option.splits)

lemma strings_scalars [simp]: "stringsFromSeq (Node kd v c (map scalar es)) = es"
  by (induction es) (auto simp: stringsFromSeq_def scalar_def)

lemma buildDeclinedRow_set: "row_set (buildDeclinedRow d) = Some (sort_strings (dc_SourceEntries d))"
  by (simp add: row_set_def buildDeclinedRow_def scalar_def)

text \<open>Like \<open>nested_edit\<close>, for the rows.\<close>

lemma declined_edit:
  assumes ok: "doc_ok doc"
    and e1: "ensure_child MappingNode ''lists'' c1 doc = (doc1, i, b1)"
    and e2: "ensure_child SequenceNode ''declined_suggestions'' c2 (n_content doc1 ! i) = (lists1, j, b2)"
  shows "declined_sets doc = {ss. Some ss \<in> row_set ` set (n_content (n_content lists1 ! j))}"
    "n_kind q = SequenceNode \<Longrightarrow> declined_sets (set_child doc1 i (set_child lists1 j q)) = {ss. Some ss \<in> row_set ` set (n_content q)}"
    "b2 \<Longrightarrow> n_content (n_content lists1 ! j) = []"
proof -
  have even: "even (length (n_content doc))" using ok by (simp add: doc_ok_def)
  note s1 = ensure_child_spec [OF e1 even]
  let ?l = "n_content doc1 ! i"
  have l: "?l = (case get_child ''lists'' doc of None \<Rightarrow> Node MappingNode [] [] [] | Some c \<Rightarrow> coerce_kind MappingNode c)"
    by (rule s1(5))
  have lm: "n_kind ?l = MappingNode" using l by (auto split: option.splits)
  have evl: "even (length (n_content ?l))"
    using ok l by (auto simp: doc_ok_def lists_node_def split: option.splits)
  note s2 = ensure_child_spec [OF e2 evl]
  have child: "get_child k ?l = (case lists_node doc of None \<Rightarrow> None | Some l \<Rightarrow> get_child k l)" for k
    using l by (auto simp: lists_node_def get_child_def coerce_kind_def split: option.splits)
  show "declined_sets doc = {ss. Some ss \<in> row_set ` set (n_content (n_content lists1 ! j))}"
    using s2(5) child [of "''declined_suggestions''"]
    by (auto simp: declined_sets_def coerce_kind_def split: option.splits)
  show "b2 \<Longrightarrow> n_content (n_content lists1 ! j) = []" using s2(5,7) by simp
  have "lists_node (set_child doc1 i (set_child lists1 j q)) = Some (set_child lists1 j q)" for q
    using set_child_spec [OF s1(1)] set_child_spec(3) [OF s2(1)] s2(8) lm by (simp add: lists_node_def)
  then show "n_kind q = SequenceNode \<Longrightarrow> declined_sets (set_child doc1 i (set_child lists1 j q)) = {ss. Some ss \<in> row_set ` set (n_content q)}"
    using set_child_spec(1) [OF s2(1)] by (simp add: declined_sets_def)
qed

lemma add_declined_row_spec:
  assumes "doc_ok doc" "sort_strings (dc_SourceEntries d) = dc_SourceEntries d"
  shows "case add_declined_row d doc of
      None \<Rightarrow> dc_SourceEntries d \<in> declined_sets doc
    | Some doc' \<Rightarrow> declined_sets doc' = insert (dc_SourceEntries d) (declined_sets doc)
        \<and> dc_SourceEntries d \<notin> declined_sets doc
        \<and> (\<forall>other. other \<noteq> ''declined_suggestions'' \<longrightarrow> list_of other doc' = list_of other doc)
        \<and> (\<forall>key. key \<noteq> ''lists'' \<longrightarrow> get_child key doc' = get_child key doc)
        \<and> n_kind doc' = n_kind doc"
proof -
  obtain doc1 i b1 where e1: "ensure_child MappingNode ''lists'' [] doc = (doc1, i, b1)"
    by (cases "ensure_child MappingNode ''lists'' [] doc") auto
  obtain lists1 j b2 where e2: "ensure_child SequenceNode ''declined_suggestions'' declined_comment (n_content doc1 ! i)
      = (lists1, j, b2)"
    by (cases "ensure_child SequenceNode ''declined_suggestions'' declined_comment (n_content doc1 ! i)") auto
  note n = nested_edit [OF assms(1) e1 e2] and de = declined_edit [OF assms(1) e1 e2]
  let ?q = "n_content lists1 ! j"
  have hit: "list_ex (\<lambda>row. n_kind row = MappingNode \<and> sameCanonicalSourceEntries row (dc_SourceEntries d)) (n_content ?q)
      \<longleftrightarrow> dc_SourceEntries d \<in> declined_sets doc"
    unfolding same_row_set de(1) by (force simp: list_ex_iff)
  have new: "row_set (buildDeclinedRow d) = Some (dc_SourceEntries d)" by (simp add: buildDeclinedRow_set assms(2))
  have fresh: "b2 \<Longrightarrow> dc_SourceEntries d \<notin> declined_sets doc" using de(1,3) by auto
  have k: "n_kind (with_content ?q cs) = SequenceNode" for cs using n(2) by simp
  show ?thesis
    using n(4,5,7) de(1) de(2) [OF k] hit fresh
    by (auto simp: add_declined_row_def findOrCreateMappingChild_def findOrCreateSeqChildWithComment_def e1 e2 Let_def new)
qed

text \<open>
  A decline is remembered once. A successful \<open>AddDeclinedSuggestion\<close> leaves a file whose
  declined rows are the former ones and the sorted source entries; the file changes only if
  that set was not there, so declining twice writes one row; the allow and deny lists and the other
  sections are untouched.
\<close>

lemma decline_remembered:
  assumes "yaml_roundtrip y" and "load_document y path fs = Inr (data, doc, rest)" and "doc_ok doc"
    and "AddDeclinedSuggestion y w path d fs = (fs', None, ch)"
  shows "\<exists>data' doc'. load_document y path fs' = Inr (data', doc', rest)
    \<and> declined_sets doc' = insert (sort_strings (dc_SourceEntries d)) (declined_sets doc)
    \<and> ch = (sort_strings (dc_SourceEntries d) \<notin> declined_sets doc)
    \<and> (\<forall>other. other \<noteq> ''declined_suggestions'' \<longrightarrow> list_of other doc' = list_of other doc)
    \<and> (\<forall>key. key \<noteq> ''lists'' \<longrightarrow> get_child key doc' = get_child key doc)"
proof -
  let ?d = "d\<lparr>dc_SourceEntries := sort_strings (dc_SourceEntries d)\<rparr>"
  have sp: "case add_declined_row ?d doc of
      None \<Rightarrow> dc_SourceEntries ?d \<in> declined_sets doc
    | Some doc' \<Rightarrow> declined_sets doc' = insert (dc_SourceEntries ?d) (declined_sets doc)
        \<and> dc_SourceEntries ?d \<notin> declined_sets doc
        \<and> (\<forall>other. other \<noteq> ''declined_suggestions'' \<longrightarrow> list_of other doc' = list_of other doc)
        \<and> (\<forall>key. key \<noteq> ''lists'' \<longrightarrow> get_child key doc' = get_child key doc)
        \<and> n_kind doc' = n_kind doc"
    by (rule add_declined_row_spec [OF assms(3)]) simp
  show ?thesis
  proof (cases "add_declined_row ?d doc")
    case None
    then show ?thesis
      using sp assms(2,4) by (auto simp: AddDeclinedSuggestion_def Let_def insert_absorb split: if_splits)
  next
    case (Some doc')
    then have sv: "save_document y w path data (doc' # rest) fs = (fs', None, ch)"
      using assms(2,4) by (auto simp: AddDeclinedSuggestion_def Let_def split: if_splits)
    have "n_kind doc' = MappingNode" using Some sp load_document_mapping [OF assms(2)] by simp
    from save_document_ok [OF sv assms(1) this] Some sp show ?thesis by auto
  qed
qed

lemma decline_remembered_example:
  "\<exists>fs' data' doc'. load_document (demo_yaml (lists_doc [''a.com''] []) (the (add_declined_row
        \<lparr>dc_SourceEntries = [''a.com'', ''b.com''], dc_AxesDeclined = [''method''], dc_DeclinedAt = []\<rparr> (lists_doc [''a.com''] [])))
        (lists_doc [] [])) ''f'' fs' = Inr (data', doc', [])
     \<and> [''a.com'', ''b.com''] \<in> declined_sets doc' \<and> list_of ''allow'' doc' = [''a.com'']"
proof -
  let ?d = "\<lparr>dc_SourceEntries = [''b.com'', ''a.com''], dc_AxesDeclined = [''method''], dc_DeclinedAt = []\<rparr>"
  let ?y = "demo_yaml (lists_doc [''a.com''] []) (the (add_declined_row
    \<lparr>dc_SourceEntries = [''a.com'', ''b.com''], dc_AxesDeclined = [''method''], dc_DeclinedAt = []\<rparr> (lists_doc [''a.com''] [])))
    (lists_doc [] [])"
  have "snd (AddDeclinedSuggestion ?y True ''f'' ?d [''f'' \<mapsto> ''0'']) = (None, True)" by code_simp
  then obtain fs' where r: "AddDeclinedSuggestion ?y True ''f'' ?d [''f'' \<mapsto> ''0''] = (fs', None, True)"
    by (cases "AddDeclinedSuggestion ?y True ''f'' ?d [''f'' \<mapsto> ''0'']") auto
  have "sort_strings [''b.com'', ''a.com''] = [''a.com'', ''b.com'']" by code_simp
  with decline_remembered [OF demo_roundtrip demo_load lists_doc_ok r] obtain data' doc' where
    "load_document ?y ''f'' fs' = Inr (data', doc', [])" "[''a.com'', ''b.com''] \<in> declined_sets doc'"
    "\<forall>other. other \<noteq> ''declined_suggestions'' \<longrightarrow> list_of other doc' = list_of other (lists_doc [''a.com''] [])" by auto
  moreover from this(3) have "list_of ''allow'' doc' = [''a.com'']" by (simp add: lists_doc_lists)
  ultimately show ?thesis by blast
qed

section \<open>Blank lines come back\<close>

abbreviation blank :: "string \<Rightarrow> bool" where
  "blank l \<equiv> trim_space l = []"

text \<open>Reinsertion only adds empty lines.\<close>

lemma reinsert_adds_blanks: "filter (\<lambda>l. l \<noteq> []) (reinsert_lines ls as) = filter (\<lambda>l. l \<noteq> []) ls"
  by (induction ls as rule: reinsert_lines.induct) simp_all

lemma capture_anchor:
  "(a, n) \<in> set (capture_from run ls) \<Longrightarrow> \<exists>l \<in> set ls. \<not> blank l \<and> a = trim_right_blank l"
  by (induction run ls rule: capture_from.induct) (auto split: if_splits)

lemma reinsert_nil: "reinsert_lines ls [] = ls"
  by (induction ls) simp_all

lemma reinsert_skip:
  "trim_right_blank l \<notin> fst ` set (take 1 as) \<Longrightarrow> reinsert_lines (l # ls) as = l # reinsert_lines ls as"
  by (cases as) auto

lemma reinsert_capture:
  assumes "\<forall>l \<in> set ls. blank l \<longrightarrow> l = []" and "distinct (map trim_right_blank (filter (\<lambda>l. \<not> blank l) ls))"
    and "ls \<noteq> [] \<Longrightarrow> \<not> blank (last ls)" and "ls = [] \<Longrightarrow> run = 0"
  shows "reinsert_lines (filter (\<lambda>l. \<not> blank l) ls @ [[]]) (capture_from run (ls @ [[]])) = replicate run [] @ ls @ [[]]"
  using assms
proof (induction ls arbitrary: run)
  case (Cons l ls)
  show ?case
  proof (cases "blank l")
    case True
    then have "l = []" and ne: "ls \<noteq> []" using Cons.prems(1,3) by (auto split: if_splits)
    have "reinsert_lines (filter (\<lambda>l. \<not> blank l) ls @ [[]]) (capture_from (Suc run) (ls @ [[]]))
        = replicate (Suc run) [] @ ls @ [[]]"
      by (rule Cons.IH) (use Cons.prems ne True in auto)
    then show ?thesis using True \<open>l = []\<close> by (simp add: replicate_app_Cons_same)
  next
    case False
    have IH: "reinsert_lines (filter (\<lambda>l. \<not> blank l) ls @ [[]]) (capture_from 0 (ls @ [[]])) = replicate 0 [] @ ls @ [[]]"
      by (rule Cons.IH) (use Cons.prems False in \<open>auto split: if_splits\<close>)
    have "trim_right_blank l \<notin> fst ` set (capture_from 0 (ls @ [[]]))"
      using Cons.prems(2) False capture_anchor by force
    then have "trim_right_blank l \<notin> fst ` set (take 1 (capture_from 0 (ls @ [[]])))"
      by (meson image_mono set_take_subset subsetD)
    then show ?thesis using False IH reinsert_skip by simp
  qed
qed simp

lemma split_on_join:
  "xs \<noteq> [] \<Longrightarrow> \<forall>x \<in> set xs. c \<notin> set x \<Longrightarrow> split_on c (join_with [c] xs) = xs"
proof (induction xs)
  case (Cons x xs)
  have app: "split_on c (x @ c # s) = x # split_on c s" if "c \<notin> set x" for x s
    using that by (induction x) (auto split: list.split)
  have single: "split_on c x = [x]" if "c \<notin> set x" for x
    using that by (induction x) auto
  show ?case using Cons app single by (cases xs) auto
qed simp

text \<open>
  Blank lines survive an edit. When the printer drops exactly the blank lines of a file, the
  reinsertion restores the file byte for byte; the file ends with a newline, its blank lines are
  empty, the last line before the end is not blank, and no two non-blank lines are equal up to
  trailing blanks.
\<close>

lemma blank_lines_restored:
  assumes "split_on NL src = ls @ [[]]" and "ls \<noteq> [] \<Longrightarrow> \<not> blank (last ls)" and "\<forall>l \<in> set ls. blank l \<longrightarrow> l = []"
    and "distinct (map trim_right_blank (filter (\<lambda>l. \<not> blank l) ls))"
  shows "reinsertBlankLines (join_with [NL] (filter (\<lambda>l. \<not> blank l) ls @ [[]])) (captureBlankLines src) = src"
proof -
  let ?nb = "filter (\<lambda>l. \<not> blank l) ls @ [[]]"
  have nl: "\<forall>x \<in> set (ls @ [[]]). NL \<notin> set x" using split_on_no_sep [of _ NL src] assms(1) by auto
  have sp: "split_on NL (join_with [NL] ?nb) = ?nb"
    using split_on_join [of ?nb NL] nl by auto
  have r: "reinsert_lines ?nb (captureBlankLines src) = ls @ [[]]"
    using reinsert_capture [OF assms(3,4,2), of 0] assms(1) by (simp add: captureBlankLines_def)
  have src: "join_with [NL] (ls @ [[]]) = src" using join_split_on [of NL src] assms(1) by simp
  show ?thesis
  proof (cases "captureBlankLines src = []")
    case True
    then have "?nb = ls @ [[]]" using r by (metis reinsert_nil)
    with True src show ?thesis by (simp add: reinsertBlankLines_def)
  next
    case False
    with r src sp show ?thesis by (simp add: reinsertBlankLines_def)
  qed
qed

lemma blank_lines_restored_example:
  "reinsertBlankLines (join_with [NL] [''mode: x'', ''lists:'', []]) (captureBlankLines (''mode: x'' @ [NL, NL] @ ''lists:'' @ [NL]))
     = ''mode: x'' @ [NL, NL] @ ''lists:'' @ [NL]"
proof -
  let ?src = "''mode: x'' @ [NL, NL] @ ''lists:'' @ [NL]" and ?ls = "[''mode: x'', [], ''lists:'']"
  have s: "split_on NL ?src = ?ls @ [[]]" by code_simp
  have b: "\<not> blank ''lists:''" "\<not> blank ''mode: x''" by code_simp+
  have t: "trim_right_blank ''mode: x'' = ''mode: x''" "trim_right_blank ''lists:'' = ''lists:''" by code_simp+
  from blank_lines_restored [OF s] b t show ?thesis by simp
qed

text \<open>Without the last condition a blank line can move: it is put before the first line that looks
  like the one it stood before.\<close>

lemma repeated_line_moves_blank:
  "reinsertBlankLines (join_with [NL] [''- a'', ''- a'', []]) (captureBlankLines (join_with [NL] [''- a'', [], ''- a'', []]))
     = join_with [NL] [[], ''- a'', ''- a'', []]"
  by code_simp

end
