(* ===== verification/OperatorPersist.thy ===== *)
theory OperatorPersist
  imports ConfigWrite
begin

text \<open>
  The persistence of an operator's verdict in \<open>cmd/trollbridge/run.go\<close>: the pattern derived from
  the held request, and the callback the approval queue runs, which writes it to the configuration
  file and refuses verdicts of the advisor. The reload that follows a change is an answer of the
  callback; log calls are left out.
\<close>

section \<open>The pattern of a request\<close>

definition derivePersistPattern :: "request_event option \<Rightarrow> string" where
  "derivePersistPattern r =
     (case r of
        None \<Rightarrow> []
      | Some req \<Rightarrow>
          if ev_Host req = [] then []
          else let meth = to_upper (trim_space (ev_Method req)); host = ev_Host req; port = ev_Port req in
            if meth = ''CONNECT'' \<or> ev_Path req = [] then
              (if port = 0 then meth @ '' '' @ host else meth @ '' '' @ host @ '':'' @ itoa port)
            else let scheme = (if ev_Scheme req = ''https-tunneled'' \<or> ev_Scheme req = ''https-intercepted'' then ''https''
                               else if ev_Scheme req = [] then ''http'' else ev_Scheme req)
              in if port \<noteq> 0 then meth @ '' '' @ scheme @ ''://'' @ host @ '':'' @ itoa port @ ev_Path req
                 else meth @ '' '' @ scheme @ ''://'' @ host @ ev_Path req)"

datatype persist_outcome = AdvisorRefused | NoPattern | OtherEffect | PersistFailed | AlreadyThere | Reload_lists

text \<open>The callback; \<open>ok1\<close> and \<open>ok2\<close> tell whether its two writes succeed.\<close>

definition decision_persist ::
    "yaml_env \<Rightarrow> bool \<Rightarrow> bool \<Rightarrow> string \<Rightarrow> request_event \<Rightarrow> effect \<Rightarrow> string \<Rightarrow> files \<Rightarrow> files \<times> persist_outcome" where
  "decision_persist y ok1 ok2 path req eff source fs =
     (if source = ''llm-advisor'' then (fs, AdvisorRefused)
      else let pat = derivePersistPattern (Some req) in
        if pat = [] then (fs, NoPattern)
        else if eff \<noteq> EffectAllow \<and> eff \<noteq> EffectDeny then (fs, OtherEffect)
        else (case (if eff = EffectAllow then OperatorApprove y ok1 ok2 path pat fs
                    else OperatorDeny y ok1 ok2 path pat fs) of
            (fs', _, (Some _, _)) \<Rightarrow> (fs', PersistFailed)
          | (fs', _, (None, changed)) \<Rightarrow> (fs', if changed then Reload_lists else AlreadyThere)))"

section \<open>The pattern is the request\<close>

text \<open>The scheme the lists are asked about, and the shape of a request the pattern can express.\<close>

definition list_scheme :: "request_event \<Rightarrow> string" where
  "list_scheme req = (if ev_Scheme req = ''https-tunneled'' \<or> ev_Scheme req = ''https-intercepted'' then ''https''
     else if ev_Scheme req = [] then ''http'' else ev_Scheme req)"

definition expressible :: "request_event \<Rightarrow> bool" where
  "expressible req \<longleftrightarrow> isUppercaseLetters (to_upper (trim_space (ev_Method req))) \<and> plain_host (ev_Host req)
     \<and> 1 \<le> ev_Port req \<and> ev_Port req \<le> 65535 \<and> list_scheme req \<in> {''http'', ''https''}
     \<and> (ev_Path req = [] \<or> hd (ev_Path req) = CHR ''/'' \<and> \<not> is_space (last (ev_Path req)) \<and> CHR ''*'' \<notin> set (ev_Path req))"

definition host_wide :: "request_event \<Rightarrow> bool" where
  "host_wide req \<longleftrightarrow> to_upper (trim_space (ev_Method req)) = ''CONNECT'' \<or> ev_Path req = []"

lemma derive_render:
  assumes "expressible req"
  shows "derivePersistPattern (Some req) =
    renderPattern (to_upper (trim_space (ev_Method req))) (if host_wide req then [] else list_scheme req)
      (with_port (ev_Host req) (ev_Port req)) (if host_wide req then [] else ev_Path req)"
  using assms
  by (auto simp: derivePersistPattern_def renderPattern_def with_port_def host_wide_def list_scheme_def
      expressible_def plain_host_def Let_def)


definition held_request :: "string \<Rightarrow> request_event" where
  "held_request path = zero_request\<lparr>ev_Method := ''GET'', ev_Scheme := ''https-intercepted'', ev_Host := ''api.example.com'',
     ev_Port := 443, ev_Path := path\<rparr>"


text \<open>
  What the hypotheses exclude. The path of a request is the client's, and the list syntax gives a
  final \<open>/*\<close> a meaning: approving the one URL with path \<open>/v1/*\<close> writes an entry for everything
  below \<open>/v1/\<close>. A path with a space and a number sign is cut there when the list is loaded. A
  request without a path is written without one, and so covers the whole host.
\<close>

lemma wildcard_path_widens:
  "Subsumes (derivePersistPattern (Some (held_request ''/v1/*''))) ''GET https://api.example.com:443/v1/delete/everything''"
  by code_simp

lemma comment_in_path_cuts:
  "strip_comment (derivePersistPattern (Some (held_request ''/v1 #x''))) = derivePersistPattern (Some (held_request ''/v1''))"
  by code_simp

lemma empty_path_widens:
  "Subsumes (derivePersistPattern (Some (held_request []))) ''GET http://api.example.com:443/any/path''"
  by code_simp



end
