(* ===== verification/Suggestion.thy ===== *)
theory Suggestion
  imports ConfigWrite "HOL-Library.Word"
begin

text \<open>
  \<open>internal/suggestion\<close> and \<open>internal/advisor/suggest.go\<close>: the life of a generalization suggestion,
  from the detector over the ranking by the advisor to the operator's accept, decline or skip.
  A Go map is an association list in the order in which the code happens to range over it; where
  the code ranges twice, there are two lists. Ids, clocks, SHA-256, the JSON printer and \<open>url.Parse\<close>
  are parameters; log calls are left out.
\<close>

section \<open>Ranking\<close>

record suggestion_candidate =
  sc_Axis :: string
  sc_List :: string
  sc_SourceEntries :: "string list"
  sc_SuggestedPattern :: string

record suggestion_input =
  si_Candidates :: "suggestion_candidate list"
  si_AllowList :: "string list"
  si_DenyList :: "string list"
  si_Directives :: string
  si_Mode :: string

record suggestion_output =
  so_Ranking :: "string list"
  so_Reason :: string
  so_Confidence :: string
  so_AdvisorID :: string

datatype suggest_error = NoCandidates | ProviderError string | BadSchema string

definition candidate_before :: "suggestion_candidate \<Rightarrow> suggestion_candidate \<Rightarrow> bool" where
  "candidate_before a b =
     (if sc_List a \<noteq> sc_List b then sc_List a < sc_List b
      else if sc_Axis a \<noteq> sc_Axis b then sc_Axis a < sc_Axis b
      else join_with [NUL] (sc_SourceEntries a) < join_with [NUL] (sc_SourceEntries b))"

definition SuggestInputHash :: "(string \<Rightarrow> string) \<Rightarrow> (suggestion_input \<Rightarrow> string) \<Rightarrow> suggestion_input \<Rightarrow> string" where
  "SuggestInputHash sha marshal i =
     sha (marshal (i\<lparr>si_AllowList := sort_strings (si_AllowList i), si_DenyList := sort_strings (si_DenyList i),
       si_Candidates := stable_sort candidate_before
         (map (\<lambda>c. c\<lparr>sc_SourceEntries := sort_strings (sc_SourceEntries c)\<rparr>) (si_Candidates i))\<rparr>))"

definition axisPriority :: "(string \<times> int) list" where
  "axisPriority = [(''method'', 10), (''url_segment'', 20), (''hostname_below_tld'', 30)]"

definition axisPriorityFor :: "string \<Rightarrow> int" where
  "axisPriorityFor axis =
     (if has_prefix axis ''pattern:'' then 1
      else case map_of axisPriority axis of Some p \<Rightarrow> p | None \<Rightarrow> 9999)"

definition buildTemplateReason :: "(string \<Rightarrow> string) \<Rightarrow> suggestion_candidate \<Rightarrow> string" where
  "buildTemplateReason quote c =
     (let n = itoa (int (length (sc_SourceEntries c))); pat = quote (sc_SuggestedPattern c); axis = sc_Axis c in
      if axis = ''method'' then n @ '' entries differ only in HTTP method; '' @ pat @ '' would match all.''
      else if axis = ''url_segment'' then n @ '' entries differ only in their final path segment; '' @ pat @ '' would match all.''
      else if axis = ''hostname_below_tld'' then n @ '' entries are subdomains of a common parent; '' @ pat @ '' would match all.''
      else if has_prefix axis ''pattern:'' then
        n @ '' entries fit '' @ trim_prefix axis ''pattern:'' @ ''; rule '' @ pat @ '' would match the group.''
      else n @ '' entries can be generalized to '' @ pat @ ''.'')"

fun first_seen :: "string list \<Rightarrow> string list \<Rightarrow> string list" where
  "first_seen seen [] = []"
| "first_seen seen (a # as) = (if a \<in> set seen then first_seen seen as else a # first_seen (a # seen) as)"

definition deterministicSuggest :: "(string \<Rightarrow> string) \<Rightarrow> suggestion_input \<Rightarrow> suggestion_output" where
  "deterministicSuggest quote i =
     (let ranking = stable_sort (\<lambda>a b. axisPriorityFor a < axisPriorityFor b) (first_seen [] (map sc_Axis (si_Candidates i)));
          top = (case find (\<lambda>c. sc_Axis c = hd ranking) (si_Candidates i) of Some c \<Rightarrow> c | None \<Rightarrow> hd (si_Candidates i))
      in \<lparr>so_Ranking = ranking, so_Reason = buildTemplateReason quote top, so_Confidence = ''medium'',
          so_AdvisorID = ''deterministic''\<rparr>)"

text \<open>The truncation of the reason there changes a copy only.\<close>

definition validateSuggestion :: "suggestion_output \<Rightarrow> string list \<Rightarrow> string option" where
  "validateSuggestion out allowed =
     (if so_Ranking out = [] then Some ''empty ranking''
      else case find (\<lambda>a. a \<notin> set allowed) (so_Ranking out) of
        Some a \<Rightarrow> Some (''ranking names unknown axis '' @ a)
      | None \<Rightarrow> None)"

text \<open>A provider that ranks is a function; the mode, the directives and the model identifier are the
  service's configuration.\<close>

definition Suggest ::
    "(string \<Rightarrow> string) \<Rightarrow> bool \<Rightarrow> string \<times> string \<times> string \<Rightarrow> (suggestion_input \<Rightarrow> suggest_error + suggestion_output) option
     \<Rightarrow> suggestion_input \<Rightarrow> suggest_error + suggestion_output" where
  "Suggest quote enabled conf provider i =
     (case conf of (mode, directives, model) \<Rightarrow>
        if si_Candidates i = [] then Inl NoCandidates
        else let i = i\<lparr>si_Mode := mode, si_Directives := directives\<rparr> in
          (case (if enabled then provider else None) of
             None \<Rightarrow> Inr (deterministicSuggest quote i)
           | Some ask \<Rightarrow>
               (case ask i of
                  Inl e \<Rightarrow> Inl e
                | Inr out \<Rightarrow>
                    (case validateSuggestion out (map sc_Axis (si_Candidates i)) of
                       Some e \<Rightarrow> Inl (BadSchema e)
                     | None \<Rightarrow> Inr (if so_AdvisorID out = [] then out\<lparr>so_AdvisorID := model\<rparr> else out)))))"

section \<open>The manager\<close>

record suggestion =
  sg_ID :: string
  sg_Candidate :: candidate
  sg_AllAxes :: "candidate list"
  sg_OfferedAxes :: "string list"
  sg_Reason :: string
  sg_LLMInputHash :: string
  sg_OfferedAt :: int
  sg_axisRanking :: "string list"

record manager =
  mg_cfgPath :: string
  mg_rulesPath :: string
  mg_recognizer :: "recognizer option"
  mg_inbound :: int
  mg_active :: "suggestion option"
  mg_sessionDeclined :: "string \<Rightarrow> string list option"
  mg_sessionSkipped :: "string list"
  mg_shuffleSeed :: "64 word"

record current_lists =
  cl_allow :: "string list"
  cl_deny :: "string list"
  cl_declined :: "string list list"

definition SetPatternRecognizer :: "recognizer option \<Rightarrow> manager \<Rightarrow> manager" where
  "SetPatternRecognizer r m = m\<lparr>mg_recognizer := r\<rparr>"

definition SetRulesPath :: "string \<Rightarrow> manager \<Rightarrow> manager" where
  "SetRulesPath p m = m\<lparr>mg_rulesPath := p\<rparr>"

text \<open>Nanoseconds since the epoch, zero for never.\<close>

definition NoteInbound :: "int \<Rightarrow> manager \<Rightarrow> manager" where
  "NoteInbound now m = m\<lparr>mg_inbound := now\<rparr>"

text \<open>FNV-1a, 64 bits, over the little-endian bytes of the seed and the key.\<close>

definition fnv_step :: "64 word \<Rightarrow> 64 word \<Rightarrow> 64 word" where
  "fnv_step h b = (xor h b) * 1099511628211"

definition seed_bytes :: "64 word \<Rightarrow> (64 word) list" where
  "seed_bytes s = map (\<lambda>i. take_bit 8 (drop_bit (8 * i) s)) [0, 1, 2, 3, 4, 5, 6, 7]"

definition groupTiebreak :: "64 word \<Rightarrow> string \<Rightarrow> 64 word" where
  "groupTiebreak seed key = foldl fnv_step 14695981039346656037 (seed_bytes seed @ map of_char key)"

section \<open>Choosing a group\<close>

type_synonym group = "string \<times> candidate list"

definition buildDeclineKeySet :: "string list list \<Rightarrow> string list" where
  "buildDeclineKeySet rows = map (\<lambda>es. join_with [NUL] (sort_strings es)) rows"

definition open_candidates :: "etld_db \<Rightarrow> current_lists \<Rightarrow> manager \<Rightarrow> candidate list" where
  "open_candidates etld cl m =
     (let cands = DetectAllWithRecognizer etld (mg_recognizer m) (cl_allow cl) (cl_deny cl);
          keys = buildDeclineKeySet (cl_declined cl);
          filtered = filter (\<lambda>c. CanonicalKey c \<notin> set keys) cands;
          filtered2 = filter (\<lambda>c. case mg_sessionDeclined m (CanonicalKey c) of
              None \<Rightarrow> True | Some offered \<Rightarrow> c_Axis c \<notin> set offered) filtered
      in filter (\<lambda>c. CanonicalKey c \<notin> set (mg_sessionSkipped m)) filtered2)"

definition groupCoverage :: "candidate list \<Rightarrow> nat" where
  "groupCoverage g = (case g of [] \<Rightarrow> 0 | c # _ \<Rightarrow> length (c_SourceEntries c))"

definition better_group :: "64 word \<Rightarrow> group \<Rightarrow> group \<Rightarrow> bool" where
  "better_group seed kg best =
     (if groupCoverage (snd kg) \<noteq> groupCoverage (snd best) then groupCoverage (snd kg) > groupCoverage (snd best)
      else if length (snd kg) \<noteq> length (snd best) then length (snd kg) > length (snd best)
      else groupTiebreak seed (fst kg) < groupTiebreak seed (fst best))"

definition best_group :: "64 word \<Rightarrow> group list \<Rightarrow> group option" where
  "best_group seed gs =
     fold (\<lambda>kg best. case best of None \<Rightarrow> Some kg | Some b \<Rightarrow> if better_group seed kg b then Some kg else Some b) gs None"

text \<open>
  A quotient of two counts, the first at most the second, as a \<open>float64\<close>: a 53-bit numerator over a
  power of two, rounded to nearest even. The threshold of the configuration has the same form.
\<close>

type_synonym f64 = "int \<times> nat"

definition round_even :: "int \<Rightarrow> int \<Rightarrow> int" where
  "round_even n d =
     (let q = n div d; r = n mod d in
      if 2 * r < d \<or> 2 * r = d \<and> even q then q else q + 1)"

fun f64_scale :: "nat \<Rightarrow> int \<Rightarrow> int \<Rightarrow> nat \<Rightarrow> nat" where
  "f64_scale 0 n d k = k"
| "f64_scale (Suc f) n d k = (if 2 ^ 52 * d \<le> n then k else f64_scale f (2 * n) d (Suc k))"

definition f64_div :: "nat \<Rightarrow> nat \<Rightarrow> f64" where
  "f64_div a b = (let k = f64_scale 120 (int a) (int b) 0 in (round_even (int a * 2 ^ k) (int b), k))"

definition f64_less :: "f64 \<Rightarrow> f64 \<Rightarrow> bool" where
  "f64_less x y \<longleftrightarrow> fst x * 2 ^ snd y < fst y * 2 ^ snd x"

definition f64_equal :: "f64 \<Rightarrow> f64 \<Rightarrow> bool" where
  "f64_equal x y \<longleftrightarrow> fst x * 2 ^ snd y = fst y * 2 ^ snd x"

text \<open>The first strategy of \<open>preferNarrowerOnConcentration\<close>: a narrower group the detector found.\<close>

definition narrower_step :: "candidate list \<Rightarrow> f64 \<Rightarrow> group \<Rightarrow> (candidate list \<times> f64) option \<Rightarrow> (candidate list \<times> f64) option" where
  "narrower_step chosen thr kg best =
     (case snd kg of
        [] \<Rightarrow> best
      | c # _ \<Rightarrow>
          let size = length (c_SourceEntries c); total = groupCoverage chosen; ratio = f64_div size total in
          if size \<ge> total then best
          else if \<not> set (c_SourceEntries c) \<subseteq> set (c_SourceEntries (hd chosen)) then best
          else if f64_less ratio thr then best
          else (case best of
              None \<Rightarrow> Some (snd kg, ratio)
            | Some (bg, br) \<Rightarrow>
                if f64_less br ratio \<or> f64_equal ratio br \<and> length (snd kg) < length bg
                then Some (snd kg, ratio) else best))"

definition narrower_group :: "candidate list \<Rightarrow> group list \<Rightarrow> f64 \<Rightarrow> candidate list option" where
  "narrower_group chosen gs thr = map_option fst (fold (narrower_step chosen thr) gs None)"

definition splitMethodSchemeHost :: "string \<Rightarrow> (string \<times> string) option" where
  "splitMethodSchemeHost pat =
     (case split2 (CHR '' '') pat of
        (_, None) \<Rightarrow> None
      | (meth, Some rest) \<Rightarrow>
          if \<not> has_suffix rest ''/*'' then None
          else let rest = trim_suffix rest ''/*'' in
            if \<not> contains_str rest ''://'' then None else Some (meth, rest))"

text \<open>\<open>url_path\<close> is the \<open>Path\<close> of \<open>url.Parse\<close>, \<open>None\<close> its error.\<close>

definition firstPathSegmentOfEntry :: "(string \<Rightarrow> string option) \<Rightarrow> string \<Rightarrow> string \<Rightarrow> string option" where
  "firstPathSegmentOfEntry url_path ent wantMethod =
     (case split2 (CHR '' '') ent of
        (_, None) \<Rightarrow> None
      | (meth, Some rest) \<Rightarrow>
          if meth \<noteq> wantMethod then None
          else (case url_path rest of
              None \<Rightarrow> None
            | Some path \<Rightarrow>
                let p = trim_right_chars [CHR ''/''] (trim_left_chars [CHR ''/''] path) in
                if p = [] then None
                else Some (case index_byte p (CHR ''/'') of None \<Rightarrow> p | Some i \<Rightarrow> take i p)))"

definition biggest_cluster :: "(string \<times> string list) list \<Rightarrow> string \<times> string list" where
  "biggest_cluster cs =
     fold (\<lambda>kc best. if length (snd kc) > length (snd best) then kc else best)
       (stable_sort (\<lambda>a b. fst a < fst b) cs) ([], [])"

definition synthesizeNarrowerFromConcentration ::
    "(string \<Rightarrow> string option) \<Rightarrow> candidate \<Rightarrow> f64 \<Rightarrow> candidate option" where
  "synthesizeNarrowerFromConcentration url_path chosen thr =
     (if \<not> has_suffix (c_SuggestedPattern chosen) ''/*'' then None
      else case splitMethodSchemeHost (c_SuggestedPattern chosen) of
        None \<Rightarrow> None
      | Some (meth, schemeHost) \<Rightarrow>
          let seg = (\<lambda>e. firstPathSegmentOfEntry url_path e meth); es = c_SourceEntries chosen in
          if list_ex (\<lambda>e. seg e = None) es \<or> es = [] then None
          else (case biggest_cluster (group_by (\<lambda>e. the (seg e)) es) of
              (bigSeg, members) \<Rightarrow>
                if bigSeg = [] then None
                else if f64_less (f64_div (length members) (length es)) thr then None
                else if length members = length es then None
                else Some \<lparr>c_Axis = c_Axis chosen, c_List = c_List chosen, c_SourceEntries = sort_strings members,
                           c_SuggestedPattern = meth @ '' '' @ schemeHost @ ''/'' @ bigSeg @ ''/*'', c_PatternMatch = None\<rparr>))"

definition preferNarrowerOnConcentration ::
    "(string \<Rightarrow> string option) \<Rightarrow> candidate list \<Rightarrow> group list \<Rightarrow> f64 \<Rightarrow> candidate list" where
  "preferNarrowerOnConcentration url_path chosen gs thr =
     (if chosen = [] \<or> \<not> f64_less (0, 0) thr \<or> f64_less (1, 0) thr then chosen
      else if groupCoverage chosen = 0 then chosen
      else (case narrower_group chosen gs thr of
          Some g \<Rightarrow> g
        | None \<Rightarrow>
            (case synthesizeNarrowerFromConcentration url_path (hd chosen) thr of
               Some c \<Rightarrow> [c] | None \<Rightarrow> chosen)))"

text \<open>
  \<open>produce\<close> up to the question to the advisor. \<open>order1\<close> and \<open>order2\<close> rearrange the groups into the
  orders of the two loops over the map. A limit of candidates below zero is a slice bound out of
  range, which panics; nothing in the loader of the configuration rejects one.
\<close>

datatype produced = Nothing_open | Slice_panic | Chosen "candidate list"

definition cap_candidates :: "int \<Rightarrow> candidate list \<Rightarrow> produced" where
  "cap_candidates n cs =
     (if int (length cs) \<le> n then Chosen cs else if n < 0 then Slice_panic else Chosen (take (nat n) cs))"

definition produce_choose ::
    "etld_db \<Rightarrow> (string \<Rightarrow> string option) \<Rightarrow> (group list \<Rightarrow> group list) \<Rightarrow> (group list \<Rightarrow> group list) \<Rightarrow> f64 \<Rightarrow> int
     \<Rightarrow> current_lists \<Rightarrow> manager \<Rightarrow> produced" where
  "produce_choose etld url_path order1 order2 thr maxCandidates cl m =
     (let cands = open_candidates etld cl m; gs = group_by CanonicalKey cands in
      case best_group (mg_shuffleSeed m) (order1 gs) of
        None \<Rightarrow> Nothing_open
      | Some (_, chosen) \<Rightarrow> cap_candidates maxCandidates (preferNarrowerOnConcentration url_path chosen (order2 gs) thr))"

lemma cap_candidates_take: "0 < n \<Longrightarrow> cap_candidates n cs = Chosen (take (nat n) cs)"
  by (simp add: cap_candidates_def)

lemma negative_limit_panics:
  "n < 0 \<Longrightarrow> produce_choose etld url_path order1 order2 thr n cl m \<in> {Nothing_open, Slice_panic}"
  by (auto simp: produce_choose_def cap_candidates_def Let_def split: option.split)

definition zero_candidate :: candidate where
  "zero_candidate = \<lparr>c_Axis = [], c_List = [], c_SourceEntries = [], c_SuggestedPattern = [], c_PatternMatch = None\<rparr>"

fun pickByRanking :: "candidate list \<Rightarrow> string list \<Rightarrow> candidate" where
  "pickByRanking cands [] = (case cands of [] \<Rightarrow> zero_candidate | c # _ \<Rightarrow> c)"
| "pickByRanking cands (a # as) =
     (if cands = [] then zero_candidate
      else case find (\<lambda>c. c_Axis c = a) cands of Some c \<Rightarrow> c | None \<Rightarrow> pickByRanking cands as)"

definition remainingAxesCount :: "candidate list \<Rightarrow> string list \<Rightarrow> nat" where
  "remainingAxesCount cands offered = length (filter (\<lambda>c. c_Axis c \<notin> set offered) cands)"

definition suggestion_input_of :: "current_lists \<Rightarrow> candidate list \<Rightarrow> suggestion_input" where
  "suggestion_input_of cl chosen = \<lparr>
     si_Candidates = map (\<lambda>c. \<lparr>sc_Axis = c_Axis c, sc_List = c_List c, sc_SourceEntries = c_SourceEntries c,
                              sc_SuggestedPattern = c_SuggestedPattern c\<rparr>) chosen,
     si_AllowList = cl_allow cl, si_DenyList = cl_deny cl, si_Directives = [], si_Mode = []\<rparr>"

text \<open>\<open>produce\<close> from the advisor's answer on.\<close>

definition produce_offer ::
    "string \<Rightarrow> int \<Rightarrow> string \<Rightarrow> candidate list \<Rightarrow> suggest_error + suggestion_output \<Rightarrow> manager \<Rightarrow> manager" where
  "produce_offer newid now inputHash chosen answer m =
     (case answer of
        Inl _ \<Rightarrow> m
      | Inr out \<Rightarrow>
          let top = pickByRanking chosen (so_Ranking out) in
          m\<lparr>mg_active := Some \<lparr>sg_ID = newid, sg_Candidate = top, sg_AllAxes = chosen,
              sg_OfferedAxes = [c_Axis top], sg_Reason = so_Reason out, sg_LLMInputHash = inputHash,
              sg_OfferedAt = now, sg_axisRanking = so_Ranking out\<rparr>\<rparr>)"

section \<open>Ticks\<close>

record suggestion_cfg =
  su_Enabled :: "bool option"
  su_LLMEnabled :: bool
  su_QuietIdleSeconds :: int
  su_MaxCandidates :: int
  su_Threshold :: f64

definition EnabledFor :: "suggestion_cfg \<Rightarrow> bool" where
  "EnabledFor c = (case su_Enabled c of Some b \<Rightarrow> b | None \<Rightarrow> su_LLMEnabled c)"

definition idle_duration :: "int \<Rightarrow> manager \<Rightarrow> int" where
  "idle_duration now m = (if mg_inbound m = 0 then 3600 * 1000000000 else now - mg_inbound m)"

definition revalidateActive :: "current_lists \<Rightarrow> manager \<Rightarrow> manager" where
  "revalidateActive cl m =
     (case mg_active m of
        None \<Rightarrow> m
      | Some s \<Rightarrow>
          if list_all (\<lambda>e. e \<in> set (cl_allow cl) \<or> e \<in> set (cl_deny cl)) (c_SourceEntries (sg_Candidate s)) then m
          else m\<lparr>mg_active := None,
                 mg_sessionDeclined := (mg_sessionDeclined m)(CanonicalKey (sg_Candidate s) := None)\<rparr>)"

datatype tick_action = TickDone | TickProduce

definition Tick :: "suggestion_cfg option \<Rightarrow> nat \<Rightarrow> int \<Rightarrow> current_lists \<Rightarrow> manager \<Rightarrow> manager \<times> tick_action" where
  "Tick cfg queueLen now cl m =
     (case cfg of
        None \<Rightarrow> (m, TickDone)
      | Some c \<Rightarrow>
          if \<not> EnabledFor c then (m, TickDone)
          else let quiet = (queueLen = 0 \<and> idle_duration now m \<ge> wrap64 (su_QuietIdleSeconds c * 1000000000)) in
            if mg_active m \<noteq> None then (revalidateActive cl m, TickDone)
            else if \<not> quiet then (m, TickDone)
            else (m, TickProduce))"

definition SuggestNow :: "suggestion_cfg option \<Rightarrow> manager \<Rightarrow> manager \<times> tick_action" where
  "SuggestNow cfg m =
     (case cfg of
        None \<Rightarrow> (m, TickDone)
      | Some c \<Rightarrow> if \<not> EnabledFor c then (m, TickDone) else (m\<lparr>mg_active := None\<rparr>, TickProduce))"

section \<open>The operator's answers\<close>

datatype answer_error =
    ErrNoActive | ErrIDMismatch | ErrUnknownList string | ErrNoRuleFile | ErrWrite write_error

definition claim_active :: "string \<Rightarrow> manager \<Rightarrow> answer_error + suggestion" where
  "claim_active sid m =
     (case mg_active m of
        None \<Rightarrow> Inl ErrNoActive
      | Some s \<Rightarrow> if sg_ID s \<noteq> sid then Inl ErrIDMismatch else Inr s)"

definition patternRuleID :: "(string \<Rightarrow> string) \<Rightarrow> candidate \<Rightarrow> string" where
  "patternRuleID sha8 c =
     ''suggested-'' @ (case c_PatternMatch c of None \<Rightarrow> [] | Some pm \<Rightarrow> pc_Pattern pm) @ ''-'' @ sha8 (CanonicalKey c)"

text \<open>The result of an answer: an error, or whether a reload is asked for.\<close>

definition acceptPattern ::
    "yaml_env \<Rightarrow> bool \<Rightarrow> bool \<Rightarrow> (string \<Rightarrow> string) \<Rightarrow> candidate \<Rightarrow> pattern_candidate \<Rightarrow> manager \<Rightarrow> files
     \<Rightarrow> files \<times> (answer_error + bool)" where
  "acceptPattern y ok1 ok2 sha8 c pm m fs =
     (if mg_rulesPath m = [] then (fs, Inl ErrNoRuleFile)
      else (case AcceptPatternSuggestion y ok1 ok2 (mg_rulesPath m) (mg_cfgPath m) (c_List c)
               \<lparr>pr_ID = patternRuleID sha8 c,
                pr_Description = ''auto-suggested from '' @ pc_Pattern pm @ '' pattern detector'',
                pr_Priority = 0, pr_Pattern = pc_Pattern pm, pr_Components = pc_Components pm,
                pr_Method = pc_Method pm, pr_Effect = c_List c\<rparr> (c_SourceEntries c) fs of
          (fs', Some e, _) \<Rightarrow> (fs', Inl (ErrWrite e))
        | (fs', None, _) \<Rightarrow> (fs', Inr True)))"

definition Accept ::
    "yaml_env \<Rightarrow> bool \<Rightarrow> bool \<Rightarrow> (string \<Rightarrow> string) \<Rightarrow> string \<Rightarrow> manager \<Rightarrow> files
     \<Rightarrow> manager \<times> files \<times> (answer_error + bool)" where
  "Accept y ok1 ok2 sha8 sid m fs =
     (case claim_active sid m of
        Inl e \<Rightarrow> (m, fs, Inl e)
      | Inr s \<Rightarrow>
          let c = sg_Candidate s;
              m' = m\<lparr>mg_active := None, mg_sessionDeclined := (mg_sessionDeclined m)(CanonicalKey c := None)\<rparr>
          in if c_List c \<noteq> ''allow'' \<and> c_List c \<noteq> ''deny'' then (m', fs, Inl (ErrUnknownList (c_List c)))
             else (case c_PatternMatch c of
                 Some pm \<Rightarrow> (case acceptPattern y ok1 ok2 sha8 c pm m' fs of (fs', r) \<Rightarrow> (m', fs', r))
               | None \<Rightarrow>
                   (case Generalize y ok1 (mg_cfgPath m) (c_List c) (c_SuggestedPattern c) (c_SourceEntries c) fs of
                      (fs', Some e, _) \<Rightarrow> (m', fs', Inl (ErrWrite e))
                    | (fs', None, _) \<Rightarrow> (m', fs', Inr True))))"

text \<open>The next axis of the same source set: the first open one, or the one the ranking prefers.\<close>

definition next_axis :: "suggestion \<Rightarrow> candidate option" where
  "next_axis s =
     (let key = CanonicalKey (sg_Candidate s); offered = sg_OfferedAxes s in
      case find (\<lambda>c. CanonicalKey c = key \<and> c_Axis c \<notin> set offered) (sg_AllAxes s) of
        None \<Rightarrow> None
      | Some c \<Rightarrow>
          (case find (\<lambda>a. a \<notin> set offered) (sg_axisRanking s) of
             None \<Rightarrow> Some c
           | Some ranked \<Rightarrow>
               (case find (\<lambda>c. c_Axis c = ranked \<and> CanonicalKey c = key) (sg_AllAxes s) of
                  None \<Rightarrow> Some c | Some c' \<Rightarrow> Some c')))"

definition Decline ::
    "yaml_env \<Rightarrow> bool \<Rightarrow> int \<Rightarrow> string \<Rightarrow> string \<Rightarrow> manager \<Rightarrow> files \<Rightarrow> manager \<times> files \<times> (answer_error + bool)" where
  "Decline y ok now declinedAt sid m fs =
     (case claim_active sid m of
        Inl e \<Rightarrow> (m, fs, Inl e)
      | Inr s \<Rightarrow>
          let key = CanonicalKey (sg_Candidate s) in
          (case next_axis s of
             Some c \<Rightarrow>
               (m\<lparr>mg_sessionDeclined := (mg_sessionDeclined m)(key \<mapsto>
                    c_Axis (sg_Candidate s) # (case mg_sessionDeclined m key of None \<Rightarrow> [] | Some as \<Rightarrow> as)),
                  mg_active := Some (s\<lparr>sg_Candidate := c, sg_OfferedAxes := sg_OfferedAxes s @ [c_Axis c],
                    sg_OfferedAt := now\<rparr>)\<rparr>, fs, Inr False)
           | None \<Rightarrow>
               let m' = m\<lparr>mg_active := None, mg_sessionDeclined := (mg_sessionDeclined m)(key := None)\<rparr> in
               (case AddDeclinedSuggestion y ok (mg_cfgPath m) \<lparr>dc_SourceEntries = c_SourceEntries (sg_Candidate s),
                    dc_AxesDeclined = sg_OfferedAxes s, dc_DeclinedAt = declinedAt\<rparr> fs of
                  (fs', Some e, _) \<Rightarrow> (m', fs', Inl (ErrWrite e))
                | (fs', None, _) \<Rightarrow> (m', fs', Inr True))))"

definition Skip :: "string \<Rightarrow> manager \<Rightarrow> manager \<times> answer_error option" where
  "Skip sid m =
     (case claim_active sid m of
        Inl e \<Rightarrow> (m, Some e)
      | Inr s \<Rightarrow> (m\<lparr>mg_active := None, mg_sessionSkipped := CanonicalKey (sg_Candidate s) # mg_sessionSkipped m\<rparr>, None))"

text \<open>The row the control plane shows (\<open>control_adapter.go\<close>).\<close>

record suggestion_row =
  rw_SuggestionID :: string
  rw_Axis :: string
  rw_List :: string
  rw_SourceEntries :: "string list"
  rw_SuggestedPattern :: string
  rw_Reason :: string
  rw_AxesRemaining :: nat
  rw_OfferedAt :: int
  rw_Pattern :: "pattern_candidate option"

definition Active :: "manager \<Rightarrow> suggestion_row option" where
  "Active m = map_option (\<lambda>s. let c = sg_Candidate s in
     \<lparr>rw_SuggestionID = sg_ID s, rw_Axis = c_Axis c, rw_List = c_List c, rw_SourceEntries = c_SourceEntries c,
      rw_SuggestedPattern = c_SuggestedPattern c, rw_Reason = sg_Reason s,
      rw_AxesRemaining = remainingAxesCount (sg_AllAxes s) (sg_OfferedAxes s), rw_OfferedAt = sg_OfferedAt s,
      rw_Pattern = c_PatternMatch c\<rparr>) (mg_active m)"

section \<open>The advisor only ranks\<close>

lemma set_first_seen: "set (first_seen seen as) = set as - set seen"
  by (induction seen as rule: first_seen.induct) auto

text \<open>
  The advisor cannot bring in anything of its own. Whatever the provider returns, an answer of
  \<open>Suggest\<close> ranks at least one axis and only axes of the candidates it was given.
\<close>

lemma Suggest_ranks_candidates:
  assumes "Suggest quote enabled conf provider i = Inr out"
  shows "so_Ranking out \<noteq> [] \<and> set (so_Ranking out) \<subseteq> sc_Axis ` set (si_Candidates i)"
proof -
  obtain mode directives model where conf: "conf = (mode, directives, model)" by (cases conf)
  have ne: "si_Candidates i \<noteq> []" using assms by (auto simp: Suggest_def conf split: if_splits)
  let ?i = "i\<lparr>si_Mode := mode, si_Directives := directives\<rparr>"
  show ?thesis
  proof (cases "if enabled then provider else None")
    case None
    then have out: "out = deterministicSuggest quote ?i" using assms ne by (simp add: Suggest_def conf Let_def)
    have r: "set (so_Ranking out) = sc_Axis ` set (si_Candidates i)"
      by (simp add: out deterministicSuggest_def Let_def set_first_seen)
    moreover have "sc_Axis ` set (si_Candidates i) \<noteq> {}" using ne by simp
    ultimately show ?thesis by (metis order_refl set_empty)
  next
    case (Some ask)
    then obtain o' where o': "ask ?i = Inr o'" "validateSuggestion o' (map sc_Axis (si_Candidates i)) = None"
      "so_Ranking out = so_Ranking o'"
      using assms ne by (auto simp: Suggest_def conf Let_def split: sum.splits option.splits if_splits)
    have "so_Ranking o' \<noteq> []" "\<forall>a \<in> set (so_Ranking o'). a \<in> sc_Axis ` set (si_Candidates i)"
      using o'(2) by (auto simp: validateSuggestion_def find_None_iff split: if_splits option.splits)
    then show ?thesis unfolding o'(3) by blast
  qed
qed

definition demo_candidate :: suggestion_candidate where
  "demo_candidate = \<lparr>sc_Axis = ''method'', sc_List = ''allow'', sc_SourceEntries = [''GET a.com'', ''POST a.com''],
     sc_SuggestedPattern = ''* a.com''\<rparr>"

definition demo_input :: suggestion_input where
  "demo_input = \<lparr>si_Candidates = [demo_candidate], si_AllowList = [], si_DenyList = [], si_Directives = [], si_Mode = []\<rparr>"

lemma Suggest_ranks_candidates_example:
  "\<exists>out. Suggest id True ([], [], []) (Some (\<lambda>_. Inr \<lparr>so_Ranking = [''method''], so_Reason = [], so_Confidence = [],
      so_AdvisorID = ''x''\<rparr>)) demo_input = Inr out \<and> set (so_Ranking out) \<subseteq> {''method''}"
proof -
  let ?out = "\<lparr>so_Ranking = [''method''], so_Reason = [], so_Confidence = [], so_AdvisorID = ''x''\<rparr>"
  have s: "Suggest id True ([], [], []) (Some (\<lambda>_. Inr ?out)) demo_input = Inr ?out"
    by (simp add: Suggest_def demo_input_def demo_candidate_def validateSuggestion_def Let_def)
  from Suggest_ranks_candidates [OF s] s show ?thesis by (auto simp: demo_input_def demo_candidate_def)
qed

section \<open>The chosen group\<close>

lemma best_group_snoc:
  "best_group seed (gs @ [kg]) =
     (case best_group seed gs of None \<Rightarrow> Some kg | Some b \<Rightarrow> if better_group seed kg b then Some kg else Some b)"
  by (simp add: best_group_def)

lemma better_trans: "better_group seed a b \<Longrightarrow> better_group seed b c \<Longrightarrow> better_group seed a c"
  by (auto simp: better_group_def split: if_splits)

lemma better_asym: "better_group seed a b \<Longrightarrow> \<not> better_group seed b a"
  by (auto simp: better_group_def split: if_splits)

lemma better_irrefl: "\<not> better_group seed a a"
  using better_asym by blast

lemma better_total:
  "groupTiebreak seed (fst a) \<noteq> groupTiebreak seed (fst b) \<Longrightarrow> better_group seed a b \<or> better_group seed b a"
  by (auto simp: better_group_def)

lemma best_group_None: "best_group seed gs = None \<longleftrightarrow> gs = []"
  by (induction gs rule: rev_induct) (auto simp: best_group_snoc best_group_def split: option.splits)

lemma best_group_max:
  "best_group seed gs = Some b \<Longrightarrow> b \<in> set gs \<and> (\<forall>kg \<in> set gs. \<not> better_group seed kg b)"
proof (induction gs arbitrary: b rule: rev_induct)
  case (snoc kg gs)
  show ?case
  proof (cases "best_group seed gs")
    case None
    then have "gs = []" by (simp add: best_group_None)
    with snoc.prems show ?thesis using better_irrefl by (auto simp: best_group_snoc best_group_def)
  next
    case (Some b0)
    note IH = snoc.IH [OF Some]
    show ?thesis
    proof (cases "better_group seed kg b0")
      case True
      then have b: "b = kg" using snoc.prems Some by (simp add: best_group_snoc)
      have "\<not> better_group seed g kg" if "g \<in> set gs" for g
        using IH that True better_trans better_asym by blast
      then show ?thesis using b better_irrefl by auto
    next
      case False
      then have "b = b0" using snoc.prems Some by (simp add: best_group_snoc)
      with IH False show ?thesis by auto
    qed
  qed
qed (simp add: best_group_def)

text \<open>
  The suggestion does not depend on the iteration order of Go's maps. Over the same groups in
  any two orders the same group is chosen, as long as the tie-break tells the groups' keys apart;
  and no other group covers more of the list's entries.
\<close>

lemma best_group_order_independent:
  assumes "mset gs = mset gs'" and "distinct (map fst gs)" and "inj_on (groupTiebreak seed) (fst ` set gs)"
  shows "best_group seed gs = best_group seed gs'
    \<and> (\<forall>b. best_group seed gs = Some b \<longrightarrow> b \<in> set gs \<and> (\<forall>kg \<in> set gs. groupCoverage (snd kg) \<le> groupCoverage (snd b)))"
proof
  have sets: "set gs = set gs'" using assms(1) by (metis set_mset_mset)
  show "best_group seed gs = best_group seed gs'"
  proof (cases "best_group seed gs")
    case None
    then show ?thesis using sets by (metis best_group_None set_empty)
  next
    case (Some b)
    then obtain b' where b': "best_group seed gs' = Some b'"
      using sets by (metis best_group_None not_Some_eq set_empty)
    note m = best_group_max [OF Some] best_group_max [OF b']
    have "fst b = fst b'"
    proof (rule ccontr)
      assume "fst b \<noteq> fst b'"
      then have "groupTiebreak seed (fst b) \<noteq> groupTiebreak seed (fst b')"
        using assms(3) m sets by (auto dest: inj_onD)
      then show False using better_total m sets by blast
    qed
    then have "b = b'" using m sets assms(2) by (auto simp: distinct_map dest: inj_onD)
    with Some b' show ?thesis by simp
  qed
  show "\<forall>b. best_group seed gs = Some b \<longrightarrow> b \<in> set gs \<and> (\<forall>kg \<in> set gs. groupCoverage (snd kg) \<le> groupCoverage (snd b))"
  proof (intro allI impI)
    fix b assume "best_group seed gs = Some b"
    from best_group_max [OF this] show "b \<in> set gs \<and> (\<forall>kg \<in> set gs. groupCoverage (snd kg) \<le> groupCoverage (snd b))"
      by (auto simp: better_group_def not_less split: if_splits)
  qed
qed

definition method_candidate :: "string list \<Rightarrow> candidate" where
  "method_candidate es = \<lparr>c_Axis = AxisMethod, c_List = ''allow'', c_SourceEntries = es, c_SuggestedPattern = ''* a.com'',
     c_PatternMatch = None\<rparr>"

lemma best_group_order_independent_example:
  "best_group 7 [(''k1'', [method_candidate [''GET a.com'', ''POST a.com'']]), (''k2'', [method_candidate [''GET b.com'', ''PUT b.com'']])]
   = best_group 7 [(''k2'', [method_candidate [''GET b.com'', ''PUT b.com'']]), (''k1'', [method_candidate [''GET a.com'', ''POST a.com'']])]"
proof -
  have "groupTiebreak 7 ''k1'' \<noteq> groupTiebreak 7 ''k2''" by code_simp
  then have "inj_on (groupTiebreak 7) (fst ` set [(''k1'', [method_candidate [''GET a.com'', ''POST a.com'']]),
      (''k2'', [method_candidate [''GET b.com'', ''PUT b.com'']])])" by (auto simp: inj_on_def)
  from best_group_order_independent [OF _ _ this] show ?thesis by auto
qed

section \<open>What is offered\<close>

text \<open>A candidate of the detector that nobody declined or skipped.\<close>

definition proper :: "etld_db \<Rightarrow> current_lists \<Rightarrow> manager \<Rightarrow> candidate \<Rightarrow> bool" where
  "proper etld cl m c \<longleftrightarrow>
     c \<in> set (DetectAllWithRecognizer etld (mg_recognizer m) (cl_allow cl) (cl_deny cl))
     \<and> CanonicalKey c \<notin> set (buildDeclineKeySet (cl_declined cl))
     \<and> (\<forall>offered. mg_sessionDeclined m (CanonicalKey c) = Some offered \<longrightarrow> c_Axis c \<notin> set offered)
     \<and> CanonicalKey c \<notin> set (mg_sessionSkipped m)"

lemma set_open_candidates: "c \<in> set (open_candidates etld cl m) \<longleftrightarrow> proper etld cl m c"
  by (auto simp: open_candidates_def proper_def Let_def split: option.splits)

text \<open>The narrower candidate the scorer makes itself.\<close>

definition narrows :: "candidate \<Rightarrow> candidate \<Rightarrow> bool" where
  "narrows c d \<longleftrightarrow> c_List c = c_List d \<and> c_Axis c = c_Axis d \<and> set (c_SourceEntries c) \<subset> set (c_SourceEntries d)
     \<and> c_SourceEntries c \<noteq> []"

lemma narrower_group_member:
  "narrower_group chosen gs thr = Some g \<Longrightarrow> \<exists>k. (k, g) \<in> set gs"
proof -
  have "fold (narrower_step chosen thr) gs b = Some (g, r) \<Longrightarrow> (\<exists>k. (k, g) \<in> set gs) \<or> b = Some (g, r)" for g r b
  proof (induction gs arbitrary: b)
    case (Cons kg gs)
    then have "(\<exists>k. (k, g) \<in> set gs) \<or> narrower_step chosen thr kg b = Some (g, r)" by simp
    moreover have "narrower_step chosen thr kg b = Some (g, r) \<Longrightarrow> g = snd kg \<or> b = Some (g, r)"
      by (auto simp: narrower_step_def Let_def split: list.splits option.splits if_splits)
    ultimately show ?case by (cases kg) auto
  qed simp
  then show "narrower_group chosen gs thr = Some g \<Longrightarrow> \<exists>k. (k, g) \<in> set gs"
    by (fastforce simp: narrower_group_def)
qed

lemma biggest_cluster_member:
  "biggest_cluster cs = (seg, members) \<Longrightarrow> members \<noteq> [] \<Longrightarrow> (seg, members) \<in> set cs"
proof -
  have "fold (\<lambda>kc best. if length (snd kc) > length (snd best) then kc else best) xs b \<in> insert b (set xs)"
    for xs :: "(string \<times> string list) list" and b
    by (induction xs arbitrary: b) (auto split: if_splits)
  from this [of "stable_sort (\<lambda>a b. fst a < fst b) cs" "([], [])"]
  show "biggest_cluster cs = (seg, members) \<Longrightarrow> members \<noteq> [] \<Longrightarrow> (seg, members) \<in> set cs"
    by (auto simp: biggest_cluster_def)
qed

lemma synthesized_narrows:
  assumes "synthesizeNarrowerFromConcentration url_path d thr = Some c" "f64_less (0, 0) thr"
  shows "narrows c d"
proof -
  obtain meth sh where sm: "splitMethodSchemeHost (c_SuggestedPattern d) = Some (meth, sh)"
    using assms(1) by (auto simp: synthesizeNarrowerFromConcentration_def split: if_splits option.splits)
  let ?seg = "\<lambda>e. firstPathSegmentOfEntry url_path e meth" and ?es = "c_SourceEntries d"
  obtain bigSeg members where bc: "biggest_cluster (group_by (\<lambda>e. the (?seg e)) ?es) = (bigSeg, members)" by force
  have c: "\<not> f64_less (f64_div (length members) (length ?es)) thr" "length members \<noteq> length ?es" "?es \<noteq> []"
    "c = \<lparr>c_Axis = c_Axis d, c_List = c_List d, c_SourceEntries = sort_strings members,
          c_SuggestedPattern = meth @ '' '' @ sh @ ''/'' @ bigSeg @ ''/*'', c_PatternMatch = None\<rparr>"
    using assms(1) sm bc by (auto simp: synthesizeNarrowerFromConcentration_def Let_def split: if_splits)
  have "members \<noteq> []"
  proof
    assume "members = []"
    then have "f64_div (length members) (length ?es) = (round_even 0 (int (length ?es)), snd (f64_div 0 (length ?es)))"
      by (simp add: f64_div_def Let_def)
    moreover have "round_even 0 (int (length ?es)) = 0" by (simp add: round_even_def Let_def)
    ultimately show False using c(1) assms(2) by (simp add: f64_less_def)
  qed
  from biggest_cluster_member [OF bc this] have m: "members = filter (\<lambda>e. the (?seg e) = bigSeg) ?es"
    by (rule group_by_member(1))
  then have "set members \<subseteq> set ?es" by auto
  moreover have "set members \<noteq> set ?es"
  proof
    assume "set members = set ?es"
    then have "\<forall>e \<in> set ?es. the (?seg e) = bigSeg" using m by (metis (mono_tags, lifting) mem_Collect_eq set_filter)
    then have "members = ?es" using m by simp
    with c(2) show False by simp
  qed
  moreover have "sort_strings members \<noteq> []" "set (sort_strings members) = set members"
    using \<open>members \<noteq> []\<close> by (metis set_empty set_sort sort_strings_def, simp add: sort_strings_def)
  ultimately show ?thesis using c(4) by (auto simp: narrows_def)
qed

definition open_groups :: "etld_db \<Rightarrow> current_lists \<Rightarrow> manager \<Rightarrow> group list" where
  "open_groups etld cl m = group_by CanonicalKey (open_candidates etld cl m)"

lemma open_group_member:
  assumes "(k, g) \<in> set (open_groups etld cl m)"
  shows "g \<noteq> []" "c \<in> set g \<Longrightarrow> proper etld cl m c \<and> CanonicalKey c = k"
proof -
  note gm = group_by_member [OF assms [unfolded open_groups_def]]
  show "g \<noteq> []" by (rule gm(2))
  assume "c \<in> set g"
  then have "c \<in> set (filter (\<lambda>x. CanonicalKey x = k) (open_candidates etld cl m))" using gm(1) by simp
  then show "proper etld cl m c \<and> CanonicalKey c = k" by (simp add: set_open_candidates)
qed

text \<open>What the scorer hands on: a group of open candidates, or the one it made.\<close>

definition offerable :: "etld_db \<Rightarrow> current_lists \<Rightarrow> manager \<Rightarrow> candidate list \<Rightarrow> bool" where
  "offerable etld cl m cs \<longleftrightarrow>
     (\<exists>k. \<forall>c \<in> set cs. proper etld cl m c \<and> CanonicalKey c = k)
     \<or> (\<exists>c d. cs = [c] \<and> proper etld cl m d \<and> narrows c d)"

lemma offerable_take:
  assumes "offerable etld cl m p" "0 < n"
  shows "offerable etld cl m (take n p)"
proof -
  consider (a) k where "\<forall>c \<in> set p. proper etld cl m c \<and> CanonicalKey c = k"
    | (b) c d where "p = [c]" "proper etld cl m d" "narrows c d"
    using assms(1) unfolding offerable_def by blast
  then show ?thesis
  proof cases
    case a
    have "set (take n p) \<subseteq> set p" by (rule set_take_subset)
    with a show ?thesis unfolding offerable_def by blast
  next
    case b
    then have "take n p = [c]" using assms(2) by (cases n) auto
    with b show ?thesis unfolding offerable_def by blast
  qed
qed

lemma prefer_cases:
  fixes url_path g gs thr
  defines "p \<equiv> preferNarrowerOnConcentration url_path g gs thr"
  shows "p = g \<or> narrower_group g gs thr = Some p
    \<or> (\<exists>c. p = [c] \<and> f64_less (0, 0) thr \<and> synthesizeNarrowerFromConcentration url_path (hd g) thr = Some c)"
  by (cases "narrower_group g gs thr"; cases "synthesizeNarrowerFromConcentration url_path (hd g) thr")
    (simp_all add: p_def preferNarrowerOnConcentration_def)

lemma produce_choose_offerable:
  assumes "produce_choose etld url_path order1 order2 thr n cl m = Chosen chosen"
    and "\<forall>gs. set (order1 gs) = set gs" and "\<forall>gs. set (order2 gs) = set gs" and "0 < n"
  shows "offerable etld cl m chosen" "chosen \<noteq> []"
proof -
  obtain k g where b: "best_group (mg_shuffleSeed m) (order1 (open_groups etld cl m)) = Some (k, g)"
    and ch: "chosen = take (nat n) (preferNarrowerOnConcentration url_path g (order2 (open_groups etld cl m)) thr)"
    using assms(1,4) by (auto simp: produce_choose_def open_groups_def cap_candidates_take Let_def split: option.splits)
  have kg: "(k, g) \<in> set (open_groups etld cl m)" using best_group_max [OF b] assms(2) by blast
  let ?p = "preferNarrowerOnConcentration url_path g (order2 (open_groups etld cl m)) thr"
  consider (same) "?p = g" | (group) k' where "(k', ?p) \<in> set (open_groups etld cl m)"
    | (made) c where "?p = [c]" "f64_less (0, 0) thr" "synthesizeNarrowerFromConcentration url_path (hd g) thr = Some c"
    using prefer_cases [of url_path g "order2 (open_groups etld cl m)" thr]
      narrower_group_member [of g "order2 (open_groups etld cl m)" thr] assms(3) by blast
  then have p: "offerable etld cl m ?p \<and> ?p \<noteq> []"
  proof cases
    case same
    then show ?thesis using open_group_member [OF kg] by (auto simp: offerable_def)
  next
    case group
    then show ?thesis using open_group_member [OF group] by (auto simp: offerable_def)
  next
    case made
    have "proper etld cl m (hd g)" using open_group_member [OF kg] by simp
    moreover have "narrows c (hd g)" by (rule synthesized_narrows [OF made(3,2)])
    ultimately show ?thesis using made(1) by (auto simp: offerable_def)
  qed
  show "chosen \<noteq> []" using p assms(4) by (simp add: ch)
  show "offerable etld cl m chosen" using p assms(4) by (simp add: ch offerable_take)
qed

lemma pickByRanking_member: "cs \<noteq> [] \<Longrightarrow> pickByRanking cs ranking \<in> set cs"
proof (induction ranking)
  case (Cons a as)
  then show ?case by (auto simp: find_Some_iff split: option.splits)
qed (auto split: list.splits)


definition idle_manager :: manager where
  "idle_manager = \<lparr>mg_cfgPath = ''f'', mg_rulesPath = [], mg_recognizer = None, mg_inbound = 0, mg_active = None,
     mg_sessionDeclined = (\<lambda>_. None), mg_sessionSkipped = [], mg_shuffleSeed = 7\<rparr>"

definition demo_lists :: "string list \<Rightarrow> string list list \<Rightarrow> current_lists" where
  "demo_lists allow declined = \<lparr>cl_allow = allow, cl_deny = [], cl_declined = declined\<rparr>"

text \<open>The default threshold of 0.8.\<close>

definition f64_08 :: f64 where "f64_08 = (7205759403792794, 53)"

lemma f64_quotients: "f64_div 4 5 = f64_08" "f64_div 1 2 = (4503599627370496, 53)" "\<not> f64_less (f64_div 8 10) f64_08"
  by code_simp+

definition demo_url_path :: "string \<Rightarrow> string option" where
  "demo_url_path u = (case index_str u ''://'' of None \<Rightarrow> None
     | Some i \<Rightarrow> Some (dropWhile (\<lambda>c. c \<noteq> CHR ''/'') (drop (i + 3) u)))"

definition three_users :: "string list" where
  "three_users = [''GET https://a.example.com/v/1'', ''GET https://a.example.com/v/2'']"

definition users_candidate :: candidate where
  "users_candidate = \<lparr>c_Axis = AxisURLSegment, c_List = ''allow'', c_SourceEntries = three_users,
     c_SuggestedPattern = ''GET https://a.example.com/v/*'', c_PatternMatch = None\<rparr>"


section \<open>Declining\<close>

lemma next_axis_Some:
  assumes "next_axis s = Some c"
  shows "c \<in> set (sg_AllAxes s)" "CanonicalKey c = CanonicalKey (sg_Candidate s)" "c_Axis c \<notin> set (sg_OfferedAxes s)"
proof -
  have "c \<in> set (sg_AllAxes s) \<and> CanonicalKey c = CanonicalKey (sg_Candidate s) \<and> c_Axis c \<notin> set (sg_OfferedAxes s)"
    using assms by (auto simp: next_axis_def Let_def find_Some_iff dest: nth_mem split: option.splits)
  then show "c \<in> set (sg_AllAxes s)" "CanonicalKey c = CanonicalKey (sg_Candidate s)" "c_Axis c \<notin> set (sg_OfferedAxes s)"
    by simp_all
qed

lemma next_axis_None:
  "next_axis s = None \<longleftrightarrow>
     (\<forall>c \<in> set (sg_AllAxes s). CanonicalKey c = CanonicalKey (sg_Candidate s) \<longrightarrow> c_Axis c \<in> set (sg_OfferedAxes s))"
proof -
  have "next_axis s = None \<longleftrightarrow> find (\<lambda>c. CanonicalKey c = CanonicalKey (sg_Candidate s)
      \<and> c_Axis c \<notin> set (sg_OfferedAxes s)) (sg_AllAxes s) = None"
    by (simp add: next_axis_def Let_def split: option.splits)
  then show ?thesis by (auto simp: find_None_iff)
qed

lemma remaining_decreases:
  "c \<in> set cs \<Longrightarrow> c_Axis c \<notin> set offered \<Longrightarrow>
     remainingAxesCount cs (offered @ [c_Axis c]) < remainingAxesCount cs offered"
  unfolding remainingAxesCount_def
proof (induction cs)
  case (Cons d ds)
  have le: "length (filter (\<lambda>x. c_Axis x \<notin> set (offered @ [c_Axis c])) ds) \<le> length (filter (\<lambda>x. c_Axis x \<notin> set offered) ds)"
    by (induction ds) auto
  show ?case
  proof (cases "c_Axis d = c_Axis c")
    case True
    with le Cons.prems(2) show ?thesis by (simp add: less_Suc_eq_le)
  next
    case False
    with Cons show ?thesis by auto
  qed
qed simp

lemma Decline_next:
  assumes "mg_active m = Some s" "next_axis s = Some c"
  shows "\<exists>m'. Decline y ok now dat (sg_ID s) m fs = (m', fs, Inr False)
    \<and> mg_active m' = Some (s\<lparr>sg_Candidate := c, sg_OfferedAxes := sg_OfferedAxes s @ [c_Axis c], sg_OfferedAt := now\<rparr>)"
  using assms by (simp add: Decline_def claim_active_def Let_def)

lemma Decline_last:
  assumes "mg_active m = Some s" "next_axis s = None"
  shows "mg_active (fst (Decline y ok now dat (sg_ID s) m fs)) = None"
  using assms by (simp add: Decline_def claim_active_def Let_def split: prod.split option.split)

lemma Decline_without_active:
  "mg_active m = None \<Longrightarrow> Decline y ok now dat sid m fs = (m, fs, Inl ErrNoActive)"
  by (simp add: Decline_def claim_active_def)

text \<open>An operator who keeps declining: whether the write works, the time, and its timestamp.\<close>

fun declines :: "yaml_env \<Rightarrow> string \<Rightarrow> (bool \<times> int \<times> string) list \<Rightarrow> manager \<times> files \<Rightarrow> manager \<times> files" where
  "declines y sid [] st = st"
| "declines y sid ((ok, now, dat) # xs) st =
     (case Decline y ok now dat sid (fst st) (snd st) of (m', fs', _) \<Rightarrow> declines y sid xs (m', fs'))"

lemma declines_without_active: "mg_active m = None \<Longrightarrow> declines y sid xs (m, fs) = (m, fs)"
  by (induction xs) (auto simp: Decline_without_active)

lemma decline_cycle_steps:
  "mg_active m = Some s \<Longrightarrow> sid = sg_ID s \<Longrightarrow> distinct (sg_OfferedAxes s) \<Longrightarrow>
   remainingAxesCount (sg_AllAxes s) (sg_OfferedAxes s) < length xs \<Longrightarrow>
     mg_active (fst (declines y sid xs (m, fs))) = None
     \<and> (\<exists>k m' s'. k < length xs \<and> declines y sid (take k xs) (m, fs) = (m', fs) \<and> mg_active m' = Some s'
        \<and> distinct (sg_OfferedAxes s') \<and> CanonicalKey (sg_Candidate s') = CanonicalKey (sg_Candidate s)
        \<and> (\<forall>c \<in> set (sg_AllAxes s). CanonicalKey c = CanonicalKey (sg_Candidate s) \<longrightarrow> c_Axis c \<in> set (sg_OfferedAxes s')))"
proof (induction xs arbitrary: m s)
  case (Cons x xs)
  obtain ok now dat where x: "x = (ok, now, dat)" by (cases x)
  show ?case
  proof (cases "next_axis s")
    case None
    have "mg_active (fst (declines y sid (x # xs) (m, fs))) = None"
      using Decline_last [OF Cons.prems(1) None, of y ok now dat fs] Cons.prems(2)
      by (cases "Decline y ok now dat (sg_ID s) m fs") (simp add: x declines_without_active)
    moreover have "declines y sid (take 0 (x # xs)) (m, fs) = (m, fs)" by simp
    moreover note None [unfolded next_axis_None] Cons.prems(1,3)
    ultimately show ?thesis by (metis length_greater_0_conv list.distinct(1))
  next
    case (Some c)
    let ?s = "s\<lparr>sg_Candidate := c, sg_OfferedAxes := sg_OfferedAxes s @ [c_Axis c], sg_OfferedAt := now\<rparr>"
    note n = next_axis_Some [OF Some]
    obtain m1 where m1: "Decline y ok now dat sid m fs = (m1, fs, Inr False)" "mg_active m1 = Some ?s"
      using Decline_next [OF Cons.prems(1) Some] Cons.prems(2) by blast
    have "remainingAxesCount (sg_AllAxes ?s) (sg_OfferedAxes ?s) < length xs"
      using remaining_decreases [OF n(1,3)] Cons.prems(4) by simp
    moreover have "distinct (sg_OfferedAxes ?s)" "sid = sg_ID ?s" using Cons.prems(2,3) n(3) by auto
    ultimately have IH: "mg_active (fst (declines y sid xs (m1, fs))) = None
      \<and> (\<exists>k m' s'. k < length xs \<and> declines y sid (take k xs) (m1, fs) = (m', fs) \<and> mg_active m' = Some s'
        \<and> distinct (sg_OfferedAxes s') \<and> CanonicalKey (sg_Candidate s') = CanonicalKey (sg_Candidate ?s)
        \<and> (\<forall>d \<in> set (sg_AllAxes ?s). CanonicalKey d = CanonicalKey (sg_Candidate ?s) \<longrightarrow> c_Axis d \<in> set (sg_OfferedAxes s')))"
      by (intro Cons.IH m1(2))
    then obtain k m' s' where k: "k < length xs" "declines y sid (take k xs) (m1, fs) = (m', fs)" "mg_active m' = Some s'"
      "distinct (sg_OfferedAxes s')" "CanonicalKey (sg_Candidate s') = CanonicalKey c"
      "\<forall>d \<in> set (sg_AllAxes s). CanonicalKey d = CanonicalKey c \<longrightarrow> c_Axis d \<in> set (sg_OfferedAxes s')" by auto
    have "declines y sid (take (Suc k) (x # xs)) (m, fs) = (m', fs)" "Suc k < length (x # xs)"
      using k(1,2) m1(1) by (simp_all add: x)
    moreover have "declines y sid (x # xs) (m, fs) = declines y sid xs (m1, fs)" using m1(1) by (simp add: x)
    ultimately show ?thesis using IH k n(2) by (intro conjI exI [of _ "Suc k"] exI [of _ m'] exI [of _ s']) auto
  qed
qed simp

text \<open>
  C15: declining ends. An operator who declines a suggestion once more than it has unoffered axes has
  no active suggestion left; before it went, every axis found for the same source entries had been
  offered, none twice, and no file had been touched.
\<close>

theorem decline_cycle:
  assumes "mg_active m = Some s" and "distinct (sg_OfferedAxes s)"
    and "remainingAxesCount (sg_AllAxes s) (sg_OfferedAxes s) < length xs"
  shows "mg_active (fst (declines y (sg_ID s) xs (m, fs))) = None
     \<and> (\<exists>k m' s'. k < length xs \<and> declines y (sg_ID s) (take k xs) (m, fs) = (m', fs) \<and> mg_active m' = Some s'
        \<and> distinct (sg_OfferedAxes s') \<and> CanonicalKey (sg_Candidate s') = CanonicalKey (sg_Candidate s)
        \<and> (\<forall>c \<in> set (sg_AllAxes s). CanonicalKey c = CanonicalKey (sg_Candidate s) \<longrightarrow> c_Axis c \<in> set (sg_OfferedAxes s')))"
  by (rule decline_cycle_steps [OF assms(1) refl assms(2,3)])

definition offered_users :: suggestion where
  "offered_users = \<lparr>sg_ID = ''s1'', sg_Candidate = users_candidate,
     sg_AllAxes = [users_candidate, users_candidate\<lparr>c_Axis := AxisMethod\<rparr>],
     sg_OfferedAxes = [AxisURLSegment], sg_Reason = [], sg_LLMInputHash = [], sg_OfferedAt = 0, sg_axisRanking = [AxisURLSegment, AxisMethod]\<rparr>"

theorem decline_cycle_witness:
  "mg_active (fst (declines \<lparr>ye_parse = \<lambda>_. None, ye_encode = \<lambda>_. None\<rparr> ''s1'' [(True, 1, ''t1''), (True, 2, ''t2'')]
      (idle_manager\<lparr>mg_active := Some offered_users\<rparr>, \<lambda>_. None))) = None"
proof -
  have a: "mg_active (idle_manager\<lparr>mg_active := Some offered_users\<rparr>) = Some offered_users" by simp
  have i: "sg_ID offered_users = ''s1''" by (simp add: offered_users_def)
  have d: "distinct (sg_OfferedAxes offered_users)" by (simp add: offered_users_def)
  have r: "remainingAxesCount (sg_AllAxes offered_users) (sg_OfferedAxes offered_users)
      < length [(True, 1::int, ''t1''), (True, 2, ''t2'')]"
    by (simp add: offered_users_def users_candidate_def remainingAxesCount_def)
  from decline_cycle [OF a d r, unfolded i] show ?thesis by blast
qed

text \<open>
  The narrower candidate the scorer makes is not checked against what was declined: the decline of
  exactly its entries is on file, and it is offered all the same.
\<close>

definition api_entries :: "string list" where
  "api_entries = [''GET https://h.com/api/a/1'', ''GET https://h.com/api/b/2'', ''GET https://h.com/api/c/3'',
     ''GET https://h.com/api/d/4'']"

definition made_candidate :: candidate where
  "made_candidate = \<lparr>c_Axis = AxisURLSegment, c_List = ''allow'', c_SourceEntries = api_entries,
     c_SuggestedPattern = ''GET https://h.com/api/*'', c_PatternMatch = None\<rparr>"

lemma declined_narrower_offered_again:
  "CanonicalKey made_candidate \<in> set (buildDeclineKeySet [api_entries])"
  "produce_choose demo_etld demo_url_path id id f64_08 8
     (demo_lists (api_entries @ [''GET https://h.com/z/5'']) [api_entries]) idle_manager = Chosen [made_candidate]"
  by code_simp+

text \<open>A limit below zero, which loads: the first open finding panics.\<close>

lemma negative_limit_example:
  "produce_choose demo_etld demo_url_path id id f64_08 (- 1) (demo_lists three_users []) idle_manager = Slice_panic"
  by code_simp

end
