(* ===== verification/Config.thy ===== *)
theory Config
  imports GoNet Sessions
begin

text \<open>
  \<open>internal/config/config.go\<close>: the configuration, its defaults and its validation. The YAML
  decoder is a parameter: what it makes of the first document, and of each later one. The parsing
  of a URL is a parameter too; only its scheme and host name are read.
\<close>

section \<open>The addresses of the surfaces\<close>

record bind =
  bi_Host :: string
  bi_Port :: int
  bi_Raw :: string

datatype bind_error =
    NotScalar | MissingBracket | MissingPortAfterBracket | PortNotInteger string | MissingPort | MissingHost
  | PortOutside int

definition splitHostPort :: "string \<Rightarrow> bind_error + string \<times> int" where
  "splitHostPort s =
     (if has_prefix s ''['' then
        (case last_index_byte s (CHR '']'') of
           None \<Rightarrow> Inl MissingBracket
         | Some e \<Rightarrow>
             let host = take (e - 1) (drop 1 s); rest = drop (Suc e) s in
             if \<not> has_prefix rest '':'' then Inl MissingPortAfterBracket
             else (case atoi (drop 1 rest) of
                 None \<Rightarrow> Inl (PortNotInteger (drop 1 rest)) | Some p \<Rightarrow> Inr (host, p)))
      else
        (case last_index_byte s (CHR '':'') of
           None \<Rightarrow> Inl MissingPort
         | Some i \<Rightarrow>
             let host = take i s in
             if host = [] then Inl MissingHost
             else (case atoi (drop (Suc i) s) of
                 None \<Rightarrow> Inl (PortNotInteger (drop (Suc i) s)) | Some p \<Rightarrow> Inr (host, p))))"

definition resolveHostAlias :: "string \<Rightarrow> string" where
  "resolveHostAlias h =
     (let k = to_lower (trim_space h) in
      if k = ''all'' then ''0.0.0.0'' else if k = ''lo'' then ''127.0.0.1'' else h)"

definition parseBindScalar :: "string \<Rightarrow> bind_error + bind" where
  "parseBindScalar raw =
     (let s = trim_space raw in
      if s = [] \<or> s = ''0'' then Inr \<lparr>bi_Host = [], bi_Port = 0, bi_Raw = raw\<rparr>
      else (case splitHostPort s of
          Inl e \<Rightarrow> Inl e
        | Inr (host, port) \<Rightarrow>
            if port < 1 \<or> port > 65535 then Inl (PortOutside port)
            else Inr \<lparr>bi_Host = resolveHostAlias host, bi_Port = port, bi_Raw = raw\<rparr>))"

definition UnmarshalYAML :: "bool \<Rightarrow> string \<Rightarrow> bind_error + bind" where
  "UnmarshalYAML is_scalar value = (if \<not> is_scalar then Inl NotScalar else parseBindScalar value)"

definition Disabled :: "bind \<Rightarrow> bool" where
  "Disabled b \<longleftrightarrow> bi_Port b = 0"

definition is_ipv6 :: "string \<Rightarrow> bool" where
  "is_ipv6 h \<longleftrightarrow> (case ParseIP h of None \<Rightarrow> False | Some ip \<Rightarrow> to4 ip = None)"

definition Addr :: "bind \<Rightarrow> string" where
  "Addr b =
     (if Disabled b then []
      else (if is_ipv6 (bi_Host b) then ''['' @ bi_Host b @ '']'' else bi_Host b) @ '':'' @ itoa (bi_Port b))"

definition ClientHost :: "bind \<Rightarrow> string" where
  "ClientHost b =
     (if bi_Host b = [] \<or> bi_Host b = ''0.0.0.0'' then ''127.0.0.1''
      else if bi_Host b = ''::'' \<or> bi_Host b = ''[::]'' then ''[::1]''
      else if is_ipv6 (bi_Host b) then ''['' @ bi_Host b @ '']''
      else bi_Host b)"

definition ClientAddr :: "bind \<Rightarrow> string" where
  "ClientAddr b = (if Disabled b then [] else ClientHost b @ '':'' @ itoa (bi_Port b))"

section \<open>The configuration\<close>

record interception_cfg =
  ic_Enabled :: bool
  ic_CACertPath :: string
  ic_CAKeyPath :: string
  ic_LeafKeyType :: string
  ic_PassthroughHosts :: "string list"
  ic_LeafCertTTLHours :: int
  ic_OriginTrustMode :: string
  ic_OriginTrustPath :: string

record llm_cfg =
  lm_Enabled :: bool
  lm_Provider :: string
  lm_Model :: string
  lm_Endpoint :: string
  lm_APIKeyPath :: string
  lm_TimeoutSeconds :: int
  lm_CacheTTLSeconds :: int
  lm_SendBody :: bool
  lm_OnUnavailable :: string
  lm_ConfidenceFloor :: string
  lm_Mode :: string
  lm_Directives :: string

record redaction_cfg =
  rd_DefaultModifiers :: "string list"
  rd_BodyRedactors :: "(string \<times> string) list"
  rd_QueryRedactors :: "string list"

record logging_cfg =
  lo_AuditPath :: string
  lo_AuditBufferSize :: int
  lo_AuditOverflow :: string
  lo_AuditLevel :: string
  lo_OperationalPath :: string

text \<open>The threshold is a signed numerator over a power of two, as the decoder rounds it; infinities
  and a NaN are left out.\<close>

record approvals_cfg =
  ap_TimeoutSeconds :: int
  ap_OnTimeout :: string
  ap_MaxPending :: int
  ap_SignalAfterSeconds :: int
  ap_SuggestionEnabled :: "bool option"
  ap_QuietIdleSeconds :: int
  ap_MaxCandidates :: int
  ap_PathConcentrationThreshold :: "int \<times> nat"

record forwarder_cfg =
  fw_MaxIdleConns :: int
  fw_MaxIdleConnsPerHost :: int
  fw_ConnectionAcquireTimeoutSeconds :: int

record config_identity =
  ci_ID :: string
  ci_MTLSCN :: string
  ci_BearerTokenSHA256 :: string
  ci_SourceIP :: string

record declined_row =
  dr_SourceEntries :: "string list"
  dr_AxesDeclined :: "string list"
  dr_DeclinedAt :: string

record config =
  cf_Proxy :: bind
  cf_Control :: bind
  cf_Metrics :: bind
  cf_ListsAllow :: "string list"
  cf_ListsDeny :: "string list"
  cf_ListsDeclined :: "declined_row list"
  cf_LLM :: llm_cfg
  cf_ControllerAuth :: string
  cf_ControllerClientCAPath :: string
  cf_Mode :: string
  cf_Interception :: interception_cfg
  cf_Redaction :: redaction_cfg
  cf_Logging :: logging_cfg
  cf_Approvals :: approvals_cfg
  cf_Forwarder :: forwarder_cfg
  cf_ShutdownGraceSeconds :: int
  cf_Identities :: "config_identity list"
  cf_PolicyInclude :: "string list"
  cf_UpstreamProxy :: string
  cf_UpstreamNoProxy :: "string list"
  cf_DecisionCacheTTLSeconds :: int
  cf_Chime :: "bool option"

definition ChimeEnabled :: "config \<Rightarrow> bool" where
  "ChimeEnabled c = (case cf_Chime c of None \<Rightarrow> True | Some b \<Rightarrow> b)"

section \<open>Defaults\<close>

definition or_str :: "string \<Rightarrow> string \<Rightarrow> string" where
  "or_str d s = (if s = [] then d else s)"

definition or_int :: "int \<Rightarrow> int \<Rightarrow> int" where
  "or_int d n = (if n = 0 then d else n)"

definition default_threshold :: "int \<times> nat" where
  "default_threshold = (7205759403792794, 53)"

text \<open>Zero or less, or more than one.\<close>

definition threshold_unset :: "int \<times> nat \<Rightarrow> bool" where
  "threshold_unset q \<longleftrightarrow> fst q \<le> 0 \<or> fst q > 2 ^ snd q"

definition default_llm :: "llm_cfg \<Rightarrow> llm_cfg" where
  "default_llm l = l\<lparr>lm_TimeoutSeconds := or_int 8 (lm_TimeoutSeconds l),
     lm_OnUnavailable := or_str ''ask_user'' (lm_OnUnavailable l), lm_Mode := or_str ''review'' (lm_Mode l)\<rparr>"

definition default_interception :: "interception_cfg \<Rightarrow> interception_cfg" where
  "default_interception i = i\<lparr>ic_LeafKeyType := or_str ''rsa-4096'' (ic_LeafKeyType i),
     ic_LeafCertTTLHours := or_int 24 (ic_LeafCertTTLHours i)\<rparr>"

definition default_logging :: "logging_cfg \<Rightarrow> logging_cfg" where
  "default_logging l = l\<lparr>lo_AuditBufferSize := or_int 1024 (lo_AuditBufferSize l),
     lo_AuditOverflow := or_str ''deny'' (lo_AuditOverflow l), lo_AuditLevel := or_str ''all'' (lo_AuditLevel l),
     lo_OperationalPath := or_str ''stderr'' (lo_OperationalPath l)\<rparr>"

definition default_approvals :: "approvals_cfg \<Rightarrow> approvals_cfg" where
  "default_approvals a = a\<lparr>ap_TimeoutSeconds := or_int 300 (ap_TimeoutSeconds a),
     ap_OnTimeout := or_str ''deny'' (ap_OnTimeout a), ap_MaxPending := or_int 100 (ap_MaxPending a),
     ap_QuietIdleSeconds := or_int 30 (ap_QuietIdleSeconds a), ap_MaxCandidates := or_int 8 (ap_MaxCandidates a),
     ap_PathConcentrationThreshold :=
       (if threshold_unset (ap_PathConcentrationThreshold a) then default_threshold else ap_PathConcentrationThreshold a)\<rparr>"

definition default_forwarder :: "forwarder_cfg \<Rightarrow> forwarder_cfg" where
  "default_forwarder f = f\<lparr>fw_MaxIdleConns := or_int 256 (fw_MaxIdleConns f),
     fw_MaxIdleConnsPerHost := or_int 32 (fw_MaxIdleConnsPerHost f),
     fw_ConnectionAcquireTimeoutSeconds := or_int 5 (fw_ConnectionAcquireTimeoutSeconds f)\<rparr>"

definition default_bind :: "bind \<Rightarrow> bind" where
  "default_bind b = (if bi_Raw b = [] \<and> bi_Port b = 0
     then \<lparr>bi_Host = ''127.0.0.1'', bi_Port = 8080, bi_Raw = ''lo:8080''\<rparr> else b)"

definition applyDefaults :: "config \<Rightarrow> config" where
  "applyDefaults c = c\<lparr>
     cf_Proxy := default_bind (cf_Proxy c),
     cf_ControllerAuth := or_str ''mtls'' (cf_ControllerAuth c),
     cf_Mode := or_str ''default-deny'' (cf_Mode c),
     cf_Interception := default_interception (cf_Interception c),
     cf_Logging := default_logging (cf_Logging c),
     cf_Approvals := default_approvals (cf_Approvals c),
     cf_Forwarder := default_forwarder (cf_Forwarder c),
     cf_ShutdownGraceSeconds := or_int 30 (cf_ShutdownGraceSeconds c),
     cf_DecisionCacheTTLSeconds := or_int 60 (cf_DecisionCacheTTLSeconds c),
     cf_LLM := default_llm (cf_LLM c)\<rparr>"

section \<open>Validation\<close>

text \<open>\<open>IsLoopback\<close>, \<open>IsPrivate\<close>, \<open>IsLinkLocalUnicast\<close> and \<open>IsUnspecified\<close> of \<open>net.IP\<close>.\<close>

definition IsLoopback :: "int list \<Rightarrow> bool" where
  "IsLoopback ip = (case to4 ip of Some q \<Rightarrow> hd q = 127 | None \<Rightarrow> ip = replicate 15 0 @ [1])"

definition IsPrivate :: "int list \<Rightarrow> bool" where
  "IsPrivate ip =
     (case to4 ip of
        Some q \<Rightarrow> q ! 0 = 10 \<or> q ! 0 = 172 \<and> q ! 1 div 16 = 1 \<or> q ! 0 = 192 \<and> q ! 1 = 168
      | None \<Rightarrow> length ip = 16 \<and> ip ! 0 div 2 = 126)"

definition IsLinkLocalUnicast :: "int list \<Rightarrow> bool" where
  "IsLinkLocalUnicast ip =
     (case to4 ip of
        Some q \<Rightarrow> q ! 0 = 169 \<and> q ! 1 = 254
      | None \<Rightarrow> length ip = 16 \<and> ip ! 0 = 254 \<and> ip ! 1 div 64 = 2)"

definition IsUnspecified :: "int list \<Rightarrow> bool" where
  "IsUnspecified ip = (case to4 ip of Some q \<Rightarrow> q = [0, 0, 0, 0] | None \<Rightarrow> ip = replicate 16 0)"

definition private_host :: "string \<Rightarrow> bool" where
  "private_host h =
     (case ParseIP h of
        None \<Rightarrow> False
      | Some ip \<Rightarrow> IsLoopback ip \<or> IsPrivate ip \<or> IsLinkLocalUnicast ip \<or> IsUnspecified ip)"

datatype endpoint_error = BadURL | NoHost | BadScheme string | CleartextToPublic
datatype endpoint_warning = NoWarning | HttpToPrivate string | PrivateTarget string

type_synonym url_parser = "string \<Rightarrow> (string \<times> string) option"

definition checkLLMEndpoint :: "url_parser \<Rightarrow> string \<Rightarrow> endpoint_error + endpoint_warning" where
  "checkLLMEndpoint parse endpoint =
     (case parse endpoint of
        None \<Rightarrow> Inl BadURL
      | Some (scheme, host) \<Rightarrow>
          if host = [] then Inl NoHost
          else if scheme \<noteq> ''http'' \<and> scheme \<noteq> ''https'' then Inl (BadScheme scheme)
          else if scheme = ''http'' then
            (if \<not> private_host host then Inl CleartextToPublic else Inr (HttpToPrivate host))
          else if private_host host then Inr (PrivateTarget host)
          else Inr NoWarning)"

datatype config_error =
    ConfigNotFound string | ConfigUnreadable string | ConfigUnparsable string | MultipleDocuments string
  | NotOneOf string string | ProxyRequired | PortRange string int | Collide string string string
  | MissingIdentityID nat | EndpointRejected endpoint_error

definition one_of :: "string \<Rightarrow> string \<Rightarrow> string list \<Rightarrow> bool \<times> config_error" where
  "one_of field v vs = (v \<notin> set vs, NotOneOf field v)"

definition port_ok :: "bind \<Rightarrow> bool" where
  "port_ok b \<longleftrightarrow> 1 \<le> bi_Port b \<and> bi_Port b \<le> 65535"

definition same_bind :: "bind \<Rightarrow> bind \<Rightarrow> bool" where
  "same_bind a b \<longleftrightarrow> bi_Host a = bi_Host b \<and> bi_Port a = bi_Port b"

definition missing_id :: "config_identity list \<Rightarrow> nat option" where
  "missing_id is = find (\<lambda>i. ci_ID (is ! i) = []) [0..<length is]"

text \<open>The checks in the order of the code: whether each fails, and its error.\<close>

definition config_checks :: "url_parser \<Rightarrow> config \<Rightarrow> (bool \<times> config_error) list" where
  "config_checks parse c =
     (let p = cf_Proxy c; k = cf_Control c; m = cf_Metrics c in
      [one_of ''mode'' (cf_Mode c) [''default-deny'', ''default-allow'', ''default-ask''],
       one_of ''controller.auth'' (cf_ControllerAuth c) [''mtls''],
       one_of ''logging.audit_overflow'' (lo_AuditOverflow (cf_Logging c)) [''deny'', ''drop'', ''block''],
       one_of ''logging.audit_level'' (lo_AuditLevel (cf_Logging c)) [''none'', ''decisions'', ''all''],
       one_of ''interception.leaf_key_type'' (ic_LeafKeyType (cf_Interception c)) [''rsa-4096'', ''ecdsa-p256''],
       one_of ''llm.mode'' (lm_Mode (cf_LLM c)) [''review'', ''research''],
       (Disabled p, ProxyRequired),
       (\<not> port_ok p, PortRange ''proxy'' (bi_Port p)),
       (\<not> Disabled k \<and> \<not> port_ok k, PortRange ''control'' (bi_Port k)),
       (\<not> Disabled m \<and> \<not> port_ok m, PortRange ''metrics'' (bi_Port m)),
       (\<not> Disabled k \<and> same_bind p k, Collide ''proxy'' ''control'' (Addr p)),
       (\<not> Disabled m \<and> same_bind p m, Collide ''proxy'' ''metrics'' (Addr p)),
       (\<not> Disabled m \<and> \<not> Disabled k \<and> same_bind k m, Collide ''control'' ''metrics'' (Addr k)),
       (missing_id (cf_Identities c) \<noteq> None, MissingIdentityID (the (missing_id (cf_Identities c)))),
       (lm_Enabled (cf_LLM c) \<and> lm_Endpoint (cf_LLM c) \<noteq> []
          \<and> (case checkLLMEndpoint parse (lm_Endpoint (cf_LLM c)) of Inl _ \<Rightarrow> True | Inr _ \<Rightarrow> False),
        EndpointRejected (case checkLLMEndpoint parse (lm_Endpoint (cf_LLM c)) of Inl e \<Rightarrow> e | Inr _ \<Rightarrow> BadURL))])"

definition validate_config :: "url_parser \<Rightarrow> config \<Rightarrow> config_error option" where
  "validate_config parse c = map_option snd (find fst (config_checks parse c))"

section \<open>Loading\<close>

definition zero_bind :: bind where
  "zero_bind = \<lparr>bi_Host = [], bi_Port = 0, bi_Raw = []\<rparr>"

definition zero_config :: config where
  "zero_config = \<lparr>cf_Proxy = zero_bind, cf_Control = zero_bind, cf_Metrics = zero_bind,
     cf_ListsAllow = [], cf_ListsDeny = [], cf_ListsDeclined = [],
     cf_LLM = \<lparr>lm_Enabled = False, lm_Provider = [], lm_Model = [], lm_Endpoint = [], lm_APIKeyPath = [],
       lm_TimeoutSeconds = 0, lm_CacheTTLSeconds = 0, lm_SendBody = False, lm_OnUnavailable = [],
       lm_ConfidenceFloor = [], lm_Mode = [], lm_Directives = []\<rparr>,
     cf_ControllerAuth = [], cf_ControllerClientCAPath = [], cf_Mode = [],
     cf_Interception = \<lparr>ic_Enabled = False, ic_CACertPath = [], ic_CAKeyPath = [], ic_LeafKeyType = [],
       ic_PassthroughHosts = [], ic_LeafCertTTLHours = 0, ic_OriginTrustMode = [], ic_OriginTrustPath = []\<rparr>,
     cf_Redaction = \<lparr>rd_DefaultModifiers = [], rd_BodyRedactors = [], rd_QueryRedactors = []\<rparr>,
     cf_Logging = \<lparr>lo_AuditPath = [], lo_AuditBufferSize = 0, lo_AuditOverflow = [], lo_AuditLevel = [],
       lo_OperationalPath = []\<rparr>,
     cf_Approvals = \<lparr>ap_TimeoutSeconds = 0, ap_OnTimeout = [], ap_MaxPending = 0, ap_SignalAfterSeconds = 0,
       ap_SuggestionEnabled = None, ap_QuietIdleSeconds = 0, ap_MaxCandidates = 0,
       ap_PathConcentrationThreshold = (0, 0)\<rparr>,
     cf_Forwarder = \<lparr>fw_MaxIdleConns = 0, fw_MaxIdleConnsPerHost = 0, fw_ConnectionAcquireTimeoutSeconds = 0\<rparr>,
     cf_ShutdownGraceSeconds = 0, cf_Identities = [], cf_PolicyInclude = [], cf_UpstreamProxy = [],
     cf_UpstreamNoProxy = [], cf_DecisionCacheTTLSeconds = 0, cf_Chime = None\<rparr>"

datatype first_document = FirstEOF | FirstError | FirstConfig config
datatype extra_document = ExtraError | ExtraNull | ExtraContent

type_synonym yaml_decoder = "string \<Rightarrow> first_document \<times> extra_document list"

fun extra_documents :: "string \<Rightarrow> extra_document list \<Rightarrow> config_error option" where
  "extra_documents path [] = None"
| "extra_documents path (ExtraError # ds) = Some (ConfigUnparsable path)"
| "extra_documents path (ExtraContent # ds) = Some (MultipleDocuments path)"
| "extra_documents path (ExtraNull # ds) = extra_documents path ds"

datatype file_read = FileMissing | FileUnreadable | FileBytes string

text \<open>The configuration, and the advisory about its endpoint when there is one.\<close>

definition Load :: "yaml_decoder \<Rightarrow> url_parser \<Rightarrow> string \<Rightarrow> file_read \<Rightarrow> config_error + config \<times> endpoint_warning" where
  "Load decode parse path file =
     (case file of
        FileMissing \<Rightarrow> Inl (ConfigNotFound path)
      | FileUnreadable \<Rightarrow> Inl (ConfigUnreadable path)
      | FileBytes data \<Rightarrow>
          (case decode data of (first, extra) \<Rightarrow>
             if (case first of FirstError \<Rightarrow> True | _ \<Rightarrow> False) then Inl (ConfigUnparsable path)
             else (case extra_documents path extra of
                 Some e \<Rightarrow> Inl e
               | None \<Rightarrow>
                   let c = applyDefaults (case first of FirstConfig c \<Rightarrow> c | _ \<Rightarrow> zero_config) in
                   (case validate_config parse c of
                      Some e \<Rightarrow> Inl e
                    | None \<Rightarrow> Inr (c,
                        if lm_Enabled (cf_LLM c) \<and> lm_Endpoint (cf_LLM c) \<noteq> []
                        then (case checkLLMEndpoint parse (lm_Endpoint (cf_LLM c)) of Inr w \<Rightarrow> w | Inl _ \<Rightarrow> NoWarning)
                        else NoWarning)))))"

section \<open>Include paths\<close>

text \<open>\<open>filepath.Clean\<close>, \<open>Dir\<close>, \<open>Join\<close> and \<open>IsAbs\<close> where the separator is a slash.\<close>

definition clean_step :: "bool \<Rightarrow> string \<Rightarrow> string list \<Rightarrow> string list" where
  "clean_step rooted part out =
     (if part = [] \<or> part = ''.'' then out
      else if part = ''..'' then
        (if out \<noteq> [] \<and> hd out \<noteq> ''..'' then tl out else if rooted then out else ''..'' # out)
      else part # out)"

definition path_clean :: "string \<Rightarrow> string" where
  "path_clean p =
     (let rooted = has_prefix p ''/''; parts = rev (fold (clean_step rooted) (split_on (CHR ''/'') p) []) in
      if rooted then ''/'' @ join_with ''/'' parts
      else if parts = [] then ''.'' else join_with ''/'' parts)"

definition path_dir :: "string \<Rightarrow> string" where
  "path_dir p = path_clean (case last_index_byte p (CHR ''/'') of None \<Rightarrow> [] | Some i \<Rightarrow> take (Suc i) p)"

definition path_join :: "string \<Rightarrow> string \<Rightarrow> string" where
  "path_join a b = (if a \<noteq> [] then path_clean (a @ ''/'' @ b) else if b \<noteq> [] then path_clean b else [])"

definition resolveRelative :: "string \<Rightarrow> string list \<Rightarrow> string list" where
  "resolveRelative configPath items =
     map (\<lambda>p. if has_prefix p ''/'' then p else path_join (path_dir configPath) p) items"

definition ResolveIncludePaths :: "config \<Rightarrow> string \<Rightarrow> string list" where
  "ResolveIncludePaths c configPath = resolveRelative configPath (cf_PolicyInclude c)"

section \<open>A printed address reads back\<close>

lemma alias_idem [simp]: "resolveHostAlias (resolveHostAlias h) = resolveHostAlias h"
proof -
  have "resolveHostAlias ''0.0.0.0'' = ''0.0.0.0''" "resolveHostAlias ''127.0.0.1'' = ''127.0.0.1''" by code_simp+
  then show ?thesis by (simp add: resolveHostAlias_def Let_def)
qed

lemma itoa_ends:
  assumes "1 \<le> i" "i \<le> 65535"
  shows "CHR '':'' \<notin> set (itoa i)" "CHR '']'' \<notin> set (itoa i)" "itoa i \<noteq> []" "\<not> is_space (last (itoa i))"
    "atoi (itoa i) = Some i"
proof -
  have d: "list_all is_digit (itoa i)" "itoa i \<noteq> []" using assms by (simp_all add: itoa_def nat_digits_digits)
  then show "CHR '':'' \<notin> set (itoa i)" "CHR '']'' \<notin> set (itoa i)" "itoa i \<noteq> []"
    by (auto simp: list_all_iff is_digit_def)
  have "is_digit (last (itoa i))" using d by (simp add: list_all_iff)
  then show "\<not> is_space (last (itoa i))" by (auto simp: is_digit_def is_space_def)
  show "atoi (itoa i) = Some i" using assms by (intro atoi_itoa) (simp add: int64_range_def)
qed

lemma splitHostPort_bracketed:
  assumes "1 \<le> p" "p \<le> 65535"
  shows "splitHostPort (''['' @ h @ '']'' @ '':'' @ itoa p) = Inr (h, p)"
proof -
  have "last_index_byte ((''['' @ h) @ CHR '']'' # '':'' @ itoa p) (CHR '']'') = Some (length (''['' @ h))"
    using itoa_ends(2) [OF assms] by (intro last_index_byte_append) auto
  then show ?thesis using itoa_ends(5) [OF assms] by (simp add: splitHostPort_def has_prefix_def Let_def)
qed

lemma splitHostPort_plain:
  assumes "1 \<le> p" "p \<le> 65535" "h \<noteq> []" "hd h \<noteq> CHR ''[''"
  shows "splitHostPort (h @ '':'' @ itoa p) = Inr (h, p)"
proof -
  have "last_index_byte (h @ CHR '':'' # itoa p) (CHR '':'') = Some (length h)"
    using itoa_ends(1) [OF assms(1,2)] by (rule last_index_byte_append)
  moreover have "\<not> has_prefix (h @ '':'' @ itoa p) ''[''" using assms(3,4) by (cases h) (auto simp: has_prefix_def)
  ultimately show ?thesis using itoa_ends(5) [OF assms(1,2)] assms(3) by (simp add: splitHostPort_def Let_def)
qed

lemma parseBindScalar_Inr:
  assumes "parseBindScalar raw = Inr b" "\<not> Disabled b"
  shows "1 \<le> bi_Port b" "bi_Port b \<le> 65535" "resolveHostAlias (bi_Host b) = bi_Host b"
  using assms by (auto simp: parseBindScalar_def Disabled_def Let_def split: if_splits sum.splits)

text \<open>
  The printed address of a surface reads back as that surface. Whatever scalar a bind was parsed
  from, parsing its \<open>Addr\<close> gives the same host and port, IPv6 hosts included, provided the host is
  not empty and starts with neither a bracket nor a space; a disabled surface prints the empty text,
  which reads back as disabled.
\<close>

lemma bind_roundtrip:
  assumes "parseBindScalar raw = Inr b"
    and "Disabled b \<or> bi_Host b \<noteq> [] \<and> hd (bi_Host b) \<noteq> CHR ''['' \<and> \<not> is_space (hd (bi_Host b))"
  shows "\<exists>b'. parseBindScalar (Addr b) = Inr b' \<and> bi_Port b' = bi_Port b \<and> (Disabled b \<or> bi_Host b' = bi_Host b)"
proof (cases "Disabled b")
  case True
  then show ?thesis by (simp add: Addr_def parseBindScalar_def Disabled_def trim_space_def trim_left_def trim_right_def)
next
  case False
  note p = parseBindScalar_Inr [OF assms(1) False]
  note e = itoa_ends [OF p(1,2)]
  have h: "bi_Host b \<noteq> []" "hd (bi_Host b) \<noteq> CHR ''[''" "\<not> is_space (hd (bi_Host b))" using assms(2) False by auto
  have split: "splitHostPort (Addr b) = Inr (bi_Host b, bi_Port b)"
    using False splitHostPort_bracketed [OF p(1,2)] splitHostPort_plain [OF p(1,2) h(1,2)] by (simp add: Addr_def)
  have ne: "Addr b \<noteq> []" "\<not> is_space (hd (Addr b))" "CHR '':'' \<in> set (Addr b)"
    using False h by (auto simp: Addr_def hd_append is_space_def)
  have "last (Addr b) = last (itoa (bi_Port b))" using False e(3) by (simp add: Addr_def)
  then have "trim_space (Addr b) = Addr b" using ne e(4) by (simp add: trim_space_fix)
  moreover have "Addr b \<noteq> ''0''" using ne(3) by auto
  ultimately show ?thesis using split ne(1) p by (simp add: parseBindScalar_def)
qed

lemma bind_roundtrip_example:
  "\<exists>b b'. parseBindScalar '' fd00::1:81 '' = Inr b \<and> Addr b = ''[fd00::1]:81''
     \<and> parseBindScalar (Addr b) = Inr b' \<and> bi_Host b' = ''fd00::1''"
proof -
  let ?b = "\<lparr>bi_Host = ''fd00::1'', bi_Port = 81, bi_Raw = '' fd00::1:81 ''\<rparr>"
  have p: "parseBindScalar '' fd00::1:81 '' = Inr ?b" by code_simp
  have h: "Disabled ?b \<or> bi_Host ?b \<noteq> [] \<and> hd (bi_Host ?b) \<noteq> CHR ''['' \<and> \<not> is_space (hd (bi_Host ?b))" by code_simp
  have "\<not> Disabled ?b" "Addr ?b = ''[fd00::1]:81''" by code_simp+
  with bind_roundtrip [OF p h] p show ?thesis by auto
qed

text \<open>An empty host is refused as such, yet accepted between brackets, where it listens everywhere.\<close>

lemma empty_bracket_host_accepted:
  "parseBindScalar '':80'' = Inl MissingHost"
  "parseBindScalar ''[]:80'' = Inr \<lparr>bi_Host = [], bi_Port = 80, bi_Raw = ''[]:80''\<rparr>"
  "Addr \<lparr>bi_Host = [], bi_Port = 80, bi_Raw = ''[]:80''\<rparr> = '':80''"
  by code_simp+

section \<open>What loads\<close>

lemma or_idem [simp]: "or_str d (or_str d s) = or_str d s" "or_int k (or_int k n) = or_int k n"
  by (simp_all add: or_str_def or_int_def)

lemma default_bind_idem [simp]: "default_bind (default_bind b) = default_bind b"
  by (simp add: default_bind_def)

lemma default_threshold_set: "\<not> threshold_unset default_threshold"
  by (simp add: threshold_unset_def default_threshold_def)

lemma applyDefaults_idem: "applyDefaults (applyDefaults c) = applyDefaults c"
  by (simp add: applyDefaults_def default_interception_def default_logging_def default_approvals_def
      default_forwarder_def default_llm_def default_threshold_set)

lemma validate_none: "validate_config parse c = None \<longleftrightarrow> (\<forall>k \<in> set (config_checks parse c). \<not> fst k)"
  by (auto simp: validate_config_def find_None_iff)

lemma missing_id_None: "missing_id is = None \<longleftrightarrow> (\<forall>i \<in> set is. ci_ID i \<noteq> [])"
  by (fastforce simp: missing_id_def find_None_iff in_set_conv_nth)

lemma endpoint_accepted:
  "checkLLMEndpoint parse u = Inr w \<Longrightarrow>
     \<exists>scheme host. parse u = Some (scheme, host) \<and> (scheme = ''https'' \<or> scheme = ''http'' \<and> private_host host)"
  by (auto simp: checkLLMEndpoint_def split: option.splits if_splits)

text \<open>The surfaces that listen.\<close>

definition surfaces :: "config \<Rightarrow> (string \<times> int) list" where
  "surfaces c = map (\<lambda>b. (bi_Host b, bi_Port b)) (filter (\<lambda>b. \<not> Disabled b) [cf_Proxy c, cf_Control c, cf_Metrics c])"

definition endpoint_safe :: "url_parser \<Rightarrow> llm_cfg \<Rightarrow> bool" where
  "endpoint_safe parse l \<longleftrightarrow> (lm_Enabled l \<and> lm_Endpoint l \<noteq> [] \<longrightarrow>
     (\<exists>scheme host. parse (lm_Endpoint l) = Some (scheme, host) \<and> (scheme = ''https'' \<or> scheme = ''http'' \<and> private_host host)))"

lemma validated_checks:
  assumes "validate_config parse c = None"
  shows "cf_Mode c \<in> {''default-deny'', ''default-allow'', ''default-ask''}"
    "lo_AuditOverflow (cf_Logging c) \<in> {''deny'', ''drop'', ''block''}"
    "lo_AuditLevel (cf_Logging c) \<in> {''none'', ''decisions'', ''all''}"
    "port_ok (cf_Proxy c)"
    "Disabled (cf_Control c) \<or> port_ok (cf_Control c) \<and> \<not> same_bind (cf_Proxy c) (cf_Control c)"
    "Disabled (cf_Metrics c) \<or> port_ok (cf_Metrics c) \<and> \<not> same_bind (cf_Proxy c) (cf_Metrics c)"
    "Disabled (cf_Metrics c) \<or> Disabled (cf_Control c) \<or> \<not> same_bind (cf_Control c) (cf_Metrics c)"
    "missing_id (cf_Identities c) = None"
    "lm_Enabled (cf_LLM c) \<longrightarrow> lm_Endpoint (cf_LLM c) \<noteq> [] \<longrightarrow> (\<exists>w. checkLLMEndpoint parse (lm_Endpoint (cf_LLM c)) = Inr w)"
  using assms unfolding validate_none config_checks_def Let_def one_of_def
  by (simp_all split: sum.splits) blast+

lemma validated_config:
  assumes "validate_config parse c = None"
  shows "distinct (surfaces c)" "\<forall>(h, p) \<in> set (surfaces c). 1 \<le> p \<and> p \<le> 65535"
    "\<forall>i \<in> set (cf_Identities c). ci_ID i \<noteq> []" "endpoint_safe parse (cf_LLM c)"
    "(bi_Host (cf_Proxy c), bi_Port (cf_Proxy c)) \<in> set (surfaces c)"
proof -
  note v = validated_checks [OF assms]
  show "distinct (surfaces c)" using v(5-7) by (auto simp: surfaces_def same_bind_def)
  show "\<forall>(h, p) \<in> set (surfaces c). 1 \<le> p \<and> p \<le> 65535" using v(4-6) by (auto simp: surfaces_def port_ok_def)
  show "\<forall>i \<in> set (cf_Identities c). ci_ID i \<noteq> []" using v(8) by (simp add: missing_id_None)
  show "endpoint_safe parse (cf_LLM c)" using v(9) endpoint_accepted by (auto simp: endpoint_safe_def)
  show "(bi_Host (cf_Proxy c), bi_Port (cf_Proxy c)) \<in> set (surfaces c)"
    using v(4) by (auto simp: surfaces_def port_ok_def Disabled_def)
qed

text \<open>
  C37: what loads is complete and safe to run. A file that loads, whatever it holds, gives a
  configuration that defaults no longer change, with a proxy address and distinct addresses with
  valid ports for the surfaces that listen, a known mode, audit level and overflow behaviour, named
  identities, and no advisor reached over cleartext HTTP unless at a literal private address.
\<close>

theorem Load_contract:
  assumes "Load decode parse path file = Inr (c, w)"
  shows "applyDefaults c = c \<and> cf_Mode c \<in> {''default-deny'', ''default-allow'', ''default-ask''}
    \<and> lo_AuditOverflow (cf_Logging c) \<in> {''deny'', ''drop'', ''block''}
    \<and> lo_AuditLevel (cf_Logging c) \<in> {''none'', ''decisions'', ''all''}
    \<and> (bi_Host (cf_Proxy c), bi_Port (cf_Proxy c)) \<in> set (surfaces c) \<and> distinct (surfaces c)
    \<and> (\<forall>(h, p) \<in> set (surfaces c). 1 \<le> p \<and> p \<le> 65535) \<and> (\<forall>i \<in> set (cf_Identities c). ci_ID i \<noteq> [])
    \<and> endpoint_safe parse (cf_LLM c)"
proof -
  obtain c0 where c: "c = applyDefaults c0" "validate_config parse c = None"
    using assms by (auto simp: Load_def Let_def split: file_read.splits prod.splits if_splits option.splits)
  have "applyDefaults c = c" using c(1) applyDefaults_idem by simp
  with validated_checks(1-3) [OF c(2)] validated_config [OF c(2)] show ?thesis by blast
qed

definition demo_decode :: "config \<Rightarrow> yaml_decoder" where
  "demo_decode c = (\<lambda>_. (FirstConfig c, [ExtraNull]))"

lemmas default_simps = validate_none config_checks_def Let_def one_of_def missing_id_None applyDefaults_def zero_config_def
  default_bind_def or_str_def or_int_def default_interception_def default_logging_def default_approvals_def
  default_forwarder_def default_llm_def Disabled_def port_ok_def zero_bind_def

text \<open>The minimal file: everything is a default.\<close>

theorem Load_contract_witness:
  "\<exists>c w. Load (demo_decode zero_config) (\<lambda>_. None) ''f'' (FileBytes ''{}'') = Inr (c, w)
     \<and> surfaces c = [(''127.0.0.1'', 8080)] \<and> applyDefaults c = c"
proof -
  have "validate_config (\<lambda>_. None) (applyDefaults zero_config) = None" "\<not> lm_Enabled (cf_LLM (applyDefaults zero_config))"
    by (simp_all add: default_simps)
  then have l: "Load (demo_decode zero_config) (\<lambda>_. None) ''f'' (FileBytes ''{}'') = Inr (applyDefaults zero_config, NoWarning)"
    by (simp add: Load_def demo_decode_def)
  have s: "surfaces (applyDefaults zero_config) = [(''127.0.0.1'', 8080)]" by code_simp
  from Load_contract [OF l] l s show ?thesis by blast
qed

text \<open>
  Numbers are not checked for their sign, and several texts not for their value: a negative limit of
  suggestion candidates and a misspelt confidence floor both load.
\<close>

definition careless :: config where
  "careless = zero_config\<lparr>cf_Approvals := (cf_Approvals zero_config)\<lparr>ap_MaxCandidates := - 1, ap_MaxPending := - 5\<rparr>,
     cf_LLM := (cf_LLM zero_config)\<lparr>lm_ConfidenceFloor := ''hihg''\<rparr>\<rparr>"

lemma careless_loads:
  "Load (demo_decode careless) (\<lambda>_. None) ''f'' (FileBytes []) = Inr (applyDefaults careless, NoWarning)"
  "ap_MaxCandidates (cf_Approvals (applyDefaults careless)) = - 1"
  "ap_MaxPending (cf_Approvals (applyDefaults careless)) = - 5"
  "lm_ConfidenceFloor (cf_LLM (applyDefaults careless)) = ''hihg''"
proof -
  have "validate_config (\<lambda>_. None) (applyDefaults careless) = None" "\<not> lm_Enabled (cf_LLM (applyDefaults careless))"
    by (simp_all add: careless_def default_simps)
  then show "Load (demo_decode careless) (\<lambda>_. None) ''f'' (FileBytes []) = Inr (applyDefaults careless, NoWarning)"
    by (simp add: Load_def demo_decode_def)
qed (code_simp+)

end
