(* ===== verification/Console.thy ===== *)
theory Console
  imports ConfigWrite Config
begin

text \<open>
  The operator's command line (\<open>internal/console/console.go\<close>): one command at a time over the
  configuration file, with what it prints, whether it asks for a reload and whether it quits. The
  text of an error and of the help are message values; the callbacks of \<open>test\<close> and \<open>doctor\<close>, the
  updater and the remote list writer are parameters.
\<close>

section \<open>State\<close>

datatype callback_result = Returned string "string option" | Panicked string string

text \<open>A remote edit: verb, list and pattern; the files are those of the proxy host.\<close>

datatype edit_verb = Add_verb | Remove_verb
type_synonym remote_writer = "edit_verb \<Rightarrow> string \<Rightarrow> string \<Rightarrow> files \<Rightarrow> files \<times> (string + bool)"

record backend =
  bk_ConfigPath :: string
  bk_OnReload :: bool
  bk_OnTest :: "(string \<Rightarrow> callback_result) option"
  bk_OnDoctor :: "callback_result option"
  bk_LocalOnly :: bool
  bk_Remote :: "remote_writer option"

record console_env =
  cv_yaml :: yaml_env
  cv_ok1 :: bool
  cv_ok2 :: bool
  cv_decode :: yaml_decoder
  cv_url :: url_parser
  cv_windows :: bool
  cv_update :: callback_result

datatype console_line =
    UnknownCommand string | NotInAttach string | NotWired string | UsageTest | UsageAdd string | UsageRemove | UsageMove
  | UsageList | BadPattern pattern_error | NoConfigPath | WriteFailed string write_error | LoadFailed string config_error
  | AlreadyIn string string | AddedTo string string int | RemovedFrom string "string list" | NotFound string
  | MovedTo string string | RemovedFromOther string string | AlreadyThere string string
  | RemoteFailed edit_verb string string | RemoteNoop string string | RemoteDone edit_verb string string
  | CallbackText string | CallbackFailed string string | CallbackPanic string string
  | WindowsUpdate | UpdateRunning | UpdateComplete | HelpText bool | Listed string "string list" nat | Generalized string string

record console_result =
  xr_files :: files
  xr_out :: "console_line list"
  xr_reload :: bool
  xr_quit :: bool

text \<open>A command that only prints.\<close>

definition says :: "files \<Rightarrow> console_line list \<Rightarrow> console_result" where
  "says fs out = \<lparr>xr_files = fs, xr_out = out, xr_reload = False, xr_quit = False\<rparr>"

text \<open>A command that has written and asks for the reload.\<close>

definition wrote :: "backend \<Rightarrow> files \<Rightarrow> console_line list \<Rightarrow> console_result" where
  "wrote b fs out = \<lparr>xr_files = fs, xr_out = out, xr_reload = bk_OnReload b, xr_quit = False\<rparr>"

section \<open>Commands\<close>

definition blank :: "char \<Rightarrow> bool" where
  "blank c \<longleftrightarrow> c = CHR '' '' \<or> c = char_of (9 :: nat)"

definition splitCmd :: "string \<Rightarrow> string \<times> string" where
  "splitCmd line =
     (let line = trim_space line in
      (takeWhile (\<lambda>c. \<not> blank c) line, trim_space (dropWhile (\<lambda>c. \<not> blank c) line)))"

definition load_config :: "console_env \<Rightarrow> string \<Rightarrow> files \<Rightarrow> config_error + config \<times> endpoint_warning" where
  "load_config env path fs =
     Load (cv_decode env) (cv_url env) path (case fs path of None \<Rightarrow> FileMissing | Some d \<Rightarrow> FileBytes d)"

definition real_entry :: "string \<Rightarrow> bool" where
  "real_entry e \<longleftrightarrow> trim_space e \<noteq> [] \<and> \<not> has_prefix (trim_space e) ''#''"

definition entries_of :: "string \<Rightarrow> config \<Rightarrow> string list" where
  "entries_of label c = (if label = ''allow'' then cf_ListsAllow c else if label = ''deny'' then cf_ListsDeny c else [])"

definition countList :: "console_env \<Rightarrow> backend \<Rightarrow> string \<Rightarrow> files \<Rightarrow> int" where
  "countList env b label fs =
     (case load_config env (bk_ConfigPath b) fs of
        Inl _ \<Rightarrow> - 1
      | Inr (c, _) \<Rightarrow> int (length (filter real_entry (entries_of label c))))"

definition printList :: "string \<Rightarrow> string list \<Rightarrow> console_line" where
  "printList name es = Listed name (filter real_entry es) (length (filter real_entry es))"

text \<open>The two-step write of an operator action.\<close>

definition operator_action ::
    "console_env \<Rightarrow> string \<Rightarrow> string \<Rightarrow> string \<Rightarrow> files \<Rightarrow> files \<times> (write_error option \<times> bool) \<times> (write_error option \<times> bool)" where
  "operator_action env path label pat fs =
     (if label = ''allow'' then OperatorApprove (cv_yaml env) (cv_ok1 env) (cv_ok2 env) path pat fs
      else OperatorDeny (cv_yaml env) (cv_ok1 env) (cv_ok2 env) path pat fs)"

definition addPattern :: "console_env \<Rightarrow> backend \<Rightarrow> string \<Rightarrow> string \<Rightarrow> files \<Rightarrow> console_result" where
  "addPattern env b label pat fs =
     (let pat = trim_space pat in
      if pat = [] then says fs [UsageAdd label]
      else case ValidatePattern pat of
        Some e \<Rightarrow> says fs [BadPattern e]
      | None \<Rightarrow>
          if bk_ConfigPath b = [] then says fs [NoConfigPath]
          else (case operator_action env (bk_ConfigPath b) label pat fs of
              (fs', (Some e, _), _) \<Rightarrow> says fs' [WriteFailed (bk_ConfigPath b) e]
            | (fs', (None, _), (Some e, _)) \<Rightarrow> says fs' [WriteFailed (bk_ConfigPath b) e]
            | (fs', (None, _), (None, changed)) \<Rightarrow>
                if \<not> changed then says fs' [AlreadyIn pat label]
                else wrote b fs' [AddedTo pat label (countList env b label fs')]))"

definition AcceptGeneralization :: "console_env \<Rightarrow> backend \<Rightarrow> string \<Rightarrow> string \<Rightarrow> string list \<Rightarrow> files \<Rightarrow> console_result" where
  "AcceptGeneralization env b l pat sources fs =
     (if \<not> bk_LocalOnly b then says fs [NotInAttach ''generalize'']
      else if bk_ConfigPath b = [] then says fs [NoConfigPath]
      else (case ConfigWrite.Generalize (cv_yaml env) (cv_ok1 env) (bk_ConfigPath b) l pat sources fs of
          (fs', Some e, _) \<Rightarrow> says fs' [WriteFailed (bk_ConfigPath b) e]
        | (fs', None, changed) \<Rightarrow>
            if \<not> changed then says fs' [AlreadyIn pat l] else wrote b fs' [Generalized pat l]))"

definition removePattern :: "console_env \<Rightarrow> backend \<Rightarrow> string \<Rightarrow> files \<Rightarrow> console_result" where
  "removePattern env b pat fs =
     (let pat = trim_space pat; path = bk_ConfigPath b in
      if pat = [] then says fs [UsageRemove]
      else if path = [] then says fs [NoConfigPath]
      else (case RemoveAllow (cv_yaml env) (cv_ok1 env) path pat fs of
          (fs1, Some e, _) \<Rightarrow> says fs1 [WriteFailed path e]
        | (fs1, None, fromAllow) \<Rightarrow>
            (case RemoveDeny (cv_yaml env) (cv_ok2 env) path pat fs1 of
               (fs2, Some e, _) \<Rightarrow> says fs2 [WriteFailed path e]
             | (fs2, None, fromDeny) \<Rightarrow>
                 if \<not> fromAllow \<and> \<not> fromDeny then says fs2 [NotFound pat]
                 else wrote b fs2 [RemovedFrom pat ((if fromAllow then [''allow''] else []) @ (if fromDeny then [''deny''] else []))])))"

definition movePattern :: "console_env \<Rightarrow> backend \<Rightarrow> string \<Rightarrow> files \<Rightarrow> console_result" where
  "movePattern env b arg fs =
     (case splitCmd arg of (side, pat) \<Rightarrow>
        let side = to_lower (trim_space side); pat = trim_space pat; path = bk_ConfigPath b in
        if side \<noteq> ''allow'' \<and> side \<noteq> ''deny'' then says fs [UsageMove]
        else if pat = [] then says fs [UsageMove]
        else (case ValidatePattern pat of
            Some e \<Rightarrow> says fs [BadPattern e]
          | None \<Rightarrow>
              if path = [] then says fs [NoConfigPath]
              else (case operator_action env path side pat fs of
                  (fs', (Some e, _), _) \<Rightarrow> says fs' [WriteFailed path e]
                | (fs', (None, _), (Some e, _)) \<Rightarrow> says fs' [WriteFailed path e]
                | (fs', (None, otherRemoved), (None, added)) \<Rightarrow>
                    wrote b fs'
                      [if otherRemoved \<and> added then MovedTo pat side
                       else if added then AddedTo pat side (countList env b side fs')
                       else if otherRemoved then RemovedFromOther pat side
                       else AlreadyThere pat side])))"

definition listEntries :: "console_env \<Rightarrow> backend \<Rightarrow> string \<Rightarrow> files \<Rightarrow> console_result" where
  "listEntries env b arg fs =
     (let arg = to_lower (trim_space arg) in
      case load_config env (bk_ConfigPath b) fs of
        Inl e \<Rightarrow> says fs [LoadFailed (bk_ConfigPath b) e]
      | Inr (c, _) \<Rightarrow>
          if arg = [] \<or> arg = ''all'' then says fs [printList ''allow'' (cf_ListsAllow c), printList ''deny'' (cf_ListsDeny c)]
          else if arg = ''allow'' then says fs [printList ''allow'' (cf_ListsAllow c)]
          else if arg = ''deny'' then says fs [printList ''deny'' (cf_ListsDeny c)]
          else says fs [UsageList])"

section \<open>Dispatch\<close>

definition runLocal :: "backend \<Rightarrow> string \<Rightarrow> files \<Rightarrow> console_result \<Rightarrow> console_result" where
  "runLocal b name fs r = (if \<not> bk_LocalOnly b then says fs [NotInAttach name] else r)"

text \<open>\<open>None\<close> when the verb is not handled remotely.\<close>

definition runRemote :: "backend \<Rightarrow> string \<Rightarrow> edit_verb \<Rightarrow> string \<Rightarrow> files \<Rightarrow> console_result option" where
  "runRemote b l verb pat fs =
     (if bk_LocalOnly b then None
      else case bk_Remote b of
        None \<Rightarrow> None
      | Some remote \<Rightarrow>
          (case remote verb l pat fs of
             (fs', Inl e) \<Rightarrow> Some (says fs' [RemoteFailed verb l e])
           | (fs', Inr changed) \<Rightarrow>
               Some (says fs' [if changed then RemoteDone verb l pat else RemoteNoop pat l])))"

definition callback_lines :: "string \<Rightarrow> callback_result \<Rightarrow> console_line list" where
  "callback_lines name r =
     (case r of
        Panicked out p \<Rightarrow> [CallbackText out, CallbackPanic name p]
      | Returned out None \<Rightarrow> [CallbackText out]
      | Returned out (Some e) \<Rightarrow> [CallbackText out, CallbackFailed name e])"

definition runTest :: "backend \<Rightarrow> string \<Rightarrow> console_line list" where
  "runTest b arg =
     (if \<not> bk_LocalOnly b then [NotInAttach ''test'']
      else case bk_OnTest b of
        None \<Rightarrow> [NotWired ''test'']
      | Some f \<Rightarrow> if trim_space arg = [] then [UsageTest] else callback_lines ''test'' (f (trim_space arg)))"

definition runDoctor :: "backend \<Rightarrow> console_line list" where
  "runDoctor b =
     (if \<not> bk_LocalOnly b then [NotInAttach ''doctor'']
      else case bk_OnDoctor b of None \<Rightarrow> [NotWired ''doctor''] | Some r \<Rightarrow> callback_lines ''doctor'' r)"

definition runUpdate :: "console_env \<Rightarrow> console_line list" where
  "runUpdate env =
     (if cv_windows env then [WindowsUpdate]
      else UpdateRunning # callback_lines ''update'' (cv_update env)
        @ (case cv_update env of Returned out None \<Rightarrow> [UpdateComplete] | _ \<Rightarrow> []))"

definition Execute :: "console_env \<Rightarrow> backend \<Rightarrow> string \<Rightarrow> files \<Rightarrow> console_result" where
  "Execute env b line fs =
     (let line = trim_space line; (cmd, arg) = splitCmd line; verb = to_lower cmd in
      if line = [] then says fs []
      else if verb = ''allow'' \<or> verb = ''deny'' then
        (case runRemote b verb Add_verb arg fs of
           Some r \<Rightarrow> r
         | None \<Rightarrow> runLocal b verb fs (addPattern env b verb arg fs))
      else if verb = ''remove'' \<or> verb = ''rm'' then runLocal b ''remove'' fs (removePattern env b arg fs)
      else if verb = ''move'' \<or> verb = ''mv'' then runLocal b ''move'' fs (movePattern env b arg fs)
      else if verb = ''list'' \<or> verb = ''ls'' then runLocal b ''list'' fs (listEntries env b arg fs)
      else if verb = ''reload'' then runLocal b ''reload'' fs (wrote b fs [])
      else if verb = ''test'' then says fs (runTest b arg)
      else if verb = ''doctor'' then says fs (runDoctor b)
      else if verb = ''update'' then says fs (runUpdate env)
      else if verb = ''help'' \<or> verb = ''?'' then says fs [HelpText (bk_LocalOnly b)]
      else if verb = ''quit'' \<or> verb = ''exit'' then (says fs [])\<lparr>xr_quit := True\<rparr>
      else says fs [UnknownCommand cmd])"

section \<open>What a command may change\<close>

lemma mutate_frame: "q \<noteq> path \<Longrightarrow> fst (mutate y w path which f fs) q = fs q"
  by (auto simp: mutate_def save_document_def atomicWrite_def split: sum.split option.split)

lemma mutate_unchanged: "mutate y w path which f fs = (fs', None, False) \<Longrightarrow> fs' = fs"
  by (auto simp: mutate_def save_document_def split: sum.splits option.splits prod.splits)

lemma list_edit_frame:
  assumes "q \<noteq> path"
  shows "fst (AddAllow y w path pat fs) q = fs q" "fst (AddDeny y w path pat fs) q = fs q"
    "fst (RemoveAllow y w path pat fs) q = fs q" "fst (RemoveDeny y w path pat fs) q = fs q"
  using mutate_frame [OF assms] by (simp_all add: AddAllow_def AddDeny_def RemoveAllow_def RemoveDeny_def)

lemma operator_action_frame:
  assumes "q \<noteq> path"
  shows "fst (operator_action env path label pat fs) q = fs q"
proof -
  obtain fs1 r1 where 1: "RemoveDeny (cv_yaml env) (cv_ok1 env) path pat fs = (fs1, r1)" by (metis surj_pair)
  obtain fs2 r2 where 2: "RemoveAllow (cv_yaml env) (cv_ok1 env) path pat fs = (fs2, r2)" by (metis surj_pair)
  have "fs1 q = fs q" "fs2 q = fs q"
    using list_edit_frame(3,4) [OF assms, of "cv_yaml env" "cv_ok1 env" pat fs] 1 2 by simp_all
  then show ?thesis
    using list_edit_frame(1,2) [OF assms, of "cv_yaml env" "cv_ok2 env" pat fs1]
      list_edit_frame(1,2) [OF assms, of "cv_yaml env" "cv_ok2 env" pat fs2] 1 2
    by (auto simp: operator_action_def OperatorApprove_def OperatorDeny_def split: prod.split)
qed

text \<open>A change that the command reports without an error asks for a reload; the one exception is an
  entry that was on its list already, see below.\<close>

definition honest :: "backend \<Rightarrow> files \<Rightarrow> console_result \<Rightarrow> bool" where
  "honest b fs r \<longleftrightarrow> (\<forall>q. q \<noteq> bk_ConfigPath b \<longrightarrow> xr_files r q = fs q)
     \<and> (xr_files r \<noteq> fs \<longrightarrow> bk_ConfigPath b \<noteq> []
         \<and> (bk_OnReload b \<longrightarrow> xr_reload r \<or> (\<exists>p e. xr_out r = [WriteFailed p e]) \<or> (\<exists>p l. xr_out r = [AlreadyIn p l])))
     \<and> \<not> xr_quit r"

lemma honest_says: "honest b fs (says fs out)"
  by (simp add: honest_def says_def)

lemma honest_wrote: "bk_ConfigPath b \<noteq> [] \<Longrightarrow> (\<And>q. q \<noteq> bk_ConfigPath b \<Longrightarrow> fs' q = fs q) \<Longrightarrow> honest b fs (wrote b fs' out)"
  by (simp add: honest_def wrote_def)

lemma honest_failed: "bk_ConfigPath b \<noteq> [] \<Longrightarrow> (\<And>q. q \<noteq> bk_ConfigPath b \<Longrightarrow> fs' q = fs q) \<Longrightarrow> honest b fs (says fs' [WriteFailed p e])"
  by (simp add: honest_def says_def)

lemma honest_already: "bk_ConfigPath b \<noteq> [] \<Longrightarrow> (\<And>q. q \<noteq> bk_ConfigPath b \<Longrightarrow> fs' q = fs q) \<Longrightarrow> honest b fs (says fs' [AlreadyIn p l])"
  by (simp add: honest_def says_def)

lemmas honest_intros = honest_says honest_wrote honest_failed honest_already

lemma addPattern_honest: "honest b fs (addPattern env b label pat fs)"
proof -
  obtain fs' r1 r2 where o: "operator_action env (bk_ConfigPath b) label (trim_space pat) fs = (fs', r1, r2)"
    using prod_cases3 by blast
  have "q \<noteq> bk_ConfigPath b \<Longrightarrow> fs' q = fs q" for q using operator_action_frame [of q "bk_ConfigPath b" env label] o by (metis fst_conv)
  then show ?thesis using o by (auto simp: addPattern_def Let_def intro!: honest_intros split: option.split prod.split)
qed

lemma removePattern_honest: "honest b fs (removePattern env b pat fs)"
proof -
  obtain fs1 e1 c1 where r1: "RemoveAllow (cv_yaml env) (cv_ok1 env) (bk_ConfigPath b) (trim_space pat) fs = (fs1, e1, c1)"
    using prod_cases3 by blast
  obtain fs2 e2 c2 where r2: "RemoveDeny (cv_yaml env) (cv_ok2 env) (bk_ConfigPath b) (trim_space pat) fs1 = (fs2, e2, c2)"
    using prod_cases3 by blast
  have f: "q \<noteq> bk_ConfigPath b \<Longrightarrow> fs1 q = fs q" "q \<noteq> bk_ConfigPath b \<Longrightarrow> fs2 q = fs q" for q
    using list_edit_frame(3,4) [of q "bk_ConfigPath b"] r1 r2 by (metis fst_conv)+
  have same: "e1 = None \<Longrightarrow> \<not> c1 \<Longrightarrow> fs1 = fs" "e2 = None \<Longrightarrow> \<not> c2 \<Longrightarrow> fs2 = fs1"
    using r1 r2 mutate_unchanged by (auto simp: RemoveAllow_def RemoveDeny_def)
  have none: "honest b fs (says fs2 [NotFound p])" if "e1 = None" "e2 = None" "\<not> c1" "\<not> c2" for p
    using same that honest_says by simp
  show ?thesis
  proof (cases "trim_space pat = [] \<or> bk_ConfigPath b = []")
    case True
    then show ?thesis by (auto simp: removePattern_def honest_says Let_def)
  next
    case False
    then show ?thesis
      by (cases e1; cases e2; cases "c1 \<or> c2")
        (simp_all add: removePattern_def r1 r2 Let_def f none honest_failed honest_wrote)
  qed
qed

lemma movePattern_honest: "honest b fs (movePattern env b arg fs)"
proof -
  obtain side pat where sp: "splitCmd arg = (side, pat)" by (metis surj_pair)
  obtain fs' r1 r2 where o: "operator_action env (bk_ConfigPath b) (to_lower (trim_space side)) (trim_space pat) fs = (fs', r1, r2)"
    using prod_cases3 by blast
  have f: "q \<noteq> bk_ConfigPath b \<Longrightarrow> fs' q = fs q" for q
    using operator_action_frame [of q "bk_ConfigPath b" env "to_lower (trim_space side)"] o by (metis fst_conv)
  show ?thesis
  proof (cases "to_lower (trim_space side) \<notin> {''allow'', ''deny''} \<or> trim_space pat = [] \<or> ValidatePattern (trim_space pat) \<noteq> None
      \<or> bk_ConfigPath b = []")
    case True
    then show ?thesis by (auto simp: movePattern_def sp honest_says Let_def split: option.split)
  next
    case False
    then have "movePattern env b arg fs = (case operator_action env (bk_ConfigPath b) (to_lower (trim_space side)) (trim_space pat) fs of
        (fs', (Some e, _), _) \<Rightarrow> says fs' [WriteFailed (bk_ConfigPath b) e]
      | (fs', (None, _), (Some e, _)) \<Rightarrow> says fs' [WriteFailed (bk_ConfigPath b) e]
      | (fs', (None, otherRemoved), (None, added)) \<Rightarrow>
          wrote b fs' [if otherRemoved \<and> added then MovedTo (trim_space pat) (to_lower (trim_space side))
            else if added then AddedTo (trim_space pat) (to_lower (trim_space side)) (countList env b (to_lower (trim_space side)) fs')
            else if otherRemoved then RemovedFromOther (trim_space pat) (to_lower (trim_space side))
            else AlreadyThere (trim_space pat) (to_lower (trim_space side))])"
      by (auto simp: movePattern_def sp Let_def)
    with False f show ?thesis unfolding o by (cases r1; cases r2; cases "fst r1"; cases "fst r2") (simp_all add: honest_failed honest_wrote)
  qed
qed

lemma AcceptGeneralization_honest: "bk_LocalOnly b \<Longrightarrow> honest b fs (AcceptGeneralization env b l pat sources fs)"
proof -
  obtain fs' e c where g: "ConfigWrite.Generalize (cv_yaml env) (cv_ok1 env) (bk_ConfigPath b) l pat sources fs = (fs', e, c)"
    using prod_cases3 by blast
  have f: "q \<noteq> bk_ConfigPath b \<Longrightarrow> fs' q = fs q" for q
    using mutate_frame [of q "bk_ConfigPath b" "cv_yaml env" "cv_ok1 env" l "generalize_entries pat sources" fs] g
    by (auto simp: ConfigWrite.Generalize_def split: if_splits)
  then show ?thesis using g by (auto simp: AcceptGeneralization_def intro!: honest_intros split: option.split)
qed

lemma listEntries_honest: "honest b fs (listEntries env b arg fs)"
  by (auto simp: listEntries_def Let_def intro!: honest_says split: sum.split)

definition quit_verb :: "string \<Rightarrow> bool" where
  "quit_verb line \<longleftrightarrow> to_lower (fst (splitCmd (trim_space line))) \<in> {''quit'', ''exit''}"

definition edit_verbs :: "string set" where
  "edit_verbs = {''allow'', ''deny'', ''remove'', ''rm'', ''move'', ''mv''}"

text \<open>
  What a console command can do. Run on the proxy host, a command line changes nothing but the
  configuration file, and only when its verb is one that edits the lists; a change is followed by a
  reload unless the command reports that the write failed or that the entry was on its list already;
  and the console quits for the verbs quit and exit only. In attach mode nothing but the remote
  writer touches a file, and no reload is asked for.
\<close>

lemma console_confined:
  "xr_quit (Execute env b line fs) = (trim_space line \<noteq> [] \<and> quit_verb line)
   \<and> (bk_LocalOnly b \<longrightarrow>
       (\<forall>q. q \<noteq> bk_ConfigPath b \<longrightarrow> xr_files (Execute env b line fs) q = fs q)
       \<and> (xr_files (Execute env b line fs) \<noteq> fs \<longrightarrow>
           to_lower (fst (splitCmd (trim_space line))) \<in> edit_verbs
           \<and> (bk_OnReload b \<longrightarrow> xr_reload (Execute env b line fs)
               \<or> (\<exists>p e. xr_out (Execute env b line fs) = [WriteFailed p e])
               \<or> (\<exists>p l. xr_out (Execute env b line fs) = [AlreadyIn p l]))))
   \<and> (\<not> bk_LocalOnly b \<longrightarrow> \<not> xr_reload (Execute env b line fs)
       \<and> (bk_Remote b = None \<longrightarrow> xr_files (Execute env b line fs) = fs))"
proof -
  obtain cmd arg where c: "splitCmd (trim_space line) = (cmd, arg)" by (metis surj_pair)
  let ?v = "to_lower cmd" and ?r = "Execute env b line fs"
  have said: "honest b fs (says fs out)" "\<not> xr_reload (says fs out)" "xr_files (says fs out) = fs" "\<not> xr_quit (says fs out)" for out
    by (simp_all add: honest_says) (simp_all add: says_def)
  consider (empty) "trim_space line = []" | (quit) "trim_space line \<noteq> []" "?v \<in> {''quit'', ''exit''}"
    | (edit) "trim_space line \<noteq> []" "?v \<in> edit_verbs"
    | (other) "trim_space line \<noteq> []" "?v \<notin> edit_verbs" "?v \<notin> {''quit'', ''exit''}" by blast
  then show ?thesis
  proof cases
    case empty
    then show ?thesis by (simp add: Execute_def said c)
  next
    case quit
    then have "?r = (says fs [])\<lparr>xr_quit := True\<rparr>" by (auto simp: Execute_def c)
    then show ?thesis using quit c by (simp add: quit_verb_def says_def)
  next
    case edit
    then have q: "\<not> quit_verb line" "?v \<in> edit_verbs" by (auto simp: quit_verb_def edit_verbs_def c)
    show ?thesis
    proof (cases "bk_LocalOnly b")
      case True
      then have "honest b fs ?r" using edit
        by (auto simp: Execute_def c edit_verbs_def runRemote_def runLocal_def addPattern_honest removePattern_honest movePattern_honest)
      then show ?thesis using True q c unfolding honest_def by simp
    next
      case False
      then have "\<not> xr_quit ?r \<and> \<not> xr_reload ?r \<and> (bk_Remote b = None \<longrightarrow> xr_files ?r = fs)" using edit
        by (auto simp: Execute_def c edit_verbs_def runRemote_def runLocal_def says_def Let_def split: option.split prod.split sum.split)
      then show ?thesis using False q by simp
    qed
  next
    case other
    then have q: "\<not> quit_verb line" by (simp add: quit_verb_def c)
    have "\<not> xr_quit ?r \<and> xr_files ?r = fs \<and> (\<not> bk_LocalOnly b \<longrightarrow> \<not> xr_reload ?r)" using other listEntries_honest [of b fs env arg]
      by (auto simp: Execute_def c edit_verbs_def runLocal_def listEntries_def wrote_def says_def Let_def split: sum.split)
    then show ?thesis using q by simp
  qed
qed

text \<open>The verb and the argument of a line.\<close>

lemma blank_space: "blank c \<Longrightarrow> is_space c"
  by (auto simp: blank_def is_space_def)

lemma splitCmd_line:
  assumes "verb \<noteq> []" "list_all (\<lambda>c. \<not> is_space c) verb" "trim_space p = p" "p \<noteq> []"
  shows "trim_space (verb @ '' '' @ p) = verb @ '' '' @ p" "splitCmd (verb @ '' '' @ p) = (verb, p)"
proof -
  have "\<not> is_space (hd verb)" "\<not> is_space (last p)"
    using assms trim_space_fix [of p] by (cases verb; simp)+
  then have "trim_space (verb @ '' '' @ p) = verb @ '' '' @ p \<longleftrightarrow> True"
    using assms(1,4) unfolding trim_space_fix by simp
  then show t: "trim_space (verb @ '' '' @ p) = verb @ '' '' @ p" by simp
  have nb: "\<not> blank c" if "c \<in> set verb" for c
    using assms(2) that blank_space [of c] by (auto simp: list_all_iff)
  have sp: "blank (CHR '' '')" "is_space (CHR '' '')" by (simp_all add: blank_def is_space_def)
  have "trim_space (CHR '' '' # p) = trim_space p" using sp(2) by (simp add: trim_space_def trim_left_def)
  then show "splitCmd (verb @ '' '' @ p) = (verb, p)"
    using nb sp(1) assms(3) unfolding splitCmd_def Let_def t by (simp add: takeWhile_append2 dropWhile_append2)
qed

definition demo_console :: "yaml_env \<Rightarrow> console_env" where
  "demo_console y = \<lparr>cv_yaml = y, cv_ok1 = True, cv_ok2 = True, cv_decode = (\<lambda>_. (FirstEOF, [])), cv_url = (\<lambda>_. None),
     cv_windows = False, cv_update = Returned [] None\<rparr>"

definition local_backend :: backend where
  "local_backend = \<lparr>bk_ConfigPath = ''f'', bk_OnReload = True, bk_OnTest = None, bk_OnDoctor = None, bk_LocalOnly = True, bk_Remote = None\<rparr>"

text \<open>
  An entry on both lists: \<open>allow\<close> takes it off the deny list in the file, finds it on the allow list
  already, and returns without the reload, so the running matcher keeps denying it.
\<close>

lemma execute_verb:
  assumes "trim_space p = p" "p \<noteq> []" "bk_LocalOnly b" "v = ''allow'' \<or> v = ''deny''"
  shows "Execute env b (v @ '' '' @ p) fs = addPattern env b v p fs"
proof -
  have v: "v \<noteq> []" "list_all (\<lambda>c. \<not> is_space c) v" "to_lower v = v"
    using assms(4) by (auto simp: is_space_def) code_simp+
  note s = splitCmd_line [OF v(1,2) assms(1,2)]
  show ?thesis unfolding Execute_def s(1) Let_def s(2) prod.case v(3)
    using assms(3,4) by (auto simp: runRemote_def runLocal_def)
qed

lemma consolidation_without_reload:
  fixes y defines "y \<equiv> demo_yaml (lists_doc [''a.com''] [''a.com'']) (lists_doc [''a.com''] []) (lists_doc [] [])"
  shows "xr_files (Execute (demo_console y) local_backend ''allow a.com'' [''f'' \<mapsto> ''0'']) ''f'' = Some ''1''
    \<and> xr_out (Execute (demo_console y) local_backend ''allow a.com'' [''f'' \<mapsto> ''0'']) = [AlreadyIn ''a.com'' ''allow'']
    \<and> \<not> xr_reload (Execute (demo_console y) local_backend ''allow a.com'' [''f'' \<mapsto> ''0''])"
proof -
  have t: "trim_space ''a.com'' = ''a.com''" "ValidatePattern ''a.com'' = None" by code_simp+
  have o: "snd (OperatorApprove y True True ''f'' ''a.com'' [''f'' \<mapsto> ''0'']) = ((None, True), (None, False))
      \<and> fst (OperatorApprove y True True ''f'' ''a.com'' [''f'' \<mapsto> ''0'']) ''f'' = Some ''1''"
    unfolding y_def by code_simp
  then obtain fs' where a: "OperatorApprove y True True ''f'' ''a.com'' [''f'' \<mapsto> ''0''] = (fs', (None, True), (None, False))" "fs' ''f'' = Some ''1''"
    by (metis prod.collapse)
  have "Execute (demo_console y) local_backend (''allow'' @ '' '' @ ''a.com'') [''f'' \<mapsto> ''0'']
      = addPattern (demo_console y) local_backend ''allow'' ''a.com'' [''f'' \<mapsto> ''0'']"
    by (rule execute_verb) (simp_all add: t local_backend_def)
  moreover have "addPattern (demo_console y) local_backend ''allow'' ''a.com'' [''f'' \<mapsto> ''0''] = says fs' [AlreadyIn ''a.com'' ''allow'']"
    using a t by (simp add: addPattern_def operator_action_def demo_console_def local_backend_def)
  ultimately show ?thesis using a(2) by (simp add: says_def)
qed

lemma console_confined_example:
  "xr_files (Execute (demo_console (demo_yaml (lists_doc [] []) (lists_doc [] []) (lists_doc [] []))) local_backend ''quit'' [''f'' \<mapsto> ''0'']) ''g'' = None
   \<and> \<not> xr_reload (Execute (demo_console (demo_yaml (lists_doc [] []) (lists_doc [] []) (lists_doc [] []))) (local_backend\<lparr>bk_LocalOnly := False\<rparr>)
       ''reload'' [''f'' \<mapsto> ''0''])"
  using console_confined [of "demo_console (demo_yaml (lists_doc [] []) (lists_doc [] []) (lists_doc [] []))" local_backend "''quit''" "[''f'' \<mapsto> ''0'']"]
    console_confined [of "demo_console (demo_yaml (lists_doc [] []) (lists_doc [] []) (lists_doc [] []))" "local_backend\<lparr>bk_LocalOnly := False\<rparr>"
      "''reload''" "[''f'' \<mapsto> ''0'']"]
  by (simp add: local_backend_def)

end
