(* ===== verification/GoUtf8.thy ===== *)
theory GoUtf8
  imports GoStrings
begin

text \<open>
  Conversions between strings and \<open>[]rune\<close> of the Go language: a string is its bytes, a rune a
  code point; bytes that are not UTF-8 decode to U+FFFD one by one, and a number that is no code
  point encodes as U+FFFD.
\<close>

definition cont_byte :: "int \<Rightarrow> bool" where
  "cont_byte b \<longleftrightarrow> 128 \<le> b \<and> b \<le> 191"

definition between :: "int \<Rightarrow> int \<Rightarrow> int \<Rightarrow> bool" where
  "between lo hi b \<longleftrightarrow> lo \<le> b \<and> b \<le> hi"

text \<open>The range of the second byte, by the first.\<close>

definition second_ok :: "int \<Rightarrow> int \<Rightarrow> bool" where
  "second_ok b0 b1 \<longleftrightarrow>
     (if b0 = 224 then between 160 191 b1
      else if b0 = 237 then between 128 159 b1
      else if b0 = 240 then between 144 191 b1
      else if b0 = 244 then between 128 143 b1
      else cont_byte b1)"

text \<open>The rune at the head of the bytes, and how many bytes beyond the first it takes.\<close>

definition decode_rune :: "int \<Rightarrow> int list \<Rightarrow> int \<times> nat" where
  "decode_rune b0 bs =
     (if b0 < 128 then (b0, 0)
      else if between 194 223 b0 \<and> length bs \<ge> 1 \<and> second_ok b0 (bs ! 0)
      then ((b0 - 192) * 64 + (bs ! 0 - 128), 1)
      else if between 224 239 b0 \<and> length bs \<ge> 2 \<and> second_ok b0 (bs ! 0) \<and> cont_byte (bs ! 1)
      then ((b0 - 224) * 4096 + (bs ! 0 - 128) * 64 + (bs ! 1 - 128), 2)
      else if between 240 244 b0 \<and> length bs \<ge> 3 \<and> second_ok b0 (bs ! 0) \<and> cont_byte (bs ! 1) \<and> cont_byte (bs ! 2)
      then ((b0 - 240) * 262144 + (bs ! 0 - 128) * 4096 + (bs ! 1 - 128) * 64 + (bs ! 2 - 128), 3)
      else (65533, 0))"

fun decode_runes :: "int list \<Rightarrow> int list" where
  "decode_runes [] = []"
| "decode_runes (b # bs) = (case decode_rune b bs of (r, k) \<Rightarrow> r # decode_runes (drop k bs))"

definition to_runes :: "string \<Rightarrow> int list" where
  "to_runes s = decode_runes (map of_char s)"

definition encode_rune :: "int \<Rightarrow> int list" where
  "encode_rune r =
     (if 0 \<le> r \<and> r < 128 then [r]
      else if 0 \<le> r \<and> r < 2048 then [192 + r div 64, 128 + r mod 64]
      else if r < 0 \<or> between 55296 57343 r \<or> r > 1114111 then [239, 191, 189]
      else if r < 65536 then [224 + r div 4096, 128 + r div 64 mod 64, 128 + r mod 64]
      else [240 + r div 262144, 128 + r div 4096 mod 64, 128 + r div 64 mod 64, 128 + r mod 64])"

definition of_runes :: "int list \<Rightarrow> string" where
  "of_runes rs = map char_of (concat (map encode_rune rs))"

definition ascii :: "string \<Rightarrow> bool" where
  "ascii s \<longleftrightarrow> list_all (\<lambda>c. of_char c < (128 :: int)) s"

lemma to_runes_ascii: "ascii s \<Longrightarrow> to_runes s = map of_char s"
  by (induction s) (auto simp: ascii_def to_runes_def decode_rune_def)

lemma of_char_nonneg [simp]: "(0::int) \<le> of_char c"
  by (simp add: of_char_def)

lemma of_runes_ascii: "ascii s \<Longrightarrow> of_runes (map of_char s) = s"
  by (induction s) (auto simp: ascii_def of_runes_def encode_rune_def)

lemma runes_of_ascii: "ascii s \<Longrightarrow> of_runes (to_runes s) = s"
  by (simp add: to_runes_ascii of_runes_ascii)

text \<open>A valid code point survives the way to bytes and back.\<close>

definition code_point :: "int \<Rightarrow> bool" where
  "code_point r \<longleftrightarrow> 0 \<le> r \<and> r \<le> 1114111 \<and> \<not> between 55296 57343 r"

lemma decode_four:
  "240 \<le> x \<Longrightarrow> x \<le> 244 \<Longrightarrow> second_ok x y \<Longrightarrow> cont_byte z \<Longrightarrow> cont_byte w \<Longrightarrow>
     decode_rune x (y # z # w # bs) = ((x - 240) * 262144 + (y - 128) * 4096 + (z - 128) * 64 + (w - 128), 3)"
  by (simp add: decode_rune_def between_def numeral_2_eq_2)

lemma decode_three:
  "224 \<le> x \<Longrightarrow> x \<le> 239 \<Longrightarrow> second_ok x y \<Longrightarrow> cont_byte z \<Longrightarrow>
     decode_rune x (y # z # bs) = ((x - 224) * 4096 + (y - 128) * 64 + (z - 128), 2)"
  by (simp add: decode_rune_def between_def numeral_2_eq_2)

text \<open>A code point by its groups of six bits.\<close>

lemma six_bits:
  obtains a b c x y z :: int where
    "r div 64 = a" "r div 4096 = b" "r div 262144 = c" "r mod 64 = x" "r div 64 mod 64 = y" "r div 4096 mod 64 = z"
    "r = a * 64 + x" "a = b * 64 + y" "b = c * 64 + z"
    "0 \<le> x" "x < 64" "0 \<le> y" "y < 64" "0 \<le> z" "z < 64"
proof (rule that)
  show "r div 64 = r div 64" "r mod 64 = r mod 64" "r div 64 mod 64 = r div 64 mod 64" by (rule refl)+
  show "r div 4096 = r div 64 div 64" "r div 262144 = r div 64 div 64 div 64"
    "r div 4096 mod 64 = r div 64 div 64 mod 64"
    using zdiv_zmult2_eq [of 64 r 64] zdiv_zmult2_eq [of 64 r 4096] zdiv_zmult2_eq [of 64 "r div 64" 64] by simp_all
  show "r = r div 64 * 64 + r mod 64" "r div 64 = r div 64 div 64 * 64 + r div 64 mod 64"
    "r div 64 div 64 = r div 64 div 64 div 64 * 64 + r div 64 div 64 mod 64"
    by (rule div_mult_mod_eq [symmetric])+
  show "0 \<le> r mod 64" "0 \<le> r div 64 mod 64" "0 \<le> r div 64 div 64 mod 64" by (rule pos_mod_sign, simp)+
  show "r mod 64 < 64" "r div 64 mod 64 < 64" "r div 64 div 64 mod 64 < 64" by (rule pos_mod_bound, simp)+
qed

lemma decode_encode_rune:
  assumes "code_point r"
  shows "decode_runes (encode_rune r @ bs) = r # decode_runes bs"
proof -
  obtain a b c x y z where div: "r div 64 = a" "r div 4096 = b" "r div 262144 = c" "r mod 64 = x"
      "r div 64 mod 64 = y" "r div 4096 mod 64 = z"
    and r: "r = a * 64 + x" and a: "a = b * 64 + y" and b: "b = c * 64 + z"
    and x: "0 \<le> x" "x < 64" and y: "0 \<le> y" "y < 64" and z: "0 \<le> z" "z < 64"
    by (rule six_bits [of r])
  note defs = between_def second_ok_def cont_byte_def
  have cp: "0 \<le> r" "r \<le> 1114111" "r < 55296 \<or> 57343 < r" using assms by (auto simp: code_point_def between_def)
  have cont: "cont_byte (128 + x)" "cont_byte (128 + y)" "cont_byte (128 + z)" using x y z by (simp_all add: cont_byte_def)
  consider "r < 128" | "128 \<le> r" "r < 2048" | "2048 \<le> r" "r < 65536" | "65536 \<le> r" by linarith
  then show ?thesis
  proof cases
    case 1
    then show ?thesis using cp by (simp add: encode_rune_def decode_rune_def)
  next
    case 2
    have "2 \<le> a" "a < 32" using 2 r x by linarith+
    then have "decode_rune (192 + a) ((128 + x) # bs) = (r, 1)" using x r by (simp add: decode_rune_def defs)
    moreover have "encode_rune r = [192 + a, 128 + x]" using 2 div by (simp add: encode_rune_def)
    ultimately show ?thesis by simp
  next
    case 3
    have "0 \<le> b" "b < 16" using 3 r a x y by linarith+
    moreover have "b = 0 \<Longrightarrow> 32 \<le> y" using 3 r a x y by linarith
    moreover have "b = 13 \<Longrightarrow> y < 32" using cp r a x y by linarith
    ultimately have "second_ok (224 + b) (128 + y)" "224 \<le> 224 + b" "224 + b \<le> 239"
      using y by (auto simp: defs)
    then have "decode_rune (224 + b) ((128 + y) # (128 + x) # bs) = (r, 2)"
      using decode_three [OF _ _ _ cont(1)] r a by simp
    moreover have "encode_rune r = [224 + b, 128 + y, 128 + x]" using 3 cp div by (auto simp: encode_rune_def between_def)
    ultimately show ?thesis by simp
  next
    case 4
    have "0 \<le> c" "c \<le> 4" using 4 cp r a b x y z by linarith+
    moreover have "c = 0 \<Longrightarrow> 16 \<le> z" using 4 r a b x y z by linarith
    moreover have "c = 4 \<Longrightarrow> z < 16" using cp r a b x y z by linarith
    ultimately have "second_ok (240 + c) (128 + z)" "240 \<le> 240 + c" "240 + c \<le> 244"
      using z by (auto simp: defs)
    then have "decode_rune (240 + c) ((128 + z) # (128 + y) # (128 + x) # bs) = (r, 3)"
      using decode_four [OF _ _ _ cont(2,1)] r a b by simp
    moreover have "encode_rune r = [240 + c, 128 + z, 128 + y, 128 + x]"
      using 4 cp div by (auto simp: encode_rune_def between_def)
    ultimately show ?thesis by (simp add: numeral_3_eq_3)
  qed
qed

lemma encode_rune_bytes: "code_point r \<Longrightarrow> b \<in> set (encode_rune r) \<Longrightarrow> 0 \<le> b \<and> b < 256"
  unfolding encode_rune_def code_point_def between_def by (auto split: if_splits)

lemma bytes_of_runes:
  "list_all code_point rs \<Longrightarrow> map of_char (of_runes rs) = concat (map encode_rune rs)"
proof -
  assume "list_all code_point rs"
  then have "\<forall>b \<in> set (concat (map encode_rune rs)). 0 \<le> b \<and> b < 256"
    using encode_rune_bytes by (fastforce simp: list_all_iff)
  then show ?thesis unfolding of_runes_def map_map by (intro map_idI) (fastforce simp: of_char_of intro: mod_pos_pos_trivial)
qed

lemma runes_roundtrip: "list_all code_point rs \<Longrightarrow> to_runes (of_runes rs) = rs"
proof -
  have "list_all code_point rs \<Longrightarrow> decode_runes (concat (map encode_rune rs)) = rs"
    by (induction rs) (simp_all add: decode_encode_rune)
  then show "list_all code_point rs \<Longrightarrow> to_runes (of_runes rs) = rs"
    by (simp add: to_runes_def bytes_of_runes)
qed

end
