(* ===== verification/TuiModel.thy ===== *)
theory TuiModel
  imports GoUtf8 OpStream OpenMode Approvals ReloadStatus Advisor Generalize
begin

text \<open>
  The state of the operator console (\<open>internal/tui/reducer.go\<close>): the model the renderer reads, the
  events and commands of its reducer, and the list of rows it displays. \<open>url.Parse\<close> is a
  parameter: the host and path of a URL. A panic of the code is \<open>None\<close>. Tick counters are natural
  numbers; the source of decision history, which only the renderer reads, is left out.
\<close>

section \<open>State\<close>

datatype pane = PaneApprovals | PaneConsole
datatype bottom_panel = BottomPanelConsole | BottomPanelInfo | BottomPanelLLM | BottomPanelURLs

record console_model =
  co_Scrollback :: "string list"
  co_Input :: "int list"
  co_Cursor :: nat
  co_Prompt :: string

record urls_undo =
  uu_Pattern :: string
  uu_Side :: string

record tui_suggestion =
  ts_ID :: string
  ts_Axis :: string
  ts_List :: string
  ts_SourceEntries :: "string list"
  ts_SuggestedPattern :: string
  ts_Reason :: string
  ts_AxesRemaining :: int
  ts_PatternName :: string
  ts_PatternComponents :: "(string \<times> string) list"
  ts_PatternMethod :: string

record generalize_card =
  gc_Candidates :: "candidate list"
  gc_AxisIndex :: nat
  gc_SourceDesc :: string

record alerts =
  al_ChimeEnabled :: bool
  al_LastPendingSeen :: nat

record model =
  tm_Ops :: "op list"
  tm_Holds :: "snapshot list"
  tm_OpenUntil :: int
  tm_Selected :: int
  tm_LastInfo :: string
  tm_LastErr :: string
  tm_statusInfoSeen :: string
  tm_statusInfoAge :: nat
  tm_Cols :: int
  tm_Rows :: int
  tm_Quit :: bool
  tm_Focused :: pane
  tm_Console :: console_model
  tm_BottomPanel :: bottom_panel
  tm_BottomPanelOpen :: bool
  tm_Digests :: "digest list"
  tm_LLMSortByURL :: bool
  tm_DigestSelected :: string
  tm_DigestExpanded :: bool
  tm_Alerts :: alerts
  tm_AllowList :: "string list"
  tm_DenyList :: "string list"
  tm_URLsLocal :: bool
  tm_URLsSelected :: int
  tm_URLsAnchor :: int
  tm_GenCard :: "generalize_card option"
  tm_URLsUndo :: "urls_undo option"
  tm_URLsPendingReturn :: bool
  tm_OpsPausedTicks :: nat
  tm_LastInputTicks :: nat
  tm_TickCount :: nat
  tm_CursorPreferPending :: bool
  tm_Suggestion :: "tui_suggestion option"
  tm_ReloadStatus :: status

section \<open>Events and commands\<close>

datatype key_code =
    KeyNone | KeyUp | KeyDown | KeyEsc | KeyCtrlC | KeyTab | KeyEnter | KeyBackspace | KeyCtrlU | KeyShiftTab
  | KeyDelete | KeyCtrlZ | KeyCtrlL | KeyShiftUp | KeyShiftDown | KeyHome | KeyEnd

record key_event =
  ke_Rune :: int
  ke_Key :: key_code

text \<open>An error of an action: its text, and whether it is the missing hold of \<open>controlclient\<close>.\<close>

record action_result =
  ar_ID :: string
  ar_Action :: string
  ar_Method :: string
  ar_URL :: string
  ar_Err :: "(string \<times> bool) option"

datatype event =
    TickResult "snapshot list" "string option"
  | OpsTickResult "op list" "string option"
  | OpenModeResult bool int "string option"
  | DigestTickResult "digest list" "string option"
  | URLsTickResult "string list" "string list" bool "string option"
  | ReloadTickResult status "string option"
  | SuggestionTickResult "tui_suggestion option" "string option" bool
  | SuggestionActionResult string "string option"
  | KeyEvent key_event
  | ActionResult action_result
  | ResizeEvent int int
  | ConsoleExecResult string string bool

datatype cmd =
    CmdNone | CmdRefresh
  | CmdApprove string string string
  | CmdDeny string string string
  | CmdRingBell | CmdQuit
  | CmdConsoleExec string
  | CmdGeneralizeAccept string string "string list"
  | CmdDigestRefresh
  | CmdSuggestionAccept string | CmdSuggestionDecline string | CmdSuggestionSkip string
  | CmdSuggestNow | CmdRepaint | CmdSuspend | CmdURLsRefresh
  | CmdOpenMode bool

definition opsPauseTicks :: nat where "opsPauseTicks = 2"
definition idleSnapTicks :: nat where "idleSnapTicks = 4"
definition statusInfoTimeoutTicks :: nat where "statusInfoTimeoutTicks = 8"
definition maxScrollback :: nat where "maxScrollback = 200"

definition ellipsis :: string where
  "ellipsis = map char_of [226, 128, 166 :: nat]"

definition tui_truncate :: "string \<Rightarrow> nat \<Rightarrow> string" where
  "tui_truncate s n = (if length s \<le> n then s else trim_right_chars [CHR '' ''] (take n s) @ ellipsis)"

text \<open>A slice of a slice: the lines of a text without its trailing newlines.\<close>

definition splitLines :: "string \<Rightarrow> string list" where
  "splitLines s = (if s = [] then []
     else split_on (char_of (10 :: nat)) (trim_right_chars [char_of (10 :: nat)] s))"

definition appendScrollback :: "console_model \<Rightarrow> string \<Rightarrow> console_model" where
  "appendScrollback c line =
     (let sb = co_Scrollback c @ [line] in
      c\<lparr>co_Scrollback := (if length sb > maxScrollback then drop (length sb - maxScrollback) sb else sb)\<rparr>)"

definition removeHold :: "snapshot list \<Rightarrow> string \<Rightarrow> snapshot list" where
  "removeHold hs hid = filter (\<lambda>h. sn_ID h \<noteq> hid) hs"

definition openActive :: "model \<Rightarrow> int \<Rightarrow> bool" where
  "openActive m now \<longleftrightarrow> tm_OpenUntil m \<noteq> zero_time \<and> now < tm_OpenUntil m"

section \<open>The displayed rows\<close>

definition opIsResolved :: "string \<Rightarrow> bool" where
  "opIsResolved status \<longleftrightarrow> status \<notin> {''pending'', ''signaled'', ''checking''}"

type_synonym url_host_path = "string \<Rightarrow> (string \<times> string) option"

definition opGroupHostDir :: "url_host_path \<Rightarrow> string \<Rightarrow> string \<times> string" where
  "opGroupHostDir parse raw =
     (case parse raw of
        None \<Rightarrow> (raw, [])
      | Some (host, p) \<Rightarrow>
          if host = [] then (raw, [])
          else (host, case last_index_byte p (CHR ''/'') of Some i \<Rightarrow> take (Suc i) p | None \<Rightarrow> ''/''))"

text \<open>A buffer of six digits: a longer number runs off its front.\<close>

definition itoaPort :: "int \<Rightarrow> string option" where
  "itoaPort p = (if p = 0 then Some ''0'' else if p < 0 then Some [] else if p \<ge> 1000000 then None else Some (itoa p))"

record displayed_op =
  dp_Op :: op
  dp_Count :: nat
  dp_GroupKey :: string

definition hold_url :: "snapshot \<Rightarrow> string option" where
  "hold_url h =
     map_option (\<lambda>url. if sn_Path h \<noteq> [] \<and> sn_Scheme h \<noteq> [] then sn_Scheme h @ ''://'' @ url @ sn_Path h else url)
       (if sn_Port h > 0 then map_option (\<lambda>p. sn_Host h @ '':'' @ p) (itoaPort (sn_Port h)) else Some (sn_Host h))"

definition hold_op :: "snapshot \<Rightarrow> op option" where
  "hold_op h = map_option (\<lambda>url. \<lparr>op_RequestID = [], op_Method = sn_Method h, op_URL = url, op_Status = ''pending'',
     op_HoldID = sn_ID h, op_StartedAt = sn_CreatedAt h, op_UpdatedAt = sn_CreatedAt h, op_LatencyMS = 0,
     op_ResponseSizeBytes = 0\<rparr>) (hold_url h)"

text \<open>The holds the ring of operations does not carry.\<close>

definition missing_holds :: "model \<Rightarrow> snapshot list" where
  "missing_holds m =
     (let seen = filter (\<lambda>i. i \<noteq> []) (map op_HoldID (tm_Ops m)) in filter (\<lambda>h. sn_ID h \<notin> set seen) (tm_Holds m))"

definition flat_ops :: "model \<Rightarrow> op list option" where
  "flat_ops m = map_option (\<lambda>ops. tm_Ops m @ ops) (those (map hold_op (missing_holds m)))"

type_synonym fold_key = "string \<times> string \<times> string \<times> string"

record grouping =
  gr_out :: "displayed_op list"
  gr_indexOf :: "fold_key \<Rightarrow> nat option"
  gr_pendingByHold :: "string \<Rightarrow> nat option"

text \<open>One more operation for a row: it counts, and represents the row when it is newer.\<close>

definition joins :: "op \<Rightarrow> displayed_op \<Rightarrow> displayed_op" where
  "joins p d = d\<lparr>dp_Count := Suc (dp_Count d),
     dp_Op := (if op_UpdatedAt p > op_UpdatedAt (dp_Op d) then p else dp_Op d)\<rparr>"

definition NUL_key :: "string list \<Rightarrow> string" where
  "NUL_key parts = join_with [NUL] parts"

definition group_op :: "url_host_path \<Rightarrow> op \<Rightarrow> grouping \<Rightarrow> grouping" where
  "group_op parse p g =
     (let n = length (gr_out g) in
      if \<not> opIsResolved (op_Status p) then
        (if op_HoldID p \<noteq> [] then
           (case gr_pendingByHold g (op_HoldID p) of
              Some i \<Rightarrow> g\<lparr>gr_out := (gr_out g)[i := joins p (gr_out g ! i)]\<rparr>
            | None \<Rightarrow> g\<lparr>gr_pendingByHold := (gr_pendingByHold g)(op_HoldID p \<mapsto> n),
                gr_out := gr_out g @ [\<lparr>dp_Op = p, dp_Count = 1, dp_GroupKey = NUL_key [''h'', op_HoldID p]\<rparr>]\<rparr>)
         else g\<lparr>gr_out := gr_out g @ [\<lparr>dp_Op = p, dp_Count = 1, dp_GroupKey = NUL_key [''o'', op_RequestID p]\<rparr>]\<rparr>)
      else
        (case opGroupHostDir parse (op_URL p) of (host, dir) \<Rightarrow>
           let k = (op_Method p, host, dir, op_Status p) in
           (case gr_indexOf g k of
              Some i \<Rightarrow> g\<lparr>gr_out := (gr_out g)[i := joins p (gr_out g ! i)]\<rparr>
            | None \<Rightarrow> g\<lparr>gr_indexOf := (gr_indexOf g)(k \<mapsto> n),
                gr_out := gr_out g @ [\<lparr>dp_Op = p, dp_Count = 1,
                  dp_GroupKey = NUL_key [''g'', op_Method p, host, dir, op_Status p]\<rparr>]\<rparr>)))"

definition group_ops :: "url_host_path \<Rightarrow> op list \<Rightarrow> displayed_op list" where
  "group_ops parse ops = gr_out (fold (group_op parse) ops
     \<lparr>gr_out = [], gr_indexOf = (\<lambda>_. None), gr_pendingByHold = (\<lambda>_. None)\<rparr>)"

abbreviation row_resolved :: "displayed_op \<Rightarrow> bool" where
  "row_resolved d \<equiv> opIsResolved (op_Status (dp_Op d))"

definition started_before :: "displayed_op \<Rightarrow> displayed_op \<Rightarrow> bool" where
  "started_before a b \<longleftrightarrow> op_StartedAt (dp_Op a) < op_StartedAt (dp_Op b)"

definition arrange :: "displayed_op list \<Rightarrow> displayed_op list" where
  "arrange rows = filter row_resolved rows @ stable_sort started_before (filter (\<lambda>d. \<not> row_resolved d) rows)"

definition DisplayedOps :: "url_host_path \<Rightarrow> model \<Rightarrow> displayed_op list option" where
  "DisplayedOps parse m = map_option (\<lambda>ops. arrange (group_ops parse ops)) (flat_ops m)"

definition opsPendingSplit :: "displayed_op list \<Rightarrow> nat" where
  "opsPendingSplit rows = length (takeWhile row_resolved rows)"

definition PendingCount :: "displayed_op list \<Rightarrow> nat" where
  "PendingCount rows = length (filter (\<lambda>d. op_Status (dp_Op d) = ''pending'') rows)"

text \<open>The model the loop starts with.\<close>

definition initial_model :: "string \<Rightarrow> bool \<Rightarrow> int \<Rightarrow> int \<Rightarrow> model" where
  "initial_model welcome chime cols rows =
     (let console = \<lparr>co_Scrollback = [], co_Input = [], co_Cursor = 0, co_Prompt = ''trollbridge> ''\<rparr>;
          console = (if welcome \<noteq> [] then foldl appendScrollback console (splitLines welcome)
            else appendScrollback console (''type `help` for commands '' @ map char_of [194, 183 :: nat] @ '' Tab to switch panes''))
      in \<lparr>tm_Ops = [], tm_Holds = [], tm_OpenUntil = zero_time, tm_Selected = - 1, tm_LastInfo = [], tm_LastErr = [],
           tm_statusInfoSeen = [], tm_statusInfoAge = 0, tm_Cols = cols, tm_Rows = rows, tm_Quit = False,
           tm_Focused = PaneApprovals, tm_Console = console, tm_BottomPanel = BottomPanelConsole,
           tm_BottomPanelOpen = False, tm_Digests = [], tm_LLMSortByURL = False, tm_DigestSelected = [],
           tm_DigestExpanded = False, tm_Alerts = \<lparr>al_ChimeEnabled = chime, al_LastPendingSeen = 0\<rparr>,
           tm_AllowList = [], tm_DenyList = [], tm_URLsLocal = False, tm_URLsSelected = 0, tm_URLsAnchor = - 1,
           tm_GenCard = None, tm_URLsUndo = None, tm_URLsPendingReturn = False, tm_OpsPausedTicks = 0,
           tm_LastInputTicks = 0, tm_TickCount = 0, tm_CursorPreferPending = False, tm_Suggestion = None,
           tm_ReloadStatus = zero_status\<rparr>)"

lemma initial_model_sel [simp]:
  "tm_Ops (initial_model w b c r) = []" "tm_Holds (initial_model w b c r) = []" "tm_Selected (initial_model w b c r) = - 1"
  "tm_OpsPausedTicks (initial_model w b c r) = 0" "tm_GenCard (initial_model w b c r) = None" "tm_Focused (initial_model w b c r) = PaneApprovals"
  "tm_AllowList (initial_model w b c r) = []" "tm_DenyList (initial_model w b c r) = []"
  "tm_URLsSelected (initial_model w b c r) = 0" "tm_Suggestion (initial_model w b c r) = None"
  by (simp_all only: initial_model_def Let_def model.simps)

end
