(* ===== verification/TuiReducer.thy ===== *)
theory TuiReducer
  imports TuiModel "HOL-Library.Monad_Syntax"
begin

text \<open>
  The reducer of the operator console (\<open>Apply\<close> of \<open>internal/tui/reducer.go\<close>): from a model and an
  event to the next model and a command for the runtime, or \<open>None\<close> where the code panics. The
  displayed rows depend only on the operations and holds of the model, so one list of rows stands
  for the several calls of \<open>DisplayedOps\<close> between two changes of those.
\<close>

record ui_env =
  ue_parse :: url_host_path
  ue_etld :: etld_db

section \<open>The cursor over the rows\<close>

definition row_at :: "displayed_op list \<Rightarrow> int \<Rightarrow> displayed_op option" where
  "row_at rows i = (if i < 0 \<or> i \<ge> int (length rows) then None else Some (rows ! nat i))"

definition on_pending :: "displayed_op list \<Rightarrow> int \<Rightarrow> bool" where
  "on_pending rows i = (case row_at rows i of None \<Rightarrow> False | Some d \<Rightarrow> \<not> row_resolved d)"

definition first_row :: "(displayed_op \<Rightarrow> bool) \<Rightarrow> displayed_op list \<Rightarrow> nat option" where
  "first_row P rows = find (\<lambda>i. P (rows ! i)) [0..<length rows]"

definition last_row :: "(displayed_op \<Rightarrow> bool) \<Rightarrow> displayed_op list \<Rightarrow> nat option" where
  "last_row P rows = find (\<lambda>i. P (rows ! i)) (rev [0..<length rows])"

definition row_request :: "displayed_op \<Rightarrow> string" where
  "row_request d = (if op_RequestID (dp_Op d) = [] then ''hold:'' @ op_HoldID (dp_Op d) else op_RequestID (dp_Op d))"

definition selectionAnchors :: "displayed_op list \<Rightarrow> int \<Rightarrow> string \<times> string \<times> bool" where
  "selectionAnchors rows sel =
     (case row_at rows sel of
        None \<Rightarrow> ([], [], False)
      | Some d \<Rightarrow> (dp_GroupKey d, row_request d, \<not> row_resolved d))"

definition find_anchor :: "string \<times> string \<times> bool \<Rightarrow> displayed_op list \<Rightarrow> nat option" where
  "find_anchor anchors rows =
     (case anchors of (grp, req, was) \<Rightarrow>
        let acceptSection = (\<lambda>d. \<not> was \<or> \<not> row_resolved d) in
        (case (if grp \<noteq> [] then first_row (\<lambda>d. dp_GroupKey d = grp \<and> acceptSection d) rows else None) of
           Some i \<Rightarrow> Some i
         | None \<Rightarrow>
             (case (if req \<noteq> [] then first_row (\<lambda>d. row_request d = req \<and> acceptSection d) rows else None) of
                Some i \<Rightarrow> Some i
              | None \<Rightarrow> if was then last_row (\<lambda>d. \<not> row_resolved d) rows else None)))"

definition preserveSelection :: "string \<times> string \<times> bool \<Rightarrow> displayed_op list \<Rightarrow> int \<Rightarrow> int" where
  "preserveSelection anchors rows sel =
     (if fst anchors = [] \<and> fst (snd anchors) = [] then sel
      else (case find_anchor anchors rows of Some i \<Rightarrow> int i | None \<Rightarrow> - 1))"

definition clampSelection :: "displayed_op list \<Rightarrow> int \<Rightarrow> int" where
  "clampSelection rows sel =
     (if rows = [] then - 1
      else let sel = (if sel < 0 then 0 else sel) in
        if sel \<ge> int (length rows) then int (length rows) - 1 else sel)"

definition applyCursorPendingStickiness :: "displayed_op list \<Rightarrow> model \<Rightarrow> model" where
  "applyCursorPendingStickiness rows m =
     (if rows = [] then m
      else if on_pending rows (tm_Selected m) then m\<lparr>tm_CursorPreferPending := True\<rparr>
      else if \<not> tm_CursorPreferPending m then m
      else (case last_row (\<lambda>d. \<not> row_resolved d) rows of
          Some i \<Rightarrow> m\<lparr>tm_Selected := int i\<rparr> | None \<Rightarrow> m))"

section \<open>Ticks\<close>

text \<open>The steps the two ticks share: \<open>f\<close> stores the new holds or operations.\<close>

definition refresh_rows :: "ui_env \<Rightarrow> (model \<Rightarrow> model) \<Rightarrow> model \<Rightarrow> (model \<times> displayed_op list) option" where
  "refresh_rows env f m = do {
     rows \<leftarrow> DisplayedOps (ue_parse env) m;
     let anchors = selectionAnchors rows (tm_Selected m);
     let m = (if snd (snd anchors) then m\<lparr>tm_CursorPreferPending := True\<rparr> else m);
     let m = (f m)\<lparr>tm_LastErr := []\<rparr>;
     rows' \<leftarrow> DisplayedOps (ue_parse env) m;
     let m = m\<lparr>tm_Selected := clampSelection rows' (preserveSelection anchors rows' (tm_Selected m))\<rparr>;
     Some (applyCursorPendingStickiness rows' m, rows')
   }"

definition applyTick :: "ui_env \<Rightarrow> model \<Rightarrow> snapshot list \<Rightarrow> string option \<Rightarrow> (model \<times> cmd) option" where
  "applyTick env m holds err =
     (case err of
        Some e \<Rightarrow> Some (m\<lparr>tm_LastErr := ''control API: '' @ tui_truncate e 200\<rparr>, CmdNone)
      | None \<Rightarrow>
          if tm_OpsPausedTicks m > 0 then Some (m\<lparr>tm_OpsPausedTicks := tm_OpsPausedTicks m - 1\<rparr>, CmdNone)
          else do { (m', rows) \<leftarrow> refresh_rows env (\<lambda>m. m\<lparr>tm_Holds := holds\<rparr>) m; Some (m', CmdNone) })"

definition age_info :: "model \<Rightarrow> model" where
  "age_info m =
     (if tm_LastInfo m \<noteq> tm_statusInfoSeen m then m\<lparr>tm_statusInfoSeen := tm_LastInfo m, tm_statusInfoAge := 0\<rparr>
      else if tm_LastInfo m \<noteq> [] then
        (let m = m\<lparr>tm_statusInfoAge := Suc (tm_statusInfoAge m)\<rparr> in
         if tm_statusInfoAge m \<ge> statusInfoTimeoutTicks
         then m\<lparr>tm_LastInfo := [], tm_statusInfoSeen := [], tm_statusInfoAge := 0\<rparr> else m)
      else m)"

definition is_pending :: "displayed_op \<Rightarrow> bool" where
  "is_pending d \<longleftrightarrow> op_Status (dp_Op d) = ''pending''"

definition idle_snap :: "displayed_op list \<Rightarrow> model \<Rightarrow> model" where
  "idle_snap rows m =
     (let m = m\<lparr>tm_LastInputTicks := Suc (tm_LastInputTicks m)\<rparr> in
      if tm_LastInputTicks m \<ge> idleSnapTicks \<and> rows \<noteq> []
         \<and> \<not> (case row_at rows (tm_Selected m) of None \<Rightarrow> False | Some d \<Rightarrow> is_pending d) \<and> is_pending (last rows)
      then m\<lparr>tm_Selected := int (length rows) - 1, tm_LastInputTicks := 0\<rparr> else m)"

definition applyOpsTick :: "ui_env \<Rightarrow> model \<Rightarrow> op list \<Rightarrow> string option \<Rightarrow> (model \<times> cmd) option" where
  "applyOpsTick env m ops err =
     (case err of
        Some e \<Rightarrow> Some (m\<lparr>tm_LastErr := ''control API (ops): '' @ tui_truncate e 200\<rparr>, CmdNone)
      | None \<Rightarrow>
          if tm_OpsPausedTicks m > 0 then Some (m\<lparr>tm_OpsPausedTicks := tm_OpsPausedTicks m - 1\<rparr>, CmdNone)
          else do {
            (m, rows) \<leftarrow> refresh_rows env (\<lambda>m. m\<lparr>tm_Ops := ops\<rparr>) m;
            let m = idle_snap rows (age_info (m\<lparr>tm_TickCount := Suc (tm_TickCount m)\<rparr>));
            let curr = PendingCount rows;
            let prev = al_LastPendingSeen (tm_Alerts m);
            let m = m\<lparr>tm_Alerts := (tm_Alerts m)\<lparr>al_LastPendingSeen := curr\<rparr>\<rparr>;
            Some (m, if curr > prev \<and> al_ChimeEnabled (tm_Alerts m) then CmdRingBell else CmdNone)
          })"

section \<open>The digests of the advisor\<close>

definition reconcileDigestSelection :: "model \<Rightarrow> model" where
  "reconcileDigestSelection m =
     (if tm_Digests m = [] then m\<lparr>tm_DigestSelected := [], tm_DigestExpanded := False\<rparr>
      else if tm_DigestSelected m \<noteq> [] \<and> tm_DigestSelected m \<in> dg_RequestID ` set (tm_Digests m) then m
      else m\<lparr>tm_DigestSelected := dg_RequestID (last (tm_Digests m)), tm_DigestExpanded := True\<rparr>)"

definition digestURLString :: "digest \<Rightarrow> string" where
  "digestURLString d =
     (let host = (if dg_Port d > 0 then dg_Host d @ '':'' @ itoa (dg_Port d) else dg_Host d) in
      if dg_Scheme d = [] \<or> dg_Path d = [] then dg_Method d @ '' '' @ host
      else dg_Method d @ '' '' @ dg_Scheme d @ ''://'' @ host @ dg_Path d)"

definition digest_url_before :: "digest \<Rightarrow> digest \<Rightarrow> bool" where
  "digest_url_before a b =
     (if digestURLString a = digestURLString b then dg_Timestamp a > dg_Timestamp b
      else digestURLString a < digestURLString b)"

definition displayedDigests :: "model \<Rightarrow> digest list" where
  "displayedDigests m =
     (if tm_LLMSortByURL m then stable_sort digest_url_before (tm_Digests m) else rev (tm_Digests m))"

definition digestSelectedIndex :: "model \<Rightarrow> nat option" where
  "digestSelectedIndex m =
     (if tm_DigestSelected m = [] then None
      else find (\<lambda>i. dg_RequestID (displayedDigests m ! i) = tm_DigestSelected m) [0..<length (displayedDigests m)])"

definition digestAtDisplayIndex :: "model \<Rightarrow> nat \<Rightarrow> digest option" where
  "digestAtDisplayIndex m i =
     (if i < length (displayedDigests m) then Some (displayedDigests m ! i) else None)"

definition select_digest :: "nat \<Rightarrow> model \<Rightarrow> model" where
  "select_digest i m =
     (case digestAtDisplayIndex m i of Some d \<Rightarrow> m\<lparr>tm_DigestSelected := dg_RequestID d\<rparr> | None \<Rightarrow> m)"

definition select_newest :: "model \<Rightarrow> model" where
  "select_newest m =
     (if tm_Digests m \<noteq> [] then m\<lparr>tm_DigestSelected := dg_RequestID (last (tm_Digests m))\<rparr> else m)"

section \<open>Keys\<close>

definition pressed :: "char \<Rightarrow> key_event \<Rightarrow> bool" where
  "pressed c e \<longleftrightarrow> ke_Rune e = of_char c"

definition toggle_off :: "model \<Rightarrow> model" where
  "toggle_off m = m\<lparr>tm_BottomPanelOpen := False, tm_Focused := PaneApprovals\<rparr>"

definition panel_shown :: "bottom_panel \<Rightarrow> model \<Rightarrow> bool" where
  "panel_shown p m \<longleftrightarrow> tm_BottomPanelOpen m \<and> tm_BottomPanel m = p"

definition applyMetaPanelDigitKey :: "model \<Rightarrow> key_event \<Rightarrow> (model \<times> cmd) option" where
  "applyMetaPanelDigitKey m e =
     (let m0 = m\<lparr>tm_URLsPendingReturn := False, tm_OpsPausedTicks := 0\<rparr> in
      if pressed (CHR ''0'') e then Some (toggle_off m0, CmdNone)
      else if pressed (CHR ''1'') e then
        (if panel_shown BottomPanelConsole m0 then Some (toggle_off m0, CmdNone)
         else Some (m0\<lparr>tm_BottomPanel := BottomPanelConsole, tm_BottomPanelOpen := True, tm_Focused := PaneConsole\<rparr>, CmdNone))
      else if pressed (CHR ''2'') e then
        (if panel_shown BottomPanelInfo m0 then Some (toggle_off m0, CmdNone)
         else Some (m0\<lparr>tm_BottomPanel := BottomPanelInfo, tm_BottomPanelOpen := True, tm_Focused := PaneApprovals\<rparr>, CmdNone))
      else if pressed (CHR ''3'') e then
        (if panel_shown BottomPanelLLM m0 then Some (toggle_off (m0\<lparr>tm_DigestExpanded := False\<rparr>), CmdNone)
         else
           let m1 = m0\<lparr>tm_BottomPanel := BottomPanelLLM, tm_BottomPanelOpen := True, tm_Focused := PaneConsole\<rparr>;
               m2 = (if tm_DigestSelected m1 = [] then select_newest m1 else m1)
           in Some (m2\<lparr>tm_DigestExpanded := True\<rparr>, CmdDigestRefresh))
      else if pressed (CHR ''4'') e then
        (if panel_shown BottomPanelURLs m0 then Some (toggle_off m0, CmdNone)
         else Some (m0\<lparr>tm_BottomPanel := BottomPanelURLs, tm_BottomPanelOpen := True, tm_Focused := PaneConsole\<rparr>, CmdURLsRefresh))
      else None)"

definition applyKeyLLM :: "model \<Rightarrow> key_event \<Rightarrow> model \<times> cmd" where
  "applyKeyLLM m e =
     (if pressed (CHR ''q'') e then (m\<lparr>tm_DigestExpanded := False, tm_Focused := PaneApprovals\<rparr>, CmdNone)
      else case applyMetaPanelDigitKey m e of
        Some r \<Rightarrow> r
      | None \<Rightarrow>
          if ke_Key e = KeyEnter then
            (if tm_DigestSelected m = [] then (m, CmdNone)
             else (m\<lparr>tm_DigestExpanded := \<not> tm_DigestExpanded m\<rparr>, CmdNone))
          else if ke_Key e = KeyUp \<or> pressed (CHR ''k'') e then
            ((case digestSelectedIndex m of
                Some i \<Rightarrow> if i > 0 then select_digest (i - 1) m else m
              | None \<Rightarrow> select_newest m)\<lparr>tm_DigestExpanded := True\<rparr>, CmdNone)
          else if ke_Key e = KeyDown \<or> pressed (CHR ''j'') e then
            ((case digestSelectedIndex m of
                Some i \<Rightarrow> if Suc i < length (tm_Digests m) then select_digest (Suc i) m else m
              | None \<Rightarrow> select_newest m)\<lparr>tm_DigestExpanded := True\<rparr>, CmdNone)
          else if ke_Key e = KeyHome then
            (if tm_Digests m \<noteq> [] then ((select_digest 0 m)\<lparr>tm_DigestExpanded := True\<rparr>, CmdNone) else (m, CmdNone))
          else if ke_Key e = KeyEnd then
            (if tm_Digests m \<noteq> [] then ((select_digest (length (tm_Digests m) - 1) m)\<lparr>tm_DigestExpanded := True\<rparr>, CmdNone)
             else (m, CmdNone))
          else if pressed (CHR ''s'') e then (m\<lparr>tm_LLMSortByURL := \<not> tm_LLMSortByURL m\<rparr>, CmdNone)
          else (m, CmdNone))"

section \<open>The list editor\<close>

definition list_total :: "model \<Rightarrow> int" where
  "list_total m = int (length (tm_AllowList m) + length (tm_DenyList m))"

definition attach_only :: string where
  "attach_only = ''allow/deny editing runs on the proxy host''"

definition urlsSelectedPattern :: "model \<Rightarrow> (string \<times> string) option" where
  "urlsSelectedPattern m =
     (if tm_URLsSelected m < 0 \<or> tm_URLsSelected m \<ge> list_total m then None
      else
        let i = nat (tm_URLsSelected m);
            (pat, side) = (if i < length (tm_AllowList m) then (tm_AllowList m ! i, ''allow'')
                           else (tm_DenyList m ! (i - length (tm_AllowList m)), ''deny''));
            pat = trim_space pat
        in if pat = [] \<or> has_prefix pat ''#'' then None else Some (pat, side))"

definition urlsMoveTo :: "model \<Rightarrow> string \<Rightarrow> model \<times> cmd" where
  "urlsMoveTo m side =
     (if \<not> tm_URLsLocal m then (m\<lparr>tm_LastErr := attach_only\<rparr>, CmdNone)
      else case urlsSelectedPattern m of
        None \<Rightarrow> (m\<lparr>tm_LastErr := ''no entry selected''\<rparr>, CmdNone)
      | Some (pat, cur) \<Rightarrow>
          if cur = side then (m\<lparr>tm_LastInfo := pat @ '' already in '' @ side\<rparr>, CmdNone)
          else (m\<lparr>tm_LastInfo := ''moving '' @ pat @ '' to '' @ side @ ellipsis\<rparr>,
                CmdConsoleExec (''move '' @ side @ '' '' @ pat)))"

definition urlsRemoveSelected :: "model \<Rightarrow> model \<times> cmd" where
  "urlsRemoveSelected m =
     (if \<not> tm_URLsLocal m then (m\<lparr>tm_LastErr := attach_only\<rparr>, CmdNone)
      else case urlsSelectedPattern m of
        None \<Rightarrow> (m\<lparr>tm_LastErr := ''no entry selected''\<rparr>, CmdNone)
      | Some (pat, side) \<Rightarrow>
          (m\<lparr>tm_URLsUndo := Some \<lparr>uu_Pattern = pat, uu_Side = side\<rparr>,
             tm_LastInfo := ''removing '' @ pat @ ellipsis @ '' (^z undoes)''\<rparr>,
           CmdConsoleExec (''remove '' @ pat)))"

definition urlsUndo :: "model \<Rightarrow> model \<times> cmd" where
  "urlsUndo m =
     (if \<not> tm_URLsLocal m then (m\<lparr>tm_LastErr := attach_only\<rparr>, CmdNone)
      else case tm_URLsUndo m of
        None \<Rightarrow> (m\<lparr>tm_LastErr := ''nothing to undo''\<rparr>, CmdNone)
      | Some u \<Rightarrow>
          (m\<lparr>tm_URLsUndo := None, tm_LastInfo := ''restoring '' @ uu_Pattern u @ ellipsis\<rparr>,
           CmdConsoleExec (uu_Side u @ '' '' @ uu_Pattern u)))"

definition prefill_console :: "string \<Rightarrow> model \<Rightarrow> model" where
  "prefill_console line m = m\<lparr>tm_BottomPanel := BottomPanelConsole, tm_URLsPendingReturn := True,
     tm_Console := (tm_Console m)\<lparr>co_Input := to_runes line, co_Cursor := length (to_runes line)\<rparr>\<rparr>"

definition urlsEnterAddMode :: "model \<Rightarrow> model \<times> cmd" where
  "urlsEnterAddMode m =
     (if \<not> tm_URLsLocal m then (m\<lparr>tm_LastErr := attach_only\<rparr>, CmdNone)
      else ((prefill_console ''allow '' m)\<lparr>tm_LastInfo := ''add: type a URL pattern and press Enter (Esc to cancel)''\<rparr>, CmdNone))"

definition urlsEnterEditMode :: "model \<Rightarrow> model \<times> cmd" where
  "urlsEnterEditMode m =
     (if \<not> tm_URLsLocal m then (m\<lparr>tm_LastErr := attach_only\<rparr>, CmdNone)
      else case urlsSelectedPattern m of
        None \<Rightarrow> (m\<lparr>tm_LastErr := ''no entry selected''\<rparr>, CmdNone)
      | Some (pat, side) \<Rightarrow>
          ((prefill_console (side @ '' '' @ pat) (m\<lparr>tm_URLsUndo := Some \<lparr>uu_Pattern = pat, uu_Side = side\<rparr>\<rparr>))
             \<lparr>tm_LastInfo := ''edit: change and Enter, or Esc + ^z to recover''\<rparr>,
           CmdConsoleExec (''remove '' @ pat)))"

text \<open>The range of the selection, its ends in order.\<close>

definition selection_range :: "model \<Rightarrow> int \<times> int" where
  "selection_range m =
     (if tm_URLsAnchor m \<ge> 0 then (min (tm_URLsAnchor m) (tm_URLsSelected m), max (tm_URLsAnchor m) (tm_URLsSelected m))
      else (tm_URLsSelected m, tm_URLsSelected m))"

definition urlsGeneralize :: "ui_env \<Rightarrow> model \<Rightarrow> (model \<times> cmd) option" where
  "urlsGeneralize env m =
     (let combined = tm_AllowList m @ tm_DenyList m; na = length (tm_AllowList m); (lo, hi) = selection_range m in
      if \<not> tm_URLsLocal m then Some (m\<lparr>tm_LastErr := attach_only\<rparr>, CmdNone)
      else if combined = [] then Some (m\<lparr>tm_LastErr := ''no URLs to generalize''\<rparr>, CmdNone)
      else if lo < 0 then Some (m\<lparr>tm_URLsAnchor := - 1, tm_LastErr := ''no URL selected to generalize''\<rparr>, CmdNone)
      else if hi > lo then
        (let idx = [nat lo..<min (Suc (nat hi)) (length combined)];
             cands = DetectAll (ue_etld env) (map (\<lambda>i. combined ! i) (filter (\<lambda>i. i < na) idx))
                       (map (\<lambda>i. combined ! i) (filter (\<lambda>i. \<not> i < na) idx));
             m = m\<lparr>tm_URLsAnchor := - 1\<rparr>
         in if cands = [] then Some (m\<lparr>tm_LastErr := ''no generalization across the selected entries''\<rparr>, CmdNone)
            else Some (m\<lparr>tm_GenCard := Some \<lparr>gc_Candidates = cands, gc_AxisIndex = 0,
                   gc_SourceDesc = itoa (hi - lo + 1) @ '' selected entries''\<rparr>, tm_LastErr := []\<rparr>, CmdNone))
      else if lo \<ge> int (length combined) then None
      else
        (let ent = combined ! nat lo; side = (if nat lo \<ge> na then ''deny'' else ''allow'');
             cands = GeneralizeOne (ue_etld env) ent side; m = m\<lparr>tm_URLsAnchor := - 1\<rparr>
         in if cands = [] then Some (m\<lparr>tm_LastErr := ''no generalization for '' @ ent\<rparr>, CmdNone)
            else Some (m\<lparr>tm_GenCard := Some \<lparr>gc_Candidates = cands, gc_AxisIndex = 0,
                   gc_SourceDesc = ''1 entry: '' @ ent\<rparr>, tm_LastErr := []\<rparr>, CmdNone)))"

definition shift_anchor :: "model \<Rightarrow> model" where
  "shift_anchor m = (if tm_URLsAnchor m < 0 then m\<lparr>tm_URLsAnchor := tm_URLsSelected m\<rparr> else m)"

definition urls_up :: "model \<Rightarrow> model" where
  "urls_up m = (if tm_URLsSelected m > 0 then m\<lparr>tm_URLsSelected := tm_URLsSelected m - 1\<rparr> else m)"

definition urls_down :: "model \<Rightarrow> model" where
  "urls_down m = (if tm_URLsSelected m < list_total m - 1 then m\<lparr>tm_URLsSelected := tm_URLsSelected m + 1\<rparr> else m)"

definition applyKeyURLs :: "ui_env \<Rightarrow> model \<Rightarrow> key_event \<Rightarrow> (model \<times> cmd) option" where
  "applyKeyURLs env m e =
     (case applyMetaPanelDigitKey m e of
        Some r \<Rightarrow> Some r
      | None \<Rightarrow>
          let plain = m\<lparr>tm_URLsAnchor := - 1\<rparr> in
          if ke_Key e = KeyShiftUp then Some (urls_up (shift_anchor m), CmdNone)
          else if ke_Key e = KeyShiftDown then Some (urls_down (shift_anchor m), CmdNone)
          else if ke_Key e = KeyUp \<or> pressed (CHR ''k'') e then Some (urls_up plain, CmdNone)
          else if ke_Key e = KeyDown \<or> pressed (CHR ''j'') e then Some (urls_down plain, CmdNone)
          else if ke_Key e = KeyHome then
            Some (if list_total m > 0 then plain\<lparr>tm_URLsSelected := 0\<rparr> else plain, CmdNone)
          else if ke_Key e = KeyEnd then
            Some (if list_total m > 0 then plain\<lparr>tm_URLsSelected := list_total m - 1\<rparr> else plain, CmdNone)
          else if pressed (CHR ''x'') e \<or> ke_Key e = KeyDelete then Some (urlsRemoveSelected m)
          else if ke_Key e = KeyCtrlZ then Some (urlsUndo m)
          else if pressed (CHR ''a'') e then Some (urlsMoveTo m ''allow'')
          else if pressed (CHR ''d'') e then Some (urlsMoveTo m ''deny'')
          else if pressed (CHR ''+'') e then Some (urlsEnterAddMode m)
          else if pressed (CHR ''e'') e then Some (urlsEnterEditMode m)
          else if pressed (CHR ''g'') e then urlsGeneralize env m
          else if pressed (CHR ''s'') e then
            Some (m\<lparr>tm_LastErr := [], tm_LastInfo := ''scanning for generalizations'' @ ellipsis\<rparr>, CmdSuggestNow)
          else Some (m, CmdNone))"

section \<open>The generalization gc\<close>

definition Current :: "generalize_card \<Rightarrow> candidate option" where
  "Current c = (if gc_AxisIndex c < length (gc_Candidates c) then Some (gc_Candidates c ! gc_AxisIndex c) else None)"

definition arrow :: string where
  "arrow = map char_of [226, 134, 146 :: nat]"

definition applyKeyGenCard :: "model \<Rightarrow> generalize_card \<Rightarrow> key_event \<Rightarrow> (model \<times> cmd) option" where
  "applyKeyGenCard m gc e =
     (if pressed (CHR ''a'') e \<or> ke_Key e = KeyEnter then do {
        c \<leftarrow> Current gc;
        Some (m\<lparr>tm_GenCard := None, tm_LastErr := [],
               tm_LastInfo := ''generalized '' @ arrow @ '' '' @ c_List c @ '' '' @ c_SuggestedPattern c,
               tm_URLsPendingReturn := True\<rparr>,
             CmdGeneralizeAccept (c_List c) (c_SuggestedPattern c) (c_SourceEntries c)) }
      else if pressed (CHR ''d'') e \<or> ke_Key e = KeyEsc then Some (m\<lparr>tm_GenCard := None\<rparr>, CmdNone)
      else if ke_Key e = KeyTab \<or> ke_Key e = KeyShiftTab then
        (if gc_Candidates gc = [] then None
         else Some (m\<lparr>tm_GenCard := Some (gc\<lparr>gc_AxisIndex := Suc (gc_AxisIndex gc) mod length (gc_Candidates gc)\<rparr>)\<rparr>, CmdNone))
      else Some (m, CmdNone))"

section \<open>The approvals pane\<close>

definition allowDenyPattern :: "string \<Rightarrow> string \<Rightarrow> string" where
  "allowDenyPattern meth url =
     (let meth = to_upper (trim_space meth) in (if meth = [] then ''*'' else meth) @ '' '' @ url)"

text \<open>The keys \<open>a\<close> and \<open>d\<close> on the selected row.\<close>

definition decide_row :: "bool \<Rightarrow> displayed_op list \<Rightarrow> model \<Rightarrow> model \<times> cmd" where
  "decide_row allow rows m =
     (case row_at rows (tm_Selected m) of
        None \<Rightarrow> (m\<lparr>tm_LastErr := ''no operation selected''\<rparr>, CmdNone)
      | Some d \<Rightarrow>
          let p = dp_Op d; target = op_Method p @ '' '' @ op_URL p in
          if op_HoldID p \<noteq> [] \<and> op_Status p = ''pending'' then
            (if allow then (m\<lparr>tm_LastInfo := ''approving '' @ target @ ellipsis\<rparr>, CmdApprove (op_HoldID p) (op_Method p) (op_URL p))
             else (m\<lparr>tm_LastInfo := ''denying '' @ target @ ellipsis\<rparr>, CmdDeny (op_HoldID p) (op_Method p) (op_URL p)))
          else if op_URL p = [] then (m\<lparr>tm_LastErr := ''selected row has no URL to add''\<rparr>, CmdNone)
          else
            let verb = (if allow then ''allow'' else ''deny''); specific = allowDenyPattern (op_Method p) (op_URL p)
            in (m\<lparr>tm_LastInfo := verb @ ''ing '' @ specific @ ellipsis\<rparr>, CmdConsoleExec (verb @ '' '' @ specific)))"

definition suggestion_key :: "model \<Rightarrow> key_event \<Rightarrow> cmd option" where
  "suggestion_key m e =
     (case tm_Suggestion m of
        None \<Rightarrow> None
      | Some s \<Rightarrow>
          if pressed (CHR ''A'') e then Some (CmdSuggestionAccept (ts_ID s))
          else if pressed (CHR ''D'') e then Some (CmdSuggestionDecline (ts_ID s))
          else if pressed (CHR ''S'') e then Some (CmdSuggestionSkip (ts_ID s))
          else None)"

definition rows_up :: "displayed_op list \<Rightarrow> model \<Rightarrow> model" where
  "rows_up rows m =
     (let was = on_pending rows (tm_Selected m);
          m1 = (if tm_Selected m > 0 then m\<lparr>tm_Selected := tm_Selected m - 1\<rparr> else m);
          left = (case row_at rows (tm_Selected m1) of None \<Rightarrow> False | Some d \<Rightarrow> row_resolved d)
      in if was \<and> left then m1\<lparr>tm_CursorPreferPending := False\<rparr> else m1)"

definition applyKeyRows :: "displayed_op list \<Rightarrow> model \<Rightarrow> key_event \<Rightarrow> model \<times> cmd" where
  "applyKeyRows rows m e =
     (let paused = m\<lparr>tm_OpsPausedTicks := opsPauseTicks\<rparr>; n = int (length rows) in
      if ke_Key e = KeyUp \<or> pressed (CHR ''k'') e then (rows_up rows paused, CmdNone)
      else if ke_Key e = KeyDown \<or> pressed (CHR ''j'') e then
        (if tm_Selected m < n - 1 then paused\<lparr>tm_Selected := tm_Selected m + 1\<rparr> else paused, CmdNone)
      else if ke_Key e = KeyHome then (if rows \<noteq> [] then paused\<lparr>tm_Selected := 0\<rparr> else paused, CmdNone)
      else if ke_Key e = KeyEnd then (if rows \<noteq> [] then paused\<lparr>tm_Selected := n - 1\<rparr> else paused, CmdNone)
      else if pressed (CHR ''r'') e then (m, CmdRefresh)
      else if pressed (CHR ''o'') e then (m, CmdOpenMode False)
      else if pressed (CHR ''c'') e then (m, CmdOpenMode True)
      else (case applyMetaPanelDigitKey m e of
          Some r \<Rightarrow> r
        | None \<Rightarrow>
            if pressed (CHR ''b'') e then
              (let chime = \<not> al_ChimeEnabled (tm_Alerts m) in
               (m\<lparr>tm_Alerts := (tm_Alerts m)\<lparr>al_ChimeEnabled := chime\<rparr>,
                  tm_LastInfo := (if chime then ''chime: on (press 'b' to mute)'' else ''chime: muted (press 'b' to unmute)'')\<rparr>, CmdNone))
            else if pressed (CHR ''a'') e then decide_row True rows m
            else if pressed (CHR ''d'') e then decide_row False rows m
            else (m, CmdNone)))"

definition applyKeyApprovals :: "ui_env \<Rightarrow> model \<Rightarrow> key_event \<Rightarrow> (model \<times> cmd) option" where
  "applyKeyApprovals env m e =
     (if pressed (CHR ''q'') e then Some (m\<lparr>tm_Quit := True\<rparr>, CmdQuit)
      else if pressed (CHR ''z'') e then Some (m, CmdSuspend)
      else case suggestion_key m e of
        Some c \<Rightarrow> Some (m, c)
      | None \<Rightarrow> do { rows \<leftarrow> DisplayedOps (ue_parse env) m; Some (applyKeyRows rows m e) })"

section \<open>The console\<close>

definition applyKeyConsole :: "model \<Rightarrow> key_event \<Rightarrow> (model \<times> cmd) option" where
  "applyKeyConsole m e =
     (let c = tm_Console m; cur = co_Cursor c; inp = co_Input c in
      if ke_Key e = KeyEnter then
        (let line = of_runes inp;
             m' = m\<lparr>tm_Console := appendScrollback (c\<lparr>co_Input := [], co_Cursor := 0\<rparr>) (co_Prompt c @ line)\<rparr>
         in if trim_space line = [] then Some (m', CmdNone) else Some (m', CmdConsoleExec (trim_space line)))
      else if ke_Key e = KeyBackspace then
        (if cur > 0 then
           (if cur > length inp then None
            else Some (m\<lparr>tm_Console := c\<lparr>co_Input := take (cur - 1) inp @ drop cur inp, co_Cursor := cur - 1\<rparr>\<rparr>, CmdNone))
         else Some (m, CmdNone))
      else if ke_Key e = KeyCtrlU then Some (m\<lparr>tm_Console := c\<lparr>co_Input := [], co_Cursor := 0\<rparr>\<rparr>, CmdNone)
      else if ke_Rune e \<noteq> 0 then
        (if cur > length inp then None
         else Some (m\<lparr>tm_Console := c\<lparr>co_Input := take cur inp @ ke_Rune e # drop cur inp, co_Cursor := Suc cur\<rparr>\<rparr>, CmdNone))
      else Some (m, CmdNone))"

definition applyKey :: "ui_env \<Rightarrow> model \<Rightarrow> key_event \<Rightarrow> (model \<times> cmd) option" where
  "applyKey env m e =
     (let m = m\<lparr>tm_LastInputTicks := 0\<rparr> in
      if ke_Key e = KeyCtrlC then Some (m\<lparr>tm_Quit := True\<rparr>, CmdQuit)
      else if ke_Key e = KeyCtrlL then Some (m, CmdRepaint)
      else case tm_GenCard m of
        Some gc \<Rightarrow> applyKeyGenCard m gc e
      | None \<Rightarrow>
          if ke_Key e = KeyEsc then
            Some (if tm_BottomPanelOpen m then
                    m\<lparr>tm_BottomPanelOpen := False, tm_DigestExpanded := False, tm_Focused := PaneApprovals,
                      tm_URLsPendingReturn := False\<rparr>
                  else m, CmdNone)
          else if ke_Key e = KeyTab \<or> ke_Key e = KeyShiftTab then
            Some (if \<not> tm_BottomPanelOpen m then m
                  else m\<lparr>tm_Focused := (if tm_Focused m = PaneApprovals then PaneConsole else PaneApprovals),
                         tm_OpsPausedTicks := 0\<rparr>, CmdNone)
          else if tm_Focused m = PaneConsole then
            (case tm_BottomPanel m of
               BottomPanelURLs \<Rightarrow> applyKeyURLs env m e
             | BottomPanelLLM \<Rightarrow> Some (applyKeyLLM m e)
             | _ \<Rightarrow> applyKeyConsole m e)
          else applyKeyApprovals env m e)"

section \<open>Results of commands\<close>

definition resolveActionTarget :: "displayed_op list \<Rightarrow> string \<Rightarrow> string" where
  "resolveActionTarget rows hid =
     (case find (\<lambda>d. op_HoldID (dp_Op d) = hid) rows of
        None \<Rightarrow> [] | Some d \<Rightarrow> op_Method (dp_Op d) @ '' '' @ op_URL (dp_Op d))"

definition applyActionResult :: "ui_env \<Rightarrow> model \<Rightarrow> action_result \<Rightarrow> (model \<times> cmd) option" where
  "applyActionResult env m e = do {
     target \<leftarrow> (if ar_ID e = [] then Some []
       else map_option (\<lambda>rows. resolveActionTarget rows (ar_ID e)) (DisplayedOps (ue_parse env) m));
     case ar_Err e of
       Some (msg, notFound) \<Rightarrow>
         if notFound \<and> ar_URL e \<noteq> [] then
           (let verb = (if ar_Action e = ''deny'' then ''deny'' else ''allow''); specific = allowDenyPattern (ar_Method e) (ar_URL e)
            in Some (m\<lparr>tm_LastInfo := verb @ ''ing '' @ specific @ '' (hold already resolved)'' @ ellipsis, tm_LastErr := []\<rparr>,
                     CmdConsoleExec (verb @ '' '' @ specific)))
         else Some (m\<lparr>tm_LastErr := ar_Action e @ '' '' @ (if target = [] then ar_ID e else target) @ '': '' @ tui_truncate msg 200,
                      tm_LastInfo := []\<rparr>, CmdNone)
     | None \<Rightarrow> do {
         let m = m\<lparr>tm_Holds := removeHold (tm_Holds m) (ar_ID e),
                   tm_LastInfo := ar_Action e @ (if target \<noteq> [] then ''d '' @ target else ''d (op no longer in ring)''),
                   tm_LastErr := []\<rparr>;
         rows \<leftarrow> DisplayedOps (ue_parse env) m;
         Some (m\<lparr>tm_Selected := clampSelection rows (tm_Selected m)\<rparr>, CmdRefresh)
       }
   }"

definition applyConsoleExec :: "model \<Rightarrow> string \<Rightarrow> bool \<Rightarrow> model \<times> cmd" where
  "applyConsoleExec m out quit =
     (let m = m\<lparr>tm_Console := foldl appendScrollback (tm_Console m) (splitLines out)\<rparr> in
      if quit then (m\<lparr>tm_Quit := True\<rparr>, CmdQuit)
      else
        let m = (if tm_URLsPendingReturn m then m\<lparr>tm_URLsPendingReturn := False, tm_BottomPanel := BottomPanelURLs\<rparr> else m)
        in (m, if panel_shown BottomPanelURLs m then CmdURLsRefresh else CmdNone))"

definition suggestionActionPast :: "string \<Rightarrow> string" where
  "suggestionActionPast act =
     (if act = ''accept'' then ''accepted'' else if act = ''decline'' then ''declined''
      else if act = ''skip'' then ''skipped'' else act @ ''ed'')"

definition applyURLsTick :: "model \<Rightarrow> string list \<Rightarrow> string list \<Rightarrow> bool \<Rightarrow> model" where
  "applyURLsTick m allow deny loc =
     (let m = m\<lparr>tm_AllowList := allow, tm_DenyList := deny, tm_URLsLocal := loc, tm_URLsAnchor := - 1\<rparr> in
      if list_total m = 0 then m\<lparr>tm_URLsSelected := - 1\<rparr>
      else
        let sel = (if tm_URLsSelected m < 0 then 0 else tm_URLsSelected m)
        in m\<lparr>tm_URLsSelected := (if sel \<ge> list_total m then list_total m - 1 else sel)\<rparr>)"

definition applySuggestionTick :: "model \<Rightarrow> tui_suggestion option \<Rightarrow> string option \<Rightarrow> bool \<Rightarrow> model" where
  "applySuggestionTick m s err onDemand =
     (let m = (if err = None then m\<lparr>tm_Suggestion := s\<rparr> else m) in
      if \<not> onDemand then m
      else case err of
        Some e \<Rightarrow> m\<lparr>tm_LastErr := ''suggest: '' @ tui_truncate e 200\<rparr>
      | None \<Rightarrow> m\<lparr>tm_LastInfo := (if s = None then ''no generalization opportunities found'' else [])\<rparr>)"

definition applySuggestionAction :: "model \<Rightarrow> string \<Rightarrow> string option \<Rightarrow> model" where
  "applySuggestionAction m act err =
     (case err of
        Some e \<Rightarrow> m\<lparr>tm_LastErr := ''suggestion '' @ act @ '': '' @ tui_truncate e 200, tm_LastInfo := []\<rparr>
      | None \<Rightarrow> m\<lparr>tm_LastInfo := ''suggestion '' @ suggestionActionPast act, tm_LastErr := [], tm_Suggestion := None\<rparr>)"

section \<open>The reducer\<close>

definition Apply :: "ui_env \<Rightarrow> model \<Rightarrow> event \<Rightarrow> (model \<times> cmd) option" where
  "Apply env m ev =
     (case ev of
        TickResult holds err \<Rightarrow> applyTick env m holds err
      | OpsTickResult ops err \<Rightarrow> applyOpsTick env m ops err
      | OpenModeResult active until err \<Rightarrow> Some (if err = None then m\<lparr>tm_OpenUntil := until\<rparr> else m, CmdNone)
      | DigestTickResult ds err \<Rightarrow>
          Some (if err = None then reconcileDigestSelection (m\<lparr>tm_Digests := ds\<rparr>) else m, CmdNone)
      | URLsTickResult allow deny loc err \<Rightarrow> Some (if err = None then applyURLsTick m allow deny loc else m, CmdNone)
      | ReloadTickResult st err \<Rightarrow> Some (if err = None then m\<lparr>tm_ReloadStatus := st\<rparr> else m, CmdNone)
      | SuggestionTickResult s err onDemand \<Rightarrow> Some (applySuggestionTick m s err onDemand, CmdNone)
      | SuggestionActionResult act err \<Rightarrow> Some (applySuggestionAction m act err, CmdNone)
      | KeyEvent e \<Rightarrow> applyKey env m e
      | ActionResult e \<Rightarrow> applyActionResult env m e
      | ResizeEvent c r \<Rightarrow> Some (m\<lparr>tm_Cols := c, tm_Rows := r\<rparr>, CmdNone)
      | ConsoleExecResult line out quit \<Rightarrow> Some (applyConsoleExec m out quit))"

end
