(* ===== verification/TuiRows.thy ===== *)
theory TuiRows
  imports TuiModel
begin

text \<open>
  What the rows of the operations pane show: every request that waits for a decision has exactly
  one row, coalesced waiters are counted on it, and the undecided rows follow the decided ones,
  oldest first.
\<close>

section \<open>Grouping\<close>

definition open_on :: "string \<Rightarrow> op \<Rightarrow> bool" where
  "open_on h p \<longleftrightarrow> op_HoldID p = h \<and> \<not> opIsResolved (op_Status p)"

definition hold_row :: "string \<Rightarrow> displayed_op \<Rightarrow> bool" where
  "hold_row h d \<longleftrightarrow> open_on h (dp_Op d)"

text \<open>The state of the loop after the operations \<open>ps\<close>.\<close>

definition grouping_ok :: "op list \<Rightarrow> grouping \<Rightarrow> bool" where
  "grouping_ok ps g \<longleftrightarrow>
     (\<forall>k i. gr_indexOf g k = Some i \<longrightarrow> i < length (gr_out g) \<and> row_resolved (gr_out g ! i))
   \<and> (\<forall>h i. h \<noteq> [] \<longrightarrow> (gr_pendingByHold g h = Some i \<longleftrightarrow> i < length (gr_out g) \<and> hold_row h (gr_out g ! i)))
   \<and> (\<forall>h i. gr_pendingByHold g h = Some i \<longrightarrow> dp_Count (gr_out g ! i) = length (filter (open_on h) ps))
   \<and> (\<forall>h. h \<noteq> [] \<longrightarrow> (gr_pendingByHold g h = None \<longleftrightarrow> filter (open_on h) ps = []))
   \<and> gr_pendingByHold g [] = None
   \<and> sum_list (map dp_Count (gr_out g)) = length ps"

lemma grouping_okD:
  assumes "grouping_ok ps g"
  shows "gr_indexOf g k = Some i \<Longrightarrow> i < length (gr_out g) \<and> row_resolved (gr_out g ! i)"
    "h \<noteq> [] \<Longrightarrow> gr_pendingByHold g h = Some i \<longleftrightarrow> i < length (gr_out g) \<and> hold_row h (gr_out g ! i)"
    "gr_pendingByHold g h = Some i \<Longrightarrow> dp_Count (gr_out g ! i) = length (filter (open_on h) ps)"
    "h \<noteq> [] \<Longrightarrow> gr_pendingByHold g h = None \<longleftrightarrow> filter (open_on h) ps = []"
    "gr_pendingByHold g [] = None" "sum_list (map dp_Count (gr_out g)) = length ps"
  using assms unfolding grouping_ok_def by blast+

lemma joins_sel [simp]:
  "dp_Count (joins p d) = Suc (dp_Count d)"
  "dp_Op (joins p d) = (if op_UpdatedAt p > op_UpdatedAt (dp_Op d) then p else dp_Op d)"
  "dp_GroupKey (joins p d) = dp_GroupKey d"
  by (simp_all add: joins_def)

lemma sum_counts_update:
  "i < length rows \<Longrightarrow> sum_list (map dp_Count (rows[i := joins p (rows ! i)])) = Suc (sum_list (map dp_Count rows))"
  by (induction rows arbitrary: i) (auto split: nat.split)

lemma nth_update_if: "j < length xs \<Longrightarrow> xs[i := x] ! j = (if i = j then x else xs ! j)"
  by (simp add: nth_list_update)

lemma grouping_okI:
  assumes "\<And>k i. gr_indexOf g k = Some i \<Longrightarrow> i < length (gr_out g) \<and> row_resolved (gr_out g ! i)"
    and "\<And>h i. h \<noteq> [] \<Longrightarrow> gr_pendingByHold g h = Some i \<longleftrightarrow> i < length (gr_out g) \<and> hold_row h (gr_out g ! i)"
    and "\<And>h i. gr_pendingByHold g h = Some i \<Longrightarrow> dp_Count (gr_out g ! i) = length (filter (open_on h) ps)"
    and "\<And>h. h \<noteq> [] \<Longrightarrow> gr_pendingByHold g h = None \<longleftrightarrow> filter (open_on h) ps = []"
    and "gr_pendingByHold g [] = None" and "sum_list (map dp_Count (gr_out g)) = length ps"
  shows "grouping_ok ps g"
  using assms unfolding grouping_ok_def by blast

text \<open>Another operation joins the row \<open>i\<close>, which stays a row of the same kind.\<close>

lemma grouping_ok_join:
  assumes ok: "grouping_ok ps g" and len: "i < length (gr_out g)"
    and same: "\<And>h. hold_row h (joins p (gr_out g ! i)) \<longleftrightarrow> hold_row h (gr_out g ! i)"
      "row_resolved (joins p (gr_out g ! i)) \<longleftrightarrow> row_resolved (gr_out g ! i)"
    and p: "\<And>h. h \<noteq> [] \<Longrightarrow> open_on h p \<longleftrightarrow> hold_row h (gr_out g ! i)"
  shows "grouping_ok (ps @ [p]) (g\<lparr>gr_out := (gr_out g)[i := joins p (gr_out g ! i)]\<rparr>)"
proof (rule grouping_okI, goal_cases)
  case (1 k j)
  then show ?case using grouping_okD(1) [OF ok, of k j] same(2) by (auto simp: nth_update_if)
next
  case (2 h j)
  show ?case
  proof (cases "i = j")
    case True
    then show ?thesis using grouping_okD(2) [OF ok 2, of j] same(1) [of h] len by (simp add: nth_update_if)
  next
    case False
    then show ?thesis using grouping_okD(2) [OF ok 2, of j] by simp
  qed
next
  case (3 h j)
  then have h: "gr_pendingByHold g h = Some j" "h \<noteq> []" using grouping_okD(5) [OF ok] by auto
  note old = grouping_okD(2) [OF ok h(2), of j] grouping_okD(2) [OF ok h(2), of i] grouping_okD(3) [OF ok h(1)]
  show ?case
  proof (cases "i = j")
    case True
    then show ?thesis using old p [OF h(2)] h(1) by (simp add: nth_update_if)
  next
    case False
    have "\<not> hold_row h (gr_out g ! i)" using old(2) h(1) len False by simp
    then have "\<not> open_on h p" using p [OF h(2)] by simp
    then show ?thesis using old(3) False by simp
  qed
next
  case (4 h)
  show ?case
  proof (cases "open_on h p")
    case True
    then have "gr_pendingByHold g h = Some i" using grouping_okD(2) [OF ok 4, of i] p [OF 4] len by simp
    then show ?thesis using True by simp
  next
    case False
    then show ?thesis using grouping_okD(4) [OF ok 4] by simp
  qed
next
  case 5
  show ?case using grouping_okD(5) [OF ok] by simp
next
  case 6
  show ?case using grouping_okD(6) [OF ok] len by (simp add: sum_counts_update)
qed

text \<open>A new row for an operation, at the end.\<close>

lemma grouping_ok_append:
  assumes ok: "grouping_ok ps g"
    and ix: "\<And>k i. ix k = Some i \<Longrightarrow> gr_indexOf g k = Some i \<or> i = length (gr_out g) \<and> opIsResolved (op_Status p)"
    and ph: "\<And>h. h \<noteq> [] \<Longrightarrow> ph h = (if open_on h p then Some (length (gr_out g)) else gr_pendingByHold g h)" "ph [] = None"
    and new: "\<And>h. h \<noteq> [] \<Longrightarrow> open_on h p \<Longrightarrow> gr_pendingByHold g h = None"
  shows "grouping_ok (ps @ [p]) (g\<lparr>gr_indexOf := ix, gr_pendingByHold := ph,
    gr_out := gr_out g @ [\<lparr>dp_Op = p, dp_Count = 1, dp_GroupKey = key\<rparr>]\<rparr>)"
proof (rule grouping_okI, goal_cases)
  case (1 k j)
  then have "gr_indexOf g k = Some j \<or> j = length (gr_out g) \<and> opIsResolved (op_Status p)" using ix by simp
  then show ?case using grouping_okD(1) [OF ok, of k j] by (auto simp: nth_append)
next
  case (2 h j)
  note old = grouping_okD(2) [OF ok 2]
  show ?case
  proof (cases "open_on h p")
    case True
    then have "\<not> (j < length (gr_out g) \<and> hold_row h (gr_out g ! j))" for j using new [OF 2] old [of j] by simp
    then show ?thesis using True ph(1) [OF 2] by (auto simp: nth_append hold_row_def less_Suc_eq)
  next
    case False
    then show ?thesis using old [of j] ph(1) [OF 2] by (auto simp: nth_append hold_row_def less_Suc_eq)
  qed
next
  case (3 h j)
  then have h: "h \<noteq> []" "ph h = Some j" using ph(2) by auto
  show ?case
  proof (cases "open_on h p")
    case True
    then have "filter (open_on h) ps = []" using new [OF h(1)] grouping_okD(4) [OF ok h(1)] by simp
    then show ?thesis using True ph(1) [OF h(1)] h(2) by (simp add: nth_append)
  next
    case False
    then have "gr_pendingByHold g h = Some j" using ph(1) [OF h(1)] h(2) by simp
    then show ?thesis using False grouping_okD(2) [OF ok h(1), of j] grouping_okD(3) [OF ok, of h j] by (simp add: nth_append)
  qed
next
  case (4 h)
  then show ?case using grouping_okD(4) [OF ok 4] ph(1) [OF 4] by simp
next
  case 5
  show ?case using ph(2) by simp
next
  case 6
  show ?case using grouping_okD(6) [OF ok] by simp
qed

lemma grouping_ok_step:
  assumes ok: "grouping_ok ps g"
  shows "grouping_ok (ps @ [p]) (group_op parse p g)"
proof (cases "opIsResolved (op_Status p)")
  case res: False
  have opn: "open_on h p \<longleftrightarrow> h = op_HoldID p" for h using res by (auto simp: open_on_def)
  show ?thesis
  proof (cases "op_HoldID p = []")
    case True
    have "grouping_ok (ps @ [p]) (g\<lparr>gr_indexOf := gr_indexOf g, gr_pendingByHold := gr_pendingByHold g,
      gr_out := gr_out g @ [\<lparr>dp_Op = p, dp_Count = 1, dp_GroupKey = NUL_key [''o'', op_RequestID p]\<rparr>]\<rparr>)"
      using True opn grouping_okD(5) [OF ok] by (intro grouping_ok_append [OF ok]) auto
    then show ?thesis using res True by (simp add: group_op_def)
  next
    case ne: False
    show ?thesis
    proof (cases "gr_pendingByHold g (op_HoldID p)")
      case None
      have "grouping_ok (ps @ [p]) (g\<lparr>gr_indexOf := gr_indexOf g,
        gr_pendingByHold := (gr_pendingByHold g)(op_HoldID p \<mapsto> length (gr_out g)),
        gr_out := gr_out g @ [\<lparr>dp_Op = p, dp_Count = 1, dp_GroupKey = NUL_key [''h'', op_HoldID p]\<rparr>]\<rparr>)"
        using None opn ne grouping_okD(5) [OF ok] by (intro grouping_ok_append [OF ok]) auto
      then show ?thesis using res ne None by (simp add: group_op_def)
    next
      case (Some i)
      then have row: "i < length (gr_out g)" "hold_row (op_HoldID p) (gr_out g ! i)" using grouping_okD(2) [OF ok ne] by auto
      then have "grouping_ok (ps @ [p]) (g\<lparr>gr_out := (gr_out g)[i := joins p (gr_out g ! i)]\<rparr>)"
        using res opn by (intro grouping_ok_join [OF ok]) (auto simp: hold_row_def open_on_def)
      then show ?thesis using res ne Some by (simp add: group_op_def)
    qed
  qed
next
  case res: True
  have opn: "\<not> open_on h p" for h using res by (simp add: open_on_def)
  obtain host dir where hd: "opGroupHostDir parse (op_URL p) = (host, dir)" by (cases "opGroupHostDir parse (op_URL p)")
  let ?k = "(op_Method p, host, dir, op_Status p)"
  show ?thesis
  proof (cases "gr_indexOf g ?k")
    case None
    have "grouping_ok (ps @ [p]) (g\<lparr>gr_indexOf := (gr_indexOf g)(?k \<mapsto> length (gr_out g)), gr_pendingByHold := gr_pendingByHold g,
      gr_out := gr_out g @ [\<lparr>dp_Op = p, dp_Count = 1, dp_GroupKey = NUL_key [''g'', op_Method p, host, dir, op_Status p]\<rparr>]\<rparr>)"
      using opn res grouping_okD(5) [OF ok] by (intro grouping_ok_append [OF ok]) (auto split: if_splits)
    then show ?thesis using res hd None by (simp add: group_op_def)
  next
    case (Some i)
    then have row: "i < length (gr_out g)" "row_resolved (gr_out g ! i)" using grouping_okD(1) [OF ok] by auto
    then have "grouping_ok (ps @ [p]) (g\<lparr>gr_out := (gr_out g)[i := joins p (gr_out g ! i)]\<rparr>)"
      using res opn by (intro grouping_ok_join [OF ok]) (auto simp: hold_row_def open_on_def)
    then show ?thesis using res hd Some by (simp add: group_op_def)
  qed
qed

lemma grouping_ok_fold:
  "grouping_ok ps (fold (group_op parse) ps \<lparr>gr_out = [], gr_indexOf = (\<lambda>_. None), gr_pendingByHold = (\<lambda>_. None)\<rparr>)"
proof (induction ps rule: rev_induct)
  case (snoc p ps)
  then show ?case using grouping_ok_step by simp
qed (simp add: grouping_ok_def)

lemma grouping_ok_rows:
  assumes "h \<noteq> []"
  shows "map dp_Count (filter (hold_row h) (group_ops parse ps))
      = (if filter (open_on h) ps = [] then [] else [length (filter (open_on h) ps)])"
    and "sum_list (map dp_Count (group_ops parse ps)) = length ps"
proof -
  define g where "g = fold (group_op parse) ps \<lparr>gr_out = [], gr_indexOf = (\<lambda>_. None), gr_pendingByHold = (\<lambda>_. None)\<rparr>"
  have ok: "grouping_ok ps g" using grouping_ok_fold by (simp add: g_def)
  have out: "group_ops parse ps = gr_out g" by (simp add: group_ops_def g_def)
  show "sum_list (map dp_Count (group_ops parse ps)) = length ps" using grouping_okD(6) [OF ok] by (simp add: out)
  note row = grouping_okD(2) [OF ok assms]
  show "map dp_Count (filter (hold_row h) (group_ops parse ps))
      = (if filter (open_on h) ps = [] then [] else [length (filter (open_on h) ps)])"
  proof (cases "gr_pendingByHold g h")
    case None
    then have "\<not> hold_row h d" if "d \<in> set (gr_out g)" for d using row that by (auto simp: in_set_conv_nth)
    then have "filter (hold_row h) (gr_out g) = []" by (simp add: filter_empty_conv)
    then show ?thesis using None grouping_okD(4) [OF ok assms] by (simp add: out)
  next
    case (Some i)
    then have i: "i < length (gr_out g)" "hold_row h (gr_out g ! i)" using row by auto
    have uniq: "j < length (gr_out g) \<Longrightarrow> hold_row h (gr_out g ! j) \<Longrightarrow> j = i" for j using row [of j] Some by auto
    have "gr_out g = take i (gr_out g) @ gr_out g ! i # drop (Suc i) (gr_out g)" by (simp add: id_take_nth_drop i(1))
    moreover have "\<not> hold_row h d" if "d \<in> set (take i (gr_out g))" for d
    proof -
      obtain j where "j < i" "gr_out g ! j = d" using \<open>d \<in> _\<close> i(1) by (auto simp: in_set_conv_nth)
      then show ?thesis using uniq [of j] i(1) by auto
    qed
    then have "filter (hold_row h) (take i (gr_out g)) = []" by (simp add: filter_empty_conv)
    moreover have "\<not> hold_row h d" if "d \<in> set (drop (Suc i) (gr_out g))" for d
    proof -
      obtain j where "Suc i + j < length (gr_out g)" "gr_out g ! (Suc i + j) = d"
        using \<open>d \<in> _\<close> i(1) by (force simp: in_set_conv_nth)
      then show ?thesis using uniq [of "Suc i + j"] by auto
    qed
    then have "filter (hold_row h) (drop (Suc i) (gr_out g)) = []" by (simp add: filter_empty_conv)
    ultimately have "filter (hold_row h) (gr_out g) = [gr_out g ! i]" using i(2) by (metis append_Nil filter.simps(2) filter_append)
    moreover have "filter (open_on h) ps \<noteq> []" using grouping_okD(4) [OF ok assms] Some by auto
    ultimately show ?thesis using grouping_okD(3) [OF ok Some] by (simp add: out)
  qed
qed

text \<open>The key of an undecided row names its hold, or its request.\<close>

lemma NUL_key_pair: "NUL_key [a, b] = a @ NUL # b"
  by (simp add: NUL_key_def)

lemma NUL_key_nonempty: "NUL_key [a, b] \<noteq> []"
  by (simp add: NUL_key_pair)

definition open_key :: "op \<Rightarrow> string" where
  "open_key p = (if op_HoldID p = [] then NUL_key [''o'', op_RequestID p] else NUL_key [''h'', op_HoldID p])"

definition keys_ok :: "displayed_op list \<Rightarrow> bool" where
  "keys_ok rows \<longleftrightarrow> (\<forall>d \<in> set rows. row_resolved d \<or> dp_GroupKey d = open_key (dp_Op d))"

lemma keys_okD: "keys_ok rows \<Longrightarrow> d \<in> set rows \<Longrightarrow> \<not> row_resolved d \<Longrightarrow> dp_GroupKey d = open_key (dp_Op d)"
  by (auto simp: keys_ok_def)

lemma keys_ok_append: "keys_ok (rows @ [d]) \<longleftrightarrow> keys_ok rows \<and> (row_resolved d \<or> dp_GroupKey d = open_key (dp_Op d))"
  by (auto simp: keys_ok_def)

lemma keys_ok_update:
  "keys_ok rows \<Longrightarrow> row_resolved d \<or> dp_GroupKey d = open_key (dp_Op d) \<Longrightarrow> keys_ok (rows[i := d])"
  unfolding keys_ok_def using set_update_subset_insert [of rows i d] by blast

lemma keys_ok_step:
  assumes ok: "grouping_ok ps g" and keys: "keys_ok (gr_out g)"
  shows "keys_ok (gr_out (group_op parse p g))"
proof (cases "opIsResolved (op_Status p)")
  case res: False
  show ?thesis
  proof (cases "op_HoldID p = []")
    case True
    then show ?thesis using res keys by (simp add: group_op_def keys_ok_append open_key_def)
  next
    case ne: False
    show ?thesis
    proof (cases "gr_pendingByHold g (op_HoldID p)")
      case None
      then show ?thesis using res ne keys by (simp add: group_op_def keys_ok_append open_key_def)
    next
      case (Some i)
      then have row: "i < length (gr_out g)" "hold_row (op_HoldID p) (gr_out g ! i)" using grouping_okD(2) [OF ok ne] by auto
      then have "dp_GroupKey (gr_out g ! i) = NUL_key [''h'', op_HoldID p]"
        using keys_okD [OF keys nth_mem] ne by (auto simp: hold_row_def open_on_def open_key_def)
      then have "dp_GroupKey (joins p (gr_out g ! i)) = open_key (dp_Op (joins p (gr_out g ! i)))"
        using row(2) ne by (simp add: hold_row_def open_on_def open_key_def)
      then have "keys_ok ((gr_out g)[i := joins p (gr_out g ! i)])" using keys by (intro keys_ok_update) simp_all
      then show ?thesis using res ne Some by (simp add: group_op_def)
    qed
  qed
next
  case res: True
  obtain host dir where hd: "opGroupHostDir parse (op_URL p) = (host, dir)" by (cases "opGroupHostDir parse (op_URL p)")
  let ?k = "(op_Method p, host, dir, op_Status p)"
  show ?thesis
  proof (cases "gr_indexOf g ?k")
    case None
    then show ?thesis using res hd keys by (simp add: group_op_def keys_ok_append)
  next
    case (Some i)
    then have "row_resolved (joins p (gr_out g ! i))" using grouping_okD(1) [OF ok] res by auto
    then have "keys_ok ((gr_out g)[i := joins p (gr_out g ! i)])" by (intro keys_ok_update [OF keys] disjI1)
    then show ?thesis using res hd Some by (simp add: group_op_def)
  qed
qed

lemma keys_ok_fold: "keys_ok (group_ops parse ps)"
proof (induction ps rule: rev_induct)
  case (snoc p ps)
  then show ?case using keys_ok_step [OF grouping_ok_fold] by (simp add: group_ops_def)
qed (simp add: group_ops_def keys_ok_def)

section \<open>The arrangement\<close>

interpretation oldest_first: comparator started_before
  by unfold_locales (auto simp: started_before_def)

lemma filter_stable_none: "\<forall>x \<in> set xs. \<not> P x \<Longrightarrow> filter P (stable_sort lt xs) = []"
  by (simp add: filter_empty_conv)

lemma arrange_mset: "mset (arrange rows) = mset rows"
  by (simp add: arrange_def)

lemma filter_hold_arrange:
  assumes "map dp_Count (filter (hold_row h) rows) = (if b then [] else [n])"
  shows "map dp_Count (filter (hold_row h) (arrange rows)) = (if b then [] else [n])"
proof -
  have "mset (map dp_Count (filter (hold_row h) (arrange rows))) = mset (map dp_Count (filter (hold_row h) rows))"
    by (simp add: arrange_mset)
  then show ?thesis using assms by (cases b) (simp_all del: mset_map)
qed

lemma those_Some: "those (map f xs) = Some ys \<Longrightarrow> ys = map (\<lambda>x. the (f x)) xs \<and> (\<forall>x \<in> set xs. f x \<noteq> None)"
  by (induction xs arbitrary: ys) (auto split: option.splits)

lemma hold_op_sel: "hold_op h = Some p \<Longrightarrow> op_HoldID p = sn_ID h \<and> op_Status p = ''pending''"
  by (auto simp: hold_op_def)

text \<open>The requests that wait on a hold: its operations of the ring, or the hold itself when the ring
  carries none.\<close>

definition waiting_on :: "model \<Rightarrow> string \<Rightarrow> nat" where
  "waiting_on m h = length (filter (open_on h) (tm_Ops m)) + length (filter (\<lambda>s. sn_ID s = h) (missing_holds m))"

lemma flat_waiting:
  assumes "flat_ops m = Some ps"
  shows "length (filter (open_on h) ps) = waiting_on m h"
proof -
  obtain qs where qs: "those (map hold_op (missing_holds m)) = Some qs" "ps = tm_Ops m @ qs"
    using assms by (auto simp: flat_ops_def)
  note q = those_Some [OF qs(1)]
  have "open_on h (the (hold_op s)) \<longleftrightarrow> sn_ID s = h" if "s \<in> set (missing_holds m)" for s
    using q that by (force simp: open_on_def opIsResolved_def dest: hold_op_sel)
  then have "filter (open_on h \<circ> (\<lambda>s. the (hold_op s))) (missing_holds m) = filter (\<lambda>s. sn_ID s = h) (missing_holds m)"
    by (intro filter_cong) auto
  then show ?thesis using q qs(2) by (simp add: waiting_on_def filter_map)
qed

lemma missing_iff: "h \<noteq> [] \<Longrightarrow> (\<exists>s \<in> set (missing_holds m). sn_ID s = h) \<longleftrightarrow> h \<in> sn_ID ` set (tm_Holds m) \<and> h \<notin> op_HoldID ` set (tm_Ops m)"
  by (auto simp: missing_holds_def Let_def)

lemma waiting_positive:
  assumes "h \<noteq> []"
  shows "0 < waiting_on m h \<longleftrightarrow> (\<exists>p \<in> set (tm_Ops m). open_on h p)
    \<or> h \<in> sn_ID ` set (tm_Holds m) \<and> h \<notin> op_HoldID ` set (tm_Ops m)"
proof -
  have "0 < waiting_on m h \<longleftrightarrow> filter (open_on h) (tm_Ops m) \<noteq> [] \<or> filter (\<lambda>s. sn_ID s = h) (missing_holds m) \<noteq> []"
    by (auto simp: waiting_on_def)
  then show ?thesis using missing_iff [OF assms] by (auto simp: filter_empty_conv)
qed

text \<open>
  C25: no request that waits for the operator is lost or shown twice. As long as the operations of
  the ring that name a hold are still undecided, every hold of the queue has exactly one undecided
  row, whether the ring carries it or not, and that row counts the requests coalesced onto it.
\<close>

theorem every_hold_displayed:
  assumes "DisplayedOps parse m = Some rows" and "h \<in> sn_ID ` set (tm_Holds m)" and "h \<noteq> []"
    and "\<forall>p \<in> set (tm_Ops m). op_HoldID p \<noteq> [] \<longrightarrow> \<not> opIsResolved (op_Status p)"
  shows "map dp_Count (filter (hold_row h) rows) = [waiting_on m h] \<and> 0 < waiting_on m h"
proof -
  obtain ps where ps: "flat_ops m = Some ps" "rows = arrange (group_ops parse ps)"
    using assms(1) by (auto simp: DisplayedOps_def)
  have pos: "0 < waiting_on m h" using assms(2-4) waiting_positive [OF assms(3), of m] by (auto simp: open_on_def)
  then have "filter (open_on h) ps \<noteq> []" using flat_waiting [OF ps(1), of h] by (metis length_0_conv less_irrefl)
  then have "map dp_Count (filter (hold_row h) (group_ops parse ps)) = (if False then [] else [waiting_on m h])"
    using grouping_ok_rows(1) [OF assms(3), of parse ps] flat_waiting [OF ps(1), of h] by simp
  from filter_hold_arrange [OF this] pos show ?thesis by (simp add: ps(2))
qed

definition waiting_hold :: snapshot where
  "waiting_hold = \<lparr>sn_ID = ''h1'', sn_CreatedAt = 5, sn_IdentityID = [], sn_Method = ''GET'', sn_Scheme = ''http'',
     sn_Host = ''a.com'', sn_Port = 0, sn_Path = ''/'', sn_Reason = [], sn_RuleID = []\<rparr>"

definition one_waiting :: model where
  "one_waiting = (initial_model [] True 80 24)\<lparr>tm_Holds := [waiting_hold]\<rparr>"

lemma one_waiting_sel [simp]: "tm_Ops one_waiting = []" "tm_Holds one_waiting = [waiting_hold]" "sn_ID waiting_hold = ''h1''"
  by (simp_all add: one_waiting_def waiting_hold_def)

theorem every_hold_displayed_witness:
  "\<exists>rows. DisplayedOps (\<lambda>_. None) one_waiting = Some rows \<and> map dp_Count (filter (hold_row ''h1'') rows) = [1]"
proof -
  obtain p where p: "hold_op waiting_hold = Some p" by (simp add: hold_op_def hold_url_def waiting_hold_def)
  have "missing_holds one_waiting = [waiting_hold]" by (simp add: missing_holds_def Let_def)
  then have "DisplayedOps (\<lambda>_. None) one_waiting = Some (arrange (group_ops (\<lambda>_. None) [p]))"
    by (simp add: DisplayedOps_def flat_ops_def p)
  then obtain rows where r: "DisplayedOps (\<lambda>_. None) one_waiting = Some rows" by blast
  have "waiting_on one_waiting ''h1'' = 1" by (simp add: waiting_on_def missing_holds_def Let_def)
  with every_hold_displayed [OF r, of "''h1''"] have "map dp_Count (filter (hold_row ''h1'') rows) = [1]" by simp
  then show ?thesis by (intro exI [of _ rows] conjI r)
qed

text \<open>The row of a waiting request is undecided, whatever the hypothesis on the ring.\<close>

lemma hold_row_in_rows:
  assumes "DisplayedOps parse m = Some rows" "d \<in> set rows" "hold_row h d" "h \<noteq> []"
  shows "0 < waiting_on m h"
proof -
  obtain ps where ps: "flat_ops m = Some ps" "rows = arrange (group_ops parse ps)"
    using assms(1) by (auto simp: DisplayedOps_def)
  have "set rows = set (group_ops parse ps)" by (metis arrange_mset ps(2) set_mset_mset)
  then have "filter (hold_row h) (group_ops parse ps) \<noteq> []" using assms(2,3) by (auto simp: filter_empty_conv)
  then have "filter (open_on h) ps \<noteq> []" using grouping_ok_rows(1) [OF assms(4), of parse ps] by (auto split: if_splits)
  then show ?thesis using flat_waiting [OF ps(1), of h] by (metis length_greater_0_conv)
qed

lemma sorted_started: "sorted_wrt (\<lambda>a b. \<not> started_before b a) (stable_sort started_before xs)"
  by (rule oldest_first.sorted_stable_sort)

lemma arrange_split:
  "takeWhile row_resolved (arrange rows) = filter row_resolved rows
   \<and> drop (opsPendingSplit (arrange rows)) (arrange rows) = stable_sort started_before (filter (\<lambda>d. \<not> row_resolved d) rows)"
proof -
  let ?p = "stable_sort started_before (filter (\<lambda>d. \<not> row_resolved d) rows)"
  have "\<forall>d \<in> set ?p. \<not> row_resolved d" by simp
  then have "takeWhile row_resolved ?p = []" by (cases ?p) auto
  moreover have "takeWhile row_resolved (filter row_resolved rows @ ?p) = filter row_resolved rows @ takeWhile row_resolved ?p"
    by (rule takeWhile_append2) simp
  ultimately show ?thesis by (simp add: arrange_def opsPendingSplit_def)
qed

lemma rows_members: "DisplayedOps parse m = Some rows \<Longrightarrow> \<exists>ps. flat_ops m = Some ps \<and> set rows = set (group_ops parse ps)"
  by (metis (no_types, lifting) DisplayedOps_def arrange_mset map_option_eq_Some set_mset_mset)

lemma row_key:
  assumes "DisplayedOps parse m = Some rows" "d \<in> set rows" "\<not> row_resolved d"
  shows "dp_GroupKey d = open_key (dp_Op d)"
  using rows_members [OF assms(1)] assms(2,3) keys_ok_fold by (auto simp: keys_ok_def)

lemma one_hold_row:
  assumes "DisplayedOps parse m = Some rows" "h \<noteq> []" "a \<in> set rows" "hold_row h a" "b \<in> set rows" "hold_row h b"
  shows "a = b"
proof -
  obtain ps where ps: "flat_ops m = Some ps" "rows = arrange (group_ops parse ps)"
    using assms(1) by (auto simp: DisplayedOps_def)
  have "length (map dp_Count (filter (hold_row h) rows)) \<le> 1"
    unfolding ps(2) using filter_hold_arrange [OF grouping_ok_rows(1) [OF assms(2), of parse ps]] by (simp only:) simp
  then obtain c where "filter (hold_row h) rows \<in> {[], [c]}" by (cases "filter (hold_row h) rows") auto
  moreover have mem: "a \<in> set (filter (hold_row h) rows)" "b \<in> set (filter (hold_row h) rows)" using assms by simp_all
  ultimately have "set (filter (hold_row h) rows) \<subseteq> {c}" by (elim insertE emptyE) (simp_all del: set_filter)
  with mem show ?thesis by blast
qed

end
