(* ===== verification/TuiSafety.thy ===== *)
theory TuiSafety
  imports TuiReducer TuiRows
begin

text \<open>
  What holds of every state the operator console reaches: the indices it keeps are in range, so no
  event makes the reducer panic as long as the ports of the holds have at most six digits, and what
  the keys that decide a request may do.
\<close>

section \<open>The invariant\<close>

text \<open>The rows are a function of the operations and the holds alone.\<close>

definition shown :: "url_host_path \<Rightarrow> op list \<Rightarrow> snapshot list \<Rightarrow> displayed_op list option" where
  "shown parse ops hs =
     map_option (\<lambda>xs. arrange (group_ops parse (ops @ xs)))
       (those (map hold_op (filter (\<lambda>h. sn_ID h \<notin> set (filter (\<lambda>i. i \<noteq> []) (map op_HoldID ops))) hs)))"

lemma DisplayedOps_shown: "DisplayedOps parse m = shown parse (tm_Ops m) (tm_Holds m)"
  by (simp add: DisplayedOps_def flat_ops_def missing_holds_def shown_def option.map_comp comp_def Let_def)

definition small_port :: "snapshot \<Rightarrow> bool" where
  "small_port h \<longleftrightarrow> sn_Port h < 1000000"

lemma hold_op_defined: "small_port h \<Longrightarrow> hold_op h \<noteq> None"
  by (auto simp: hold_op_def hold_url_def itoaPort_def small_port_def)

lemma those_defined: "(\<And>x. x \<in> set xs \<Longrightarrow> f x \<noteq> None) \<Longrightarrow> those (map f xs) \<noteq> None"
  by (induction xs) (auto split: option.splits)

lemma shown_defined: "list_all small_port hs \<Longrightarrow> shown parse ops hs \<noteq> None"
  using those_defined [of "filter P hs" hold_op for P] hold_op_defined by (force simp: shown_def list_all_iff)

definition sel_ok :: "displayed_op list \<Rightarrow> int \<Rightarrow> bool" where
  "sel_ok rows sel \<longleftrightarrow> (if rows = [] then sel = - 1 else 0 \<le> sel \<and> sel < int (length rows))"

definition rows_ok :: "url_host_path \<Rightarrow> op list \<Rightarrow> snapshot list \<Rightarrow> int \<Rightarrow> bool" where
  "rows_ok parse ops hs sel \<longleftrightarrow> list_all small_port hs \<and> (\<forall>rows. shown parse ops hs = Some rows \<longrightarrow> sel_ok rows sel)"

definition console_ok :: "console_model \<Rightarrow> bool" where
  "console_ok c \<longleftrightarrow> co_Cursor c \<le> length (co_Input c) \<and> length (co_Scrollback c) \<le> maxScrollback"

definition card_ok :: "generalize_card option \<Rightarrow> bool" where
  "card_ok gc \<longleftrightarrow> (case gc of None \<Rightarrow> True | Some c \<Rightarrow> gc_AxisIndex c < length (gc_Candidates c))"

definition list_sel_ok :: "int \<Rightarrow> int \<Rightarrow> bool" where
  "list_sel_ok n sel \<longleftrightarrow> - 1 \<le> sel \<and> (n > 0 \<longrightarrow> sel < n)"

definition ui_ok :: "ui_env \<Rightarrow> model \<Rightarrow> bool" where
  "ui_ok env m \<longleftrightarrow> rows_ok (ue_parse env) (tm_Ops m) (tm_Holds m) (tm_Selected m) \<and> console_ok (tm_Console m)
     \<and> card_ok (tm_GenCard m) \<and> list_sel_ok (int (length (tm_AllowList m) + length (tm_DenyList m))) (tm_URLsSelected m)"

abbreviation good :: "ui_env \<Rightarrow> (model \<times> cmd) option \<Rightarrow> bool" where
  "good env r \<equiv> (\<exists>m c. r = Some (m, c) \<and> ui_ok env m)"

definition event_ok :: "event \<Rightarrow> bool" where
  "event_ok ev = (case ev of TickResult hs err \<Rightarrow> list_all small_port hs | _ \<Rightarrow> True)"

lemma ui_rows:
  assumes "ui_ok env m"
  obtains rows where "DisplayedOps (ue_parse env) m = Some rows" "sel_ok rows (tm_Selected m)"
proof -
  have "list_all small_port (tm_Holds m)" using assms by (simp add: ui_ok_def rows_ok_def)
  from shown_defined [OF this] assms show thesis
    using that by (auto simp: ui_ok_def rows_ok_def DisplayedOps_shown)
qed

section \<open>The cursor over the rows\<close>

lemma clamp_ok [simp]: "sel_ok rows (clampSelection rows sel)"
  by (cases rows) (simp_all add: sel_ok_def clampSelection_def Let_def)

lemma first_row_Some: "first_row P rows = Some i \<Longrightarrow> i < length rows \<and> P (rows ! i)"
  by (auto simp: first_row_def find_Some_iff)

lemma last_row_Some: "last_row P rows = Some i \<Longrightarrow> i < length rows \<and> P (rows ! i)"
proof -
  assume "last_row P rows = Some i"
  then have "i \<in> set (rev [0..<length rows]) \<and> P (rows ! i)"
    unfolding last_row_def find_Some_iff by (metis nth_mem)
  then show ?thesis by simp
qed

lemma last_row_None: "last_row P rows = None \<longleftrightarrow> (\<forall>d \<in> set rows. \<not> P d)"
  unfolding last_row_def find_None_iff by (auto simp: all_set_conv_all_nth)

lemma stickiness_ok: "sel_ok rows (tm_Selected m) \<Longrightarrow> sel_ok rows (tm_Selected (applyCursorPendingStickiness rows m))"
  by (auto simp: applyCursorPendingStickiness_def sel_ok_def split: option.split dest!: last_row_Some)

text \<open>What an operation leaves alone: everything the invariant reads but the cursor.\<close>

definition same_but_cursor :: "model \<Rightarrow> model \<Rightarrow> bool" where
  "same_but_cursor m n \<longleftrightarrow> tm_Ops n = tm_Ops m \<and> tm_Holds n = tm_Holds m \<and> tm_Console n = tm_Console m
     \<and> tm_GenCard n = tm_GenCard m \<and> tm_AllowList n = tm_AllowList m \<and> tm_DenyList n = tm_DenyList m
     \<and> tm_URLsSelected n = tm_URLsSelected m"

lemma stickiness_frame [simp]: "same_but_cursor m (applyCursorPendingStickiness rows m)"
  by (simp add: same_but_cursor_def applyCursorPendingStickiness_def split: option.split)

lemma ui_ok_cursor:
  assumes "ui_ok env m" "same_but_cursor m n" "DisplayedOps (ue_parse env) n = Some rows" "sel_ok rows (tm_Selected n)"
  shows "ui_ok env n"
  using assms by (simp add: ui_ok_def same_but_cursor_def rows_ok_def DisplayedOps_shown)

section \<open>The ticks\<close>

text \<open>A change of the rows: the invariant holds again once the cursor is clamped.\<close>

lemma refresh_rows_ok:
  assumes ok: "ui_ok env m" and holds: "\<And>n. tm_Holds n = tm_Holds m \<Longrightarrow> list_all small_port (tm_Holds (f n))"
    and f: "\<And>n. tm_Console (f n) = tm_Console n \<and> tm_GenCard (f n) = tm_GenCard n \<and> tm_AllowList (f n) = tm_AllowList n
      \<and> tm_DenyList (f n) = tm_DenyList n \<and> tm_URLsSelected (f n) = tm_URLsSelected n"
  obtains m' rows where "refresh_rows env f m = Some (m', rows)" "ui_ok env m'" "DisplayedOps (ue_parse env) m' = Some rows"
proof -
  obtain rows where rows: "DisplayedOps (ue_parse env) m = Some rows" using ui_rows [OF ok] by blast
  define a where "a = selectionAnchors rows (tm_Selected m)"
  define m1 where "m1 = (if snd (snd a) then m\<lparr>tm_CursorPreferPending := True\<rparr> else m)"
  define m2 where "m2 = (f m1)\<lparr>tm_LastErr := []\<rparr>"
  have m1: "tm_Holds m1 = tm_Holds m" "tm_Console m1 = tm_Console m" "tm_GenCard m1 = tm_GenCard m"
    "tm_AllowList m1 = tm_AllowList m" "tm_DenyList m1 = tm_DenyList m" "tm_URLsSelected m1 = tm_URLsSelected m"
    by (simp_all add: m1_def)
  have m2: "tm_Holds m2 = tm_Holds (f m1)" "tm_Console m2 = tm_Console m" "tm_GenCard m2 = tm_GenCard m"
    "tm_AllowList m2 = tm_AllowList m" "tm_DenyList m2 = tm_DenyList m" "tm_URLsSelected m2 = tm_URLsSelected m"
    using f [of m1] by (simp_all add: m2_def m1)
  have small: "list_all small_port (tm_Holds m2)" using holds [OF m1(1)] by (simp add: m2)
  then obtain rows' where rows': "shown (ue_parse env) (tm_Ops m2) (tm_Holds m2) = Some rows'"
    using shown_defined by blast
  define m3 where "m3 = m2\<lparr>tm_Selected := clampSelection rows' (preserveSelection a rows' (tm_Selected m2))\<rparr>"
  define m4 where "m4 = applyCursorPendingStickiness rows' m3"
  have "sel_ok rows' (tm_Selected m3)" by (simp add: m3_def)
  then have sel: "sel_ok rows' (tm_Selected m4)" by (simp add: m4_def stickiness_ok)
  have "same_but_cursor m3 m4" by (simp add: m4_def)
  then have m4: "tm_Ops m4 = tm_Ops m2" "tm_Holds m4 = tm_Holds m2" "tm_Console m4 = tm_Console m" "tm_GenCard m4 = tm_GenCard m"
    "tm_AllowList m4 = tm_AllowList m" "tm_DenyList m4 = tm_DenyList m" "tm_URLsSelected m4 = tm_URLsSelected m"
    by (simp_all add: same_but_cursor_def m3_def m2)
  show thesis
  proof (rule that)
    show "refresh_rows env f m = Some (m4, rows')"
      using rows rows' by (simp add: refresh_rows_def DisplayedOps_shown m4_def m3_def m2_def m1_def a_def Let_def)
    show "DisplayedOps (ue_parse env) m4 = Some rows'" using rows' by (simp add: DisplayedOps_shown m4)
    show "ui_ok env m4" using ok sel small rows' by (simp add: ui_ok_def rows_ok_def m4)
  qed
qed

lemma applyTick_ok:
  assumes ok: "ui_ok env m" and ev: "list_all small_port hs"
  shows "good env (applyTick env m hs err)"
proof -
  obtain m' rows where "refresh_rows env (\<lambda>m. m\<lparr>tm_Holds := hs\<rparr>) m = Some (m', rows)" "ui_ok env m'"
    by (rule refresh_rows_ok [OF ok, of "\<lambda>m. m\<lparr>tm_Holds := hs\<rparr>"]) (simp_all add: ev)
  then show ?thesis using ok by (cases err) (simp_all add: applyTick_def ui_ok_def)
qed

lemma idle_snap_frame [simp]: "same_but_cursor m (idle_snap rows m)"
  by (simp add: same_but_cursor_def idle_snap_def Let_def)

lemma idle_snap_sel: "sel_ok rows (tm_Selected m) \<Longrightarrow> sel_ok rows (tm_Selected (idle_snap rows m))"
  by (simp add: idle_snap_def Let_def sel_ok_def)

lemma age_info_frame: "same_but_cursor m (age_info m) \<and> tm_Selected (age_info m) = tm_Selected m"
  by (simp add: same_but_cursor_def age_info_def Let_def)

lemma applyOpsTick_ok:
  assumes ok: "ui_ok env m"
  shows "good env (applyOpsTick env m ps err)"
proof -
  have small: "list_all small_port (tm_Holds m)" using ok by (simp add: ui_ok_def rows_ok_def)
  obtain m' rows where r: "refresh_rows env (\<lambda>m. m\<lparr>tm_Ops := ps\<rparr>) m = Some (m', rows)" "ui_ok env m'"
    "DisplayedOps (ue_parse env) m' = Some rows"
    by (rule refresh_rows_ok [OF ok, of "\<lambda>m. m\<lparr>tm_Ops := ps\<rparr>"]) (simp_all add: small)
  define n where "n = age_info (m'\<lparr>tm_TickCount := Suc (tm_TickCount m')\<rparr>)"
  have n: "same_but_cursor m' n" "tm_Selected n = tm_Selected m'"
    using age_info_frame [of "m'\<lparr>tm_TickCount := Suc (tm_TickCount m')\<rparr>"] by (simp_all add: n_def same_but_cursor_def)
  have sel: "sel_ok rows (tm_Selected (idle_snap rows n))"
    using r(2,3) n(2) by (intro idle_snap_sel) (auto simp: ui_ok_def rows_ok_def DisplayedOps_shown)
  have same: "same_but_cursor m' (idle_snap rows n)"
    using n(1) idle_snap_frame [of n rows] by (simp add: same_but_cursor_def)
  have "ui_ok env (idle_snap rows n)"
    using r(3) same by (intro ui_ok_cursor [OF r(2) same _ sel]) (simp add: DisplayedOps_shown same_but_cursor_def)
  then show ?thesis using ok r(1) by (cases err) (simp_all add: applyOpsTick_def ui_ok_def Let_def n_def)
qed

section \<open>The keys\<close>

text \<open>The invariant does not read the other fields.\<close>

lemma ui_ok_frame:
  "ui_ok env m \<Longrightarrow> same_but_cursor m n \<Longrightarrow> tm_Selected n = tm_Selected m \<Longrightarrow> ui_ok env n"
  by (simp add: ui_ok_def same_but_cursor_def)

lemma select_digest_frame:
  "same_but_cursor m (select_digest i m) \<and> tm_Selected (select_digest i m) = tm_Selected m"
  "same_but_cursor m (select_newest m) \<and> tm_Selected (select_newest m) = tm_Selected m"
  by (simp_all add: select_digest_def select_newest_def same_but_cursor_def split: option.split)

lemma select_digest_sel [simp]:
  "tm_Ops (select_digest i m) = tm_Ops m" "tm_Holds (select_digest i m) = tm_Holds m"
  "tm_Selected (select_digest i m) = tm_Selected m" "tm_Console (select_digest i m) = tm_Console m"
  "tm_GenCard (select_digest i m) = tm_GenCard m" "tm_AllowList (select_digest i m) = tm_AllowList m"
  "tm_DenyList (select_digest i m) = tm_DenyList m" "tm_URLsSelected (select_digest i m) = tm_URLsSelected m"
  using select_digest_frame(1) [of m i] by (simp_all add: same_but_cursor_def)

lemma select_newest_sel [simp]:
  "tm_Ops (select_newest m) = tm_Ops m" "tm_Holds (select_newest m) = tm_Holds m"
  "tm_Selected (select_newest m) = tm_Selected m" "tm_Console (select_newest m) = tm_Console m"
  "tm_GenCard (select_newest m) = tm_GenCard m" "tm_AllowList (select_newest m) = tm_AllowList m"
  "tm_DenyList (select_newest m) = tm_DenyList m" "tm_URLsSelected (select_newest m) = tm_URLsSelected m"
  using select_digest_frame(2) [of m] by (simp_all add: same_but_cursor_def)

lemma reconcile_ok: "ui_ok env m \<Longrightarrow> ui_ok env (reconcileDigestSelection m)"
  by (simp add: reconcileDigestSelection_def ui_ok_def)

lemma meta_ok: "ui_ok env m \<Longrightarrow> applyMetaPanelDigitKey m e = Some r \<Longrightarrow> ui_ok env (fst r)"
  by (auto simp: applyMetaPanelDigitKey_def ui_ok_def toggle_off_def Let_def split: if_splits)

lemma applyKeyLLM_ok:
  assumes ok: "ui_ok env m"
  shows "ui_ok env (fst (applyKeyLLM m e))"
proof (cases "applyMetaPanelDigitKey m e")
  case None
  then show ?thesis using ok by (simp add: applyKeyLLM_def ui_ok_def split: option.split)
next
  case (Some r)
  then show ?thesis using ok meta_ok [OF ok Some] by (simp add: applyKeyLLM_def ui_ok_def)
qed

lemma console_move_ok:
  "console_ok (c\<lparr>co_Input := xs, co_Cursor := n\<rparr>) \<longleftrightarrow> n \<le> length xs \<and> length (co_Scrollback c) \<le> maxScrollback"
  by (simp add: console_ok_def)

lemma appendScrollback_ok: "co_Cursor c \<le> length (co_Input c) \<Longrightarrow> console_ok (appendScrollback c line)"
  by (simp add: console_ok_def appendScrollback_def maxScrollback_def Let_def)

lemma appendScrollback_fold_ok: "console_ok c \<Longrightarrow> console_ok (foldl appendScrollback c lines)"
proof (induction lines arbitrary: c)
  case (Cons l lines)
  then show ?case using appendScrollback_ok [of c l] by (simp add: console_ok_def)
qed simp

lemma applyKeyConsole_ok:
  assumes ok: "ui_ok env m"
  shows "good env (applyKeyConsole m e)"
proof -
  have c: "co_Cursor (tm_Console m) \<le> length (co_Input (tm_Console m))" "length (co_Scrollback (tm_Console m)) \<le> maxScrollback"
    using ok by (simp_all add: ui_ok_def console_ok_def)
  consider (enter) "ke_Key e = KeyEnter" | (erase) "ke_Key e = KeyBackspace" | (clear) "ke_Key e = KeyCtrlU"
    | (other) "ke_Key e \<notin> {KeyEnter, KeyBackspace, KeyCtrlU}" by blast
  then show ?thesis
  proof cases
    case enter
    then show ?thesis using ok by (simp add: applyKeyConsole_def ui_ok_def appendScrollback_ok Let_def)
  next
    case erase
    then show ?thesis using ok c by (auto simp: applyKeyConsole_def ui_ok_def console_move_ok Let_def)
  next
    case clear
    then show ?thesis using ok c by (simp add: applyKeyConsole_def ui_ok_def console_move_ok Let_def)
  next
    case other
    then show ?thesis using ok c by (auto simp: applyKeyConsole_def ui_ok_def console_move_ok Let_def)
  qed
qed

lemma list_move_ok:
  "list_sel_ok (int (length (tm_AllowList m) + length (tm_DenyList m))) (tm_URLsSelected m) \<Longrightarrow>
     list_sel_ok (int (length (tm_AllowList m) + length (tm_DenyList m))) (tm_URLsSelected (urls_up m))
     \<and> list_sel_ok (int (length (tm_AllowList m) + length (tm_DenyList m))) (tm_URLsSelected (urls_down m))"
  by (auto simp: list_sel_ok_def urls_up_def urls_down_def list_total_def)

lemma urls_move_sel [simp]:
  "tm_Ops (urls_up m) = tm_Ops m" "tm_Holds (urls_up m) = tm_Holds m" "tm_Selected (urls_up m) = tm_Selected m"
  "tm_Console (urls_up m) = tm_Console m" "tm_GenCard (urls_up m) = tm_GenCard m" "tm_AllowList (urls_up m) = tm_AllowList m"
  "tm_DenyList (urls_up m) = tm_DenyList m"
  "tm_Ops (urls_down m) = tm_Ops m" "tm_Holds (urls_down m) = tm_Holds m" "tm_Selected (urls_down m) = tm_Selected m"
  "tm_Console (urls_down m) = tm_Console m" "tm_GenCard (urls_down m) = tm_GenCard m"
  "tm_AllowList (urls_down m) = tm_AllowList m" "tm_DenyList (urls_down m) = tm_DenyList m"
  by (simp_all add: urls_up_def urls_down_def)

lemma urls_move_ok: "ui_ok env m \<Longrightarrow> ui_ok env (urls_up m) \<and> ui_ok env (urls_down m)"
  using list_move_ok [of m] by (simp add: ui_ok_def)

lemma shift_anchor_ok: "ui_ok env m \<Longrightarrow> ui_ok env (shift_anchor m)"
  by (simp add: shift_anchor_def ui_ok_def)

lemma plain_ok: "ui_ok env m \<Longrightarrow> ui_ok env (m\<lparr>tm_URLsAnchor := - 1\<rparr>)"
  by (simp add: ui_ok_def)

lemma edits_ok:
  assumes ok: "ui_ok env m"
  shows "ui_ok env (fst (urlsMoveTo m side))" "ui_ok env (fst (urlsRemoveSelected m))" "ui_ok env (fst (urlsUndo m))"
    "ui_ok env (fst (urlsEnterAddMode m))" "ui_ok env (fst (urlsEnterEditMode m))"
  using ok by (simp_all add: urlsMoveTo_def urlsRemoveSelected_def urlsUndo_def urlsEnterAddMode_def urlsEnterEditMode_def
      prefill_console_def ui_ok_def console_ok_def split: option.split prod.split)

lemma card_some_ok: "cands \<noteq> [] \<Longrightarrow> card_ok (Some \<lparr>gc_Candidates = cands, gc_AxisIndex = 0, gc_SourceDesc = t\<rparr>)"
  by (simp add: card_ok_def)

lemma ui_ok_card: "ui_ok env m \<Longrightarrow> card_ok gc \<Longrightarrow> tm_GenCard n = gc \<Longrightarrow> same_but_cursor (m\<lparr>tm_GenCard := gc\<rparr>) n
    \<Longrightarrow> tm_Selected n = tm_Selected m \<Longrightarrow> ui_ok env n"
  by (simp add: ui_ok_def same_but_cursor_def)

lemma good_pair: "ui_ok env (fst r) \<Longrightarrow> good env (Some r)"
  by (cases r) simp

definition gen_result :: "model \<Rightarrow> candidate list \<Rightarrow> string \<Rightarrow> string \<Rightarrow> (model \<times> cmd) option" where
  "gen_result m cands none what =
     (if cands = [] then Some (m\<lparr>tm_LastErr := none\<rparr>, CmdNone)
      else Some (m\<lparr>tm_GenCard := Some \<lparr>gc_Candidates = cands, gc_AxisIndex = 0, gc_SourceDesc = what\<rparr>, tm_LastErr := []\<rparr>, CmdNone))"

lemma urlsGeneralize_ok:
  assumes ok: "ui_ok env m"
  shows "good env (urlsGeneralize env m)"
proof -
  obtain lo hi where r: "selection_range m = (lo, hi)" by (cases "selection_range m")
  have sel: "list_sel_ok (int (length (tm_AllowList m) + length (tm_DenyList m))) (tm_URLsSelected m)"
    using ok by (simp add: ui_ok_def)
  have "lo < int (length (tm_AllowList m @ tm_DenyList m))" if "\<not> hi > lo" "tm_AllowList m @ tm_DenyList m \<noteq> []"
  proof -
    have "0 < int (length (tm_AllowList m) + length (tm_DenyList m))" using that(2)
      by (cases "tm_AllowList m"; cases "tm_DenyList m") simp_all
    then have "tm_URLsSelected m < int (length (tm_AllowList m) + length (tm_DenyList m))"
      using sel by (simp add: list_sel_ok_def)
    moreover have "lo \<le> tm_URLsSelected m" using r by (auto simp: selection_range_def split: if_splits)
    ultimately show ?thesis by simp
  qed
  then have nopanic: "\<not> (lo \<ge> int (length (tm_AllowList m @ tm_DenyList m)))" if "\<not> hi > lo" "tm_AllowList m @ tm_DenyList m \<noteq> []"
    using that by fastforce
  let ?idx = "[nat lo..<min (Suc (nat hi)) (length (tm_AllowList m @ tm_DenyList m))]"
  let ?many = "DetectAll (ue_etld env) (map (\<lambda>i. (tm_AllowList m @ tm_DenyList m) ! i) (filter (\<lambda>i. i < length (tm_AllowList m)) ?idx))
      (map (\<lambda>i. (tm_AllowList m @ tm_DenyList m) ! i) (filter (\<lambda>i. \<not> i < length (tm_AllowList m)) ?idx))"
  let ?one = "GeneralizeOne (ue_etld env) ((tm_AllowList m @ tm_DenyList m) ! nat lo)
      (if nat lo \<ge> length (tm_AllowList m) then ''deny'' else ''allow'')"
  have cards: "cands \<noteq> [] \<Longrightarrow> ui_ok env (m\<lparr>tm_URLsAnchor := a, tm_GenCard := Some \<lparr>gc_Candidates = cands, gc_AxisIndex = 0, gc_SourceDesc = t\<rparr>,
     tm_LastErr := e\<rparr>)" for cands a t e
    using ok by (simp add: ui_ok_def card_ok_def)
  have plain: "ui_ok env (m\<lparr>tm_URLsAnchor := a, tm_LastErr := e\<rparr>)" "ui_ok env (m\<lparr>tm_LastErr := e\<rparr>)" for a e
    using ok by (simp_all add: ui_ok_def)
  have split: "urlsGeneralize env m =
     (if \<not> tm_URLsLocal m then Some (m\<lparr>tm_LastErr := attach_only\<rparr>, CmdNone)
      else if tm_AllowList m @ tm_DenyList m = [] then Some (m\<lparr>tm_LastErr := ''no URLs to generalize''\<rparr>, CmdNone)
      else if lo < 0 then Some (m\<lparr>tm_URLsAnchor := - 1, tm_LastErr := ''no URL selected to generalize''\<rparr>, CmdNone)
      else if hi > lo then gen_result (m\<lparr>tm_URLsAnchor := - 1\<rparr>) ?many ''no generalization across the selected entries''
        (itoa (hi - lo + 1) @ '' selected entries'')
      else if lo \<ge> int (length (tm_AllowList m @ tm_DenyList m)) then None
      else gen_result (m\<lparr>tm_URLsAnchor := - 1\<rparr>) ?one (''no generalization for '' @ (tm_AllowList m @ tm_DenyList m) ! nat lo)
        (''1 entry: '' @ (tm_AllowList m @ tm_DenyList m) ! nat lo))"
    unfolding urlsGeneralize_def r prod.case Let_def gen_result_def by (rule refl)
  have result: "good env (gen_result (m\<lparr>tm_URLsAnchor := - 1\<rparr>) cands x y)" for cands x y
    using plain(1) cards unfolding gen_result_def by (cases cands) simp_all
  show ?thesis unfolding split using plain result nopanic good_pair by (auto split: if_split)
qed

lemma applyKeyURLs_ok:
  assumes ok: "ui_ok env m"
  shows "good env (applyKeyURLs env m e)"
proof (cases "applyMetaPanelDigitKey m e")
  case None
  note plain = plain_ok [OF ok]
  have ends: "ui_ok env (m\<lparr>tm_URLsAnchor := - 1, tm_URLsSelected := 0\<rparr>)"
    "list_total m > 0 \<Longrightarrow> ui_ok env (m\<lparr>tm_URLsAnchor := - 1, tm_URLsSelected := list_total m - 1\<rparr>)"
    "ui_ok env (m\<lparr>tm_LastErr := x, tm_LastInfo := y\<rparr>)" for x y
    using ok by (simp_all add: ui_ok_def list_sel_ok_def list_total_def)
  show ?thesis
    unfolding applyKeyURLs_def None option.case Let_def
    by (cases "list_total m > 0") (simp_all only: ends plain ok urls_move_ok [OF plain] urls_move_ok [OF shift_anchor_ok [OF ok]] edits_ok [OF ok]
        urlsGeneralize_ok [OF ok] good_pair fst_conv if_True if_False simp_thms split: if_split)
next
  case (Some r)
  then show ?thesis using good_pair [OF meta_ok [OF ok Some]] by (simp add: applyKeyURLs_def)
qed

lemma applyKeyGenCard_ok:
  assumes ok: "ui_ok env m" and gc: "tm_GenCard m = Some gc"
  shows "good env (applyKeyGenCard m gc e)"
proof -
  have bound: "gc_AxisIndex gc < length (gc_Candidates gc)" using ok gc by (simp add: ui_ok_def card_ok_def)
  then have "gc_Candidates gc \<noteq> []" "Suc (gc_AxisIndex gc) mod length (gc_Candidates gc) < length (gc_Candidates gc)"
    by (auto intro: mod_less_divisor)
  then show ?thesis using ok bound by (simp add: applyKeyGenCard_def Current_def ui_ok_def card_ok_def)
qed

lemma decide_row_ok: "ui_ok env m \<Longrightarrow> ui_ok env (fst (decide_row allow rows m))"
  by (simp add: decide_row_def ui_ok_def Let_def split: option.split)

lemma rows_up_frame: "same_but_cursor m (rows_up rows m)"
  by (simp add: same_but_cursor_def rows_up_def Let_def)

lemma rows_up_sel: "tm_Selected (rows_up rows m) = (if tm_Selected m > 0 then tm_Selected m - 1 else tm_Selected m)"
  by (simp add: rows_up_def Let_def)

lemma sel_ok_up: "sel_ok rows sel \<Longrightarrow> sel_ok rows (if sel > 0 then sel - 1 else sel)"
  by (auto simp: sel_ok_def)

lemma applyKeyRows_ok:
  assumes ok: "ui_ok env m" and rows: "DisplayedOps (ue_parse env) m = Some rows"
  shows "ui_ok env (fst (applyKeyRows rows m e))"
proof -
  let ?p = "m\<lparr>tm_OpsPausedTicks := opsPauseTicks\<rparr>"
  have sel: "sel_ok rows (tm_Selected m)" using ok rows by (simp add: ui_ok_def rows_ok_def DisplayedOps_shown)
  have move: "sel_ok rows i \<Longrightarrow> ui_ok env (?p\<lparr>tm_Selected := i\<rparr>)" for i
    using ok rows by (simp add: ui_ok_def rows_ok_def DisplayedOps_shown)
  have p: "ui_ok env ?p" using ok by (simp add: ui_ok_def)
  have up: "ui_ok env (rows_up rows ?p)"
  proof (rule ui_ok_cursor [OF p rows_up_frame])
    show "DisplayedOps (ue_parse env) (rows_up rows ?p) = Some rows"
      using rows rows_up_frame [of ?p rows] by (simp add: DisplayedOps_shown same_but_cursor_def)
    show "sel_ok rows (tm_Selected (rows_up rows ?p))" using sel_ok_up [OF sel] by (simp add: rows_up_sel split: if_splits)
  qed
  have moves: "ui_ok env (if tm_Selected m < int (length rows) - 1 then ?p\<lparr>tm_Selected := tm_Selected m + 1\<rparr> else ?p)"
    "ui_ok env (if rows \<noteq> [] then ?p\<lparr>tm_Selected := 0\<rparr> else ?p)"
    "ui_ok env (if rows \<noteq> [] then ?p\<lparr>tm_Selected := int (length rows) - 1\<rparr> else ?p)"
    using p sel move by (auto simp: sel_ok_def split: if_splits)
  have bell: "ui_ok env (m\<lparr>tm_Alerts := a, tm_LastInfo := t\<rparr>)" for a t using ok by (simp add: ui_ok_def)
  show ?thesis
  proof (cases "applyMetaPanelDigitKey m e")
    case None
    then show ?thesis unfolding applyKeyRows_def Let_def None option.case
      by (simp only: up moves bell ok decide_row_ok [OF ok] fst_conv split: if_split) simp
  next
    case (Some r)
    then show ?thesis unfolding applyKeyRows_def Let_def Some option.case
      by (simp only: up moves ok meta_ok [OF ok Some] fst_conv split: if_split) simp
  qed
qed

lemma applyKeyApprovals_ok:
  assumes ok: "ui_ok env m"
  shows "good env (applyKeyApprovals env m e)"
proof -
  obtain rows where rows: "DisplayedOps (ue_parse env) m = Some rows" using ui_rows [OF ok] by blast
  have "ui_ok env (m\<lparr>tm_Quit := True\<rparr>)" using ok by (simp add: ui_ok_def)
  then show ?thesis using ok good_pair [OF applyKeyRows_ok [OF ok rows, of e]] rows
    by (simp add: applyKeyApprovals_def split: option.split)
qed

lemma applyKey_ok:
  assumes "ui_ok env m"
  shows "good env (applyKey env m e)"
proof -
  let ?m = "m\<lparr>tm_LastInputTicks := 0\<rparr>"
  have ok: "ui_ok env ?m" using assms by (simp add: ui_ok_def)
  have other: "ui_ok env (?m\<lparr>tm_Quit := True\<rparr>)"
    "ui_ok env (?m\<lparr>tm_BottomPanelOpen := False, tm_DigestExpanded := False, tm_Focused := PaneApprovals, tm_URLsPendingReturn := False\<rparr>)"
    "ui_ok env (?m\<lparr>tm_Focused := f, tm_OpsPausedTicks := 0\<rparr>)" for f
    using ok by (simp_all add: ui_ok_def)
  have pane: "good env (case tm_BottomPanel ?m of BottomPanelURLs \<Rightarrow> applyKeyURLs env ?m e
      | BottomPanelLLM \<Rightarrow> Some (applyKeyLLM ?m e) | _ \<Rightarrow> applyKeyConsole ?m e)"
    using applyKeyURLs_ok [OF ok, of e] good_pair [OF applyKeyLLM_ok [OF ok, of e]] applyKeyConsole_ok [OF ok, of e]
    by (cases "tm_BottomPanel ?m") simp_all
  show ?thesis
  proof (cases "tm_GenCard ?m")
    case None
    show ?thesis unfolding applyKey_def Let_def None option.case
      by (simp only: other ok pane applyKeyApprovals_ok [OF ok] good_pair fst_conv split: if_split) simp
  next
    case (Some gc)
    show ?thesis unfolding applyKey_def Let_def Some option.case
      by (simp only: other ok applyKeyGenCard_ok [OF ok Some] good_pair fst_conv split: if_split) simp
  qed
qed

section \<open>The results\<close>

lemma removeHold_small: "list_all small_port hs \<Longrightarrow> list_all small_port (removeHold hs hid)"
  by (simp add: removeHold_def list_all_iff)

lemma applyActionResult_ok:
  assumes ok: "ui_ok env m"
  shows "good env (applyActionResult env m e)"
proof -
  have small: "list_all small_port (tm_Holds m)" using ok by (simp add: ui_ok_def rows_ok_def)
  obtain rows where rows: "DisplayedOps (ue_parse env) m = Some rows" using ui_rows [OF ok] by blast
  obtain rows' where rows': "shown (ue_parse env) (tm_Ops m) (removeHold (tm_Holds m) (ar_ID e)) = Some rows'"
    using shown_defined [OF removeHold_small [OF small]] by blast
  obtain target where t: "(if ar_ID e = [] then Some []
      else map_option (\<lambda>rows. resolveActionTarget rows (ar_ID e)) (DisplayedOps (ue_parse env) m)) = Some target"
    using rows by (cases "ar_ID e = []") simp_all
  have keep: "ui_ok env (m\<lparr>tm_LastInfo := a, tm_LastErr := b\<rparr>)" "ui_ok env (m\<lparr>tm_LastErr := b, tm_LastInfo := a\<rparr>)" for a b
    using ok by (simp_all add: ui_ok_def)
  have acted: "ui_ok env (m\<lparr>tm_Holds := removeHold (tm_Holds m) (ar_ID e), tm_LastInfo := a, tm_LastErr := b,
      tm_Selected := clampSelection rows' s\<rparr>)" for a b s
    using ok rows' removeHold_small [OF small] by (simp add: ui_ok_def rows_ok_def)
  show ?thesis
  proof (cases "ar_Err e")
    case None
    then show ?thesis using acted rows' unfolding applyActionResult_def t by (simp add: DisplayedOps_shown Let_def)
  next
    case (Some x)
    then show ?thesis using keep unfolding applyActionResult_def t by (cases x) (simp add: Let_def)
  qed
qed

lemma applyConsoleExec_ok:
  assumes ok: "ui_ok env m"
  shows "ui_ok env (fst (applyConsoleExec m out quit))"
proof -
  have "console_ok (foldl appendScrollback (tm_Console m) (splitLines out))"
    using ok by (simp add: ui_ok_def appendScrollback_fold_ok)
  then show ?thesis using ok by (simp add: applyConsoleExec_def ui_ok_def Let_def)
qed

lemma applyURLsTick_ok: "ui_ok env m \<Longrightarrow> ui_ok env (applyURLsTick m allow deny loc)"
  by (auto simp: applyURLsTick_def ui_ok_def list_sel_ok_def list_total_def Let_def)

lemma Apply_ok:
  assumes ok: "ui_ok env m" and ev: "event_ok ev"
  shows "good env (Apply env m ev)"
proof (cases ev)
  case (TickResult hs err)
  then show ?thesis using applyTick_ok [OF ok, of hs err] ev by (simp add: Apply_def event_ok_def)
next
  case (OpsTickResult ps err)
  then show ?thesis using applyOpsTick_ok [OF ok] by (simp add: Apply_def)
next
  case (OpenModeResult b u err)
  then show ?thesis using ok by (simp add: Apply_def ui_ok_def)
next
  case (DigestTickResult ds err)
  have "ui_ok env (m\<lparr>tm_Digests := ds\<rparr>)" using ok by (simp add: ui_ok_def)
  then show ?thesis using DigestTickResult ok reconcile_ok by (simp add: Apply_def)
next
  case (URLsTickResult a d l err)
  then show ?thesis using ok applyURLsTick_ok by (simp add: Apply_def)
next
  case (ReloadTickResult st err)
  then show ?thesis using ok by (simp add: Apply_def ui_ok_def)
next
  case (SuggestionTickResult s err dem)
  then show ?thesis using ok by (simp add: Apply_def ui_ok_def applySuggestionTick_def Let_def split: option.split)
next
  case (SuggestionActionResult act err)
  then show ?thesis using ok by (simp add: Apply_def ui_ok_def applySuggestionAction_def split: option.split)
next
  case (KeyEvent e)
  then show ?thesis using applyKey_ok [OF ok] by (simp add: Apply_def)
next
  case (ActionResult e)
  then show ?thesis using applyActionResult_ok [OF ok] by (simp add: Apply_def)
next
  case (ResizeEvent c r)
  then show ?thesis using ok by (simp add: Apply_def ui_ok_def)
next
  case (ConsoleExecResult l out q)
  then show ?thesis using good_pair [OF applyConsoleExec_ok [OF ok]] by (simp add: Apply_def)
qed

section \<open>The loop\<close>

fun runLoop :: "ui_env \<Rightarrow> model \<Rightarrow> event list \<Rightarrow> model option" where
  "runLoop env m [] = Some m"
| "runLoop env m (ev # evs) =
     (case Apply env m ev of
        None \<Rightarrow> None
      | Some (m', c) \<Rightarrow> if tm_Quit m' \<or> c = CmdQuit then Some m' else runLoop env m' evs)"

lemma runLoop_ok: "ui_ok env m \<Longrightarrow> list_all event_ok evs \<Longrightarrow> \<exists>m'. runLoop env m evs = Some m' \<and> ui_ok env m'"
proof (induction evs arbitrary: m)
  case (Cons ev evs)
  then obtain m' c where a: "Apply env m ev = Some (m', c)" "ui_ok env m'" using Apply_ok [of env m ev] by auto
  then show ?case using Cons by simp
qed simp

lemma initial_ok: "ui_ok env (initial_model welcome chime cols rows)"
proof -
  have "console_ok (tm_Console (initial_model welcome chime cols rows))"
  proof -
    let ?c = "\<lparr>co_Scrollback = [], co_Input = [], co_Cursor = 0, co_Prompt = ''trollbridge> ''\<rparr>"
    have "console_ok ?c" by (simp add: console_ok_def)
    then have "console_ok (foldl appendScrollback ?c xs)" "console_ok (appendScrollback ?c x)" for xs x
      by (simp_all add: appendScrollback_fold_ok appendScrollback_ok)
    then show ?thesis unfolding initial_model_def Let_def model.simps by (simp only: split: if_split) simp
  qed
  then show ?thesis
    by (auto simp: ui_ok_def rows_ok_def shown_def group_ops_def arrange_def sel_ok_def card_ok_def list_sel_ok_def)
qed


definition demo_ui :: ui_env where
  "demo_ui = \<lparr>ue_parse = (\<lambda>_. None), ue_etld = (\<lambda>_. None)\<rparr>"

definition demo_key :: "char \<Rightarrow> event" where
  "demo_key c = KeyEvent \<lparr>ke_Rune = of_char c, ke_Key = KeyNone\<rparr>"


section \<open>A hold with a port of seven digits\<close>

text \<open>A CONNECT authority may name such a port: \<open>strconv.Atoi\<close> accepts it. Once the hold is listed
  and the ring of operations does not carry it, the next refresh panics.\<close>

lemma large_port_unprintable: "sn_Port h \<ge> 1000000 \<Longrightarrow> hold_op h = None"
  by (simp add: hold_op_def hold_url_def itoaPort_def)

lemma those_undefined: "x \<in> set xs \<Longrightarrow> f x = None \<Longrightarrow> those (map f xs) = None"
  by (induction xs) (auto split: option.splits)

lemma large_port_panics:
  assumes "tm_OpsPausedTicks m = 0" and h: "h \<in> set hs" "sn_Port h \<ge> 1000000" "sn_ID h \<notin> op_HoldID ` set (tm_Ops m)"
  shows "Apply env m (TickResult hs None) = None"
proof -
  have "shown parse (tm_Ops m) hs = None" for parse
    using those_undefined [of h _ hold_op] large_port_unprintable [OF h(2)] h(1,3) by (auto simp: shown_def)
  then show ?thesis using assms(1)
    by (simp add: Apply_def applyTick_def refresh_rows_def DisplayedOps_shown Let_def split: Option.bind_splits)
qed

section \<open>The cursor and the request under it\<close>

lemma first_row_hit: "d \<in> set rows \<Longrightarrow> P d \<Longrightarrow> \<exists>i. first_row P rows = Some i \<and> i < length rows \<and> P (rows ! i)"
proof -
  assume d: "d \<in> set rows" "P d"
  then have "first_row P rows \<noteq> None" unfolding first_row_def find_None_iff by (auto simp: in_set_conv_nth)
  then show ?thesis using first_row_Some by blast
qed

lemma row_at_nat: "row_at rows (int i) = (if i < length rows then Some (rows ! i) else None)"
  by (simp add: row_at_def)

lemma clamp_row: "i < length rows \<Longrightarrow> clampSelection rows (int i) = int i"
  by (cases rows) (auto simp: clampSelection_def Let_def)

lemma stickiness_pending:
  assumes "d \<in> set rows" "\<not> row_resolved d" "on_pending rows (tm_Selected m) \<or> tm_CursorPreferPending m"
  shows "on_pending rows (tm_Selected (applyCursorPendingStickiness rows m))"
proof (cases "on_pending rows (tm_Selected m)")
  case True
  then show ?thesis using assms(1) by (auto simp: applyCursorPendingStickiness_def)
next
  case False
  then obtain i where "last_row (\<lambda>d. \<not> row_resolved d) rows = Some i" using assms last_row_None [of "\<lambda>d. \<not> row_resolved d" rows] by auto
  with False assms last_row_Some [OF this] show ?thesis
    by (auto simp: applyCursorPendingStickiness_def on_pending_def row_at_nat)
qed

text \<open>What a refresh does to the cursor, in one place.\<close>

lemma refresh_rows_cursor:
  assumes "refresh_rows env f m = Some (m', rows')" "DisplayedOps (ue_parse env) m = Some rows"
    and f: "\<And>n. tm_Selected (f n) = tm_Selected n \<and> tm_CursorPreferPending (f n) = tm_CursorPreferPending n"
  obtains n where "m' = applyCursorPendingStickiness rows' n"
    "tm_Selected n = clampSelection rows' (preserveSelection (selectionAnchors rows (tm_Selected m)) rows' (tm_Selected m))"
    "tm_CursorPreferPending n \<longleftrightarrow> on_pending rows (tm_Selected m) \<or> tm_CursorPreferPending m"
proof -
  let ?a = "selectionAnchors rows (tm_Selected m)"
  define m1 where "m1 = (if snd (snd ?a) then m\<lparr>tm_CursorPreferPending := True\<rparr> else m)"
  define m2 where "m2 = (f m1)\<lparr>tm_LastErr := []\<rparr>"
  have eq: "refresh_rows env f m = Option.bind (DisplayedOps (ue_parse env) m2) (\<lambda>q.
      Some (applyCursorPendingStickiness q (m2\<lparr>tm_Selected := clampSelection q (preserveSelection ?a q (tm_Selected m2))\<rparr>), q))"
    unfolding refresh_rows_def assms(2) Let_def m2_def m1_def by (simp only: Option.bind.simps)
  have r: "DisplayedOps (ue_parse env) m2 = Some rows'"
    "m' = applyCursorPendingStickiness rows' (m2\<lparr>tm_Selected := clampSelection rows' (preserveSelection ?a rows' (tm_Selected m2))\<rparr>)"
    using assms(1) eq by (auto split: Option.bind_splits)
  have "snd (snd ?a) \<longleftrightarrow> on_pending rows (tm_Selected m)" by (simp add: selectionAnchors_def on_pending_def split: option.split)
  then have m2: "tm_Selected m2 = tm_Selected m"
    "tm_CursorPreferPending m2 \<longleftrightarrow> on_pending rows (tm_Selected m) \<or> tm_CursorPreferPending m"
    using f [of m1] by (auto simp: m1_def m2_def)
  show thesis by (rule that [OF r(2)]) (simp_all add: m2)
qed

lemma refresh_rows_shown: "refresh_rows env f m = Some (m', rows) \<Longrightarrow> shown (ue_parse env) (tm_Ops m') (tm_Holds m') = Some rows"
  using stickiness_frame
  by (auto simp: refresh_rows_def Let_def DisplayedOps_shown same_but_cursor_def split: Option.bind_splits)

lemma same_tick:
  "tm_Ops (idle_snap rows (age_info m)) = tm_Ops m" "tm_Holds (idle_snap rows (age_info m)) = tm_Holds m"
  using idle_snap_frame [of "age_info m" rows] age_info_frame [of m] by (simp_all add: same_but_cursor_def)

text \<open>The two ticks that refresh the rows.\<close>

definition refreshes :: "event \<Rightarrow> bool" where
  "refreshes ev = (case ev of TickResult hs None \<Rightarrow> True | OpsTickResult ps None \<Rightarrow> True | _ \<Rightarrow> False)"

lemma refreshes_cases:
  assumes "refreshes ev"
  obtains hs where "ev = TickResult hs None" | ps where "ev = OpsTickResult ps None"
  using assms by (cases ev) (auto simp: refreshes_def split: option.splits)

lemma age_info_cursor: "tm_Selected (age_info m) = tm_Selected m"
  by (simp add: age_info_def Let_def)

lemma idle_snap_cursor:
  "tm_Selected (idle_snap rows m) = tm_Selected m
   \<or> rows \<noteq> [] \<and> is_pending (last rows) \<and> tm_Selected (idle_snap rows m) = int (length rows) - 1
     \<and> \<not> (\<exists>d. row_at rows (tm_Selected m) = Some d \<and> is_pending d)"
  by (auto simp: idle_snap_def Let_def split: option.splits)

lemma pending_undecided: "is_pending d \<Longrightarrow> \<not> row_resolved d"
  by (simp add: is_pending_def opIsResolved_def)

text \<open>A refresh, reduced to its cursor: what the stickiness leaves, unless the idle snap moves it to a
  waiting last row.\<close>

lemma refresh_cursor:
  assumes ev: "refreshes ev" "tm_OpsPausedTicks m = 0" and a: "Apply env m ev = Some (m', c)"
    and rows: "DisplayedOps (ue_parse env) m = Some rows" "DisplayedOps (ue_parse env) m' = Some rows'"
  obtains n where
    "tm_Selected n = clampSelection rows' (preserveSelection (selectionAnchors rows (tm_Selected m)) rows' (tm_Selected m))"
    "tm_CursorPreferPending n \<longleftrightarrow> on_pending rows (tm_Selected m) \<or> tm_CursorPreferPending m"
    "tm_Selected m' = tm_Selected (applyCursorPendingStickiness rows' n)
     \<or> rows' \<noteq> [] \<and> is_pending (last rows') \<and> tm_Selected m' = int (length rows') - 1
       \<and> \<not> (\<exists>d. row_at rows' (tm_Selected (applyCursorPendingStickiness rows' n)) = Some d \<and> is_pending d)"
  using ev(1)
proof (cases rule: refreshes_cases)
  case (1 hs)
  then obtain q where q: "refresh_rows env (\<lambda>m. m\<lparr>tm_Holds := hs\<rparr>) m = Some (m', q)"
    using a ev(2) by (auto simp: Apply_def applyTick_def split: Option.bind_splits)
  obtain n where n: "m' = applyCursorPendingStickiness q n"
    "tm_Selected n = clampSelection q (preserveSelection (selectionAnchors rows (tm_Selected m)) q (tm_Selected m))"
    "tm_CursorPreferPending n \<longleftrightarrow> on_pending rows (tm_Selected m) \<or> tm_CursorPreferPending m"
    by (rule refresh_rows_cursor [OF q rows(1)]) auto
  have "q = rows'" using rows(2) refresh_rows_shown [OF q] by (simp add: DisplayedOps_shown)
  then show thesis using n that [of n] by simp
next
  case (2 ps)
  then obtain p q where q: "refresh_rows env (\<lambda>m. m\<lparr>tm_Ops := ps\<rparr>) m = Some (p, q)"
    "tm_Selected m' = tm_Selected (idle_snap q (age_info (p\<lparr>tm_TickCount := Suc (tm_TickCount p)\<rparr>)))"
    "tm_Ops m' = tm_Ops p" "tm_Holds m' = tm_Holds p"
    using a ev(2) by (auto simp: Apply_def applyOpsTick_def Let_def same_tick split: Option.bind_splits)
  obtain n where n: "p = applyCursorPendingStickiness q n"
    "tm_Selected n = clampSelection q (preserveSelection (selectionAnchors rows (tm_Selected m)) q (tm_Selected m))"
    "tm_CursorPreferPending n \<longleftrightarrow> on_pending rows (tm_Selected m) \<or> tm_CursorPreferPending m"
    by (rule refresh_rows_cursor [OF q(1) rows(1)]) auto
  have "q = rows'" using q(3,4) rows(2) refresh_rows_shown [OF q(1)] by (simp add: DisplayedOps_shown)
  then show thesis using n that [of n] q(2) idle_snap_cursor [of q "age_info (p\<lparr>tm_TickCount := Suc (tm_TickCount p)\<rparr>)"]
    by (simp add: age_info_cursor)
qed

section \<open>One waiting request\<close>

definition waiting_row :: displayed_op where
  "waiting_row = \<lparr>dp_Op = \<lparr>op_RequestID = [], op_Method = ''GET'', op_URL = ''http://a.com/'', op_Status = ''pending'', op_HoldID = ''h1'',
     op_StartedAt = 5, op_UpdatedAt = 5, op_LatencyMS = 0, op_ResponseSizeBytes = 0\<rparr>, dp_Count = 1, dp_GroupKey = NUL_key [''h'', ''h1'']\<rparr>"

lemma waiting_shown: "shown parse [] [waiting_hold] = Some [waiting_row]"
  by (simp add: shown_def hold_op_def hold_url_def waiting_hold_def group_ops_def group_op_def opIsResolved_def arrange_def
      waiting_row_def stable_sort_Cons)

definition on_waiting :: model where
  "on_waiting = one_waiting\<lparr>tm_Selected := 0\<rparr>"

lemma on_waiting_sel [simp]:
  "tm_Ops on_waiting = []" "tm_Holds on_waiting = [waiting_hold]" "tm_Selected on_waiting = 0" "tm_OpsPausedTicks on_waiting = 0"
  "tm_GenCard on_waiting = None" "tm_Focused on_waiting = PaneApprovals" "tm_Suggestion on_waiting = None"
  by (simp_all add: on_waiting_def one_waiting_def)

lemma on_waiting_rows: "DisplayedOps parse on_waiting = Some [waiting_row]"
  by (simp add: DisplayedOps_shown waiting_shown)

lemma on_waiting_tick:
  obtains m' where "Apply demo_ui on_waiting (TickResult [waiting_hold] None) = Some (m', CmdNone)"
    "DisplayedOps (ue_parse demo_ui) m' = Some [waiting_row]"
proof -
  let ?n = "on_waiting\<lparr>tm_CursorPreferPending := True, tm_Holds := [waiting_hold], tm_LastErr := [],
    tm_Selected := clampSelection [waiting_row] (preserveSelection (selectionAnchors [waiting_row] 0) [waiting_row] 0)\<rparr>"
  let ?m = "applyCursorPendingStickiness [waiting_row] ?n"
  have "snd (snd (selectionAnchors [waiting_row] 0))"
    by (simp add: selectionAnchors_def row_at_def waiting_row_def opIsResolved_def)
  then have "Apply demo_ui on_waiting (TickResult [waiting_hold] None) = Some (?m, CmdNone)"
    by (simp add: Apply_def applyTick_def refresh_rows_def DisplayedOps_shown waiting_shown Let_def)
  moreover have "DisplayedOps (ue_parse demo_ui) ?m = Some [waiting_row]"
    using stickiness_frame [of ?n "[waiting_row]"] by (simp add: DisplayedOps_shown same_but_cursor_def waiting_shown)
  ultimately show thesis by (rule that)
qed

text \<open>
  The cursor never slips off the waiting requests by itself. After a refresh of the holds or of
  the operations, if the cursor was on an undecided row, or the operator had not left the undecided
  rows by hand, and an undecided row remains, the cursor is on an undecided row.
\<close>

lemma cursor_stays_on_pending:
  assumes "refreshes ev" "tm_OpsPausedTicks m = 0" "Apply env m ev = Some (m', c)"
    and "DisplayedOps (ue_parse env) m = Some rows" "DisplayedOps (ue_parse env) m' = Some rows'"
    and "on_pending rows (tm_Selected m) \<or> tm_CursorPreferPending m"
    and "\<exists>d \<in> set rows'. \<not> row_resolved d"
  shows "on_pending rows' (tm_Selected m')"
proof -
  obtain n where n: "tm_CursorPreferPending n \<longleftrightarrow> on_pending rows (tm_Selected m) \<or> tm_CursorPreferPending m"
    "tm_Selected m' = tm_Selected (applyCursorPendingStickiness rows' n)
     \<or> rows' \<noteq> [] \<and> is_pending (last rows') \<and> tm_Selected m' = int (length rows') - 1
       \<and> \<not> (\<exists>d. row_at rows' (tm_Selected (applyCursorPendingStickiness rows' n)) = Some d \<and> is_pending d)"
    by (rule refresh_cursor [OF assms(1-5)])
  have stick: "on_pending rows' (tm_Selected (applyCursorPendingStickiness rows' n))"
    using assms(6,7) n(1) stickiness_pending [of _ rows' n] by blast
  from n(2) show ?thesis
  proof (elim disjE)
    assume l: "rows' \<noteq> [] \<and> is_pending (last rows') \<and> tm_Selected m' = int (length rows') - 1
       \<and> \<not> (\<exists>d. row_at rows' (tm_Selected (applyCursorPendingStickiness rows' n)) = Some d \<and> is_pending d)"
    then have sel: "tm_Selected m' = int (length rows' - 1)" and less: "length rows' - 1 < length rows'"
      by (auto simp: Suc_leI of_nat_diff)
    have "row_at rows' (tm_Selected m') = Some (last rows')" unfolding sel row_at_nat using less l by (simp add: last_conv_nth)
    then show ?thesis using l pending_undecided [of "last rows'"] by (simp add: on_pending_def)
  qed (simp add: stick)
qed

lemma cursor_stays_on_pending_example:
  "\<exists>m'. Apply demo_ui on_waiting (TickResult [waiting_hold] None) = Some (m', CmdNone) \<and> on_pending [waiting_row] (tm_Selected m')"
proof -
  obtain m' where m': "Apply demo_ui on_waiting (TickResult [waiting_hold] None) = Some (m', CmdNone)"
    "DisplayedOps (ue_parse demo_ui) m' = Some [waiting_row]" by (rule on_waiting_tick)
  have "on_pending [waiting_row] (tm_Selected m')"
    by (rule cursor_stays_on_pending [OF _ _ m'(1) on_waiting_rows m'(2)])
      (simp_all add: refreshes_def on_pending_def row_at_def waiting_row_def opIsResolved_def)
  with m'(1) show ?thesis by blast
qed

lemma anchor_row:
  assumes d: "hold_row h d" "h \<noteq> []" "d \<in> set rows'" and from_rows: "DisplayedOps parse m' = Some rows'"
    and sel: "row_at rows sel = Some c" "hold_row h c" "DisplayedOps parse m = Some rows"
  shows "\<exists>i. clampSelection rows' (preserveSelection (selectionAnchors rows sel) rows' sel) = int i
    \<and> i < length rows' \<and> hold_row h (rows' ! i)"
proof -
  have c: "c \<in> set rows" using sel(1) by (auto simp: row_at_def split: if_splits)
  have key: "dp_GroupKey c = NUL_key [''h'', h]" using row_key [OF sel(3) c] sel(2) d(2) by (simp add: hold_row_def open_on_def open_key_def)
  have anchors: "selectionAnchors rows sel = (NUL_key [''h'', h], row_request c, True)"
    using sel(1,2) key by (simp add: selectionAnchors_def hold_row_def open_on_def)
  have "dp_GroupKey d = NUL_key [''h'', h]" using row_key [OF from_rows d(3)] d(1,2) by (simp add: hold_row_def open_on_def open_key_def)
  then obtain i where i: "first_row (\<lambda>d. dp_GroupKey d = NUL_key [''h'', h] \<and> (\<not> True \<or> \<not> row_resolved d)) rows' = Some i"
    "i < length rows'" "dp_GroupKey (rows' ! i) = NUL_key [''h'', h]" "\<not> row_resolved (rows' ! i)"
    using first_row_hit [OF d(3), of "\<lambda>d. dp_GroupKey d = NUL_key [''h'', h] \<and> (\<not> True \<or> \<not> row_resolved d)"] d(1)
    by (auto simp: hold_row_def open_on_def)
  have "hold_row h (rows' ! i)" using row_key [OF from_rows nth_mem [OF i(2)] i(4)] i(3,4)
    by (auto simp: hold_row_def open_on_def open_key_def NUL_key_pair split: if_splits)
  moreover have "preserveSelection (selectionAnchors rows sel) rows' sel = int i"
    using i(1) unfolding anchors preserveSelection_def find_anchor_def Let_def by (simp add: NUL_key_nonempty)
  ultimately show ?thesis using clamp_row [OF i(2)] i(2) by auto
qed



end
