(* ===== verification/TuiActions.thy ===== *)
theory TuiActions
  imports TuiSafety
begin

text \<open>
  What the keys of the operator console lead to: which event may decide a waiting request and which
  request that is, and what a typed line executes.
\<close>

section \<open>Deciding a request\<close>

definition decides :: "cmd \<Rightarrow> bool" where
  "decides c = (case c of CmdApprove i meth url \<Rightarrow> True | CmdDeny i meth url \<Rightarrow> True | _ \<Rightarrow> False)"

lemma decides_simps [simp]:
  "decides (CmdApprove i meth url)" "decides (CmdDeny i meth url)" "\<not> decides CmdNone" "\<not> decides CmdRefresh"
  "\<not> decides CmdRingBell" "\<not> decides CmdQuit" "\<not> decides (CmdConsoleExec l)" "\<not> decides (CmdGeneralizeAccept a b xs)"
  "\<not> decides CmdDigestRefresh" "\<not> decides (CmdSuggestionAccept s)" "\<not> decides (CmdSuggestionDecline s)"
  "\<not> decides (CmdSuggestionSkip s)" "\<not> decides CmdSuggestNow" "\<not> decides CmdRepaint" "\<not> decides CmdSuspend"
  "\<not> decides CmdURLsRefresh" "\<not> decides (CmdOpenMode q)"
  by (simp_all add: decides_def)

lemma meta_decides: "applyMetaPanelDigitKey m e = Some r \<Longrightarrow> \<not> decides (snd r)"
  by (auto simp: applyMetaPanelDigitKey_def Let_def split: if_splits)

lemma llm_decides: "\<not> decides (snd (applyKeyLLM m e))"
  using meta_decides [of m e] by (simp add: applyKeyLLM_def split: option.split)

lemma edits_decide:
  "\<not> decides (snd (urlsMoveTo m side))" "\<not> decides (snd (urlsRemoveSelected m))" "\<not> decides (snd (urlsUndo m))"
  "\<not> decides (snd (urlsEnterAddMode m))" "\<not> decides (snd (urlsEnterEditMode m))"
  by (simp_all add: urlsMoveTo_def urlsRemoveSelected_def urlsUndo_def urlsEnterAddMode_def urlsEnterEditMode_def
      split: option.split prod.split)

lemma generalize_decides: "urlsGeneralize env m = Some r \<Longrightarrow> \<not> decides (snd r)"
  by (auto simp: urlsGeneralize_def Let_def split: if_splits prod.splits)

lemma not_decides_pair: "r = (m', c) \<Longrightarrow> \<not> decides (snd r) \<Longrightarrow> \<not> decides c"
  by simp

lemma if_both: "(b \<Longrightarrow> Q x) \<Longrightarrow> (\<not> b \<Longrightarrow> Q y) \<Longrightarrow> Q (if b then x else y)"
  by simp

lemma urls_decides:
  assumes "applyKeyURLs env m e = Some (m', c)"
  shows "\<not> decides c"
proof (cases "applyMetaPanelDigitKey m e")
  case None
  define Q where "Q r \<longleftrightarrow> (\<forall>x. r = Some x \<longrightarrow> \<not> decides (snd x))" for r :: "(model \<times> cmd) option"
  have edits: "Q (Some (urlsMoveTo m side))" "Q (Some (urlsRemoveSelected m))" "Q (Some (urlsUndo m))"
    "Q (Some (urlsEnterAddMode m))" "Q (Some (urlsEnterEditMode m))" "Q (urlsGeneralize env m)"
    "Q (Some (n, CmdNone))" "Q (Some (n, CmdSuggestNow))" for side n
    using edits_decide [of m] generalize_decides [of env m] by (simp_all add: Q_def)
  have "Q (applyKeyURLs env m e)" unfolding applyKeyURLs_def None option.case Let_def
    by (intro if_both [of _ Q] edits)
  then show ?thesis using assms by (simp add: Q_def)
next
  case (Some r)
  then show ?thesis using assms meta_decides [OF Some] by (simp add: applyKeyURLs_def)
qed

lemma gencard_decides: "applyKeyGenCard m gc e = Some (m', c) \<Longrightarrow> \<not> decides c"
  by (auto simp: applyKeyGenCard_def split: if_splits Option.bind_splits)

lemma console_decides: "applyKeyConsole m e = Some (m', c) \<Longrightarrow> \<not> decides c"
  by (auto simp: applyKeyConsole_def Let_def split: if_splits)

text \<open>The command for the selected row.\<close>

definition row_decision :: "bool \<Rightarrow> op \<Rightarrow> cmd" where
  "row_decision allow p = (if allow then CmdApprove (op_HoldID p) (op_Method p) (op_URL p)
     else CmdDeny (op_HoldID p) (op_Method p) (op_URL p))"

lemma decide_row_decides:
  assumes "decide_row allow rows m = (m', c)" "decides c"
  obtains d where "row_at rows (tm_Selected m) = Some d" "is_pending d" "op_HoldID (dp_Op d) \<noteq> []" "c = row_decision allow (dp_Op d)"
  using assms by (auto simp: decide_row_def is_pending_def row_decision_def Let_def split: option.splits if_splits)

lemma rows_decides:
  assumes "applyKeyRows rows m e = (m', c)" "decides c"
  obtains allow where "pressed (CHR ''a'') e = allow" "allow \<or> pressed (CHR ''d'') e" "decide_row allow rows m = (m', c)"
proof -
  define Q where "Q r \<longleftrightarrow> \<not> decides (snd r) \<or> pressed (CHR ''a'') e \<and> r = decide_row True rows m
    \<or> \<not> pressed (CHR ''a'') e \<and> pressed (CHR ''d'') e \<and> r = decide_row False rows m" for r
  have plain: "Q (n, CmdNone)" "Q (n, CmdRefresh)" "Q (n, CmdOpenMode b)" for n b by (simp_all add: Q_def)
  have keys: "pressed (CHR ''a'') e \<Longrightarrow> Q (decide_row True rows m)"
    "\<not> pressed (CHR ''a'') e \<Longrightarrow> pressed (CHR ''d'') e \<Longrightarrow> Q (decide_row False rows m)"
    by (simp_all add: Q_def)
  have "Q (applyKeyRows rows m e)"
  proof (cases "applyMetaPanelDigitKey m e")
    case None
    show ?thesis unfolding applyKeyRows_def None option.case Let_def
      by (intro if_both [of _ Q] plain keys) (assumption | rule plain)+
  next
    case (Some r)
    have "Q r" using meta_decides [OF Some] by (simp add: Q_def)
    then show ?thesis unfolding applyKeyRows_def Some option.case Let_def
      by (intro if_both [of _ Q] plain) assumption
  qed
  then show thesis using assms that [of "pressed (CHR ''a'') e"] by (auto simp: Q_def)
qed

lemma refresh_decides:
  "applyTick env m hs err = Some (m', c) \<Longrightarrow> \<not> decides c"
  "applyOpsTick env m ps err = Some (m', c) \<Longrightarrow> \<not> decides c"
  "applyActionResult env m r = Some (m', c) \<Longrightarrow> \<not> decides c"
  "\<not> decides (snd (applyConsoleExec m out quit))"
  by (auto simp: applyTick_def applyOpsTick_def applyActionResult_def applyConsoleExec_def Let_def
      split: option.splits if_splits Option.bind_splits)

text \<open>
  Only the keys a and d of the approvals pane decide a waiting request, and they decide the one
  under the cursor. Whatever the event, if the reducer asks the runtime to approve or to deny, the
  event was that key, no other view had the keyboard, the selected row is a request still waiting,
  and the identifier, method and URL sent are those of that row.
\<close>

lemma decided_row:
  assumes "Apply env m ev = Some (m', c)" and "decides c"
  shows "\<exists>e rows d allow. ev = KeyEvent e \<and> tm_GenCard m = None \<and> tm_Focused m = PaneApprovals
    \<and> (if allow then pressed (CHR ''a'') e else pressed (CHR ''d'') e)
    \<and> DisplayedOps (ue_parse env) m = Some rows \<and> row_at rows (tm_Selected m) = Some d \<and> is_pending d
    \<and> op_HoldID (dp_Op d) \<noteq> [] \<and> c = row_decision allow (dp_Op d)"
proof -
  let ?m = "\<lambda>m. m\<lparr>tm_LastInputTicks := 0\<rparr>"
  obtain e where e: "ev = KeyEvent e" "applyKey env m e = Some (m', c)"
    using assms refresh_decides by (cases ev) (auto simp: Apply_def dest: not_decides_pair split: if_splits)
  have none: "tm_GenCard m = None" "tm_Focused m = PaneApprovals" "applyKeyApprovals env (?m m) e = Some (m', c)"
    using e(2) assms(2) gencard_decides console_decides urls_decides llm_decides [of "?m m" e]
    by (cases "tm_Focused m";
        auto simp: applyKey_def Let_def split: if_splits option.splits bottom_panel.splits dest: not_decides_pair)+
  then obtain rows where rows: "DisplayedOps (ue_parse env) (?m m) = Some rows" "applyKeyRows rows (?m m) e = (m', c)"
    using assms(2) by (auto simp: applyKeyApprovals_def suggestion_key_def split: if_splits option.splits Option.bind_splits)
  obtain allow where a: "pressed (CHR ''a'') e = allow" "allow \<or> pressed (CHR ''d'') e" "decide_row allow rows (?m m) = (m', c)"
    by (rule rows_decides [OF rows(2) assms(2)])
  obtain d where d: "row_at rows (tm_Selected (?m m)) = Some d" "is_pending d" "op_HoldID (dp_Op d) \<noteq> []" "c = row_decision allow (dp_Op d)"
    by (rule decide_row_decides [OF a(3) assms(2)])
  show ?thesis
    using e(1) none(1,2) a(1,2) d rows(1) by (intro exI [of _ e] exI [of _ rows] exI [of _ d] exI [of _ allow]) (cases allow; simp add: DisplayedOps_shown)
qed

text \<open>One request is waiting under the cursor, whatever panel is open: the key \<open>d\<close> denies it.\<close>

lemma waiting_denied:
  assumes "m = on_waiting\<lparr>tm_BottomPanelOpen := shown_panel, tm_BottomPanel := panel, tm_DigestExpanded := expanded, tm_DigestSelected := dig\<rparr>
    \<or> m = on_waiting"
  shows "\<exists>m'. Apply demo_ui m (demo_key (CHR ''d'')) = Some (m', row_decision False (dp_Op waiting_row))"
proof -
  have m: "tm_Ops m = []" "tm_Holds m = [waiting_hold]" "tm_Selected m = 0" "tm_GenCard m = None"
    "tm_Focused m = PaneApprovals" "tm_Suggestion m = None"
    using assms by auto
  show ?thesis
    by (simp add: Apply_def applyKey_def applyKeyApprovals_def applyKeyRows_def suggestion_key_def demo_key_def pressed_def
        applyMetaPanelDigitKey_def DisplayedOps_shown waiting_shown m Let_def decide_row_def row_at_def waiting_row_def row_decision_def)
qed

lemma decided_row_example:
  "\<exists>m'. Apply demo_ui on_waiting (demo_key (CHR ''d'')) = Some (m', row_decision False (dp_Op waiting_row))
     \<and> is_pending waiting_row"
proof -
  obtain m' where a: "Apply demo_ui on_waiting (demo_key (CHR ''d'')) = Some (m', row_decision False (dp_Op waiting_row))"
    using waiting_denied [OF disjI2 [OF refl]] by auto
  have "decides (row_decision False (dp_Op waiting_row))" by (simp add: row_decision_def)
  from decided_row [OF a this] have "is_pending waiting_row" by (auto simp: on_waiting_rows row_at_def)
  with a show ?thesis by blast
qed

section \<open>The console line\<close>

definition type_key :: "int \<Rightarrow> event" where
  "type_key r = KeyEvent \<lparr>ke_Rune = r, ke_Key = KeyNone\<rparr>"

definition enter_key :: event where
  "enter_key = KeyEvent \<lparr>ke_Rune = 0, ke_Key = KeyEnter\<rparr>"

definition console_focused :: "model \<Rightarrow> bool" where
  "console_focused m \<longleftrightarrow> tm_GenCard m = None \<and> tm_Focused m = PaneConsole \<and> tm_BottomPanel m \<in> {BottomPanelConsole, BottomPanelInfo}"

lemma type_key_step:
  assumes "console_focused m" "r \<noteq> 0" "co_Cursor (tm_Console m) = length (co_Input (tm_Console m))"
  shows "Apply env m (type_key r) = Some (m\<lparr>tm_LastInputTicks := 0, tm_Console := (tm_Console m)\<lparr>co_Input := co_Input (tm_Console m) @ [r],
    co_Cursor := Suc (co_Cursor (tm_Console m))\<rparr>\<rparr>, CmdNone)"
  using assms by (auto simp: console_focused_def Apply_def applyKey_def applyKeyConsole_def type_key_def Let_def)

text \<open>Typing a text at the end of the input.\<close>

lemma typing:
  assumes "console_focused m" "0 \<notin> set rs" "co_Cursor (tm_Console m) = length (co_Input (tm_Console m))" "\<not> tm_Quit m"
  shows "\<exists>m'. runLoop env m (map type_key rs @ evs) = runLoop env m' evs \<and> console_focused m' \<and> \<not> tm_Quit m'
    \<and> co_Input (tm_Console m') = co_Input (tm_Console m) @ rs \<and> co_Cursor (tm_Console m') = length (co_Input (tm_Console m'))"
  using assms
proof (induction rs arbitrary: m)
  case (Cons r rs)
  define n where "n = m\<lparr>tm_LastInputTicks := 0, tm_Console := (tm_Console m)\<lparr>co_Input := co_Input (tm_Console m) @ [r],
    co_Cursor := Suc (co_Cursor (tm_Console m))\<rparr>\<rparr>"
  have step: "Apply env m (type_key r) = Some (n, CmdNone)" using type_key_step [of m r env] Cons.prems by (simp add: n_def)
  have n: "console_focused n" "\<not> tm_Quit n" "co_Input (tm_Console n) = co_Input (tm_Console m) @ [r]"
    "co_Cursor (tm_Console n) = length (co_Input (tm_Console n))"
    using Cons.prems by (simp_all add: n_def console_focused_def)
  from Cons.IH [OF n(1) _ n(4,2)] Cons.prems(2) step n(2,3) show ?case by simp
qed auto

lemma enter_step:
  assumes "console_focused m" "trim_space (of_runes (co_Input (tm_Console m))) \<noteq> []"
  shows "\<exists>m'. Apply env m enter_key = Some (m', CmdConsoleExec (trim_space (of_runes (co_Input (tm_Console m)))))
    \<and> co_Input (tm_Console m') = []"
  using assms by (auto simp: console_focused_def Apply_def applyKey_def applyKeyConsole_def enter_key_def appendScrollback_def Let_def)

text \<open>
  The console executes what was typed. With the keyboard in the console and an empty input,
  typing any text and pressing Enter makes the reducer execute exactly that text, as UTF-8 and
  without the blanks around it, and clears the input; no key of the text is taken for a command of
  another view.
\<close>

lemma typed_line_executes:
  assumes "console_focused m" "\<not> tm_Quit m" "co_Input (tm_Console m) = []" "co_Cursor (tm_Console m) = 0"
    and "0 \<notin> set rs" "trim_space (of_runes rs) \<noteq> []"
  shows "\<exists>m1 m2. runLoop env m (map type_key rs) = Some m1
    \<and> Apply env m1 enter_key = Some (m2, CmdConsoleExec (trim_space (of_runes rs))) \<and> co_Input (tm_Console m2) = []"
proof -
  obtain m1 where m1: "runLoop env m (map type_key rs @ []) = runLoop env m1 []" "console_focused m1" "co_Input (tm_Console m1) = rs"
    using typing [OF assms(1,5) _ assms(2), of env "[]"] assms(3,4) by auto
  from enter_step [OF m1(2), of env] m1(1,3) assms(6) show ?thesis by auto
qed

definition console_open :: model where
  "console_open = (initial_model [] True 80 24)\<lparr>tm_Focused := PaneConsole, tm_BottomPanelOpen := True\<rparr>"

lemma typed_line_executes_example:
  "\<exists>m1 m2. runLoop demo_ui console_open (map type_key [104, 233]) = Some m1
    \<and> Apply demo_ui m1 enter_key = Some (m2, CmdConsoleExec (trim_space (of_runes [104, 233]))) \<and> co_Input (tm_Console m2) = []"
proof (rule typed_line_executes)
  show "console_focused console_open" "\<not> tm_Quit console_open" "co_Input (tm_Console console_open) = []"
    "co_Cursor (tm_Console console_open) = 0"
    by (simp_all add: console_open_def console_focused_def initial_model_def appendScrollback_def Let_def)
  show "0 \<notin> set [104, 233 :: int]" by simp
  show "trim_space (of_runes [104, 233]) \<noteq> []" by code_simp
qed

end
