(* ===== verification/OperatorLine.thy ===== *)
theory OperatorLine
  imports Console TuiActions
begin

text \<open>
  From a key of the operator console to the configuration file: the decision about a request that
  is over travels as a console line, and the console executes it.
\<close>

text \<open>A row whose request is over, or waits for no one.\<close>

definition settled :: "displayed_op \<Rightarrow> bool" where
  "settled d \<longleftrightarrow> op_HoldID (dp_Op d) = [] \<or> op_Status (dp_Op d) \<noteq> ''pending''"

definition row_pattern :: "displayed_op \<Rightarrow> string" where
  "row_pattern d = allowDenyPattern (op_Method (dp_Op d)) (op_URL (dp_Op d))"

lemma settled_row_line:
  assumes "tm_GenCard m = None" "tm_Focused m = PaneApprovals" "DisplayedOps (ue_parse env) m = Some rows"
    and "row_at rows (tm_Selected m) = Some d" "settled d" "op_URL (dp_Op d) \<noteq> []"
  shows "\<exists>m'. Apply env m (demo_key (if allow then CHR ''a'' else CHR ''d''))
    = Some (m', CmdConsoleExec ((if allow then ''allow'' else ''deny'') @ '' '' @ row_pattern d))"
proof -
  have "DisplayedOps (ue_parse env) (m\<lparr>tm_LastInputTicks := 0\<rparr>) = Some rows" using assms(3) by (simp add: DisplayedOps_shown)
  then show ?thesis using assms(1,2,4-6)
    by (cases allow; cases "tm_Suggestion m")
      (auto simp: Apply_def applyKey_def applyKeyApprovals_def applyKeyRows_def suggestion_key_def demo_key_def pressed_def
        applyMetaPanelDigitKey_def decide_row_def settled_def row_pattern_def Let_def)
qed

text \<open>
  A verdict on a request that is over reaches the file. On the row of a request that waits for
  no one, the keys a and d make the console execute a line, and when its two writes succeed the
  entry for the method and the URL of that row is on the list of the verdict and off the other, all
  other entries and sections are as before, and the console asks for the reload whenever the list of
  the verdict changed.
\<close>

lemma retroactive_verdict:
  assumes "tm_GenCard m = None" "tm_Focused m = PaneApprovals" "DisplayedOps (ue_parse uenv) m = Some rows"
    and "row_at rows (tm_Selected m) = Some d" "settled d" "op_URL (dp_Op d) \<noteq> []"
    and "ValidatePattern (row_pattern d) = None" "trim_space (row_pattern d) = row_pattern d"
    and "bk_LocalOnly b" "bk_OnReload b" "bk_ConfigPath b \<noteq> []"
    and "yaml_roundtrip (cv_yaml env)" "load_document (cv_yaml env) (bk_ConfigPath b) fs = Inr (data, doc, rest)" "doc_ok doc"
    and "operator_action env (bk_ConfigPath b) (if allow then ''allow'' else ''deny'') (row_pattern d) fs = (fs', (None, c1), (None, c2))"
  shows "\<exists>m' line. Apply uenv m (demo_key (if allow then CHR ''a'' else CHR ''d'')) = Some (m', CmdConsoleExec line)
    \<and> xr_files (Execute env b line fs) = fs' \<and> xr_reload (Execute env b line fs) = c2
    \<and> (\<exists>data' doc'. load_document (cv_yaml env) (bk_ConfigPath b) fs' = Inr (data', doc', rest)
        \<and> set (list_of (if allow then ''allow'' else ''deny'') doc')
            = insert (row_pattern d) (set (list_of (if allow then ''allow'' else ''deny'') doc))
        \<and> list_of (if allow then ''deny'' else ''allow'') doc'
            = filter (\<lambda>e. e \<noteq> row_pattern d) (list_of (if allow then ''deny'' else ''allow'') doc)
        \<and> (\<forall>key. key \<noteq> ''lists'' \<longrightarrow> get_child key doc' = get_child key doc))"
proof -
  let ?v = "if allow then ''allow'' else ''deny''" and ?o = "if allow then ''deny'' else ''allow''"
  let ?line = "?v @ '' '' @ row_pattern d"
  obtain m' where m': "Apply uenv m (demo_key (if allow then CHR ''a'' else CHR ''d'')) = Some (m', CmdConsoleExec ?line)"
    using settled_row_line [OF assms(1-6), of allow] by blast
  have ne: "row_pattern d \<noteq> []" by (simp add: row_pattern_def allowDenyPattern_def Let_def)
  have e: "Execute env b ?line fs = addPattern env b ?v (row_pattern d) fs"
    by (rule execute_verb [OF assms(8) ne assms(9)]) simp
  have r: "xr_files (Execute env b ?line fs) = fs'" "xr_reload (Execute env b ?line fs) = c2"
    unfolding e addPattern_def Let_def assms(8) using ne assms(7,10,11,15) by (simp_all add: says_def wrote_def)
  have "\<exists>fs1. mutate (cv_yaml env) (cv_ok1 env) (bk_ConfigPath b) ?o (\<lambda>es. remove_entry es (row_pattern d)) fs = (fs1, None, c1)
      \<and> mutate (cv_yaml env) (cv_ok2 env) (bk_ConfigPath b) ?v (\<lambda>es. insertSorted es (row_pattern d)) fs1 = (fs', None, c2)"
    using assms(15) OperatorApprove_steps [of "cv_yaml env" "cv_ok1 env" "cv_ok2 env" "bk_ConfigPath b" "row_pattern d" fs fs' c1 c2]
    by (cases allow) (simp_all add: operator_action_def)
  then obtain fs1 where "mutate (cv_yaml env) (cv_ok1 env) (bk_ConfigPath b) ?o (\<lambda>es. remove_entry es (row_pattern d)) fs = (fs1, None, c1)"
      "mutate (cv_yaml env) (cv_ok2 env) (bk_ConfigPath b) ?v (\<lambda>es. insertSorted es (row_pattern d)) fs1 = (fs', None, c2)"
    by blast
  note c = consolidate [OF assms(12-14) _ _ this]
  have "?o \<noteq> ?v" by (cases allow) simp_all
  with c ne assms(8) m' r show ?thesis by (intro exI [of _ m'] exI [of _ ?line]) auto
qed

definition over_op :: op where
  "over_op = \<lparr>op_RequestID = ''r1'', op_Method = ''GET'', op_URL = ''http://a.com/v'', op_Status = ''denied'', op_HoldID = [],
     op_StartedAt = 5, op_UpdatedAt = 5, op_LatencyMS = 0, op_ResponseSizeBytes = 0\<rparr>"

definition over_row :: displayed_op where
  "over_row = \<lparr>dp_Op = over_op, dp_Count = 1, dp_GroupKey = NUL_key [''g'', ''GET'', ''http://a.com/v'', [], ''denied'']\<rparr>"

definition on_over :: model where
  "on_over = (initial_model [] True 80 24)\<lparr>tm_Ops := [over_op], tm_Selected := 0\<rparr>"

lemma on_over_rows: "DisplayedOps (ue_parse demo_ui) on_over = Some [over_row]"
  by (simp add: DisplayedOps_shown on_over_def shown_def group_ops_def group_op_def over_op_def over_row_def opIsResolved_def
      opGroupHostDir_def demo_ui_def arrange_def)

lemma retroactive_verdict_example:
  "\<exists>m' line fs' data' doc'. Apply demo_ui on_over (demo_key (CHR ''a'')) = Some (m', CmdConsoleExec line)
     \<and> xr_files (Execute (demo_console (demo_yaml (lists_doc [] [''GET http://a.com/v'']) (lists_doc [] [])
         (lists_doc [''GET http://a.com/v''] []))) local_backend line [''f'' \<mapsto> ''0'']) = fs'
     \<and> load_document (demo_yaml (lists_doc [] [''GET http://a.com/v'']) (lists_doc [] [])
         (lists_doc [''GET http://a.com/v''] [])) ''f'' fs' = Inr (data', doc', [])
     \<and> ''GET http://a.com/v'' \<in> set (list_of ''allow'' doc') \<and> list_of ''deny'' doc' = []"
proof -
  let ?pat = "''GET http://a.com/v''"
  let ?y = "demo_yaml (lists_doc [] [?pat]) (lists_doc [] []) (lists_doc [?pat] [])"
  have p: "row_pattern over_row = ?pat" by code_simp
  have row: "settled over_row" "op_URL (dp_Op over_row) \<noteq> []" "row_at [over_row] (tm_Selected on_over) = Some over_row"
    "tm_GenCard on_over = None" "tm_Focused on_over = PaneApprovals"
    by (simp_all add: settled_def over_row_def over_op_def row_at_def on_over_def)
  have b: "bk_LocalOnly local_backend" "bk_OnReload local_backend" "bk_ConfigPath local_backend = ''f''"
    "cv_yaml (demo_console y) = y" for y by (simp_all add: local_backend_def demo_console_def)
  have v: "ValidatePattern ?pat = None" "trim_space ?pat = ?pat" by code_simp+
  have "snd (operator_action (demo_console ?y) ''f'' ''allow'' ?pat [''f'' \<mapsto> ''0'']) = ((None, True), (None, True))"
    unfolding operator_action_def demo_console_def by code_simp
  then obtain fs' where o: "operator_action (demo_console ?y) ''f'' ''allow'' ?pat [''f'' \<mapsto> ''0''] = (fs', (None, True), (None, True))"
    by (metis prod.collapse)
  have "\<exists>m' line. Apply demo_ui on_over (demo_key (if True then CHR ''a'' else CHR ''d'')) = Some (m', CmdConsoleExec line)
    \<and> xr_files (Execute (demo_console ?y) local_backend line [''f'' \<mapsto> ''0'']) = fs'
    \<and> xr_reload (Execute (demo_console ?y) local_backend line [''f'' \<mapsto> ''0'']) = True
    \<and> (\<exists>data' doc'. load_document (cv_yaml (demo_console ?y)) (bk_ConfigPath local_backend) fs' = Inr (data', doc', [])
        \<and> set (list_of (if True then ''allow'' else ''deny'') doc')
            = insert (row_pattern over_row) (set (list_of (if True then ''allow'' else ''deny'') (lists_doc [] [?pat])))
        \<and> list_of (if True then ''deny'' else ''allow'') doc'
            = filter (\<lambda>e. e \<noteq> row_pattern over_row) (list_of (if True then ''deny'' else ''allow'') (lists_doc [] [?pat]))
        \<and> (\<forall>key. key \<noteq> ''lists'' \<longrightarrow> get_child key doc' = get_child key (lists_doc [] [?pat])))"
    using o v demo_load
    by (intro retroactive_verdict [where data = "''0''" and d = over_row and rows = "[over_row]" and ?c1.0 = True])
      (simp_all add: on_over_rows p row b demo_roundtrip lists_doc_ok)
  then show ?thesis by (auto simp: p lists_doc_lists b)
qed

text \<open>The URL is the client's: one with a wildcard at its end makes the entry match the whole host.\<close>

lemma retroactive_pattern_widens:
  "Subsumes (allowDenyPattern ''GET'' ''http://api.example.com/*'') ''GET http://api.example.com/any/path''"
  by code_simp

end
