(* ===== verification/ListWriter.thy ===== *)
theory ListWriter
  imports Console
begin

text \<open>
  The interface through which operators of other hosts edit the lists (\<open>ListWriter\<close> of
  \<open>internal/control/control.go\<close>, \<open>RemoteListWriter\<close> of the console), what follows from its contract,
  and the adapter that provides it (\<open>listWriterAdapter\<close> of \<open>cmd/trollbridge/run.go\<close>).
\<close>

section \<open>The contract\<close>

text \<open>
  \<open>'w\<close> is the state the edits act on and \<open>'o\<close> what decides whether its writes succeed. An edit that
  returns without an error has put the entry on its list or taken it off; whatever it returns, it
  says nothing about another entry and never puts one on the opposite list.
\<close>

definition opposite_list :: "string \<Rightarrow> string" where
  "opposite_list l = (if l = ''allow'' then ''deny'' else ''allow'')"

definition two_lists :: "string set" where
  "two_lists = {''allow'', ''deny''}"

locale list_writer =
  fixes entries :: "'w \<Rightarrow> string \<Rightarrow> string set"
    and usable :: "'w \<Rightarrow> bool"
    and edit :: "'o \<Rightarrow> edit_verb \<Rightarrow> string \<Rightarrow> string \<Rightarrow> 'w \<Rightarrow> 'w \<times> ('e + bool)"
  assumes usable: "usable w \<Longrightarrow> trim_space p \<noteq> [] \<Longrightarrow> l \<in> two_lists \<Longrightarrow> usable (fst (edit oc v l p w))"
    and adds: "usable w \<Longrightarrow> trim_space p \<noteq> [] \<Longrightarrow> l \<in> two_lists \<Longrightarrow> edit oc Add_verb l p w = (w', Inr c)
      \<Longrightarrow> trim_space p \<in> entries w' l"
    and removes: "usable w \<Longrightarrow> trim_space p \<noteq> [] \<Longrightarrow> l \<in> two_lists \<Longrightarrow> edit oc Remove_verb l p w = (w', Inr c)
      \<Longrightarrow> trim_space p \<notin> entries w' l"
    and others: "usable w \<Longrightarrow> trim_space p \<noteq> [] \<Longrightarrow> l \<in> two_lists \<Longrightarrow> k \<in> two_lists \<Longrightarrow> q \<noteq> trim_space p
      \<Longrightarrow> q \<in> entries (fst (edit oc v l p w)) k \<longleftrightarrow> q \<in> entries w k"
begin

text \<open>A series of edits, each with its outcome of the writes.\<close>

fun edits :: "('o \<times> edit_verb \<times> string \<times> string) list \<Rightarrow> 'w \<Rightarrow> 'w" where
  "edits [] w = w"
| "edits ((oc, v, l, p) # es) w = edits es (fst (edit oc v l p w))"

definition sound_edits :: "('o \<times> edit_verb \<times> string \<times> string) list \<Rightarrow> bool" where
  "sound_edits es \<longleftrightarrow> list_all (\<lambda>(oc, v, l, p). trim_space p \<noteq> [] \<and> l \<in> two_lists) es"

lemma edits_usable: "usable w \<Longrightarrow> sound_edits es \<Longrightarrow> usable (edits es w)"
  by (induction es w rule: edits.induct) (simp_all add: sound_edits_def usable)

lemma edits_others:
  "usable w \<Longrightarrow> sound_edits es \<Longrightarrow> k \<in> two_lists \<Longrightarrow> \<forall>(oc, v, l, p) \<in> set es. trim_space p \<noteq> q
   \<Longrightarrow> q \<in> entries (edits es w) k \<longleftrightarrow> q \<in> entries w k"
proof (induction es w rule: edits.induct)
  case (2 oc v l p es w)
  then have "usable (fst (edit oc v l p w))" "sound_edits es" by (simp_all add: sound_edits_def usable)
  with 2 show ?case using others [of w p l k q oc v] by (auto simp: sound_edits_def)
qed simp

text \<open>The last word on an entry is kept, whatever edits of other entries follow.\<close>

lemma last_edit_wins:
  assumes "usable w" "sound_edits (es @ (oc, v, l, p) # es')"
    and "\<forall>(oc, v, l, q) \<in> set es'. trim_space q \<noteq> trim_space p"
    and "edit oc v l p (edits es w) = (w', Inr c)"
  shows "trim_space p \<in> entries (edits es' w') l \<longleftrightarrow> v = Add_verb"
proof -
  have s: "sound_edits es" "sound_edits es'" "trim_space p \<noteq> []" "l \<in> two_lists" using assms(2) by (simp_all add: sound_edits_def)
  have u: "usable (edits es w)" by (rule edits_usable [OF assms(1) s(1)])
  have u': "usable w'" using usable [OF u s(3,4), of oc v] assms(4) by simp
  have "trim_space p \<in> entries w' l \<longleftrightarrow> v = Add_verb"
    using adds [OF u s(3,4), of oc] removes [OF u s(3,4), of oc] assms(4) by (cases v) auto
  then show ?thesis using edits_others [OF u' s(2,4) assms(3)] by simp
qed

end

section \<open>The adapter\<close>

text \<open>Its path and its files; it reloads when the edit of the named list changed the file.\<close>

definition adapter_add ::
    "yaml_env \<Rightarrow> bool \<Rightarrow> bool \<Rightarrow> string \<Rightarrow> string \<Rightarrow> string \<Rightarrow> files \<Rightarrow> files \<times> (write_error + bool)" where
  "adapter_add y ok1 ok2 path l pat fs =
     (case (if l = ''allow'' then OperatorApprove y ok1 ok2 path pat fs else OperatorDeny y ok1 ok2 path pat fs) of
        (fs', _, (Some e, _)) \<Rightarrow> (fs', Inl e)
      | (fs', _, (None, changed)) \<Rightarrow> (fs', Inr changed))"

definition adapter_remove :: "yaml_env \<Rightarrow> bool \<Rightarrow> string \<Rightarrow> string \<Rightarrow> string \<Rightarrow> files \<Rightarrow> files \<times> (write_error + bool)" where
  "adapter_remove y ok path l pat fs =
     (case (if l = ''allow'' then RemoveAllow y ok path pat fs else RemoveDeny y ok path pat fs) of
        (fs', Some e, _) \<Rightarrow> (fs', Inl e)
      | (fs', None, changed) \<Rightarrow> (fs', Inr changed))"

definition adapter_edit ::
    "yaml_env \<Rightarrow> bool \<times> bool \<Rightarrow> string \<Rightarrow> edit_verb \<Rightarrow> string \<Rightarrow> string \<Rightarrow> files \<Rightarrow> files \<times> (write_error + bool)" where
  "adapter_edit y oks path v l pat fs =
     (case v of Add_verb \<Rightarrow> adapter_add y (fst oks) (snd oks) path l pat fs
      | Remove_verb \<Rightarrow> adapter_remove y (fst oks) path l pat fs)"

definition adapter_reloads :: "write_error + bool \<Rightarrow> bool" where
  "adapter_reloads r = (case r of Inl _ \<Rightarrow> False | Inr changed \<Rightarrow> changed)"

text \<open>The state of the contract: the YAML library, the path and the files.\<close>

type_synonym list_store = "yaml_env \<times> string \<times> files"

definition store_entries :: "list_store \<Rightarrow> string \<Rightarrow> string set" where
  "store_entries w l = (case w of (y, path, fs) \<Rightarrow>
     (case load_document y path fs of Inl _ \<Rightarrow> {} | Inr (data, doc, rest) \<Rightarrow> set (list_of l doc)))"

definition store_usable :: "list_store \<Rightarrow> bool" where
  "store_usable w = (case w of (y, path, fs) \<Rightarrow>
     yaml_roundtrip y \<and> (\<exists>data doc rest. load_document y path fs = Inr (data, doc, rest) \<and> doc_ok doc))"

definition store_edit ::
    "bool \<times> bool \<Rightarrow> edit_verb \<Rightarrow> string \<Rightarrow> string \<Rightarrow> list_store \<Rightarrow> list_store \<times> (write_error + bool)" where
  "store_edit oks v l p w = (case w of (y, path, fs) \<Rightarrow>
     (case adapter_edit y oks path v l p fs of (fs', r) \<Rightarrow> ((y, path, fs'), r)))"

text \<open>One edit of a list, whether its write succeeds or not: the entry at most changes there.\<close>

lemma mutate_store:
  assumes u: "store_usable (y, path, fs)" and "l \<in> two_lists"
    and m: "mutate y w path l f fs = (fs', e, ch)"
  shows "store_usable (y, path, fs')"
    "k \<noteq> l \<Longrightarrow> store_entries (y, path, fs') k = store_entries (y, path, fs) k"
    "e = None \<Longrightarrow> \<exists>es. store_entries (y, path, fs) l = set es \<and> store_entries (y, path, fs') l = set (f es)"
    "e \<noteq> None \<Longrightarrow> fs' = fs"
proof -
  obtain data doc rest where ld: "yaml_roundtrip y" "load_document y path fs = Inr (data, doc, rest)" "doc_ok doc"
    using u by (auto simp: store_usable_def)
  have fails: "e \<noteq> None \<Longrightarrow> fs' = fs" using mutate_fails m by (metis not_Some_eq)
  then show "e \<noteq> None \<Longrightarrow> fs' = fs" .
  have ok: "\<exists>data' doc'. load_document y path fs' = Inr (data', doc', rest) \<and> edited l (f (list_of l doc)) doc doc'" if "e = None"
    using mutate_spec [OF ld, of w l f fs' ch] m that by blast
  show "store_usable (y, path, fs')"
    using u fails ok ld(1) by (cases "e = None") (auto simp: store_usable_def edited_def)
  show "k \<noteq> l \<Longrightarrow> store_entries (y, path, fs') k = store_entries (y, path, fs) k"
    using fails ok ld(2) by (cases "e = None") (auto simp: store_entries_def edited_def)
  show "e = None \<Longrightarrow> \<exists>es. store_entries (y, path, fs) l = set es \<and> store_entries (y, path, fs') l = set (f es)"
    using ok ld(2) by (auto simp: store_entries_def edited_def)
qed

lemma set_remove_entry: "set (remove_entry es pat) = set es - {trim_space pat}"
  by (auto simp: remove_entry_def Let_def)

definition only_about :: "string \<Rightarrow> list_store \<Rightarrow> list_store \<Rightarrow> bool" where
  "only_about p w w' \<longleftrightarrow> store_usable w' \<and> (\<forall>k \<in> two_lists. \<forall>q. q \<noteq> trim_space p \<longrightarrow> (q \<in> store_entries w' k \<longleftrightarrow> q \<in> store_entries w k))"

lemma only_about_trans: "only_about p a b \<Longrightarrow> only_about p b c \<Longrightarrow> only_about p a c"
  by (auto simp: only_about_def)

lemma insert_step:
  assumes "store_usable (y, path, fs)" "l \<in> two_lists" "trim_space p \<noteq> []"
    and "mutate y w path l (\<lambda>es. insertSorted es p) fs = (fs', e, ch)"
  shows "only_about p (y, path, fs) (y, path, fs')" "e = None \<Longrightarrow> trim_space p \<in> store_entries (y, path, fs') l"
proof -
  note m = mutate_store [OF assms(1,2,4)]
  show "e = None \<Longrightarrow> trim_space p \<in> store_entries (y, path, fs') l"
    using m(3) set_insertSorted [OF assms(3)] by auto
  have "q \<in> store_entries (y, path, fs') k \<longleftrightarrow> q \<in> store_entries (y, path, fs) k" if "q \<noteq> trim_space p" for k q
    using that m(2) [of k] m(3,4) set_insertSorted [OF assms(3)] by (cases "e = None"; cases "k = l") auto
  then show "only_about p (y, path, fs) (y, path, fs')" using m(1) by (simp add: only_about_def)
qed

lemma remove_step:
  assumes "store_usable (y, path, fs)" "l \<in> two_lists"
    and "mutate y w path l (\<lambda>es. remove_entry es p) fs = (fs', e, ch)"
  shows "only_about p (y, path, fs) (y, path, fs')" "e = None \<Longrightarrow> trim_space p \<notin> store_entries (y, path, fs') l"
proof -
  note m = mutate_store [OF assms(1-3)]
  show "e = None \<Longrightarrow> trim_space p \<notin> store_entries (y, path, fs') l" using m(3) set_remove_entry by auto
  have "q \<in> store_entries (y, path, fs') k \<longleftrightarrow> q \<in> store_entries (y, path, fs) k" if "q \<noteq> trim_space p" for k q
    using that m(2) [of k] m(3,4) set_remove_entry by (cases "e = None"; cases "k = l") auto
  then show "only_about p (y, path, fs) (y, path, fs')" using m(1) by (simp add: only_about_def)
qed

lemma opposite_in [simp]: "opposite_list l \<in> two_lists"
  by (simp add: opposite_list_def two_lists_def)

lemma adapter_add_step:
  assumes "store_usable (y, path, fs)" "l \<in> two_lists" "trim_space p \<noteq> []" "adapter_add y ok1 ok2 path l p fs = (fs', r)"
  shows "only_about p (y, path, fs) (y, path, fs')" "r = Inr c \<Longrightarrow> trim_space p \<in> store_entries (y, path, fs') l"
proof -
  obtain fs1 e1 c1 where 1: "mutate y ok1 path (opposite_list l) (\<lambda>es. remove_entry es p) fs = (fs1, e1, c1)"
    using prod_cases3 by blast
  obtain fs2 e2 c2 where 2: "mutate y ok2 path l (\<lambda>es. insertSorted es p) fs1 = (fs2, e2, c2)"
    using prod_cases3 by blast
  have r: "fs' = fs2" "r = (case e2 of Some e \<Rightarrow> Inl e | None \<Rightarrow> Inr c2)"
    using assms(2,4) 1 2
    by (auto simp: adapter_add_def two_lists_def opposite_list_def OperatorApprove_def OperatorDeny_def RemoveDeny_def
        RemoveAllow_def AddAllow_def AddDeny_def split: option.splits)
  note a = remove_step(1) [OF assms(1) opposite_in 1]
  have "store_usable (y, path, fs1)" using a by (simp add: only_about_def)
  note b = insert_step [OF this assms(2,3) 2]
  show "only_about p (y, path, fs) (y, path, fs')" using only_about_trans [OF a b(1)] r(1) by simp
  show "r = Inr c \<Longrightarrow> trim_space p \<in> store_entries (y, path, fs') l" using b(2) r by (auto split: option.splits)
qed

lemma adapter_remove_step:
  assumes "store_usable (y, path, fs)" "l \<in> two_lists" "adapter_remove y ok path l p fs = (fs', r)"
  shows "only_about p (y, path, fs) (y, path, fs')" "r = Inr c \<Longrightarrow> trim_space p \<notin> store_entries (y, path, fs') l"
proof -
  obtain fs1 e1 c1 where 1: "mutate y ok path l (\<lambda>es. remove_entry es p) fs = (fs1, e1, c1)" using prod_cases3 by blast
  have r: "fs' = fs1" "r = (case e1 of Some e \<Rightarrow> Inl e | None \<Rightarrow> Inr c1)"
    using assms(2,3) 1 by (auto simp: adapter_remove_def two_lists_def RemoveDeny_def RemoveAllow_def split: option.splits)
  note a = remove_step [OF assms(1,2) 1]
  show "only_about p (y, path, fs) (y, path, fs')" using a(1) r(1) by simp
  show "r = Inr c \<Longrightarrow> trim_space p \<notin> store_entries (y, path, fs') l" using a(2) r by (auto split: option.splits)
qed

lemma store_edit_step:
  assumes "store_usable w" "l \<in> two_lists" "trim_space p \<noteq> []" "store_edit oks v l p w = (w', r)"
  shows "only_about p w w'" "r = Inr c \<Longrightarrow> trim_space p \<in> store_entries w' l \<longleftrightarrow> v = Add_verb"
proof -
  obtain y path fs where w: "w = (y, path, fs)" by (metis prod_cases3)
  obtain fs' where e: "adapter_edit y oks path v l p fs = (fs', r)" "w' = (y, path, fs')"
    using assms(4) by (auto simp: store_edit_def w split: prod.splits)
  show "only_about p w w'"
    using adapter_add_step(1) [OF assms(1) [unfolded w] assms(2,3)] adapter_remove_step(1) [OF assms(1) [unfolded w] assms(2)] e
    by (cases v) (auto simp: adapter_edit_def w)
  show "r = Inr c \<Longrightarrow> trim_space p \<in> store_entries w' l \<longleftrightarrow> v = Add_verb"
    using adapter_add_step(2) [OF assms(1) [unfolded w] assms(2,3)] adapter_remove_step(2) [OF assms(1) [unfolded w] assms(2)] e
    by (cases v) (auto simp: adapter_edit_def w)
qed

interpretation remote_lists: list_writer store_entries store_usable store_edit
proof
  fix w p l oc v
  assume a: "store_usable w" "trim_space p \<noteq> []" "l \<in> two_lists"
  obtain w' r where e: "store_edit oc v l p w = (w', r)" by (metis surj_pair)
  show "store_usable (fst (store_edit oc v l p w))" using store_edit_step(1) [OF a(1,3,2) e] e by (simp add: only_about_def)
next
  fix w p l oc w' c
  assume a: "store_usable w" "trim_space p \<noteq> []" "l \<in> two_lists" "store_edit oc Add_verb l p w = (w', Inr c)"
  show "trim_space p \<in> store_entries w' l" using store_edit_step(2) [OF a(1,3,2,4) refl] by simp
next
  fix w p l oc w' c
  assume a: "store_usable w" "trim_space p \<noteq> []" "l \<in> two_lists" "store_edit oc Remove_verb l p w = (w', Inr c)"
  show "trim_space p \<notin> store_entries w' l" using store_edit_step(2) [OF a(1,3,2,4) refl] by simp
next
  fix w p l k q oc v
  assume a: "store_usable w" "trim_space p \<noteq> []" "l \<in> two_lists" "k \<in> two_lists" "q \<noteq> trim_space p"
  obtain w' r where e: "store_edit oc v l p w = (w', r)" by (metis surj_pair)
  show "q \<in> store_entries (fst (store_edit oc v l p w)) k \<longleftrightarrow> q \<in> store_entries w k"
    using store_edit_step(1) [OF a(1,3,2) e] a(4,5) e by (simp add: only_about_def)
qed

text \<open>
  The last word of a remote operator stands. After any series of remote edits of the lists, in
  which writes may fail at any step, an entry whose last edit was reported as done is on its list if
  that edit added it and off it if that edit removed it.
\<close>

lemma last_remote_edit_wins:
  assumes "store_usable w" and "remote_lists.sound_edits (es @ (oc, v, l, p) # es')"
    and "\<forall>(oc, v, l, q) \<in> set es'. trim_space q \<noteq> trim_space p"
    and "store_edit oc v l p (remote_lists.edits es w) = (w', Inr c)"
  shows "trim_space p \<in> store_entries (remote_lists.edits es' w') l \<longleftrightarrow> v = Add_verb"
  by (rule remote_lists.last_edit_wins [OF assms])

lemma last_remote_edit_wins_example:
  "\<exists>w'. store_edit (True, True) Add_verb ''allow'' ''a.com'' (demo_yaml (lists_doc [] [''a.com'']) (lists_doc [] [])
      (lists_doc [''a.com''] []), ''f'', [''f'' \<mapsto> ''0'']) = (w', Inr True) \<and> ''a.com'' \<in> store_entries w' ''allow''"
proof -
  let ?y = "demo_yaml (lists_doc [] [''a.com'']) (lists_doc [] []) (lists_doc [''a.com''] [])"
  let ?w = "(?y, ''f'', [''f'' \<mapsto> ''0''])"
  have t: "trim_space ''a.com'' = ''a.com''" by code_simp
  have u: "store_usable ?w" using demo_roundtrip demo_load lists_doc_ok by (auto simp: store_usable_def)
  have "snd (store_edit (True, True) Add_verb ''allow'' ''a.com'' ?w) = Inr True" by code_simp
  then obtain w' where e: "store_edit (True, True) Add_verb ''allow'' ''a.com'' ?w = (w', Inr True)" by (metis prod.collapse)
  have s: "remote_lists.sound_edits ([] @ ((True, True), Add_verb, ''allow'', ''a.com'') # [])"
    by (simp add: remote_lists.sound_edits_def two_lists_def t)
  have "''a.com'' \<in> store_entries w' ''allow''"
    using last_remote_edit_wins [of ?w "[]" "(True, True)" Add_verb "''allow''" "''a.com''" "[]" w' True] u s e by (simp add: t)
  with e show ?thesis by blast
qed

text \<open>
  Two gaps of the adapter. When the removal from the opposite list fails but the addition succeeds,
  the edit is reported as done although the entry stays on both lists, so an allow has no effect; and
  when only the opposite list changes, the edit is reported as no change and nothing is reloaded.
\<close>

lemma failed_removal_reported_done:
  fixes y defines "y \<equiv> demo_yaml (lists_doc [] [''a.com'']) (lists_doc [''a.com''] [''a.com'']) (lists_doc [] [])"
  shows "snd (adapter_add y False True ''f'' ''allow'' ''a.com'' [''f'' \<mapsto> ''0'']) = Inr True
    \<and> fst (adapter_add y False True ''f'' ''allow'' ''a.com'' [''f'' \<mapsto> ''0'']) ''f'' = Some ''1''
    \<and> list_of ''deny'' (lists_doc [''a.com''] [''a.com'']) = [''a.com'']"
  unfolding y_def by code_simp

lemma consolidation_reported_unchanged:
  fixes y defines "y \<equiv> demo_yaml (lists_doc [''a.com''] [''a.com'']) (lists_doc [''a.com''] []) (lists_doc [] [])"
  shows "snd (adapter_add y True True ''f'' ''allow'' ''a.com'' [''f'' \<mapsto> ''0'']) = Inr False
    \<and> fst (adapter_add y True True ''f'' ''allow'' ''a.com'' [''f'' \<mapsto> ''0'']) ''f'' = Some ''1''"
  unfolding y_def by code_simp

end
