(* ===== verification/Control.thy ===== *)
theory Control
  imports ListWriter Approvals OpStream Sessions OpenMode ReloadStatus Suggestion Policy Advisor
begin

text \<open>
  The control plane (\<open>internal/control/control.go\<close>): every request of a remote operator, from the
  router and the certificate check to the reply, over the state of the daemon it reads or changes.
  JSON and the TLS stack are parameters: a request carries whether its client certificate was
  verified and its body as the decoders read it. A handler runs without interruption.
\<close>

section \<open>Requests, replies, state\<close>

record ctl_request =
  cq_method :: string
  cq_path :: string
  cq_verified :: bool
  cq_body :: string

datatype ctl_body =
    PlainText string
  | ErrorJSON string
  | StatusJSON "(string \<times> string) list"
  | HoldsJSON "snapshot list"
  | OpsJSON "op list"
  | ListsJSON "string list" "string list"
  | ChangedJSON bool
  | DigestsJSON "digest list"
  | StatsJSON "stats_snapshot option"
  | SessionsJSON "session list"
  | RulesJSON string "rule list" "(int \<times> string) option" string
  | OpenJSON bool int
  | SuggestionJSON suggestion_row
  | NoBody

record ctl_reply =
  cp_status :: int
  cp_body :: ctl_body

definition reply :: "int \<Rightarrow> ctl_body \<Rightarrow> ctl_reply" where
  "reply st b = \<lparr>cp_status = st, cp_body = b\<rparr>"

record control_world =
  cw_queue :: queue
  cw_files :: files
  cw_manager :: manager
  cw_window :: open_mode
  cw_engine :: engine
  cw_sessions :: tracker
  cw_ring :: ring
  cw_lists :: "string list \<times> string list"
  cw_digests :: digest_ring
  cw_stats :: stats
  cw_reload :: reload_tracker
  cw_flushes :: nat
  cw_listReloads :: nat

text \<open>Which providers are wired, and the parameters of the ones that are modelled.\<close>

record control_env =
  ce_ops :: bool
  ce_lists :: bool
  ce_listWriter :: bool
  ce_digests :: bool
  ce_stats :: bool
  ce_reloadStatus :: bool
  ce_ca :: "string option"
  ce_suggestion :: bool
  ce_openMode :: bool
  ce_yaml :: yaml_env
  ce_writes :: "bool \<times> bool"
  ce_listPath :: string
  ce_sha8 :: "string \<Rightarrow> string"
  ce_loader :: loader
  ce_now :: int
  ce_declinedAt :: string
  ce_scan :: "manager \<Rightarrow> manager"
  ce_holdBody :: "string \<Rightarrow> string \<times> string"
  ce_patternBody :: "string \<Rightarrow> string + string"
  ce_idBody :: "string \<Rightarrow> string + string"
  ce_writeError :: "write_error \<Rightarrow> string"
  ce_loadError :: "load_error \<Rightarrow> string"
  ce_answerError :: "answer_error \<Rightarrow> string"

type_synonym handler = "control_env \<Rightarrow> ctl_request \<Rightarrow> control_world \<Rightarrow> control_world \<times> ctl_reply"

definition not_allowed :: ctl_reply where
  "not_allowed = reply 405 (PlainText ''method not allowed'')"

section \<open>Holds, operations, lists\<close>

definition listHolds :: handler where
  "listHolds env r w = (w, reply 200 (HoldsJSON (Pending (cw_queue w))))"

definition listOps :: handler where
  "listOps env r w = (w, reply 200 (OpsJSON (if ce_ops env then RingSnapshot (cw_ring w) else [])))"

definition hold_verdict :: "(queue \<times> bool) \<Rightarrow> (string \<times> string) list \<Rightarrow> control_world \<Rightarrow> control_world \<times> ctl_reply" where
  "hold_verdict v kvs w =
     (case v of (q, ok) \<Rightarrow>
        (w\<lparr>cw_queue := q\<rparr>, if ok then reply 200 (StatusJSON kvs) else reply 404 (PlainText ''hold not found'')))"

definition holdAction :: handler where
  "holdAction env r w =
     (if cq_method r \<noteq> ''POST'' then (w, not_allowed)
      else case split2 (CHR ''/'') (trim_prefix (cq_path r) ''/v1/holds/'') of
        (_, None) \<Rightarrow> (w, reply 400 (PlainText ''bad path; expected /v1/holds/<id>/approve|deny''))
      | (hid, Some action) \<Rightarrow>
          (case ce_holdBody env (cq_body r) of (scope, reason) \<Rightarrow>
             if action = ''approve'' then
               hold_verdict (Approve hid scope ''attach'' (cw_queue w))
                 [(''status'', ''approved''), (''id'', hid), (''scope'', scope)] w
             else if action = ''deny'' then
               hold_verdict (Deny hid reason ''attach'' (cw_queue w)) [(''status'', ''denied''), (''id'', hid)] w
             else (w, reply 400 (PlainText ''unknown action; expected approve|deny''))))"

definition listLists :: handler where
  "listLists env r w =
     (w, reply 200 (if ce_lists env then ListsJSON (fst (cw_lists w)) (snd (cw_lists w)) else ListsJSON [] []))"

definition edit_verb_of :: "string \<Rightarrow> edit_verb" where
  "edit_verb_of meth = (if meth = ''POST'' then Add_verb else Remove_verb)"

definition listEdit :: "string \<Rightarrow> handler" where
  "listEdit l env r w =
     (if \<not> ce_listWriter env then
        (w, reply 503 (ErrorJSON ''list mutation not available - daemon was not started with the list-edit writer''))
      else if cq_method r \<noteq> ''POST'' \<and> cq_method r \<noteq> ''DELETE'' then
        (w, reply 405 (ErrorJSON ''use POST to add, DELETE to remove''))
      else case ce_patternBody env (cq_body r) of
        Inl e \<Rightarrow> (w, reply 400 (ErrorJSON (''invalid JSON body: '' @ e)))
      | Inr raw \<Rightarrow>
          let pat = trim_space raw in
          if pat = [] then (w, reply 400 (ErrorJSON ''pattern is required''))
          else (case adapter_edit (ce_yaml env) (ce_writes env) (ce_listPath env) (edit_verb_of (cq_method r)) l pat (cw_files w) of
              (fs', res) \<Rightarrow>
                (w\<lparr>cw_files := fs',
                   cw_listReloads := (if adapter_reloads res then Suc (cw_listReloads w) else cw_listReloads w)\<rparr>,
                 case res of
                   Inl e \<Rightarrow> reply 500 (ErrorJSON (ce_writeError env e))
                 | Inr changed \<Rightarrow> reply 200 (ChangedJSON changed))))"

definition listLLMDigests :: handler where
  "listLLMDigests env r w = (w, reply 200 (DigestsJSON (if ce_digests env then DigestSnapshot (cw_digests w) else [])))"

definition advisorMetrics :: handler where
  "advisorMetrics env r w = (w, reply 200 (StatsJSON (if ce_stats env then Some (StatsSnapshot (cw_stats w)) else None)))"

definition listSessions :: handler where
  "listSessions env r w = (w, reply 200 (SessionsJSON (SessionSnapshot (cw_sessions w))))"

section \<open>Rules\<close>

definition rulesInfo :: handler where
  "rulesInfo env r w =
     (let st = (if ce_reloadStatus env then GetStatus (cw_reload w) else zero_status) in
      (w, reply 200 (RulesJSON (en_version (cw_engine w)) (en_rules (cw_engine w))
            (if rs_LastAt st \<noteq> 0 then Some (rs_LastAt st, rs_LastSource st) else None) (rs_LastError st))))"

definition rulesReload :: handler where
  "rulesReload env r w =
     (if cq_method r \<noteq> ''POST'' then (w, not_allowed)
      else case Reload (ce_loader env) (cw_engine w) of
        (e, Some err) \<Rightarrow> (w\<lparr>cw_engine := e\<rparr>, reply 400 (PlainText (ce_loadError env err)))
      | (e, None) \<Rightarrow>
          (w\<lparr>cw_engine := e\<rparr>, reply 200 (StatusJSON [(''status'', ''reloaded''), (''rule_set_version'', en_version e)])))"

section \<open>Open mode and suggestions\<close>

definition openModeHandler :: handler where
  "openModeHandler env r w =
     (if \<not> ce_openMode env then (w, reply 404 (PlainText ''open mode not configured''))
      else if cq_method r \<notin> {''GET'', ''POST'', ''DELETE''} then (w, not_allowed)
      else
        let om = (if cq_method r = ''POST'' then OpenMode.extend (ce_now env) (cw_window w)
                  else if cq_method r = ''DELETE'' then close_window (cw_window w) else cw_window w);
            (active, until) = window_state (ce_now env) om
        in (w\<lparr>cw_window := om\<rparr>, reply 200 (OpenJSON active until)))"

definition active_reply :: "manager \<Rightarrow> ctl_reply" where
  "active_reply m = (case Active m of None \<Rightarrow> reply 204 NoBody | Some row \<Rightarrow> reply 200 (SuggestionJSON row))"

definition suggestionGet :: handler where
  "suggestionGet env r w =
     (if cq_method r \<noteq> ''GET'' then (w, not_allowed)
      else if \<not> ce_suggestion env then (w, reply 404 (PlainText ''suggestion mode not configured''))
      else (w, active_reply (cw_manager w)))"

definition readSuggestionID :: "control_env \<Rightarrow> ctl_request \<Rightarrow> ctl_reply + string" where
  "readSuggestionID env r =
     (if cq_method r \<noteq> ''POST'' then Inl not_allowed
      else case ce_idBody env (cq_body r) of
        Inl e \<Rightarrow> Inl (reply 400 (PlainText (''bad json: '' @ e)))
      | Inr sid \<Rightarrow> if sid = [] then Inl (reply 400 (PlainText ''suggestion_id is required'')) else Inr sid)"

definition mapSuggestionErr :: "control_env \<Rightarrow> answer_error \<Rightarrow> ctl_reply" where
  "mapSuggestionErr env e =
     (case e of
        ErrNoActive \<Rightarrow> reply 410 (PlainText ''no active suggestion'')
      | ErrIDMismatch \<Rightarrow> reply 409 (PlainText ''suggestion id mismatch'')
      | _ \<Rightarrow> reply 500 (PlainText (ce_answerError env e)))"

text \<open>The shape the three answers to a suggestion share.\<close>

definition suggestion_answer ::
    "(string \<Rightarrow> control_world \<Rightarrow> control_world \<times> answer_error option) \<Rightarrow> string \<Rightarrow> handler" where
  "suggestion_answer f status env r w =
     (case readSuggestionID env r of
        Inl rep \<Rightarrow> (w, rep)
      | Inr sid \<Rightarrow>
          if \<not> ce_suggestion env then (w, reply 404 (PlainText ''suggestion mode not configured''))
          else (case f sid w of
              (w', Some e) \<Rightarrow> (w', mapSuggestionErr env e)
            | (w', None) \<Rightarrow> (w', reply 200 (StatusJSON [(''status'', status), (''suggestion_id'', sid)]))))"

definition answer_error_of :: "answer_error + bool \<Rightarrow> answer_error option" where
  "answer_error_of r = (case r of Inl e \<Rightarrow> Some e | Inr _ \<Rightarrow> None)"

definition suggestionAccept :: handler where
  "suggestionAccept env = suggestion_answer (\<lambda>sid w.
     case Suggestion.Accept (ce_yaml env) (fst (ce_writes env)) (snd (ce_writes env)) (ce_sha8 env) sid (cw_manager w) (cw_files w) of
       (m, fs, res) \<Rightarrow> (w\<lparr>cw_manager := m, cw_files := fs\<rparr>, answer_error_of res)) ''accepted'' env"

definition suggestionDecline :: handler where
  "suggestionDecline env = suggestion_answer (\<lambda>sid w.
     case Suggestion.Decline (ce_yaml env) (fst (ce_writes env)) (ce_now env) (ce_declinedAt env) sid (cw_manager w) (cw_files w) of
       (m, fs, res) \<Rightarrow> (w\<lparr>cw_manager := m, cw_files := fs\<rparr>, answer_error_of res)) ''declined'' env"

definition suggestionSkip :: handler where
  "suggestionSkip env = suggestion_answer (\<lambda>sid w.
     case Suggestion.Skip sid (cw_manager w) of (m, e) \<Rightarrow> (w\<lparr>cw_manager := m\<rparr>, e)) ''skipped'' env"

definition suggestionScan :: handler where
  "suggestionScan env r w =
     (if cq_method r \<noteq> ''POST'' then (w, not_allowed)
      else if \<not> ce_suggestion env then (w, reply 404 (PlainText ''suggestion mode not configured''))
      else let m = ce_scan env (cw_manager w) in (w\<lparr>cw_manager := m\<rparr>, active_reply m))"

definition flushCache :: handler where
  "flushCache env r w =
     (if cq_method r \<noteq> ''POST'' then (w, not_allowed)
      else case ce_ca env of
        None \<Rightarrow> (w, reply 400 (PlainText ''interception is not enabled; nothing to flush''))
      | Some fp \<Rightarrow> (w\<lparr>cw_flushes := Suc (cw_flushes w)\<rparr>, reply 200 (StatusJSON [(''status'', ''flushed''), (''ca_fingerprint'', fp)])))"

section \<open>The router\<close>

definition authd :: "handler \<Rightarrow> handler" where
  "authd h env r w =
     (if \<not> cq_verified r then (w, reply 401 (PlainText ''client certificate required'')) else h env r w)"

definition healthz :: handler where
  "healthz env r w = (w, reply 200 (PlainText ''ok''))"

definition exact_routes :: "(string \<times> handler) list" where
  "exact_routes =
     [(''/v1/holds'', authd listHolds), (''/v1/ops'', authd listOps), (''/v1/lists'', authd listLists),
      (''/v1/lists/allow'', authd (listEdit ''allow'')), (''/v1/lists/deny'', authd (listEdit ''deny'')),
      (''/v1/llm-digests'', authd listLLMDigests), (''/v1/advisor/metrics'', authd advisorMetrics),
      (''/v1/sessions'', authd listSessions), (''/v1/rules'', authd rulesInfo), (''/v1/rules/reload'', authd rulesReload),
      (''/v1/suggestion'', authd suggestionGet), (''/v1/suggestion/accept'', authd suggestionAccept),
      (''/v1/suggestion/decline'', authd suggestionDecline), (''/v1/suggestion/skip'', authd suggestionSkip),
      (''/v1/suggestion/scan'', authd suggestionScan), (''/v1/open'', authd openModeHandler),
      (''/v1/healthz'', healthz), (''/v1/ca/flush-cache'', authd flushCache)]"

text \<open>\<open>http.ServeMux\<close>: a path that is not clean is redirected to its clean form.\<close>

definition cleanPath :: "string \<Rightarrow> string" where
  "cleanPath p =
     (let p = (if p = [] then ''/'' else if hd p = CHR ''/'' then p else CHR ''/'' # p); np = path_clean p in
      if last p = CHR ''/'' \<and> np \<noteq> ''/'' then np @ ''/'' else np)"

definition serve :: handler where
  "serve env r w =
     (if cq_method r \<noteq> ''CONNECT'' \<and> cleanPath (cq_path r) \<noteq> cq_path r then (w, reply 301 NoBody)
      else case map_of exact_routes (cq_path r) of
        Some h \<Rightarrow> h env r w
      | None \<Rightarrow>
          if has_prefix (cq_path r) ''/v1/holds/'' then authd holdAction env r w
          else (w, reply 404 (PlainText ''404 page not found'')))"

end
