(* ===== verification/AttachMode.thy ===== *)
theory AttachMode
  imports ControlSafety
begin

text \<open>
  The console of \<open>trollbridge attach\<close>: its list commands travel through the control client
  (\<open>internal/controlclient\<close>, \<open>cmd/trollbridge/attach.go\<close>) and the control plane to the adapter at the
  proxy host. The text of a failed reply is a parameter, as is the JSON of a request.
\<close>

section \<open>The control client\<close>

record client_env =
  cl_server :: control_env
  cl_marshal :: "string \<Rightarrow> string"
  cl_status :: "ctl_reply \<Rightarrow> string"

definition list_request :: "client_env \<Rightarrow> edit_verb \<Rightarrow> string \<Rightarrow> string \<Rightarrow> ctl_request" where
  "list_request c v l pat =
     \<lparr>cq_method = (case v of Add_verb \<Rightarrow> ''POST'' | Remove_verb \<Rightarrow> ''DELETE''), cq_path = ''/v1/lists/'' @ l,
      cq_verified = True, cq_body = cl_marshal c pat\<rparr>"

definition ListEdit ::
    "client_env \<Rightarrow> edit_verb \<Rightarrow> string \<Rightarrow> string \<Rightarrow> control_world \<Rightarrow> control_world \<times> (string + bool)" where
  "ListEdit c v l pat w =
     (case serve (cl_server c) (list_request c v l pat) w of (w', rep) \<Rightarrow>
        (w', if cp_status rep \<ge> 400 then Inl (''control API: '' @ cl_status c rep)
             else case cp_body rep of ChangedJSON changed \<Rightarrow> Inr changed | _ \<Rightarrow> Inl ''control API: decode response''))"

text \<open>\<open>remoteListWriterClient\<close>, over the files of the proxy host.\<close>

definition remoteListWriterClient :: "client_env \<Rightarrow> control_world \<Rightarrow> remote_writer" where
  "remoteListWriterClient c w v l pat fs =
     (case ListEdit c v l pat (w\<lparr>cw_files := fs\<rparr>) of (w', r) \<Rightarrow> (cw_files w', r))"

definition attach_backend :: "client_env \<Rightarrow> control_world \<Rightarrow> backend" where
  "attach_backend c w = \<lparr>bk_ConfigPath = [], bk_OnReload = False, bk_OnTest = None, bk_OnDoctor = None,
     bk_LocalOnly = False, bk_Remote = Some (remoteListWriterClient c w)\<rparr>"

section \<open>Attached or local, the file is the same\<close>

lemma serve_lists:
  assumes "l \<in> two_lists"
  shows "serve env (list_request c v l pat) w = listEdit l env (list_request c v l pat) w"
proof -
  have "cleanPath (''/v1/lists/'' @ l) = ''/v1/lists/'' @ l" "map_of exact_routes (''/v1/lists/'' @ l) = Some (authd (listEdit l))"
    using assms unfolding two_lists_def by (auto simp: exact_routes_def) code_simp+
  then show ?thesis by (simp add: serve_def list_request_def authd_def)
qed

lemma listEdit_reply:
  fixes c v l p w defines "r \<equiv> list_request c v l p"
  assumes "ce_listWriter (cl_server c)" "ce_patternBody (cl_server c) (cl_marshal c p) = Inr p" "trim_space p = p" "p \<noteq> []"
    and "adapter_edit (ce_yaml (cl_server c)) (ce_writes (cl_server c)) (ce_listPath (cl_server c)) v l p (cw_files w) = (fs', res)"
  shows "listEdit l (cl_server c) r w =
    (w\<lparr>cw_files := fs', cw_listReloads := (if res = Inr True then Suc (cw_listReloads w) else cw_listReloads w)\<rparr>,
     case res of Inl e \<Rightarrow> reply 500 (ErrorJSON (ce_writeError (cl_server c) e)) | Inr changed \<Rightarrow> reply 200 (ChangedJSON changed))"
proof -
  have "edit_verb_of (cq_method r) = v" "cq_method r = ''POST'' \<or> cq_method r = ''DELETE''" "cq_body r = cl_marshal c p"
    by (cases v; simp add: r_def list_request_def edit_verb_of_def)+
  then show ?thesis
    using assms(2-) by (cases res) (auto simp: listEdit_def Let_def adapter_reloads_def)
qed

lemma ListEdit_done:
  assumes "l \<in> two_lists" "ce_listWriter (cl_server c)" "ce_patternBody (cl_server c) (cl_marshal c p) = Inr p"
    and "trim_space p = p" "p \<noteq> []"
    and "adapter_edit (ce_yaml (cl_server c)) (ce_writes (cl_server c)) (ce_listPath (cl_server c)) v l p (cw_files w) = (fs', res)"
  shows "cw_files (fst (ListEdit c v l p w)) = fs'"
    "cw_listReloads (fst (ListEdit c v l p w)) = cw_listReloads w + (if res = Inr True then 1 else 0)"
  using listEdit_reply [OF assms(2-)] by (simp_all add: ListEdit_def serve_lists [OF assms(1)] split: prod.split)

lemma execute_remote:
  assumes "trim_space p = p" "p \<noteq> []" "\<not> bk_LocalOnly b" "bk_Remote b = Some remote" "l \<in> two_lists"
  shows "xr_files (Execute env b (l @ '' '' @ p) fs) = fst (remote Add_verb l p fs)"
proof -
  have l: "l = ''allow'' \<or> l = ''deny''" using assms(5) by (auto simp: two_lists_def)
  then have v: "l \<noteq> []" "list_all (\<lambda>c. \<not> is_space c) l" "to_lower l = l"
    by (auto simp: is_space_def) code_simp+
  note s = splitCmd_line [OF v(1,2) assms(1,2)]
  show ?thesis unfolding Execute_def s(1) Let_def s(2) prod.case v(3)
    using assms(3,4) l by (auto simp: runRemote_def says_def split: prod.split sum.split)
qed

lemma addPattern_action:
  assumes "trim_space p = p" "p \<noteq> []" "ValidatePattern p = None" "bk_ConfigPath b \<noteq> []"
    and "operator_action env (bk_ConfigPath b) l p fs = (fs', (e1, c1), (e2, c2))"
  shows "xr_files (addPattern env b l p fs) = fs'"
    "xr_reload (addPattern env b l p fs) \<longleftrightarrow> bk_OnReload b \<and> e1 = None \<and> e2 = None \<and> c2"
  using assms by (cases e1; cases e2; simp add: addPattern_def says_def wrote_def)+


definition demo_client :: client_env where
  "demo_client = \<lparr>cl_server = demo_ctl_env, cl_marshal = (\<lambda>s. s), cl_status = (\<lambda>_. [])\<rparr>"


text \<open>
  The server does not validate the pattern, as the console of the proxy does: an attached operator can
  put an entry on the list that the next load of the list refuses.
\<close>

lemma remote_edit_accepts_invalid:
  fixes c defines "c \<equiv> demo_client\<lparr>cl_server := demo_ctl_env\<lparr>ce_yaml :=
    demo_yaml (lists_doc [] []) (lists_doc [''a.com:x''] []) (lists_doc [] [])\<rparr>\<rparr>"
  shows "snd (ListEdit c Add_verb ''allow'' ''a.com:x'' demo_world) = Inr True
    \<and> cw_files (fst (ListEdit c Add_verb ''allow'' ''a.com:x'' demo_world)) ''f'' = Some ''1''
    \<and> ValidatePattern ''a.com:x'' \<noteq> None"
  unfolding c_def by code_simp

end
