(* ===== verification/OperatorClient.thy ===== *)
theory OperatorClient
  imports AttachMode TuiModel
begin

text \<open>
  The two clients of the operator console (\<open>internal/tui/approvals.go\<close>): the one of \<open>trollbridge run\<close>,
  which calls into the daemon, and the one of \<open>trollbridge attach\<close>, which goes through
  \<open>internal/controlclient\<close> and the control plane. Both act on the same daemon state. JSON, URLs and
  TLS are parameters; a transport without errors is assumed.
\<close>

section \<open>The control client\<close>

record http_env =
  he_client :: client_env
  he_marshalHold :: "string \<Rightarrow> string \<Rightarrow> string"
  he_marshalID :: "string \<Rightarrow> string"

definition control_request :: "string \<Rightarrow> string \<Rightarrow> string \<Rightarrow> ctl_request" where
  "control_request meth path body = \<lparr>cq_method = meth, cq_path = path, cq_verified = True, cq_body = body\<rparr>"

definition Do :: "http_env \<Rightarrow> string \<Rightarrow> string \<Rightarrow> string \<Rightarrow> control_world \<Rightarrow> control_world \<times> ctl_reply" where
  "Do h meth path body w = serve (cl_server (he_client h)) (control_request meth path body) w"

definition Get :: "http_env \<Rightarrow> string \<Rightarrow> control_world \<Rightarrow> control_world \<times> (string + ctl_body)" where
  "Get h path w = (case Do h ''GET'' path [] w of (w', rep) \<Rightarrow>
     (w', if cp_status rep \<ge> 400 then Inl (cl_status (he_client h) rep) else Inr (cp_body rep)))"

definition Post :: "http_env \<Rightarrow> string \<Rightarrow> string \<Rightarrow> control_world \<Rightarrow> control_world \<times> (string + ctl_body)" where
  "Post h path body w = (case Do h ''POST'' path body w of (w', rep) \<Rightarrow>
     (w', if cp_status rep \<ge> 400 then Inl (''control API: '' @ cl_status (he_client h) rep) else Inr (cp_body rep)))"

definition client_OpenMode :: "http_env \<Rightarrow> string \<Rightarrow> control_world \<Rightarrow> control_world \<times> (string + (bool \<times> int))" where
  "client_OpenMode h meth w = (case Do h meth ''/v1/open'' [] w of (w', rep) \<Rightarrow>
     (w', if cp_status rep \<ge> 400 then Inl (''control API: '' @ cl_status (he_client h) rep)
          else case cp_body rep of OpenJSON active until \<Rightarrow> Inr (active, until) | _ \<Rightarrow> Inl ''control API: decode response''))"

definition ErrHoldNotFound :: string where "ErrHoldNotFound = ''hold not found''"

definition HoldAction ::
    "http_env \<Rightarrow> string \<Rightarrow> string \<Rightarrow> string \<Rightarrow> string \<Rightarrow> control_world \<Rightarrow> control_world \<times> (string + ctl_body)" where
  "HoldAction h hid action scope reason w =
     (case Do h ''POST'' (''/v1/holds/'' @ hid @ ''/'' @ action) (he_marshalHold h scope reason) w of (w', rep) \<Rightarrow>
        (w', if cp_status rep = 404 then Inl (ErrHoldNotFound @ '': '' @ hid)
             else if cp_status rep \<ge> 400 then Inl (''control API: '' @ cl_status (he_client h) rep)
             else Inr (cp_body rep)))"

section \<open>What a client offers\<close>

datatype client_op =
    ListHolds | RecentOps | ApproveHold string | DenyHold string string | RecentLLMDigests | RecentURLs | ClientReloadStatus
  | ActiveSuggestion | AcceptSuggestion string | DeclineSuggestion string | SkipSuggestion string | SuggestNow
  | OpenModeState | ExtendOpen | CloseOpen

datatype client_value =
    Unit_value | Holds_value "snapshot list" | Ops_value "op list" | Digests_value "digest list"
  | URLs_value "string list" "string list" bool | Reload_value status | Suggestion_value "tui_suggestion option"
  | Open_value bool int

type_synonym client_result = "control_world \<times> (string + client_value)"

definition bind_value :: "(ctl_body \<Rightarrow> string + client_value) \<Rightarrow> control_world \<times> (string + ctl_body) \<Rightarrow> client_result" where
  "bind_value f r = (fst r, case snd r of Inl e \<Rightarrow> Inl e | Inr b \<Rightarrow> f b)"

definition unit_value :: "control_world \<times> (string + ctl_body) \<Rightarrow> client_result" where
  "unit_value r = bind_value (\<lambda>_. Inr Unit_value) r"

definition open_value :: "control_world \<times> (string + (bool \<times> int)) \<Rightarrow> client_result" where
  "open_value r = (fst r, case snd r of Inl e \<Rightarrow> Inl e | Inr (active, until) \<Rightarrow> Inr (Open_value active until))"

definition row_suggestion :: "suggestion_row \<Rightarrow> tui_suggestion" where
  "row_suggestion r = \<lparr>ts_ID = rw_SuggestionID r, ts_Axis = rw_Axis r, ts_List = rw_List r, ts_SourceEntries = rw_SourceEntries r,
     ts_SuggestedPattern = rw_SuggestedPattern r, ts_Reason = rw_Reason r, ts_AxesRemaining = int (rw_AxesRemaining r),
     ts_PatternName = [], ts_PatternComponents = [], ts_PatternMethod = []\<rparr>"

definition decodeSuggestion :: "ctl_body \<Rightarrow> string + client_value" where
  "decodeSuggestion b =
     (case b of
        NoBody \<Rightarrow> Inr (Suggestion_value None)
      | SuggestionJSON r \<Rightarrow> Inr (Suggestion_value (Some (row_suggestion r)))
      | _ \<Rightarrow> Inl ''decode suggestion'')"

text \<open>The status that the reply of \<open>/v1/rules\<close> decodes to.\<close>

definition decode_reload :: "ctl_body \<Rightarrow> string + client_value" where
  "decode_reload b =
     (case b of
        RulesJSON v rules at_src err \<Rightarrow>
          Inr (Reload_value \<lparr>rs_LastError = err, rs_LastAt = (case at_src of None \<Rightarrow> 0 | Some (at, _) \<Rightarrow> at),
            rs_LastSource = (case at_src of None \<Rightarrow> [] | Some (_, src) \<Rightarrow> src), rs_FailingSources = []\<rparr>)
      | _ \<Rightarrow> Inl ''decode rules'')"

fun httpClient :: "http_env \<Rightarrow> client_op \<Rightarrow> control_world \<Rightarrow> client_result" where
  "httpClient h ListHolds w =
     bind_value (\<lambda>b. case b of HoldsJSON hs \<Rightarrow> Inr (Holds_value hs) | _ \<Rightarrow> Inl ''decode holds'') (Get h ''/v1/holds'' w)"
| "httpClient h RecentOps w =
     bind_value (\<lambda>b. case b of OpsJSON ops \<Rightarrow> Inr (Ops_value ops) | _ \<Rightarrow> Inl ''decode ops'') (Get h ''/v1/ops'' w)"
| "httpClient h (ApproveHold hid) w = unit_value (HoldAction h hid ''approve'' ''once'' [] w)"
| "httpClient h (DenyHold hid reason) w = unit_value (HoldAction h hid ''deny'' [] reason w)"
| "httpClient h OpenModeState w = open_value (client_OpenMode h ''GET'' w)"
| "httpClient h ExtendOpen w = open_value (client_OpenMode h ''POST'' w)"
| "httpClient h CloseOpen w = open_value (client_OpenMode h ''DELETE'' w)"
| "httpClient h RecentLLMDigests w =
     bind_value (\<lambda>b. case b of DigestsJSON ds \<Rightarrow> Inr (Digests_value ds) | _ \<Rightarrow> Inl ''decode llm-digests'') (Get h ''/v1/llm-digests'' w)"
| "httpClient h ClientReloadStatus w = bind_value decode_reload (Get h ''/v1/rules'' w)"
| "httpClient h RecentURLs w =
     bind_value (\<lambda>b. case b of ListsJSON allow deny \<Rightarrow> Inr (URLs_value allow deny True) | _ \<Rightarrow> Inl ''decode lists'') (Get h ''/v1/lists'' w)"
| "httpClient h ActiveSuggestion w = bind_value decodeSuggestion (Get h ''/v1/suggestion'' w)"
| "httpClient h SuggestNow w = bind_value decodeSuggestion (Post h ''/v1/suggestion/scan'' [] w)"
| "httpClient h (AcceptSuggestion sid) w = unit_value (Post h ''/v1/suggestion/accept'' (he_marshalID h sid) w)"
| "httpClient h (DeclineSuggestion sid) w = unit_value (Post h ''/v1/suggestion/decline'' (he_marshalID h sid) w)"
| "httpClient h (SkipSuggestion sid) w = unit_value (Post h ''/v1/suggestion/skip'' (he_marshalID h sid) w)"

text \<open>\<open>tuiSuggestionAdapter\<close> of \<open>run.go\<close>: the row with the fields of a rule-shaped suggestion.\<close>

definition adapter_suggestion :: "manager \<Rightarrow> tui_suggestion option" where
  "adapter_suggestion m = map_option (\<lambda>r. case rw_Pattern r of
       None \<Rightarrow> row_suggestion r
     | Some pm \<Rightarrow> (row_suggestion r)\<lparr>ts_PatternName := pc_Pattern pm, ts_PatternComponents := pc_Components pm,
         ts_PatternMethod := pc_Method pm\<rparr>) (Active m)"

definition answered :: "control_env \<Rightarrow> answer_error option \<Rightarrow> string + client_value" where
  "answered env e = (case e of None \<Rightarrow> Inr Unit_value | Some e \<Rightarrow> Inl (ce_answerError env e))"

definition resolved :: "string \<Rightarrow> control_world \<Rightarrow> queue \<times> bool \<Rightarrow> client_result" where
  "resolved hid w v = (w\<lparr>cw_queue := fst v\<rparr>, if snd v then Inr Unit_value else Inl (ErrHoldNotFound @ '': '' @ hid))"

definition window_value :: "control_env \<Rightarrow> open_mode \<Rightarrow> control_world \<Rightarrow> client_result" where
  "window_value env om w = (if \<not> ce_openMode env then (w, Inr (Open_value False zero_time))
     else (w\<lparr>cw_window := om\<rparr>, Inr (Open_value (fst (window_state (ce_now env) om)) (snd (window_state (ce_now env) om)))))"

fun inProcessClient :: "control_env \<Rightarrow> client_op \<Rightarrow> control_world \<Rightarrow> client_result" where
  "inProcessClient env ListHolds w = (w, Inr (Holds_value (Pending (cw_queue w))))"
| "inProcessClient env RecentOps w = (w, Inr (Ops_value (if ce_ops env then RingSnapshot (cw_ring w) else [])))"
| "inProcessClient env (ApproveHold hid) w = resolved hid w (Approve hid ''once'' ''tui'' (cw_queue w))"
| "inProcessClient env (DenyHold hid reason) w = resolved hid w (Deny hid reason ''tui'' (cw_queue w))"
| "inProcessClient env OpenModeState w = window_value env (cw_window w) w"
| "inProcessClient env ExtendOpen w = window_value env (OpenMode.extend (ce_now env) (cw_window w)) w"
| "inProcessClient env CloseOpen w = window_value env (close_window (cw_window w)) w"
| "inProcessClient env RecentLLMDigests w = (w, Inr (Digests_value (if ce_digests env then DigestSnapshot (cw_digests w) else [])))"
| "inProcessClient env ClientReloadStatus w =
     (w, Inr (Reload_value (if ce_reloadStatus env then GetStatus (cw_reload w) else zero_status)))"
| "inProcessClient env RecentURLs w = (w, Inr (URLs_value [] [] False))"
| "inProcessClient env ActiveSuggestion w =
     (w, Inr (Suggestion_value (if ce_suggestion env then adapter_suggestion (cw_manager w) else None)))"
| "inProcessClient env (AcceptSuggestion sid) w =
     (if \<not> ce_suggestion env then (w, Inl ''suggestion lifecycle not wired'')
      else case Suggestion.Accept (ce_yaml env) (fst (ce_writes env)) (snd (ce_writes env)) (ce_sha8 env) sid (cw_manager w) (cw_files w) of
        (m, fs, res) \<Rightarrow> (w\<lparr>cw_manager := m, cw_files := fs\<rparr>, answered env (answer_error_of res)))"
| "inProcessClient env (DeclineSuggestion sid) w =
     (if \<not> ce_suggestion env then (w, Inl ''suggestion lifecycle not wired'')
      else case Suggestion.Decline (ce_yaml env) (fst (ce_writes env)) (ce_now env) (ce_declinedAt env) sid (cw_manager w) (cw_files w) of
        (m, fs, res) \<Rightarrow> (w\<lparr>cw_manager := m, cw_files := fs\<rparr>, answered env (answer_error_of res)))"
| "inProcessClient env (SkipSuggestion sid) w =
     (if \<not> ce_suggestion env then (w, Inl ''suggestion lifecycle not wired'')
      else case Suggestion.Skip sid (cw_manager w) of (m, e) \<Rightarrow> (w\<lparr>cw_manager := m\<rparr>, answered env e))"
| "inProcessClient env SuggestNow w =
     (if \<not> ce_suggestion env then (w, Inr (Suggestion_value None))
      else let m = ce_scan env (cw_manager w) in (w\<lparr>cw_manager := m\<rparr>, Inr (Suggestion_value (adapter_suggestion m))))"

section \<open>The route of a request\<close>

lemma routes_clean: "list_all (\<lambda>k. cleanPath k = k) (map fst exact_routes)"
  unfolding exact_routes_def list.map fst_conv list.pred_inject by (intro conjI TrueI; code_simp)

lemma Do_exact:
  assumes "(path, authd g) \<in> set exact_routes"
  shows "Do h meth path body w = g (cl_server (he_client h)) (control_request meth path body) w"
proof -
  have "distinct (map fst exact_routes)" by (simp add: exact_routes_def)
  then have m: "map_of exact_routes path = Some (authd g)" using assms by simp
  have "cleanPath path = path" using routes_clean assms by (force simp: list_all_iff)
  then show ?thesis by (simp add: Do_def serve_def control_request_def m authd_def)
qed

lemma route_exact:
  "Do h meth ''/v1/holds'' body w = listHolds (cl_server (he_client h)) (control_request meth ''/v1/holds'' body) w"
  "Do h meth ''/v1/ops'' body w = listOps (cl_server (he_client h)) (control_request meth ''/v1/ops'' body) w"
  "Do h meth ''/v1/llm-digests'' body w = listLLMDigests (cl_server (he_client h)) (control_request meth ''/v1/llm-digests'' body) w"
  "Do h meth ''/v1/rules'' body w = rulesInfo (cl_server (he_client h)) (control_request meth ''/v1/rules'' body) w"
  "Do h meth ''/v1/suggestion'' body w = suggestionGet (cl_server (he_client h)) (control_request meth ''/v1/suggestion'' body) w"
  "Do h meth ''/v1/suggestion/scan'' body w = suggestionScan (cl_server (he_client h)) (control_request meth ''/v1/suggestion/scan'' body) w"
  "Do h meth ''/v1/suggestion/accept'' body w = suggestionAccept (cl_server (he_client h)) (control_request meth ''/v1/suggestion/accept'' body) w"
  "Do h meth ''/v1/suggestion/decline'' body w = suggestionDecline (cl_server (he_client h)) (control_request meth ''/v1/suggestion/decline'' body) w"
  "Do h meth ''/v1/suggestion/skip'' body w = suggestionSkip (cl_server (he_client h)) (control_request meth ''/v1/suggestion/skip'' body) w"
  "Do h meth ''/v1/open'' body w = openModeHandler (cl_server (he_client h)) (control_request meth ''/v1/open'' body) w"
  by (rule Do_exact; simp add: exact_routes_def)+

text \<open>The ids of holds are letters, digits and hyphens.\<close>

definition plain_id :: "string \<Rightarrow> bool" where
  "plain_id s \<longleftrightarrow> s \<noteq> [] \<and> CHR ''/'' \<notin> set s \<and> CHR ''.'' \<notin> set s \<and> CHR ''?'' \<notin> set s \<and> CHR ''#'' \<notin> set s \<and> CHR ''%'' \<notin> set s"

lemma hold_path_clean:
  assumes "plain_id hid" "plain_id action"
  shows "cleanPath (''/v1/holds/'' @ hid @ ''/'' @ action) = ''/v1/holds/'' @ hid @ ''/'' @ action"
proof -
  have s: "split_on (CHR ''/'') (''/v1/holds/'' @ hid @ ''/'' @ action) = [[], ''v1'', ''holds'', hid, action]"
    using assms split_on_append [of "CHR ''/''" hid action] by (simp add: plain_id_def split_on_none)
  have n: "hid \<noteq> ''.''" "hid \<noteq> ''..''" "action \<noteq> ''.''" "action \<noteq> ''..''" "hid \<noteq> []" "action \<noteq> []"
    using assms by (auto simp: plain_id_def)
  have "path_clean (''/v1/holds/'' @ hid @ ''/'' @ action) = ''/v1/holds/'' @ hid @ ''/'' @ action"
    using n unfolding path_clean_def s by (simp add: clean_step_def has_prefix_def)
  moreover have "last action \<noteq> CHR ''/''" using assms(2) last_in_set [OF n(6)] unfolding plain_id_def by metis
  ultimately show ?thesis using n(6) by (simp add: cleanPath_def Let_def)
qed

lemma Do_hold:
  assumes "plain_id hid" "plain_id action"
  shows "Do h ''POST'' (''/v1/holds/'' @ hid @ ''/'' @ action) body w
    = holdAction (cl_server (he_client h)) (control_request ''POST'' (''/v1/holds/'' @ hid @ ''/'' @ action) body) w"
proof -
  have p: "has_prefix (''/v1/holds/'' @ hid @ ''/'' @ action) ''/v1/holds/''" by (simp add: has_prefix_def)
  then have "map_of exact_routes (''/v1/holds/'' @ hid @ ''/'' @ action) = None"
    using not_hold_route by (metis map_of_SomeD not_None_eq)
  with p show ?thesis by (simp add: Do_def serve_def control_request_def authd_def hold_path_clean [OF assms, simplified])
qed

section \<open>The clients agree\<close>

text \<open>A queue without the names of who resolved its holds.\<close>

definition unsourced :: "control_world \<Rightarrow> control_world" where
  "unsourced w = w\<lparr>cw_queue := (cw_queue w)\<lparr>q_persisted := map (\<lambda>(a, eff, _). (a, eff, [])) (q_persisted (cw_queue w))\<rparr>\<rparr>"

text \<open>A value without what the control plane leaves out.\<close>

fun plain_value :: "client_value \<Rightarrow> client_value" where
  "plain_value (Suggestion_value s) = Suggestion_value (map_option (\<lambda>s. s\<lparr>ts_PatternName := [], ts_PatternComponents := [],
     ts_PatternMethod := []\<rparr>) s)"
| "plain_value (Reload_value s) = Reload_value (s\<lparr>rs_FailingSources := []\<rparr>)"
| "plain_value v = v"

definition agree :: "client_result \<Rightarrow> client_result \<Rightarrow> bool" where
  "agree r r' \<longleftrightarrow> unsourced (fst r) = unsourced (fst r')
     \<and> (case (snd r, snd r') of (Inl _, Inl _) \<Rightarrow> True | (Inr v, Inr v') \<Rightarrow> plain_value v = plain_value v' | _ \<Rightarrow> False)"

text \<open>A call both clients support, whose texts the JSON library carries.\<close>

fun carried :: "http_env \<Rightarrow> client_op \<Rightarrow> bool" where
  "carried h (ApproveHold hid) = (plain_id hid \<and> ce_holdBody (cl_server (he_client h)) (he_marshalHold h ''once'' []) = (''once'', []))"
| "carried h (DenyHold hid reason) = (plain_id hid \<and> ce_holdBody (cl_server (he_client h)) (he_marshalHold h [] reason) = ([], reason))"
| "carried h (AcceptSuggestion sid) = (sid \<noteq> [] \<and> ce_idBody (cl_server (he_client h)) (he_marshalID h sid) = Inr sid)"
| "carried h (DeclineSuggestion sid) = (sid \<noteq> [] \<and> ce_idBody (cl_server (he_client h)) (he_marshalID h sid) = Inr sid)"
| "carried h (SkipSuggestion sid) = (sid \<noteq> [] \<and> ce_idBody (cl_server (he_client h)) (he_marshalID h sid) = Inr sid)"
| "carried h RecentURLs = False"
| "carried h x = True"

lemma resolve_source:
  fixes q :: queue
  assumes "resolve hid dec (Some (eff, a)) q = (q1, r1)" "resolve hid dec (Some (eff, b)) q = (q2, r2)"
  shows "r1 = r2 \<and> unsourced (w\<lparr>cw_queue := q1\<rparr>) = unsourced (w\<lparr>cw_queue := q2\<rparr>)"
  using assms by (auto simp: resolve_def persist_def unsourced_def split: prod.splits option.splits if_splits)

lemma split2_at: "c \<notin> set a \<Longrightarrow> split2 c (a @ c # b) = (a, Some b)"
  by (simp add: split2_def index_byte_append)

lemma hold_target: "plain_id hid \<Longrightarrow> split2 (CHR ''/'') (trim_prefix (''/v1/holds/'' @ hid @ ''/'' @ action) ''/v1/holds/'') = (hid, Some action)"
  using split2_at [of "CHR ''/''" hid action] by (simp add: trim_prefix_def has_prefix_def plain_id_def)

lemma plain_actions: "plain_id ''approve''" "plain_id ''deny''"
  by (simp_all add: plain_id_def)

lemma hold_action_agree:
  fixes dec :: "hold \<Rightarrow> decision"
  assumes "resolve hid dec (Some (eff, ''attach'')) (cw_queue w) = v" "resolve hid dec (Some (eff, ''tui'')) (cw_queue w) = v'"
  shows "agree (w\<lparr>cw_queue := fst v\<rparr>, if snd v then Inr Unit_value else Inl e) (resolved hid w v')"
  using resolve_source [of hid dec eff "''attach''" "cw_queue w" "fst v" "snd v" "''tui''" "fst v'" "snd v'" w] assms
  by (auto simp: agree_def resolved_def)

lemma approve_agree:
  assumes "carried h (ApproveHold hid)"
  shows "agree (httpClient h (ApproveHold hid) w) (inProcessClient (cl_server (he_client h)) (ApproveHold hid) w)"
proof -
  have a: "plain_id hid" "ce_holdBody (cl_server (he_client h)) (he_marshalHold h ''once'' []) = (''once'', [])" using assms by simp_all
  let ?v = "Approve hid ''once'' ''attach'' (cw_queue w)"
  have "httpClient h (ApproveHold hid) w = (w\<lparr>cw_queue := fst ?v\<rparr>, if snd ?v then Inr Unit_value else Inl (ErrHoldNotFound @ '': '' @ hid))"
    unfolding httpClient.simps HoldAction_def Do_hold [OF a(1) plain_actions(1)]
    using hold_target [OF a(1), of "''approve''"] a(2)
    by (simp add: holdAction_def control_request_def hold_verdict_def unit_value_def bind_value_def reply_def split_beta)
  then show ?thesis
    using hold_action_agree [of hid "\<lambda>h. approve_decision h ''once''" EffectAllow w] by (simp add: Approve_def)
qed

lemma deny_agree:
  assumes "carried h (DenyHold hid reason)"
  shows "agree (httpClient h (DenyHold hid reason) w) (inProcessClient (cl_server (he_client h)) (DenyHold hid reason) w)"
proof -
  have a: "plain_id hid" "ce_holdBody (cl_server (he_client h)) (he_marshalHold h [] reason) = ([], reason)" using assms by simp_all
  let ?v = "Deny hid reason ''attach'' (cw_queue w)"
  have "httpClient h (DenyHold hid reason) w = (w\<lparr>cw_queue := fst ?v\<rparr>, if snd ?v then Inr Unit_value else Inl (ErrHoldNotFound @ '': '' @ hid))"
    unfolding httpClient.simps HoldAction_def Do_hold [OF a(1) plain_actions(2)]
    using hold_target [OF a(1), of "''deny''"] a(2)
    by (simp add: holdAction_def control_request_def hold_verdict_def unit_value_def bind_value_def reply_def split_beta)
  then show ?thesis
    using hold_action_agree [of hid "\<lambda>h. deny_decision h reason" EffectDeny w] by (simp add: Deny_def)
qed

lemma read_agree:
  assumes "x \<in> {ListHolds, RecentOps, RecentLLMDigests}"
  shows "agree (httpClient h x w) (inProcessClient (cl_server (he_client h)) x w)"
  using assms by (auto simp: Get_def route_exact bind_value_def agree_def listHolds_def listOps_def listLLMDigests_def reply_def)

lemma window_agree:
  assumes "x \<in> {OpenModeState, ExtendOpen, CloseOpen}" "ce_openMode (cl_server (he_client h))"
  shows "agree (httpClient h x w) (inProcessClient (cl_server (he_client h)) x w)"
  using assms by (auto simp: client_OpenMode_def route_exact open_value_def agree_def openModeHandler_def window_value_def
      control_request_def reply_def Let_def split_beta)

lemma plain_row: "map_option (\<lambda>s. s\<lparr>ts_PatternName := [], ts_PatternComponents := [], ts_PatternMethod := []\<rparr>) (adapter_suggestion m)
    = map_option row_suggestion (Active m)"
  by (cases "Active m") (auto simp: adapter_suggestion_def row_suggestion_def split: option.split)

lemma suggestion_agree:
  assumes "x \<in> {ActiveSuggestion, SuggestNow}" "ce_suggestion (cl_server (he_client h))"
  shows "agree (httpClient h x w) (inProcessClient (cl_server (he_client h)) x w)"
proof -
  have r: "case decodeSuggestion (cp_body (active_reply m)) of Inl e \<Rightarrow> False
      | Inr v \<Rightarrow> plain_value v = plain_value (Suggestion_value (adapter_suggestion m)) \<and> cp_status (active_reply m) < 400" for m
    using plain_row [of m] by (cases "Active m") (auto simp: active_reply_def reply_def decodeSuggestion_def row_suggestion_def)
  show ?thesis
    using assms r [of "cw_manager w"] r [of "ce_scan (cl_server (he_client h)) (cw_manager w)"]
    by (auto simp: Get_def Post_def route_exact bind_value_def agree_def suggestionGet_def suggestionScan_def control_request_def
        Let_def split: sum.splits)
qed

lemma answer_agree:
  assumes "x \<in> {AcceptSuggestion sid, DeclineSuggestion sid, SkipSuggestion sid}" "carried h x" "ce_suggestion (cl_server (he_client h))"
  shows "agree (httpClient h x w) (inProcessClient (cl_server (he_client h)) x w)"
proof -
  have m: "cp_status (mapSuggestionErr env e) \<ge> 400" for env e by (cases e) (simp_all add: mapSuggestionErr_def reply_def)
  show ?thesis
    using assms m
    by (auto simp: Post_def route_exact unit_value_def bind_value_def agree_def suggestionAccept_def suggestionDecline_def
        suggestionSkip_def suggestion_answer_def readSuggestionID_def control_request_def answered_def reply_def
        split: prod.split option.split)
qed

lemma reload_agree:
  assumes "rs_LastAt (rt_mostRecent (cw_reload w)) = 0 \<longrightarrow> rt_mostRecent (cw_reload w) = zero_status"
  shows "agree (httpClient h ClientReloadStatus w) (inProcessClient (cl_server (he_client h)) ClientReloadStatus w)"
  using assms by (auto simp: Get_def route_exact bind_value_def agree_def rulesInfo_def decode_reload_def reply_def Let_def
      GetStatus_def zero_status_def split: if_splits)

text \<open>
  C17: the console of \<open>attach\<close> and the console of \<open>run\<close> do the same thing. Every call that both clients
  support leaves the daemon in the same state, up to the name recorded for who resolved a hold, fails
  in the one exactly when it fails in the other, and returns the same value, up to the fields of a
  rule-shaped suggestion and the list of failing reload sources.
\<close>

theorem clients_agree:
  assumes "carried h x" "ce_suggestion (cl_server (he_client h))" "ce_openMode (cl_server (he_client h))"
    and "rs_LastAt (rt_mostRecent (cw_reload w)) = 0 \<longrightarrow> rt_mostRecent (cw_reload w) = zero_status"
  shows "agree (httpClient h x w) (inProcessClient (cl_server (he_client h)) x w)"
proof (cases x)
  case (ApproveHold hid) with assms(1) show ?thesis using approve_agree by blast
next
  case (DenyHold hid reason) with assms(1) show ?thesis using deny_agree by blast
next
  case RecentURLs with assms(1) show ?thesis by simp
next
  case ClientReloadStatus with assms(4) show ?thesis using reload_agree by blast
next
  case (AcceptSuggestion sid) with assms(1,2) show ?thesis using answer_agree [of x sid] by simp
next
  case (DeclineSuggestion sid) with assms(1,2) show ?thesis using answer_agree [of x sid] by simp
next
  case (SkipSuggestion sid) with assms(1,2) show ?thesis using answer_agree [of x sid] by simp
qed ((rule read_agree, simp; fail) | (rule window_agree [OF _ assms(3)], simp; fail) | (rule suggestion_agree [OF _ assms(2)], simp; fail))+

definition demo_http :: http_env where
  "demo_http = \<lparr>he_client = demo_client, he_marshalHold = (\<lambda>_ _. []), he_marshalID = (\<lambda>s. s)\<rparr>"

theorem clients_agree_witness:
  "agree (httpClient demo_http (DenyHold ''hold-1'' []) demo_world) (inProcessClient demo_ctl_env (DenyHold ''hold-1'' []) demo_world)"
  using clients_agree [of demo_http "DenyHold ''hold-1'' []" demo_world]
  by (simp add: demo_http_def demo_client_def demo_ctl_env_def plain_id_def demo_world_def zero_tracker_def)

text \<open>
  What the control plane leaves out. The reply of \<open>/v1/rules\<close> has no list of failing sources, and
  \<open>decodeSuggestion\<close> does not read the fields of a rule-shaped suggestion, so the attached console shows
  neither.
\<close>

lemma failing_sources_not_sent:
  "\<exists>st. snd (httpClient h ClientReloadStatus w) = Inr (Reload_value st) \<and> rs_FailingSources st = []"
  by (simp add: Get_def route_exact bind_value_def rulesInfo_def decode_reload_def reply_def Let_def)

lemma attached_suggestion_plain:
  assumes "ce_suggestion (cl_server (he_client h))" "snd (httpClient h ActiveSuggestion w) = Inr (Suggestion_value (Some s))"
  shows "ts_PatternName s = [] \<and> ts_PatternComponents s = [] \<and> ts_PatternMethod s = []"
  using assms by (auto simp: Get_def route_exact bind_value_def suggestionGet_def active_reply_def decodeSuggestion_def
      control_request_def reply_def row_suggestion_def split: option.splits)

end
