(* ===== verification/TuiTerminal.thy ===== *)
theory TuiTerminal
  imports TuiSafety
begin

text \<open>
  Between the terminal and the reducer (\<open>internal/tui/approvals.go\<close>): the bytes of the operator's
  keyboard become key events, a frame becomes the lines that differ from the one before, and the
  panes scroll so that the cursor stays in view.
\<close>

section \<open>Keys\<close>

definition a_key :: "key_code \<Rightarrow> key_event" where
  "a_key k = \<lparr>ke_Rune = 0, ke_Key = k\<rparr>"

definition a_rune :: "char \<Rightarrow> key_event" where
  "a_rune c = \<lparr>ke_Rune = of_char c, ke_Key = KeyNone\<rparr>"

definition esc_byte :: char where "esc_byte = char_of (27 :: nat)"

definition param_byte :: "char \<Rightarrow> bool" where
  "param_byte c \<longleftrightarrow> 32 \<le> (of_char c :: nat) \<and> (of_char c :: nat) \<le> 63"

definition final_byte :: "char \<Rightarrow> bool" where
  "final_byte c \<longleftrightarrow> 64 \<le> (of_char c :: nat) \<and> (of_char c :: nat) \<le> 126"

definition csiKeyEvent :: "string \<Rightarrow> char \<Rightarrow> key_event option" where
  "csiKeyEvent params final =
     (let fields = split_on (CHR '';'') params; shift = (length fields \<ge> 2 \<and> fields ! 1 = ''2'') in
      if final = CHR ''A'' then Some (a_key (if shift then KeyShiftUp else KeyUp))
      else if final = CHR ''B'' then Some (a_key (if shift then KeyShiftDown else KeyDown))
      else if final = CHR ''Z'' then Some (a_key KeyShiftTab)
      else if final = CHR ''H'' then Some (a_key KeyHome)
      else if final = CHR ''F'' then Some (a_key KeyEnd)
      else if final = CHR ''~'' then
        (let head = (if params \<noteq> [] then fields ! 0 else []) in
         if head = ''3'' then Some (a_key KeyDelete)
         else if head = ''1'' \<or> head = ''7'' then Some (a_key KeyHome)
         else if head = ''4'' \<or> head = ''8'' then Some (a_key KeyEnd)
         else None)
      else None)"

text \<open>A control byte that is a key by itself.\<close>

definition control_key :: "char \<Rightarrow> key_code option" where
  "control_key c =
     (let n = (of_char c :: nat) in
      if n = 3 then Some KeyCtrlC else if n = 9 then Some KeyTab else if n = 12 then Some KeyCtrlL
      else if n = 13 \<or> n = 10 then Some KeyEnter else if n = 127 \<or> n = 8 then Some KeyBackspace
      else if n = 21 then Some KeyCtrlU else if n = 26 then Some KeyCtrlZ else None)"

definition printable :: "char \<Rightarrow> bool" where
  "printable c \<longleftrightarrow> 32 \<le> (of_char c :: nat) \<and> (of_char c :: nat) < 127"

text \<open>The bytes after an escape: the event and what remains, when they are a whole sequence.\<close>

definition csi_at :: "string \<Rightarrow> (key_event list \<times> string) option" where
  "csi_at bs =
     (case bs of
        [] \<Rightarrow> None
      | c # cs \<Rightarrow>
          if c \<noteq> CHR ''['' then None
          else (case dropWhile param_byte cs of
              [] \<Rightarrow> None
            | f # rest \<Rightarrow>
                if final_byte f then
                  Some ((case csiKeyEvent (takeWhile param_byte cs) f of None \<Rightarrow> [] | Some ev \<Rightarrow> [ev]), rest)
                else None))"

lemma csi_at_shorter: "csi_at bs = Some (evs, rest) \<Longrightarrow> length rest < length bs"
proof -
  assume a: "csi_at bs = Some (evs, rest)"
  then obtain c cs f where b: "bs = c # cs" "dropWhile param_byte cs = f # rest"
    by (auto simp: csi_at_def split: list.splits if_splits)
  have "length (dropWhile param_byte cs) \<le> length cs" by (rule length_dropWhile_le)
  with b show ?thesis by simp
qed

text \<open>One read.\<close>

function (sequential) parse_keys :: "string \<Rightarrow> key_event list" where
  "parse_keys [] = []"
| "parse_keys (b # bs) =
     (case control_key b of
        Some k \<Rightarrow> a_key k # parse_keys bs
      | None \<Rightarrow>
          if b = esc_byte then
            (case csi_at bs of
               None \<Rightarrow> a_key KeyEsc # parse_keys bs
             | Some (evs, rest) \<Rightarrow> evs @ parse_keys rest)
          else if printable b then a_rune b # parse_keys bs
          else parse_keys bs)"
  by pat_completeness auto
termination
  by (relation "measure length") (auto dest: csi_at_shorter)

definition readKeys :: "string list \<Rightarrow> key_event list" where
  "readKeys reads = concat (map parse_keys reads)"

text \<open>What a terminal sends for a key.\<close>

fun key_bytes :: "key_code \<Rightarrow> char \<Rightarrow> string" where
  "key_bytes KeyNone c = [c]"
| "key_bytes KeyUp c = [esc_byte, CHR ''['', CHR ''A'']"
| "key_bytes KeyDown c = [esc_byte, CHR ''['', CHR ''B'']"
| "key_bytes KeyEsc c = [esc_byte]"
| "key_bytes KeyCtrlC c = [char_of (3 :: nat)]"
| "key_bytes KeyTab c = [char_of (9 :: nat)]"
| "key_bytes KeyEnter c = [char_of (13 :: nat)]"
| "key_bytes KeyBackspace c = [char_of (127 :: nat)]"
| "key_bytes KeyCtrlU c = [char_of (21 :: nat)]"
| "key_bytes KeyShiftTab c = [esc_byte, CHR ''['', CHR ''Z'']"
| "key_bytes KeyDelete c = [esc_byte, CHR ''['', CHR ''3'', CHR ''~'']"
| "key_bytes KeyCtrlZ c = [char_of (26 :: nat)]"
| "key_bytes KeyCtrlL c = [char_of (12 :: nat)]"
| "key_bytes KeyShiftUp c = [esc_byte, CHR ''['', CHR ''1'', CHR '';'', CHR ''2'', CHR ''A'']"
| "key_bytes KeyShiftDown c = [esc_byte, CHR ''['', CHR ''1'', CHR '';'', CHR ''2'', CHR ''B'']"
| "key_bytes KeyHome c = [esc_byte, CHR ''['', CHR ''H'']"
| "key_bytes KeyEnd c = [esc_byte, CHR ''['', CHR ''F'']"

text \<open>A key pressed: its code, and the character when it is one.\<close>

type_synonym press = "key_code \<times> char"

definition press_event :: "press \<Rightarrow> key_event" where
  "press_event p = (if fst p = KeyNone then a_rune (snd p) else a_key (fst p))"

definition press_bytes :: "press \<Rightarrow> string" where
  "press_bytes p = key_bytes (fst p) (snd p)"

text \<open>An escape key is not followed by the bracket, with which it would be an escape sequence.\<close>

fun typed :: "press list \<Rightarrow> bool" where
  "typed [] = True"
| "typed (p # ps) = ((fst p = KeyNone \<longrightarrow> printable (snd p))
     \<and> (fst p = KeyEsc \<longrightarrow> ps = [] \<or> hd ps \<noteq> (KeyNone, CHR ''[''))
     \<and> typed ps)"

lemma control_key_codes:
  "control_key (char_of (3 :: nat)) = Some KeyCtrlC" "control_key (char_of (9 :: nat)) = Some KeyTab"
  "control_key (char_of (12 :: nat)) = Some KeyCtrlL" "control_key (char_of (13 :: nat)) = Some KeyEnter"
  "control_key (char_of (127 :: nat)) = Some KeyBackspace" "control_key (char_of (21 :: nat)) = Some KeyCtrlU"
  "control_key (char_of (26 :: nat)) = Some KeyCtrlZ" "control_key esc_byte = None"
  by (simp_all add: control_key_def esc_byte_def Let_def)

lemma printable_plain: "printable c \<Longrightarrow> control_key c = None \<and> c \<noteq> esc_byte"
  by (auto simp: printable_def control_key_def esc_byte_def Let_def)

lemma csi_at_samples:
  "csi_at (CHR ''['' # CHR ''A'' # rest) = Some ([a_key KeyUp], rest)"
  "csi_at (CHR ''['' # CHR ''B'' # rest) = Some ([a_key KeyDown], rest)"
  "csi_at (CHR ''['' # CHR ''Z'' # rest) = Some ([a_key KeyShiftTab], rest)"
  "csi_at (CHR ''['' # CHR ''H'' # rest) = Some ([a_key KeyHome], rest)"
  "csi_at (CHR ''['' # CHR ''F'' # rest) = Some ([a_key KeyEnd], rest)"
  "csi_at (CHR ''['' # CHR ''3'' # CHR ''~'' # rest) = Some ([a_key KeyDelete], rest)"
  "csi_at (CHR ''['' # CHR ''1'' # CHR '';'' # CHR ''2'' # CHR ''A'' # rest) = Some ([a_key KeyShiftUp], rest)"
  "csi_at (CHR ''['' # CHR ''1'' # CHR '';'' # CHR ''2'' # CHR ''B'' # rest) = Some ([a_key KeyShiftDown], rest)"
  by (simp_all add: csi_at_def param_byte_def final_byte_def csiKeyEvent_def Let_def)

lemma csi_at_none: "rest = [] \<or> hd rest \<noteq> CHR ''['' \<Longrightarrow> csi_at rest = None"
  by (cases rest) (auto simp: csi_at_def)

lemma parse_press:
  assumes "fst p = KeyNone \<longrightarrow> printable (snd p)" "fst p = KeyEsc \<longrightarrow> rest = [] \<or> hd rest \<noteq> CHR ''[''"
  shows "parse_keys (press_bytes p @ rest) = press_event p # parse_keys rest"
  using assms by (cases "fst p") (simp_all add: press_bytes_def press_event_def control_key_codes csi_at_samples csi_at_none printable_plain)

lemma not_bracket:
  "esc_byte \<noteq> CHR ''[''" "char_of (3 :: nat) \<noteq> CHR ''[''" "char_of (9 :: nat) \<noteq> CHR ''[''" "char_of (12 :: nat) \<noteq> CHR ''[''"
  "char_of (13 :: nat) \<noteq> CHR ''[''" "char_of (127 :: nat) \<noteq> CHR ''[''" "char_of (21 :: nat) \<noteq> CHR ''[''" "char_of (26 :: nat) \<noteq> CHR ''[''"
  by code_simp+

lemma press_bytes_hd: "press_bytes p \<noteq> [] \<and> (hd (press_bytes p) = CHR ''['' \<longleftrightarrow> p = (KeyNone, CHR ''[''))"
  by (cases p; cases "fst p") (auto simp: press_bytes_def not_bracket)

text \<open>
  C21: no key is lost or made up. Whatever keys the operator presses, if their bytes arrive in one read
  they are read back as exactly these keys, in order; the bytes of an arrow or of a key with a
  modifier never turn into characters. The escape key followed by a bracket is the one exception.
\<close>

theorem keys_roundtrip:
  assumes "typed ps"
  shows "parse_keys (concat (map press_bytes ps)) = map press_event ps"
  using assms
proof (induction ps)
  case (Cons p ps)
  have "fst p = KeyEsc \<longrightarrow> concat (map press_bytes ps) = [] \<or> hd (concat (map press_bytes ps)) \<noteq> CHR ''[''"
    using Cons.prems press_bytes_hd by (cases ps) auto
  then show ?case using Cons parse_press [of p "concat (map press_bytes ps)"] by simp
qed simp

theorem keys_roundtrip_witness:
  "parse_keys (concat (map press_bytes [(KeyShiftUp, CHR ''x''), (KeyNone, CHR ''a''), (KeyEsc, CHR ''x'')]))
     = [a_key KeyShiftUp, a_rune (CHR ''a''), a_key KeyEsc]"
  using keys_roundtrip [of "[(KeyShiftUp, CHR ''x''), (KeyNone, CHR ''a''), (KeyEsc, CHR ''x'')]"]
  by (simp add: printable_def press_event_def)

text \<open>
  A sequence that falls on the end of the 32-byte buffer is not put together again: of eleven arrow
  keys in a row the eleventh becomes an escape and two characters, the last of them the A that accepts
  the suggestion on the screen.
\<close>

lemma split_arrow_leaks:
  fixes bytes defines "bytes \<equiv> concat (replicate 11 (press_bytes (KeyUp, CHR ''x'')))"
  shows "readKeys [take 32 bytes, drop 32 bytes]
    = replicate 10 (a_key KeyUp) @ [a_key KeyEsc, a_rune (CHR ''[''), a_rune (CHR ''A'')]"
  unfolding bytes_def by code_simp

lemma leaked_arrow_accepts:
  assumes "tm_GenCard m = None" "tm_Focused m = PaneApprovals" "tm_Suggestion m = Some s"
  shows "\<exists>m'. Apply env m (KeyEvent (a_rune (CHR ''A''))) = Some (m', CmdSuggestionAccept (ts_ID s))"
  using assms by (simp add: Apply_def applyKey_def applyKeyApprovals_def applyKeyRows_def applyMetaPanelDigitKey_def
      suggestion_key_def a_rune_def pressed_def Let_def)

section \<open>Painting\<close>

datatype paint = Paint_full string | Paint_line nat string

definition paint_bytes :: "paint \<Rightarrow> string" where
  "paint_bytes p =
     (case p of
        Paint_full frame \<Rightarrow> [esc_byte] @ ''[H'' @ [esc_byte] @ ''[2J'' @ frame
      | Paint_line r s \<Rightarrow> [esc_byte] @ ''['' @ itoa (int r) @ '';1H'' @ s @ [esc_byte] @ ''[K'')"

definition newline :: char where "newline = char_of (10 :: nat)"
definition carriage :: string where "carriage = [char_of (13 :: nat)]"

definition writeDeltaFrame :: "string \<Rightarrow> string \<Rightarrow> paint list" where
  "writeDeltaFrame frame prev =
     (if prev = [] then [Paint_full frame]
      else let prevLines = split_on newline prev; currLines = split_on newline frame in
        if length prevLines \<noteq> length currLines then [Paint_full frame]
        else concat (map (\<lambda>i. if currLines ! i = prevLines ! i then []
               else [Paint_line (i + 1) (trim_suffix (currLines ! i) carriage)]) [0..<length currLines]))"

text \<open>The rows a terminal shows: a full frame sets them all, a line replaces one.\<close>

definition frame_rows :: "string \<Rightarrow> string list" where
  "frame_rows frame = map (\<lambda>l. trim_suffix l carriage) (split_on newline frame)"

fun painted :: "paint \<Rightarrow> string list \<Rightarrow> string list" where
  "painted (Paint_full frame) screen = frame_rows frame"
| "painted (Paint_line r s) screen = screen[r - 1 := s]"

lemma fold_painted_lines:
  assumes "length ps = length cs" "n \<le> length cs"
  shows "fold painted (concat (map (\<lambda>i. if cs ! i = ps ! i then [] else [Paint_line (i + 1) (trim_suffix (cs ! i) carriage)]) [0..<n]))
      (map (\<lambda>l. trim_suffix l carriage) ps)
    = map (\<lambda>l. trim_suffix l carriage) (take n cs @ drop n ps)"
  using assms(2)
proof (induction n)
  case (Suc n)
  have d: "drop n ps = ps ! n # drop (Suc n) ps" using Suc.prems assms(1) by (simp add: Cons_nth_drop_Suc)
  have t: "take (Suc n) cs = take n cs @ [cs ! n]" using Suc.prems by (simp add: take_Suc_conv_app_nth)
  show ?case using Suc d t by (auto simp: list_update_append)
qed simp

text \<open>
  The screen shows the frame. Painting only the lines that differ from the previous frame leaves
  the same rows on the screen as painting the whole frame, and an unchanged frame writes nothing.
\<close>

lemma delta_paints_frame:
  assumes "prev \<noteq> [] \<longrightarrow> screen = frame_rows prev"
  shows "fold painted (writeDeltaFrame frame prev) screen = frame_rows frame \<and> (prev \<noteq> [] \<longrightarrow> writeDeltaFrame prev prev = [])"
proof -
  have "fold painted (writeDeltaFrame frame prev) screen = frame_rows frame"
    using assms fold_painted_lines [of "split_on newline prev" "split_on newline frame" "length (split_on newline frame)"]
    by (auto simp: writeDeltaFrame_def Let_def frame_rows_def)
  then show ?thesis by (simp add: writeDeltaFrame_def)
qed

lemma delta_paints_frame_example:
  "fold painted (writeDeltaFrame (''x'' @ [newline] @ ''c'') (''a'' @ [newline] @ ''c'')) [''a'', ''c''] = [''x'', ''c'']"
proof -
  have "frame_rows (''a'' @ [newline] @ ''c'') = [''a'', ''c'']" "frame_rows (''x'' @ [newline] @ ''c'') = [''x'', ''c'']" by code_simp+
  then show ?thesis
    using delta_paints_frame [of "''a'' @ [newline] @ ''c''" "[''a'', ''c'']" "''x'' @ [newline] @ ''c''"] by simp
qed

section \<open>Scrolling\<close>

definition urlsScrollOffset :: "int \<Rightarrow> int \<Rightarrow> int \<Rightarrow> int" where
  "urlsScrollOffset cursorRow bodyRows n =
     (if bodyRows \<le> 0 \<or> n \<le> bodyRows then 0
      else let first = cursorRow - bodyRows div 2; first = (if first < 0 then 0 else first) in
        if first > n - bodyRows then n - bodyRows else first)"

definition opsScrollOffset :: "int \<Rightarrow> int \<Rightarrow> int \<Rightarrow> int" where
  "opsScrollOffset cursor rows n =
     (if rows \<le> 0 \<or> n \<le> rows then 0
      else let first = n - rows in if cursor \<ge> 0 \<and> cursor < first then cursor else first)"

definition in_view :: "int \<Rightarrow> int \<Rightarrow> int \<Rightarrow> int \<Rightarrow> bool" where
  "in_view first cursor rows n \<longleftrightarrow> 0 \<le> first \<and> first \<le> cursor \<and> cursor < first + rows \<and> (rows < n \<longrightarrow> first + rows \<le> n)"

text \<open>
  The cursor is always in view. Wherever the cursor stands in a list that has at least one visible
  row, both panes scroll so that its row is drawn and no row past the end is; and without a cursor
  below the window the operations pane shows the end of the list, where the waiting requests are.
\<close>

lemma cursor_in_view:
  assumes "0 \<le> cursor" "cursor < n" "0 < rows"
  shows "in_view (urlsScrollOffset cursor rows n) cursor rows n \<and> in_view (opsScrollOffset cursor rows n) cursor rows n
    \<and> (n - rows \<le> cursor \<longrightarrow> rows < n \<longrightarrow> opsScrollOffset cursor rows n = n - rows)"
  using assms by (auto simp: in_view_def urlsScrollOffset_def opsScrollOffset_def Let_def)

lemma cursor_in_view_example: "in_view (opsScrollOffset 2 5 20) 2 5 20 \<and> in_view (urlsScrollOffset 19 5 20) 19 5 20"
  using cursor_in_view [of 2 20 5] cursor_in_view [of 19 20 5] by simp

text \<open>The entries of a list that the pane shows.\<close>

definition filterListEntries :: "string list \<Rightarrow> string list" where
  "filterListEntries es = filter (\<lambda>t. t \<noteq> [] \<and> \<not> has_prefix t ''#'') (map trim_space es)"

end
