(* ===== verification/OperatorRun.thy ===== *)
theory OperatorRun
  imports OperatorClient TuiActions TuiTerminal
begin

text \<open>
  The runtime of the operator console (\<open>runLoop\<close>, \<open>tickRefresh\<close> and \<open>consoleWorker\<close> of
  \<open>internal/tui/approvals.go\<close>): what a command of the reducer makes the client do and which events come
  back, over the state of the daemon. A call of the client runs without interruption; the goroutines of
  a refresh deliver in the order they are started. The text of console lines and of errors of the
  configuration is a parameter, as is a panic of the backend, which the console lines contain.
\<close>

section \<open>The runtime\<close>

datatype job = Line_job string | Accept_job string string "string list"

record runtime_env =
  rn_client :: "client_op \<Rightarrow> control_world \<Rightarrow> client_result"
  rn_backend :: "backend option"
  rn_console :: console_env
  rn_render :: "console_line list \<Rightarrow> string"
  rn_configError :: "config_error \<Rightarrow> string"

record runtime =
  rt_world :: control_world
  rt_jobs :: "job list"
  rt_events :: "event list"

definition result_error :: "string + client_value \<Rightarrow> string option" where
  "result_error r = (case r of Inl e \<Rightarrow> Some e | Inr _ \<Rightarrow> None)"

text \<open>\<open>errors.Is(err, controlclient.ErrHoldNotFound)\<close>: both clients wrap it in front of the id.\<close>

definition action_error :: "string + client_value \<Rightarrow> (string \<times> bool) option" where
  "action_error r = map_option (\<lambda>e. (e, has_prefix e (ErrHoldNotFound @ '': ''))) (result_error r)"

definition holds_event :: "string + client_value \<Rightarrow> event" where
  "holds_event r = TickResult (case r of Inr (Holds_value hs) \<Rightarrow> hs | _ \<Rightarrow> []) (result_error r)"

definition ops_event :: "string + client_value \<Rightarrow> event" where
  "ops_event r = OpsTickResult (case r of Inr (Ops_value ps) \<Rightarrow> ps | _ \<Rightarrow> []) (result_error r)"

definition reload_event :: "string + client_value \<Rightarrow> event" where
  "reload_event r = ReloadTickResult (case r of Inr (Reload_value st) \<Rightarrow> st | _ \<Rightarrow> zero_status) (result_error r)"

definition suggestion_event :: "bool \<Rightarrow> string + client_value \<Rightarrow> event" where
  "suggestion_event onDemand r =
     SuggestionTickResult (case r of Inr (Suggestion_value s) \<Rightarrow> s | _ \<Rightarrow> None) (result_error r) onDemand"

definition open_event :: "string + client_value \<Rightarrow> event" where
  "open_event r = (case r of Inr (Open_value active until) \<Rightarrow> OpenModeResult active until None
     | _ \<Rightarrow> OpenModeResult False zero_time (result_error r))"

definition digest_event :: "string + client_value \<Rightarrow> event" where
  "digest_event r = DigestTickResult (case r of Inr (Digests_value ds) \<Rightarrow> ds | _ \<Rightarrow> []) (result_error r)"

definition urls_event :: "string + client_value \<Rightarrow> event" where
  "urls_event r =
     (case r of
        Inr (URLs_value allow deny True) \<Rightarrow> URLsTickResult (filterListEntries allow) (filterListEntries deny) False None
      | _ \<Rightarrow> URLsTickResult [] [] False (result_error r))"

definition local_urls_event :: "runtime_env \<Rightarrow> string \<Rightarrow> files \<Rightarrow> event" where
  "local_urls_event env path fs =
     (case load_config (rn_console env) path fs of
        Inl e \<Rightarrow> URLsTickResult [] [] True (Some (rn_configError env e))
      | Inr (c, _) \<Rightarrow> URLsTickResult (filterListEntries (cf_ListsAllow c)) (filterListEntries (cf_ListsDeny c)) True None)"

text \<open>One call of the client, and the event made of its result.\<close>

definition call :: "runtime_env \<Rightarrow> client_op \<Rightarrow> (string + client_value \<Rightarrow> event) \<Rightarrow> runtime \<Rightarrow> runtime" where
  "call env x f rt = (case rn_client env x (rt_world rt) of (w', r) \<Rightarrow>
     rt\<lparr>rt_world := w', rt_events := rt_events rt @ [f r]\<rparr>)"

text \<open>The channel of jobs holds eight; a job that does not fit is answered at once.\<close>

definition busy :: string where
  "busy = ''console busy: a prior command is still running'' @ [char_of (10 :: nat)]"

definition job_title :: "job \<Rightarrow> string" where
  "job_title j = (case j of Line_job l \<Rightarrow> l | Accept_job l pat _ \<Rightarrow> ''generalize '' @ l @ '' '' @ pat)"

definition submit :: "job \<Rightarrow> runtime \<Rightarrow> runtime" where
  "submit j rt = (if length (rt_jobs rt) < 8 then rt\<lparr>rt_jobs := rt_jobs rt @ [j]\<rparr>
     else rt\<lparr>rt_events := rt_events rt @ [ConsoleExecResult (job_title j) busy False]\<rparr>)"

fun start_command :: "runtime_env \<Rightarrow> cmd \<Rightarrow> runtime \<Rightarrow> runtime" where
  "start_command env CmdRefresh rt =
     call env ClientReloadStatus reload_event (call env RecentOps ops_event (call env ListHolds holds_event rt))"
| "start_command env (CmdApprove hid meth url) rt =
     call env (ApproveHold hid) (\<lambda>r. ActionResult \<lparr>ar_ID = hid, ar_Action = ''approve'', ar_Method = meth, ar_URL = url,
       ar_Err = action_error r\<rparr>) rt"
| "start_command env (CmdDeny hid meth url) rt =
     call env (DenyHold hid ''operator denied'') (\<lambda>r. ActionResult \<lparr>ar_ID = hid, ar_Action = ''deny'', ar_Method = meth,
       ar_URL = url, ar_Err = action_error r\<rparr>) rt"
| "start_command env (CmdOpenMode closing) rt = call env (if closing then CloseOpen else ExtendOpen) open_event rt"
| "start_command env (CmdSuggestionAccept sid) rt =
     call env (AcceptSuggestion sid) (\<lambda>r. SuggestionActionResult ''accept'' (result_error r)) rt"
| "start_command env (CmdSuggestionDecline sid) rt =
     call env (DeclineSuggestion sid) (\<lambda>r. SuggestionActionResult ''decline'' (result_error r)) rt"
| "start_command env (CmdSuggestionSkip sid) rt =
     call env (SkipSuggestion sid) (\<lambda>r. SuggestionActionResult ''skip'' (result_error r)) rt"
| "start_command env CmdSuggestNow rt = call env SuggestNow (suggestion_event True) rt"
| "start_command env CmdDigestRefresh rt = call env RecentLLMDigests digest_event rt"
| "start_command env CmdURLsRefresh rt =
     (let path = (case rn_backend env of None \<Rightarrow> [] | Some b \<Rightarrow> bk_ConfigPath b) in
      if path = [] then call env RecentURLs urls_event rt
      else rt\<lparr>rt_events := rt_events rt @ [local_urls_event env path (cw_files (rt_world rt))]\<rparr>)"
| "start_command env (CmdConsoleExec line) rt = submit (Line_job line) rt"
| "start_command env (CmdGeneralizeAccept l pat sources) rt = submit (Accept_job l pat sources) rt"
| "start_command env _ rt = rt"

text \<open>\<open>tickRefresh\<close>: the five calls of one tick.\<close>

definition tick :: "runtime_env \<Rightarrow> runtime \<Rightarrow> runtime" where
  "tick env rt = call env OpenModeState open_event (call env ActiveSuggestion (suggestion_event False)
     (call env ClientReloadStatus reload_event (call env RecentOps ops_event (call env ListHolds holds_event rt))))"

text \<open>\<open>consoleWorker\<close>: one job; without a backend a command does nothing.\<close>

definition run_job :: "runtime_env \<Rightarrow> job \<Rightarrow> files \<Rightarrow> console_result" where
  "run_job env j fs =
     (case rn_backend env of
        None \<Rightarrow> says fs []
      | Some b \<Rightarrow>
          (case j of
             Line_job line \<Rightarrow> Execute (rn_console env) b line fs
           | Accept_job l pat sources \<Rightarrow> AcceptGeneralization (rn_console env) b l pat sources fs))"

definition worker_step :: "runtime_env \<Rightarrow> runtime \<Rightarrow> runtime" where
  "worker_step env rt =
     (case rt_jobs rt of
        [] \<Rightarrow> rt
      | j # js \<Rightarrow>
          let r = run_job env j (cw_files (rt_world rt)); quits = (case j of Line_job _ \<Rightarrow> xr_quit r | _ \<Rightarrow> False) in
          rt\<lparr>rt_world := (rt_world rt)\<lparr>cw_files := xr_files r\<rparr>, rt_jobs := js,
             rt_events := rt_events rt @ [ConsoleExecResult (job_title j) (rn_render env (xr_out r)) quits]\<rparr>)"

section \<open>From a key to the waiting request\<close>

lemma pending_row_decision:
  assumes "tm_GenCard m = None" "tm_Focused m = PaneApprovals" "DisplayedOps (ue_parse env) m = Some rows"
    and "row_at rows (tm_Selected m) = Some d" "op_Status (dp_Op d) = ''pending''" "op_HoldID (dp_Op d) \<noteq> []"
  shows "\<exists>m'. Apply env m (demo_key (if allow then CHR ''a'' else CHR ''d'')) = Some (m', row_decision allow (dp_Op d))"
proof -
  have "DisplayedOps (ue_parse env) (m\<lparr>tm_LastInputTicks := 0\<rparr>) = Some rows" using assms(3) by (simp add: DisplayedOps_shown)
  then show ?thesis using assms(1,2,4-6)
    by (cases allow; cases "tm_Suggestion m")
      (auto simp: Apply_def applyKey_def applyKeyApprovals_def applyKeyRows_def suggestion_key_def demo_key_def pressed_def
        applyMetaPanelDigitKey_def decide_row_def row_decision_def Let_def)
qed

lemma sends_exact:
  assumes "b \<in> set cs" "b < length (q_chans q)" "q_chans q ! b = None"
  shows "q_chans (fold (send v) cs q) ! b = Some v"
proof -
  have keep: "q_chans q ! b = Some v \<Longrightarrow> q_chans (fold (send v) cs q) ! b = Some v" for cs and q :: queue
  proof (induction cs arbitrary: q)
    case (Cons c cs)
    have "q_chans (send v c q) ! b = Some v" using Cons.prems by (cases "c = b") (simp_all add: send_def)
    then show ?case using Cons.IH by simp
  qed simp
  show ?thesis using assms
  proof (induction cs arbitrary: q)
    case (Cons c cs)
    show ?case
    proof (cases "b = c")
      case True
      then have "q_chans (send v c q) ! b = Some v" using Cons.prems by (simp add: send_def)
      then show ?thesis using keep by simp
    next
      case False
      then show ?thesis using Cons by (auto simp: send_def nth_list_update)
    qed
  qed simp
qed

lemma sends_holds: "q_holds (fold (send v) cs q) = q_holds q" for q :: queue
  by (induction cs arbitrary: q) (simp_all add: send_def)

text \<open>What resolving a waiting hold does.\<close>

lemma resolve_waiting:
  fixes q :: queue
  assumes "items_ok q" "map_of (q_items q) hid = Some a" "\<not> h_resolved (q_holds q ! a)" "a < length (q_holds q)"
    and "\<forall>c \<in> set (h_waiters (q_holds q ! a)). c < length (q_chans q) \<and> q_chans q ! c = None"
    and "\<And>h b. dec (h\<lparr>h_resolved := b\<rparr>) = dec h" and "resolve hid dec p q = (q', r)"
  shows "r \<and> (\<forall>c \<in> set (h_waiters (q_holds q ! a)). q_chans q' ! c = Some (dec (q_holds q ! a)))
    \<and> hid \<notin> sn_ID ` set (Pending q')"
proof -
  let ?h = "q_holds q ! a" and ?q1 = "q\<lparr>q_holds := (q_holds q)[a := (q_holds q ! a)\<lparr>h_resolved := True\<rparr>],
    q_items := adel hid (q_items q), q_byKey := (q_byKey q)(h_dedupKey (q_holds q ! a) := None)\<rparr>"
  have cl: "claim hid q = (?q1, Some a)" using assms(2,3) by (simp add: claim_def Let_def)
  let ?q2 = "fold (send (dec ?h)) (h_waiters ?h) ?q1"
  have q': "q' = persist a p ?q2" "r"
    using assms(4,6,7) cl by (auto simp: resolve_def broadcast_def)
  have p: "q_chans q' = q_chans ?q2" "q_items q' = q_items ?q2" "q_holds q' = q_holds ?q2"
    unfolding q'(1) by (auto simp: persist_def split: option.splits)
  have "q_chans q' ! c = Some (dec ?h)" if "c \<in> set (h_waiters ?h)" for c
    unfolding p(1) using that assms(5) by (intro sends_exact) auto
  moreover have "hid \<notin> sn_ID ` set (Pending q')"
  proof -
    have i: "q_items q' = adel hid (q_items q)" by (simp add: p(2) sends_items)
    have h: "h_ID (q_holds q' ! b) = h_ID (q_holds q ! b)" for b
      by (cases "b = a") (auto simp: p(3) sends_holds nth_list_update assms(4))
    have "h_ID (q_holds q' ! b) = k \<and> k \<noteq> hid" if "(k, b) \<in> set (adel hid (q_items q))" for k b
      using that assms(1) h by (auto simp: adel_def items_ok_def)
    then show ?thesis by (force simp: Pending_def i snapshot_of_def)
  qed
  ultimately show ?thesis using q'(2) by blast
qed

definition verdict_of :: "bool \<Rightarrow> hold \<Rightarrow> decision" where
  "verdict_of allow h = (if allow then approve_decision h ''once'' else deny_decision h ''operator denied'')"

text \<open>
  C20: one key decides the waiting request. With the cursor on the row of a hold that is waiting, the
  key a or d makes the console of the daemon deliver that verdict to every connection that waits on the
  hold, takes the hold off the list of pending requests, and reports success.
\<close>

theorem keystroke_decides_hold:
  assumes "tm_GenCard m = None" "tm_Focused m = PaneApprovals" "DisplayedOps (ue_parse uenv) m = Some rows"
    and "row_at rows (tm_Selected m) = Some d" "op_Status (dp_Op d) = ''pending''" "op_HoldID (dp_Op d) \<noteq> []"
    and "rn_client env = inProcessClient cenv" "cw_queue (rt_world rt) = q"
    and "items_ok q" "map_of (q_items q) (op_HoldID (dp_Op d)) = Some a" "\<not> h_resolved (q_holds q ! a)" "a < length (q_holds q)"
    and "\<forall>c \<in> set (h_waiters (q_holds q ! a)). c < length (q_chans q) \<and> q_chans q ! c = None"
  shows "\<exists>m' c rt'. Apply uenv m (demo_key (if allow then CHR ''a'' else CHR ''d'')) = Some (m', c) \<and> start_command env c rt = rt'
    \<and> (\<forall>b \<in> set (h_waiters (q_holds q ! a)). q_chans (cw_queue (rt_world rt')) ! b = Some (verdict_of allow (q_holds q ! a)))
    \<and> op_HoldID (dp_Op d) \<notin> sn_ID ` set (Pending (cw_queue (rt_world rt')))
    \<and> rt_events rt' = rt_events rt @ [ActionResult \<lparr>ar_ID = op_HoldID (dp_Op d), ar_Action = (if allow then ''approve'' else ''deny''),
        ar_Method = op_Method (dp_Op d), ar_URL = op_URL (dp_Op d), ar_Err = None\<rparr>]"
proof -
  let ?hid = "op_HoldID (dp_Op d)" and ?dec = "verdict_of allow"
  obtain m' where m': "Apply uenv m (demo_key (if allow then CHR ''a'' else CHR ''d'')) = Some (m', row_decision allow (dp_Op d))"
    using pending_row_decision [OF assms(1-6), of allow] by blast
  define p where "p = Some (if allow then EffectAllow else EffectDeny, ''tui'')"
  obtain q' r where v: "resolve ?hid ?dec p q = (q', r)" by (metis surj_pair)
  have dec: "?dec (h\<lparr>h_resolved := b\<rparr>) = ?dec h" for h b by (simp add: verdict_of_def approve_decision_def deny_decision_def)
  note out = resolve_waiting [OF assms(9-13) dec v]
  have ops: "inProcessClient cenv (if allow then ApproveHold ?hid else DenyHold ?hid ''operator denied'') (rt_world rt)
      = ((rt_world rt)\<lparr>cw_queue := q'\<rparr>, Inr Unit_value)"
    using v out assms(8) by (cases allow) (simp_all add: resolved_def Approve_def Deny_def p_def verdict_of_def [abs_def])
  let ?rt = "start_command env (row_decision allow (dp_Op d)) rt"
  have rt: "?rt = rt\<lparr>rt_world := (rt_world rt)\<lparr>cw_queue := q'\<rparr>,
      rt_events := rt_events rt @ [ActionResult \<lparr>ar_ID = ?hid, ar_Action = (if allow then ''approve'' else ''deny''),
        ar_Method = op_Method (dp_Op d), ar_URL = op_URL (dp_Op d), ar_Err = None\<rparr>]\<rparr>"
    using ops assms(7) by (cases allow) (simp_all add: row_decision_def call_def action_error_def result_error_def)
  have w: "cw_queue (rt_world ?rt) = q'" unfolding rt by simp
  have e: "rt_events ?rt = rt_events rt @ [ActionResult \<lparr>ar_ID = ?hid, ar_Action = (if allow then ''approve'' else ''deny''),
        ar_Method = op_Method (dp_Op d), ar_URL = op_URL (dp_Op d), ar_Err = None\<rparr>]"
    unfolding rt by simp
  show ?thesis
    by (rule exI [of _ m'], rule exI [of _ "row_decision allow (dp_Op d)"], rule exI [of _ ?rt])
      (intro conjI m' refl e; use out in \<open>simp add: w\<close>)
qed

text \<open>A daemon that waits for the hold of \<open>on_waiting\<close>.\<close>

definition demo_run_queue :: queue where
  "demo_run_queue = fst (Enqueue ''h1'' 5 (zero_request\<lparr>ev_Host := ''a.com''\<rparr>) zero_decision (NewQueue 0 minute []))"

definition demo_run_env :: runtime_env where
  "demo_run_env = \<lparr>rn_client = inProcessClient demo_ctl_env, rn_backend = None, rn_console = demo_console (ce_yaml demo_ctl_env),
     rn_render = (\<lambda>_. []), rn_configError = (\<lambda>_. [])\<rparr>"

definition demo_runtime :: runtime where
  "demo_runtime = \<lparr>rt_world = demo_world\<lparr>cw_queue := demo_run_queue\<rparr>, rt_jobs = [], rt_events = []\<rparr>"

theorem keystroke_decides_hold_witness:
  "\<exists>m' c. Apply demo_ui on_waiting (demo_key (CHR ''a'')) = Some (m', c)
     \<and> ''h1'' \<notin> sn_ID ` set (Pending (cw_queue (rt_world (start_command demo_run_env c demo_runtime))))"
proof -
  have q: "items_ok demo_run_queue" "map_of (q_items demo_run_queue) ''h1'' = Some 0" "\<not> h_resolved (q_holds demo_run_queue ! 0)"
    "0 < length (q_holds demo_run_queue)"
    "\<forall>c \<in> set (h_waiters (q_holds demo_run_queue ! 0)). c < length (q_chans demo_run_queue) \<and> q_chans demo_run_queue ! c = None"
    by (simp_all add: demo_run_queue_def Enqueue_def NewQueue_def items_ok_def Let_def)
  have r: "row_at [waiting_row] (tm_Selected on_waiting) = Some waiting_row" "op_Status (dp_Op waiting_row) = ''pending''"
    "op_HoldID (dp_Op waiting_row) = ''h1''"
    by (simp_all add: row_at_def waiting_row_def)
  show ?thesis
    using keystroke_decides_hold [of on_waiting demo_ui "[waiting_row]" waiting_row demo_run_env demo_ctl_env demo_runtime
        demo_run_queue 0 True] q r on_waiting_rows
    by (simp add: demo_run_env_def demo_runtime_def) blast
qed

end
