(* ===== verification/ConfigWatch.thy ===== *)
theory ConfigWatch
  imports Server ReloadStatus
begin

text \<open>
  Hot reload of the configuration: the watcher of \<open>internal/configwatch\<close> with the two reloads of
  \<open>cmd/trollbridge/run.go\<close>, the watcher's callback and \<open>reloadAfterInternalWrite\<close>. Edits from outside,
  the daemon's own writes, the debounced events and the reloads interleave; reading the file, applying
  it and marking it as seen are separate steps. The modification time of every write is new. Decoding
  of the file is a parameter.
\<close>

section \<open>Reloads\<close>

record watch_env =
  we_decode :: "string \<Rightarrow> string + server_config"
  we_rules :: loader
  we_ruleError :: "load_error \<Rightarrow> string"
  we_listError :: "list_error \<Rightarrow> string"
  we_now :: int

record daemon =
  dm_server :: server
  dm_reload :: reload_tracker

text \<open>The callback of the watcher, after \<open>config.Load\<close>.\<close>

definition external_reload :: "watch_env \<Rightarrow> string + server_config \<Rightarrow> daemon \<Rightarrow> daemon" where
  "external_reload env fresh d =
     (case fresh of
        Inl e \<Rightarrow> d\<lparr>dm_reload := RecordReload (we_now env) ''lists'' (Some e) (dm_reload d)\<rparr>
      | Inr cfg \<Rightarrow>
          (case ReloadListsFromConfig cfg (dm_server d) of (s1, listsErr) \<Rightarrow>
             case Reload (we_rules env) (sr_engine s1) of (eng, rulesErr) \<Rightarrow>
               \<lparr>dm_server = ReloadConfig (Some cfg) (s1\<lparr>sr_engine := eng\<rparr>),
                dm_reload = RecordReload (we_now env) ''config'' None
                  (RecordReload (we_now env) ''rules'' (map_option (we_ruleError env) rulesErr)
                    (RecordReload (we_now env) ''lists'' (map_option (we_listError env) listsErr) (dm_reload d)))\<rparr>))"

text \<open>\<open>reloadAfterInternalWrite\<close> before \<open>MarkReloaded\<close>.\<close>

definition internal_reload :: "server_config \<Rightarrow> daemon \<Rightarrow> daemon" where
  "internal_reload cfg d = d\<lparr>dm_server := ReloadConfig (Some cfg) (fst (ReloadListsFromConfig cfg (dm_server d)))\<rparr>"

section \<open>The watcher\<close>

text \<open>How far a reload has come.\<close>

datatype phase = Due | Has_read string | Applied

datatype start_phase = Booting | Stat_taken | Watching

record watch =
  wx_file :: "(nat \<times> string) option"
  wx_clock :: nat
  wx_seen :: "nat option"
  wx_start :: start_phase
  wx_event :: bool
  wx_callbacks :: "phase list"
  wx_internal :: "phase list"
  wx_daemon :: daemon

definition MarkReloaded :: "watch \<Rightarrow> watch" where
  "MarkReloaded w = (case wx_file w of None \<Rightarrow> w | Some (m, _) \<Rightarrow> w\<lparr>wx_seen := Some m\<rparr>)"

definition maybeFireReload :: "watch \<Rightarrow> watch" where
  "maybeFireReload w =
     (case wx_file w of
        None \<Rightarrow> w
      | Some (m, _) \<Rightarrow>
          if wx_seen w = Some m then w
          else w\<lparr>wx_seen := Some m, wx_callbacks := wx_callbacks w @ [Due]\<rparr>)"

text \<open>An event of the directory watch arms the timer; before the watch is established there is none.\<close>

definition scheduleReload :: "watch \<Rightarrow> watch" where
  "scheduleReload w = (if wx_start w = Watching then w\<lparr>wx_event := True\<rparr> else w)"

definition save_file :: "string \<Rightarrow> watch \<Rightarrow> watch" where
  "save_file c w = scheduleReload (w\<lparr>wx_file := Some (wx_clock w, c), wx_clock := Suc (wx_clock w)\<rparr>)"

definition drop_at :: "nat \<Rightarrow> 'a list \<Rightarrow> 'a list" where
  "drop_at i xs = take i xs @ drop (Suc i) xs"

datatype watch_op =
    Edit string | Remove_file | Internal_write string | Start_stat | Start_add | Timer
  | Callback_reads nat | Callback_applies nat | Internal_reads nat | Internal_applies nat | Internal_marks nat

text \<open>One step; \<open>None\<close> when it is not possible.\<close>

fun watch_do :: "watch_env \<Rightarrow> watch_op \<Rightarrow> watch \<Rightarrow> watch option" where
  "watch_do env (Edit c) w = Some (save_file c w)"
| "watch_do env Remove_file w = Some (scheduleReload (w\<lparr>wx_file := None\<rparr>))"
| "watch_do env (Internal_write c) w = Some ((save_file c w)\<lparr>wx_internal := wx_internal w @ [Due]\<rparr>)"
| "watch_do env Start_stat w =
     (if wx_start w = Booting then Some ((MarkReloaded w)\<lparr>wx_start := Stat_taken\<rparr>) else None)"
| "watch_do env Start_add w = (if wx_start w = Stat_taken then Some (w\<lparr>wx_start := Watching\<rparr>) else None)"
| "watch_do env Timer w = (if wx_event w then Some (maybeFireReload (w\<lparr>wx_event := False\<rparr>)) else None)"
| "watch_do env (Callback_reads i) w =
     (if i < length (wx_callbacks w) \<and> wx_callbacks w ! i = Due then
        (case wx_file w of
           None \<Rightarrow> Some (w\<lparr>wx_callbacks := drop_at i (wx_callbacks w),
             wx_daemon := external_reload env (Inl ''no such file'') (wx_daemon w)\<rparr>)
         | Some (_, c) \<Rightarrow> Some (w\<lparr>wx_callbacks := (wx_callbacks w)[i := Has_read c]\<rparr>))
      else None)"
| "watch_do env (Callback_applies i) w =
     (if i < length (wx_callbacks w) then
        (case wx_callbacks w ! i of
           Has_read c \<Rightarrow> Some (w\<lparr>wx_callbacks := drop_at i (wx_callbacks w),
             wx_daemon := external_reload env (we_decode env c) (wx_daemon w)\<rparr>)
         | _ \<Rightarrow> None)
      else None)"
| "watch_do env (Internal_reads i) w =
     (if i < length (wx_internal w) \<and> wx_internal w ! i = Due then
        (case wx_file w of
           None \<Rightarrow> Some (w\<lparr>wx_internal := drop_at i (wx_internal w)\<rparr>)
         | Some (_, c) \<Rightarrow> Some (w\<lparr>wx_internal := (wx_internal w)[i := Has_read c]\<rparr>))
      else None)"
| "watch_do env (Internal_applies i) w =
     (if i < length (wx_internal w) then
        (case wx_internal w ! i of
           Has_read c \<Rightarrow>
             (case we_decode env c of
                Inl _ \<Rightarrow> Some (w\<lparr>wx_internal := drop_at i (wx_internal w)\<rparr>)
              | Inr cfg \<Rightarrow> Some (w\<lparr>wx_internal := (wx_internal w)[i := Applied], wx_daemon := internal_reload cfg (wx_daemon w)\<rparr>))
         | _ \<Rightarrow> None)
      else None)"
| "watch_do env (Internal_marks i) w =
     (if i < length (wx_internal w) \<and> wx_internal w ! i = Applied then
        Some (MarkReloaded (w\<lparr>wx_internal := drop_at i (wx_internal w)\<rparr>))
      else None)"

fun watch_run :: "watch_env \<Rightarrow> watch_op list \<Rightarrow> watch \<Rightarrow> watch option" where
  "watch_run env [] w = Some w"
| "watch_run env (x # xs) w = (case watch_do env x w of None \<Rightarrow> None | Some w' \<Rightarrow> watch_run env xs w')"

definition quiescent :: "watch \<Rightarrow> bool" where
  "quiescent w \<longleftrightarrow> wx_start w = Watching \<and> \<not> wx_event w \<and> wx_callbacks w = [] \<and> wx_internal w = []"

text \<open>What a server that runs a configuration looks like; lists with a bad line leave the lists alone.\<close>

definition runs_config :: "server_config \<Rightarrow> server \<Rightarrow> bool" where
  "runs_config cfg s \<longleftrightarrow> sr_cfg s = cfg \<and> en_mode (sr_engine s) = sc_Mode cfg
     \<and> (\<forall>a d. LoadInline ''allow'' ''trollbridge.yaml:lists.allow'' (sc_ListsAllow cfg) = Inr a \<longrightarrow>
          LoadInline ''deny'' ''trollbridge.yaml:lists.deny'' (sc_ListsDeny cfg) = Inr d \<longrightarrow>
          sr_allowList s = Some a \<and> sr_denyList s = Some d)"

definition current :: "watch_env \<Rightarrow> watch \<Rightarrow> bool" where
  "current env w \<longleftrightarrow> (\<forall>m c cfg. wx_file w = Some (m, c) \<longrightarrow> we_decode env c = Inr cfg \<longrightarrow> runs_config cfg (dm_server (wx_daemon w)))"

text \<open>A schedule in which a write does not fall into the daemon's own reload of another write, nor a
  callback into another one, and nothing is written before the watch is established.\<close>

fun careful :: "watch_op \<Rightarrow> watch \<Rightarrow> bool" where
  "careful (Edit c) w = (wx_start w = Watching \<and> wx_internal w = [])"
| "careful Remove_file w = (wx_start w = Watching \<and> wx_internal w = [])"
| "careful (Internal_write c) w = (wx_start w = Watching \<and> wx_internal w = [] \<and> wx_callbacks w = [])"
| "careful Timer w = (wx_callbacks w = [])"
| "careful _ w = True"

fun careful_run :: "watch_env \<Rightarrow> watch_op list \<Rightarrow> watch \<Rightarrow> bool" where
  "careful_run env [] w = True"
| "careful_run env (x # xs) w = (careful x w \<and> (case watch_do env x w of None \<Rightarrow> False | Some w' \<Rightarrow> careful_run env xs w'))"

section \<open>A reload runs the configuration\<close>

definition mode_sync :: "server \<Rightarrow> bool" where
  "mode_sync s \<longleftrightarrow> en_mode (sr_engine s) = sc_Mode (sr_cfg s)"

lemma runs_sync: "runs_config cfg s \<Longrightarrow> mode_sync s"
  by (simp add: runs_config_def mode_sync_def)

lemma Reload_mode [frames]: "en_mode (fst (Reload ld e)) = en_mode e"
  by (simp add: Reload_def split: sum.split prod.split)

lemma ReloadConfig_fields [frames]:
  "sr_cfg (ReloadConfig (Some cfg) s) = cfg"
  "en_mode (sr_engine (ReloadConfig (Some cfg) s)) = (if sc_Mode cfg \<noteq> sc_Mode (sr_cfg s) then sc_Mode cfg else en_mode (sr_engine s))"
  "sr_allowList (ReloadConfig (Some cfg) s) = sr_allowList s" "sr_denyList (ReloadConfig (Some cfg) s) = sr_denyList s"
  by (simp_all add: ReloadConfig_def Let_def SetMode_def)

lemma SetLists_fields [frames]:
  "sr_cfg (fst (SetLists a d s)) = sr_cfg s" "sr_engine (fst (SetLists a d s)) = sr_engine s"
  "LoadInline ''allow'' ''trollbridge.yaml:lists.allow'' a = Inr x \<Longrightarrow> LoadInline ''deny'' ''trollbridge.yaml:lists.deny'' d = Inr y \<Longrightarrow>
    sr_allowList (fst (SetLists a d s)) = Some x \<and> sr_denyList (fst (SetLists a d s)) = Some y"
  by (simp_all add: SetLists_def split: sum.split)

lemma internal_runs: "mode_sync (dm_server d) \<Longrightarrow> runs_config cfg (dm_server (internal_reload cfg d))"
  by (simp add: internal_reload_def runs_config_def mode_sync_def ReloadListsFromConfig_def frames)

lemma external_runs:
  assumes "mode_sync (dm_server d)"
  shows "runs_config cfg (dm_server (external_reload env (Inr cfg) d))"
proof -
  obtain s1 le where 1: "ReloadListsFromConfig cfg (dm_server d) = (s1, le)" by (metis surj_pair)
  obtain eng re where 2: "Reload (we_rules env) (sr_engine s1) = (eng, re)" by (metis surj_pair)
  have s1: "s1 = fst (SetLists (sc_ListsAllow cfg) (sc_ListsDeny cfg) (dm_server d))"
    using 1 by (simp add: ReloadListsFromConfig_def)
  have "en_mode eng = en_mode (sr_engine s1)" using Reload_mode [of "we_rules env" "sr_engine s1"] 2 by simp
  note 3 = 2 [unfolded s1 SetLists_fields]
  show ?thesis
    using assms \<open>en_mode eng = en_mode (sr_engine s1)\<close> by (simp add: external_reload_def 1 3 runs_config_def mode_sync_def s1 frames)
qed

lemma external_keeps: "dm_server (external_reload env (Inl e) d) = dm_server d"
  by (simp add: external_reload_def)

lemma reload_sync:
  "mode_sync (dm_server d) \<Longrightarrow> mode_sync (dm_server (external_reload env r d))"
  "mode_sync (dm_server d) \<Longrightarrow> mode_sync (dm_server (internal_reload cfg d))"
  using external_runs internal_runs runs_sync external_keeps by (metis sum.exhaust)+

section \<open>The invariant of careful schedules\<close>

definition shows_content :: "watch_env \<Rightarrow> string \<Rightarrow> daemon \<Rightarrow> bool" where
  "shows_content env c d \<longleftrightarrow> (\<forall>cfg. we_decode env c = Inr cfg \<longrightarrow> runs_config cfg (dm_server d))"

lemma current_shows: "current env w \<longleftrightarrow> (\<forall>m c. wx_file w = Some (m, c) \<longrightarrow> shows_content env c (wx_daemon w))"
  by (auto simp: current_def shows_content_def)

lemma shows_reload:
  "mode_sync (dm_server d) \<Longrightarrow> shows_content env c (external_reload env (we_decode env c) d)"
  "mode_sync (dm_server d) \<Longrightarrow> we_decode env c = Inr cfg \<Longrightarrow> shows_content env c (internal_reload cfg d)"
  "we_decode env c = Inl e \<Longrightarrow> shows_content env c d"
  by (simp_all add: shows_content_def external_runs internal_runs)

text \<open>The part of the invariant about an existing file.\<close>

definition tracked :: "watch_env \<Rightarrow> nat \<Rightarrow> string \<Rightarrow> watch \<Rightarrow> bool" where
  "tracked env m c w \<longleftrightarrow> m < wx_clock w
     \<and> (wx_seen w \<noteq> Some m \<longrightarrow> wx_event w \<or> wx_start w = Booting)
     \<and> (wx_seen w = Some m \<or> wx_internal w \<noteq> [] \<longrightarrow> wx_callbacks w \<in> {[], [Due], [Has_read c]})
     \<and> wx_internal w \<in> {[], [Due], [Has_read c], [Applied]}
     \<and> (wx_internal w = [Applied] \<longrightarrow> shows_content env c (wx_daemon w))
     \<and> (wx_start w = Booting \<longrightarrow> shows_content env c (wx_daemon w))
     \<and> (wx_seen w = Some m \<longrightarrow> wx_callbacks w = [] \<longrightarrow> wx_internal w \<noteq> [Due] \<longrightarrow> wx_internal w \<noteq> [Has_read c] \<longrightarrow>
          shows_content env c (wx_daemon w))"

definition watch_inv :: "watch_env \<Rightarrow> watch \<Rightarrow> bool" where
  "watch_inv env w \<longleftrightarrow> mode_sync (dm_server (wx_daemon w)) \<and> length (wx_callbacks w) \<le> 1 \<and> Applied \<notin> set (wx_callbacks w)
     \<and> (\<forall>k. wx_seen w = Some k \<longrightarrow> k < wx_clock w)
     \<and> (wx_start w \<noteq> Watching \<longrightarrow> \<not> wx_event w \<and> wx_callbacks w = [] \<and> wx_internal w = [])
     \<and> (wx_file w = None \<longrightarrow> wx_internal w = [])
     \<and> (\<forall>m c. wx_file w = Some (m, c) \<longrightarrow> tracked env m c w)"

lemma length_le_1: "length xs \<le> Suc 0 \<longleftrightarrow> xs = [] \<or> (\<exists>x. xs = [x])"
  by (cases xs; cases "tl xs") auto

lemma drop_at_single [simp]: "drop_at 0 [x] = []"
  by (simp add: drop_at_def)

lemma internal_cases:
  "watch_inv env w \<Longrightarrow> i < length (wx_internal w) \<Longrightarrow>
    \<exists>m c. wx_file w = Some (m, c) \<and> tracked env m c w \<and> i = 0 \<and> wx_internal w \<in> {[Due], [Has_read c], [Applied]}"
  by (cases "wx_file w") (auto simp: watch_inv_def tracked_def)

lemmas watch_facts = watch_inv_def tracked_def save_file_def scheduleReload_def MarkReloaded_def maybeFireReload_def

lemma inv_write:
  "watch_inv env w \<Longrightarrow> careful (Edit c) w \<Longrightarrow> watch_inv env (save_file c w)"
  "watch_inv env w \<Longrightarrow> careful Remove_file w \<Longrightarrow> watch_inv env (scheduleReload (w\<lparr>wx_file := None\<rparr>))"
  "watch_inv env w \<Longrightarrow> careful (Internal_write c) w \<Longrightarrow> watch_inv env ((save_file c w)\<lparr>wx_internal := wx_internal w @ [Due]\<rparr>)"
  by (auto simp: watch_facts less_Suc_eq)

lemma inv_start [inv_intros]:
  "watch_inv env w \<Longrightarrow> wx_start w = Booting \<Longrightarrow> watch_inv env ((MarkReloaded w)\<lparr>wx_start := Stat_taken\<rparr>)"
  "watch_inv env w \<Longrightarrow> wx_start w = Stat_taken \<Longrightarrow> watch_inv env (w\<lparr>wx_start := Watching\<rparr>)"
  by (auto simp: watch_facts split: option.split)

lemma inv_timer [inv_intros]:
  "watch_inv env w \<Longrightarrow> wx_event w \<Longrightarrow> wx_callbacks w = [] \<Longrightarrow> watch_inv env (maybeFireReload (w\<lparr>wx_event := False\<rparr>))"
  by (auto simp: watch_facts split: option.split)

lemma inv_callback:
  assumes "watch_inv env w" "watch_do env x w = Some w'" "x = Callback_reads i \<or> x = Callback_applies i"
  shows "watch_inv env w'"
proof -
  have "i < length (wx_callbacks w)" using assms(2,3) by (auto split: if_splits)
  then obtain p where p: "wx_callbacks w = [p]" "i = 0" using assms(1) by (auto simp: watch_inv_def length_le_1)
  have sync: "mode_sync (dm_server (wx_daemon w))" using assms(1) by (simp add: watch_inv_def)
  show ?thesis
    using assms p sync
    by (cases "wx_file w"; cases p) (auto simp: watch_inv_def tracked_def external_keeps reload_sync shows_reload shows_content_def external_runs)
qed

lemma inv_internal_steps:
  assumes "watch_inv env w" "wx_file w = Some (m, c)"
  shows "wx_internal w = [Due] \<Longrightarrow> watch_inv env (w\<lparr>wx_internal := [Has_read c]\<rparr>)"
    "wx_internal w = [Has_read c] \<Longrightarrow> we_decode env c = Inl e \<Longrightarrow> watch_inv env (w\<lparr>wx_internal := []\<rparr>)"
    "wx_internal w = [Has_read c] \<Longrightarrow> we_decode env c = Inr cfg \<Longrightarrow>
      watch_inv env (w\<lparr>wx_internal := [Applied], wx_daemon := internal_reload cfg (wx_daemon w)\<rparr>)"
    "wx_internal w = [Applied] \<Longrightarrow> watch_inv env (MarkReloaded (w\<lparr>wx_internal := []\<rparr>))"
proof -
  have t: "tracked env m c w" and sync: "mode_sync (dm_server (wx_daemon w))" using assms by (auto simp: watch_inv_def)
  show "wx_internal w = [Due] \<Longrightarrow> watch_inv env (w\<lparr>wx_internal := [Has_read c]\<rparr>)"
    using assms t by (auto simp: watch_inv_def tracked_def)
  show "wx_internal w = [Has_read c] \<Longrightarrow> we_decode env c = Inl e \<Longrightarrow> watch_inv env (w\<lparr>wx_internal := []\<rparr>)"
    using assms t shows_reload(3) [of env c e] by (auto simp: watch_inv_def tracked_def)
  show "watch_inv env (w\<lparr>wx_internal := [Applied], wx_daemon := internal_reload cfg (wx_daemon w)\<rparr>)"
    if "wx_internal w = [Has_read c]" "we_decode env c = Inr cfg"
    using that assms t reload_sync(2) [OF sync, of cfg] shows_reload(2) [OF sync that(2)] by (auto simp: watch_inv_def tracked_def)
  show "wx_internal w = [Applied] \<Longrightarrow> watch_inv env (MarkReloaded (w\<lparr>wx_internal := []\<rparr>))"
    using assms t by (auto simp: watch_inv_def tracked_def MarkReloaded_def)
qed

lemma inv_internal:
  assumes "watch_inv env w" "watch_do env x w = Some w'" "x = Internal_reads i \<or> x = Internal_applies i \<or> x = Internal_marks i"
  shows "watch_inv env w'"
proof -
  have "i < length (wx_internal w)" using assms(2,3) by (auto split: if_splits)
  from internal_cases [OF assms(1) this] obtain m c where
    f: "wx_file w = Some (m, c)" "i = 0" "wx_internal w \<in> {[Due], [Has_read c], [Applied]}" by blast
  note steps = inv_internal_steps [OF assms(1) f(1)]
  from f(3) consider "wx_internal w = [Due]" | "wx_internal w = [Has_read c]" | "wx_internal w = [Applied]" by blast
  then show ?thesis
  proof cases
    case 1 then show ?thesis using assms(2,3) f(1,2) steps(1) by auto
  next
    case 2 then show ?thesis using assms(2,3) f(1,2) steps(2,3) by (cases "we_decode env c") auto
  next
    case 3 then show ?thesis using assms(2,3) f(1,2) steps(4) by auto
  qed
qed

lemma watch_inv_step:
  assumes "watch_inv env w" "careful x w" "watch_do env x w = Some w'"
  shows "watch_inv env w'"
proof (cases x)
  case (Edit c) then show ?thesis using assms inv_write(1) by auto
next
  case Remove_file then show ?thesis using assms inv_write(2) by auto
next
  case (Internal_write c) then show ?thesis using assms inv_write(3) by auto
next
  case Start_stat then show ?thesis using assms by (auto intro: inv_intros split: if_splits)
next
  case Start_add then show ?thesis using assms by (auto intro: inv_intros split: if_splits)
next
  case Timer then show ?thesis using assms by (auto intro: inv_intros split: if_splits)
next
  case (Callback_reads i) then show ?thesis using assms inv_callback by blast
next
  case (Callback_applies i) then show ?thesis using assms inv_callback by blast
next
  case (Internal_reads i) then show ?thesis using assms inv_internal by blast
next
  case (Internal_applies i) then show ?thesis using assms inv_internal by blast
next
  case (Internal_marks i) then show ?thesis using assms inv_internal by blast
qed

lemma inv_run: "watch_inv env w \<Longrightarrow> careful_run env xs w \<Longrightarrow> watch_run env xs w = Some w' \<Longrightarrow> watch_inv env w'"
proof (induction xs arbitrary: w)
  case (Cons x xs)
  then obtain w1 where "careful x w" "watch_do env x w = Some w1" "careful_run env xs w1" "watch_run env xs w1 = Some w'"
    by (auto split: option.splits)
  then show ?case using watch_inv_step [OF Cons.prems(1)] Cons.IH by blast
qed simp

text \<open>The daemon has loaded the configuration; the watch is not established yet.\<close>

definition booted :: "watch_env \<Rightarrow> watch \<Rightarrow> bool" where
  "booted env w \<longleftrightarrow> wx_start w = Booting \<and> \<not> wx_event w \<and> wx_callbacks w = [] \<and> wx_internal w = [] \<and> wx_seen w = None
     \<and> mode_sync (dm_server (wx_daemon w)) \<and> (\<forall>m c. wx_file w = Some (m, c) \<longrightarrow> m < wx_clock w) \<and> current env w"

lemma booted_inv: "booted env w \<Longrightarrow> watch_inv env w"
  by (auto simp: booted_def watch_inv_def tracked_def current_shows)

section \<open>Every schedule comes to rest\<close>

text \<open>The steps of the daemon itself, and how many of them are left.\<close>

fun own_step :: "watch_op \<Rightarrow> bool" where
  "own_step (Edit c) = False" | "own_step Remove_file = False" | "own_step (Internal_write c) = False"
| "own_step _ = True"

fun phase_left :: "phase \<Rightarrow> nat" where
  "phase_left Due = 3" | "phase_left (Has_read c) = 2" | "phase_left Applied = 1"

definition work_left :: "watch \<Rightarrow> nat" where
  "work_left w = (case wx_start w of Booting \<Rightarrow> 2 | Stat_taken \<Rightarrow> 1 | Watching \<Rightarrow> 0) + (if wx_event w then 4 else 0)
     + sum_list (map phase_left (wx_callbacks w)) + sum_list (map phase_left (wx_internal w))"

lemma sum_drop_at: "i < length xs \<Longrightarrow> sum_list (map f (drop_at i xs)) + f (xs ! i) = sum_list (map f xs)" for f :: "'a \<Rightarrow> nat"
proof -
  assume i: "i < length xs"
  have "sum_list (map f xs) = sum_list (map f (take i xs @ xs ! i # drop (Suc i) xs))" using i by (simp add: id_take_nth_drop [symmetric])
  then show ?thesis by (simp add: drop_at_def)
qed

lemma sum_update_at: "i < length xs \<Longrightarrow> sum_list (map f (xs[i := y])) + f (xs ! i) = sum_list (map f xs) + f y" for f :: "'a \<Rightarrow> nat"
  using sum_drop_at [of i "xs[i := y]" f] sum_drop_at [of i xs f] by (simp add: drop_at_def)

lemma phase_progress:
  "i < length xs \<Longrightarrow> xs ! i = Due \<Longrightarrow> sum_list (map phase_left (xs[i := Has_read c])) < sum_list (map phase_left xs)"
  "i < length xs \<Longrightarrow> xs ! i = Has_read c \<Longrightarrow> sum_list (map phase_left (xs[i := Applied])) < sum_list (map phase_left xs)"
  "i < length xs \<Longrightarrow> sum_list (map phase_left (drop_at i xs)) < sum_list (map phase_left xs)"
  using sum_update_at [of i xs phase_left "Has_read c"] sum_update_at [of i xs phase_left Applied]
    sum_drop_at [of i xs phase_left] by (simp, simp, cases "xs ! i") simp_all

lemma own_decreases:
  assumes "own_step x" "watch_do env x w = Some w'"
  shows "work_left w' < work_left w"
proof (cases x)
  case (Callback_reads i)
  then show ?thesis
    using assms
    by (auto simp: work_left_def phase_progress split: if_splits option.splits)
next
  case (Callback_applies i)
  then show ?thesis
    using assms by (auto simp: work_left_def phase_progress split: if_splits phase.splits)
next
  case (Internal_reads i)
  then show ?thesis
    using assms
    by (auto simp: work_left_def phase_progress split: if_splits option.splits)
next
  case (Internal_applies i)
  then show ?thesis
    using assms
    by (auto simp: work_left_def phase_progress split: if_splits phase.splits sum.splits)
next
  case (Internal_marks i)
  then show ?thesis
    using assms
    by (auto simp: work_left_def MarkReloaded_def phase_progress split: if_splits option.splits)
qed (use assms in \<open>auto simp: work_left_def MarkReloaded_def maybeFireReload_def split: if_splits option.splits\<close>)

text \<open>Until it rests, the daemon has a careful step of its own to take.\<close>

lemma own_enabled:
  assumes "watch_inv env w" "\<not> quiescent w"
  shows "\<exists>x w'. own_step x \<and> careful x w \<and> watch_do env x w = Some w'"
proof -
  have step: "\<exists>x w'. own_step x \<and> careful x w \<and> watch_do env x w = Some w'"
    if "own_step x" "careful x w" "watch_do env x w \<noteq> None" for x using that by blast
  have cb: "length (wx_callbacks w) \<le> Suc 0" "Applied \<notin> set (wx_callbacks w)" using assms(1) by (auto simp: watch_inv_def)
  consider "wx_start w \<noteq> Watching" | "wx_callbacks w \<noteq> []" | "wx_internal w \<noteq> []" | "wx_callbacks w = []" "wx_event w"
    using assms(2) by (auto simp: quiescent_def)
  then show ?thesis
  proof cases
    case 1
    then show ?thesis using step [of Start_stat] step [of Start_add] by (cases "wx_start w") auto
  next
    case 2
    then obtain p where p: "wx_callbacks w = [p]" using cb(1) by (auto simp: length_le_1)
    then show ?thesis
      using cb(2) step [of "Callback_reads 0"] step [of "Callback_applies 0"] by (cases p) (auto split: option.splits)
  next
    case 3
    then obtain m c where "wx_file w = Some (m, c)" "wx_internal w \<in> {[Due], [Has_read c], [Applied]}"
      using internal_cases [OF assms(1), of 0] by auto
    then show ?thesis
      using step [of "Internal_reads 0"] step [of "Internal_applies 0"] step [of "Internal_marks 0"]
      by (auto split: sum.splits)
  next
    case 4
    then show ?thesis using step [of Timer] by auto
  qed
qed

lemma own_keeps_file: "own_step x \<Longrightarrow> watch_do env x w = Some w' \<Longrightarrow> wx_file w' = wx_file w"
  by (cases x) (auto simp: MarkReloaded_def maybeFireReload_def split: if_splits option.splits phase.splits sum.splits)

lemma own_run_bound: "list_all own_step xs \<Longrightarrow> watch_run env xs w = Some w' \<Longrightarrow> length xs + work_left w' \<le> work_left w"
proof (induction xs arbitrary: w)
  case (Cons x xs)
  then obtain w1 where 1: "watch_do env x w = Some w1" "watch_run env xs w1 = Some w'" by (auto split: option.splits)
  show ?case using own_decreases [OF _ 1(1)] Cons.IH [OF _ 1(2)] Cons.prems(1) by simp
qed simp

lemma settles:
  "watch_inv env w \<Longrightarrow> \<exists>xs w'. list_all own_step xs \<and> careful_run env xs w \<and> watch_run env xs w = Some w' \<and> quiescent w'
     \<and> wx_file w' = wx_file w"
proof (induction "work_left w" arbitrary: w rule: less_induct)
  case less
  show ?case
  proof (cases "quiescent w")
    case True
    have "list_all own_step [] \<and> careful_run env [] w \<and> watch_run env [] w = Some w" by simp
    with True show ?thesis by blast
  next
    case False
    then obtain x w1 where x: "own_step x" "careful x w" "watch_do env x w = Some w1" using own_enabled less.prems by blast
    from less.hyps [OF own_decreases [OF x(1,3)] watch_inv_step [OF less.prems x(2,3)]] obtain xs w' where
      "list_all own_step xs" "careful_run env xs w1" "watch_run env xs w1 = Some w'" "quiescent w'" "wx_file w' = wx_file w1" by blast
    then have "list_all own_step (x # xs) \<and> careful_run env (x # xs) w \<and> watch_run env (x # xs) w = Some w' \<and> quiescent w'
      \<and> wx_file w' = wx_file w"
      using x own_keeps_file [OF x(1,3)] by simp
    then show ?thesis by blast
  qed
qed

lemma inv_work: "watch_inv env w \<Longrightarrow> work_left w \<le> 10"
proof -
  assume i: "watch_inv env w"
  have l: "wx_internal w = [] \<or> (\<exists>p. wx_internal w = [p])" using i by (cases "wx_file w") (auto simp: watch_inv_def tracked_def)
  have p: "phase_left x \<le> 3" for x by (cases x) auto
  have c: "wx_callbacks w = [] \<or> (\<exists>p. wx_callbacks w = [p])" using i by (auto simp: watch_inv_def length_le_1)
  have n: "wx_start w \<noteq> Watching \<longrightarrow> \<not> wx_event w \<and> wx_callbacks w = [] \<and> wx_internal w = []" using i by (simp add: watch_inv_def)
  have "sum_list (map phase_left (wx_callbacks w)) \<le> 3" "sum_list (map phase_left (wx_internal w)) \<le> 3"
    using l c p by auto
  then show ?thesis using n by (cases "wx_start w") (auto simp: work_left_def)
qed

lemma quiescent_current: "watch_inv env w \<Longrightarrow> quiescent w \<Longrightarrow> current env w"
  by (auto simp: watch_inv_def tracked_def quiescent_def current_shows)

section \<open>The configuration comes into force\<close>


section \<open>Races\<close>

text \<open>A file that says which mode to run.\<close>

definition demo_cfg_of :: "string \<Rightarrow> server_config" where
  "demo_cfg_of mode = \<lparr>sc_Mode = mode, sc_MaxPending = 0, sc_TimeoutSeconds = 0, sc_OnTimeout = [], sc_SignalAfterSeconds = 0,
     sc_InterceptionEnabled = False, sc_PassthroughHosts = [], sc_ListsAllow = [], sc_ListsDeny = []\<rparr>"

definition demo_watch_env :: watch_env where
  "demo_watch_env = \<lparr>we_decode = (\<lambda>c. Inr (demo_cfg_of c)), we_rules = sample_loader [], we_ruleError = (\<lambda>_. []),
     we_listError = (\<lambda>_. []), we_now = 0\<rparr>"

definition demo_watch :: "server \<Rightarrow> watch" where
  "demo_watch s = \<lparr>wx_file = Some (0, ''a''), wx_clock = 1, wx_seen = None, wx_start = Booting, wx_event = False,
     wx_callbacks = [], wx_internal = [], wx_daemon = \<lparr>dm_server = s, dm_reload = zero_tracker\<rparr>\<rparr>"

lemma demo_reload_cfg:
  "sr_cfg (dm_server (internal_reload cfg d)) = cfg"
  "sr_cfg (dm_server (external_reload env (Inr cfg) d)) = cfg"
  by (simp_all add: internal_reload_def external_reload_def frames split: prod.split)

lemma stale_cfg:
  "wx_file w = Some (m, c) \<Longrightarrow> we_decode env c = Inr cfg \<Longrightarrow> sr_cfg (dm_server (wx_daemon w)) \<noteq> cfg \<Longrightarrow> \<not> current env w"
  by (auto simp: current_def runs_config_def)

lemma cfg_of_neq: "demo_cfg_of a = demo_cfg_of b \<longleftrightarrow> a = b"
  by (simp add: demo_cfg_of_def)

lemmas race_simps = demo_watch_def demo_watch_env_def save_file_def scheduleReload_def MarkReloaded_def maybeFireReload_def
  quiescent_def demo_reload_cfg drop_at_def cfg_of_neq

text \<open>
  Three schedules that end at rest with a configuration the file does not hold any more: an edit from
  outside between the daemon's reading of the file and \<open>MarkReloaded\<close>, which takes the time of the
  edit; two callbacks of the timer that overlap; and an edit between the load at startup and the
  establishment of the watch.
\<close>

definition lost_to_mark :: "watch_op list" where
  "lost_to_mark = [Start_stat, Start_add, Internal_write ''b'', Internal_reads 0, Edit ''c'', Internal_applies 0,
     Internal_marks 0, Timer]"

definition overtaken_callback :: "watch_op list" where
  "overtaken_callback = [Start_stat, Start_add, Edit ''b'', Timer, Callback_reads 0, Edit ''c'', Timer, Callback_reads 1,
     Callback_applies 1, Callback_applies 0]"

definition edited_at_startup :: "watch_op list" where
  "edited_at_startup = [Start_stat, Edit ''b'', Start_add]"

lemma external_edit_lost:
  "\<exists>w. watch_run demo_watch_env lost_to_mark (demo_watch s) = Some w \<and> quiescent w \<and> \<not> current demo_watch_env w"
  by (simp add: lost_to_mark_def race_simps stale_cfg)

lemma overlapping_callbacks_lose:
  "\<exists>w. watch_run demo_watch_env overtaken_callback (demo_watch s) = Some w \<and> quiescent w \<and> \<not> current demo_watch_env w"
  by (simp add: overtaken_callback_def race_simps stale_cfg)

lemma startup_edit_lost:
  assumes "sr_cfg s = demo_cfg_of ''a''"
  shows "\<exists>w. watch_run demo_watch_env edited_at_startup (demo_watch s) = Some w \<and> quiescent w \<and> \<not> current demo_watch_env w"
  using assms by (simp add: edited_at_startup_def race_simps stale_cfg)

definition demo_booted :: server where
  "demo_booted = \<lparr>sr_cfg = demo_cfg_of ''a'', sr_engine = sample_engine\<lparr>en_mode := ''a''\<rparr>, sr_identity = [],
     sr_queue = NewQueue 0 0 [], sr_sessions = [], sr_ops = NewRing 0, sr_openMode = closed_window, sr_ca = False,
     sr_redactor = \<lparr>rc_BodyJSONPaths = [], rc_BodyRegexes = [], rc_QueryRegexes = [], rc_HeaderModifiers = []\<rparr>, sr_advisor = None, sr_allowList = Some \<lparr>hl_Name = ''allow'', hl_Patterns = []\<rparr>,
     sr_denyList = Some \<lparr>hl_Name = ''deny'', hl_Patterns = []\<rparr>, sr_patternRegistry = None, sr_MaxBodySampleBytes = 0, sr_audit = []\<rparr>"


end
