(* ===== verification/TuiBorder.thy ===== *)
theory TuiBorder
  imports TuiModel
begin

text \<open>
  Texts on the terminal and the chrome of the panes: \<open>internal/tui/border.go\<close>, and the helpers
  \<open>padRight\<close>, \<open>runeTrunc\<close>, \<open>visibleLen\<close>, \<open>padRightVisible\<close> of \<open>internal/tui/approvals.go\<close>. A text is the
  list of its runes: the strings of the model are decoded where they enter a line, and the pieces a
  line is made of meet at ASCII runes, so decoding the pieces is decoding the line. A line is a text
  without the terminator every helper writes after it. Widths are natural numbers: the code replaces
  every width below one before it calls a helper.
\<close>

section \<open>Texts\<close>

type_synonym runes = "int list"

definition lit :: "string \<Rightarrow> runes" where
  "lit s = map of_char s"

definition esc_rune :: int where "esc_rune = 27"

lemma esc_rune_numeral [simp]:
  "esc_rune = numeral n \<longleftrightarrow> (27 :: int) = numeral n" "numeral n = esc_rune \<longleftrightarrow> numeral n = (27 :: int)"
  "esc_rune \<noteq> 0" "esc_rune \<noteq> 1" "0 \<noteq> esc_rune" "1 \<noteq> esc_rune"
  by (simp_all add: esc_rune_def)

definition sgr :: "string \<Rightarrow> runes" where
  "sgr code = esc_rune # lit (''['' @ code @ ''m'')"

definition colorFocused :: runes where "colorFocused = sgr ''36''"
definition colorUnfocused :: runes where "colorUnfocused = sgr ''2''"
definition colorReset :: runes where "colorReset = sgr ''0''"
definition colorOpenMode :: runes where "colorOpenMode = sgr ''33''"

definition spaces :: "nat \<Rightarrow> runes" where
  "spaces n = replicate n 32"

definition padRight :: "runes \<Rightarrow> nat \<Rightarrow> runes" where
  "padRight rs width = (if length rs \<ge> width then take width rs else rs @ spaces (width - length rs))"

definition runeTrunc :: "runes \<Rightarrow> nat \<Rightarrow> runes" where
  "runeTrunc rs width =
     (if length rs \<le> width then rs else if width \<le> 1 then take width rs else take (width - 1) rs @ [8230])"

text \<open>The cells a terminal shows: everything outside the escape sequences.\<close>

fun visible_from :: "bool \<Rightarrow> runes \<Rightarrow> nat" where
  "visible_from inside [] = 0"
| "visible_from inside (r # rs) =
     (if r = esc_rune then visible_from True rs
      else if inside then visible_from (r \<notin> {109, 75, 74, 72}) rs
      else Suc (visible_from False rs))"

definition visibleLen :: "runes \<Rightarrow> nat" where
  "visibleLen rs = visible_from False rs"

definition padRightVisible :: "runes \<Rightarrow> nat \<Rightarrow> runes" where
  "padRightVisible rs width =
     (if esc_rune \<notin> set rs then padRight rs width
      else if visibleLen rs \<ge> width then rs else rs @ spaces (width - visibleLen rs))"

text \<open>\<open>%-*s\<close>: padded on the right, never cut.\<close>

definition pad_verb :: "nat \<Rightarrow> runes \<Rightarrow> runes" where
  "pad_verb w rs = rs @ spaces (w - length rs)"

section \<open>Chrome\<close>

definition borderEmbedThreshold :: nat where "borderEmbedThreshold = 40"
definition borderMinThreshold :: nat where "borderMinThreshold = 20"

definition chromeColor :: "bool \<Rightarrow> runes" where
  "chromeColor focused = (if focused then colorFocused else colorUnfocused)"

definition segment :: "runes \<Rightarrow> runes" where
  "segment t = (if t = [] then [] else [32] @ t @ [32])"

text \<open>The texts that fit: both, else the left one, else none.\<close>

definition fitted :: "runes \<Rightarrow> runes \<Rightarrow> nat \<Rightarrow> runes \<times> runes" where
  "fitted leftSeg rightSeg cols =
     (if 4 + length leftSeg + length rightSeg \<le> cols then (leftSeg, rightSeg)
      else if 4 + length leftSeg \<le> cols then (leftSeg, []) else ([], []))"

definition borderRowC :: "int \<Rightarrow> int \<Rightarrow> runes \<Rightarrow> runes \<Rightarrow> nat \<Rightarrow> runes \<Rightarrow> runes" where
  "borderRowC left right leftText rightText cols color =
     (let leftText = (if cols < borderEmbedThreshold then [] else leftText);
          rightText = (if cols < borderEmbedThreshold then [] else rightText);
          (leftSeg, rightSeg) = fitted (segment leftText) (segment rightText) cols;
          dashes = cols - (4 + length leftSeg + length rightSeg);
          row = [left, 9472] @ leftSeg @ replicate dashes 9472 @ rightSeg @ [9472, right];
          row = (if length row < cols then row @ spaces (cols - length row)
             else if length row > cols then take (cols - 1) row @ [226] else row)
      in color @ row @ colorReset)"

definition topBorderC :: "runes \<Rightarrow> runes \<Rightarrow> nat \<Rightarrow> runes \<Rightarrow> runes" where
  "topBorderC label rightHint cols color = borderRowC 9581 9582 label rightHint cols color"

definition bottomBorderC :: "runes \<Rightarrow> runes \<Rightarrow> nat \<Rightarrow> runes \<Rightarrow> runes" where
  "bottomBorderC leftHint rightHint cols color = borderRowC 9584 9583 leftHint rightHint cols color"

definition topBorder :: "runes \<Rightarrow> runes \<Rightarrow> nat \<Rightarrow> bool \<Rightarrow> runes" where
  "topBorder label rightHint cols focused = topBorderC label rightHint cols (chromeColor focused)"

definition bottomBorder :: "runes \<Rightarrow> runes \<Rightarrow> nat \<Rightarrow> bool \<Rightarrow> runes" where
  "bottomBorder leftHint rightHint cols focused = bottomBorderC leftHint rightHint cols (chromeColor focused)"

definition bodyLineC :: "runes \<Rightarrow> nat \<Rightarrow> runes \<Rightarrow> runes" where
  "bodyLineC content cols color =
     (if cols < borderMinThreshold then padRight (runeTrunc content cols) cols
      else let inner = max 1 (cols - 2);
               content = (if esc_rune \<notin> set content then padRight (runeTrunc content inner) inner else content)
        in color @ [9474] @ colorReset @ content @ color @ [9474] @ colorReset)"

definition bodyLine :: "runes \<Rightarrow> nat \<Rightarrow> bool \<Rightarrow> runes" where
  "bodyLine content cols focused = bodyLineC content cols (chromeColor focused)"

definition formatPaneLabel :: "runes \<Rightarrow> bool \<Rightarrow> runes" where
  "formatPaneLabel title focused = (if focused then [9654, 32] @ title else [32, 32] @ title)"

definition formatTabHint :: "pane \<Rightarrow> runes" where
  "formatTabHint currentFocus =
     lit (''[Tab] focus '' @ (if currentFocus = PaneConsole then ''approvals'' else ''console''))"

definition boldLine :: "runes \<Rightarrow> nat \<Rightarrow> runes" where
  "boldLine rs cols = sgr ''1'' @ padRight (runeTrunc rs cols) cols @ colorReset"

definition dimLine :: "runes \<Rightarrow> nat \<Rightarrow> runes" where
  "dimLine rs cols = sgr ''2'' @ padRight (runeTrunc rs cols) cols @ colorReset"

section \<open>The label of the operations pane\<close>

text \<open>As the string it is built as; its non-ASCII characters are their UTF-8 bytes.\<close>

definition middle_dot :: string where "middle_dot = map char_of [194, 183 :: nat]"
definition em_dash :: string where "em_dash = map char_of [226, 128, 148 :: nat]"
definition bell_symbol :: string where "bell_symbol = map char_of [226, 144, 135 :: nat]"
definition esc :: string where "esc = [char_of (27 :: nat)]"

definition bold_red :: "string \<Rightarrow> string" where
  "bold_red s = esc @ ''[1;31m'' @ bell_symbol @ '' '' @ s @ esc @ ''[22;39m''"

definition reload_badge :: "string \<Rightarrow> string" where
  "reload_badge src = '' '' @ middle_dot @ '' '' @ bold_red (src @ ''reload failed'')"

text \<open>The badges that follow the counts.\<close>

definition reload_badges :: "bool \<Rightarrow> string \<Rightarrow> string list \<Rightarrow> string" where
  "reload_badges failed src failing =
     (if length failing > 1 then concat (map (\<lambda>s. reload_badge (s @ '' '')) failing)
      else if failed then
        (if src \<in> {''config'', ''rules'', ''lists''} then reload_badge (src @ '' '') else reload_badge [])
      else [])"

definition formatOpsPaneLabelText :: "int \<Rightarrow> int \<Rightarrow> bool \<Rightarrow> string \<Rightarrow> string list \<Rightarrow> string" where
  "formatOpsPaneLabelText n pending failed src failing =
     ''trollbridge operations '' @ em_dash @ '' '' @ itoa n @ '' total '' @ middle_dot @ '' ''
       @ (if pending > 0 then bold_red (itoa pending @ '' pending'') else itoa pending @ '' pending'')
       @ reload_badges failed src failing"

definition status_label :: "int \<Rightarrow> int \<Rightarrow> status \<Rightarrow> string" where
  "status_label n pending st = formatOpsPaneLabelText n pending (rs_LastError st \<noteq> []) (rs_LastSource st) (rs_FailingSources st)"

section \<open>Widths\<close>

text \<open>A text is closed when no escape sequence is open at its end, plain when it has none.\<close>

fun inside_after :: "bool \<Rightarrow> runes \<Rightarrow> bool" where
  "inside_after inside [] = inside"
| "inside_after inside (r # rs) =
     inside_after (if r = esc_rune then True else inside \<and> r \<notin> {109, 75, 74, 72}) rs"

abbreviation plain :: "runes \<Rightarrow> bool" where
  "plain rs \<equiv> esc_rune \<notin> set rs"

definition wide :: "nat \<Rightarrow> runes \<Rightarrow> bool" where
  "wide w rs \<longleftrightarrow> \<not> inside_after False rs \<and> visibleLen rs = w"

lemma visible_from_append: "visible_from b (xs @ ys) = visible_from b xs + visible_from (inside_after b xs) ys"
  by (induction xs arbitrary: b) auto

lemma inside_after_append: "inside_after b (xs @ ys) = inside_after (inside_after b xs) ys"
  by (induction xs arbitrary: b) auto

lemma wide_append: "wide u xs \<Longrightarrow> wide v ys \<Longrightarrow> wide (u + v) (xs @ ys)"
  by (simp add: wide_def visibleLen_def visible_from_append inside_after_append)

lemma wide_plain: "plain rs \<Longrightarrow> wide (length rs) rs"
proof -
  assume p: "plain rs"
  have "inside_after False rs = False" using p by (induction rs) auto
  moreover have "visible_from False rs = length rs" using p by (induction rs) auto
  ultimately show ?thesis by (simp add: wide_def visibleLen_def)
qed

lemma wide_length: "plain rs \<Longrightarrow> length rs = w \<Longrightarrow> wide w rs"
  using wide_plain by blast

lemma wide_visibleLen: "wide w rs \<Longrightarrow> visibleLen rs = w"
  by (simp add: wide_def)

lemma lit_append: "lit (a @ b) = lit a @ lit b"
  by (simp add: lit_def)

lemma length_lit [simp]: "length (lit s) = length s"
  by (simp add: lit_def)

text \<open>Decoding makes no escape of bytes that have none.\<close>

lemma decode_rune_esc:
  assumes "decode_rune b bs = (27, k)"
  shows "b = 27"
proof (rule ccontr)
  assume b: "b \<noteq> 27"
  have ge: "128 \<le> fst (decode_rune b bs)" if "\<not> b < 128"
    using that by (auto simp: decode_rune_def between_def second_ok_def cont_byte_def split: if_splits)
  show False using assms b ge by (cases "b < 128") (simp_all add: decode_rune_def)
qed

lemma plain_decode: "27 \<notin> set bs \<Longrightarrow> 27 \<notin> set (decode_runes bs)"
proof (induction bs rule: decode_runes.induct)
  case (2 b bs)
  obtain r k where d: "decode_rune b bs = (r, k)" by (metis surj_pair)
  have "27 \<notin> set (drop k bs)" using 2(2) in_set_dropD by fastforce
  then have "27 \<notin> set (decode_runes (drop k bs))" using 2(1) [OF d [symmetric]] by simp
  moreover have "r \<noteq> 27" using decode_rune_esc [of b bs k] d 2(2) by auto
  ultimately show ?case using d by simp
qed simp

definition no_escape :: "string \<Rightarrow> bool" where
  "no_escape s \<longleftrightarrow> esc_rune \<notin> of_char ` set s"

lemma no_escape_append [simp]: "no_escape (a @ b) \<longleftrightarrow> no_escape a \<and> no_escape b"
  by (auto simp: no_escape_def)

lemma plain_to_runes [intro, simp]: "no_escape s \<Longrightarrow> plain (to_runes s)"
  using plain_decode [of "map of_char s"] by (auto simp: to_runes_def no_escape_def esc_rune_def)

lemma plain_lit_escape [intro, simp]: "no_escape s \<Longrightarrow> plain (lit s)"
  by (simp add: lit_def no_escape_def)

lemma plain_spaces [simp]: "plain (spaces n)"
  by (simp add: spaces_def esc_rune_def)

lemma length_spaces [simp]: "length (spaces n) = n"
  by (simp add: spaces_def)

lemma length_padRight [simp]: "length (padRight rs w) = w"
  by (simp add: padRight_def)

lemma length_runeTrunc: "length (runeTrunc rs w) = min (length rs) w"
  by (auto simp: runeTrunc_def)

lemma plain_take: "plain rs \<Longrightarrow> plain (take n rs)"
  using set_take_subset by fastforce

lemma plain_padRight [intro, simp]: "plain rs \<Longrightarrow> plain (padRight rs w)"
  using plain_take [of rs w] by (auto simp: padRight_def spaces_def esc_rune_def)

lemma plain_runeTrunc [intro, simp]: "plain rs \<Longrightarrow> plain (runeTrunc rs w)"
  using plain_take [of rs w] plain_take [of rs "w - 1"] by (auto simp: runeTrunc_def esc_rune_def)

lemma wide_cell: "plain rs \<Longrightarrow> wide w (padRight (runeTrunc rs w) w)"
  by (simp add: wide_length)

lemma wide_padRightVisible: "wide v rs \<Longrightarrow> v \<le> w \<Longrightarrow> wide w (padRightVisible rs w)"
proof (cases "esc_rune \<in> set rs")
  case True
  assume "wide v rs" "v \<le> w"
  then show ?thesis using True wide_append [of v rs "w - v" "spaces (w - v)"] wide_plain [of "spaces (w - v)"]
    by (cases "v = w") (auto simp: padRightVisible_def dest: wide_visibleLen)
qed (simp add: padRightVisible_def wide_length)

text \<open>An escape sequence of colours takes no cell.\<close>

lemma wide_sgr:
  assumes "set code \<subseteq> {CHR ''0'', CHR ''1'', CHR ''2'', CHR ''3'', CHR ''4'', CHR ''5'', CHR ''6'', CHR ''7'', CHR ''8'', CHR ''9'', CHR '';''}"
  shows "wide 0 (sgr code)"
proof -
  have "wide 0 (esc_rune # 91 # lit c @ [109]) \<and> inside_after True (lit c @ [109]) = False \<and> visible_from True (lit c @ [109]) = 0"
    if "set c \<subseteq> {CHR ''0'', CHR ''1'', CHR ''2'', CHR ''3'', CHR ''4'', CHR ''5'', CHR ''6'', CHR ''7'', CHR ''8'', CHR ''9'', CHR '';''}" for c
    using that by (induction c) (auto simp: wide_def visibleLen_def lit_def esc_rune_def)
  from this [OF assms] show ?thesis by (simp add: sgr_def lit_append) (simp add: lit_def)
qed

lemma wide_colors [simp, intro]:
  "wide 0 colorFocused" "wide 0 colorUnfocused" "wide 0 colorReset" "wide 0 colorOpenMode" "wide 0 (chromeColor f)"
  by (auto simp: colorFocused_def colorUnfocused_def colorReset_def colorOpenMode_def chromeColor_def intro!: wide_sgr)

lemma wide_colored: "wide 0 c \<Longrightarrow> wide w rs \<Longrightarrow> wide w (c @ rs @ colorReset)"
  using wide_append [of 0 c w rs] wide_append [of w "c @ rs" 0 colorReset] by simp

section \<open>The chrome fits\<close>

lemma fitted_fits: "4 \<le> cols \<Longrightarrow> fitted l r cols = (a, b) \<Longrightarrow> 4 + length a + length b \<le> cols"
  by (auto simp: fitted_def split: if_splits)

lemma fitted_plain: "fitted l r cols = (a, b) \<Longrightarrow> plain l \<Longrightarrow> plain r \<Longrightarrow> plain a \<and> plain b"
  by (auto simp: fitted_def split: if_splits)

lemma plain_segment [intro]: "plain t \<Longrightarrow> plain (segment t)"
  by (auto simp: segment_def esc_rune_def)

text \<open>
  A border of any width the panes draw is as many cells wide as the terminal, whatever the texts in
  it, as long as they have no escape sequence of their own.
\<close>

lemma border_row_wide:
  assumes "4 \<le> cols" "plain l" "plain r" "wide 0 color" "left \<noteq> esc_rune" "right \<noteq> esc_rune"
  shows "wide cols (borderRowC left right l r cols color)"
proof -
  define l' where "l' = (if cols < borderEmbedThreshold then [] else l)"
  define r' where "r' = (if cols < borderEmbedThreshold then [] else r)"
  obtain a b where f: "fitted (segment l') (segment r') cols = (a, b)" by (metis surj_pair)
  have "plain (segment l')" "plain (segment r')" using assms(2,3) plain_segment by (auto simp: l'_def r'_def)
  then have p: "plain a" "plain b" using fitted_plain [OF f] by blast+
  have n: "4 + length a + length b \<le> cols" by (rule fitted_fits [OF assms(1) f])
  define row where "row = [left, 9472] @ a @ replicate (cols - (4 + length a + length b)) 9472 @ b @ [9472, right]"
  have len: "length row = cols" using n by (simp add: row_def)
  have "plain row" using p assms(5,6) by (auto simp: row_def esc_rune_def)
  then have "wide cols (color @ row @ colorReset)" using wide_colored [OF assms(4) wide_length] len by blast
  moreover have "borderRowC left right l r cols color = color @ row @ colorReset"
    unfolding borderRowC_def Let_def l'_def [symmetric] r'_def [symmetric] f prod.case row_def [symmetric] using len by simp
  ultimately show ?thesis by simp
qed

lemma borders_wide [intro]:
  assumes "borderMinThreshold \<le> cols" "plain l" "plain r" "wide 0 color"
  shows "wide cols (topBorderC l r cols color)" "wide cols (bottomBorderC l r cols color)"
    "wide cols (topBorder l r cols f)" "wide cols (bottomBorder l r cols f)"
  using assms by (auto simp: topBorderC_def bottomBorderC_def topBorder_def bottomBorder_def borderMinThreshold_def
      esc_rune_def intro!: border_row_wide)

lemma body_line_wide:
  assumes "borderMinThreshold \<le> cols" "wide (cols - 2) content \<or> plain content" "wide 0 color"
  shows "wide cols (bodyLineC content cols color)"
proof -
  have inner: "max 1 (cols - 2) = cols - 2" using assms(1) by (simp add: borderMinThreshold_def)
  define c where "c = (if plain content then padRight (runeTrunc content (cols - 2)) (cols - 2) else content)"
  have c: "wide (cols - 2) c" using assms(2) wide_cell by (auto simp: c_def)
  have bar: "wide 1 (color @ [9474] @ colorReset)"
    by (rule wide_colored [OF assms(3) wide_length]) (simp_all add: esc_rune_def)
  have "wide (1 + ((cols - 2) + 1)) ((color @ [9474] @ colorReset) @ c @ (color @ [9474] @ colorReset))"
    by (intro wide_append bar c)
  moreover have "1 + ((cols - 2) + 1) = cols" using assms(1) by (simp add: borderMinThreshold_def)
  moreover have "\<not> cols < borderMinThreshold" using assms(1) by simp
  ultimately show ?thesis unfolding bodyLineC_def Let_def inner c_def [symmetric] by simp
qed

lemma body_lines_wide [intro]:
  "borderMinThreshold \<le> cols \<Longrightarrow> wide (cols - 2) content \<Longrightarrow> wide cols (bodyLine content cols f)"
  by (simp add: bodyLine_def body_line_wide)

text \<open>
  A text with escape sequences in a border is counted with them, so the row is short by as many cells
  as its sequences have runes.
\<close>

lemma colored_label_short:
  "visibleLen (topBorderC (lit ''operations '' @ sgr ''1;31'' @ lit ''2 pending'' @ sgr ''22;39'') [] 60 colorFocused) = 45"
  by code_simp

end
