(* ===== verification/ReloadBadge.thy ===== *)
theory ReloadBadge
  imports ConfigWatch TuiBorder
begin

text \<open>
  The badges of the operations pane for failed reloads, over the status the callback of the watcher
  leaves behind.
\<close>

text \<open>
  An edit of the file with a bad list line: the callback records the failure of the lists and then
  the success of the rules and of the configuration, so the last error is empty and only one source
  is failing; the label is the one of a daemon without a failure.
\<close>

lemma failed_lists_unseen:
  assumes "snd (ReloadListsFromConfig cfg (dm_server d)) = Some err" "we_listError env err \<noteq> []"
    and "snd (Reload (we_rules env) (sr_engine (fst (ReloadListsFromConfig cfg (dm_server d))))) = None"
    and "dm_reload d = zero_tracker"
  defines "st \<equiv> GetStatus (dm_reload (external_reload env (Inr cfg) d))"
  shows "rs_FailingSources st = [''lists''] \<and> status_label n pending st = status_label n pending zero_status"
proof -
  obtain s1 le where 1: "ReloadListsFromConfig cfg (dm_server d) = (s1, le)" by (metis surj_pair)
  obtain eng re where 2: "Reload (we_rules env) (sr_engine s1) = (eng, re)" by (metis surj_pair)
  have "le = Some err" "re = None" using assms(1,3) 1 2 by simp_all
  then have "dm_reload (external_reload env (Inr cfg) d) = RecordReload (we_now env) ''config'' None
      (RecordReload (we_now env) ''rules'' None (RecordReload (we_now env) ''lists'' (Some (we_listError env err)) zero_tracker))"
    using assms(4) by (simp add: external_reload_def 1 2)
  moreover have "sort_strings [''lists''] = [''lists'']" by code_simp
  ultimately have "rs_FailingSources st = [''lists'']" "rs_LastError st = []"
    using assms(2) by (simp_all add: st_def RecordReload_def GetStatus_def zero_tracker_def zero_status_def Let_def)
  then show ?thesis by (simp add: status_label_def formatOpsPaneLabelText_def reload_badges_def zero_status_def)
qed

end
