(* ===== verification/TuiPanes.thy ===== *)
theory TuiPanes
  imports TuiBorder TuiReducer TuiTerminal
begin

text \<open>
  What the operator console draws (\<open>internal/tui/approvals.go\<close>): the rows of the operations pane with
  its cards, the console, info, advisor and list panes, and the frame made of them. A pane is the list
  of its lines. The clock and the time zone are parameters, and so is the source of prior decisions;
  one frame reads the clock once.
\<close>

section \<open>Cells\<close>

record civil =
  cv_Year :: nat
  cv_YearDay :: nat
  cv_Month :: nat
  cv_Day :: nat
  cv_Hour :: nat
  cv_Min :: nat
  cv_Sec :: nat

record render_env =
  re_parse :: url_host_path
  re_local :: "int \<Rightarrow> civil"
  re_now :: int
  re_history :: "(string \<Rightarrow> string \<Rightarrow> bool) option"

definition pad_num :: "nat \<Rightarrow> nat \<Rightarrow> string" where
  "pad_num w n = replicate (w - length (itoa (int n))) (CHR ''0'') @ itoa (int n)"

definition format_clock :: "civil \<Rightarrow> string" where
  "format_clock c = pad_num 2 (cv_Hour c) @ '':'' @ pad_num 2 (cv_Min c) @ '':'' @ pad_num 2 (cv_Sec c)"

definition format_day :: "civil \<Rightarrow> string" where
  "format_day c = pad_num 2 (cv_Month c) @ ''-'' @ pad_num 2 (cv_Day c) @ '' '' @ format_clock c"

definition format_date :: "civil \<Rightarrow> string" where
  "format_date c = pad_num 4 (cv_Year c) @ ''-'' @ format_day c"

definition formatOpTime :: "render_env \<Rightarrow> int \<Rightarrow> string" where
  "formatOpTime env t =
     (let c = re_local env t; n = re_local env (re_now env) in
      if cv_Year c = cv_Year n \<and> cv_YearDay c = cv_YearDay n then format_clock c else format_day c)"

fun halvings :: "nat \<Rightarrow> nat" where
  "halvings v = (if v > 1 then Suc (halvings (v div 2)) else 0)"

declare halvings.simps [simp del]

definition brailleCounter :: "nat \<Rightarrow> int" where
  "brailleCounter n = (if n < 2 then 32 else
     [32, 10241, 10243, 10247, 10255, 10271, 10303, 10367, 10495] ! min 8 (halvings n))"

definition colorizeURLForRow :: "runes \<Rightarrow> string \<Rightarrow> runes" where
  "colorizeURLForRow cell url =
     (if has_prefix url ''http://'' then sgr ''38;5;94'' @ cell @ colorReset else cell)"

definition status_color :: "string \<Rightarrow> runes" where
  "status_color status =
     (if status = ''running'' then sgr ''32''
      else if status = ''checking'' then sgr ''35''
      else if status \<in> {''pending'', ''signaled''} then sgr ''33''
      else if status \<in> {''error'', ''denied'', ''tls_failed''} then sgr ''31''
      else if length status = 3 \<and> status ! 0 = CHR ''2'' then sgr ''32''
      else if length status = 3 \<and> status ! 0 = CHR ''3'' then sgr ''36''
      else if length status = 3 \<and> status ! 0 \<in> {CHR ''4'', CHR ''5''} then sgr ''31''
      else [])"

definition colorizeStatus :: "string \<Rightarrow> runes" where
  "colorizeStatus status =
     (if status_color status = [] then to_runes status else status_color status @ to_runes status @ colorReset)"

definition colorizeStatusForRow :: "string \<Rightarrow> string \<Rightarrow> string \<Rightarrow> (string \<Rightarrow> string \<Rightarrow> bool) option \<Rightarrow> runes" where
  "colorizeStatusForRow status host effect history =
     (if status = ''checking'' then sgr ''35;5'' @ [9676] @ lit '' thinking'' @ colorReset
      else if effect \<noteq> [] \<and> (case history of Some prior \<Rightarrow> prior host effect | None \<Rightarrow> False)
      then sgr ''38;5;208'' @ colorizeStatus status @ colorReset
      else colorizeStatus status)"

definition deriveOperatorEffect :: "string \<Rightarrow> string" where
  "deriveOperatorEffect status =
     (if status = ''denied'' then ''deny''
      else if length status = 3 \<and> status ! 0 \<in> {CHR ''2'', CHR ''3'', CHR ''4'', CHR ''5''} then ''allow'' else [])"

definition extractHostForStatusColor :: "url_host_path \<Rightarrow> string \<Rightarrow> string" where
  "extractHostForStatusColor parse raw =
     (let host = fst (opGroupHostDir parse raw);
          host = (case last_index_byte host (CHR '':'') of None \<Rightarrow> host
            | Some i \<Rightarrow> let port = drop (Suc i) host in
                if port \<noteq> [] \<and> list_all is_digit port then take i host else host)
      in if length host \<ge> 2 \<and> hd host = CHR ''['' \<and> last host = CHR '']'' then butlast (tl host) else host)"

definition formatOpRow :: "render_env \<Rightarrow> displayed_op \<Rightarrow> nat \<Rightarrow> nat \<Rightarrow> nat \<Rightarrow> runes" where
  "formatOpRow env d methodW urlW statusW =
     (let p = dp_Op d;
          url = padRight (runeTrunc (to_runes (op_URL p)) urlW) urlW;
          status = colorizeStatusForRow (op_Status p) (extractHostForStatusColor (re_parse env) (op_URL p))
            (deriveOperatorEffect (op_Status p)) (re_history env)
      in [32] @ pad_verb methodW (runeTrunc (to_runes (op_Method p)) methodW) @ [32]
           @ colorizeURLForRow url (op_URL p) @ [32] @ [brailleCounter (dp_Count d)] @ [32]
           @ padRightVisible status statusW @ [32] @ lit (formatOpTime env (op_UpdatedAt p)))"

definition methodW :: nat where "methodW = 7"
definition statusW :: nat where "statusW = 11"

definition url_width :: "nat \<Rightarrow> nat" where
  "url_width inner = max 8 (inner - 39)"

definition op_row :: "render_env \<Rightarrow> nat \<Rightarrow> displayed_op \<Rightarrow> runes" where
  "op_row env w d = padRightVisible (formatOpRow env d methodW (url_width w) statusW) w"

definition highlight :: "bool \<Rightarrow> runes \<Rightarrow> runes" where
  "highlight on r = (if on then sgr ''7'' @ r @ colorReset else r)"

abbreviation cell :: "nat \<Rightarrow> runes \<Rightarrow> runes" where
  "cell w r \<equiv> padRight (runeTrunc r w) w"

text \<open>Lines are added until the space is used, then blank ones.\<close>

definition fill :: "nat \<Rightarrow> runes \<Rightarrow> runes list \<Rightarrow> runes list" where
  "fill n blank rows = take n rows @ replicate (n - length rows) blank"

section \<open>Cards\<close>

definition card_line :: "nat \<Rightarrow> runes \<Rightarrow> runes" where
  "card_line inner l = sgr ''36'' @ cell inner l @ colorReset"

definition formatGeneralizeCard :: "generalize_card \<Rightarrow> nat \<Rightarrow> runes list option" where
  "formatGeneralizeCard gc inner =
     map_option (\<lambda>c. map (card_line inner)
       [lit ''generalize ('' @ to_runes (c_Axis c) @ lit '')  axis ''
          @ lit (itoa (int (gc_AxisIndex gc) + 1) @ ''/'' @ itoa (int (length (gc_Candidates gc)))),
        lit ''  pattern: '' @ to_runes (c_SuggestedPattern c),
        lit ''  from: '' @ to_runes (gc_SourceDesc gc) @ lit ''  '' @ [8594] @ lit ''  '' @ to_runes (c_List c),
        lit ''  [a]ccept  [d]ecline  [tab] next axis  [esc] dismiss'']) (Current gc)"

definition suggestion_lines :: "tui_suggestion \<Rightarrow> runes list" where
  "suggestion_lines s =
     (let axis = (if ts_AxesRemaining s > 0 then lit (''  axis 1/'' @ itoa (ts_AxesRemaining s + 1)) else []);
          keys = lit ''  '' @ [8594, 32] @ to_runes (ts_List s) @ lit ''    [shift+a]ccept  [shift+d]ecline  [shift+s]kip''
      in if ts_PatternName s \<noteq> [] then
           [lit ''suggestion (pattern:'' @ to_runes (ts_PatternName s) @ lit '')'' @ axis,
            lit ''  rule: pattern='' @ to_runes (ts_PatternName s)
              @ (if ts_PatternMethod s \<noteq> [] then lit ''  method='' @ to_runes (ts_PatternMethod s) else [])
              @ lit ''  effect='' @ to_runes (ts_List s)]
           @ (if ts_PatternComponents s \<noteq> [] then
                [lit ''  fixed:'' @ concat (map (\<lambda>(k, v). lit '' '' @ to_runes k @ lit ''='' @
                   (if v = [] then [34, 34] else to_runes v)) (sort_key fst (ts_PatternComponents s)))]
              else [])
           @ [lit (''  sources: '' @ itoa (int (length (ts_SourceEntries s))) @ '' entries''),
              lit ''  why: '' @ to_runes (ts_Reason s), keys]
         else [lit ''suggestion ('' @ to_runes (ts_Axis s) @ lit '')'' @ axis,
               lit ''  pattern: '' @ to_runes (ts_SuggestedPattern s),
               lit ''  why: '' @ to_runes (ts_Reason s), keys])"

definition formatSuggestionCard :: "tui_suggestion \<Rightarrow> nat \<Rightarrow> runes list" where
  "formatSuggestionCard s inner = map (card_line inner) (suggestion_lines s)"

text \<open>The rows of a list that are drawn, by the scroll offset of a pane, the selected one highlighted.\<close>

definition window_rows :: "render_env \<Rightarrow> nat \<Rightarrow> int \<Rightarrow> nat \<Rightarrow> displayed_op list \<Rightarrow> runes list" where
  "window_rows env w sel n ds =
     (let first = nat (opsScrollOffset sel (int n) (int (length ds))) in
      map (\<lambda>i. highlight (int i = sel) (op_row env w (ds ! i))) [first..<min (first + n) (length ds)])"

definition pending_header :: "nat \<Rightarrow> nat \<Rightarrow> runes" where
  "pending_header n inner =
     (let hdr = [32, 9472, 9472] @ lit ('' pending ('' @ itoa (int n) @ '') '') in
      sgr ''1'' @ runeTrunc (hdr @ replicate (inner - length hdr) 9472) inner @ colorReset)"

definition formatPendingCard :: "render_env \<Rightarrow> displayed_op list \<Rightarrow> int \<Rightarrow> nat \<Rightarrow> nat \<Rightarrow> runes list" where
  "formatPendingCard env pendingOps selRel inner maxRows =
     (if pendingOps = [] \<or> maxRows < 1 then []
      else if maxRows \<ge> 2
      then pending_header (length pendingOps) inner # window_rows env inner selRel (maxRows - 1) pendingOps
      else window_rows env inner selRel maxRows pendingOps)"

section \<open>The operations pane\<close>

definition pane_label :: "model \<Rightarrow> displayed_op list \<Rightarrow> string" where
  "pane_label m displayed = formatOpsPaneLabelText (int (length displayed)) (int (PendingCount displayed))
     (rs_LastError (tm_ReloadStatus m) \<noteq> []) (rs_LastSource (tm_ReloadStatus m)) (rs_FailingSources (tm_ReloadStatus m))"

definition chrome_color :: "render_env \<Rightarrow> model \<Rightarrow> runes" where
  "chrome_color env m =
     (if openActive m (re_now env) then colorOpenMode else chromeColor (tm_Focused m = PaneApprovals))"

definition approvals_hint :: "model \<Rightarrow> runes" where
  "approvals_hint m =
     (if tm_Focused m \<noteq> PaneApprovals then []
      else if \<not> tm_BottomPanelOpen m then lit ''[1]console [2]info [3]llm [4]urls''
      else lit ''[0]hide  '' @ formatTabHint (tm_Focused m))"

definition no_recent :: runes where
  "no_recent = lit ''  (no recent operations '' @ [8212] @ lit '' waiting for traffic)''"

definition col_header :: "nat \<Rightarrow> runes" where
  "col_header urlW = [32] @ pad_verb methodW (lit ''METHOD'') @ [32] @ pad_verb urlW (lit ''URL'') @ [32, 32, 32]
     @ pad_verb statusW (lit ''STATUS'') @ [32] @ lit ''TIME''"

text \<open>The cards take their lines first; the resolved rows have what is left, at least one line.\<close>

definition top_card :: "model \<Rightarrow> nat \<Rightarrow> nat \<Rightarrow> runes list option" where
  "top_card m inner bodyLines =
     map_option (take (bodyLines - 1))
       (case tm_GenCard m of
          Some gc \<Rightarrow> formatGeneralizeCard gc inner
        | None \<Rightarrow> (case tm_Suggestion m of
              Some s \<Rightarrow> Some (if tm_Holds m = [] then formatSuggestionCard s inner else [])
            | None \<Rightarrow> Some []))"

definition status_row :: "model \<Rightarrow> nat \<Rightarrow> runes" where
  "status_row m inner =
     (if tm_LastErr m \<noteq> [] then sgr ''31'' @ cell inner (lit ''error: '' @ to_runes (tm_LastErr m)) @ colorReset
      else if tm_LastInfo m \<noteq> [] then sgr ''32'' @ cell inner (to_runes (tm_LastInfo m)) @ colorReset
      else spaces inner)"

definition approvals_keys :: "render_env \<Rightarrow> model \<Rightarrow> runes" where
  "approvals_keys env m =
     (if tm_GenCard m \<noteq> None then lit ''[a]ccept  [d]ecline  [tab] next axis  [esc] dismiss''
      else if openActive m (re_now env) then
        lit (''[c] close ('' @ itoa ((tm_OpenUntil m - re_now env) div second)
          @ ''s)  [o] +extend  [a] approve  [d] deny  [jk] select  [r] refresh  [q] quit'')
      else lit ''[o] open  [a] approve  [d] deny  ['' @ [8593, 8595]
        @ lit ''/jk] select  [r] refresh  [z] suspend  [q] quit'')"

definition sel_rel :: "model \<Rightarrow> nat \<Rightarrow> int" where
  "sel_rel m split = (if tm_Selected m \<ge> int split then tm_Selected m - int split else - 1)"

definition renderApprovalsBordered :: "render_env \<Rightarrow> model \<Rightarrow> displayed_op list \<Rightarrow> nat \<Rightarrow> nat \<Rightarrow> runes list option" where
  "renderApprovalsBordered env m displayed cols rows =
     (let color = chrome_color env m; bodyLines = max 1 (rows - 3); inner = max 1 (cols - 2);
          split = opsPendingSplit displayed; resolved = take split displayed; pendingOps = drop split displayed
      in map_option (\<lambda>topCard.
        let pendCard = formatPendingCard env pendingOps (sel_rel m split) inner (bodyLines - length topCard - 1);
            listLines = max 1 (bodyLines - length topCard - length pendCard);
            list = (if displayed = [] then [cell inner no_recent]
              else cell inner (col_header (url_width inner)) # window_rows env inner (tm_Selected m) (listLines - 1) resolved)
        in [topBorderC (formatPaneLabel (to_runes (pane_label m displayed)) (tm_Focused m = PaneApprovals)) (approvals_hint m) cols color]
           @ map (\<lambda>r. bodyLineC r cols color) (fill listLines (spaces inner) list @ topCard @ pendCard @ [status_row m inner])
           @ [bottomBorderC [] (approvals_keys env m) cols color]) (top_card m inner bodyLines))"

definition renderApprovalsPaneNoBorder :: "render_env \<Rightarrow> model \<Rightarrow> displayed_op list \<Rightarrow> nat \<Rightarrow> nat \<Rightarrow> runes list" where
  "renderApprovalsPaneNoBorder env m displayed cols rows =
     (let header = to_runes (pane_label m displayed); bodyLines = max 1 (rows - 3);
          split = opsPendingSplit displayed; resolved = take split displayed; pendingOps = drop split displayed;
          pendCard = formatPendingCard env pendingOps (sel_rel m split) cols (bodyLines - 1);
          listLines = max 1 (bodyLines - length pendCard);
          list = (if displayed = [] then [padRight no_recent cols]
            else padRight (col_header (url_width cols)) cols # window_rows env cols (tm_Selected m) (listLines - 1) resolved)
      in [if tm_Focused m = PaneApprovals then boldLine ([9654, 32] @ header) cols else dimLine ([32, 32] @ header) cols]
         @ fill listLines (spaces cols) list @ pendCard @ [status_row m cols]
         @ [dimLine (lit ''[a] approve  [d] deny  ['' @ [8593, 8595] @ lit ''/jk] select  [r] refresh  [q] quit'') cols])"

definition renderApprovalsPane :: "render_env \<Rightarrow> model \<Rightarrow> nat \<Rightarrow> nat \<Rightarrow> runes list option" where
  "renderApprovalsPane env m cols rows =
     Option.bind (DisplayedOps (re_parse env) m) (\<lambda>displayed.
       if cols < borderMinThreshold then Some (renderApprovalsPaneNoBorder env m displayed cols rows)
       else renderApprovalsBordered env m displayed cols rows)"

section \<open>The console pane\<close>

definition prompt_line :: "model \<Rightarrow> runes" where
  "prompt_line m =
     to_runes (if co_Prompt (tm_Console m) = [] then ''trollbridge> '' else co_Prompt (tm_Console m))
       @ co_Input (tm_Console m) @ (if tm_Focused m = PaneConsole then [9608] else [])"

definition last_lines :: "nat \<Rightarrow> 'a list \<Rightarrow> 'a list" where
  "last_lines n xs = drop (length xs - n) xs"

definition console_title :: runes where
  "console_title = lit ''console '' @ [8212] @ lit '' type help''"

definition tab_hint :: "model \<Rightarrow> runes" where
  "tab_hint m = (if tm_Focused m = PaneConsole then formatTabHint (tm_Focused m) else [])"

definition renderConsolePane :: "model \<Rightarrow> nat \<Rightarrow> nat \<Rightarrow> runes list" where
  "renderConsolePane m cols rows =
     (let focused = (tm_Focused m = PaneConsole); scroll = co_Scrollback (tm_Console m) in
      if cols < borderMinThreshold then
        (let bodyLines = max 1 (rows - 2) in
         [if focused then boldLine ([9654, 32] @ console_title) cols else dimLine ([32, 32] @ console_title) cols]
         @ fill bodyLines (spaces cols) (map (\<lambda>l. cell cols (to_runes l)) (last_lines bodyLines scroll))
         @ [cell cols (prompt_line m)])
      else
        (let bodyLines = max 1 (rows - 3); inner = max 1 (cols - 2) in
         [topBorder (formatPaneLabel console_title focused) (tab_hint m) cols focused]
         @ map (\<lambda>r. bodyLine r cols focused)
             (fill bodyLines (spaces inner) (map (\<lambda>l. cell inner (to_runes l)) (last_lines bodyLines scroll))
              @ [cell inner (prompt_line m)])
         @ [bottomBorder (lit ''[Ctrl-C] quit'') [] cols focused]))"

end
