(* ===== verification/TuiFrame.thy ===== *)
theory TuiFrame
  imports TuiPanes
begin

text \<open>
  The panels below the operations pane, the detail view of the advisor and the frame
  (\<open>internal/tui/approvals.go\<close>), with the lemmas on the number of lines each draws.
\<close>

section \<open>Wrapping a labelled value\<close>

text \<open>
  The byte index of the last space before column \<open>n\<close> of the bytes; the string is cut there, and at
  byte \<open>valueW\<close> when there is none, which can be inside a rune.
\<close>

fun last_space :: "nat \<Rightarrow> nat \<Rightarrow> int list \<Rightarrow> nat option \<Rightarrow> nat option" where
  "last_space i 0 bs found = found"
| "last_space i (Suc n) [] found = found"
| "last_space i (Suc n) (b # bs) found =
     (case decode_rune b bs of (r, k) \<Rightarrow> last_space (i + Suc k) n (drop k bs) (if r = 32 then Some i else found))"

definition lastSpaceWithin :: "string \<Rightarrow> nat \<Rightarrow> nat option" where
  "lastSpaceWithin s maxCol = last_space 0 maxCol (map of_char s) None"

definition cut_at :: "string \<Rightarrow> nat \<Rightarrow> nat" where
  "cut_at rest valueW = (case lastSpaceWithin rest valueW of Some i \<Rightarrow> if i = 0 then valueW else i | None \<Rightarrow> valueW)"

lemma cut_at_pos: "valueW > 0 \<Longrightarrow> cut_at rest valueW > 0"
  by (simp add: cut_at_def split: option.splits)

lemma trim_left_chars_shorter: "length (trim_left_chars cs s) \<le> length s"
  by (simp add: trim_left_chars_def length_dropWhile_le)

function wrap_chunks :: "nat \<Rightarrow> string \<Rightarrow> string list" where
  "wrap_chunks valueW rest =
     (if valueW > 0 \<and> length (to_runes rest) > valueW
      then trim_right_chars [CHR '' ''] (take (cut_at rest valueW) rest)
        # wrap_chunks valueW (trim_left_chars [CHR '' ''] (drop (cut_at rest valueW) rest))
      else if rest \<noteq> [] then [rest] else [])"
  by pat_completeness auto

termination
proof (relation "measure (\<lambda>(w, s). length s)")
  fix valueW and rest :: string
  assume "valueW > 0 \<and> length (to_runes rest) > valueW"
  then have "rest \<noteq> []" "cut_at rest valueW > 0" using cut_at_pos by (auto simp: to_runes_def)
  then have "length (drop (cut_at rest valueW) rest) < length rest" by (cases rest) auto
  then show "((valueW, trim_left_chars [CHR '' ''] (drop (cut_at rest valueW) rest)), valueW, rest)
      \<in> measure (\<lambda>(w, s). length s)"
    using trim_left_chars_shorter [of "[CHR '' '']" "drop (cut_at rest valueW) rest"] by simp
qed simp

declare wrap_chunks.simps [simp del]

definition wrapAfterLabel :: "string \<Rightarrow> string \<Rightarrow> nat \<Rightarrow> string list" where
  "wrapAfterLabel label value width =
     (let labelW = length (to_runes label) in
      if width \<le> labelW + 1 \<or> length (to_runes value) \<le> width - labelW then [label @ value]
      else (case wrap_chunks (width - labelW) value of
          [] \<Rightarrow> []
        | c # cs \<Rightarrow> (label @ c) # map (\<lambda>c. replicate labelW (CHR '' '') @ c) cs))"

text \<open>Wrapping moves text to other lines and drops spaces at the breaks, nothing else.\<close>

lemma filter_trim: "filter (\<lambda>c. c \<noteq> CHR '' '') (trim_left_chars [CHR '' ''] s) = filter (\<lambda>c. c \<noteq> CHR '' '') s"
  by (induction s) (auto simp: trim_left_chars_def)

lemma filter_trim_right: "filter (\<lambda>c. c \<noteq> CHR '' '') (trim_right_chars [CHR '' ''] s) = filter (\<lambda>c. c \<noteq> CHR '' '') s"
  using filter_trim [of "rev s"] by (simp add: trim_right_chars_def trim_left_chars_def rev_filter [symmetric])

lemma wrap_keeps_text: "filter (\<lambda>c. c \<noteq> CHR '' '') (concat (wrap_chunks w s)) = filter (\<lambda>c. c \<noteq> CHR '' '') s"
proof (induction w s rule: wrap_chunks.induct)
  case (1 w s)
  show ?case
  proof (cases "w > 0 \<and> length (to_runes s) > w")
    case True
    then show ?thesis using 1 [OF True]
      by (simp add: wrap_chunks.simps [of w s] filter_trim filter_trim_right filter_append [symmetric])
  next
    case False
    then show ?thesis by (auto simp: wrap_chunks.simps [of w s])
  qed
qed

text \<open>A value without spaces is cut by bytes: four letters of two bytes each, cut inside the second.\<close>

lemma wrap_cuts_rune:
  "map to_runes (wrap_chunks 3 (of_runes [233, 233, 233, 233])) = [[233, 65533], [65533, 233, 233]]"
  by code_simp

section \<open>The info panel\<close>

definition formatInfoLatency :: "int \<Rightarrow> runes" where
  "formatInfoLatency ms = (if ms \<le> 0 then [8212] else lit (itoa ms @ ''ms''))"

definition formatInfoBytes :: "int \<Rightarrow> runes" where
  "formatInfoBytes n = (if n \<le> 0 then [8212] else lit (itoa n @ '' bytes''))"

definition infoPaneLines :: "render_env \<Rightarrow> model \<Rightarrow> displayed_op list \<Rightarrow> runes list" where
  "infoPaneLines env m displayed =
     (case row_at displayed (tm_Selected m) of
        None \<Rightarrow> [lit ''  (no operation selected '' @ [8212] @ lit '' Tab to approvals, j/k to pick)'']
      | Some d \<Rightarrow> let p = dp_Op d in
          [lit ''  '' @ sgr ''2'' @ lit ''request'' @ colorReset,
           lit ''    method     : '' @ to_runes (op_Method p),
           lit ''    url        : '' @ to_runes (op_URL p),
           lit (''    count      : '' @ itoa (int (dp_Count d))),
           [],
           lit ''  '' @ sgr ''2'' @ lit ''most recent'' @ colorReset,
           lit ''    status     : '' @ to_runes (op_Status p)]
          @ (if op_HoldID p \<noteq> [] then [lit ''    hold_id    : '' @ to_runes (op_HoldID p)] else [])
          @ [lit (''    started    : '' @ format_date (re_local env (op_StartedAt p))),
             lit ''    latency    : '' @ formatInfoLatency (op_LatencyMS p),
             lit ''    response   : '' @ formatInfoBytes (op_ResponseSizeBytes p)])"

definition panelSwitcherHint :: runes where
  "panelSwitcherHint = lit ''[0]hide  [1]console  [2]info  [3]llm  [4]urls''"

definition panelHeaderLine :: "runes \<Rightarrow> nat \<Rightarrow> runes" where
  "panelHeaderLine title cols =
     title @ spaces (max 1 (cols - length title - length panelSwitcherHint)) @ panelSwitcherHint"

definition info_title :: runes where
  "info_title = [9472, 9472] @ lit '' info '' @ [9472, 9472, 32]"

definition renderInfoPane :: "render_env \<Rightarrow> model \<Rightarrow> displayed_op list \<Rightarrow> nat \<Rightarrow> nat \<Rightarrow> runes list" where
  "renderInfoPane env m displayed cols rows =
     (let focused = (tm_Focused m = PaneConsole) in
      if cols < borderMinThreshold then
        panelHeaderLine info_title cols # fill (rows - 1) (spaces cols) (map (cell cols) (infoPaneLines env m displayed))
      else
        (let bodyLines = max 1 (rows - 2); inner = max 1 (cols - 2) in
         [topBorder (formatPaneLabel (lit ''info'') focused) (tab_hint m) cols focused]
         @ map (\<lambda>r. bodyLine r cols focused) (fill bodyLines (spaces inner) (map (cell inner) (infoPaneLines env m displayed)))
         @ [bottomBorder panelSwitcherHint [] cols focused]))"

section \<open>The advisor panel\<close>

definition llmDetailLineCount :: nat where "llmDetailLineCount = 10"

definition digestDetailLines :: "render_env \<Rightarrow> digest \<Rightarrow> nat \<Rightarrow> runes list" where
  "digestDetailLines env d width =
     (let url = dg_Scheme d @ ''://'' @ dg_Host d @ '':'' @ itoa (dg_Port d) @ dg_Path d in
      [lit (''  time       : '' @ format_date (re_local env (dg_Timestamp d))),
       lit ''  method     : '' @ to_runes (dg_Method d)]
      @ map to_runes (wrapAfterLabel ''  url        : '' url width)
      @ [lit ''  effect     : '' @ to_runes (dg_Effect d) @ lit ''   confidence: '' @ to_runes (dg_Confidence d),
         lit ''  outcome    : '' @ to_runes (dg_Outcome d),
         lit ''  advisor_id : '' @ to_runes (dg_AdvisorID d)]
      @ map to_runes (wrapAfterLabel ''  reason     : '' (dg_Reason d) width))"

definition selected_digest :: "model \<Rightarrow> digest option" where
  "selected_digest m = find (\<lambda>d. dg_RequestID d = tm_DigestSelected m) (tm_Digests m)"

definition llmDetailLineCountFor :: "render_env \<Rightarrow> model \<Rightarrow> nat \<Rightarrow> nat" where
  "llmDetailLineCountFor env m cols =
     (if tm_DigestSelected m = [] \<or> cols \<le> 2 then llmDetailLineCount
      else case selected_digest m of
          None \<Rightarrow> llmDetailLineCount
        | Some d \<Rightarrow> length (digestDetailLines env d (cols - 2)))"

definition llmDetailFitsInline :: "nat \<Rightarrow> nat \<Rightarrow> bool" where
  "llmDetailFitsInline panelRows detailLines \<longleftrightarrow> panelRows \<ge> 2 + detailLines + 1"

definition top_rows :: "nat \<Rightarrow> nat" where "top_rows bodyRows = max 3 (bodyRows div 2)"
definition bottom_rows :: "nat \<Rightarrow> nat" where "bottom_rows bodyRows = max 3 (bodyRows - top_rows bodyRows)"

definition shouldRenderLLMModal :: "render_env \<Rightarrow> model \<Rightarrow> nat \<Rightarrow> nat \<Rightarrow> bool" where
  "shouldRenderLLMModal env m cols bodyRows \<longleftrightarrow>
     panel_shown BottomPanelLLM m \<and> tm_DigestExpanded m \<and> tm_DigestSelected m \<noteq> []
       \<and> \<not> llmDetailFitsInline (bottom_rows bodyRows) (llmDetailLineCountFor env m cols)"

definition leadingMark :: "bool \<Rightarrow> bool \<Rightarrow> runes" where
  "leadingMark selected focused = (if selected then chromeColor focused @ [9475, 32] @ colorReset else [32, 32])"

definition llmDigestStartIndex :: "render_env \<Rightarrow> model \<Rightarrow> nat \<Rightarrow> nat \<Rightarrow> nat" where
  "llmDigestStartIndex env m cols bodyLines =
     (case digestSelectedIndex m of
        None \<Rightarrow> 0
      | Some i \<Rightarrow> if i = 0 then 0
          else let extra = (if tm_DigestExpanded m then llmDetailLineCountFor env m cols - 1 else 0) in
            i + 1 - max 1 (bodyLines - extra))"

definition digest_line :: "render_env \<Rightarrow> digest \<Rightarrow> runes" where
  "digest_line env d =
     lit (format_clock (re_local env (dg_Timestamp d))) @ lit ''  '' @ pad_verb 7 (to_runes (dg_Effect d)) @ [32]
       @ pad_verb 7 (to_runes (dg_Confidence d)) @ [32] @ to_runes (dg_Host d) @ lit ''  '' @ [8212, 32] @ to_runes (dg_Reason d)"

text \<open>The lines of one digest: its detail when it is the selected one and expanded.\<close>

definition digest_rows :: "render_env \<Rightarrow> model \<Rightarrow> nat \<Rightarrow> digest \<Rightarrow> runes list" where
  "digest_rows env m contentWidth d =
     (let selected = (dg_RequestID d = tm_DigestSelected m);
          row = (\<lambda>s. leadingMark selected (tm_Focused m = PaneConsole) @ cell contentWidth s) in
      if selected \<and> tm_DigestExpanded m then map row (digestDetailLines env d contentWidth)
      else [row (digest_line env d)])"

definition no_evaluations :: runes where
  "no_evaluations = lit ''(no LLM evaluations yet '' @ [8212] @ lit '' advisor disabled or no traffic)''"

definition llm_body :: "render_env \<Rightarrow> model \<Rightarrow> nat \<Rightarrow> nat \<Rightarrow> nat \<Rightarrow> runes list" where
  "llm_body env m cols contentWidth bodyLines =
     (if displayedDigests m = [] then [leadingMark False (tm_Focused m = PaneConsole) @ cell contentWidth no_evaluations]
      else concat (map (digest_rows env m contentWidth)
        (drop (llmDigestStartIndex env m cols bodyLines) (displayedDigests m))))"

definition llm_title :: runes where
  "llm_title = [9472, 9472] @ lit '' llm '' @ [9472, 9472] @ lit '' ['' @ [8593, 8595] @ lit ''/jk] nav  [Enter] collapse/expand  [Esc] close ''"

definition renderLLMPane :: "render_env \<Rightarrow> model \<Rightarrow> nat \<Rightarrow> nat \<Rightarrow> runes list" where
  "renderLLMPane env m cols rows =
     (let focused = (tm_Focused m = PaneConsole) in
      if cols < borderMinThreshold then
        panelHeaderLine llm_title cols # fill (rows - 1) (spaces cols) (llm_body env m cols (max 1 (cols - 2)) rows)
      else
        (let bodyLines = max 1 (rows - 2); inner = max 1 (cols - 2) in
         [topBorder (formatPaneLabel (lit ''llm'') focused) (tab_hint m) cols focused]
         @ map (\<lambda>r. bodyLine r cols focused)
             (fill bodyLines (spaces inner) (llm_body env m cols (max 1 (inner - 2)) bodyLines))
         @ [bottomBorder (lit ''['' @ [8593, 8595] @ lit ''/jk] nav  [Enter] collapse/expand  [Esc] close'')
              panelSwitcherHint cols focused]))"

definition renderLLMModal :: "render_env \<Rightarrow> model \<Rightarrow> nat \<Rightarrow> nat \<Rightarrow> runes list" where
  "renderLLMModal env m cols rows =
     panelHeaderLine ([9472, 9472] @ lit '' llm detail '' @ [9472, 9472] @ lit '' [Esc] back  [0]/[3] close '') cols
       # fill (rows - 1) (spaces cols)
           (case selected_digest m of
              None \<Rightarrow> [padRight (lit ''  (selected digest no longer in ring '' @ [8212] @ lit '' Esc to return)'') cols]
            | Some d \<Rightarrow> map (cell cols) (digestDetailLines env d cols))"

section \<open>The list panel\<close>

record urls_line =
  ul_text :: runes
  ul_selected :: bool
  ul_marked :: bool

definition inGeneralizeSelection :: "model \<Rightarrow> int \<Rightarrow> bool" where
  "inGeneralizeSelection m idx \<longleftrightarrow> tm_URLsAnchor m \<ge> 0
     \<and> min (tm_URLsAnchor m) (tm_URLsSelected m) \<le> idx \<and> idx \<le> max (tm_URLsAnchor m) (tm_URLsSelected m)"

definition list_header :: "string \<Rightarrow> string list \<Rightarrow> urls_line" where
  "list_header name es = \<lparr>ul_text = lit (''  '' @ name @ '' ('' @ itoa (int (length es)) @ '')''), ul_selected = False, ul_marked = False\<rparr>"

definition list_entries :: "model \<Rightarrow> int \<Rightarrow> string list \<Rightarrow> urls_line list" where
  "list_entries m from es =
     (if es = [] then [\<lparr>ul_text = lit ''    (empty)'', ul_selected = False, ul_marked = False\<rparr>]
      else map (\<lambda>i. \<lparr>ul_text = lit ''    '' @ to_runes (es ! i), ul_selected = (tm_URLsSelected m = from + int i),
        ul_marked = inGeneralizeSelection m (from + int i)\<rparr>) [0..<length es])"

definition buildURLsLines :: "model \<Rightarrow> urls_line list" where
  "buildURLsLines m =
     list_header ''ALLOW'' (tm_AllowList m) # list_entries m 0 (tm_AllowList m)
       @ list_header ''DENY'' (tm_DenyList m) # list_entries m (int (length (tm_AllowList m))) (tm_DenyList m)"

definition urls_row :: "nat \<Rightarrow> urls_line \<Rightarrow> runes" where
  "urls_row w l =
     (if ul_selected l then sgr ''7'' @ cell w (ul_text l) @ colorReset
      else if ul_marked l then sgr ''2'' @ cell w (ul_text l) @ colorReset else cell w (ul_text l))"

definition urls_window :: "nat \<Rightarrow> urls_line list \<Rightarrow> urls_line list" where
  "urls_window bodyRows ls =
     (let first = (case find (\<lambda>i. ul_selected (ls ! i)) [0..<length ls] of
          Some i \<Rightarrow> nat (urlsScrollOffset (int i) (int bodyRows) (int (length ls))) | None \<Rightarrow> 0)
      in take bodyRows (drop first ls))"

definition attach_notice :: runes where
  "attach_notice = lit ''  (allow/deny editing runs on the proxy host '' @ [8212] @ lit '' open `trollbridge run` there)''"

definition urls_keys :: string where
  "urls_keys = ''[jk] nav  [a/d] approve/deny  [+] add  [e] edit  [g] generalize  [s] suggest  [del] rm  [^z] undo''"

definition renderURLsPane :: "model \<Rightarrow> nat \<Rightarrow> nat \<Rightarrow> runes list" where
  "renderURLsPane m cols rows =
     (let focused = (tm_Focused m = PaneConsole) in
      if cols < borderMinThreshold then
        panelHeaderLine ([9472, 9472] @ lit '' urls '' @ [9472, 9472] @ lit ('' '' @ urls_keys @ '' '')) cols
        # fill (rows - 1) (spaces cols)
            (if \<not> tm_URLsLocal m then [padRight attach_notice cols]
             else map (urls_row cols) (urls_window (rows - 1) (buildURLsLines m)))
      else
        (let bodyLines = max 1 (rows - 2); inner = max 1 (cols - 2) in
         [topBorder (formatPaneLabel (lit ''urls'') focused) (tab_hint m) cols focused]
         @ map (\<lambda>r. bodyLine r cols focused)
             (fill bodyLines (spaces inner)
               (if \<not> tm_URLsLocal m then [cell inner attach_notice]
                else map (urls_row inner) (urls_window bodyLines (buildURLsLines m))))
         @ [bottomBorder (lit urls_keys) panelSwitcherHint cols focused]))"

section \<open>The frame\<close>

definition renderBottomPane :: "render_env \<Rightarrow> model \<Rightarrow> nat \<Rightarrow> nat \<Rightarrow> runes list option" where
  "renderBottomPane env m cols rows =
     (case tm_BottomPanel m of
        BottomPanelInfo \<Rightarrow> map_option (\<lambda>displayed. renderInfoPane env m displayed cols rows) (DisplayedOps (re_parse env) m)
      | BottomPanelLLM \<Rightarrow> Some (renderLLMPane env m cols rows)
      | BottomPanelURLs \<Rightarrow> Some (renderURLsPane m cols rows)
      | BottomPanelConsole \<Rightarrow> Some (renderConsolePane m cols rows))"

definition frame_cols :: "model \<Rightarrow> nat" where
  "frame_cols m = (if tm_Cols m < 1 then 80 else nat (tm_Cols m))"

definition frame_height :: "model \<Rightarrow> nat" where
  "frame_height m = (if tm_Rows m < 6 then 24 else nat (tm_Rows m))"

definition buildFrame :: "render_env \<Rightarrow> model \<Rightarrow> runes list option" where
  "buildFrame env m =
     (let cols = frame_cols m; bodyRows = frame_height m in
      if shouldRenderLLMModal env m cols bodyRows then Some (renderLLMModal env m cols bodyRows)
      else if \<not> tm_BottomPanelOpen m then renderApprovalsPane env m cols bodyRows
      else do {
        top \<leftarrow> renderApprovalsPane env m cols (top_rows bodyRows);
        bottom \<leftarrow> renderBottomPane env m cols (bottom_rows bodyRows);
        Some (top @ bottom)
      })"

text \<open>The text of a frame: its lines are terminated but the last.\<close>

fun frame_text :: "runes list \<Rightarrow> runes" where
  "frame_text [] = []"
| "frame_text [l] = l"
| "frame_text (l # ls) = l @ [13, 10] @ frame_text ls"

text \<open>The terminal shows the lines of the frame, one a row, when no line has a line end of its own.\<close>

lemma of_runes_append: "of_runes (a @ b) = of_runes a @ of_runes b"
  by (simp add: of_runes_def)

lemma encode_rune_low: "b \<in> set (encode_rune r) \<Longrightarrow> b < 128 \<Longrightarrow> b = r"
  by (auto simp: encode_rune_def between_def split: if_splits)

lemma of_runes_line_end:
  assumes "n < 128" "0 \<le> n" "n \<notin> set rs" "list_all code_point rs"
  shows "char_of n \<notin> set (of_runes rs)"
proof
  assume "char_of n \<in> set (of_runes rs)"
  then have "n \<in> set (map of_char (of_runes rs))" using assms(1,2) by (force simp: of_char_of image_iff)
  then have "n \<in> set (concat (map encode_rune rs))" using bytes_of_runes [OF assms(4)] by metis
  then show False using encode_rune_low assms(1,3) by auto
qed

lemma trim_line_end: "trim_suffix (a @ carriage) carriage = a"
  by (simp add: trim_suffix_def has_suffix_def carriage_def)

definition one_line :: "runes \<Rightarrow> bool" where
  "one_line l \<longleftrightarrow> 10 \<notin> set l \<and> 13 \<notin> set l \<and> list_all code_point l"

lemma one_line_bytes:
  assumes "one_line l"
  shows "newline \<notin> set (of_runes l)" "trim_suffix (of_runes l) carriage = of_runes l"
proof -
  have "char_of (10 :: int) = (char_of (10 :: nat) :: char)" "char_of (13 :: int) = (char_of (13 :: nat) :: char)" by code_simp+
  moreover have "char_of (10 :: int) \<notin> set (of_runes l)" "char_of (13 :: int) \<notin> set (of_runes l)"
    using of_runes_line_end [of 10 l] of_runes_line_end [of 13 l] assms by (simp_all add: one_line_def)
  ultimately have n: "char_of (10 :: nat) \<notin> set (of_runes l)" "char_of (13 :: nat) \<notin> set (of_runes l)" by metis+
  then show "newline \<notin> set (of_runes l)" by (simp add: newline_def)
  have "\<not> has_suffix (of_runes l) carriage" using n(2) by (auto simp: has_suffix_def carriage_def suffix_def)
  then show "trim_suffix (of_runes l) carriage = of_runes l" by (simp add: trim_suffix_def)
qed

lemma frame_rows_lines: "ls \<noteq> [] \<Longrightarrow> list_all one_line ls \<Longrightarrow> frame_rows (of_runes (frame_text ls)) = map of_runes ls"
proof (induction ls rule: frame_text.induct)
  case (2 l)
  then show ?case using one_line_bytes [of l] by (simp add: frame_rows_def split_on_none)
next
  case (3 l l' ls)
  have "of_runes [13, 10] = carriage @ [newline]" by code_simp
  then have "of_runes (frame_text (l # l' # ls)) = (of_runes l @ carriage) @ newline # of_runes (frame_text (l' # ls))"
    using of_runes_append [of "[13, 10]" "frame_text (l' # ls)"] by (simp add: of_runes_append)
  moreover have "newline \<notin> set (of_runes l @ carriage)" using one_line_bytes(1) [of l] 3(3) by (simp add: carriage_def newline_def)
  ultimately have "frame_rows (of_runes (frame_text (l # l' # ls))) = of_runes l # frame_rows (of_runes (frame_text (l' # ls)))"
    using trim_line_end [of "of_runes l"] by (simp add: frame_rows_def split_on_append del: append_assoc)
  then show ?case using 3 by simp
qed simp

end
