(* ===== verification/TuiFit.thy ===== *)
theory TuiFit
  imports TuiFrame TuiActions
begin

text \<open>
  What every frame of the operator console satisfies: it is drawn, it has one line per row of the
  terminal, and the row the operator decides on is on it.
\<close>

section \<open>How many lines\<close>

lemma length_fill [simp]: "length (fill n blank rows) = n"
  by (simp add: fill_def)

lemma length_pending_card: "length (formatPendingCard env ds sel inner n) \<le> n"
  by (auto simp: formatPendingCard_def window_rows_def Let_def)

lemma top_card_length: "top_card m inner bodyLines = Some c \<Longrightarrow> length c \<le> bodyLines - 1"
  by (auto simp: top_card_def)

lemma card_lines:
  assumes "length upper \<le> body - 1" "length pend \<le> body - length upper - 1" "1 \<le> body"
  shows "max 1 (body - length upper - length pend) + length upper + length pend = (body :: nat)"
  using assms by simp

lemma approvals_bordered_length:
  assumes "renderApprovalsBordered env m displayed cols rows = Some ls"
  shows "length ls = max 4 rows"
proof -
  let ?body = "max 1 (rows - 3)" and ?inner = "max 1 (cols - 2)" and ?split = "opsPendingSplit displayed"
  obtain c where c: "top_card m ?inner ?body = Some c"
    using assms by (auto simp: renderApprovalsBordered_def Let_def)
  define p where "p = formatPendingCard env (drop ?split displayed) (sel_rel m ?split) ?inner (?body - length c - 1)"
  have "length c \<le> ?body - 1" "length p \<le> ?body - length c - 1"
    using top_card_length [OF c] length_pending_card by (auto simp: p_def)
  then have n: "max 1 (?body - length c - length p) + length c + length p = ?body" by (rule card_lines) simp
  obtain t list b where "ls = [t] @ map (\<lambda>r. bodyLineC r cols (chrome_color env m))
      (fill (max 1 (?body - length c - length p)) (spaces ?inner) list @ c @ p @ [status_row m ?inner]) @ [b]"
    using assms unfolding renderApprovalsBordered_def Let_def c option.map p_def [symmetric] by blast
  then have "length ls = (max 1 (?body - length c - length p) + length c + length p) + 3" by simp
  then show ?thesis unfolding n by auto
qed

lemma approvals_no_border_length: "length (renderApprovalsPaneNoBorder env m displayed cols rows) = max 4 rows"
proof -
  let ?body = "max 1 (rows - 3)" and ?split = "opsPendingSplit displayed"
  define p where "p = formatPendingCard env (drop ?split displayed) (sel_rel m ?split) cols (?body - 1)"
  have "length p \<le> ?body - length ([] :: runes list) - 1" using length_pending_card by (auto simp: p_def)
  then have n: "max 1 (?body - length p) + length p = ?body"
    using card_lines [of "[] :: runes list" ?body p] by simp
  have "length (renderApprovalsPaneNoBorder env m displayed cols rows) = (max 1 (?body - length p) + length p) + 3"
    unfolding renderApprovalsPaneNoBorder_def Let_def p_def [symmetric] by simp
  then show ?thesis unfolding n by auto
qed

lemma approvals_pane_length: "renderApprovalsPane env m cols rows = Some ls \<Longrightarrow> length ls = max 4 rows"
  using approvals_bordered_length approvals_no_border_length
  by (auto simp: renderApprovalsPane_def split: Option.bind_splits if_splits)

lemma console_pane_length: "4 \<le> rows \<Longrightarrow> length (renderConsolePane m cols rows) = rows"
  unfolding renderConsolePane_def Let_def by simp arith

lemma panel_lengths:
  assumes "4 \<le> rows"
  shows "length (renderInfoPane env m displayed cols rows) = rows"
    "length (renderLLMPane env m cols rows) = rows" "length (renderURLsPane m cols rows) = rows"
    "length (renderLLMModal env m cols rows) = rows"
  using assms unfolding renderInfoPane_def renderLLMPane_def renderURLsPane_def renderLLMModal_def Let_def
  by (simp; arith)+

lemma bottom_pane_length: "4 \<le> rows \<Longrightarrow> renderBottomPane env m cols rows = Some ls \<Longrightarrow> length ls = rows"
  using panel_lengths console_pane_length
  by (auto simp: renderBottomPane_def split: bottom_panel.splits option.splits)

lemma split_rows: "8 \<le> h \<Longrightarrow> 4 \<le> top_rows h \<and> 4 \<le> bottom_rows h \<and> top_rows h + bottom_rows h = h"
  unfolding top_rows_def bottom_rows_def by linarith

lemma frame_height_six: "6 \<le> frame_height m"
  by (auto simp: frame_height_def)

lemma frame_length:
  assumes "buildFrame env m = Some ls" "8 \<le> frame_height m"
  shows "length ls = frame_height m"
proof -
  note h = split_rows [OF assms(2)]
  consider "shouldRenderLLMModal env m (frame_cols m) (frame_height m)"
    | "renderApprovalsPane env m (frame_cols m) (frame_height m) = Some ls"
    | t b where "renderApprovalsPane env m (frame_cols m) (top_rows (frame_height m)) = Some t"
        "renderBottomPane env m (frame_cols m) (bottom_rows (frame_height m)) = Some b" "ls = t @ b"
    using assms(1) by (auto simp: buildFrame_def Let_def split: if_splits Option.bind_splits)
  then show ?thesis
  proof cases
    case 1
    then show ?thesis using assms panel_lengths(4) [of "frame_height m"] by (auto simp: buildFrame_def Let_def)
  next
    case 2
    then show ?thesis using approvals_pane_length assms(2) by fastforce
  next
    case 3
    have "length t = top_rows (frame_height m)" "length b = bottom_rows (frame_height m)"
      using approvals_pane_length [OF 3(1)] bottom_pane_length [OF _ 3(2)] h by simp_all
    then show ?thesis using 3(3) h by simp
  qed
qed

section \<open>It is drawn\<close>

lemma top_card_drawn: "card_ok (tm_GenCard m) \<Longrightarrow> top_card m inner bodyLines \<noteq> None"
  by (auto simp: top_card_def formatGeneralizeCard_def Current_def card_ok_def split: option.splits)

lemma approvals_pane_drawn:
  assumes "DisplayedOps (re_parse env) m = Some displayed" "card_ok (tm_GenCard m)"
  shows "\<exists>ls. renderApprovalsPane env m cols rows = Some ls"
proof -
  obtain c where "top_card m (max 1 (cols - 2)) (max 1 (rows - 3)) = Some c"
    using top_card_drawn [OF assms(2)] by (metis not_None_eq)
  then show ?thesis using assms(1) by (simp add: renderApprovalsPane_def renderApprovalsBordered_def Let_def)
qed

lemma frame_drawn:
  assumes "ui_ok ui m" "re_parse env = ue_parse ui"
  shows "\<exists>ls. buildFrame env m = Some ls"
proof -
  obtain rows where d: "DisplayedOps (re_parse env) m = Some rows" using ui_rows [OF assms(1)] assms(2) by metis
  have c: "card_ok (tm_GenCard m)" using assms(1) by (simp add: ui_ok_def)
  have "\<exists>b. renderBottomPane env m cols rows = Some b" for cols rows
    using d by (auto simp: renderBottomPane_def split: bottom_panel.split)
  moreover note approvals_pane_drawn [OF d c]
  ultimately show ?thesis by (simp add: buildFrame_def Let_def) (metis bind.bind_lunit)
qed


definition demo_render :: render_env where
  "demo_render = \<lparr>re_parse = (\<lambda>_. None), re_local = (\<lambda>_. \<lparr>cv_Year = 2024, cv_YearDay = 1, cv_Month = 1, cv_Day = 1,
     cv_Hour = 0, cv_Min = 0, cv_Sec = 0\<rparr>), re_now = 0, re_history = None\<rparr>"


text \<open>
  At six and seven rows an open panel makes the frame longer than the terminal: either pane draws four
  lines where three are allotted.
\<close>

lemma short_terminal_overflows:
  assumes "frame_height m = 6" "tm_BottomPanelOpen m" "tm_BottomPanel m = BottomPanelConsole" "buildFrame env m = Some ls"
    "borderMinThreshold \<le> frame_cols m"
  shows "length ls = 8"
proof -
  have r: "top_rows 6 = 3" "bottom_rows 6 = 3" by (simp_all add: top_rows_def bottom_rows_def)
  have "\<not> shouldRenderLLMModal env m (frame_cols m) 6" using assms(3) by (simp add: shouldRenderLLMModal_def panel_shown_def)
  then obtain t where t: "renderApprovalsPane env m (frame_cols m) 3 = Some t" "ls = t @ renderConsolePane m (frame_cols m) 3"
    using assms r by (auto simp: buildFrame_def Let_def renderBottomPane_def split: Option.bind_splits)
  have "length (renderConsolePane m (frame_cols m) 3) = 4" using assms(5) by (simp add: renderConsolePane_def Let_def)
  then show ?thesis using approvals_pane_length [OF t(1)] t(2) by simp
qed

section \<open>The row under the cursor\<close>

lemma window_rows_selected:
  assumes "0 \<le> sel" "sel < int (length ds)" "0 < n"
  shows "highlight True (op_row env w (ds ! nat sel)) \<in> set (window_rows env w sel n ds)"
proof -
  let ?first = "opsScrollOffset sel (int n) (int (length ds))"
  have "in_view ?first sel (int n) (int (length ds))" using cursor_in_view [of sel "int (length ds)" "int n"] assms by simp
  then have "nat sel \<in> set [nat ?first..<min (nat ?first + n) (length ds)]" using assms by (auto simp: in_view_def)
  then show ?thesis using assms(1) by (force simp: window_rows_def Let_def)
qed

lemma pending_card_selected:
  assumes "0 \<le> sel" "sel < int (length ds)" "0 < n"
  shows "highlight True (op_row env w (ds ! nat sel)) \<in> set (formatPendingCard env ds sel w n)"
proof -
  have "ds \<noteq> []" using assms by auto
  then show ?thesis using window_rows_selected [OF assms(1,2)] assms(3) by (auto simp: formatPendingCard_def)
qed

text \<open>The line of a row, in the layout for the width of the terminal.\<close>

definition selected_line :: "render_env \<Rightarrow> model \<Rightarrow> displayed_op \<Rightarrow> runes" where
  "selected_line env m d =
     (if frame_cols m < borderMinThreshold then highlight True (op_row env (frame_cols m) d)
      else bodyLineC (highlight True (op_row env (frame_cols m - 2) d)) (frame_cols m) (chrome_color env m))"

lemma pane_selected:
  assumes d: "DisplayedOps (re_parse env) m = Some displayed" "row_at displayed (tm_Selected m) = Some d" "\<not> row_resolved d"
    and card: "tm_GenCard m = None" "tm_Suggestion m = None \<or> tm_Holds m \<noteq> []" and rows: "5 \<le> rows"
    and pane: "renderApprovalsPane env m (frame_cols m) rows = Some ls"
  shows "selected_line env m d \<in> set ls"
proof -
  let ?split = "opsPendingSplit displayed" and ?cols = "frame_cols m"
  let ?pend = "drop ?split displayed" and ?sel = "sel_rel m (opsPendingSplit displayed)"
  have sel: "0 \<le> tm_Selected m" "nat (tm_Selected m) < length displayed" "d = displayed ! nat (tm_Selected m)"
    using d(2) by (auto simp: row_at_def split: if_splits)
  have ge: "?split \<le> nat (tm_Selected m)"
  proof (rule ccontr)
    assume "\<not> ?split \<le> nat (tm_Selected m)"
    then have "nat (tm_Selected m) < length (takeWhile row_resolved displayed)" by (simp add: opsPendingSplit_def)
    then have "row_resolved (displayed ! nat (tm_Selected m))" using nth_mem set_takeWhileD takeWhile_nth by metis
    then show False using d(3) sel(3) by simp
  qed
  have at: "0 \<le> ?sel" "?sel < int (length ?pend)" "?pend ! nat ?sel = d"
    using sel ge by (auto simp: sel_rel_def nat_diff_distrib)
  have sel_in: "highlight True (op_row env w d) \<in> set (formatPendingCard env ?pend ?sel w n)" if "0 < n" for w n
    using pending_card_selected [OF at(1,2) that] at(3) by metis
  have body: "2 \<le> max 1 (rows - 3)" using rows by simp
  show ?thesis
  proof (cases "?cols < borderMinThreshold")
    case True
    have "ls = renderApprovalsPaneNoBorder env m displayed ?cols rows" using pane d(1) True by (simp add: renderApprovalsPane_def)
    moreover have "0 < max 1 (rows - 3) - 1" using body by simp
    ultimately show ?thesis using True sel_in [of "max 1 (rows - 3) - 1" ?cols]
      by (simp add: selected_line_def renderApprovalsPaneNoBorder_def Let_def)
  next
    case False
    let ?inner = "max 1 (?cols - 2)" and ?body = "max 1 (rows - 3)"
    have inner: "?inner = ?cols - 2" using False by (simp add: borderMinThreshold_def)
    have c: "top_card m ?inner ?body = Some []" using card by (auto simp: top_card_def split: option.split)
    have b: "renderApprovalsBordered env m displayed ?cols rows = Some ls" using pane d(1) False by (simp add: renderApprovalsPane_def)
    define p where "p = formatPendingCard env ?pend ?sel ?inner (?body - length ([] :: runes list) - 1)"
    obtain t xs ys b' where "ls = [t] @ map (\<lambda>r. bodyLineC r ?cols (chrome_color env m)) (xs @ [] @ p @ ys) @ [b']"
      using b unfolding renderApprovalsBordered_def Let_def c option.map p_def [symmetric] by blast
    moreover have "highlight True (op_row env ?inner d) \<in> set p" unfolding p_def using body by (intro sel_in) simp
    ultimately show ?thesis using False unfolding selected_line_def inner by auto
  qed
qed


lemma on_waiting_layout [simp]:
  "tm_Cols on_waiting = 80" "tm_Rows on_waiting = 24" "\<not> tm_BottomPanelOpen on_waiting"
  by (simp_all add: on_waiting_def one_waiting_def initial_model_def Let_def)


text \<open>
  The detail view covers the operations pane but the keys of that pane stay in force once Tab has moved
  the focus there: the request under the cursor is denied while none is on the frame.
\<close>

lemma detail_view_decides_unseen:
  fixes env
  defines "m \<equiv> on_waiting\<lparr>tm_BottomPanelOpen := True, tm_BottomPanel := BottomPanelLLM, tm_DigestExpanded := True, tm_DigestSelected := ''q''\<rparr>"
  shows "\<exists>m'. Apply demo_ui m (demo_key (CHR ''d'')) = Some (m', row_decision False (dp_Op waiting_row))"
    and "buildFrame env m = Some (renderLLMModal env m 80 24)"
    and "renderLLMModal env (m\<lparr>tm_Ops := ops, tm_Holds := hs, tm_Selected := i\<rparr>) cols rows = renderLLMModal env m cols rows"
proof -
  show "\<exists>m'. Apply demo_ui m (demo_key (CHR ''d'')) = Some (m', row_decision False (dp_Op waiting_row))"
    unfolding m_def by (rule waiting_denied [OF disjI1 [OF refl]])
  have size: "frame_cols m = 80" "frame_height m = 24" by (simp_all add: frame_cols_def frame_height_def m_def)
  have "tm_Digests m = []" by (simp add: m_def on_waiting_def one_waiting_def initial_model_def Let_def)
  then have "llmDetailLineCountFor env m 80 = 10" by (simp add: llmDetailLineCountFor_def selected_digest_def llmDetailLineCount_def)
  then have "shouldRenderLLMModal env m 80 24"
    by (simp add: shouldRenderLLMModal_def m_def panel_shown_def llmDetailFitsInline_def bottom_rows_def top_rows_def)
  then show "buildFrame env m = Some (renderLLMModal env m 80 24)" by (simp add: buildFrame_def size)
  show "renderLLMModal env (m\<lparr>tm_Ops := ops, tm_Holds := hs, tm_Selected := i\<rparr>) cols rows = renderLLMModal env m cols rows"
    by (simp add: renderLLMModal_def selected_digest_def)
qed

end
