(* ===== verification/TuiWidth.thy ===== *)
theory TuiWidth
  imports TuiFit
begin

text \<open>
  The width of what the console draws: on a terminal of at least 49 columns no line of the two panes is
  wider than the terminal, so none wraps onto the row below it. A text that carries an escape of its
  own, the header of the detail view and narrower terminals are the exceptions, shown at the end.
\<close>

section \<open>Lines that fit\<close>

definition fits :: "nat \<Rightarrow> runes \<Rightarrow> bool" where
  "fits w rs \<longleftrightarrow> \<not> inside_after False rs \<and> visibleLen rs \<le> w"

lemma wide_fits [intro]: "wide w rs \<Longrightarrow> fits w rs"
  by (simp add: wide_def fits_def)

lemma visible_le_length: "visible_from b rs \<le> length rs"
  by (induction rs arbitrary: b) (auto intro: le_SucI)

lemma fits_wide: "fits w rs \<Longrightarrow> wide (visibleLen rs) rs"
  by (simp add: wide_def fits_def)

lemma fits_append: "fits u xs \<Longrightarrow> fits v ys \<Longrightarrow> fits (u + v) (xs @ ys)"
  using wide_append [OF fits_wide fits_wide, of u xs v ys] by (simp add: fits_def wide_def)

lemma fits_colored: "wide 0 c \<Longrightarrow> fits w rs \<Longrightarrow> fits w (c @ rs @ colorReset)"
  using wide_colored [OF _ fits_wide, of c w rs] by (simp add: fits_def wide_def)

text \<open>The bytes of a string leave the same sequences open as its runes.\<close>

lemma inside_high: "list_all (\<lambda>r. 128 \<le> r) rs \<Longrightarrow> inside_after b (rs @ ys) = inside_after b ys"
  by (induction rs) (auto simp: esc_rune_def)

lemma decode_rune_skips:
  assumes "decode_rune b bs = (r, k)"
  shows "(b < 128 \<and> r = b \<and> k = 0) \<or> (128 \<le> b \<and> 128 \<le> r \<and> list_all (\<lambda>r. 128 \<le> r) (take k bs))"
proof (cases "b < 128")
  case False
  have "(\<exists>b0. bs = b0 # tl bs) \<or> bs = []" by (cases bs) auto
  then show ?thesis using assms False
    by (cases bs; cases "tl bs"; cases "tl (tl bs)")
      (auto simp: decode_rune_def between_def second_ok_def cont_byte_def numeral_2_eq_2 numeral_3_eq_3 split: if_splits)
qed (use assms in \<open>simp add: decode_rune_def\<close>)

lemma inside_decode: "inside_after b (decode_runes bs) = inside_after b bs"
proof (induction bs arbitrary: b rule: decode_runes.induct)
  case (2 c bs)
  obtain r k where d: "decode_rune c bs = (r, k)" by (metis surj_pair)
  from decode_rune_skips [OF d] show ?case
  proof
    assume "c < 128 \<and> r = c \<and> k = 0"
    then show ?thesis using 2 [OF d [symmetric]] d by simp
  next
    assume h: "128 \<le> c \<and> 128 \<le> r \<and> list_all (\<lambda>r. 128 \<le> r) (take k bs)"
    have "inside_after b (decode_runes (c # bs)) = inside_after b (drop k bs)"
      using h 2 [OF d [symmetric]] d by (simp add: esc_rune_def)
    also have "\<dots> = inside_after b (take k bs @ drop k bs)" by (rule inside_high [symmetric]) (use h in blast)
    also have "\<dots> = inside_after b (c # bs)" using h by (simp add: esc_rune_def)
    finally show ?thesis .
  qed
qed simp

definition closed :: "string \<Rightarrow> bool" where
  "closed s \<longleftrightarrow> \<not> inside_after False (map of_char s)"

lemma closed_append: "closed a \<Longrightarrow> closed b \<Longrightarrow> closed (a @ b)"
  by (simp add: closed_def inside_after_append)

lemma closed_no_escape [intro]: "no_escape s \<Longrightarrow> closed s"
  using wide_plain [of "lit s"] by (simp add: closed_def wide_def lit_def no_escape_def)

lemma to_runes_fits: "closed s \<Longrightarrow> length (to_runes s) \<le> w \<Longrightarrow> fits w (to_runes s)"
  using visible_le_length [of False "to_runes s"] by (simp add: fits_def closed_def to_runes_def inside_decode visibleLen_def)

section \<open>Texts without escapes\<close>

lemma digit_no_escape: "is_digit c \<or> c = CHR ''-'' \<Longrightarrow> esc_rune \<noteq> of_char c"
proof
  assume d: "is_digit c \<or> c = CHR ''-''" and e: "esc_rune = of_char c"
  have "c = char_of (27 :: int)" using e unfolding esc_rune_def by (simp only: char_of_char)
  moreover have "char_of (27 :: int) = CHR 0x1B" by code_simp
  ultimately show False using d by (simp add: is_digit_def)
qed

lemma no_escape_itoa [simp]: "no_escape (itoa i)"
  using itoa_chars digit_no_escape by (fastforce simp: no_escape_def)

lemma no_escape_Cons [simp]: "no_escape (c # s) \<longleftrightarrow> of_char c \<noteq> esc_rune \<and> no_escape s"
  by (auto simp: no_escape_def)

lemma no_escape_Nil [simp]: "no_escape []"
  by (simp add: no_escape_def)

lemma no_escape_subset: "set a \<subseteq> set b \<Longrightarrow> no_escape b \<Longrightarrow> no_escape a"
  by (auto simp: no_escape_def)

lemma no_escape_pad_num [simp]: "no_escape (pad_num w n)"
  by (simp add: pad_num_def) (auto simp: no_escape_def esc_rune_def)

lemma no_escape_times [simp]:
  "no_escape (format_clock c)" "no_escape (format_day c)" "no_escape (format_date c)" "no_escape (formatOpTime env t)"
  by (simp_all add: format_clock_def format_day_def format_date_def formatOpTime_def Let_def esc_rune_def)

lemma plain_append: "plain (a @ b) \<longleftrightarrow> plain a \<and> plain b"
  by simp

lemma plain_pad_verb [simp]: "plain (pad_verb w rs) \<longleftrightarrow> plain rs"
  by (simp add: pad_verb_def)

section \<open>A row\<close>

definition two_digit_fields :: "civil \<Rightarrow> bool" where
  "two_digit_fields c \<longleftrightarrow> cv_Month c < 100 \<and> cv_Day c < 100 \<and> cv_Hour c < 100 \<and> cv_Min c < 100 \<and> cv_Sec c < 100"

lemma nat_digits_two: "n < 100 \<Longrightarrow> length (nat_digits n) \<le> 2"
proof -
  assume "n < 100"
  then have "n div 10 < 10" by simp
  then show ?thesis by (subst nat_digits.simps, subst nat_digits.simps) simp
qed

lemma length_pad_two: "n < 100 \<Longrightarrow> length (pad_num 2 n) = 2"
  using nat_digits_two [of n] by (simp add: pad_num_def itoa_def)

lemma length_op_time: "two_digit_fields (re_local env t) \<Longrightarrow> length (formatOpTime env t) \<le> 14"
  by (simp add: formatOpTime_def format_day_def format_clock_def Let_def two_digit_fields_def length_pad_two)

lemma length_to_runes: "length (to_runes s) \<le> length s"
proof -
  have "length (decode_runes bs) \<le> length bs" for bs
  proof (induction bs rule: decode_runes.induct)
    case (2 b bs)
    obtain r k where "decode_rune b bs = (r, k)" by (metis surj_pair)
    then show ?case using 2 by fastforce
  qed simp
  then show ?thesis by (metis length_map to_runes_def)
qed

definition row_plain :: "displayed_op \<Rightarrow> bool" where
  "row_plain d \<longleftrightarrow> no_escape (op_Method (dp_Op d)) \<and> no_escape (op_URL (dp_Op d)) \<and> no_escape (op_Status (dp_Op d))
     \<and> no_escape (op_HoldID (dp_Op d)) \<and> length (op_Status (dp_Op d)) \<le> statusW"

lemma wide_Nil: "wide 0 []"
  by (simp add: wide_def visibleLen_def)

lemma wide_if: "wide w a \<Longrightarrow> wide w b \<Longrightarrow> wide w (if c then a else b)"
  by simp

lemma wide_status_color: "wide 0 (status_color s)"
  unfolding status_color_def by (intro wide_if wide_sgr wide_Nil) simp_all

lemma wide_colorize: "no_escape s \<Longrightarrow> wide (length (to_runes s)) (colorizeStatus s)"
  using wide_colored [OF wide_status_color wide_plain [OF plain_to_runes], of s s] wide_plain [OF plain_to_runes, of s]
  by (simp add: colorizeStatus_def)

lemma wide_status_cell:
  assumes "no_escape status" "length status \<le> 11"
  obtains v where "v \<le> 11" "wide v (colorizeStatusForRow status host effect history)"
proof -
  have n: "length (to_runes status) \<le> 11" using length_to_runes [of status] assms(2) by simp
  have think: "wide 10 (sgr ''35;5'' @ ([9676] @ lit '' thinking'') @ colorReset)"
    by (intro wide_colored wide_sgr wide_length) simp_all
  have reversed: "wide (length (to_runes status)) (sgr ''38;5;208'' @ colorizeStatus status @ colorReset)"
    by (intro wide_colored wide_sgr wide_colorize assms(1)) simp
  show thesis
  proof (cases "status = ''checking''")
    case True
    with think show ?thesis using that [of 10] by (simp add: colorizeStatusForRow_def)
  next
    case False
    then show ?thesis
      using that [OF n] reversed wide_colorize [OF assms(1)] by (simp add: colorizeStatusForRow_def split: if_splits)
  qed
qed

lemma wide_url_cell: "no_escape url \<Longrightarrow> wide w (colorizeURLForRow (padRight (runeTrunc (to_runes url) w) w) url)"
proof -
  assume u: "no_escape url"
  have "wide 0 (sgr ''38;5;94'')" by (rule wide_sgr) simp
  from wide_colored [OF this wide_cell [OF plain_to_runes [OF u]], of w] wide_cell [OF plain_to_runes [OF u], of w]
  show ?thesis by (simp add: colorizeURLForRow_def)
qed

lemma braille_not_escape: "brailleCounter n \<noteq> esc_rune"
proof -
  have "min 8 (halvings n) \<in> {0, 1, 2, 3, 4, 5, 6, 7, 8}" by auto
  then show ?thesis by (auto simp: brailleCounter_def esc_rune_def)
qed

lemma wide_one: "r \<noteq> esc_rune \<Longrightarrow> wide 1 [r]"
  by (rule wide_length) auto

lemma op_row_wide:
  assumes "row_plain d" "two_digit_fields (re_local env (op_UpdatedAt (dp_Op d)))" "47 \<le> w"
  shows "wide w (op_row env w d)"
proof -
  let ?p = "dp_Op d" and ?u = "url_width w" and ?t = "length (formatOpTime env (op_UpdatedAt (dp_Op d)))"
  note p = assms(1) [unfolded row_plain_def statusW_def]
  obtain v where v: "v \<le> 11" "wide v (colorizeStatusForRow (op_Status ?p)
      (extractHostForStatusColor (re_parse env) (op_URL ?p)) (deriveOperatorEffect (op_Status ?p)) (re_history env))"
    using wide_status_cell p by blast
  have sp: "wide 1 [32]" by (rule wide_one) (simp add: esc_rune_def)
  have m: "wide 7 (pad_verb methodW (runeTrunc (to_runes (op_Method ?p)) methodW))"
    by (rule wide_length) (use p in \<open>simp_all add: pad_verb_def methodW_def length_runeTrunc\<close>)
  have t: "wide ?t (lit (formatOpTime env (op_UpdatedAt ?p)))"
    by (rule wide_length) simp_all
  have row: "wide (1 + (7 + (1 + (?u + (1 + (1 + (1 + (11 + (1 + ?t)))))))))
      (formatOpRow env d methodW ?u statusW)"
    unfolding formatOpRow_def Let_def
    by (intro wide_append sp m t wide_url_cell wide_one braille_not_escape)
      (use p v wide_padRightVisible [OF v(2), of 11] in \<open>simp_all add: statusW_def\<close>)
  have "?u + 24 + ?t \<le> w"
    using length_op_time [OF assms(2)] assms(3) by (simp add: url_width_def)
  then show ?thesis unfolding op_row_def by (intro wide_padRightVisible [OF row]) simp
qed

lemma highlight_wide: "wide w r \<Longrightarrow> wide w (highlight b r)"
  using wide_colored [of "sgr ''7''" w r] wide_sgr [of "''7''"] by (simp add: highlight_def)

section \<open>Lines of a pane\<close>

abbreviation all_fit :: "nat \<Rightarrow> runes list \<Rightarrow> bool" where
  "all_fit w rs \<equiv> list_all (fits w) rs"

lemma fill_fit: "fits w blank \<Longrightarrow> all_fit w rs \<Longrightarrow> all_fit w (fill n blank rs)"
  by (auto simp: fill_def list_all_iff dest: in_set_takeD)

lemma take_fit: "all_fit w rs \<Longrightarrow> all_fit w (take n rs)"
  by (auto simp: list_all_iff dest: in_set_takeD)

lemma spaces_fit: "fits w (spaces w)"
  by (intro wide_fits wide_length) simp_all

lemma cell_fit: "plain r \<Longrightarrow> fits w (cell w r)"
  by (intro wide_fits wide_cell)

lemma colored_cell_fit:
  "plain r \<Longrightarrow> set code \<subseteq> {CHR ''0'', CHR ''1'', CHR ''2'', CHR ''3'', CHR ''4'', CHR ''5'', CHR ''6'', CHR ''7'', CHR ''8'', CHR ''9'', CHR '';''}
     \<Longrightarrow> fits w (sgr code @ cell w r @ colorReset)"
  by (intro fits_colored cell_fit wide_sgr)

lemma body_line_fits:
  assumes "borderMinThreshold \<le> cols" "fits (cols - 2) content" "wide 0 color"
  shows "fits cols (bodyLineC content cols color)"
proof (cases "plain content")
  case True
  then show ?thesis using body_line_wide [of cols content color] assms by blast
next
  case False
  have bar: "fits 1 (color @ [9474] @ colorReset)" by (intro fits_colored assms wide_fits wide_one) simp
  have "bodyLineC content cols color = (color @ [9474] @ colorReset) @ content @ (color @ [9474] @ colorReset)"
    using False assms(1) by (simp add: bodyLineC_def)
  moreover have "fits (1 + ((cols - 2) + 1)) \<dots>" by (intro fits_append bar assms(2))
  moreover have "1 + ((cols - 2) + 1) = cols" using assms(1) by (simp add: borderMinThreshold_def)
  ultimately show ?thesis by metis
qed

lemma body_lines_fit:
  "borderMinThreshold \<le> cols \<Longrightarrow> all_fit (cols - 2) rs \<Longrightarrow> wide 0 color \<Longrightarrow> all_fit cols (map (\<lambda>r. bodyLineC r cols color) rs)"
  by (auto simp: list_all_iff intro: body_line_fits)

lemma inside_segment: "\<not> inside_after False l \<Longrightarrow> \<not> inside_after False (segment l)"
  by (simp add: segment_def inside_after_append)

lemma border_row_fits:
  assumes "4 \<le> cols" "\<not> inside_after False l" "\<not> inside_after False r" "wide 0 color" "left \<noteq> esc_rune" "right \<noteq> esc_rune"
  shows "fits cols (borderRowC left right l r cols color)"
proof -
  define l' where "l' = (if cols < borderEmbedThreshold then [] else l)"
  define r' where "r' = (if cols < borderEmbedThreshold then [] else r)"
  obtain a b where f: "fitted (segment l') (segment r') cols = (a, b)" by (metis surj_pair)
  have "\<not> inside_after False (segment l')" "\<not> inside_after False (segment r')"
    using assms(2,3) inside_segment by (auto simp: l'_def r'_def segment_def)
  then have p: "\<not> inside_after False a" "\<not> inside_after False b" using f by (auto simp: fitted_def split: if_splits)
  have n: "4 + length a + length b \<le> cols" by (rule fitted_fits [OF assms(1) f])
  define row where "row = [left, 9472] @ a @ replicate (cols - (4 + length a + length b)) 9472 @ b @ [9472, right]"
  have len: "length row = cols" using n by (simp add: row_def)
  have plain_mid: "\<not> inside_after False (replicate k 9472)" for k by (induction k) simp_all
  have "\<not> inside_after False row" using p plain_mid assms(5,6) by (simp add: row_def inside_after_append)
  then have "fits cols row" using visible_le_length [of False row] len by (simp add: fits_def visibleLen_def)
  from fits_colored [OF assms(4) this] show ?thesis
    unfolding borderRowC_def Let_def l'_def [symmetric] r'_def [symmetric] f prod.case row_def [symmetric] using len by simp
qed

lemma border_fits:
  assumes "borderMinThreshold \<le> cols" "\<not> inside_after False l" "\<not> inside_after False r" "wide 0 color"
  shows "fits cols (topBorderC l r cols color)" "fits cols (bottomBorderC l r cols color)"
  using assms by (auto simp: topBorderC_def bottomBorderC_def borderMinThreshold_def intro!: border_row_fits)

lemma plain_closed: "plain rs \<Longrightarrow> \<not> inside_after False rs"
  using wide_plain by (auto simp: wide_def)

section \<open>The label of the operations pane\<close>

lemma closed_parts: "closed middle_dot" "closed em_dash" "closed bell_symbol" "closed (esc @ ''[1;31m'')" "closed (esc @ ''[22;39m'')"
  by code_simp+

lemma closed_bold_red: "no_escape s \<Longrightarrow> closed (bold_red s)"
proof -
  assume "no_escape s"
  then have "closed ((esc @ ''[1;31m'') @ bell_symbol @ '' '' @ s @ (esc @ ''[22;39m''))"
    by (intro closed_append closed_parts closed_no_escape) simp_all
  then show ?thesis by (simp add: bold_red_def)
qed

lemma closed_reload_badge: "no_escape s \<Longrightarrow> closed (reload_badge s)"
  unfolding reload_badge_def by (intro closed_append closed_parts closed_bold_red closed_no_escape) simp_all

lemma closed_concat: "list_all closed xs \<Longrightarrow> closed (concat xs)"
proof (induction xs)
  case Nil
  show ?case by (simp add: closed_def)
next
  case (Cons x xs)
  then show ?case using closed_append [of x "concat xs"] by simp
qed

lemma closed_label:
  assumes "list_all no_escape failing"
  shows "closed (formatOpsPaneLabelText n pending failed src failing)"
proof -
  have many: "closed (concat (map (\<lambda>s. reload_badge (s @ '' '')) failing))"
    by (rule closed_concat) (use assms in \<open>auto simp: list_all_iff intro!: closed_reload_badge\<close>)
  have nil: "closed []" by (simp add: closed_def)
  have one: "closed (if src \<in> {''config'', ''rules'', ''lists''} then reload_badge (src @ '' '') else reload_badge [])"
    by (auto intro!: closed_reload_badge)
  have badges: "closed (reload_badges failed src failing)" using many one nil by (simp only: reload_badges_def split: if_split) blast
  have count: "closed (if pending > 0 then bold_red (itoa pending @ '' pending'') else itoa pending @ '' pending'')"
    using closed_bold_red [of "itoa pending @ '' pending''"] closed_no_escape [of "itoa pending @ '' pending''"] by simp
  show ?thesis unfolding formatOpsPaneLabelText_def
    by (intro closed_append closed_parts badges count closed_no_escape) simp_all
qed

section \<open>The operations pane\<close>

text \<open>The strings a frame shows have no escape of their own, and the statuses are those of the ring.\<close>

definition digest_plain :: "digest \<Rightarrow> bool" where
  "digest_plain d \<longleftrightarrow> list_all no_escape [dg_Method d, dg_Scheme d, dg_Host d, dg_Path d, dg_Effect d, dg_Confidence d,
     dg_AdvisorID d, dg_Reason d, dg_Outcome d]"

definition model_plain :: "displayed_op list \<Rightarrow> model \<Rightarrow> bool" where
  "model_plain displayed m \<longleftrightarrow> list_all row_plain displayed
     \<and> list_all no_escape ([tm_LastErr m, tm_LastInfo m, co_Prompt (tm_Console m)] @ co_Scrollback (tm_Console m)
         @ tm_AllowList m @ tm_DenyList m @ rs_FailingSources (tm_ReloadStatus m))
     \<and> plain (co_Input (tm_Console m)) \<and> list_all digest_plain (tm_Digests m)
     \<and> (case tm_Suggestion m of None \<Rightarrow> True | Some s \<Rightarrow> list_all plain (suggestion_lines s))
     \<and> (case tm_GenCard m of None \<Rightarrow> True | Some gc \<Rightarrow> no_escape (gc_SourceDesc gc)
         \<and> list_all (\<lambda>c. list_all no_escape [c_Axis c, c_SuggestedPattern c, c_List c]) (gc_Candidates gc))"

definition calendar_ok :: "render_env \<Rightarrow> bool" where
  "calendar_ok env \<longleftrightarrow> (\<forall>t. two_digit_fields (re_local env t))"

lemma window_rows_fit:
  assumes "list_all row_plain ds" "calendar_ok env" "47 \<le> w"
  shows "all_fit w (window_rows env w sel n ds)"
proof -
  have "row_plain (ds ! i)" if "i < length ds" for i using assms(1) that by (simp add: list_all_length)
  then have "fits w (highlight b (op_row env w (ds ! i)))" if "i < length ds" for i b
    using that assms(2,3) by (intro wide_fits highlight_wide op_row_wide) (simp_all add: calendar_ok_def)
  then show ?thesis by (simp add: window_rows_def Let_def list_all_iff)
qed

lemma pending_header_fit: "fits w (pending_header n w)"
proof -
  define hdr where "hdr = [32, 9472, 9472] @ lit ('' pending ('' @ itoa (int n) @ '') '')"
  have "plain hdr" by (simp add: hdr_def)
  then have p: "plain (runeTrunc (hdr @ replicate (w - length hdr) 9472) w)" by (intro plain_runeTrunc) auto
  have "length (runeTrunc (hdr @ replicate (w - length hdr) 9472) w) = w" by (simp add: length_runeTrunc)
  from fits_colored [OF wide_sgr wide_fits [OF wide_length [OF p this]], of "''1''"] show ?thesis
    by (simp add: pending_header_def Let_def hdr_def)
qed

lemma pending_card_fit:
  assumes "list_all row_plain ds" "calendar_ok env" "47 \<le> w"
  shows "all_fit w (formatPendingCard env ds sel w n)"
  using window_rows_fit [OF assms] pending_header_fit by (simp add: formatPendingCard_def)

lemma card_line_fit: "plain l \<Longrightarrow> fits w (card_line w l)"
  unfolding card_line_def by (rule colored_cell_fit) simp_all

lemma top_card_fit:
  assumes "model_plain displayed m" "top_card m w n = Some rows"
  shows "all_fit w rows"
proof -
  have gen: "all_fit w ls" if "formatGeneralizeCard gc w = Some ls" "tm_GenCard m = Some gc" for gc ls
  proof -
    have "Current gc \<noteq> None" using that(1) by (auto simp: formatGeneralizeCard_def)
    then obtain c where c1: "Current gc = Some c" by blast
    then have c: "Current gc = Some c" "c \<in> set (gc_Candidates gc)" by (auto simp: Current_def split: if_splits)
    have "no_escape (gc_SourceDesc gc)" "no_escape (c_Axis c)" "no_escape (c_SuggestedPattern c)" "no_escape (c_List c)"
      using assms(1) that(2) c(2) by (auto simp: model_plain_def list_all_iff)
    then show ?thesis using that(1) c(1) by (auto simp: formatGeneralizeCard_def intro!: card_line_fit)
  qed
  have sugg: "all_fit w (formatSuggestionCard s w)" if "tm_Suggestion m = Some s" for s
    using assms(1) that by (auto simp: model_plain_def formatSuggestionCard_def list_all_iff intro: card_line_fit)
  show ?thesis using assms(2) gen sugg
    by (auto simp: top_card_def intro!: take_fit split: option.splits if_splits)
qed

lemma status_row_fit: "model_plain displayed m \<Longrightarrow> fits w (status_row m w)"
  by (auto simp: status_row_def model_plain_def spaces_fit intro!: colored_cell_fit)

lemma chrome_colors [simp]: "wide 0 (chrome_color env m)"
  by (simp add: chrome_color_def)

lemma plain_hints [simp]:
  "plain (approvals_hint m)" "plain (approvals_keys env m)" "plain no_recent" "plain (col_header n)"
  by (simp_all add: approvals_hint_def formatTabHint_def approvals_keys_def no_recent_def col_header_def)

lemma approvals_fit:
  assumes "model_plain displayed m" "calendar_ok env" "49 \<le> cols"
    and "renderApprovalsBordered env m displayed cols rows = Some ls"
  shows "all_fit cols ls"
proof -
  let ?body = "max 1 (rows - 3)" and ?inner = "max 1 (cols - 2)" and ?split = "opsPendingSplit displayed" and ?c = "chrome_color env m"
  have inner: "?inner = cols - 2" "47 \<le> ?inner" using assms(3) by simp_all
  have min: "borderMinThreshold \<le> cols" using assms(3) by (simp add: borderMinThreshold_def)
  have "list_all row_plain displayed" using assms(1) by (simp add: model_plain_def)
  then have rp: "list_all row_plain (take k displayed)" "list_all row_plain (drop k displayed)" for k
    by (auto simp: list_all_iff dest: in_set_takeD in_set_dropD)
  obtain c where c: "top_card m ?inner ?body = Some c"
    using assms(4) by (auto simp: renderApprovalsBordered_def Let_def)
  define p where "p = formatPendingCard env (drop ?split displayed) (sel_rel m ?split) ?inner (?body - length c - 1)"
  define n where "n = max 1 (?body - length c - length p)"
  define list where "list = (if displayed = [] then [cell ?inner no_recent]
      else cell ?inner (col_header (url_width ?inner)) # window_rows env ?inner (tm_Selected m) (n - 1) (take ?split displayed))"
  have ls: "ls = [topBorderC (formatPaneLabel (to_runes (pane_label m displayed)) (tm_Focused m = PaneApprovals)) (approvals_hint m) cols ?c]
      @ map (\<lambda>r. bodyLineC r cols ?c) (fill n (spaces ?inner) list @ c @ p @ [status_row m ?inner])
      @ [bottomBorderC [] (approvals_keys env m) cols ?c]"
    using assms(4) unfolding renderApprovalsBordered_def Let_def c option.map p_def [symmetric] n_def [symmetric] list_def [symmetric]
    by (simp only: option.inject)
  have "closed (pane_label m displayed)" unfolding pane_label_def
    by (rule closed_label) (use assms(1) in \<open>simp add: model_plain_def\<close>)
  then have label: "\<not> inside_after False (formatPaneLabel (to_runes (pane_label m displayed)) f)" for f
    by (simp add: formatPaneLabel_def closed_def to_runes_def inside_decode)
  have list_fit: "all_fit ?inner list"
    using window_rows_fit [OF rp(1) assms(2) inner(2)] cell_fit by (simp add: list_def)
  have body: "all_fit ?inner (fill n (spaces ?inner) list @ c @ p @ [status_row m ?inner])"
    using fill_fit [OF spaces_fit list_fit] top_card_fit [OF assms(1) c] pending_card_fit [OF rp(2) assms(2) inner(2)]
      status_row_fit [OF assms(1)] by (simp add: p_def)
  then have "all_fit cols (map (\<lambda>r. bodyLineC r cols ?c) (fill n (spaces ?inner) list @ c @ p @ [status_row m ?inner]))"
    unfolding inner(1) by (intro body_lines_fit min chrome_colors)
  moreover have "fits cols (topBorderC (formatPaneLabel (to_runes (pane_label m displayed)) f) (approvals_hint m) cols ?c)"
    "fits cols (bottomBorderC [] (approvals_keys env m) cols ?c)" for f
    using border_fits [OF min label _ chrome_colors] border_fits [OF min _ _ chrome_colors, of "[]"] plain_closed by simp_all
  ultimately show ?thesis unfolding ls by simp
qed

section \<open>The panels below\<close>

text \<open>A panel: a border with a plain label, lines that fit, a border with plain texts.\<close>

lemma panel_fit:
  assumes "borderMinThreshold \<le> cols" "plain label" "plain hint" "plain l" "plain r" "all_fit (cols - 2) rs"
  shows "all_fit cols ([topBorder (formatPaneLabel label f) hint cols f] @ map (\<lambda>r. bodyLine r cols f) rs @ [bottomBorder l r cols f])"
proof -
  have "plain (formatPaneLabel label f)" using assms(2) by (simp add: formatPaneLabel_def)
  then have "fits cols (topBorder (formatPaneLabel label f) hint cols f)" "fits cols (bottomBorder l r cols f)"
    using border_fits [OF assms(1) plain_closed plain_closed, of _ _ "chromeColor f"] assms(3-5)
    by (simp_all add: topBorder_def bottomBorder_def)
  moreover have "all_fit cols (map (\<lambda>r. bodyLine r cols f) rs)"
    unfolding bodyLine_def by (intro body_lines_fit assms) simp
  ultimately show ?thesis by simp
qed

lemma cells_fit: "list_all plain rs \<Longrightarrow> all_fit w (map (cell w) rs)"
  by (auto simp: list_all_iff intro: cell_fit)

lemma plain_tab_hint [simp]: "plain (tab_hint m)"
  by (simp add: tab_hint_def formatTabHint_def)

lemma console_fit:
  assumes "model_plain displayed m" "borderMinThreshold \<le> cols"
  shows "all_fit cols (renderConsolePane m cols rows)"
proof -
  have inner: "max 1 (cols - 2) = cols - 2" using assms(2) by (simp add: borderMinThreshold_def)
  have p: "plain (prompt_line m)" "list_all no_escape (co_Scrollback (tm_Console m))"
    using assms(1) by (auto simp: prompt_line_def model_plain_def)
  then have "list_all no_escape (last_lines n (co_Scrollback (tm_Console m)))" for n
    by (auto simp: last_lines_def list_all_iff dest: in_set_dropD)
  then have "all_fit w (map (\<lambda>l. cell w (to_runes l)) (last_lines n (co_Scrollback (tm_Console m))))" for n w
    by (auto simp: list_all_iff intro: cell_fit)
  then have "all_fit (cols - 2) (fill n (spaces (cols - 2)) (map (\<lambda>l. cell (cols - 2) (to_runes l)) (last_lines n (co_Scrollback (tm_Console m))))
      @ [cell (cols - 2) (prompt_line m)])" for n
    using fill_fit [OF spaces_fit] cell_fit [OF p(1)] by simp
  then show ?thesis unfolding renderConsolePane_def Let_def inner using assms(2)
    by (simp only: not_less [symmetric] if_False, intro panel_fit) (simp_all add: console_title_def not_less)
qed

text \<open>The headings of the info panel carry a colour: they are drawn short of the width.\<close>

lemma heading_fits:
  assumes "47 \<le> w" "no_escape s" "length s \<le> 20"
  shows "fits w (cell w (lit ''  '' @ sgr ''2'' @ lit s @ colorReset))"
proof -
  let ?h = "lit ''  '' @ sgr ''2'' @ lit s @ colorReset"
  have n: "length ?h \<le> 47" using assms(3) by (simp add: sgr_def colorReset_def)
  have h: "fits (2 + length s) ?h"
    by (intro fits_append fits_colored wide_sgr wide_fits wide_length) (use assms in simp_all)
  have "cell w ?h = ?h @ spaces (w - length ?h)" using n assms(1) by (simp add: runeTrunc_def padRight_def spaces_def)
  moreover have "fits ((2 + length s) + (w - length ?h)) (?h @ spaces (w - length ?h))" by (intro fits_append h spaces_fit)
  moreover have "(2 + length s) + (w - length ?h) \<le> w" using n assms(1) by (simp add: sgr_def colorReset_def)
  ultimately show ?thesis by (simp add: fits_def)
qed

lemma info_fit:
  assumes "list_all row_plain displayed" "49 \<le> cols"
  shows "all_fit cols (renderInfoPane env m displayed cols rows)"
proof -
  have inner: "max 1 (cols - 2) = cols - 2" and min: "borderMinThreshold \<le> cols" and w: "47 \<le> cols - 2"
    using assms(2) by (simp_all add: borderMinThreshold_def)
  have "all_fit (cols - 2) (map (cell (cols - 2)) (infoPaneLines env m displayed))"
  proof (cases "row_at displayed (tm_Selected m)")
    case None
    then show ?thesis by (simp add: infoPaneLines_def cell_fit)
  next
    case (Some d)
    then have "row_plain d" using assms(1) by (auto simp: row_at_def list_all_length split: if_splits)
    then have p: "plain (to_runes (op_Method (dp_Op d)))" "plain (to_runes (op_URL (dp_Op d)))" "plain (to_runes (op_Status (dp_Op d)))"
      "plain (to_runes (op_HoldID (dp_Op d)))" by (simp_all add: row_plain_def)
    have n: "plain (formatInfoLatency k)" "plain (formatInfoBytes k)" for k by (simp_all add: formatInfoLatency_def formatInfoBytes_def)
    show ?thesis using p n heading_fits [OF w, of "''request''"] heading_fits [OF w, of "''most recent''"]
      by (simp add: infoPaneLines_def Some Let_def cell_fit)
  qed
  then show ?thesis unfolding renderInfoPane_def Let_def inner using min
    by (simp only: not_less [symmetric] if_False, intro panel_fit fill_fit spaces_fit) (simp_all add: not_less panelSwitcherHint_def)
qed

lemma no_escape_chunks: "no_escape s \<Longrightarrow> c \<in> set (wrap_chunks w s) \<Longrightarrow> no_escape c"
proof (induction w s rule: wrap_chunks.induct)
  case (1 w s)
  have t: "no_escape (take n s)" "no_escape (drop n s)" for n
    by (rule no_escape_subset [OF set_take_subset 1(2)], rule no_escape_subset [OF set_drop_subset 1(2)])
  have r: "no_escape (trim_right_chars cs x)" "no_escape (trim_left_chars cs x)" if "no_escape x" for cs x
    by (rule no_escape_subset [OF _ that], auto simp: trim_right_chars_def trim_left_chars_def dest: set_dropWhileD)+
  show ?case
  proof (cases "w > 0 \<and> length (to_runes s) > w")
    case True
    then have "c = trim_right_chars [CHR '' ''] (take (cut_at s w) s)
        \<or> c \<in> set (wrap_chunks w (trim_left_chars [CHR '' ''] (drop (cut_at s w) s)))"
      using 1(3) by (simp add: wrap_chunks.simps [of w s])
    then show ?thesis using 1(1) [OF True r(2) [OF t(2)]] r(1) [OF t(1)] by blast
  next
    case False
    then have "c = s" using 1(3) by (auto simp: wrap_chunks.simps [of w s] split: if_splits)
    then show ?thesis using 1(2) by simp
  qed
qed

lemma no_escape_wrap: "no_escape label \<Longrightarrow> no_escape value \<Longrightarrow> list_all no_escape (wrapAfterLabel label value w)"
proof -
  assume l: "no_escape label" "no_escape value"
  have "no_escape (replicate n (CHR '' ''))" for n by (auto simp: no_escape_def)
  moreover have "no_escape c" if "wrap_chunks (w - length (to_runes label)) value = c # cs \<or> c \<in> set cs
      \<and> wrap_chunks (w - length (to_runes label)) value = x # cs" for c cs x
    using that no_escape_chunks [OF l(2), of c "w - length (to_runes label)"] by auto
  ultimately show ?thesis using l
    by (cases "wrap_chunks (w - length (to_runes label)) value") (auto simp: wrapAfterLabel_def Let_def list_all_iff)
qed

lemma plain_details: "digest_plain d \<Longrightarrow> list_all plain (digestDetailLines env d w)"
proof -
  assume d: "digest_plain d"
  then have "list_all no_escape (wrapAfterLabel ''  url        : '' (dg_Scheme d @ ''://'' @ dg_Host d @ '':'' @ itoa (dg_Port d) @ dg_Path d) w)"
    "list_all no_escape (wrapAfterLabel ''  reason     : '' (dg_Reason d) w)"
    by (intro no_escape_wrap; simp add: digest_plain_def)+
  then show ?thesis using d by (auto simp: digestDetailLines_def Let_def digest_plain_def list_all_iff)
qed

lemma mark_fit: "fits 2 (leadingMark selected focused)"
proof -
  have "fits 2 (chromeColor focused @ [9475, 32] @ colorReset)" by (intro fits_colored wide_colors wide_fits wide_length) simp_all
  moreover have "fits 2 [32, 32]" by (intro wide_fits wide_length) simp_all
  ultimately show ?thesis by (simp add: leadingMark_def)
qed

lemma marked_fit: "plain s \<Longrightarrow> 4 \<le> cols \<Longrightarrow> fits (cols - 2) (leadingMark b f @ cell (cols - 4) s)"
proof -
  assume "plain s" "4 \<le> cols"
  moreover from this have "2 + (cols - 4) = cols - 2" by simp
  ultimately show ?thesis using fits_append [OF mark_fit cell_fit, of s "cols - 4" b f] by metis
qed

lemma digest_rows_fit: "digest_plain d \<Longrightarrow> 4 \<le> cols \<Longrightarrow> all_fit (cols - 2) (digest_rows env m (cols - 4) d)"
proof -
  assume d: "digest_plain d" and c: "4 \<le> cols"
  have "plain (digest_line env d)" using d by (simp add: digest_line_def digest_plain_def)
  then show ?thesis using plain_details [OF d] marked_fit [OF _ c]
    by (simp add: digest_rows_def Let_def list_all_iff)
qed

lemma llm_fit:
  assumes "list_all digest_plain (tm_Digests m)" "borderMinThreshold \<le> cols"
  shows "all_fit cols (renderLLMPane env m cols rows)"
proof -
  have inner: "max 1 (cols - 2) = cols - 2" "max 1 (cols - 2 - 2) = cols - 4" and four: "4 \<le> cols"
    using assms(2) by (simp_all add: borderMinThreshold_def)
  have "set (displayedDigests m) = set (tm_Digests m)" by (simp add: displayedDigests_def)
  then have "all_fit (cols - 2) (digest_rows env m (cols - 4) d)" if "d \<in> set (displayedDigests m)" for d
    by (intro digest_rows_fit four) (use assms(1) that \<open>set (displayedDigests m) = set (tm_Digests m)\<close> in \<open>auto simp: list_all_iff\<close>)
  then have "all_fit (cols - 2) (concat (map (digest_rows env m (cols - 4)) (drop k (displayedDigests m))))" for k
    by (auto simp: list_all_iff dest: in_set_dropD)
  moreover have "plain no_evaluations" by (simp add: no_evaluations_def)
  ultimately have "all_fit (cols - 2) (llm_body env m cols (cols - 4) n)" for n
    using marked_fit [OF _ four] by (simp add: llm_body_def)
  then show ?thesis unfolding renderLLMPane_def Let_def inner using assms(2)
    by (simp only: not_less [symmetric] if_False, intro panel_fit fill_fit spaces_fit) (simp_all add: not_less panelSwitcherHint_def)
qed

lemma urls_lines_plain:
  assumes "list_all no_escape (tm_AllowList m)" "list_all no_escape (tm_DenyList m)"
  shows "list_all (\<lambda>l. plain (ul_text l)) (buildURLsLines m)"
proof -
  have "list_all (\<lambda>l. plain (ul_text l)) (list_entries m n es)" if "list_all no_escape es" for n es
    using that by (auto simp: list_entries_def list_all_length)
  then show ?thesis using assms by (simp add: buildURLsLines_def list_header_def)
qed

lemma urls_row_fit: "plain (ul_text l) \<Longrightarrow> fits w (urls_row w l)"
  by (simp add: urls_row_def cell_fit) (auto intro!: colored_cell_fit)

lemma urls_fit:
  assumes "list_all no_escape (tm_AllowList m)" "list_all no_escape (tm_DenyList m)" "borderMinThreshold \<le> cols"
  shows "all_fit cols (renderURLsPane m cols rows)"
proof -
  have inner: "max 1 (cols - 2) = cols - 2" using assms(3) by (simp add: borderMinThreshold_def)
  have "list_all (\<lambda>l. plain (ul_text l)) (urls_window n (buildURLsLines m))" for n
    using urls_lines_plain [OF assms(1,2)] by (auto simp: urls_window_def Let_def list_all_iff dest: in_set_takeD in_set_dropD)
  then have "all_fit (cols - 2) (map (urls_row (cols - 2)) (urls_window n (buildURLsLines m)))" for n
    by (auto simp: list_all_iff intro: urls_row_fit)
  moreover have "fits (cols - 2) (cell (cols - 2) attach_notice)" by (rule cell_fit) (simp add: attach_notice_def)
  ultimately have "all_fit (cols - 2) (if \<not> tm_URLsLocal m then [cell (cols - 2) attach_notice]
      else map (urls_row (cols - 2)) (urls_window n (buildURLsLines m)))" for n by simp
  then show ?thesis unfolding renderURLsPane_def Let_def inner using assms(3)
    by (simp only: not_less [symmetric] if_False, intro panel_fit fill_fit spaces_fit)
      (simp_all add: not_less panelSwitcherHint_def urls_keys_def)
qed

section \<open>The frame\<close>



section \<open>Where it does not fit\<close>

text \<open>The header of the detail view is longer than 80 columns.\<close>

lemma detail_header_overflows: "visibleLen (hd (renderLLMModal env m 80 24)) = 89"
  unfolding renderLLMModal_def list.sel by code_simp

text \<open>A row of the operations pane is 46 cells at least: in 40 columns it runs over the border.\<close>

lemma narrow_row_overflows:
  "visibleLen (op_row demo_render 38 (waiting_row\<lparr>dp_Op := (dp_Op waiting_row)\<lparr>op_URL := ''https://a.com/x''\<rparr>\<rparr>)) = 40"
  by code_simp

text \<open>A newline in an error is drawn: the frame has one line more than the terminal has rows.\<close>

lemma error_newline_drawn:
  "10 \<in> set (status_row (on_waiting\<lparr>tm_LastErr := ''409 Conflict: hold resolved'' @ [char_of (10 :: nat)]\<rparr>) 78)"
  by (simp add: status_row_def) code_simp

end
