(* ===== verification/HoldWatch.thy ===== *)
theory HoldWatch
  imports Types
begin

text \<open>
  \<open>holdInterceptedRequest\<close> of \<open>internal/server/intercept.go\<close>: while an intercepted request is held, a
  watcher peeks at the tunnel so that a client that goes away releases its waiter. The handler, the
  watcher and the client are interleaved. A byte is a character; \<open>hw_lost\<close> and \<open>hw_sent\<close> are history:
  what a reset of the reader threw away, and all the client sent since the hold began.
\<close>

section \<open>States and steps\<close>

datatype hold_pc = Hold_waiting | Hold_returned | Interrupting | Joining | Hold_finished
datatype watcher = Peeking | Peek_done

record hold_watch =
  hw_pc :: hold_pc
  hw_watcher :: watcher
  hw_buffer :: string
  hw_incoming :: string
  hw_closed :: bool
  hw_deadline :: bool
  hw_resolved :: bool
  hw_stopped :: bool
  hw_cancelled :: bool
  hw_lost :: string
  hw_sent :: string

definition hold_start :: "string \<Rightarrow> hold_watch" where
  "hold_start buffered = \<lparr>hw_pc = Hold_waiting, hw_watcher = Peeking, hw_buffer = buffered, hw_incoming = [], hw_closed = False,
     hw_deadline = False, hw_resolved = False, hw_stopped = False, hw_cancelled = False, hw_lost = [], hw_sent = buffered\<rparr>"

text \<open>
  A hold starts with what the reader holds of the next request. The client sends a byte or closes; the
  hold is resolved by somebody; the server stops. The watcher's \<open>Peek\<close> returns at once when the buffer is not empty;
  else when bytes can be read, taking some of them into the buffer; and it fails when the client has closed and
  nothing is left, or when the read deadline has passed. The handler returns from the wait when the
  hold is resolved, or its context or that of the server is cancelled; it cancels the context, looks whether the watcher has
  finished, and otherwise sets a deadline in the past, joins the watcher, and resets deadline and reader.
\<close>

inductive hold_step :: "hold_watch \<Rightarrow> hold_watch \<Rightarrow> bool" where
  client_sends: "\<not> hw_closed s \<Longrightarrow> hold_step s (s\<lparr>hw_incoming := hw_incoming s @ [b], hw_sent := hw_sent s @ [b]\<rparr>)"
| client_closes: "hold_step s (s\<lparr>hw_closed := True\<rparr>)"
| hold_resolves: "hold_step s (s\<lparr>hw_resolved := True\<rparr>)"
| server_stops: "hold_step s (s\<lparr>hw_stopped := True\<rparr>)"
| peek_buffered: "hw_watcher s = Peeking \<Longrightarrow> hw_buffer s \<noteq> [] \<Longrightarrow> hold_step s (s\<lparr>hw_watcher := Peek_done\<rparr>)"
| peek_reads: "hw_watcher s = Peeking \<Longrightarrow> hw_buffer s = [] \<Longrightarrow> \<not> hw_deadline s \<Longrightarrow> 0 < n \<Longrightarrow> n \<le> length (hw_incoming s) \<Longrightarrow>
    hold_step s (s\<lparr>hw_watcher := Peek_done, hw_buffer := take n (hw_incoming s),
      hw_incoming := drop n (hw_incoming s)\<rparr>)"
| peek_fails: "hw_watcher s = Peeking \<Longrightarrow> hw_buffer s = [] \<Longrightarrow> hw_deadline s \<or> hw_closed s \<and> hw_incoming s = [] \<Longrightarrow>
    hold_step s (s\<lparr>hw_watcher := Peek_done, hw_cancelled := True\<rparr>)"
| wait_returns: "hw_pc s = Hold_waiting \<Longrightarrow> hw_resolved s \<or> hw_stopped s \<or> hw_cancelled s \<Longrightarrow>
    hold_step s (s\<lparr>hw_pc := Hold_returned, hw_cancelled := True\<rparr>)"
| select_done: "hw_pc s = Hold_returned \<Longrightarrow> hw_watcher s = Peek_done \<Longrightarrow> hold_step s (s\<lparr>hw_pc := Hold_finished\<rparr>)"
| select_default: "hw_pc s = Hold_returned \<Longrightarrow> hw_watcher s = Peeking \<Longrightarrow> hold_step s (s\<lparr>hw_pc := Interrupting\<rparr>)"
| set_deadline: "hw_pc s = Interrupting \<Longrightarrow> hold_step s (s\<lparr>hw_deadline := True, hw_pc := Joining\<rparr>)"
| join_and_reset: "hw_pc s = Joining \<Longrightarrow> hw_watcher s = Peek_done \<Longrightarrow>
    hold_step s (s\<lparr>hw_pc := Hold_finished, hw_deadline := False, hw_lost := hw_lost s @ hw_buffer s, hw_buffer := []\<rparr>)"

definition hold_reachable :: "hold_watch \<Rightarrow> bool" where
  "hold_reachable s \<longleftrightarrow> (\<exists>buffered. hold_step\<^sup>*\<^sup>* (hold_start buffered) s)"

section \<open>Invariant\<close>

definition watch_ok :: "hold_watch \<Rightarrow> bool" where
  "watch_ok s \<longleftrightarrow>
     (hw_deadline s \<longleftrightarrow> hw_pc s = Joining)
     \<and> (hw_pc s = Hold_finished \<longrightarrow> hw_watcher s = Peek_done)
     \<and> (hw_pc s = Hold_waiting \<longrightarrow> hw_lost s = [] \<and> (hw_cancelled s \<longrightarrow> hw_closed s \<and> hw_incoming s = [] \<and> hw_buffer s = [] \<and> hw_watcher s = Peek_done))
     \<and> (hw_pc s \<noteq> Hold_finished \<longrightarrow> hw_lost s = [])
     \<and> (hw_closed s \<or> hw_pc s \<noteq> Hold_waiting \<or> \<not> hw_cancelled s)
     \<and> hw_sent s = hw_lost s @ hw_buffer s @ hw_incoming s"

lemma watch_start: "watch_ok (hold_start buffered)"
  by (simp add: watch_ok_def hold_start_def)

lemma watch_step: "hold_step s t \<Longrightarrow> watch_ok s \<Longrightarrow> watch_ok t"
  by (induction rule: hold_step.induct) (auto simp: watch_ok_def)

lemma watch_run: "hold_step\<^sup>*\<^sup>* (hold_start buffered) s \<Longrightarrow> watch_ok s"
  by (induction rule: rtranclp_induct) (auto intro: watch_start watch_step)

lemma watch_reachable: "hold_reachable s \<Longrightarrow> watch_ok s"
  using watch_run by (auto simp: hold_reachable_def)


section \<open>The handler returns\<close>

text \<open>Steps in which the client neither sends nor closes.\<close>

definition quiet_steps :: "hold_watch \<Rightarrow> hold_watch \<Rightarrow> bool" where
  "quiet_steps s t \<longleftrightarrow> hold_step\<^sup>*\<^sup>* s t \<and> hw_sent t = hw_sent s \<and> hw_closed t = hw_closed s"

lemma quiet_refl: "quiet_steps s s"
  by (simp add: quiet_steps_def)

lemma quiet_step:
  assumes "hold_step s u" "hw_sent u = hw_sent s" "hw_closed u = hw_closed s" "quiet_steps u t"
  shows "quiet_steps s t"
  using assms by (simp add: quiet_steps_def converse_rtranclp_into_rtranclp)

lemma finish_joined:
  assumes "hw_pc s = Joining" "hw_watcher s = Peek_done"
  shows "\<exists>t. quiet_steps s t \<and> hw_pc t = Hold_finished"
  using quiet_step [OF join_and_reset [OF assms] _ _ quiet_refl] by fastforce

lemma finish_joining:
  assumes "hw_pc s = Joining" "hw_deadline s"
  shows "\<exists>t. quiet_steps s t \<and> hw_pc t = Hold_finished"
proof (cases "hw_watcher s")
  case Peeking
  show ?thesis
  proof (cases "hw_buffer s = []")
    case True
    let ?u = "s\<lparr>hw_watcher := Peek_done, hw_cancelled := True\<rparr>"
    obtain t where "quiet_steps ?u t" "hw_pc t = Hold_finished" using finish_joined [of ?u] assms(1) by auto
    then show ?thesis using quiet_step [OF peek_fails, of s t] Peeking True assms(2) by auto
  next
    case False
    let ?u = "s\<lparr>hw_watcher := Peek_done\<rparr>"
    obtain t where "quiet_steps ?u t" "hw_pc t = Hold_finished" using finish_joined [of ?u] assms(1) by auto
    then show ?thesis using quiet_step [OF peek_buffered, of s t] Peeking False by auto
  qed
next
  case Peek_done
  then show ?thesis by (rule finish_joined [OF assms(1)])
qed

lemma finish_returned:
  assumes "hw_pc s = Hold_returned"
  shows "\<exists>t. quiet_steps s t \<and> hw_pc t = Hold_finished"
proof (cases "hw_watcher s")
  case Peeking
  let ?u = "s\<lparr>hw_pc := Interrupting\<rparr>" and ?v = "s\<lparr>hw_deadline := True, hw_pc := Joining\<rparr>"
  obtain t where t: "quiet_steps ?v t" "hw_pc t = Hold_finished" using finish_joining [of ?v] by auto
  have "hold_step ?u ?v" using set_deadline [of ?u] by simp
  then have "quiet_steps ?u t" by (rule quiet_step) (use t in simp_all)
  then have "quiet_steps s t" by (intro quiet_step [OF select_default [OF assms Peeking]]) simp_all
  then show ?thesis using t(2) by blast
next
  case Peek_done
  show ?thesis using quiet_step [OF select_done [OF assms Peek_done] _ _ quiet_refl] by fastforce
qed

text \<open>
  No intercepted request is stuck after its hold. From every reachable state in which the hold was
  resolved, its client has gone or the server stops, the handler can return without the client doing anything: the
  deadline ends the peek of an idle connection.
\<close>

lemma held_handler_returns:
  assumes "hold_reachable s" "hw_resolved s \<or> hw_stopped s \<or> hw_cancelled s"
  shows "\<exists>t. quiet_steps s t \<and> hw_pc t = Hold_finished"
proof (cases "hw_pc s")
  case Hold_waiting
  let ?u = "s\<lparr>hw_pc := Hold_returned, hw_cancelled := True\<rparr>"
  obtain t where "quiet_steps ?u t" "hw_pc t = Hold_finished" using finish_returned [of ?u] by auto
  then show ?thesis using quiet_step [OF wait_returns [OF Hold_waiting assms(2)], of t] by auto
next
  case Hold_returned
  then show ?thesis by (rule finish_returned)
next
  case Interrupting
  let ?v = "s\<lparr>hw_deadline := True, hw_pc := Joining\<rparr>"
  obtain t where "quiet_steps ?v t" "hw_pc t = Hold_finished" using finish_joining [of ?v] by auto
  then show ?thesis using quiet_step [OF set_deadline [OF Interrupting], of t] by auto
next
  case Joining
  then show ?thesis using finish_joining watch_reachable [OF assms(1)] by (simp add: watch_ok_def)
next
  case Hold_finished
  then show ?thesis using quiet_refl by blast
qed

section \<open>Runs\<close>

lemma reach_step: "hold_reachable s \<Longrightarrow> hold_step s t \<Longrightarrow> hold_reachable t"
  unfolding hold_reachable_def by (blast intro: rtranclp.rtrancl_into_rtrancl)

lemma reach_start: "hold_reachable (hold_start buffered)"
  unfolding hold_reachable_def by blast

text \<open>The hold is resolved, the watcher is found peeking, and then the next request arrives.\<close>

definition resolved_idle :: hold_watch where
  "resolved_idle = (hold_start [])\<lparr>hw_resolved := True, hw_cancelled := True, hw_pc := Interrupting\<rparr>"

lemma resolved_idle_reachable: "hold_reachable resolved_idle"
proof -
  have "hold_reachable ((hold_start [])\<lparr>hw_resolved := True\<rparr>)" by (rule reach_step [OF reach_start hold_resolves])
  then have "hold_reachable ((hold_start [])\<lparr>hw_resolved := True, hw_pc := Hold_returned, hw_cancelled := True\<rparr>)"
    by (rule reach_step) (use wait_returns [of "(hold_start [])\<lparr>hw_resolved := True\<rparr>"] in \<open>simp add: hold_start_def\<close>)
  then show ?thesis
    by (rule reach_step)
      (use select_default [of "(hold_start [])\<lparr>hw_resolved := True, hw_pc := Hold_returned, hw_cancelled := True\<rparr>"]
        in \<open>simp add: hold_start_def resolved_idle_def\<close>)
qed


lemma held_handler_returns_example: "\<exists>t. quiet_steps resolved_idle t \<and> hw_pc t = Hold_finished"
  using held_handler_returns [OF resolved_idle_reachable] by (simp add: resolved_idle_def)

text \<open>
  The reset is called lossless because the buffer is empty. It is not empty when the next request arrives
  between the look at the watcher and the deadline: its bytes are thrown away and the client waits for
  an answer that does not come.
\<close>

lemma next_request_lost:
  "\<exists>s. hold_reachable s \<and> hw_pc s = Hold_finished \<and> hw_sent s = ''G'' \<and> hw_lost s = ''G'' \<and> hw_incoming s = [] \<and> hw_buffer s = []"
proof -
  let ?a = "resolved_idle\<lparr>hw_incoming := ''G'', hw_sent := ''G''\<rparr>"
  let ?b = "?a\<lparr>hw_watcher := Peek_done, hw_buffer := ''G'', hw_incoming := []\<rparr>"
  let ?c = "?b\<lparr>hw_deadline := True, hw_pc := Joining\<rparr>"
  have "hold_step resolved_idle ?a" using client_sends [of resolved_idle "CHR ''G''"] by (simp add: resolved_idle_def hold_start_def)
  moreover have "hold_step ?a ?b" using peek_reads [of ?a 1] by (simp add: resolved_idle_def hold_start_def)
  moreover have "hold_step ?b ?c" using set_deadline [of ?b] by (simp add: resolved_idle_def hold_start_def)
  moreover have "hold_step ?c (?c\<lparr>hw_pc := Hold_finished, hw_deadline := False, hw_lost := ''G'', hw_buffer := []\<rparr>)"
    using join_and_reset [of ?c] by (simp add: resolved_idle_def hold_start_def)
  ultimately have "hold_reachable (?c\<lparr>hw_pc := Hold_finished, hw_deadline := False, hw_lost := ''G'', hw_buffer := []\<rparr>)"
    using resolved_idle_reachable reach_step by blast
  then show ?thesis by (intro exI conjI) (assumption, simp_all)
qed

end
