(* ===== verification/Translator.thy ===== *)
theory Translator
  imports Advisor Redact Config
begin

text \<open>
  The wire formats of the advisor's providers (\<open>internal/advisor\<close>: \<open>translator.go\<close>,
  \<open>anthropic_translator.go\<close>, \<open>aoai_translator.go\<close>, \<open>aoai_responses_translator.go\<close>,
  \<open>aoai_endpoint.go\<close>), the transport around them (\<open>HTTPClassifier\<close>) and the choice among them
  (\<open>buildAdvisorProvider\<close> of \<open>internal/server/server.go\<close>). The JSON text of a value, its parser with
  the texts of its errors, the JSON of the advisor's input, the prompt texts and the HTTP client are
  parameters, and the text of arguments sent as a JSON value is the value printed again; what \<open>json.Unmarshal\<close> does with a parsed value and a struct is modelled. Log calls are
  left out.
\<close>

record wire_codec =
  wc_input :: "advisor_input \<Rightarrow> string"
  wc_marshal :: "json \<Rightarrow> string"
  wc_unmarshal :: "string \<Rightarrow> string + json"
  wc_mismatch :: "json \<Rightarrow> string"
  wc_quote :: "string \<Rightarrow> string"
  wc_baseline :: "bool \<Rightarrow> string"
  wc_toolDescription :: string
  wc_decisionSchema :: json

section \<open>A JSON value into a struct\<close>

text \<open>
  Fields are matched by name, else by name up to case; unknown keys are skipped, later keys win, null
  leaves a field alone, and a value of the wrong type makes the call fail. Each field of a struct is a
  name and what decoding into it does to the struct.
\<close>

type_synonym 'r field = "string \<times> (json \<Rightarrow> 'r \<Rightarrow> 'r option)"

definition dec_string :: "json \<Rightarrow> string \<Rightarrow> string option" where
  "dec_string v cur = (case v of JNull \<Rightarrow> Some cur | JString s \<Rightarrow> Some s | _ \<Rightarrow> None)"

definition dec_list :: "(json \<Rightarrow> 'a \<Rightarrow> 'a option) \<Rightarrow> 'a \<Rightarrow> json \<Rightarrow> 'a list option" where
  "dec_list d zero v = (case v of JNull \<Rightarrow> Some [] | JArray xs \<Rightarrow> those (map (\<lambda>x. d x zero) xs) | _ \<Rightarrow> None)"

definition find_field :: "'r field list \<Rightarrow> string \<Rightarrow> (json \<Rightarrow> 'r \<Rightarrow> 'r option) option" where
  "find_field fs k =
     (case map_of fs k of Some d \<Rightarrow> Some d | None \<Rightarrow> map_option snd (find (\<lambda>(n, _). equal_fold n k) fs))"

definition dec_key :: "'r field list \<Rightarrow> string \<times> json \<Rightarrow> 'r option \<Rightarrow> 'r option" where
  "dec_key fs kv acc = Option.bind acc (\<lambda>r. case find_field fs (fst kv) of None \<Rightarrow> Some r | Some d \<Rightarrow> d (snd kv) r)"

definition dec_struct :: "'r field list \<Rightarrow> json \<Rightarrow> 'r \<Rightarrow> 'r option" where
  "dec_struct fs v r =
     (case v of JNull \<Rightarrow> Some r | JObject kvs \<Rightarrow> fold (dec_key fs) kvs (Some r) | _ \<Rightarrow> None)"

definition string_field :: "string \<Rightarrow> ('r \<Rightarrow> string) \<Rightarrow> (string \<Rightarrow> 'r \<Rightarrow> 'r) \<Rightarrow> 'r field" where
  "string_field name get put = (name, \<lambda>v r. map_option (\<lambda>s. put s r) (dec_string v (get r)))"

text \<open>The structured answer.\<close>

definition zero_output :: advisor_output where
  "zero_output = \<lparr>out_Effect = [], out_Scope = [], out_Reason = [], out_Modifiers = [], out_Confidence = [], out_AdvisorID = []\<rparr>"

definition output_fields :: "advisor_output field list" where
  "output_fields =
     [string_field ''effect'' out_Effect (\<lambda>s r. r\<lparr>out_Effect := s\<rparr>),
      string_field ''scope'' out_Scope (\<lambda>s r. r\<lparr>out_Scope := s\<rparr>),
      string_field ''reason'' out_Reason (\<lambda>s r. r\<lparr>out_Reason := s\<rparr>),
      (''modifiers'', \<lambda>v r. map_option (\<lambda>m. r\<lparr>out_Modifiers := m\<rparr>) (dec_list dec_string [] v)),
      string_field ''confidence'' out_Confidence (\<lambda>s r. r\<lparr>out_Confidence := s\<rparr>),
      string_field ''advisor_id'' out_AdvisorID (\<lambda>s r. r\<lparr>out_AdvisorID := s\<rparr>)]"

definition decode_output :: "wire_codec \<Rightarrow> string + json \<Rightarrow> string + advisor_output" where
  "decode_output wc parsed =
     (case parsed of
        Inl err \<Rightarrow> Inl err
      | Inr v \<Rightarrow> (case dec_struct output_fields v zero_output of None \<Rightarrow> Inl (wc_mismatch wc v) | Some out \<Rightarrow> Inr out))"

section \<open>Requests\<close>

datatype translator = Anthropic | AOAIChat | AOAIResponses

definition TranslatorFor :: "string \<Rightarrow> string \<Rightarrow> translator \<times> bool" where
  "TranslatorFor provider endpoint =
     (let p = to_lower (trim_space provider) in
      if p = [] \<or> p = ''anthropic'' then (Anthropic, True)
      else if p = ''aoai'' then (if contains_str endpoint ''/openai/responses'' then AOAIResponses else AOAIChat, True)
      else (Anthropic, False))"

definition toolName :: string where "toolName = ''classify_request''"

definition ModeResearch :: string where "ModeResearch = ''research''"

definition composeSystemPrompt :: "wire_codec \<Rightarrow> string \<Rightarrow> string \<Rightarrow> string" where
  "composeSystemPrompt wc mode directives =
     (let base = wc_baseline wc (mode = ModeResearch); directives = trim_space directives in
      if directives = [] then base else base @ [char_of (10 :: nat), char_of (10 :: nat)] @ directives)"

definition userPrompt :: "string \<Rightarrow> string" where
  "userPrompt serialized =
     (let nl = [char_of (10 :: nat)] in
      ''Classify the following HTTP request. Invoke the '' @ toolName @ '' tool exactly once.'' @ nl @ nl @ ''```json'' @ nl
        @ serialized @ nl @ ''```'' @ nl)"

definition message :: "string \<Rightarrow> string \<Rightarrow> json" where
  "message role content = JObject [(''role'', JString role), (''content'', JString content)]"

definition anthropicDefaultModel :: string where "anthropicDefaultModel = ''claude-3-5-sonnet-latest''"

definition opt_string :: "string \<Rightarrow> string \<Rightarrow> (string \<times> json) list" where
  "opt_string name s = (if s = [] then [] else [(name, JString s)])"

definition anthropic_body :: "wire_codec \<Rightarrow> advisor_input \<Rightarrow> string \<Rightarrow> json" where
  "anthropic_body wc inp model = JObject (
     [(''model'', JString (if model = [] then anthropicDefaultModel else model)), (''max_tokens'', JNumber ''1024'')]
     @ opt_string ''system'' (composeSystemPrompt wc (in_Mode inp) (in_Directives inp))
     @ [(''messages'', JArray [message ''user'' (userPrompt (wc_input wc inp))]),
        (''tools'', JArray (JObject [(''name'', JString toolName), (''description'', JString (wc_toolDescription wc)),
             (''input_schema'', wc_decisionSchema wc)]
           # (if in_Mode inp = ModeResearch
              then [JObject [(''type'', JString ''web_search_20250305''), (''name'', JString ''web_search''), (''max_uses'', JNumber ''5'')]]
              else []))),
        (''tool_choice'', JObject [(''type'', JString ''tool''), (''name'', JString toolName)])])"

definition aoai_messages :: "wire_codec \<Rightarrow> advisor_input \<Rightarrow> json" where
  "aoai_messages wc inp = JArray
     [message ''system'' (composeSystemPrompt wc (in_Mode inp) (in_Directives inp)), message ''user'' (userPrompt (wc_input wc inp))]"

definition aoai_body :: "wire_codec \<Rightarrow> advisor_input \<Rightarrow> string \<Rightarrow> json" where
  "aoai_body wc inp model = JObject (
     opt_string ''model'' model
     @ [(''messages'', aoai_messages wc inp), (''max_tokens'', JNumber ''1024''),
        (''tools'', JArray [JObject [(''type'', JString ''function''),
           (''function'', JObject [(''name'', JString toolName), (''description'', JString (wc_toolDescription wc)),
              (''parameters'', wc_decisionSchema wc)])]]),
        (''tool_choice'', JObject [(''type'', JString ''function''), (''function'', JObject [(''name'', JString toolName)])])])"

definition responses_body :: "wire_codec \<Rightarrow> advisor_input \<Rightarrow> string \<Rightarrow> json" where
  "responses_body wc inp model = JObject
     [(''model'', JString model), (''input'', aoai_messages wc inp), (''max_output_tokens'', JNumber ''1024''),
      (''tools'', JArray [JObject [(''type'', JString ''function''), (''name'', JString toolName),
         (''description'', JString (wc_toolDescription wc)), (''parameters'', wc_decisionSchema wc)]]),
      (''tool_choice'', JObject [(''type'', JString ''function''), (''name'', JString toolName)])]"

type_synonym wire_headers = "(string \<times> string) list"

definition key_header :: "translator \<Rightarrow> string" where
  "key_header t = (if t = Anthropic then ''x-api-key'' else ''api-key'')"

definition key_headers :: "translator \<Rightarrow> string \<Rightarrow> wire_headers" where
  "key_headers t apiKey = (if apiKey = [] then [] else [(key_header t, apiKey)])"

definition BuildRequest :: "wire_codec \<Rightarrow> translator \<Rightarrow> advisor_input \<Rightarrow> string \<Rightarrow> string \<Rightarrow> string + string \<times> wire_headers" where
  "BuildRequest wc t inp model apiKey =
     (case t of
        Anthropic \<Rightarrow> Inr (wc_marshal wc (anthropic_body wc inp model),
          [(''Content-Type'', ''application/json''), (''anthropic-version'', ''2023-06-01'')] @ key_headers t apiKey)
      | AOAIChat \<Rightarrow> Inr (wc_marshal wc (aoai_body wc inp model),
          [(''Content-Type'', ''application/json'')] @ key_headers t apiKey)
      | AOAIResponses \<Rightarrow>
          if model = [] then Inl ''aoai responses: llm.model is required (the Responses API URL has no deployment path; the body's model field picks the model)''
          else Inr (wc_marshal wc (responses_body wc inp model),
            [(''Content-Type'', ''application/json'')] @ key_headers t apiKey))"

section \<open>Responses\<close>

definition truncateForLog :: "string \<Rightarrow> nat \<Rightarrow> string" where
  "truncateForLog s n =
     (if length s \<le> n then s
      else take n s @ map char_of [226, 128, 166 :: nat] @ ''(+'' @ itoa (int (length s - n)) @ '' bytes truncated)'')"

definition wire_error :: "string \<Rightarrow> provider_error" where
  "wire_error msg = \<lparr>pe_wire = True, pe_schema = False, pe_text = ''advisor wire error: '' @ msg\<rparr>"

definition schema_error :: "string \<Rightarrow> provider_error" where
  "schema_error msg = \<lparr>pe_wire = False, pe_schema = True, pe_text = ''advisor schema error: '' @ msg\<rparr>"

definition plain_error :: "string \<Rightarrow> provider_error" where
  "plain_error msg = \<lparr>pe_wire = False, pe_schema = False, pe_text = msg\<rparr>"

text \<open>The error object every provider may send; the fields differ.\<close>

record api_error =
  ae_Code :: string
  ae_Type :: string
  ae_Message :: string

definition code_field :: "api_error field" where
  "code_field = string_field ''code'' ae_Code (\<lambda>s r. r\<lparr>ae_Code := s\<rparr>)"
definition type_field :: "api_error field" where
  "type_field = string_field ''type'' ae_Type (\<lambda>s r. r\<lparr>ae_Type := s\<rparr>)"
definition message_field :: "api_error field" where
  "message_field = string_field ''message'' ae_Message (\<lambda>s r. r\<lparr>ae_Message := s\<rparr>)"

definition dec_error :: "api_error field list \<Rightarrow> json \<Rightarrow> api_error option \<Rightarrow> api_error option option" where
  "dec_error fs v cur =
     (if v = JNull then Some None
      else map_option Some (dec_struct fs v (case cur of Some e \<Rightarrow> e | None \<Rightarrow> \<lparr>ae_Code = [], ae_Type = [], ae_Message = []\<rparr>)))"

text \<open>What a provider's reply holds for us: its calls of the tool, in order, and texts for messages.\<close>

record an_block =
  ab_Type :: string
  ab_Text :: string
  ab_Name :: string
  ab_Input :: "json option"

record an_response =
  an_Type :: string
  an_Role :: string
  an_Content :: "an_block list"
  an_StopReason :: string
  an_Error :: "api_error option"

definition block_fields :: "an_block field list" where
  "block_fields =
     [string_field ''type'' ab_Type (\<lambda>s r. r\<lparr>ab_Type := s\<rparr>), string_field ''text'' ab_Text (\<lambda>s r. r\<lparr>ab_Text := s\<rparr>),
      string_field ''name'' ab_Name (\<lambda>s r. r\<lparr>ab_Name := s\<rparr>), (''input'', \<lambda>v r. Some (r\<lparr>ab_Input := Some v\<rparr>))]"

definition zero_block :: an_block where
  "zero_block = \<lparr>ab_Type = [], ab_Text = [], ab_Name = [], ab_Input = None\<rparr>"

definition an_fields :: "an_response field list" where
  "an_fields =
     [string_field ''type'' an_Type (\<lambda>s r. r\<lparr>an_Type := s\<rparr>), string_field ''role'' an_Role (\<lambda>s r. r\<lparr>an_Role := s\<rparr>),
      (''content'', \<lambda>v r. map_option (\<lambda>bs. r\<lparr>an_Content := bs\<rparr>) (dec_list (dec_struct block_fields) zero_block v)),
      string_field ''stop_reason'' an_StopReason (\<lambda>s r. r\<lparr>an_StopReason := s\<rparr>),
      (''error'', \<lambda>v r. map_option (\<lambda>e. r\<lparr>an_Error := e\<rparr>) (dec_error [type_field, message_field] v (an_Error r)))]"

definition zero_an :: an_response where
  "zero_an = \<lparr>an_Type = [], an_Role = [], an_Content = [], an_StopReason = [], an_Error = None\<rparr>"

text \<open>A call of the tool: its arguments, as the value or as the text the provider sends.\<close>

definition an_calls :: "an_response \<Rightarrow> json option list" where
  "an_calls r = map ab_Input (filter (\<lambda>b. ab_Type b = ''tool_use'' \<and> ab_Name b = toolName) (an_Content r))"

record aoai_call =
  tc_ID :: string
  tc_Type :: string
  tc_Name :: string
  tc_Arguments :: string

record aoai_choice =
  ch_Index :: int
  ch_Role :: string
  ch_Content :: string
  ch_ToolCalls :: "aoai_call list"
  ch_FinishReason :: string

record aoai_response =
  oa_Choices :: "aoai_choice list"
  oa_Error :: "api_error option"

definition zero_call :: aoai_call where
  "zero_call = \<lparr>tc_ID = [], tc_Type = [], tc_Name = [], tc_Arguments = []\<rparr>"

definition function_fields :: "aoai_call field list" where
  "function_fields =
     [string_field ''name'' tc_Name (\<lambda>s r. r\<lparr>tc_Name := s\<rparr>), string_field ''arguments'' tc_Arguments (\<lambda>s r. r\<lparr>tc_Arguments := s\<rparr>)]"

definition call_fields :: "aoai_call field list" where
  "call_fields =
     [string_field ''id'' tc_ID (\<lambda>s r. r\<lparr>tc_ID := s\<rparr>), string_field ''type'' tc_Type (\<lambda>s r. r\<lparr>tc_Type := s\<rparr>),
      (''function'', dec_struct function_fields)]"

definition message_fields :: "aoai_choice field list" where
  "message_fields =
     [string_field ''role'' ch_Role (\<lambda>s r. r\<lparr>ch_Role := s\<rparr>), string_field ''content'' ch_Content (\<lambda>s r. r\<lparr>ch_Content := s\<rparr>),
      (''tool_calls'', \<lambda>v r. map_option (\<lambda>cs. r\<lparr>ch_ToolCalls := cs\<rparr>) (dec_list (dec_struct call_fields) zero_call v))]"

definition dec_int :: "json \<Rightarrow> int \<Rightarrow> int option" where
  "dec_int v cur = (case v of JNull \<Rightarrow> Some cur | JNumber s \<Rightarrow> atoi s | _ \<Rightarrow> None)"

definition choice_fields :: "aoai_choice field list" where
  "choice_fields =
     [(''index'', \<lambda>v r. map_option (\<lambda>i. r\<lparr>ch_Index := i\<rparr>) (dec_int v (ch_Index r))),
      (''message'', dec_struct message_fields),
      string_field ''finish_reason'' ch_FinishReason (\<lambda>s r. r\<lparr>ch_FinishReason := s\<rparr>)]"

definition zero_choice :: aoai_choice where
  "zero_choice = \<lparr>ch_Index = 0, ch_Role = [], ch_Content = [], ch_ToolCalls = [], ch_FinishReason = []\<rparr>"

definition oa_fields :: "aoai_response field list" where
  "oa_fields =
     [(''choices'', \<lambda>v r. map_option (\<lambda>cs. r\<lparr>oa_Choices := cs\<rparr>) (dec_list (dec_struct choice_fields) zero_choice v)),
      (''error'', \<lambda>v r. map_option (\<lambda>e. r\<lparr>oa_Error := e\<rparr>) (dec_error [code_field, message_field, type_field] v (oa_Error r)))]"

record resp_item =
  ri_Type :: string
  ri_ID :: string
  ri_Role :: string
  ri_Content :: "(string \<times> string) list"
  ri_Name :: string
  ri_Arguments :: string
  ri_CallID :: string
  ri_Status :: string

record resp_response =
  rp_ID :: string
  rp_Object :: string
  rp_Status :: string
  rp_Output :: "resp_item list"
  rp_Error :: "api_error option"

definition text_fields :: "(string \<times> string) field list" where
  "text_fields = [string_field ''type'' fst (\<lambda>s r. (s, snd r)), string_field ''text'' snd (\<lambda>s r. (fst r, s))]"

definition item_fields :: "resp_item field list" where
  "item_fields =
     [string_field ''type'' ri_Type (\<lambda>s r. r\<lparr>ri_Type := s\<rparr>), string_field ''id'' ri_ID (\<lambda>s r. r\<lparr>ri_ID := s\<rparr>),
      string_field ''role'' ri_Role (\<lambda>s r. r\<lparr>ri_Role := s\<rparr>),
      (''content'', \<lambda>v r. map_option (\<lambda>cs. r\<lparr>ri_Content := cs\<rparr>) (dec_list (dec_struct text_fields) ([], []) v)),
      string_field ''name'' ri_Name (\<lambda>s r. r\<lparr>ri_Name := s\<rparr>), string_field ''arguments'' ri_Arguments (\<lambda>s r. r\<lparr>ri_Arguments := s\<rparr>),
      string_field ''call_id'' ri_CallID (\<lambda>s r. r\<lparr>ri_CallID := s\<rparr>), string_field ''status'' ri_Status (\<lambda>s r. r\<lparr>ri_Status := s\<rparr>)]"

definition zero_item :: resp_item where
  "zero_item = \<lparr>ri_Type = [], ri_ID = [], ri_Role = [], ri_Content = [], ri_Name = [], ri_Arguments = [], ri_CallID = [], ri_Status = []\<rparr>"

definition rp_fields :: "resp_response field list" where
  "rp_fields =
     [string_field ''id'' rp_ID (\<lambda>s r. r\<lparr>rp_ID := s\<rparr>), string_field ''object'' rp_Object (\<lambda>s r. r\<lparr>rp_Object := s\<rparr>),
      string_field ''status'' rp_Status (\<lambda>s r. r\<lparr>rp_Status := s\<rparr>),
      (''output'', \<lambda>v r. map_option (\<lambda>cs. r\<lparr>rp_Output := cs\<rparr>) (dec_list (dec_struct item_fields) zero_item v)),
      (''error'', \<lambda>v r. map_option (\<lambda>e. r\<lparr>rp_Error := e\<rparr>) (dec_error [code_field, message_field, type_field] v (rp_Error r)))]"

definition zero_rp :: resp_response where
  "zero_rp = \<lparr>rp_ID = [], rp_Object = [], rp_Status = [], rp_Output = [], rp_Error = None\<rparr>"

text \<open>The body of a reply: parsed and decoded, or the text of the error.\<close>

definition decode_body :: "wire_codec \<Rightarrow> 'r field list \<Rightarrow> 'r \<Rightarrow> string \<Rightarrow> string + 'r" where
  "decode_body wc fs zero body =
     (case wc_unmarshal wc body of
        Inl err \<Rightarrow> Inl err
      | Inr v \<Rightarrow> (case dec_struct fs v zero of None \<Rightarrow> Inl (wc_mismatch wc v) | Some r \<Rightarrow> Inr r))"

definition anthropic_reply :: "wire_codec \<Rightarrow> string \<Rightarrow> provider_error + advisor_output" where
  "anthropic_reply wc body =
     (case decode_body wc an_fields zero_an body of
        Inl err \<Rightarrow> Inl (schema_error (''anthropic decode: '' @ err @ '': '' @ truncateForLog body 256))
      | Inr r \<Rightarrow>
          (case an_Error r of
             Some e \<Rightarrow> Inl (schema_error (''anthropic api error: '' @ ae_Type e @ '': '' @ ae_Message e))
           | None \<Rightarrow>
               (case an_calls r of
                  [] \<Rightarrow> Inl (schema_error (''anthropic response had no tool_use block for '' @ wc_quote wc toolName @ '' (stop_reason=''
                    @ wc_quote wc (an_StopReason r) @ ''); model returned text instead of invoking the structured-output tool''))
                | inp # _ \<Rightarrow>
                    (case decode_output wc (case inp of None \<Rightarrow> wc_unmarshal wc [] | Some v \<Rightarrow> Inr v) of
                       Inl err \<Rightarrow> Inl (schema_error (''anthropic tool_use input decode: '' @ err @ '': ''
                         @ truncateForLog (case inp of None \<Rightarrow> [] | Some v \<Rightarrow> wc_marshal wc v) 256))
                     | Inr out \<Rightarrow> Inr out))))"

definition chat_reply :: "wire_codec \<Rightarrow> string \<Rightarrow> provider_error + advisor_output" where
  "chat_reply wc body =
     (case decode_body wc oa_fields \<lparr>oa_Choices = [], oa_Error = None\<rparr> body of
        Inl err \<Rightarrow> Inl (schema_error (''aoai decode: '' @ err @ '': '' @ truncateForLog body 256))
      | Inr r \<Rightarrow>
          (case oa_Error r of
             Some e \<Rightarrow> Inl (schema_error (''aoai api error: '' @ ae_Code e @ '': '' @ ae_Message e))
           | None \<Rightarrow>
               (case oa_Choices r of
                  [] \<Rightarrow> Inl (schema_error ''aoai response had no choices'')
                | ch # _ \<Rightarrow>
                    if ch_ToolCalls ch = [] then
                      Inl (schema_error (''aoai response had no tool_calls (finish_reason='' @ wc_quote wc (ch_FinishReason ch)
                        @ ''); model returned text instead of invoking the '' @ toolName @ '' function: '' @ truncateForLog (ch_Content ch) 256))
                    else (case filter (\<lambda>c. tc_Name c = toolName) (ch_ToolCalls ch) of
                        [] \<Rightarrow> Inl (schema_error (''aoai response tool_calls did not include '' @ wc_quote wc toolName))
                      | c # _ \<Rightarrow>
                          (case decode_output wc (wc_unmarshal wc (tc_Arguments c)) of
                             Inl err \<Rightarrow> Inl (schema_error (''aoai tool_call arguments decode: '' @ err @ '': '' @ truncateForLog (tc_Arguments c) 256))
                           | Inr out \<Rightarrow> Inr out)))))"

definition text_excerpt :: "resp_item list \<Rightarrow> string" where
  "text_excerpt items =
     (case filter (\<lambda>t. t \<noteq> []) (map snd (concat (map ri_Content (filter (\<lambda>i. ri_Type i = ''message'') items)))) of
        [] \<Rightarrow> [] | t # _ \<Rightarrow> t)"

definition responses_reply :: "wire_codec \<Rightarrow> string \<Rightarrow> provider_error + advisor_output" where
  "responses_reply wc body =
     (case decode_body wc rp_fields zero_rp body of
        Inl err \<Rightarrow> Inl (schema_error (''aoai-responses decode: '' @ err @ '': '' @ truncateForLog body 256))
      | Inr r \<Rightarrow>
          (case rp_Error r of
             Some e \<Rightarrow> Inl (schema_error (''aoai-responses api error: '' @ ae_Code e @ '': '' @ ae_Message e))
           | None \<Rightarrow>
               (case filter (\<lambda>i. ri_Type i = ''function_call'' \<and> ri_Name i = toolName) (rp_Output r) of
                  [] \<Rightarrow> Inl (schema_error (''aoai-responses output had no function_call for '' @ wc_quote wc toolName @ '' (status=''
                    @ wc_quote wc (rp_Status r) @ ''); model returned text instead of invoking the structured-output tool: ''
                    @ truncateForLog (text_excerpt (rp_Output r)) 256))
                | i # _ \<Rightarrow>
                    (case decode_output wc (wc_unmarshal wc (ri_Arguments i)) of
                       Inl err \<Rightarrow> Inl (schema_error (''aoai-responses function_call arguments decode: '' @ err @ '': ''
                         @ truncateForLog (ri_Arguments i) 256))
                     | Inr out \<Rightarrow> Inr out))))"

definition wire_name :: "translator \<Rightarrow> string" where
  "wire_name t = (case t of Anthropic \<Rightarrow> ''anthropic'' | AOAIChat \<Rightarrow> ''aoai'' | AOAIResponses \<Rightarrow> ''aoai-responses'')"

definition ParseResponse :: "wire_codec \<Rightarrow> translator \<Rightarrow> int \<Rightarrow> string \<Rightarrow> provider_error + advisor_output" where
  "ParseResponse wc t status body =
     (if status < 200 \<or> status \<ge> 300
      then Inl (wire_error (wire_name t @ '' http '' @ itoa status @ '': '' @ truncateForLog body 256))
      else case t of Anthropic \<Rightarrow> anthropic_reply wc body | AOAIChat \<Rightarrow> chat_reply wc body | AOAIResponses \<Rightarrow> responses_reply wc body)"

section \<open>Transport\<close>

datatype transport = Request_refused string | Do_failed string | Read_failed string | Answered int string

record http_classifier =
  hp_Endpoint :: string
  hp_APIKey :: string
  hp_Model :: string
  hp_Translator :: translator

definition HTTPClassify ::
    "wire_codec \<Rightarrow> (string \<Rightarrow> wire_headers \<Rightarrow> string \<Rightarrow> transport) \<Rightarrow> http_classifier \<Rightarrow> advisor_input \<Rightarrow> provider_error + advisor_output" where
  "HTTPClassify wc post h inp =
     (case BuildRequest wc (hp_Translator h) inp (hp_Model h) (hp_APIKey h) of
        Inl err \<Rightarrow> Inl (plain_error (''advisor: build request: '' @ err))
      | Inr (body, hdrs) \<Rightarrow>
          (case post (hp_Endpoint h) hdrs body of
             Request_refused err \<Rightarrow> Inl (plain_error (''advisor: new request: '' @ err))
           | Do_failed err \<Rightarrow> Inl (wire_error err)
           | Read_failed err \<Rightarrow> Inl (wire_error (''read response: '' @ err))
           | Answered status reply \<Rightarrow> ParseResponse wc (hp_Translator h) status reply))"

section \<open>The endpoint\<close>

text \<open>A URL is what stands before its path, the path and the raw query; the library reads, prints and edits it.\<close>

record aoai_url =
  au_Base :: string
  au_Path :: string
  au_RawQuery :: string

record url_codec =
  uc_parse :: "string \<Rightarrow> aoai_url option"
  uc_string :: "aoai_url \<Rightarrow> string"
  uc_get :: "string \<Rightarrow> string \<Rightarrow> string"
  uc_set :: "string \<Rightarrow> string \<Rightarrow> string \<Rightarrow> string"

datatype endpoint_kind = AOAIUnknown | AOAIChatCompletions | AOAIResponsesKind

definition defaultAOAIAPIVersion :: string where "defaultAOAIAPIVersion = ''2025-04-01-preview''"

definition aoai_path_kind :: "string \<Rightarrow> endpoint_kind \<times> string option" where
  "aoai_path_kind path0 =
     (let path = trim_right_chars [CHR ''/''] path0 in
      if contains_str path ''/openai/responses'' then (AOAIResponsesKind, None)
      else if contains_str path ''/openai/deployments/'' \<and> has_suffix path ''/chat/completions'' then (AOAIChatCompletions, None)
      else if path = [] \<or> path = ''/openai'' \<or> has_suffix path ''/openai''
      then (AOAIResponsesKind, Some (trim_suffix path ''/openai'' @ ''/openai/responses''))
      else (AOAIUnknown, None))"

definition endpoint_hint :: "string \<Rightarrow> string \<Rightarrow> bool \<Rightarrow> endpoint_kind \<Rightarrow> string" where
  "endpoint_hint canonical raw addedVersion kind =
     (if canonical = raw then []
      else if addedVersion \<and> kind = AOAIResponsesKind \<and> \<not> contains_str raw ''/openai/responses'' then
        ''AOAI endpoint rewritten to canonical Responses API form `'' @ canonical @ ''` (modern API). Set llm.endpoint explicitly to this value to silence this hint.''
      else if addedVersion then
        ''AOAI endpoint had no api-version; appended `api-version='' @ defaultAOAIAPIVersion @ ''`. Set llm.endpoint explicitly to silence this hint.''
      else ''AOAI endpoint normalized to `'' @ canonical @ ''`.'')"

definition normalized_url :: "url_codec \<Rightarrow> aoai_url \<Rightarrow> aoai_url" where
  "normalized_url uc u =
     (let u = (case snd (aoai_path_kind (au_Path u)) of Some p \<Rightarrow> u\<lparr>au_Path := p\<rparr> | None \<Rightarrow> u) in
      if uc_get uc (au_RawQuery u) ''api-version'' = []
      then u\<lparr>au_RawQuery := uc_set uc (au_RawQuery u) ''api-version'' defaultAOAIAPIVersion\<rparr> else u)"

definition NormalizeAOAIEndpoint :: "url_codec \<Rightarrow> string \<Rightarrow> string \<times> string \<times> endpoint_kind" where
  "NormalizeAOAIEndpoint uc raw =
     (if raw = [] then (raw, [], AOAIUnknown)
      else case uc_parse uc raw of
          None \<Rightarrow> (raw, [], AOAIUnknown)
        | Some u \<Rightarrow>
            let kind = fst (aoai_path_kind (au_Path u)) in
            if kind = AOAIUnknown then (raw, [], AOAIUnknown)
            else let canonical = uc_string uc (normalized_url uc u) in
              (canonical, endpoint_hint canonical raw (uc_get uc (au_RawQuery u) ''api-version'' = []) kind, kind))"

definition AOAIDeploymentFromURL :: "url_codec \<Rightarrow> string \<Rightarrow> string" where
  "AOAIDeploymentFromURL uc raw =
     (case uc_parse uc raw of
        None \<Rightarrow> []
      | Some u \<Rightarrow> (case index_str (au_Path u) ''/openai/deployments/'' of
            None \<Rightarrow> []
          | Some i \<Rightarrow> takeWhile (\<lambda>c. c \<noteq> CHR ''/'') (drop (i + 20) (au_Path u))))"

definition buildAdvisorProvider :: "url_codec \<Rightarrow> (string \<Rightarrow> string option) \<Rightarrow> llm_cfg \<Rightarrow> http_classifier" where
  "buildAdvisorProvider uc readFile llm =
     (let apiKey = (if lm_APIKeyPath llm = [] then [] else case readFile (lm_APIKeyPath llm) of Some d \<Rightarrow> trim_space d | None \<Rightarrow> []);
          endpoint = (if equal_fold (trim_space (lm_Provider llm)) ''aoai''
            then fst (NormalizeAOAIEndpoint uc (lm_Endpoint llm)) else lm_Endpoint llm)
      in \<lparr>hp_Endpoint = endpoint, hp_APIKey = apiKey, hp_Model = lm_Model llm,
          hp_Translator = fst (TranslatorFor (lm_Provider llm) endpoint)\<rparr>)"

definition advisorModelIdentifier :: "url_codec \<Rightarrow> llm_cfg \<Rightarrow> string" where
  "advisorModelIdentifier uc llm =
     (if equal_fold (trim_space (lm_Provider llm)) ''aoai'' \<and> AOAIDeploymentFromURL uc (lm_Endpoint llm) \<noteq> []
      then AOAIDeploymentFromURL uc (lm_Endpoint llm) else trim_space (lm_Model llm))"

section \<open>Only the tool answers\<close>

text \<open>The arguments of the calls of the tool in a reply, in order; a reply with an error has none.\<close>

definition tool_calls :: "wire_codec \<Rightarrow> translator \<Rightarrow> string \<Rightarrow> (string + json) list" where
  "tool_calls wc t body =
     (case t of
        Anthropic \<Rightarrow> (case decode_body wc an_fields zero_an body of
            Inr r \<Rightarrow> if an_Error r = None then map (\<lambda>b. case ab_Input b of None \<Rightarrow> wc_unmarshal wc [] | Some v \<Rightarrow> Inr v)
              (filter (\<lambda>b. ab_Type b = ''tool_use'' \<and> ab_Name b = toolName) (an_Content r)) else []
          | Inl _ \<Rightarrow> [])
      | AOAIChat \<Rightarrow> (case decode_body wc oa_fields \<lparr>oa_Choices = [], oa_Error = None\<rparr> body of
            Inr r \<Rightarrow> if oa_Error r = None \<and> oa_Choices r \<noteq> []
              then map (\<lambda>c. wc_unmarshal wc (tc_Arguments c)) (filter (\<lambda>c. tc_Name c = toolName) (ch_ToolCalls (hd (oa_Choices r)))) else []
          | Inl _ \<Rightarrow> [])
      | AOAIResponses \<Rightarrow> (case decode_body wc rp_fields zero_rp body of
            Inr r \<Rightarrow> if rp_Error r = None
              then map (\<lambda>i. wc_unmarshal wc (ri_Arguments i)) (filter (\<lambda>i. ri_Type i = ''function_call'' \<and> ri_Name i = toolName) (rp_Output r)) else []
          | Inl _ \<Rightarrow> []))"

lemma anthropic_answer: "anthropic_reply wc body = Inr out \<Longrightarrow> \<exists>a as. tool_calls wc Anthropic body = a # as \<and> decode_output wc a = Inr out"
  by (auto simp: anthropic_reply_def tool_calls_def an_calls_def split: sum.splits option.splits list.splits)

lemma chat_answer: "chat_reply wc body = Inr out \<Longrightarrow> \<exists>a as. tool_calls wc AOAIChat body = a # as \<and> decode_output wc a = Inr out"
  by (auto simp: chat_reply_def tool_calls_def split: sum.splits option.splits list.splits if_splits)

lemma responses_answer: "responses_reply wc body = Inr out \<Longrightarrow> \<exists>a as. tool_calls wc AOAIResponses body = a # as \<and> decode_output wc a = Inr out"
  by (auto simp: responses_reply_def tool_calls_def split: sum.splits option.splits list.splits)

lemma parse_answer:
  assumes "ParseResponse wc t status body = Inr out"
  obtains a as where "200 \<le> status" "status < 300" "tool_calls wc t body = a # as" "decode_output wc a = Inr out"
  using assms anthropic_answer [of wc body out] chat_answer [of wc body out] responses_answer [of wc body out]
  by (cases t) (auto simp: ParseResponse_def split: if_splits)

text \<open>
  C5: the model speaks only through the tool. With a provider behind HTTP, a request is allowed after a
  consultation only when the reply had a status of success and its first call of the tool carries an
  explicit allow of sufficient confidence, for each of the three wire formats; text of the model,
  calls of other tools, error replies and failures of the transport never allow, unless an unavailable
  advisor is configured to allow.
\<close>

theorem only_the_tool_allows:
  assumes "classify_finish env now lat req rsv (HTTPClassify wc post h inp) s = ((d, a), s')" "d_Effect d = EffectAllow"
    and "ac_OnUnavailable (sv_cfg s) \<noteq> ''allow''"
  shows "\<exists>hdrs body status reply args as out. post (hp_Endpoint h) hdrs body = Answered status reply \<and> 200 \<le> status \<and> status < 300
    \<and> tool_calls wc (hp_Translator h) reply = args # as \<and> decode_output wc args = Inr out \<and> says_allow (sv_cfg s) out"
proof -
  obtain out where out: "HTTPClassify wc post h inp = Inr out" "says_allow (sv_cfg s) out"
    using classify_finish_allow [OF assms(1,2)] assms(3) by blast
  then obtain hdrs body status reply where r: "post (hp_Endpoint h) hdrs body = Answered status reply"
    "ParseResponse wc (hp_Translator h) status reply = Inr out"
    by (auto simp: HTTPClassify_def split: sum.splits prod.splits transport.splits)
  from r(2) obtain args as where "200 \<le> status" "status < 300" "tool_calls wc (hp_Translator h) reply = args # as"
    "decode_output wc args = Inr out" by (rule parse_answer)
  with out(2) r(1) show ?thesis by blast
qed

section \<open>Answers are read back\<close>

definition output_json :: "advisor_output \<Rightarrow> json" where
  "output_json out = JObject
     [(''effect'', JString (out_Effect out)), (''scope'', JString (out_Scope out)), (''reason'', JString (out_Reason out)),
      (''modifiers'', JArray (map JString (out_Modifiers out))), (''confidence'', JString (out_Confidence out)),
      (''advisor_id'', JString (out_AdvisorID out))]"

lemma those_strings: "those (map (\<lambda>x. dec_string x []) (map JString xs)) = Some xs"
  by (induction xs) (simp_all add: dec_string_def)

lemmas decoding = dec_struct_def dec_key_def find_field_def string_field_def dec_string_def dec_list_def

lemma decode_output_json: "decode_output wc (Inr (output_json out)) = Inr out"
  using those_strings [of "out_Modifiers out"]
  by (simp add: decode_output_def output_json_def decoding output_fields_def zero_output_def comp_def)

text \<open>What each provider sends when the model calls the tool with an output, fields we do not read left out.\<close>

definition tool_reply :: "wire_codec \<Rightarrow> translator \<Rightarrow> advisor_output \<Rightarrow> json" where
  "tool_reply wc t out =
     (case t of
        Anthropic \<Rightarrow> JObject [(''content'', JArray [JObject [(''type'', JString ''tool_use''), (''name'', JString toolName), (''input'', output_json out)]])]
      | AOAIChat \<Rightarrow> JObject [(''choices'', JArray [JObject [(''message'', JObject [(''tool_calls'', JArray [JObject [(''function'',
          JObject [(''name'', JString toolName), (''arguments'', JString (wc_marshal wc (output_json out)))])]])])]])]
      | AOAIResponses \<Rightarrow> JObject [(''output'', JArray [JObject [(''type'', JString ''function_call''), (''name'', JString toolName),
          (''arguments'', JString (wc_marshal wc (output_json out)))]])])"

lemma answer_read_back:
  assumes "wc_unmarshal wc (wc_marshal wc (tool_reply wc t out)) = Inr (tool_reply wc t out)"
    and "wc_unmarshal wc (wc_marshal wc (output_json out)) = Inr (output_json out)"
  shows "ParseResponse wc t 200 (wc_marshal wc (tool_reply wc t out)) = Inr out"
proof (cases t)
  case Anthropic
  then show ?thesis using assms decode_output_json [of wc out]
    by (simp add: ParseResponse_def anthropic_reply_def decode_body_def tool_reply_def decoding an_fields_def zero_an_def
        block_fields_def zero_block_def an_calls_def)
next
  case AOAIChat
  then show ?thesis using assms decode_output_json [of wc out]
    by (simp add: ParseResponse_def chat_reply_def decode_body_def tool_reply_def decoding oa_fields_def choice_fields_def
        zero_choice_def message_fields_def call_fields_def zero_call_def function_fields_def)
next
  case AOAIResponses
  then show ?thesis using assms decode_output_json [of wc out]
    by (simp add: ParseResponse_def responses_reply_def decode_body_def tool_reply_def decoding rp_fields_def zero_rp_def
        item_fields_def zero_item_def)
qed

text \<open>
  C29: an answer survives the wire. When the model calls the tool with an output, the reply of each of
  the three providers that carries this call is read back as that output, provided the JSON texts
  involved parse to the values they were printed from.
\<close>

theorem tool_answer_read_back:
  assumes "wc_unmarshal wc (wc_marshal wc (tool_reply wc t out)) = Inr (tool_reply wc t out)"
    and "wc_unmarshal wc (wc_marshal wc (output_json out)) = Inr (output_json out)"
  shows "ParseResponse wc t 200 (wc_marshal wc (tool_reply wc t out)) = Inr out"
  by (rule answer_read_back [OF assms])

definition demo_reply :: json where
  "demo_reply = JObject [(''output'', JArray [JObject [(''type'', JString ''function_call''), (''name'', JString toolName), (''arguments'', JString ''O'')]])]"

definition demo_codec :: wire_codec where
  "demo_codec = \<lparr>wc_input = (\<lambda>_. ''I''), wc_marshal = (\<lambda>v. if v = output_json demo_answer then ''O'' else ''R''),
     wc_unmarshal = (\<lambda>s. if s = ''O'' then Inr (output_json demo_answer) else Inr demo_reply), wc_mismatch = (\<lambda>_. []),
     wc_quote = id, wc_baseline = (\<lambda>_. []), wc_toolDescription = [], wc_decisionSchema = JNull\<rparr>"

lemma demo_reply_differs: "demo_reply \<noteq> output_json demo_answer"
  by (simp add: demo_reply_def output_json_def)

lemma demo_codec_laws:
  "tool_reply demo_codec AOAIResponses demo_answer = demo_reply"
  "wc_unmarshal demo_codec (wc_marshal demo_codec demo_reply) = Inr demo_reply"
  "wc_unmarshal demo_codec (wc_marshal demo_codec (output_json demo_answer)) = Inr (output_json demo_answer)"
  using demo_reply_differs by (simp_all add: demo_codec_def tool_reply_def demo_reply_def)

theorem tool_answer_read_back_witness: "ParseResponse demo_codec AOAIResponses 200 ''R'' = Inr demo_answer"
  using tool_answer_read_back [of demo_codec AOAIResponses demo_answer] demo_codec_laws demo_reply_differs
  by (simp add: demo_codec_def)

definition demo_http :: http_classifier where
  "demo_http = \<lparr>hp_Endpoint = ''https://a'', hp_APIKey = [], hp_Model = ''m'', hp_Translator = AOAIResponses\<rparr>"

definition demo_post :: "string \<Rightarrow> wire_headers \<Rightarrow> string \<Rightarrow> transport" where
  "demo_post url hdrs body = Answered 200 ''R''"

lemma demo_classifies: "HTTPClassify demo_codec demo_post demo_http inp = Inr demo_answer"
  using answer_read_back [of demo_codec AOAIResponses demo_answer] demo_codec_laws demo_reply_differs
  by (simp add: HTTPClassify_def BuildRequest_def demo_http_def demo_post_def demo_codec_def)

theorem only_the_tool_allows_witness:
  "\<exists>args as out. tool_calls demo_codec AOAIResponses ''R'' = args # as \<and> decode_output demo_codec args = Inr out
     \<and> says_allow (effective demo_cfg) out"
proof -
  define s where "s = NewService 0 [] demo_cfg True"
  have cfg: "sv_cfg s = effective demo_cfg" unfolding s_def by (rule effective_cfg)
  obtain d where d: "validate demo_env (effective demo_cfg) demo_answer = Inr (d, ''m'')" "d_Effect d = EffectAllow"
    using demo_validates by blast
  obtain s' where "classify_finish demo_env 0 1 zero_request [] (HTTPClassify demo_codec demo_post demo_http inp) s = ((d, ''m''), s')" for inp
    using d cfg by (simp add: demo_classifies classify_finish_def service_frames Let_def)
  from only_the_tool_allows [OF this d(2)] show ?thesis
    by (auto simp: cfg effective_demo demo_post_def demo_http_def)
qed

section \<open>Failures\<close>

text \<open>
  A failure is of the wire or of the schema, never both, and of the schema exactly when the reply had a
  status of success: the counters and the log of the service tell the two apart.
\<close>

lemma reply_errors:
  "anthropic_reply wc body = Inl e \<Longrightarrow> \<exists>m. e = schema_error m"
  "chat_reply wc body = Inl e \<Longrightarrow> \<exists>m. e = schema_error m"
  "responses_reply wc body = Inl e \<Longrightarrow> \<exists>m. e = schema_error m"
  by (auto simp: anthropic_reply_def split: sum.splits option.splits list.splits)
    (auto simp: chat_reply_def responses_reply_def split: sum.splits option.splits list.splits if_splits)

lemma provider_errors_classified:
  assumes "HTTPClassify wc post h inp = Inl e" "BuildRequest wc (hp_Translator h) inp (hp_Model h) (hp_APIKey h) = Inr (body, hdrs)"
  shows "(case post (hp_Endpoint h) hdrs body of
      Request_refused err \<Rightarrow> \<not> pe_wire e \<and> \<not> pe_schema e
    | Answered status reply \<Rightarrow> pe_schema e = (200 \<le> status \<and> status < 300) \<and> pe_wire e = (\<not> pe_schema e)
    | _ \<Rightarrow> pe_wire e \<and> \<not> pe_schema e)"
proof (cases "post (hp_Endpoint h) hdrs body")
  case (Answered status reply)
  have kind: "pe_schema e \<and> \<not> pe_wire e"
    if "anthropic_reply wc reply = Inl e \<or> chat_reply wc reply = Inl e \<or> responses_reply wc reply = Inl e"
    using that reply_errors by (metis provider_error.select_convs(1,2) schema_error_def)
  have "ParseResponse wc (hp_Translator h) status reply = Inl e" using assms Answered by (simp add: HTTPClassify_def)
  then show ?thesis using Answered kind by (cases "hp_Translator h") (auto simp: ParseResponse_def wire_error_def split: if_splits)
qed (use assms in \<open>auto simp: HTTPClassify_def plain_error_def wire_error_def\<close>)

text \<open>The key of the API is in its header and nowhere else in the request.\<close>

lemma key_in_its_header:
  "BuildRequest wc t inp model apiKey
     = map_sum id (\<lambda>(body, hdrs). (body, hdrs @ key_headers t apiKey)) (BuildRequest wc t inp model [])"
  by (cases t) (simp_all add: BuildRequest_def key_headers_def)

section \<open>The endpoint is normalized once\<close>

lemma path_kind_stable:
  assumes "aoai_path_kind path = (k, r)" "k \<noteq> AOAIUnknown"
  shows "aoai_path_kind (case r of Some p \<Rightarrow> p | None \<Rightarrow> path) = (k, None)"
proof (cases r)
  case None
  then show ?thesis using assms by simp
next
  case (Some p)
  then have p: "p = trim_suffix (trim_right_chars [CHR ''/''] path) ''/openai'' @ ''/openai/responses''" "k = AOAIResponsesKind"
    using assms(1) by (auto simp: aoai_path_kind_def Let_def split: if_splits)
  have "trim_right_chars [CHR ''/''] p = p" by (simp add: p(1) trim_right_chars_def)
  moreover have "contains_str (x @ ''/openai/responses'') ''/openai/responses''" for x
    by (simp add: contains_str_iff)
  ultimately show ?thesis using Some p by (simp add: aoai_path_kind_def)
qed

text \<open>
  What normalization gives is left alone by it, and without a hint, provided the URL it printed parses
  to what was printed and the version it set is found.
\<close>

lemma endpoint_normalized_once:
  assumes "NormalizeAOAIEndpoint uc raw = (c, h, k)" "k \<noteq> AOAIUnknown" "c \<noteq> []"
    and "\<And>u. uc_parse uc raw = Some u \<Longrightarrow> uc_parse uc c = Some (normalized_url uc u)"
    and "\<And>q. uc_get uc (uc_set uc q ''api-version'' defaultAOAIAPIVersion) ''api-version'' = defaultAOAIAPIVersion"
  shows "NormalizeAOAIEndpoint uc c = (c, [], k)"
proof -
  obtain u where u: "uc_parse uc raw = Some u" "k = fst (aoai_path_kind (au_Path u))" "c = uc_string uc (normalized_url uc u)"
    using assms(1,2) by (auto simp: NormalizeAOAIEndpoint_def Let_def split: if_splits option.splits)
  let ?v = "normalized_url uc u"
  have path: "au_Path ?v = (case snd (aoai_path_kind (au_Path u)) of Some p \<Rightarrow> p | None \<Rightarrow> au_Path u)"
    by (simp add: normalized_url_def Let_def split: option.split)
  have kind: "aoai_path_kind (au_Path ?v) = (k, None)"
    unfolding path by (rule path_kind_stable [OF _ assms(2)]) (simp add: u(2) prod_eq_iff)
  have "defaultAOAIAPIVersion \<noteq> []" by (simp add: defaultAOAIAPIVersion_def)
  then have version: "uc_get uc (au_RawQuery ?v) ''api-version'' \<noteq> []"
    using assms(5) by (simp add: normalized_url_def Let_def split: option.split)
  then have "normalized_url uc ?v = ?v" using kind by (simp add: normalized_url_def [of uc ?v] Let_def)
  then show ?thesis using assms(2,3) assms(4) [OF u(1)] kind u(3) by (simp add: NormalizeAOAIEndpoint_def Let_def endpoint_hint_def)
qed

end
