(* ===== verification/CertAuthority.thy ===== *)
theory CertAuthority
  imports GoNet Prelude
begin

text \<open>
  The certificate authority (\<open>internal/ca/ca.go\<close>, \<open>keymode_unix.go\<close>): creating and loading it, and the
  certificates it issues for intercepted hosts, the control plane and operators. Keys, X.509, PKCS8 and
  PEM are a parameter; a draw is what one operation takes from the clock and from randomness. Files are
  a map with their modes; every file operation can fail, and one that is reported as failed leaves what it
  had done. Times are in nanoseconds.
\<close>

section \<open>Certificates\<close>

datatype key_usage = CertSign | CRLSign | DigitalSignature | KeyEncipherment
datatype ext_usage = ServerAuth | ClientAuth

record cert_template =
  ct_Serial :: int
  ct_CommonName :: string
  ct_Organization :: "string list"
  ct_NotBefore :: int
  ct_NotAfter :: int
  ct_IsCA :: bool
  ct_MaxPathLen :: "nat option"
  ct_KeyUsage :: "key_usage list"
  ct_ExtKeyUsage :: "ext_usage list"
  ct_DNSNames :: "string list"
  ct_IPAddresses :: "int list list"

record certificate = cert_template +
  ce_Raw :: string

record tls_cert =
  tl_Chain :: "string list"
  tl_Key :: string
  tl_Leaf :: "certificate option"

record crypto =
  cr_rsa :: "nat \<Rightarrow> string + string"
  cr_ecdsa :: "nat \<Rightarrow> string + string"
  cr_public :: "string \<Rightarrow> string"
  cr_create :: "cert_template \<Rightarrow> cert_template \<Rightarrow> string \<Rightarrow> string \<Rightarrow> string + string"
  cr_parse :: "string \<Rightarrow> string + certificate"
  cr_pkcs8 :: "string \<Rightarrow> string + string"
  cr_unpkcs8 :: "string \<Rightarrow> string + string"
  cr_pem :: "string \<Rightarrow> string \<Rightarrow> string"
  cr_unpem :: "string \<Rightarrow> (string \<times> string) option"
  cr_stamp :: "int \<Rightarrow> string"
  cr_date :: "int \<Rightarrow> string"
  cr_hostname :: string
  cr_quote :: "string \<Rightarrow> string"

record draw =
  dr_now :: int
  dr_serial :: int
  dr_key :: nat

definition hour_ns :: int where "hour_ns = 3600000000000"
definition second_ns :: int where "second_ns = 1000000000"
definition year_ns :: int where "year_ns = 365 * 24 * hour_ns"

record ca =
  ca_Cert :: certificate
  ca_Key :: string
  ca_KeyType :: string
  ca_certPath :: string
  ca_keyPath :: string
  ca_leafKeyType :: string
  ca_leafTTL :: int
  ca_leafCache :: "string \<rightharpoonup> tls_cert"

definition generateKey :: "crypto \<Rightarrow> draw \<Rightarrow> string \<Rightarrow> string + string" where
  "generateKey cr dr kt =
     (if kt = ''ecdsa-p256'' then cr_ecdsa cr (dr_key dr)
      else if kt = ''rsa-4096'' \<or> kt = [] then cr_rsa cr (dr_key dr)
      else Inl (''unknown key type '' @ cr_quote cr kt))"

definition leaf_template :: "draw \<Rightarrow> string \<Rightarrow> int \<Rightarrow> key_usage list \<Rightarrow> ext_usage \<Rightarrow> string list \<Rightarrow> cert_template" where
  "leaf_template dr cn ttl usage ext sans =
     \<lparr>ct_Serial = dr_serial dr, ct_CommonName = cn, ct_Organization = [], ct_NotBefore = dr_now dr - hour_ns,
      ct_NotAfter = dr_now dr + ttl, ct_IsCA = False, ct_MaxPathLen = None, ct_KeyUsage = usage, ct_ExtKeyUsage = [ext],
      ct_DNSNames = filter (\<lambda>s. ParseIP s = None) sans, ct_IPAddresses = List.map_filter ParseIP sans\<rparr>"

definition issue :: "crypto \<Rightarrow> draw \<Rightarrow> cert_template \<Rightarrow> ca \<Rightarrow> string + tls_cert" where
  "issue cr dr tmpl c =
     (case generateKey cr dr (ca_leafKeyType c) of
        Inl e \<Rightarrow> Inl e
      | Inr key \<Rightarrow>
          (case cr_create cr tmpl (cert_template.truncate (ca_Cert c)) (cr_public cr key) (ca_Key c) of
             Inl e \<Rightarrow> Inl e
           | Inr der \<Rightarrow>
               (case cr_parse cr der of
                  Inl e \<Rightarrow> Inl e
                | Inr parsed \<Rightarrow> Inr \<lparr>tl_Chain = [der, ce_Raw (ca_Cert c)], tl_Key = key, tl_Leaf = Some parsed\<rparr>)))"

definition leafExpired :: "int \<Rightarrow> tls_cert \<Rightarrow> bool" where
  "leafExpired now l = (case tl_Leaf l of None \<Rightarrow> True | Some cert \<Rightarrow> now > ct_NotAfter cert - hour_ns)"

definition mint_leaf :: "crypto \<Rightarrow> draw \<Rightarrow> string \<Rightarrow> ca \<Rightarrow> string + tls_cert" where
  "mint_leaf cr dr host c =
     issue cr dr (leaf_template dr host (ca_leafTTL c) [DigitalSignature, KeyEncipherment] ServerAuth [host]) c"

definition LeafFor :: "crypto \<Rightarrow> draw \<Rightarrow> string \<Rightarrow> ca \<Rightarrow> (string + tls_cert) \<times> ca" where
  "LeafFor cr dr host c =
     (case ca_leafCache c host of
        Some l \<Rightarrow>
          if \<not> leafExpired (dr_now dr) l then (Inr l, c)
          else (case mint_leaf cr dr host c of
              Inl e \<Rightarrow> (Inl e, c\<lparr>ca_leafCache := (ca_leafCache c)(host := None)\<rparr>)
            | Inr l' \<Rightarrow> (Inr l', c\<lparr>ca_leafCache := (ca_leafCache c)(host \<mapsto> l')\<rparr>))
      | None \<Rightarrow>
          (case mint_leaf cr dr host c of
             Inl e \<Rightarrow> (Inl e, c)
           | Inr l' \<Rightarrow> (Inr l', c\<lparr>ca_leafCache := (ca_leafCache c)(host \<mapsto> l')\<rparr>)))"

definition IssueClientCert :: "crypto \<Rightarrow> draw \<Rightarrow> string \<Rightarrow> ca \<Rightarrow> string + tls_cert" where
  "IssueClientCert cr dr name c =
     (if name = [] then Inl ''client-cert name must not be empty''
      else issue cr dr (leaf_template dr name year_ns [DigitalSignature] ClientAuth []) c)"

definition IssueServerCertFor :: "crypto \<Rightarrow> draw \<Rightarrow> string \<Rightarrow> string list \<Rightarrow> ca \<Rightarrow> string + tls_cert" where
  "IssueServerCertFor cr dr cn sans c =
     issue cr dr (leaf_template dr cn (ca_leafTTL c) [DigitalSignature, KeyEncipherment] ServerAuth sans) c"

definition MarshalLeafPEM :: "crypto \<Rightarrow> tls_cert \<Rightarrow> string + string \<times> string" where
  "MarshalLeafPEM cr l =
     (case cr_pkcs8 cr (tl_Key l) of
        Inl e \<Rightarrow> Inl e
      | Inr der \<Rightarrow> Inr (concat (map (cr_pem cr ''CERTIFICATE'') (tl_Chain l)), cr_pem cr ''PRIVATE KEY'' der))"

definition FlushCache :: "ca \<Rightarrow> ca" where
  "FlushCache c = c\<lparr>ca_leafCache := Map.empty\<rparr>"

section \<open>Files\<close>

type_synonym ca_files = "string \<rightharpoonup> string \<times> nat"

datatype file_op = Rename_op string | Mkdir_op string | Open_op string | Encode_op string | Close_op string | Read_op string

record file_io =
  fo_fails :: "file_op \<Rightarrow> string option"
  fo_partial :: "string \<Rightarrow> string"
  fo_dir :: "string \<Rightarrow> string"

definition backup_path :: "string \<Rightarrow> string \<Rightarrow> string" where
  "backup_path stamp p = p @ ''.'' @ stamp @ ''.bak''"

primrec archive :: "file_io \<Rightarrow> bool \<Rightarrow> string \<Rightarrow> string list \<Rightarrow> ca_files \<Rightarrow> string option \<times> ca_files" where
  "archive io force stamp [] fs = (None, fs)"
| "archive io force stamp (p # ps) fs =
     (if fs p = None then archive io force stamp ps fs
      else if \<not> force then (Some (''ca init: '' @ p @ '' already exists; pass --force to archive and replace''), fs)
      else case fo_fails io (Rename_op p) of
          Some e \<Rightarrow> (Some (''archive '' @ p @ '': '' @ e), fs)
        | None \<Rightarrow> archive io force stamp ps (fs(backup_path stamp p := fs p, p := None)))"

definition writePEM :: "crypto \<Rightarrow> file_io \<Rightarrow> string \<Rightarrow> string \<Rightarrow> string \<Rightarrow> nat \<Rightarrow> ca_files \<Rightarrow> string option \<times> ca_files" where
  "writePEM cr io path blockType der mode fs =
     (case fo_fails io (Open_op path) of
        Some e \<Rightarrow> (Some e, fs)
      | None \<Rightarrow>
          let m = (case fs path of Some (_, old) \<Rightarrow> old | None \<Rightarrow> mode) in
          (case fo_fails io (Encode_op path) of
             Some e \<Rightarrow> (Some e, fs(path \<mapsto> (fo_partial io path, m)))
           | None \<Rightarrow> (fo_fails io (Close_op path), fs(path \<mapsto> (cr_pem cr blockType der, m)))))"

definition ca_template :: "crypto \<Rightarrow> draw \<Rightarrow> cert_template" where
  "ca_template cr dr =
     \<lparr>ct_Serial = dr_serial dr, ct_CommonName = ''trollbridge local CA '' @ cr_hostname cr @ '' '' @ cr_date cr (dr_now dr),
      ct_Organization = [''trollbridge''], ct_NotBefore = dr_now dr - hour_ns, ct_NotAfter = dr_now dr + 10 * year_ns,
      ct_IsCA = True, ct_MaxPathLen = Some 0, ct_KeyUsage = [CertSign, CRLSign, DigitalSignature], ct_ExtKeyUsage = [], ct_DNSNames = [],
      ct_IPAddresses = []\<rparr>"

definition key_mode :: nat where "key_mode = 384"
definition cert_mode :: nat where "cert_mode = 420"

text \<open>What follows once the old files are out of the way.\<close>

definition create_ca ::
    "crypto \<Rightarrow> file_io \<Rightarrow> draw \<Rightarrow> string \<Rightarrow> string \<Rightarrow> string \<Rightarrow> ca_files \<Rightarrow> (string + ca) \<times> ca_files" where
  "create_ca cr io dr certPath keyPath kt fs =
     (case fo_fails io (Mkdir_op (fo_dir io certPath)) of Some e \<Rightarrow> (Inl e, fs) | None \<Rightarrow>
     (case fo_fails io (Mkdir_op (fo_dir io keyPath)) of Some e \<Rightarrow> (Inl e, fs) | None \<Rightarrow>
     (case generateKey cr dr kt of Inl e \<Rightarrow> (Inl e, fs) | Inr key \<Rightarrow>
     (case cr_create cr (ca_template cr dr) (ca_template cr dr) (cr_public cr key) key of Inl e \<Rightarrow> (Inl e, fs) | Inr der \<Rightarrow>
     (case writePEM cr io certPath ''CERTIFICATE'' der cert_mode fs of (Some e, fs1) \<Rightarrow> (Inl e, fs1) | (None, fs1) \<Rightarrow>
     (case cr_pkcs8 cr key of Inl e \<Rightarrow> (Inl e, fs1) | Inr keyDER \<Rightarrow>
     (case writePEM cr io keyPath ''PRIVATE KEY'' keyDER key_mode fs1 of (Some e, fs2) \<Rightarrow> (Inl e, fs2) | (None, fs2) \<Rightarrow>
     (case cr_parse cr der of Inl e \<Rightarrow> (Inl e, fs2) | Inr cert \<Rightarrow>
       (Inr \<lparr>ca_Cert = cert, ca_Key = key, ca_KeyType = kt, ca_certPath = certPath, ca_keyPath = keyPath,
         ca_leafKeyType = kt, ca_leafTTL = year_ns, ca_leafCache = Map.empty\<rparr>, fs2)))))))))"

definition InitCA ::
    "crypto \<Rightarrow> file_io \<Rightarrow> draw \<Rightarrow> string \<Rightarrow> string \<Rightarrow> string \<Rightarrow> bool \<Rightarrow> ca_files \<Rightarrow> (string + ca) \<times> ca_files" where
  "InitCA cr io dr certPath keyPath kt force fs =
     (case archive io force (cr_stamp cr (dr_now dr)) [certPath, keyPath] fs of
        (Some e, fs') \<Rightarrow> (Inl e, fs')
      | (None, fs') \<Rightarrow> create_ca cr io dr certPath keyPath (if kt = [] then ''rsa-4096'' else kt) fs')"

definition read_file :: "file_io \<Rightarrow> ca_files \<Rightarrow> string \<Rightarrow> string + string" where
  "read_file io fs p =
     (case fo_fails io (Read_op p) of
        Some e \<Rightarrow> Inl e
      | None \<Rightarrow> (case fs p of None \<Rightarrow> Inl (''open '' @ p @ '': no such file or directory'') | Some (c, _) \<Rightarrow> Inr c))"

fun octal :: "nat \<Rightarrow> string" where
  "octal n = (if n < 8 then [char_of (48 + n)] else octal (n div 8) @ [char_of (48 + n mod 8)])"

declare octal.simps [simp del]

definition checkKeyMode :: "ca_files \<Rightarrow> string \<Rightarrow> string option" where
  "checkKeyMode fs keyPath =
     (case fs keyPath of
        None \<Rightarrow> None
      | Some (_, m) \<Rightarrow>
          if m mod 512 > key_mode
          then Some (''ca load: key '' @ keyPath @ '' has mode '' @ octal (m mod 512) @ ''; refuse to load (must be 0600)'')
          else None)"

definition LoadCA :: "crypto \<Rightarrow> file_io \<Rightarrow> string \<Rightarrow> string \<Rightarrow> string \<Rightarrow> int \<Rightarrow> ca_files \<Rightarrow> string + ca" where
  "LoadCA cr io certPath keyPath leafKeyType leafTTL fs =
     (case read_file io fs certPath of Inl e \<Rightarrow> Inl (''ca load cert: '' @ e) | Inr cBytes \<Rightarrow>
     (case read_file io fs keyPath of Inl e \<Rightarrow> Inl (''ca load key: '' @ e) | Inr kBytes \<Rightarrow>
     (case checkKeyMode fs keyPath of Some e \<Rightarrow> Inl e | None \<Rightarrow>
     (case cr_unpem cr cBytes of None \<Rightarrow> Inl ''ca load: cert PEM decode failed'' | Some (_, cDER) \<Rightarrow>
     (case cr_parse cr cDER of Inl e \<Rightarrow> Inl (''ca load cert parse: '' @ e) | Inr cert \<Rightarrow>
     (case cr_unpem cr kBytes of None \<Rightarrow> Inl ''ca load: key PEM decode failed'' | Some (_, kDER) \<Rightarrow>
     (case cr_unpkcs8 cr kDER of Inl e \<Rightarrow> Inl (''ca load key parse: '' @ e) | Inr key \<Rightarrow>
       Inr \<lparr>ca_Cert = cert, ca_Key = key, ca_KeyType = [], ca_certPath = certPath, ca_keyPath = keyPath,
         ca_leafKeyType = (if leafKeyType = [] then ''rsa-4096'' else leafKeyType),
         ca_leafTTL = (if leafTTL \<le> 0 then year_ns else leafTTL), ca_leafCache = Map.empty\<rparr>)))))))"

section \<open>Leaves\<close>

text \<open>
  What the library promises of a certificate it created: it has the requested names, usages and
  constraints, its times are those of the request up to whole seconds, and it parses to itself.
\<close>

definition as_requested :: "cert_template \<Rightarrow> certificate \<Rightarrow> bool" where
  "as_requested t c \<longleftrightarrow>
     ct_CommonName c = ct_CommonName t \<and> ct_DNSNames c = ct_DNSNames t \<and> ct_IPAddresses c = ct_IPAddresses t
     \<and> ct_IsCA c = ct_IsCA t \<and> ct_KeyUsage c = ct_KeyUsage t \<and> ct_ExtKeyUsage c = ct_ExtKeyUsage t
     \<and> ct_NotBefore c \<le> ct_NotBefore t \<and> ct_NotAfter c \<le> ct_NotAfter t \<and> ct_NotAfter t - second_ns < ct_NotAfter c"

definition faithful_certs :: "crypto \<Rightarrow> bool" where
  "faithful_certs cr \<longleftrightarrow>
     (\<forall>t parent pub key der cert. cr_create cr t parent pub key = Inr der \<longrightarrow> cr_parse cr der = Inr cert
        \<longrightarrow> as_requested t cert \<and> ce_Raw cert = der)"

text \<open>A leaf that may be served for a host: for this host only, by a server only, with the chain to the root.\<close>

definition leaf_for :: "ca \<Rightarrow> string \<Rightarrow> int \<Rightarrow> tls_cert \<Rightarrow> bool" where
  "leaf_for c host now l \<longleftrightarrow>
     (\<exists>cert. tl_Leaf l = Some cert \<and> tl_Chain l = [ce_Raw cert, ce_Raw (ca_Cert c)]
        \<and> ct_CommonName cert = host \<and> ct_ExtKeyUsage cert = [ServerAuth] \<and> \<not> ct_IsCA cert
        \<and> (case ParseIP host of None \<Rightarrow> ct_DNSNames cert = [host] \<and> ct_IPAddresses cert = []
             | Some ip \<Rightarrow> ct_DNSNames cert = [] \<and> ct_IPAddresses cert = [ip])
        \<and> ct_NotBefore cert \<le> now)"

definition valid_until :: "int \<Rightarrow> tls_cert \<Rightarrow> bool" where
  "valid_until t l \<longleftrightarrow> (\<exists>cert. tl_Leaf l = Some cert \<and> t \<le> ct_NotAfter cert)"

lemma issue_as_requested:
  assumes "faithful_certs cr" "issue cr dr t c = Inr l"
  shows "\<exists>cert. tl_Leaf l = Some cert \<and> as_requested t cert \<and> tl_Chain l = [ce_Raw cert, ce_Raw (ca_Cert c)]"
  using assms by (auto simp: issue_def faithful_certs_def split: sum.splits)

lemma mint_leaf_fits:
  assumes "faithful_certs cr" "mint_leaf cr dr host c = Inr l"
  shows "leaf_for c host (dr_now dr) l \<and> valid_until (dr_now dr + ca_leafTTL c - second_ns) l"
proof -
  let ?t = "leaf_template dr host (ca_leafTTL c) [DigitalSignature, KeyEncipherment] ServerAuth [host]"
  obtain cert where c: "tl_Leaf l = Some cert" "as_requested ?t cert" "tl_Chain l = [ce_Raw cert, ce_Raw (ca_Cert c)]"
    using issue_as_requested [OF assms(1)] assms(2) unfolding mint_leaf_def by blast
  from c(2) have times: "ct_NotBefore cert \<le> dr_now dr" "dr_now dr + ca_leafTTL c - second_ns \<le> ct_NotAfter cert"
    by (simp_all add: as_requested_def leaf_template_def hour_ns_def)
  from c(2) have "ct_CommonName cert = host" "ct_ExtKeyUsage cert = [ServerAuth]" "\<not> ct_IsCA cert"
    "case ParseIP host of None \<Rightarrow> ct_DNSNames cert = [host] \<and> ct_IPAddresses cert = []
       | Some ip \<Rightarrow> ct_DNSNames cert = [] \<and> ct_IPAddresses cert = [ip]"
    by (simp_all add: as_requested_def leaf_template_def List.map_filter_simps split: option.split)
  with c(1,3) times show ?thesis by (simp add: leaf_for_def valid_until_def)
qed

lemma leaf_for_later: "leaf_for c host now l \<Longrightarrow> now \<le> later \<Longrightarrow> leaf_for c host later l"
  unfolding leaf_for_def by (elim exE) (intro exI, auto)

text \<open>The cache along any run of the operations that touch it.\<close>

datatype ca_op = Leaf_op draw string | Flush_op

definition ca_step :: "crypto \<Rightarrow> ca_op \<Rightarrow> ca \<Rightarrow> ca" where
  "ca_step cr a c = (case a of Leaf_op dr host \<Rightarrow> snd (LeafFor cr dr host c) | Flush_op \<Rightarrow> FlushCache c)"

definition before_op :: "int \<Rightarrow> ca_op \<Rightarrow> bool" where
  "before_op now a = (case a of Leaf_op dr _ \<Rightarrow> dr_now dr \<le> now | Flush_op \<Rightarrow> True)"

definition cache_ok :: "int \<Rightarrow> ca \<Rightarrow> bool" where
  "cache_ok now c \<longleftrightarrow> (\<forall>host l. ca_leafCache c host = Some l \<longrightarrow> leaf_for c host now l)"

definition same_ca :: "ca \<Rightarrow> ca \<Rightarrow> bool" where
  "same_ca c d \<longleftrightarrow> c\<lparr>ca_leafCache := Map.empty\<rparr> = d\<lparr>ca_leafCache := Map.empty\<rparr>"

lemma same_ca_parts: "same_ca c d \<Longrightarrow> ca_Cert c = ca_Cert d \<and> ca_leafTTL c = ca_leafTTL d"
  by (cases c; cases d) (simp add: same_ca_def)

lemma same_ca_cache [simp]: "same_ca (c\<lparr>ca_leafCache := m\<rparr>) d = same_ca c d"
  by (simp add: same_ca_def)

lemma LeafFor_same: "same_ca c d \<Longrightarrow> same_ca (snd (LeafFor cr dr host c)) d"
  by (auto simp: LeafFor_def split: option.split sum.split)

lemma leaf_for_cache [simp]: "leaf_for (c\<lparr>ca_leafCache := m\<rparr>) host now l = leaf_for c host now l"
  by (simp add: leaf_for_def)

lemma leaf_cache_put:
  "cache_ok now c \<Longrightarrow> leaf_for c host now l \<Longrightarrow> cache_ok now (c\<lparr>ca_leafCache := (ca_leafCache c)(host \<mapsto> l)\<rparr>)"
  by (simp add: cache_ok_def)

lemma leaf_cache_drop: "cache_ok now c \<Longrightarrow> cache_ok now (c\<lparr>ca_leafCache := (ca_leafCache c)(host := None)\<rparr>)"
  by (simp add: cache_ok_def)

lemma LeafFor_cases:
  obtains "snd (LeafFor cr dr host c) = c"
  | "snd (LeafFor cr dr host c) = c\<lparr>ca_leafCache := (ca_leafCache c)(host := None)\<rparr>"
  | l where "mint_leaf cr dr host c = Inr l" "snd (LeafFor cr dr host c) = c\<lparr>ca_leafCache := (ca_leafCache c)(host \<mapsto> l)\<rparr>"
  by (cases "ca_leafCache c host"; cases "mint_leaf cr dr host c"; cases "leafExpired (dr_now dr) (the (ca_leafCache c host))")
    (simp_all add: LeafFor_def)

lemma LeafFor_cache_ok:
  assumes "faithful_certs cr" "cache_ok now c" "dr_now dr \<le> now"
  shows "cache_ok now (snd (LeafFor cr dr host c))"
proof (rule LeafFor_cases [of cr dr host c])
  fix l
  assume l: "mint_leaf cr dr host c = Inr l" "snd (LeafFor cr dr host c) = c\<lparr>ca_leafCache := (ca_leafCache c)(host \<mapsto> l)\<rparr>"
  have "leaf_for c host now l" using mint_leaf_fits [OF assms(1) l(1)] leaf_for_later assms(3) by blast
  then show ?thesis using l(2) leaf_cache_put [OF assms(2)] by simp
qed (use assms(2) leaf_cache_drop in simp_all)

lemma same_ca_refl: "same_ca c c"
  by (simp add: same_ca_def)

lemma same_ca_trans: "same_ca c d \<Longrightarrow> same_ca d e \<Longrightarrow> same_ca c e"
  by (simp add: same_ca_def)

lemma FlushCache_ok: "cache_ok now (FlushCache c)"
  by (simp add: FlushCache_def cache_ok_def)

lemma ca_step_ok:
  assumes "faithful_certs cr" "cache_ok now c" "before_op now a"
  shows "cache_ok now (ca_step cr a c)"
proof (cases a)
  case (Leaf_op dr host)
  then show ?thesis using LeafFor_cache_ok [OF assms(1,2)] assms(3) by (simp add: ca_step_def before_op_def)
next
  case Flush_op
  then show ?thesis by (simp add: ca_step_def FlushCache_ok)
qed

lemma ca_step_same: "same_ca (ca_step cr a c) c"
proof (cases a)
  case (Leaf_op dr host)
  then show ?thesis using LeafFor_same [OF same_ca_refl] by (simp add: ca_step_def)
next
  case Flush_op
  then show ?thesis by (simp add: ca_step_def FlushCache_def same_ca_refl)
qed

lemma run_ok:
  assumes "faithful_certs cr" "\<forall>a \<in> set ops. before_op now a" "cache_ok now c"
  shows "cache_ok now (fold (ca_step cr) ops c) \<and> same_ca (fold (ca_step cr) ops c) c"
  using assms(2,3)
proof (induction ops arbitrary: c)
  case Nil
  then show ?case by (simp add: same_ca_refl)
next
  case (Cons a ops)
  have "cache_ok now (ca_step cr a c)" by (rule ca_step_ok [OF assms(1)]) (use Cons.prems in simp_all)
  with Cons.IH [of "ca_step cr a c"] Cons.prems(1)
  have "cache_ok now (fold (ca_step cr) (a # ops) c)" "same_ca (fold (ca_step cr) (a # ops) c) (ca_step cr a c)" by simp_all
  then show ?case using same_ca_trans [OF _ ca_step_same] by blast
qed

text \<open>
  C6: an intercepted client is served a certificate for its host and nothing else. After any requests for
  leaves and flushes of the cache, the leaf served for a host names exactly that host (as a DNS name or an
  address), may only authenticate servers (so it is no operator's certificate), is no authority, carries
  the chain to the root, has begun, and lasts for another hour or was made for the full lifetime just now.
\<close>

theorem served_leaf_fits_host:
  assumes "faithful_certs cr" "ca_leafCache c = Map.empty" "\<forall>a \<in> set ops. before_op (dr_now dr) a"
    and "fst (LeafFor cr dr host (fold (ca_step cr) ops c)) = Inr l"
  shows "leaf_for c host (dr_now dr) l
    \<and> (valid_until (dr_now dr + hour_ns) l \<or> valid_until (dr_now dr + ca_leafTTL c - second_ns) l)"
proof -
  let ?c = "fold (ca_step cr) ops c"
  have "cache_ok (dr_now dr) c" using assms(2) by (simp add: cache_ok_def)
  from run_ok [OF assms(1,3) this] have ok: "cache_ok (dr_now dr) ?c" and same: "same_ca ?c c" by simp_all
  have eq: "leaf_for ?c = leaf_for c" "ca_leafTTL ?c = ca_leafTTL c"
    using same_ca_parts [OF same] by (simp_all add: leaf_for_def fun_eq_iff)
  from assms(4) consider (cached) "ca_leafCache ?c host = Some l" "\<not> leafExpired (dr_now dr) l"
    | (minted) "mint_leaf cr dr host ?c = Inr l"
    by (auto simp: LeafFor_def split: option.splits sum.splits if_splits)
  then show ?thesis
  proof cases
    case cached
    then have "valid_until (dr_now dr + hour_ns) l"
      by (auto simp: leafExpired_def valid_until_def split: option.splits)
    then show ?thesis using cached(1) ok eq(1) by (simp add: cache_ok_def)
  next
    case minted
    then show ?thesis using mint_leaf_fits [OF assms(1) minted] eq by simp
  qed
qed

text \<open>A lifetime of an hour or less makes the cache useless: every connection waits for a new key.\<close>

lemma hour_long_leaf_never_reused:
  assumes "faithful_certs cr" "mint_leaf cr dr host c = Inr l" "ca_leafTTL c \<le> hour_ns" "dr_now dr < now"
  shows "leafExpired now l"
proof -
  let ?t = "leaf_template dr host (ca_leafTTL c) [DigitalSignature, KeyEncipherment] ServerAuth [host]"
  obtain cert where "tl_Leaf l = Some cert" "as_requested ?t cert"
    using issue_as_requested [OF assms(1)] assms(2) unfolding mint_leaf_def by blast
  then show ?thesis using assms(3,4) by (simp add: leafExpired_def as_requested_def leaf_template_def)
qed

text \<open>An operator's certificate authenticates clients only, and has a name.\<close>

lemma client_cert_is_no_server:
  assumes "faithful_certs cr" "IssueClientCert cr dr name c = Inr l"
  shows "\<exists>cert. tl_Leaf l = Some cert \<and> ct_ExtKeyUsage cert = [ClientAuth] \<and> \<not> ct_IsCA cert \<and> ct_CommonName cert = name
    \<and> name \<noteq> [] \<and> ct_DNSNames cert = [] \<and> ct_IPAddresses cert = []"
proof -
  obtain cert where "tl_Leaf l = Some cert" "as_requested (leaf_template dr name year_ns [DigitalSignature] ClientAuth []) cert"
    using issue_as_requested [OF assms(1), of dr "leaf_template dr name year_ns [DigitalSignature] ClientAuth []" c l] assms(2)
    by (auto simp: IssueClientCert_def split: if_splits)
  moreover have "name \<noteq> []" using assms(2) by (auto simp: IssueClientCert_def)
  ultimately show ?thesis by (simp add: as_requested_def leaf_template_def List.map_filter_simps)
qed

section \<open>A new authority\<close>

text \<open>What a file held is still on disk, in its place or in the archive.\<close>

definition kept :: "string \<Rightarrow> string \<Rightarrow> ca_files \<Rightarrow> ca_files \<Rightarrow> bool" where
  "kept stamp p fs fs' \<longleftrightarrow> fs' p = fs p \<or> fs' (backup_path stamp p) = fs p"

lemma backup_differs [simp]: "backup_path stamp p \<noteq> p" "p \<noteq> backup_path stamp p"
  by (simp_all add: backup_path_def)

lemma backup_injective [simp]: "backup_path stamp p = backup_path stamp q \<longleftrightarrow> p = q"
  by (simp add: backup_path_def)

lemma writePEM_elsewhere: "p \<noteq> path \<Longrightarrow> snd (writePEM cr io path bt der m fs) p = fs p"
  by (simp add: writePEM_def Let_def split: option.split)

lemma create_ca_files:
  assumes "P fs" "\<And>der. P (snd (writePEM cr io certPath ''CERTIFICATE'' der cert_mode fs))"
    and "\<And>der k. P (snd (writePEM cr io keyPath ''PRIVATE KEY'' k key_mode (snd (writePEM cr io certPath ''CERTIFICATE'' der cert_mode fs))))"
  shows "P (snd (create_ca cr io dr certPath keyPath kt fs))"
proof -
  have one: "P f" if "writePEM cr io certPath ''CERTIFICATE'' der cert_mode fs = (e, f)" for e f der
    using assms(2) [of der] that by simp
  have two: "P g" if "writePEM cr io certPath ''CERTIFICATE'' der cert_mode fs = (e, f)"
    "writePEM cr io keyPath ''PRIVATE KEY'' k key_mode f = (e', g)" for e f der k e' g
    using assms(3) [where der = der and k = k] that by simp
  show ?thesis unfolding create_ca_def
    by (auto split: option.split sum.split prod.split intro: one two assms(1))
qed

lemma create_ca_elsewhere:
  assumes "p \<noteq> certPath" "p \<noteq> keyPath"
  shows "snd (create_ca cr io dr certPath keyPath kt fs) p = fs p"
  by (rule create_ca_files) (simp_all add: writePEM_elsewhere assms)

lemma archive_unforced: "archive io False stamp ps fs = (e, fs') \<Longrightarrow> fs' = fs \<and> (e = None \<longrightarrow> (\<forall>p \<in> set ps. fs p = None))"
  by (induction ps arbitrary: fs) (auto split: if_splits)

lemma archive_forced:
  assumes "certPath \<noteq> keyPath" "backup_path stamp certPath \<noteq> keyPath" "backup_path stamp keyPath \<noteq> certPath"
    and "archive io True stamp [certPath, keyPath] fs = (e, fs')"
  shows "(p \<notin> {certPath, keyPath, backup_path stamp certPath, backup_path stamp keyPath} \<longrightarrow> fs' p = fs p)
    \<and> (p \<in> {certPath, keyPath} \<and> fs p \<noteq> None \<longrightarrow> fs' p = fs p \<and> e \<noteq> None \<or> fs' (backup_path stamp p) = fs p)"
  using assms by (auto split: if_splits option.splits)

text \<open>
  C30: making a new authority destroys nothing. Whatever fails on the way, every file that was there is
  still there with its contents and its mode, in its place, or, when the operator forces the replacement, the old
  certificate and key under their archive names, provided these names are free.
\<close>

theorem init_destroys_nothing:
  assumes "InitCA cr io dr certPath keyPath kt force fs = (r, fs')" "fs p \<noteq> None" "certPath \<noteq> keyPath"
    and "fs (backup_path (cr_stamp cr (dr_now dr)) certPath) = None" "fs (backup_path (cr_stamp cr (dr_now dr)) keyPath) = None"
    and "backup_path (cr_stamp cr (dr_now dr)) certPath \<noteq> keyPath" "backup_path (cr_stamp cr (dr_now dr)) keyPath \<noteq> certPath"
  shows "fs' p = fs p \<or> force \<and> p \<in> {certPath, keyPath} \<and> fs' (backup_path (cr_stamp cr (dr_now dr)) p) = fs p"
proof -
  let ?stamp = "cr_stamp cr (dr_now dr)"
  obtain e fs1 where ar: "archive io force ?stamp [certPath, keyPath] fs = (e, fs1)" by fastforce
  have made: "fs' q = fs1 q" if "e \<noteq> None \<or> q \<noteq> certPath \<and> q \<noteq> keyPath" for q
    using assms(1) ar that create_ca_elsewhere [of q certPath keyPath cr io dr "if kt = [] then ''rsa-4096'' else kt" fs1]
    by (auto simp: InitCA_def split: option.splits)
  show ?thesis
  proof (cases force)
    case False
    from ar have "archive io False ?stamp [certPath, keyPath] fs = (e, fs1)" by (simp only: False)
    from archive_unforced [OF this] have "fs1 = fs" "e = None \<longrightarrow> fs certPath = None \<and> fs keyPath = None" by simp_all
    then show ?thesis using made [of p] assms(2) by metis
  next
    case True
    from ar have "archive io True ?stamp [certPath, keyPath] fs = (e, fs1)" by (simp only: True)
    note old = archive_forced [OF assms(3,6,7) this, of p]
    have "p \<noteq> backup_path ?stamp certPath" "p \<noteq> backup_path ?stamp keyPath" using assms(2,4,5) by auto
    show ?thesis
    proof (cases "p \<in> {certPath, keyPath}")
      case False
      then have "fs1 p = fs p" using old \<open>p \<noteq> backup_path ?stamp certPath\<close> \<open>p \<noteq> backup_path ?stamp keyPath\<close> by blast
      then show ?thesis using made [of p] False by simp
    next
      case path: True
      have "fs' (backup_path ?stamp p) = fs1 (backup_path ?stamp p)"
        by (rule made) (use path assms(6,7) in auto)
      then show ?thesis using old made [of p] path True assms(2) by metis
    qed
  qed
qed

text \<open>A codec for files reads back what it wrote.\<close>

definition file_codec :: "crypto \<Rightarrow> bool" where
  "file_codec cr \<longleftrightarrow>
     (\<forall>b. cr_unpem cr (cr_pem cr ''CERTIFICATE'' b) = Some (''CERTIFICATE'', b)
        \<and> cr_unpem cr (cr_pem cr ''PRIVATE KEY'' b) = Some (''PRIVATE KEY'', b))
     \<and> (\<forall>key der. cr_pkcs8 cr key = Inr der \<longrightarrow> cr_unpkcs8 cr der = Inr key)"

lemma writePEM_done:
  assumes "writePEM cr io path bt der m fs = (None, fs')"
  shows "fs' = fs(path \<mapsto> (cr_pem cr bt der, case fs path of Some (_, old) \<Rightarrow> old | None \<Rightarrow> m))"
  using assms by (auto simp: writePEM_def Let_def split: option.splits)

lemma create_ca_done:
  assumes "create_ca cr io dr certPath keyPath kt fs = (Inr c, fs')"
  obtains der keyDER fs1 where "writePEM cr io certPath ''CERTIFICATE'' der cert_mode fs = (None, fs1)"
    "writePEM cr io keyPath ''PRIVATE KEY'' keyDER key_mode fs1 = (None, fs')" "cr_pkcs8 cr (ca_Key c) = Inr keyDER"
    "cr_parse cr der = Inr (ca_Cert c)" "ca_certPath c = certPath" "ca_keyPath c = keyPath"
    "ca_leafKeyType c = kt" "ca_leafTTL c = year_ns" "ca_leafCache c = Map.empty"
  using assms unfolding create_ca_def
  by (auto split: option.splits sum.splits prod.splits)

lemma archive_clears_key: "archive io force stamp [certPath, keyPath] fs = (None, fs') \<Longrightarrow> fs' keyPath = None"
  by (auto split: if_splits option.splits)

text \<open>
  An authority that was created can be loaded. What \<open>Init\<close> wrote, \<open>Load\<close> reads back as the same certificate and
  key with the same settings and an empty cache: the key file was created anew, so its mode passes the
  check. Only the type of the root key is not recovered.
\<close>

lemma init_loads_back:
  assumes "file_codec cr" "InitCA cr io dr certPath keyPath kt force fs = (Inr c, fs')" "certPath \<noteq> keyPath"
    and "fo_fails io (Read_op certPath) = None" "fo_fails io (Read_op keyPath) = None"
  shows "LoadCA cr io certPath keyPath (ca_leafKeyType c) (ca_leafTTL c) fs' = Inr (c\<lparr>ca_KeyType := []\<rparr>)"
proof -
  let ?stamp = "cr_stamp cr (dr_now dr)" and ?kt = "if kt = [] then ''rsa-4096'' else kt"
  obtain e fs1 where ar: "archive io force ?stamp [certPath, keyPath] fs = (e, fs1)" by fastforce
  then have e: "e = None" and made: "create_ca cr io dr certPath keyPath ?kt fs1 = (Inr c, fs')"
    using assms(2) by (auto simp: InitCA_def split: option.splits)
  from made obtain der keyDER fs2 where w: "writePEM cr io certPath ''CERTIFICATE'' der cert_mode fs1 = (None, fs2)"
    "writePEM cr io keyPath ''PRIVATE KEY'' keyDER key_mode fs2 = (None, fs')" "cr_pkcs8 cr (ca_Key c) = Inr keyDER"
    "cr_parse cr der = Inr (ca_Cert c)" "ca_certPath c = certPath" "ca_keyPath c = keyPath"
    "ca_leafKeyType c = ?kt" "ca_leafTTL c = year_ns" "ca_leafCache c = Map.empty"
    by (rule create_ca_done)
  have "fs1 keyPath = None" using archive_clears_key ar e by blast
  then have "fs2 keyPath = None" using writePEM_done [OF w(1)] assms(3) by simp
  then have key: "fs' keyPath = Some (cr_pem cr ''PRIVATE KEY'' keyDER, key_mode)"
    using writePEM_done [OF w(2)] by simp
  obtain m where cert: "fs' certPath = Some (cr_pem cr ''CERTIFICATE'' der, m)"
    using writePEM_done [OF w(1)] writePEM_done [OF w(2)] assms(3) by simp
  have mode: "checkKeyMode fs' keyPath = None" using key by (simp add: checkKeyMode_def key_mode_def)
  have codec: "cr_unpem cr (cr_pem cr ''CERTIFICATE'' der) = Some (''CERTIFICATE'', der)"
    "cr_unpem cr (cr_pem cr ''PRIVATE KEY'' keyDER) = Some (''PRIVATE KEY'', keyDER)" "cr_unpkcs8 cr keyDER = Inr (ca_Key c)"
    using assms(1) w(3) by (simp_all add: file_codec_def)
  have kinds: "ca_leafKeyType c \<noteq> []" "ca_leafTTL c > 0" using w(7,8) by (simp_all add: year_ns_def hour_ns_def)
  show ?thesis
    using key cert mode codec kinds w(4-6,9) assms(4,5) by (simp add: LoadCA_def read_file_def)
qed

text \<open>
  The mode of the key is compared as a number: a key that everybody may read (mode 0444) passes when
  its owner may not write it.
\<close>

lemma readable_key_accepted: "checkKeyMode [''k'' \<mapsto> (''key'', 292)] ''k'' = None"
  by (simp add: checkKeyMode_def key_mode_def)

section \<open>Examples\<close>

definition demo_draw :: draw where "demo_draw = \<lparr>dr_now = 10, dr_serial = 1, dr_key = 0\<rparr>"

definition demo_template :: cert_template where
  "demo_template = leaf_template demo_draw ''a.com'' year_ns [DigitalSignature, KeyEncipherment] ServerAuth [''a.com'']"

definition demo_root :: cert_template where
  "demo_root = \<lparr>ct_Serial = 1, ct_CommonName = ''trollbridge local CA h d'', ct_Organization = [''trollbridge''],
     ct_NotBefore = 10 - hour_ns, ct_NotAfter = 10 + 10 * year_ns, ct_IsCA = True, ct_MaxPathLen = Some 0,
     ct_KeyUsage = [CertSign, CRLSign, DigitalSignature], ct_ExtKeyUsage = [], ct_DNSNames = [], ct_IPAddresses = []\<rparr>"

definition demo_crypto :: crypto where
  "demo_crypto = \<lparr>cr_rsa = (\<lambda>_. Inr ''K''), cr_ecdsa = (\<lambda>_. Inr ''E''), cr_public = id,
     cr_create = (\<lambda>t _ _ _. if t = demo_root then Inr ''R'' else if t = demo_template then Inr ''L'' else Inl ''no''),
     cr_parse = (\<lambda>d. if d = ''L'' then Inr (cert_template.extend demo_template \<lparr>ce_Raw = ''L''\<rparr>)
       else if d = ''R'' then Inr (cert_template.extend demo_root \<lparr>ce_Raw = ''R''\<rparr>) else Inl ''no''),
     cr_pkcs8 = Inr, cr_unpkcs8 = Inr, cr_pem = (\<lambda>t b. hd t # b),
     cr_unpem = (\<lambda>s. Some (if hd s = CHR ''C'' then ''CERTIFICATE'' else ''PRIVATE KEY'', tl s)),
     cr_stamp = (\<lambda>_. ''t''), cr_date = (\<lambda>_. ''d''), cr_hostname = ''h'', cr_quote = id\<rparr>"

lemma demo_requested:
  "as_requested t (cert_template.extend t \<lparr>ce_Raw = d\<rparr>)" "ce_Raw (cert_template.extend t \<lparr>ce_Raw = d\<rparr>) = d"
  by (cases t; simp add: as_requested_def cert_template.defs second_ns_def)+

lemma demo_faithful: "faithful_certs demo_crypto"
  unfolding faithful_certs_def demo_crypto_def by (auto simp: demo_requested split: if_splits)

definition demo_ca :: ca where
  "demo_ca = \<lparr>ca_Cert = cert_template.extend demo_root \<lparr>ce_Raw = ''R''\<rparr>, ca_Key = ''K'', ca_KeyType = [],
     ca_certPath = ''c'', ca_keyPath = ''k'', ca_leafKeyType = [], ca_leafTTL = year_ns, ca_leafCache = Map.empty\<rparr>"

lemma demo_mints: "\<exists>l. mint_leaf demo_crypto demo_draw ''a.com'' demo_ca = Inr l"
  by (simp add: mint_leaf_def issue_def generateKey_def demo_ca_def demo_crypto_def demo_template_def leaf_template_def)

theorem served_leaf_fits_host_witness:
  "\<exists>l. fst (LeafFor demo_crypto demo_draw ''a.com'' (fold (ca_step demo_crypto) [Flush_op] demo_ca)) = Inr l
     \<and> leaf_for demo_ca ''a.com'' 10 l"
proof -
  obtain l where "mint_leaf demo_crypto demo_draw ''a.com'' demo_ca = Inr l" using demo_mints by blast
  then have l: "fst (LeafFor demo_crypto demo_draw ''a.com'' (fold (ca_step demo_crypto) [Flush_op] demo_ca)) = Inr l"
    by (simp add: ca_step_def FlushCache_def LeafFor_def mint_leaf_def issue_def demo_ca_def)
  have "\<forall>a \<in> set [Flush_op]. before_op (dr_now demo_draw) a" by (simp add: before_op_def)
  from served_leaf_fits_host [OF demo_faithful _ this l] l show ?thesis by (auto simp: demo_ca_def demo_draw_def)
qed

definition demo_files :: ca_files where "demo_files = [''c'' \<mapsto> (''old'', 420)]"

definition demo_io :: file_io where
  "demo_io = \<lparr>fo_fails = (\<lambda>_. None), fo_partial = (\<lambda>_. []), fo_dir = id\<rparr>"

lemma demo_init: "\<exists>c fs. InitCA demo_crypto demo_io demo_draw ''c'' ''k'' [] True demo_files = (Inr c, fs) \<and> fs ''c'' = Some (''CR'', 420)"
  by (simp add: InitCA_def create_ca_def writePEM_def demo_io_def demo_files_def demo_crypto_def generateKey_def ca_template_def demo_root_def demo_draw_def
      backup_path_def cert_mode_def)

theorem init_destroys_nothing_witness:
  "\<exists>c fs. InitCA demo_crypto demo_io demo_draw ''c'' ''k'' [] True demo_files = (Inr c, fs) \<and> fs ''c.t.bak'' = Some (''old'', 420)"
proof -
  obtain c fs where i: "InitCA demo_crypto demo_io demo_draw ''c'' ''k'' [] True demo_files = (Inr c, fs)" "fs ''c'' = Some (''CR'', 420)"
    using demo_init by blast
  have "cr_stamp demo_crypto (dr_now demo_draw) = ''t''" by (simp add: demo_crypto_def)
  with init_destroys_nothing [OF i(1), of "''c''"] i show ?thesis
    by (simp add: demo_files_def backup_path_def)
qed

lemma init_loads_back_example:
  "\<exists>c fs d. InitCA demo_crypto demo_io demo_draw ''c'' ''k'' [] True demo_files = (Inr c, fs)
     \<and> LoadCA demo_crypto demo_io ''c'' ''k'' (ca_leafKeyType c) (ca_leafTTL c) fs = Inr d"
proof -
  obtain c fs where i: "InitCA demo_crypto demo_io demo_draw ''c'' ''k'' [] True demo_files = (Inr c, fs)"
    using demo_init by blast
  have "file_codec demo_crypto" by (simp add: file_codec_def demo_crypto_def)
  from init_loads_back [OF this i] i show ?thesis by (simp add: demo_io_def)
qed

end
