(* ===== verification/Spec2Isabelle.thy ===== *)
theory Spec2Isabelle
  imports HostListSort URLPattern ApprovalsProtocol ReloadStatus ServerIntercept OperatorPersist Suggestion Config
    OperatorLine OperatorRun ReloadBadge TuiWidth HoldWatch Translator CertAuthority
begin

text \<open>
  Trollbridge: a verification development of its core.

  The program. Trollbridge is an HTTP forward proxy that lets the requests of an agent through only
  when somebody allowed them. A request (plain HTTP, a CONNECT tunnel, or a request inside an
  intercepted tunnel) is decided in order by the time-boxed open window, the deny list, the allow list,
  the rules, and, when a rule or the mode asks, by the language model that advises and by the operator,
  for whom the request is held. Operators see the requests in a terminal console, in the process of the
  proxy or attached over a control plane with client certificates; their verdicts are written to the
  configuration file, which is watched and reloaded. At quiet moments the program suggests entries that
  generalize the ones operators have allowed or denied.

  How the parts interact. \<open>ServerHTTP\<close> and \<open>ServerIntercept\<close> call the decision pipeline of
  \<open>Server\<close>, which uses \<open>HostList\<close>, \<open>Policy\<close>, \<open>OpenMode\<close>, \<open>Advisor\<close>, \<open>Approvals\<close>, \<open>Sessions\<close>,
  \<open>OpStream\<close>, \<open>Redact\<close> and \<open>AuditLog\<close>. A verdict on a hold goes from the console (\<open>TuiReducer\<close>) through
  a client (\<open>OperatorRun\<close>, \<open>OperatorClient\<close>), for an attached console through the control plane
  (\<open>Control\<close>), to the queue (\<open>Approvals\<close>), whose callback (\<open>OperatorPersist\<close>) writes the list
  (\<open>ConfigWrite\<close>); the file comes back into the server through \<open>ConfigWatch\<close>.

  Theories, the code they model (files below \<open>src/internal\<close> unless said otherwise), and what their lemmas
  show.

  \<^item> \<open>GoStrings\<close>, \<open>GoUtf8\<close>, \<open>GoNet\<close>, \<open>Prelude\<close>: the functions of Go's library that the code uses
    (strings, numbers, UTF-8, addresses), stable sorting by a comparator, association lists for ranged
    maps, and the locale of comparators with its interpretations.
  \<^item> \<open>Types\<close> (\<open>types\<close>): requests, decisions, effects, sources.
  \<^item> \<open>HostList\<close>, \<open>HostListSort\<close> (\<open>hostlist\<close>): entries, matching, loading, subsumption, order. Subsumption
    is containment of the matched requests; sorting is canonical.
  \<^item> \<open>TimeWindow\<close>, \<open>PolicyHistory\<close>, \<open>Policy\<close>, \<open>URLPattern\<close> (\<open>policy\<close>, \<open>pattern\<close>): rules, their matching,
    loading and reload, the decision history, the URL shapes. The deciding rule is the first of the
    highest priority; a missing body never turns a denial into an allow; a reload is all or nothing.
  \<^item> \<open>Approvals\<close>, \<open>ApprovalsProtocol\<close> (\<open>approvals\<close>): the queue of held requests with an explicit store
    of holds and of channels, and the interleaved system of resolvers, waiters and shutdown as a step
    relation. A hold is resolved and persisted at most once, its waiters agree, every wait can return;
    the uninterrupted operations are runs of the system.
  \<^item> \<open>OpenMode\<close>, \<open>Sessions\<close>, \<open>OpStream\<close>, \<open>Redact\<close>, \<open>AuditLog\<close>, \<open>ReloadStatus\<close>: the open window with Go's
    wrapping durations, identities and sessions, the bounded ring of recent requests, masking of
    credentials, the audit logger as an interleaved system, the outcome of reloads per source.
  \<^item> \<open>Advisor\<close> (\<open>advisor\<close>): classification in two halves around the provider's call, with cache, floor and
    fallbacks. Only an explicit allow of sufficient confidence, or the configuration, allows a request.
  \<^item> \<open>Translator\<close> (the translators, \<open>aoai_endpoint.go\<close> and \<open>HTTPClassifier\<close> of \<open>advisor\<close>): the provider over
    HTTP in its three wire formats. Only a call of the tool in a successful reply counts, and it is read
    back as it was sent; errors are told apart; an endpoint is normalized once.
  \<^item> \<open>Server\<close>, \<open>ServerHTTP\<close>, \<open>ServerIntercept\<close>, \<open>Forward\<close>, \<open>Refusal\<close>, \<open>TLSDiag\<close> (\<open>server\<close>): the pipeline
    and the handlers, each split where it waits. Nothing is forwarded that was not allowed; the deny
    list wins; every request is audited once; refusals are 470 or 471; which headers reach the origin.
  \<^item> \<open>HoldWatch\<close> (\<open>holdInterceptedRequest\<close> of \<open>server/intercept.go\<close>): the hold of an intercepted request, with
    the goroutine that watches for its client to go away, as a step relation. The waiter is given up only
    for a client that has gone, and the handler can always return.
  \<^item> \<open>CertAuthority\<close> (\<open>ca\<close>): creating, loading and using the certificate authority. A served leaf fits its
    host, authenticates servers only and is in force; creating an authority destroys no file and can be
    loaded back.
  \<^item> \<open>Config\<close>, \<open>ConfigWrite\<close>, \<open>ConfigWatch\<close> (\<open>config\<close>, \<open>configwrite\<close>, \<open>configwatch\<close>): defaults and
    validation; every edit of the file as an edit of its YAML tree; the watcher with the two reloads of
    \<open>cmd/trollbridge/run.go\<close> as steps that interleave with edits. Edits come into force within ten
    steps of the daemon on schedules whose writes and reloads do not overlap; three schedules outside
    that bound lose an edit.
  \<^item> \<open>Generalize\<close>, \<open>PatternDetect\<close>, \<open>Suggestion\<close> (\<open>generalize\<close>, \<open>suggestion\<close>): the detectors, the choice of
    what to offer, and the life of a suggestion. What is offered covers its sources and was not
    declined; declining ends.
  \<^item> \<open>OperatorPersist\<close>, \<open>ListWriter\<close> (\<open>cmd/trollbridge/run.go\<close>): the entry written for a verdict, and the
    writer behind the control plane, with the contract of a list writer as a locale.
  \<^item> \<open>Console\<close> (\<open>console\<close>): the commands an operator types. A command changes at most the configuration
    file, and only a list command does.
  \<^item> \<open>TuiModel\<close>, \<open>TuiReducer\<close>, \<open>TuiRows\<close>, \<open>TuiSafety\<close>, \<open>TuiActions\<close>, \<open>TuiTerminal\<close>, \<open>OperatorRun\<close>,
    \<open>OperatorLine\<close>, \<open>ReloadBadge\<close> (\<open>tui\<close>): the model, events and reducer of the terminal console, the rows
    it shows, keys from bytes, frames to changed lines, the runtime between commands and events. It
    does not panic, shows every waiting request, keeps the cursor on its request, and decides exactly
    the selected one.
  \<^item> \<open>TuiBorder\<close>, \<open>TuiPanes\<close>, \<open>TuiFrame\<close>, \<open>TuiFit\<close>, \<open>TuiWidth\<close> (\<open>tui/border.go\<close>, \<open>tui/approvals.go\<close>): the
    frame drawn for a model, as the lines of its panes over runes. It has one line per row of the
    terminal, none wider than the terminal, and the row a key decides on is drawn and highlighted; the
    bounds (eight rows, 49 columns, ten rows with a panel open) are the ones the code needs, and
    lemmas show what it draws below them.
  \<^item> \<open>Control\<close>, \<open>ControlSafety\<close>, \<open>AttachMode\<close>, \<open>OperatorClient\<close> (\<open>control\<close>, \<open>controlclient\<close>, \<open>tui\<close>,
    \<open>cmd/trollbridge/attach.go\<close>): every endpoint over the state it reads or changes, and both clients of
    the console. Without a verified certificate nothing changes; both clients do the same.

  Conventions. A struct is a record, an error a value of a sum or option type, a slice access that Go
  would panic on the value \<open>None\<close> of the result or an explicit branch. Integers that can overflow are wrapped
  at 64 bits (\<open>wrap64\<close>); lengths and counters are natural numbers. Strings are lists of bytes. A
  clock is read once per operation and is an argument. Maps that the code ranges over are association
  lists, and the results that matter do not depend on their order. Operations under a lock are one
  step; where the interleaving of several goroutines matters (approval queue, audit log, advisor,
  watchers) there is a step relation or a run of steps, and the properties hold for every schedule, or
  for those the property describes. No fuel is used: every function is total by structural recursion or
  by a measure.

  Parameters, with what is assumed of them where a property needs it: regular expressions, the time zone
  database, SHA-256, keys and X.509 (a created certificate
  is the one requested, up to whole seconds), JSON and YAML coding (a YAML document prints to a text that reads back as it), the
  parsing of URLs and media types, the local time of an instant, the public suffix list, identifiers, the advisor's provider, its prompt texts and HTTP client, the
  result of each file write, the callbacks of the console, the updater.

  Not modelled. The network itself (listeners, connections, the copying of bodies and tunnels), TLS
  connections, construction and shutdown of the server, the terminal modes, operational logging, and the
  commands around the proxy (setup wizards, certificate installation, diagnosis, update): they are
  input and output around the modelled state, calls into libraries, or printed text.

  Limits. Case folding is ASCII. The code is modelled as it is, not as its comments describe it; lemmas
  named after a concrete behaviour (for instance \<open>external_edit_lost\<close>, \<open>failed_removal_reported_done\<close>,
  \<open>large_port_panics\<close>, \<open>leaked_arrow_accepts\<close>) show where the two differ or where an input was not
  considered.
\<close>

end
